(* ===== verification/Prelude.thy ===== *)
theory Prelude
  imports Main "HOL-Library.Word" "HOL-Library.Signed_Division"
begin

text \<open>
  What every theory of the library shares: the names of the machine integer types, the outcome of
  a C++ call (a value, an exception, or undefined behaviour), and the arithmetic of ring buffers.

  Unsigned C++ integers are words of their width, so sums, differences and products wrap as they
  do in the code. Signed 64 and 128 bit integers are \<open>int\<close> values kept in their range by
  \<open>wrap64\<close> and \<open>wrap128\<close>: where C++ leaves a signed overflow undefined the model wraps,
  and the theorems that depend on it say that no overflow happens.
\<close>

type_synonym u8 = "8 word"
type_synonym u16 = "16 word"
type_synonym u32 = "32 word"
type_synonym u64 = "64 word"

named_theorems ring_arith \<open>index arithmetic of the ring buffers\<close>
named_theorems outcome_simps \<open>how the outcome combinators compute\<close>

section \<open>Signed integers\<close>

definition wrap64 :: "int \<Rightarrow> int" where
  "wrap64 x = signed_take_bit 63 x"

definition wrap128 :: "int \<Rightarrow> int" where
  "wrap128 x = signed_take_bit 127 x"

definition i64_ok :: "int \<Rightarrow> bool" where
  "i64_ok x \<longleftrightarrow> - (2 ^ 63) \<le> x \<and> x < 2 ^ 63"

lemma wrap64_id: "i64_ok x \<Longrightarrow> wrap64 x = x"
  by (simp add: wrap64_def i64_ok_def signed_take_bit_int_eq_self)

lemma i64_ok_wrap64: "i64_ok (wrap64 x)"
  using signed_take_bit_int_greater_eq_minus_exp [of 63 x] signed_take_bit_int_less_exp [of 63 x]
  by (simp add: wrap64_def i64_ok_def)

lemma wrap128_id: "- (2 ^ 127) \<le> x \<Longrightarrow> x < 2 ^ 127 \<Longrightarrow> wrap128 x = x"
  by (simp add: wrap128_def signed_take_bit_int_eq_self)

lemma wrap128_id_abs: "\<bar>x\<bar> < 2 ^ 127 \<Longrightarrow> wrap128 x = x"
  by (rule wrap128_id) linarith+

lemma sdiv_pos: "0 \<le> a \<Longrightarrow> 0 < b \<Longrightarrow> a sdiv b = a div b" for a b :: int
  by (simp add: signed_divide_int_def sgn_if)

lemma smod_pos: "0 \<le> a \<Longrightarrow> 0 < b \<Longrightarrow> a smod b = a mod b" for a b :: int
  by (simp add: signed_modulo_int_def sgn_if)

lemma int_div_less: "0 < n \<Longrightarrow> x < k * n \<Longrightarrow> x div n < k" for x n k :: int
proof -
  assume n: "0 < n" and "x < k * n"
  moreover have "x div n * n \<le> x"
    using n by (simp flip: minus_mod_eq_div_mult)
  ultimately have "x div n * n < k * n" by linarith
  with n show ?thesis by simp
qed

lemma int_div_eq_window: "i * b \<le> x \<Longrightarrow> x < i * b + b \<Longrightarrow> x div b = i" for x b i :: int
  by (rule int_div_pos_eq [where r = "x - i * b"]) (auto simp: mult.commute)

section \<open>Status codes\<close>

datatype mxlStatus =
    MXL_STATUS_OK
  | MXL_ERR_UNKNOWN
  | MXL_ERR_FLOW_NOT_FOUND
  | MXL_ERR_OUT_OF_RANGE_TOO_LATE
  | MXL_ERR_OUT_OF_RANGE_TOO_EARLY
  | MXL_ERR_INVALID_FLOW_READER
  | MXL_ERR_INVALID_FLOW_WRITER
  | MXL_ERR_TIMEOUT
  | MXL_ERR_INVALID_ARG
  | MXL_ERR_CONFLICT
  | MXL_ERR_PERMISSION_DENIED
  | MXL_ERR_FLOW_INVALID
  | MXL_ERR_STRLEN
  | MXL_ERR_INTERRUPTED
  | MXL_ERR_NO_FABRIC
  | MXL_ERR_INVALID_STATE
  | MXL_ERR_INTERNAL
  | MXL_ERR_NOT_READY
  | MXL_ERR_NOT_FOUND
  | MXL_ERR_EXISTS
  | MXL_ERR_UNSUPPORTED_OPERATION

section \<open>Outcomes\<close>

text \<open>
  The exceptions the library throws, by their C++ type; the errno value is kept where a handler
  looks at it, the status of an \<open>ofi::Exception\<close> likewise. \<open>Crash\<close> is a state C++ gives no meaning to (a division by zero, a null
  dereference, an empty optional dereferenced) or the end of the process: no handler sees it.
\<close>

datatype exn =
    InvalidArgument
  | DomainError
  | RuntimeError
  | FilesystemError nat
  | SystemError nat
  | StatusException mxlStatus
  | OtherException

datatype crash =
    DivisionByZero
  | NullDereference
  | EmptyOptional
  | BadIterator
  | CastOutOfRange
  | BadDowncast
  | DanglingPointer
  | Terminate

datatype 'a outcome = Ret 'a | Throw exn | Crash crash

fun obind :: "'a outcome \<Rightarrow> ('a \<Rightarrow> 'b outcome) \<Rightarrow> 'b outcome" where
  "obind (Ret a) f = f a"
| "obind (Throw e) f = Throw e"
| "obind (Crash c) f = Crash c"

definition othrow_unless :: "bool \<Rightarrow> exn \<Rightarrow> unit outcome" where
  "othrow_unless b e = (if b then Ret () else Throw e)"

lemma obind_eq_Ret [outcome_simps]:
  "obind m f = Ret b \<longleftrightarrow> (\<exists>a. m = Ret a \<and> f a = Ret b)"
  by (cases m) auto

lemma obind_eq_Throw [outcome_simps]:
  "obind m f = Throw e \<longleftrightarrow> m = Throw e \<or> (\<exists>a. m = Ret a \<and> f a = Throw e)"
  by (cases m) auto

lemma obind_eq_Crash [outcome_simps]:
  "obind m f = Crash c \<longleftrightarrow> m = Crash c \<or> (\<exists>a. m = Ret a \<and> f a = Crash c)"
  by (cases m) auto

lemma obind_RetE:
  assumes "obind m f = Ret b" obtains a where "m = Ret a" and "f a = Ret b"
  using assms by (cases m) auto

lemma othrow_unless_eq [outcome_simps]:
  "othrow_unless b e = Ret u \<longleftrightarrow> b"
  "othrow_unless b e = Throw e' \<longleftrightarrow> \<not> b \<and> e' = e"
  "othrow_unless b e \<noteq> Crash c"
  by (auto simp: othrow_unless_def)

section \<open>Positions in a ring\<close>

text \<open>Indices less than one lap apart lie in different slots.\<close>

lemma mod_eq_same_lap:
  fixes i j n :: nat
  assumes "i mod n = j mod n" and "i < j + n" and "j < i + n"
  shows "i = j"
proof (cases "i \<le> j")
  case True
  with assms(1) have "n dvd j - i"
    by (metis mod_eq_dvd_iff_nat)
  moreover from assms(3) True have "j - i < n" by linarith
  ultimately have "j - i = 0" using nat_dvd_not_less [of "j - i" n] by blast
  with True show ?thesis by simp
next
  case False
  with assms(1) have "n dvd i - j"
    by (metis mod_eq_dvd_iff_nat nat_le_linear)
  moreover from assms(2) False have "i - j < n" by linarith
  ultimately have "i - j = 0" using nat_dvd_not_less [of "i - j" n] by blast
  with False show ?thesis by simp
qed

lemma mod_inj_on_lap: "inj_on (\<lambda>i. i mod n) {a..<a + n}" for a n :: nat
  by (rule inj_onI) (auto intro: mod_eq_same_lap)

lemma mod_add_wrap [ring_arith]:
  fixes s j n :: nat
  assumes "s < n" and "j < n"
  shows "(s + j) mod n = (if s + j < n then s + j else s + j - n)"
  using assms by (auto simp: mod_if)

lemma map_upt_nth: "map f [0..<n] ! i = f i" if "i < n"
  using that by simp

lemma all_from_Suc:
  "\<forall>j. Suc k \<le> j \<and> P j \<longrightarrow> Q j \<Longrightarrow> Q k \<Longrightarrow> \<forall>j. k \<le> j \<and> P j \<longrightarrow> Q j"
  by (metis le_eq_less_or_eq Suc_leI)

text \<open>A range no longer than the ring, taken modulo its size, is one or two ranges.\<close>

lemma map_mod_upt:
  fixes a c n :: nat
  assumes "c \<le> n" and "0 < n"
  shows "map (\<lambda>k. k mod n) [a..<a + c] =
    (if a mod n + c \<le> n then [a mod n..<a mod n + c]
     else [a mod n..<n] @ [0..<a mod n + c - n])"
proof (rule nth_equalityI)
  show "length (map (\<lambda>k. k mod n) [a..<a + c]) =
      length (if a mod n + c \<le> n then [a mod n..<a mod n + c] else [a mod n..<n] @ [0..<a mod n + c - n])"
    using assms mod_less_divisor [of n a] by (simp add: less_imp_le)
next
  fix i
  assume "i < length (map (\<lambda>k. k mod n) [a..<a + c])"
  then have i: "i < c" by simp
  have "(a + i) mod n = (a mod n + i) mod n" by (simp add: mod_add_left_eq)
  also have "\<dots> = (if a mod n + i < n then a mod n + i else a mod n + i - n)"
    using assms i by (intro mod_add_wrap) auto
  finally have e: "(a + i) mod n = (if a mod n + i < n then a mod n + i else a mod n + i - n)" .
  have s: "a mod n < n" using assms(2) by simp
  define s where "s = a mod n"
  show "map (\<lambda>k. k mod n) [a..<a + c] ! i =
      (if a mod n + c \<le> n then [a mod n..<a mod n + c] else [a mod n..<n] @ [0..<a mod n + c - n]) ! i"
    using e s i assms(1) unfolding s_def [symmetric]
    by (auto simp: nth_append)
qed

section \<open>Words as numbers\<close>

lemma unat_add_lt: "unat a + unat b < 2 ^ LENGTH('a) \<Longrightarrow> unat (a + b) = unat a + unat b"
  for a b :: "'a::len word"
  by (simp add: unat_word_ariths)

lemma no_wrap: "x < x + y \<Longrightarrow> unat x + unat y < 2 ^ LENGTH('a)" for x y :: "'a::len word"
proof (rule ccontr)
  assume "x < x + y" and over: "\<not> unat x + unat y < 2 ^ LENGTH('a)"
  then have "unat x < unat x + unat y - 2 ^ LENGTH('a)"
    by (simp add: unat_plus_if' word_less_nat_alt)
  moreover have "unat y < 2 ^ LENGTH('a)" by (rule unsigned_less)
  ultimately show False by linarith
qed

lemma unat_sub_le: "b \<le> a \<Longrightarrow> unat (a - b) = unat a - unat b" for a b :: "'a::len word"
  by (simp add: unat_sub word_le_nat_alt)

lemma unat_mult_lt: "unat a * unat b < 2 ^ LENGTH('a) \<Longrightarrow> unat (a * b) = unat a * unat b"
  for a b :: "'a::len word"
  by (simp add: unat_word_ariths)

lemma unat_ucast_32_64 [simp]: "unat (ucast (x :: u32) :: u64) = unat x"
  using unsigned_less [where ?'a = nat and w = x] by (simp add: unsigned_ucast_eq take_bit_nat_eq_self_iff)

lemma unat_ucast_16_64 [simp]: "unat (ucast (x :: u16) :: u64) = unat x"
  using unsigned_less [where ?'a = nat and w = x] by (simp add: unsigned_ucast_eq take_bit_nat_eq_self_iff)

lemma ucast_64_eq_0 [simp]: "(ucast (x :: u32) :: u64) = 0 \<longleftrightarrow> x = 0"
  by (metis unat_ucast_32_64 unat_eq_zero)

end
