(* ===== verification/Timing.thy ===== *)
theory Timing
  imports Prelude
begin

text \<open>
  Time values and index conversion: \<open>Timing.hpp\<close>, \<open>detail/ClockHelpers.hpp\<close>,
  \<open>Timing.cpp\<close>, \<open>Thread.cpp\<close>, \<open>Time.cpp\<close>, \<open>Rational.hpp\<close>,
  \<open>IndexConversion.hpp\<close> and the C functions of \<open>time.cpp\<close>, for Linux. The system clocks
  are read through \<open>clock_gettime\<close>, a parameter here. The lemmas give the order and the
  conversions of time values, and how grain indices and timestamps translate into each other.
\<close>

section \<open>Timepoints, durations, timespecs\<close>

datatype Timepoint = Timepoint (tp_value: int)
datatype Duration = Duration (dur_value: int)
datatype timespec = Timespec (tv_sec: int) (tv_nsec: int)

definition Timepoint_le :: "Timepoint \<Rightarrow> Timepoint \<Rightarrow> bool" where
  "Timepoint_le lhs rhs \<longleftrightarrow> tp_value lhs \<le> tp_value rhs"

definition Timepoint_lt :: "Timepoint \<Rightarrow> Timepoint \<Rightarrow> bool" where
  "Timepoint_lt lhs rhs \<longleftrightarrow> tp_value lhs < tp_value rhs"

instantiation Timepoint :: linorder
begin

definition less_eq_Timepoint :: "Timepoint \<Rightarrow> Timepoint \<Rightarrow> bool" where
  "less_eq_Timepoint = Timepoint_le"

definition less_Timepoint :: "Timepoint \<Rightarrow> Timepoint \<Rightarrow> bool" where
  "less_Timepoint = Timepoint_lt"

instance
  by standard (auto simp: less_eq_Timepoint_def less_Timepoint_def Timepoint_le_def Timepoint_lt_def intro: Timepoint.expand)

end

definition Duration_le :: "Duration \<Rightarrow> Duration \<Rightarrow> bool" where
  "Duration_le lhs rhs \<longleftrightarrow> dur_value lhs \<le> dur_value rhs"

definition Duration_lt :: "Duration \<Rightarrow> Duration \<Rightarrow> bool" where
  "Duration_lt lhs rhs \<longleftrightarrow> dur_value lhs < dur_value rhs"

instantiation Duration :: linorder
begin

definition less_eq_Duration :: "Duration \<Rightarrow> Duration \<Rightarrow> bool" where
  "less_eq_Duration = Duration_le"

definition less_Duration :: "Duration \<Rightarrow> Duration \<Rightarrow> bool" where
  "less_Duration = Duration_lt"

instance
  by standard (auto simp: less_eq_Duration_def less_Duration_def Duration_le_def Duration_lt_def intro: Duration.expand)

end

text \<open>\<open>explicit operator bool\<close> and the arithmetic operators of \<open>Timing.hpp\<close>.\<close>

definition tp_bool :: "Timepoint \<Rightarrow> bool" where
  "tp_bool t \<longleftrightarrow> tp_value t \<noteq> 0"

definition dur_bool :: "Duration \<Rightarrow> bool" where
  "dur_bool d \<longleftrightarrow> dur_value d \<noteq> 0"

definition dur_plus :: "Duration \<Rightarrow> Duration \<Rightarrow> Duration" where
  "dur_plus lhs rhs = Duration (wrap64 (dur_value lhs + dur_value rhs))"

definition dur_minus :: "Duration \<Rightarrow> Duration \<Rightarrow> Duration" where
  "dur_minus lhs rhs = Duration (wrap64 (dur_value lhs - dur_value rhs))"

definition dur_scale :: "int \<Rightarrow> Duration \<Rightarrow> Duration" where
  "dur_scale lhs rhs = Duration (wrap64 (lhs * dur_value rhs))"

definition dur_div :: "Duration \<Rightarrow> int \<Rightarrow> Duration outcome" where
  "dur_div lhs rhs =
     (if rhs = 0 then Crash DivisionByZero else Ret (Duration (wrap64 (dur_value lhs sdiv rhs))))"

definition tp_diff :: "Timepoint \<Rightarrow> Timepoint \<Rightarrow> Duration" where
  "tp_diff lhs rhs = Duration (wrap64 (tp_value lhs - tp_value rhs))"

definition tp_minus_dur :: "Timepoint \<Rightarrow> Duration \<Rightarrow> Timepoint" where
  "tp_minus_dur lhs rhs =
     (let diff = wrap64 (tp_value lhs - dur_value rhs) in Timepoint (if 0 \<le> diff then diff else 0))"

definition tp_plus_dur :: "Timepoint \<Rightarrow> Duration \<Rightarrow> Timepoint" where
  "tp_plus_dur lhs rhs =
     (let sum = wrap64 (tp_value lhs + dur_value rhs) in Timepoint (if 0 \<le> sum then sum else 0))"

definition asTimepoint :: "timespec \<Rightarrow> Timepoint" where
  "asTimepoint ts = Timepoint (wrap64 (wrap64 (tv_sec ts * 1000000000) + tv_nsec ts))"

definition asTimeSpec_tp :: "Timepoint \<Rightarrow> timespec" where
  "asTimeSpec_tp t = Timespec (tp_value t sdiv 1000000000) (tp_value t smod 1000000000)"

definition asDuration :: "timespec \<Rightarrow> Duration" where
  "asDuration ts = Duration (wrap64 (wrap64 (tv_sec ts * 1000000000) + tv_nsec ts))"

definition asTimeSpec_dur :: "Duration \<Rightarrow> timespec" where
  "asTimeSpec_dur d = Timespec (dur_value d sdiv 1000000000) (dur_value d smod 1000000000)"

lemma i64_ok_sdiv_step:
  assumes "i64_ok v"
  shows "i64_ok (v sdiv 1000000000 * 1000000000)"
proof -
  have "\<bar>v sdiv 1000000000 * 1000000000\<bar> \<le> \<bar>v\<bar>"
  proof -
    have "\<bar>v\<bar> div 1000000000 * 1000000000 \<le> \<bar>v\<bar>"
      by (simp flip: minus_mod_eq_div_mult)
    then show ?thesis
      by (auto simp: signed_divide_int_def abs_mult sgn_if abs_if)
  qed
  moreover have "0 \<le> v \<Longrightarrow> 0 \<le> v sdiv 1000000000 * 1000000000"
    by (simp add: sdiv_pos)
  moreover have "v < 0 \<Longrightarrow> v sdiv 1000000000 * 1000000000 \<le> 0"
    by (simp add: signed_divide_int_def sgn_if pos_imp_zdiv_nonneg_iff)
  ultimately show ?thesis
    using assms unfolding i64_ok_def by linarith
qed

lemma asTimepoint_asTimeSpec:
  "i64_ok (tp_value t) \<Longrightarrow> asTimepoint (asTimeSpec_tp t) = t"
  using i64_ok_sdiv_step [of "tp_value t"]
  by (cases t) (simp add: asTimepoint_def asTimeSpec_tp_def wrap64_id sdiv_mult_smod_eq)

lemma asDuration_asTimeSpec:
  "i64_ok (dur_value d) \<Longrightarrow> asDuration (asTimeSpec_dur d) = d"
  using i64_ok_sdiv_step [of "dur_value d"]
  by (cases d) (simp add: asDuration_def asTimeSpec_dur_def wrap64_id sdiv_mult_smod_eq)

definition normalised :: "timespec \<Rightarrow> bool" where
  "normalised ts \<longleftrightarrow> 0 \<le> tv_nsec ts \<and> tv_nsec ts < 1000000000"

lemma asTimeSpec_normalised: "0 \<le> tp_value t \<Longrightarrow> normalised (asTimeSpec_tp t)"
  by (simp add: normalised_def asTimeSpec_tp_def smod_pos)

text \<open>
  The operators of \<open>Time.cpp\<close> on \<open>timespec\<close>. They form a linear order, with
  \<open>ts_less\<close> as its strict part.
\<close>

definition ts_eq :: "timespec \<Rightarrow> timespec \<Rightarrow> bool" where
  "ts_eq lhs rhs \<longleftrightarrow> tv_sec lhs = tv_sec rhs \<and> tv_nsec lhs = tv_nsec rhs"

definition ts_neq :: "timespec \<Rightarrow> timespec \<Rightarrow> bool" where
  "ts_neq lhs rhs \<longleftrightarrow> \<not> ts_eq lhs rhs"

definition ts_less :: "timespec \<Rightarrow> timespec \<Rightarrow> bool" where
  "ts_less lhs rhs \<longleftrightarrow>
     (if tv_sec lhs < tv_sec rhs then True
      else if tv_sec rhs < tv_sec lhs then False
      else tv_nsec lhs < tv_nsec rhs)"

definition ts_le :: "timespec \<Rightarrow> timespec \<Rightarrow> bool" where
  "ts_le lhs rhs \<longleftrightarrow> ts_less lhs rhs \<or> ts_eq lhs rhs"

definition ts_greater :: "timespec \<Rightarrow> timespec \<Rightarrow> bool" where
  "ts_greater lhs rhs \<longleftrightarrow> \<not> ts_le lhs rhs"

definition ts_ge :: "timespec \<Rightarrow> timespec \<Rightarrow> bool" where
  "ts_ge lhs rhs \<longleftrightarrow> \<not> ts_less lhs rhs"

instantiation timespec :: linorder
begin

definition less_eq_timespec :: "timespec \<Rightarrow> timespec \<Rightarrow> bool" where
  "less_eq_timespec = ts_le"

definition less_timespec :: "timespec \<Rightarrow> timespec \<Rightarrow> bool" where
  "less_timespec = ts_less"

instance
  by standard
    (auto simp: less_eq_timespec_def less_timespec_def ts_le_def ts_less_def ts_eq_def
      split: if_splits intro: timespec.expand)

end

lemma ts_operators_order:
  "ts_eq a b \<longleftrightarrow> a = b" "ts_neq a b \<longleftrightarrow> a \<noteq> b" "ts_greater a b \<longleftrightarrow> b < a" "ts_ge a b \<longleftrightarrow> b \<le> a"
  by (auto simp: ts_eq_def ts_neq_def ts_greater_def ts_ge_def timespec.expand
      simp flip: less_eq_timespec_def less_timespec_def)

lemma ts_less_nanoseconds:
  assumes "normalised a" and "normalised b"
  shows "ts_less a b \<longleftrightarrow> tv_sec a * 1000000000 + tv_nsec a < tv_sec b * 1000000000 + tv_nsec b"
  using assms by (auto simp: ts_less_def normalised_def)

section \<open>Clocks\<close>

datatype Clock = Monotonic | Realtime | TAI | ProcessCPUTime | ThreadCPUTime

datatype clockid = CLOCK_MONOTONIC_RAW | CLOCK_TAI | CLOCK_PROCESS_CPUTIME_ID
  | CLOCK_THREAD_CPUTIME_ID | CLOCK_REALTIME

fun clockToId :: "Clock \<Rightarrow> clockid" where
  "clockToId Monotonic = CLOCK_MONOTONIC_RAW"
| "clockToId TAI = CLOCK_TAI"
| "clockToId ProcessCPUTime = CLOCK_PROCESS_CPUTIME_ID"
| "clockToId ThreadCPUTime = CLOCK_THREAD_CPUTIME_ID"
| "clockToId Realtime = CLOCK_REALTIME"

definition getClockOffset :: "Clock \<Rightarrow> Duration" where
  "getClockOffset clock = Duration 0"

type_synonym clock_gettime = "clockid \<Rightarrow> timespec option"

definition currentTime :: "clock_gettime \<Rightarrow> Clock \<Rightarrow> Timepoint" where
  "currentTime cg clock =
     (case cg (clockToId clock) of
        Some ts \<Rightarrow> tp_plus_dur (asTimepoint ts) (getClockOffset clock)
      | None \<Rightarrow> Timepoint 0)"

definition currentTimeUTC :: "timespec option \<Rightarrow> Timepoint" where
  "currentTimeUTC tget = (case tget of Some ts \<Rightarrow> asTimepoint ts | None \<Rightarrow> Timepoint 0)"

text \<open>
  The sleeps of \<open>Thread.cpp\<close>: \<open>clock_nanosleep\<close> is a parameter that returns its result
  code and the remaining time.
\<close>

definition thread_sleep :: "(clockid \<Rightarrow> timespec \<Rightarrow> int \<times> timespec) \<Rightarrow> Duration \<Rightarrow> Clock \<Rightarrow> Duration" where
  "thread_sleep nanosleep duration clock =
     (let (result, remainder) = nanosleep (clockToId clock) (asTimeSpec_dur duration)
      in if result = 0 then Duration 0 else asDuration remainder)"

definition thread_sleepUntil :: "(clockid \<Rightarrow> timespec \<Rightarrow> int) \<Rightarrow> Timepoint \<Rightarrow> Clock \<Rightarrow> int" where
  "thread_sleepUntil nanosleep_abs timepoint clock =
     nanosleep_abs (clockToId clock) (asTimeSpec_tp timepoint)"

lemma currentTime_nonneg: "0 \<le> tp_value (currentTime cg clock)"
  by (auto simp: currentTime_def tp_plus_dur_def Let_def split: option.splits)

section \<open>Rationals and index conversion\<close>

record mxlRational =
  numerator :: int
  denominator :: int

definition MXL_UNDEFINED_INDEX :: u64 where
  "MXL_UNDEFINED_INDEX = - 1"

definition isValid_rational :: "mxlRational \<Rightarrow> bool" where
  "isValid_rational r \<longleftrightarrow> denominator r \<noteq> 0"

definition rational_eq :: "mxlRational \<Rightarrow> mxlRational \<Rightarrow> bool" where
  "rational_eq lhs rhs \<longleftrightarrow>
     wrap64 (numerator lhs * denominator rhs) = wrap64 (denominator lhs * numerator rhs)"

definition rational_neq :: "mxlRational \<Rightarrow> mxlRational \<Rightarrow> bool" where
  "rational_neq lhs rhs \<longleftrightarrow> \<not> rational_eq lhs rhs"

definition usable_rate :: "mxlRational \<Rightarrow> bool" where
  "usable_rate r \<longleftrightarrow> denominator r \<noteq> 0 \<and> numerator r \<noteq> 0"

definition timestampToIndex :: "mxlRational \<Rightarrow> Timepoint \<Rightarrow> u64" where
  "timestampToIndex editRate timestamp =
     (if denominator editRate \<noteq> 0 \<and> numerator editRate \<noteq> 0
      then word_of_int
        (wrap128 (wrap128 (tp_value timestamp * numerator editRate) + wrap128 (500000000 * denominator editRate))
         sdiv wrap128 (1000000000 * denominator editRate))
      else MXL_UNDEFINED_INDEX)"

definition indexToTimestamp :: "mxlRational \<Rightarrow> u64 \<Rightarrow> Timepoint" where
  "indexToTimestamp editRate index =
     (if denominator editRate \<noteq> 0 \<and> numerator editRate \<noteq> 0
      then Timepoint (wrap64
        (wrap128 (wrap128 (wrap128 (uint index * denominator editRate) * 1000000000) + numerator editRate sdiv 2)
         sdiv numerator editRate))
      else Timepoint 0)"

section \<open>Correctness of the conversions\<close>

text \<open>For a positive rate no 128 bit step overflows, and both conversions round to nearest.\<close>

lemma i64_ok_mult_bound:
  assumes "i64_ok a" and "i64_ok b"
  shows "\<bar>a * b\<bar> \<le> 2 ^ 126"
proof -
  have "\<bar>a\<bar> * \<bar>b\<bar> \<le> 2 ^ 63 * 2 ^ 63"
    using assms by (intro mult_mono) (auto simp: i64_ok_def)
  then show ?thesis by (simp add: abs_mult)
qed

lemma timestampToIndex_exact:
  assumes "usable_rate r" and "i64_ok (numerator r)" and "i64_ok (denominator r)" and "i64_ok ts"
  shows "timestampToIndex r (Timepoint ts)
    = word_of_int ((ts * numerator r + 500000000 * denominator r) sdiv (1000000000 * denominator r))"
proof -
  have a: "\<bar>ts * numerator r\<bar> \<le> 2 ^ 126"
    using assms by (intro i64_ok_mult_bound)
  have "\<bar>500000000 * denominator r\<bar> \<le> 500000000 * 2 ^ 63"
    and c: "\<bar>1000000000 * denominator r\<bar> \<le> 1000000000 * 2 ^ 63"
    using assms(3) by (auto simp: i64_ok_def abs_if)
  with a have "\<bar>ts * numerator r + 500000000 * denominator r\<bar> < 2 ^ 127"
    and "\<bar>ts * numerator r\<bar> < 2 ^ 127" and "\<bar>500000000 * denominator r\<bar> < 2 ^ 127"
    and "\<bar>1000000000 * denominator r\<bar> < 2 ^ 127"
    by (auto intro: order.strict_trans1 [OF abs_triangle_ineq])
  with assms(1) show ?thesis
    by (simp add: timestampToIndex_def usable_rate_def wrap128_id_abs)
qed

definition positive_rate :: "mxlRational \<Rightarrow> bool" where
  "positive_rate r \<longleftrightarrow> 0 < numerator r \<and> 0 < denominator r \<and> i64_ok (numerator r) \<and> i64_ok (denominator r)"

lemma positive_rate_usable: "positive_rate r \<Longrightarrow> usable_rate r"
  by (simp add: positive_rate_def usable_rate_def)

lemma timestampToIndex_positive:
  assumes "positive_rate r" and "0 \<le> ts" and "i64_ok ts"
  shows "timestampToIndex r (Timepoint ts)
    = word_of_int ((ts * numerator r + 500000000 * denominator r) div (1000000000 * denominator r))"
  using assms timestampToIndex_exact [of r ts]
  by (simp add: positive_rate_def usable_rate_def sdiv_pos)

definition nanos_of_index :: "mxlRational \<Rightarrow> int \<Rightarrow> int" where
  "nanos_of_index r i = (i * (1000000000 * denominator r) + numerator r div 2) div numerator r"

lemma nanos_of_index_bounds:
  assumes "positive_rate r" and "0 \<le> i"
    and "i * (1000000000 * denominator r) + numerator r div 2 < 2 ^ 63 * numerator r"
  shows "0 \<le> nanos_of_index r i" and "i64_ok (nanos_of_index r i)"
proof -
  have pos: "0 < numerator r" "0 < denominator r"
    using assms(1) by (auto simp: positive_rate_def)
  then show nonneg: "0 \<le> nanos_of_index r i"
    using assms(2) by (simp add: nanos_of_index_def pos_imp_zdiv_nonneg_iff)
  have "nanos_of_index r i < 2 ^ 63"
    unfolding nanos_of_index_def using pos assms(3) by (intro int_div_less)
  with nonneg show "i64_ok (nanos_of_index r i)"
    by (simp add: i64_ok_def)
qed

lemma indexToTimestamp_positive:
  assumes rate: "positive_rate r"
    and fits: "uint i * (1000000000 * denominator r) + numerator r div 2 < 2 ^ 63 * numerator r"
  shows "indexToTimestamp r i = Timepoint (nanos_of_index r (uint i))"
proof -
  have pos: "0 < numerator r" "0 < denominator r" "numerator r < 2 ^ 63"
    using rate by (auto simp: positive_rate_def i64_ok_def)
  define n h where "n = uint i * denominator r" and "h = numerator r div 2"
  have small: "2 ^ 63 * numerator r \<le> 2 ^ 63 * 2 ^ 63"
    using pos(3) by simp
  have "0 \<le> n" and "0 \<le> h" and "n * 1000000000 + h < 2 ^ 63 * numerator r"
    using pos fits by (simp_all add: n_def h_def pos_imp_zdiv_nonneg_iff ac_simps)
  with small have n: "\<bar>n\<bar> < 2 ^ 127" "\<bar>n * 1000000000\<bar> < 2 ^ 127" "\<bar>n * 1000000000 + h\<bar> < 2 ^ 127"
    "0 \<le> n * 1000000000 + h"
    by (simp_all add: abs_of_nonneg)
  have "indexToTimestamp r i = Timepoint (wrap64 ((n * 1000000000 + h) div numerator r))"
    using pos n by (simp add: indexToTimestamp_def wrap128_id_abs sdiv_pos flip: n_def h_def)
  also have "(n * 1000000000 + h) div numerator r = nanos_of_index r (uint i)"
    by (simp add: nanos_of_index_def n_def h_def ac_simps)
  finally show ?thesis
    using nanos_of_index_bounds(2) [OF rate _ fits] by (simp add: wrap64_id)
qed

lemma nearest_roundtrip:
  fixes i n b :: int
  assumes "0 < n" and "n \<le> b" and "even b"
  shows "(((i * b + n div 2) div n) * n + b div 2) div b = i"
proof -
  define t where "t = (i * b + n div 2) div n"
  define m where "m = (i * b + n div 2) mod n"
  have eq: "t * n = i * b + n div 2 - m"
    by (simp add: t_def m_def minus_mod_eq_div_mult)
  have m: "0 \<le> m" "m < n"
    using assms(1) by (simp_all add: m_def)
  have le: "n div 2 \<le> b div 2"
    using assms(2) by (simp add: zdiv_mono1)
  have b: "b div 2 + b div 2 = b" "0 < b div 2"
    using assms by auto
  have half: "n div 2 + n div 2 \<le> n" "n \<le> n div 2 + n div 2 + 1"
    by auto
  have "t * n + b div 2 < i * b + b"
  proof (cases "n = b")
    case True
    then have "m = n div 2"
      using assms(1) by (simp add: m_def)
    with eq b show ?thesis by simp
  next
    case False
    with assms(2,3) b(1) half have "n div 2 < b div 2"
      by linarith
    with eq m b show ?thesis by linarith
  qed
  moreover have "i * b \<le> t * n + b div 2"
    using eq m half le b assms(2) by linarith
  ultimately have "(t * n + b div 2) div b = i"
    by (intro int_div_eq_window)
  then show ?thesis by (simp add: t_def)
qed

section \<open>The C functions of time.cpp\<close>

text \<open>A null \<open>editRate\<close> pointer is \<open>None\<close>; the clock is read once per call.\<close>

definition mxlGetTime :: "clock_gettime \<Rightarrow> u64" where
  "mxlGetTime cg = word_of_int (tp_value (currentTime cg TAI))"

definition i64_of_u64 :: "u64 \<Rightarrow> int" where
  "i64_of_u64 w = wrap64 (uint w)"

definition mxlTimestampToIndex :: "mxlRational option \<Rightarrow> u64 \<Rightarrow> u64" where
  "mxlTimestampToIndex editRate timestamp =
     (case editRate of
        Some r \<Rightarrow> timestampToIndex r (Timepoint (i64_of_u64 timestamp))
      | None \<Rightarrow> MXL_UNDEFINED_INDEX)"

definition mxlGetCurrentIndex :: "clock_gettime \<Rightarrow> mxlRational option \<Rightarrow> u64" where
  "mxlGetCurrentIndex cg editRate =
     (case editRate of
        None \<Rightarrow> MXL_UNDEFINED_INDEX
      | Some r \<Rightarrow>
          if denominator r = 0 \<or> numerator r = 0 then MXL_UNDEFINED_INDEX
          else let now = mxlGetTime cg
               in if now \<noteq> 0 then mxlTimestampToIndex editRate now else MXL_UNDEFINED_INDEX)"

definition mxlIndexToTimestamp :: "mxlRational option \<Rightarrow> u64 \<Rightarrow> u64" where
  "mxlIndexToTimestamp editRate index =
     (case editRate of
        Some r \<Rightarrow>
          (let res = indexToTimestamp r index
           in if tp_bool res \<or> index = 0 then word_of_int (tp_value res) else MXL_UNDEFINED_INDEX)
      | None \<Rightarrow> MXL_UNDEFINED_INDEX)"

definition mxlGetNsUntilIndex :: "clock_gettime \<Rightarrow> u64 \<Rightarrow> mxlRational option \<Rightarrow> u64" where
  "mxlGetNsUntilIndex cg index editRate =
     (case editRate of
        None \<Rightarrow> MXL_UNDEFINED_INDEX
      | Some r \<Rightarrow>
          if denominator r = 0 \<or> numerator r = 0 then MXL_UNDEFINED_INDEX
          else let targetNs = mxlIndexToTimestamp editRate index; nowNs = mxlGetTime cg
               in if nowNs \<noteq> 0 \<and> nowNs \<le> targetNs then targetNs - nowNs else 0)"

definition mxlSleepForNs :: "(clockid \<Rightarrow> timespec \<Rightarrow> int \<times> timespec) \<Rightarrow> u64 \<Rightarrow> Duration" where
  "mxlSleepForNs nanosleep ns = thread_sleep nanosleep (Duration (i64_of_u64 ns)) TAI"

definition mxlSleepUntil :: "(clockid \<Rightarrow> timespec \<Rightarrow> int) \<Rightarrow> u64 \<Rightarrow> int" where
  "mxlSleepUntil nanosleep_abs timestamp =
     thread_sleepUntil nanosleep_abs (Timepoint (i64_of_u64 timestamp)) TAI"

section \<open>Properties of the C functions\<close>

lemma i64_of_word: "0 \<le> t \<Longrightarrow> i64_ok t \<Longrightarrow> i64_of_u64 (word_of_int t) = t"
  by (simp add: i64_of_u64_def i64_ok_def uint_word_of_int wrap64_id)

lemma mxlIndexToTimestamp_positive:
  assumes "positive_rate r" and "numerator r \<le> 1000000000 * denominator r"
    and fits: "uint i * (1000000000 * denominator r) + numerator r div 2 < 2 ^ 63 * numerator r"
  shows "mxlIndexToTimestamp (Some r) i = word_of_int (nanos_of_index r (uint i))"
proof -
  have pos: "0 < numerator r"
    using assms(1) by (simp add: positive_rate_def)
  have "nanos_of_index r (uint i) \<noteq> 0" if "i \<noteq> 0"
  proof -
    from that have "1 \<le> uint i"
      by (simp add: int_one_le_iff_zero_less less_le uint_0_iff eq_commute [of 0])
    then have "1 * (1000000000 * denominator r) \<le> uint i * (1000000000 * denominator r)"
      using assms(2) pos by (intro mult_right_mono) auto
    moreover have "0 \<le> numerator r div 2"
      using pos by (simp add: pos_imp_zdiv_nonneg_iff)
    ultimately have "numerator r \<le> uint i * (1000000000 * denominator r) + numerator r div 2"
      using assms(2) by linarith
    then have "numerator r div numerator r \<le> nanos_of_index r (uint i)"
      unfolding nanos_of_index_def using pos by (intro zdiv_mono1)
    with pos show ?thesis by simp
  qed
  with indexToTimestamp_positive [OF assms(1) fits] show ?thesis
    by (auto simp: mxlIndexToTimestamp_def tp_bool_def)
qed

text \<open>The conversions as functions of numbers, where nothing overflows.\<close>

definition index_at :: "mxlRational \<Rightarrow> int \<Rightarrow> int" where
  "index_at r t = (t * numerator r + 500000000 * denominator r) div (1000000000 * denominator r)"

lemma time_index:
  assumes "positive_rate r" and "numerator r \<le> 1000000000 * denominator r" and "uint v < 2 ^ 63"
  shows "uint (mxlTimestampToIndex (Some r) v) = index_at r (uint v)"
    and "0 \<le> index_at r (uint v)" and "index_at r (uint v) \<le> uint v + 1"
proof -
  have pos: "0 < numerator r" "0 < denominator r"
    using assms(1) by (auto simp: positive_rate_def)
  have v: "i64_ok (uint v)" "0 \<le> uint v"
    using assms(3) by (auto simp: i64_ok_def intro: order_trans [OF _ uint_ge_0])
  have "uint v * numerator r \<le> uint v * (1000000000 * denominator r)"
    using assms(2) by (intro mult_left_mono) auto
  then have le: "index_at r (uint v) < uint v + 2"
    unfolding index_at_def using pos by (intro int_div_less) (simp_all add: algebra_simps)
  show nonneg: "0 \<le> index_at r (uint v)"
    unfolding index_at_def using pos by (intro pos_imp_zdiv_nonneg_iff [THEN iffD2]) auto
  show "index_at r (uint v) \<le> uint v + 1" using le by simp
  have "index_at r (uint v) < 2 ^ 64" using le assms(3) by simp
  with nonneg show "uint (mxlTimestampToIndex (Some r) v) = index_at r (uint v)"
    using v by (simp add: mxlTimestampToIndex_def i64_of_u64_def wrap64_id index_at_def
        timestampToIndex_positive [OF assms(1)] uint_word_of_int)
qed

lemma index_at_mono: "positive_rate r \<Longrightarrow> t \<le> u \<Longrightarrow> index_at r t \<le> index_at r u"
  unfolding index_at_def positive_rate_def by (intro zdiv_mono1 add_right_mono mult_right_mono) auto

lemma index_time:
  assumes "positive_rate r" and "numerator r \<le> 1000000000 * denominator r"
    and "uint i * (1000000000 * denominator r) + numerator r div 2 < 2 ^ 63 * numerator r"
  shows "index_at r (uint (mxlIndexToTimestamp (Some r) i)) = uint i"
    and "uint (mxlIndexToTimestamp (Some r) i) < 2 ^ 63"
proof -
  have pos: "0 < numerator r"
    using assms(1) by (simp add: positive_rate_def)
  have t: "0 \<le> nanos_of_index r (uint i)" "nanos_of_index r (uint i) < 2 ^ 63"
    using nanos_of_index_bounds [OF assms(1) _ assms(3)] by (simp_all add: i64_ok_def)
  have e: "uint (mxlIndexToTimestamp (Some r) i) = nanos_of_index r (uint i)"
    using t by (simp add: mxlIndexToTimestamp_positive [OF assms] uint_word_of_int)
  show "uint (mxlIndexToTimestamp (Some r) i) < 2 ^ 63" using e t by simp
  show "index_at r (uint (mxlIndexToTimestamp (Some r) i)) = uint i"
    unfolding e using nearest_roundtrip [OF pos assms(2), of "uint i"]
    by (simp add: index_at_def nanos_of_index_def)
qed

text \<open>C5: converting a grain index to its timestamp and back returns the index, for every positive
  rate of at most one index per nanosecond, as long as the timestamp fits in 63 bits.\<close>

theorem mxl_index_roundtrip:
  assumes "positive_rate r" and "numerator r \<le> 1000000000 * denominator r"
    and "uint i * (1000000000 * denominator r) + numerator r div 2 < 2 ^ 63 * numerator r"
  shows "mxlTimestampToIndex (Some r) (mxlIndexToTimestamp (Some r) i) = i"
proof -
  have "uint (mxlTimestampToIndex (Some r) (mxlIndexToTimestamp (Some r) i)) = uint i"
    using time_index(1) [OF assms(1,2) index_time(2) [OF assms]] index_time(1) [OF assms] by simp
  then show ?thesis by (simp add: word_uint_eq_iff)
qed

theorem mxl_index_roundtrip_witness:
  "mxlTimestampToIndex (Some \<lparr>numerator = 30000, denominator = 1001\<rparr>)
     (mxlIndexToTimestamp (Some \<lparr>numerator = 30000, denominator = 1001\<rparr>) 52000000000) = 52000000000"
  by (rule mxl_index_roundtrip) (simp_all add: positive_rate_def i64_ok_def)

text \<open>a later timestamp never has an earlier index.\<close>

theorem mxl_timestamp_mono:
  assumes "positive_rate r" and "numerator r \<le> 1000000000 * denominator r"
    and "uint t < 2 ^ 63" and "uint u < 2 ^ 63" and "t \<le> u"
  shows "mxlTimestampToIndex (Some r) t \<le> mxlTimestampToIndex (Some r) u"
  using index_at_mono [OF assms(1), of "uint t" "uint u"] assms(5)
  by (simp add: word_le_def time_index(1) [OF assms(1,2,3)] time_index(1) [OF assms(1,2,4)])

theorem mxl_timestamp_mono_witness:
  "mxlTimestampToIndex (Some \<lparr>numerator = 60000, denominator = 1001\<rparr>) 1750000000000000000
     \<le> mxlTimestampToIndex (Some \<lparr>numerator = 60000, denominator = 1001\<rparr>) 1750000000000000001"
  by (rule mxl_timestamp_mono) (simp_all add: positive_rate_def i64_ok_def)

lemma mxlGetNsUntilIndex_reaches:
  assumes "usable_rate r" and "mxlGetTime cg \<noteq> 0"
  shows "mxlGetTime cg + mxlGetNsUntilIndex cg i (Some r) = max (mxlGetTime cg) (mxlIndexToTimestamp (Some r) i)"
  using assms by (auto simp: mxlGetNsUntilIndex_def usable_rate_def Let_def max_def)

lemma mxlGetNsUntilIndex_clock_failure:
  "usable_rate r \<Longrightarrow> mxlGetTime cg = 0 \<Longrightarrow> mxlGetNsUntilIndex cg i (Some r) = 0"
  by (simp add: mxlGetNsUntilIndex_def usable_rate_def)

end
