(* ===== verification/FlowTypes.thy ===== *)
theory FlowTypes
  imports Timing
begin

text \<open>
  The data the library shares between processes and with its callers: data formats (\<open>dataformat.h\<close>), flow headers (\<open>flowinfo.h\<close>), grain
  headers and buffer slices (\<open>flow.h\<close>), the flow and grain structures kept in shared memory
  (\<open>Flow.hpp\<close>, \<open>FlowState.hpp\<close>) and the line lengths of the video formats
  (\<open>MediaUtils.cpp\<close>). Reserved bytes are always zero and are left out of the records; a
  pointer into a mapped buffer is its byte offset.
\<close>

section \<open>Data formats\<close>

datatype mxlDataFormat =
    MXL_DATA_FORMAT_UNSPECIFIED
  | MXL_DATA_FORMAT_VIDEO
  | MXL_DATA_FORMAT_AUDIO
  | MXL_DATA_FORMAT_DATA

fun format_code :: "mxlDataFormat \<Rightarrow> u32" where
  "format_code MXL_DATA_FORMAT_UNSPECIFIED = 0"
| "format_code MXL_DATA_FORMAT_VIDEO = 1"
| "format_code MXL_DATA_FORMAT_AUDIO = 2"
| "format_code MXL_DATA_FORMAT_DATA = 3"

definition mxlIsValidDataFormat :: "u32 \<Rightarrow> bool" where
  "mxlIsValidDataFormat format \<longleftrightarrow> format = 1 \<or> format = 2 \<or> format = 3"

definition mxlIsSupportedDataFormat :: "u32 \<Rightarrow> bool" where
  "mxlIsSupportedDataFormat format \<longleftrightarrow> format = 1 \<or> format = 2 \<or> format = 3"

definition mxlIsDiscreteDataFormat :: "u32 \<Rightarrow> bool" where
  "mxlIsDiscreteDataFormat format \<longleftrightarrow> format = 1 \<or> format = 3"

definition mxlIsContinuousDataFormat :: "u32 \<Rightarrow> bool" where
  "mxlIsContinuousDataFormat format \<longleftrightarrow> format = 2"

lemma format_partition:
  "mxlIsSupportedDataFormat f \<longleftrightarrow> mxlIsDiscreteDataFormat f \<noteq> mxlIsContinuousDataFormat f"
  by (auto simp: mxlIsSupportedDataFormat_def mxlIsDiscreteDataFormat_def mxlIsContinuousDataFormat_def)

lemma format_exclusive: "\<not> (mxlIsDiscreteDataFormat f \<and> mxlIsContinuousDataFormat f)"
  by (auto simp: mxlIsDiscreteDataFormat_def mxlIsContinuousDataFormat_def)

section \<open>Flow headers\<close>

definition MXL_MAX_PLANES_PER_GRAIN :: nat where
  "MXL_MAX_PLANES_PER_GRAIN = 4"

definition MXL_PAYLOAD_LOCATION_HOST_MEMORY :: u32 where "MXL_PAYLOAD_LOCATION_HOST_MEMORY = 0"
definition MXL_PAYLOAD_LOCATION_DEVICE_MEMORY :: u32 where "MXL_PAYLOAD_LOCATION_DEVICE_MEMORY = 1"

type_synonym uuid = "u8 list"

record mxlCommonFlowConfigInfo =
  cfg_id :: uuid
  cfg_format :: u32
  cfg_flags :: u32
  grainRate :: mxlRational
  maxCommitBatchSizeHint :: u32
  maxSyncBatchSizeHint :: u32
  payloadLocation :: u32
  deviceIndex :: int

record mxlDiscreteFlowConfigInfo =
  sliceSizes :: "u32 list"
  grainCount :: u32

record mxlContinuousFlowConfigInfo =
  channelCount :: u32
  bufferLength :: u32

text \<open>
  The union of \<open>mxlFlowConfigInfo\<close> is one 64 byte area: the member that was written decides
  its bytes, and reading the other member reinterprets them.
\<close>

datatype flow_union =
    DiscreteMember mxlDiscreteFlowConfigInfo
  | ContinuousMember mxlContinuousFlowConfigInfo

fun union_discrete :: "flow_union \<Rightarrow> mxlDiscreteFlowConfigInfo" where
  "union_discrete (DiscreteMember d) = d"
| "union_discrete (ContinuousMember c) =
     \<lparr>sliceSizes = [channelCount c, bufferLength c, 0, 0], grainCount = 0\<rparr>"

fun union_continuous :: "flow_union \<Rightarrow> mxlContinuousFlowConfigInfo" where
  "union_continuous (ContinuousMember c) = c"
| "union_continuous (DiscreteMember d) =
     \<lparr>channelCount = sliceSizes d ! 0, bufferLength = sliceSizes d ! 1\<rparr>"

record mxlFlowConfigInfo =
  common :: mxlCommonFlowConfigInfo
  specific :: flow_union

definition discrete :: "mxlFlowConfigInfo \<Rightarrow> mxlDiscreteFlowConfigInfo" where
  "discrete cfg = union_discrete (specific cfg)"

definition continuous :: "mxlFlowConfigInfo \<Rightarrow> mxlContinuousFlowConfigInfo" where
  "continuous cfg = union_continuous (specific cfg)"

record mxlFlowRuntimeInfo =
  headIndex :: u64
  lastWriteTime :: u64
  lastReadTime :: u64

record mxlFlowInfo =
  fi_version :: u32
  fi_size :: u32
  config :: mxlFlowConfigInfo
  runtime :: mxlFlowRuntimeInfo

record FlowState =
  inode :: nat
  syncCounter :: u32

record Flow =
  flow_info :: mxlFlowInfo
  flow_state :: FlowState

definition FLOW_DATA_VERSION :: u32 where "FLOW_DATA_VERSION = 1"
definition GRAIN_HEADER_VERSION :: u32 where "GRAIN_HEADER_VERSION = 1"
definition MXL_GRAIN_PAYLOAD_OFFSET :: nat where "MXL_GRAIN_PAYLOAD_OFFSET = 8192"
definition SIZEOF_FLOW_INFO :: u32 where "SIZEOF_FLOW_INFO = 2048"
definition SIZEOF_GRAIN_INFO :: u32 where "SIZEOF_GRAIN_INFO = 4096"

text \<open>A freshly created segment holds a value initialised structure.\<close>

definition zero_common :: mxlCommonFlowConfigInfo where
  "zero_common = \<lparr>cfg_id = replicate 16 0, cfg_format = 0, cfg_flags = 0,
     grainRate = \<lparr>numerator = 0, denominator = 0\<rparr>, maxCommitBatchSizeHint = 0,
     maxSyncBatchSizeHint = 0, payloadLocation = 0, deviceIndex = 0\<rparr>"

definition zero_runtime :: mxlFlowRuntimeInfo where
  "zero_runtime = \<lparr>headIndex = 0, lastWriteTime = 0, lastReadTime = 0\<rparr>"

definition zero_flow :: Flow where
  "zero_flow = \<lparr>flow_info = \<lparr>fi_version = 0, fi_size = 0,
     config = \<lparr>common = zero_common, specific = DiscreteMember \<lparr>sliceSizes = [0, 0, 0, 0], grainCount = 0\<rparr>\<rparr>,
     runtime = zero_runtime\<rparr>, flow_state = \<lparr>inode = 0, syncCounter = 0\<rparr>\<rparr>"

section \<open>Grains\<close>

definition MXL_GRAIN_FLAG_INVALID :: u32 where "MXL_GRAIN_FLAG_INVALID = 1"
definition MXL_GRAIN_VALID_SLICES_ANY :: u16 where "MXL_GRAIN_VALID_SLICES_ANY = 0"
definition MXL_GRAIN_VALID_SLICES_ALL :: u16 where "MXL_GRAIN_VALID_SLICES_ALL = - 1"

record mxlGrainInfo =
  gi_version :: u32
  gi_size :: u32
  gi_index :: u64
  gi_flags :: u32
  grainSize :: u32
  totalSlices :: u16
  validSlices :: u16

record Grain =
  g_info :: mxlGrainInfo
  g_payload :: "u8 list"

definition zero_grain_info :: mxlGrainInfo where
  "zero_grain_info = \<lparr>gi_version = 0, gi_size = 0, gi_index = 0, gi_flags = 0, grainSize = 0,
     totalSlices = 0, validSlices = 0\<rparr>"

section \<open>Buffer slices\<close>

record mxlBufferSlice =
  slice_pointer :: u64
  slice_size :: u64

record mxlWrappedMultiBufferSlice =
  fragment0 :: mxlBufferSlice
  fragment1 :: mxlBufferSlice
  slice_stride :: u64
  slice_count :: u64

section \<open>Video line lengths\<close>

definition getV210LineLength :: "u64 \<Rightarrow> u32" where
  "getV210LineLength width = ucast ((width + 47) div 48 * 128)"

definition get10BitAlphaLineLength :: "u64 \<Rightarrow> u32" where
  "get10BitAlphaLineLength width = ucast ((width + 2) div 3 * 4)"

lemma unat_getV210LineLength:
  assumes "unat width \<le> 2 ^ 24"
  shows "unat (getV210LineLength width) = (unat width + 47) div 48 * 128"
proof -
  have a: "unat (width + 47) = unat width + 47"
    using assms by (subst unat_add_lt) auto
  have q: "(unat width + 47) div 48 \<le> 349526"
    using assms by (simp add: div_le_mono [of _ "2 ^ 24 + 47" 48, simplified])
  then have "unat ((width + 47) div 48 * 128) = (unat width + 47) div 48 * 128"
    by (subst unat_mult_lt) (auto simp: unat_div a)
  with q show ?thesis
    by (simp add: getV210LineLength_def unsigned_ucast_eq take_bit_nat_eq_self)
qed

lemma unat_get10BitAlphaLineLength:
  assumes "unat width \<le> 2 ^ 24"
  shows "unat (get10BitAlphaLineLength width) = (unat width + 2) div 3 * 4"
proof -
  have a: "unat (width + 2) = unat width + 2"
    using assms by (subst unat_add_lt) auto
  have q: "(unat width + 2) div 3 \<le> 5592406"
    using assms by (simp add: div_le_mono [of _ "2 ^ 24 + 2" 3, simplified])
  then have "unat ((width + 2) div 3 * 4) = (unat width + 2) div 3 * 4"
    by (subst unat_mult_lt) (auto simp: unat_div a)
  with q show ?thesis
    by (simp add: get10BitAlphaLineLength_def unsigned_ucast_eq take_bit_nat_eq_self)
qed

text \<open>A line of each format is long enough for its samples and aligned as the format asks.\<close>

lemma line_lengths_hold_samples:
  assumes "unat width \<le> 2 ^ 24"
  shows "unat width * 8 \<le> unat (getV210LineLength width) * 3" and "unat (getV210LineLength width) mod 128 = 0"
    and "unat width * 4 \<le> unat (get10BitAlphaLineLength width) * 3" and "unat (get10BitAlphaLineLength width) mod 4 = 0"
  by (simp_all add: unat_getV210LineLength [OF assms] unat_get10BitAlphaLineLength [OF assms])

section \<open>Printing\<close>

fun getFormatString :: "u32 \<Rightarrow> string" where
  "getFormatString f =
     (if f = 0 then ''UNSPECIFIED'' else if f = 1 then ''Video'' else if f = 2 then ''Audio''
      else if f = 3 then ''Data'' else ''UNKNOWN'')"

definition getPayloadLocationString :: "u32 \<Rightarrow> string" where
  "getPayloadLocationString loc =
     (if loc = MXL_PAYLOAD_LOCATION_HOST_MEMORY then ''Host''
      else if loc = MXL_PAYLOAD_LOCATION_DEVICE_MEMORY then ''Device'' else ''UNKNOWN'')"

end
