(* ===== verification/Sync.thy ===== *)
theory Sync
  imports FlowTypes
begin

text \<open>
  Waiting on the synchronisation counter (\<open>Sync.cpp\<close>). What other processes do while a reader
  waits is given by an environment: the shared memory, the realtime clock and the result of a
  futex wait at every tick. Each atomic access of the code takes one tick. A loop carries fuel;
  \<open>None\<close> is a loop still running when the fuel is used up, and \<open>waitUntilChanged_returns\<close>
  says how much fuel is enough.
\<close>

datatype futex_result = Woken | FUTEX_EAGAIN | FUTEX_EINTR | FUTEX_ETIMEDOUT | FUTEX_ERROR

record 'm environment =
  env_mem :: "nat \<Rightarrow> 'm"
  env_clock :: "nat \<Rightarrow> Timepoint"
  env_futex :: "nat \<Rightarrow> u32 \<Rightarrow> Duration \<Rightarrow> futex_result"

fun futex_retry :: "futex_result \<Rightarrow> bool" where
  "futex_retry Woken = True"
| "futex_retry FUTEX_EAGAIN = True"
| "futex_retry FUTEX_EINTR = True"
| "futex_retry FUTEX_ETIMEDOUT = False"
| "futex_retry FUTEX_ERROR = False"

fun waitUntilChanged ::
  "nat \<Rightarrow> ('m \<Rightarrow> u32) \<Rightarrow> 'm environment \<Rightarrow> nat \<Rightarrow> u32 \<Rightarrow> Timepoint \<Rightarrow> (bool \<times> nat) option" where
  "waitUntilChanged 0 ctr env k expected deadline = None"
| "waitUntilChanged (Suc fuel) ctr env k expected deadline =
     (if ctr (env_mem env k) = expected
      then let now = env_clock env k
           in if deadline \<le> now then Some (False, Suc k)
              else if futex_retry (env_futex env k expected (tp_diff deadline now))
              then waitUntilChanged fuel ctr env (Suc k) expected deadline
              else Some (False, Suc k)
      else Some (True, Suc k))"

definition waitUntilChangedFor ::
  "nat \<Rightarrow> ('m \<Rightarrow> u32) \<Rightarrow> 'm environment \<Rightarrow> nat \<Rightarrow> u32 \<Rightarrow> Duration \<Rightarrow> (bool \<times> nat) option" where
  "waitUntilChangedFor fuel ctr env k expected timeout =
     waitUntilChanged fuel ctr env k expected (tp_plus_dur (env_clock env k) timeout)"

text \<open>The tick at which the wait gives up: the deadline has passed or the kernel reports an error.\<close>

definition gives_up :: "'m environment \<Rightarrow> nat \<Rightarrow> u32 \<Rightarrow> Timepoint \<Rightarrow> bool" where
  "gives_up env k expected deadline \<longleftrightarrow>
     deadline \<le> env_clock env k
     \<or> \<not> futex_retry (env_futex env k expected (tp_diff deadline (env_clock env k)))"

lemma waitUntilChanged_step:
  "waitUntilChanged (Suc fuel) ctr env k expected deadline =
     (if ctr (env_mem env k) \<noteq> expected then Some (True, Suc k)
      else if gives_up env k expected deadline then Some (False, Suc k)
      else waitUntilChanged fuel ctr env (Suc k) expected deadline)"
  by (simp add: gives_up_def Let_def)

declare waitUntilChanged.simps(2) [simp del]

lemma waitUntilChanged_True:
  "waitUntilChanged fuel ctr env k expected deadline = Some (True, k') \<Longrightarrow>
     k < k' \<and> ctr (env_mem env (k' - 1)) \<noteq> expected
     \<and> (\<forall>j. k \<le> j \<and> Suc j < k' \<longrightarrow> ctr (env_mem env j) = expected)"
proof (induction fuel arbitrary: k)
  case (Suc fuel)
  show ?case
  proof (cases "ctr (env_mem env k) = expected \<and> \<not> gives_up env k expected deadline")
    case True
    with Suc.prems have "waitUntilChanged fuel ctr env (Suc k) expected deadline = Some (True, k')"
      by (simp add: waitUntilChanged_step)
    note IH = Suc.IH [OF this]
    have "\<forall>j. k \<le> j \<and> Suc j < k' \<longrightarrow> ctr (env_mem env j) = expected"
      by (rule all_from_Suc) (use IH True in blast)+
    moreover from IH have "k < k'" by (blast dest: Suc_lessD)
    ultimately show ?thesis using IH by blast
  next
    case False
    with Suc.prems show ?thesis
      by (auto simp: waitUntilChanged_step less_Suc_eq_le split: if_splits)
  qed
qed simp

lemma waitUntilChanged_False:
  "waitUntilChanged fuel ctr env k expected deadline = Some (False, k') \<Longrightarrow>
     k < k' \<and> gives_up env (k' - 1) expected deadline
     \<and> (\<forall>j. k \<le> j \<and> j < k' \<longrightarrow> ctr (env_mem env j) = expected)"
proof (induction fuel arbitrary: k)
  case (Suc fuel)
  show ?case
  proof (cases "ctr (env_mem env k) = expected \<and> \<not> gives_up env k expected deadline")
    case True
    with Suc.prems have "waitUntilChanged fuel ctr env (Suc k) expected deadline = Some (False, k')"
      by (simp add: waitUntilChanged_step)
    note IH = Suc.IH [OF this]
    have "\<forall>j. k \<le> j \<and> j < k' \<longrightarrow> ctr (env_mem env j) = expected"
      by (rule all_from_Suc) (use IH True in blast)+
    moreover from IH have "k < k'" by (blast dest: Suc_lessD)
    ultimately show ?thesis using IH by blast
  next
    case False
    with Suc.prems show ?thesis
      by (auto simp: waitUntilChanged_step less_Suc_eq_le split: if_splits)
  qed
qed simp

lemma waitUntilChanged_progress:
  "waitUntilChanged fuel ctr env k expected deadline = Some (b, k') \<Longrightarrow> k < k' \<and> k' \<le> k + fuel"
proof (induction fuel arbitrary: k)
  case (Suc fuel)
  then show ?case
    by (fastforce simp: waitUntilChanged_step split: if_splits)
qed simp

text \<open>Enough fuel: the wait ends by the first tick that shows a change or gives up.\<close>

lemma waitUntilChanged_returns:
  assumes "ctr (env_mem env n) \<noteq> expected \<or> gives_up env n expected deadline" and "k \<le> n"
    and "n - k < fuel"
  shows "\<exists>b k'. waitUntilChanged fuel ctr env k expected deadline = Some (b, k') \<and> k' \<le> Suc n"
  using assms(2,3)
proof (induction fuel arbitrary: k)
  case (Suc fuel)
  show ?case
  proof (cases "k = n")
    case True
    with assms(1) show ?thesis by (auto simp: waitUntilChanged_step)
  next
    case False
    with Suc.prems have "Suc k \<le> n" "n - Suc k < fuel" by auto
    then obtain b k' where "waitUntilChanged fuel ctr env (Suc k) expected deadline = Some (b, k')" "k' \<le> Suc n"
      using Suc.IH by blast
    with \<open>Suc k \<le> n\<close> show ?thesis by (auto simp: waitUntilChanged_step)
  qed
qed simp

lemma waitUntilChanged_more_fuel:
  "waitUntilChanged fuel ctr env k expected deadline = Some r \<Longrightarrow> fuel \<le> fuel' \<Longrightarrow>
     waitUntilChanged fuel' ctr env k expected deadline = Some r"
proof (induction fuel arbitrary: k fuel')
  case (Suc fuel)
  then obtain f where "fuel' = Suc f" "fuel \<le> f" by (cases fuel') auto
  with Suc show ?case
    by (auto simp: waitUntilChanged_step split: if_splits)
qed simp

text \<open>A change made before the wait starts is never slept through.\<close>

lemma waitUntilChanged_no_lost_wakeup:
  "ctr (env_mem env k) \<noteq> expected \<Longrightarrow> 0 < fuel \<Longrightarrow>
     waitUntilChanged fuel ctr env k expected deadline = Some (True, Suc k)"
  by (cases fuel) (auto simp: waitUntilChanged_step)

end
