(* ===== verification/Blocking.thy ===== *)
theory Blocking
  imports Sync
begin

text \<open>
  The contract of the blocking read loops. The discrete and the continuous reader wait in the same
  way: remember the synchronisation counter, try a non blocking read, and when it came too early
  sleep until the counter differs from the remembered value. The locale takes the loop by its
  equations and proves once what both readers rely on; the reader theories interpret it on their
  own loops.
\<close>

locale blocking_read =
  fixes attempt :: "'m \<Rightarrow> 'm \<Rightarrow> 'r outcome"
    and early :: "'r \<Rightarrow> bool"
    and ctr :: "'m \<Rightarrow> u32"
    and run :: "nat \<Rightarrow> 'm environment \<Rightarrow> nat \<Rightarrow> Timepoint \<Rightarrow> ('r outcome \<times> nat) option"
  assumes run_0: "run 0 env k deadline = None"
    and run_Suc: "run (Suc fuel) env k deadline =
      (case attempt (env_mem env (k + 1)) (env_mem env (k + 2)) of
         Ret r \<Rightarrow>
           if \<not> early r then Some (Ret r, k + 3)
           else (case waitUntilChanged fuel ctr env (k + 3) (ctr (env_mem env k)) deadline of
                   None \<Rightarrow> None
                 | Some (changed, k') \<Rightarrow>
                     if changed then run fuel env k' deadline else Some (Ret r, k'))
       | Throw e \<Rightarrow> Some (Throw e, k + 3)
       | Crash c \<Rightarrow> Some (Crash c, k + 3))"
begin

text \<open>The result is that of one attempt on the memory of two consecutive ticks.\<close>

lemma result_is_attempt:
  "run fuel env k deadline = Some (res, k') \<Longrightarrow>
     \<exists>j. k \<le> j \<and> j + 2 < k' \<and> attempt (env_mem env (j + 1)) (env_mem env (j + 2)) = res"
proof (induction fuel arbitrary: k)
  case 0
  then show ?case by (simp add: run_0)
next
  case (Suc fuel)
  show ?case
  proof (cases "attempt (env_mem env (k + 1)) (env_mem env (k + 2))")
    case (Ret r)
    show ?thesis
    proof (cases "early r")
      case False
      with Ret Suc.prems show ?thesis
        by (intro exI [of _ k]) (simp add: run_Suc)
    next
      case True
      with Ret Suc.prems obtain b k1 where w:
        "waitUntilChanged fuel ctr env (k + 3) (ctr (env_mem env k)) deadline = Some (b, k1)"
        "if b then run fuel env k1 deadline = Some (res, k') else res = Ret r \<and> k' = k1"
        by (auto simp: run_Suc split: option.splits prod.splits if_splits)
      from waitUntilChanged_progress [OF w(1)] have k1: "k + 3 < k1" by simp
      show ?thesis
      proof (cases b)
        case True
        with w(2) obtain j where "k1 \<le> j" "j + 2 < k'"
          "attempt (env_mem env (j + 1)) (env_mem env (j + 2)) = res"
          using Suc.IH by auto
        with k1 show ?thesis by (intro exI [of _ j]) simp
      next
        case False
        with w(2) Ret k1 show ?thesis by (intro exI [of _ k]) simp
      qed
    qed
  qed (use Suc.prems in \<open>auto simp: run_Suc intro!: exI [of _ k]\<close>)
qed

text \<open>Coming back too early means the wait gave up: the deadline passed or the futex failed.\<close>

lemma early_only_after_giving_up:
  "run fuel env k deadline = Some (Ret r, k') \<Longrightarrow> early r \<Longrightarrow>
     \<exists>expected. gives_up env (k' - 1) expected deadline"
proof (induction fuel arbitrary: k)
  case 0
  then show ?case by (simp add: run_0)
next
  case (Suc fuel)
  from Suc.prems obtain r1 where r1: "attempt (env_mem env (k + 1)) (env_mem env (k + 2)) = Ret r1" "early r1"
    by (auto simp: run_Suc split: outcome.splits if_splits)
  with Suc.prems obtain b k1 where w:
    "waitUntilChanged fuel ctr env (k + 3) (ctr (env_mem env k)) deadline = Some (b, k1)"
    "if b then run fuel env k1 deadline = Some (Ret r, k') else k' = k1"
    by (auto simp: run_Suc split: option.splits prod.splits if_splits)
  show ?case
  proof (cases b)
    case True
    with w(2) Suc.IH Suc.prems(2) show ?thesis by auto
  next
    case False
    with w have "waitUntilChanged fuel ctr env (k + 3) (ctr (env_mem env k)) deadline = Some (False, k')"
      by simp
    from waitUntilChanged_False [OF this] show ?thesis by blast
  qed
qed

text \<open>
  Attempts are no longer too early from tick \<open>t\<close> on, and by tick \<open>u\<close> the writer has moved the
  counter: then a waiting reader is back by tick \<open>u + 6\<close>, not too early. No wake up is lost,
  however the reader's accesses and the writer's stores interleave.
\<close>

lemma no_lost_data:
  assumes total: "\<And>j. \<exists>r. attempt (env_mem env j) (env_mem env (j + 1)) = Ret r"
    and after: "\<And>j r. t \<le> j \<Longrightarrow> j \<le> u + 3 \<Longrightarrow> attempt (env_mem env j) (env_mem env (j + 1)) = Ret r \<Longrightarrow> \<not> early r"
    and bump: "\<And>i j. i + 1 < t \<Longrightarrow> u \<le> j \<Longrightarrow> j \<le> u + 1 \<Longrightarrow> ctr (env_mem env j) \<noteq> ctr (env_mem env i)"
    and patient: "\<And>j e. j < u \<Longrightarrow> \<not> gives_up env j e deadline"
    and "t \<le> u"
  shows "k \<le> u \<Longrightarrow> u + 5 \<le> k + fuel \<Longrightarrow>
    \<exists>r k'. run fuel env k deadline = Some (Ret r, k') \<and> \<not> early r \<and> k' \<le> u + 6"
proof (induction fuel arbitrary: k)
  case 0
  then show ?case by simp
next
  case (Suc fuel)
  obtain r where r: "attempt (env_mem env (k + 1)) (env_mem env (k + 2)) = Ret r"
    using total [of "k + 1"] by auto
  show ?case
  proof (cases "early r")
    case False
    with r Suc.prems show ?thesis by (simp add: run_Suc)
  next
    case True
    with after [of "k + 1" r] r Suc.prems(1) have k: "k + 1 < t" by (cases "t \<le> k + 1") auto
    define n where "n = max (k + 3) u"
    have n: "u \<le> n" "n \<le> u + 1"
      using k \<open>t \<le> u\<close> by (auto simp: n_def)
    then have "ctr (env_mem env n) \<noteq> ctr (env_mem env k)"
      using bump [of k n] k by simp
    moreover have "k + 3 \<le> n" "n - (k + 3) < fuel"
      using Suc.prems k \<open>t \<le> u\<close> by (auto simp: n_def)
    ultimately obtain b k1 where
      w: "waitUntilChanged fuel ctr env (k + 3) (ctr (env_mem env k)) deadline = Some (b, k1)" "k1 \<le> Suc n"
      using waitUntilChanged_returns [of ctr env n "ctr (env_mem env k)" deadline "k + 3" fuel] by blast
    have b
    proof (rule ccontr)
      assume "\<not> b"
      with w(1) have "waitUntilChanged fuel ctr env (k + 3) (ctr (env_mem env k)) deadline = Some (False, k1)"
        by simp
      note f = waitUntilChanged_False [OF this]
      then have "u \<le> k1 - 1"
        using patient [of "k1 - 1"] by (cases "k1 - 1 < u") auto
      moreover have "k + 3 \<le> k1 - 1" "k1 - 1 < k1"
        using f by auto
      with f have "ctr (env_mem env (k1 - 1)) = ctr (env_mem env k)"
        by blast
      ultimately show False
        using bump [of k "k1 - 1"] k w(2) n by linarith
    qed
    with w r True have step: "run (Suc fuel) env k deadline = run fuel env k1 deadline"
      by (simp add: run_Suc)
    have k1: "k + 3 < k1"
      using waitUntilChanged_progress [OF w(1)] by simp
    show ?thesis
    proof (cases "k1 \<le> u")
      case True
      with Suc.IH [of k1] Suc.prems k1 step show ?thesis by simp
    next
      case False
      with w(2) k \<open>t \<le> u\<close> have "k1 \<le> u + 2" by (simp add: n_def)
      moreover obtain f where "fuel = Suc f"
        using Suc.prems k \<open>t \<le> u\<close> by (cases fuel) auto
      moreover obtain r' where r': "attempt (env_mem env (k1 + 1)) (env_mem env (k1 + 2)) = Ret r'"
        using total [of "k1 + 1"] by auto
      moreover have "\<not> early r'"
        using after [of "k1 + 1" r'] r' False \<open>t \<le> u\<close> \<open>k1 \<le> u + 2\<close> by simp
      ultimately show ?thesis
        using step by (simp add: run_Suc)
    qed
  qed
qed

text \<open>
  The loop ends: once the clock stays past the deadline and the counter no longer moves, it
  returns, whatever the memory holds.
\<close>

lemma ends_after_deadline:
  assumes quiet: "\<And>j. n \<le> j \<Longrightarrow> ctr (env_mem env j) = ctr (env_mem env n)"
    and late: "\<And>j. n \<le> j \<Longrightarrow> deadline \<le> env_clock env j"
  shows "n + 8 \<le> k + fuel \<Longrightarrow> 2 \<le> fuel \<Longrightarrow> \<exists>res k'. run fuel env k deadline = Some (res, k')"
proof (induction fuel arbitrary: k rule: less_induct)
  case (less fuel)
  then obtain f where f: "fuel = Suc f" "1 \<le> f" by (cases fuel) auto
  show ?case
  proof (cases "\<exists>r. attempt (env_mem env (k + 1)) (env_mem env (k + 2)) = Ret r \<and> early r")
    case False
    with f show ?thesis by (cases "attempt (env_mem env (k + 1)) (env_mem env (k + 2))") (auto simp: run_Suc)
  next
    case True
    then obtain r where r: "attempt (env_mem env (k + 1)) (env_mem env (k + 2)) = Ret r" "early r" by blast
    define m where "m = max (k + 3) n"
    have "gives_up env m (ctr (env_mem env k)) deadline"
      using late [of m] by (simp add: gives_up_def m_def)
    moreover have "k + 3 \<le> m" "m - (k + 3) < f"
      using less.prems f by (auto simp: m_def)
    ultimately obtain b k1 where
      w: "waitUntilChanged f ctr env (k + 3) (ctr (env_mem env k)) deadline = Some (b, k1)" "k1 \<le> Suc m"
      using waitUntilChanged_returns [of ctr env m "ctr (env_mem env k)" deadline "k + 3" f] by blast
    show ?thesis
    proof (cases b)
      case False
      with w r f show ?thesis by (simp add: run_Suc)
    next
      case True
      have adv: "k + 3 < k1" "k1 \<le> k + 3 + f"
        using waitUntilChanged_progress [OF w(1)] by auto
      have "k < n"
      proof (rule ccontr)
        assume "\<not> k < n"
        then have "ctr (env_mem env (k1 - 1)) = ctr (env_mem env k)"
          using quiet [of k] quiet [of "k1 - 1"] adv by simp
        with w(1) True show False
          using waitUntilChanged_True [of f ctr env "k + 3" "ctr (env_mem env k)" deadline k1] by simp
      qed
      then have "n + 8 \<le> k1 + f" "2 \<le> f"
        using less.prems adv f w(2) by (auto simp: m_def)
      with less.IH [of f k1] f have "\<exists>res k'. run f env k1 deadline = Some (res, k')" by simp
      with True w r f show ?thesis by (simp add: run_Suc)
    qed
  qed
qed

end

end
