(* ===== verification/DiscreteFlow.thy ===== *)
theory DiscreteFlow
  imports Blocking
begin

text \<open>
  The reader and the writer of a discrete flow (\<open>PosixDiscreteFlowReader.cpp\<close>,
  \<open>PosixDiscreteFlowWriter.cpp\<close>, \<open>DiscreteFlowData.hpp\<close>). The shared memory of a flow is its
  flow structure and its ring of grains. A pointer to a payload is the number of the slot it lies
  in. The reader looks at the memory twice, at the head index and at the grain header; what other
  processes do in between is the difference between the two arguments. The stores of a commit are
  separate definitions, in the order the code makes them, so that a reader can run between them.
\<close>

section \<open>The mapped memory\<close>

record discrete_mem =
  dm_flow :: Flow
  dm_grains :: "Grain list"

definition dm_head :: "discrete_mem \<Rightarrow> u64" where
  "dm_head m = headIndex (runtime (flow_info (dm_flow m)))"

definition dm_grainCount :: "discrete_mem \<Rightarrow> u64" where
  "dm_grainCount m = ucast (grainCount (discrete (config (flow_info (dm_flow m)))))"

definition dm_counter :: "discrete_mem \<Rightarrow> u32" where
  "dm_counter m = syncCounter (flow_state (dm_flow m))"

definition grainAt :: "discrete_mem \<Rightarrow> u64 \<Rightarrow> Grain option" where
  "grainAt m i = (if unat i < length (dm_grains m) then Some (dm_grains m ! unat i) else None)"

definition grainInfoAt :: "discrete_mem \<Rightarrow> u64 \<Rightarrow> mxlGrainInfo option" where
  "grainInfoAt m i = map_option g_info (grainAt m i)"

definition set_runtime :: "(mxlFlowRuntimeInfo \<Rightarrow> mxlFlowRuntimeInfo) \<Rightarrow> Flow \<Rightarrow> Flow" where
  "set_runtime f fl = fl\<lparr>flow_info := (flow_info fl)\<lparr>runtime := f (runtime (flow_info fl))\<rparr>\<rparr>"

definition set_grain :: "u64 \<Rightarrow> (Grain \<Rightarrow> Grain) \<Rightarrow> discrete_mem \<Rightarrow> discrete_mem" where
  "set_grain i f m = m\<lparr>dm_grains := (dm_grains m)[unat i := f (dm_grains m ! unat i)]\<rparr>"

text \<open>The writer sees the flow it opened as long as the file at its path keeps its inode.\<close>

definition isFlowValidImpl :: "Flow \<Rightarrow> nat option \<Rightarrow> bool" where
  "isFlowValidImpl fl st_ino = (case st_ino of None \<Rightarrow> False | Some ino \<Rightarrow> ino = inode (flow_state fl))"

section \<open>The reader\<close>

record discrete_reader =
  dr_flowData :: bool
  dr_accessFileFd :: int

text \<open>
  \<open>PosixDiscreteFlowReader::getGrainImpl\<close>: \<open>m1\<close> is the memory when the head index is read,
  \<open>m2\<close> the memory when the grain header is.
\<close>

definition getGrainImpl ::
  "u64 \<Rightarrow> u16 \<Rightarrow> discrete_mem \<Rightarrow> discrete_mem \<Rightarrow> (mxlStatus \<times> (mxlGrainInfo \<times> u64) option) outcome" where
  "getGrainImpl in_index in_minValidSlices m1 m2 =
     (let head = dm_head m1 in
      if in_index \<le> head then
        let count = dm_grainCount m1;
            minIndex = (if count \<le> head then head - count + 1 else 0)
        in if minIndex \<le> in_index then
             if count = 0 then Crash DivisionByZero
             else let offset = in_index mod count in
               case grainAt m2 offset of
                 None \<Rightarrow> Crash NullDereference
               | Some g \<Rightarrow>
                   if min in_minValidSlices (totalSlices (g_info g)) \<le> validSlices (g_info g)
                      \<or> and (gi_flags (g_info g)) MXL_GRAIN_FLAG_INVALID \<noteq> 0
                   then Ret (MXL_STATUS_OK, Some (g_info g, offset))
                   else Ret (MXL_ERR_OUT_OF_RANGE_TOO_EARLY, None)
           else Ret (MXL_ERR_OUT_OF_RANGE_TOO_LATE, None)
      else Ret (MXL_ERR_OUT_OF_RANGE_TOO_EARLY, None))"

definition grain_early :: "mxlStatus \<times> 'a \<Rightarrow> bool" where
  "grain_early r \<longleftrightarrow> fst r = MXL_ERR_OUT_OF_RANGE_TOO_EARLY"

text \<open>The blocking form: the counter is read at tick \<open>k\<close>, the attempt takes two more.\<close>

fun getGrainImplUntil ::
  "u64 \<Rightarrow> u16 \<Rightarrow> nat \<Rightarrow> discrete_mem environment \<Rightarrow> nat \<Rightarrow> Timepoint \<Rightarrow>
     ((mxlStatus \<times> (mxlGrainInfo \<times> u64) option) outcome \<times> nat) option" where
  "getGrainImplUntil in_index in_min 0 env k deadline = None"
| "getGrainImplUntil in_index in_min (Suc fuel) env k deadline =
     (case getGrainImpl in_index in_min (env_mem env (k + 1)) (env_mem env (k + 2)) of
        Ret r \<Rightarrow>
          if \<not> grain_early r then Some (Ret r, k + 3)
          else (case waitUntilChanged fuel dm_counter env (k + 3) (dm_counter (env_mem env k)) deadline of
                  None \<Rightarrow> None
                | Some (changed, k') \<Rightarrow>
                    if changed then getGrainImplUntil in_index in_min fuel env k' deadline
                    else Some (Ret r, k'))
      | Throw e \<Rightarrow> Some (Throw e, k + 3)
      | Crash c \<Rightarrow> Some (Crash c, k + 3))"

interpretation discrete_blocking: blocking_read "getGrainImpl i minv" grain_early dm_counter "getGrainImplUntil i minv"
  for i minv
  by unfold_locales simp_all

text \<open>
  What the public calls do with the result: \<open>stat\<close> gives the inode at the path of the flow file
  when they ask for it; the last component is the descriptor whose access time they update.
\<close>

definition finish_getGrain ::
  "discrete_reader \<Rightarrow> Flow \<Rightarrow> nat option \<Rightarrow> mxlStatus \<times> (mxlGrainInfo \<times> u64) option \<Rightarrow>
     mxlStatus \<times> (mxlGrainInfo \<times> u64) option \<times> int option" where
  "finish_getGrain r fl st_ino res =
     (if fst res = MXL_STATUS_OK then (fst res, snd res, Some (dr_accessFileFd r))
      else if fst res = MXL_ERR_OUT_OF_RANGE_TOO_EARLY
      then (if isFlowValidImpl fl st_ino then (fst res, snd res, None) else (MXL_ERR_FLOW_INVALID, snd res, None))
      else (fst res, snd res, None))"

definition getGrain ::
  "discrete_reader \<Rightarrow> u64 \<Rightarrow> u16 \<Rightarrow> discrete_mem \<Rightarrow> discrete_mem \<Rightarrow> nat option \<Rightarrow>
     (mxlStatus \<times> (mxlGrainInfo \<times> u64) option \<times> int option) outcome" where
  "getGrain r in_index in_min m1 m2 st_ino =
     (if dr_flowData r
      then obind (getGrainImpl in_index in_min m1 m2) (\<lambda>res. Ret (finish_getGrain r (dm_flow m2) st_ino res))
      else Ret (MXL_ERR_UNKNOWN, None, None))"

definition getGrainUntil ::
  "discrete_reader \<Rightarrow> u64 \<Rightarrow> u16 \<Rightarrow> nat \<Rightarrow> discrete_mem environment \<Rightarrow> nat \<Rightarrow> Timepoint \<Rightarrow> (nat \<Rightarrow> nat option) \<Rightarrow>
     ((mxlStatus \<times> (mxlGrainInfo \<times> u64) option \<times> int option) outcome \<times> nat) option" where
  "getGrainUntil r in_index in_min fuel env k deadline stat =
     (if dr_flowData r
      then (case getGrainImplUntil in_index in_min fuel env k deadline of
              None \<Rightarrow> None
            | Some (res, k') \<Rightarrow>
                Some (obind res (\<lambda>x. Ret (finish_getGrain r (dm_flow (env_mem env k')) (stat k') x)), k'))
      else Some (Ret (MXL_ERR_UNKNOWN, None, None), k))"

definition waitForGrain ::
  "discrete_reader \<Rightarrow> u64 \<Rightarrow> u16 \<Rightarrow> nat \<Rightarrow> discrete_mem environment \<Rightarrow> nat \<Rightarrow> Timepoint \<Rightarrow> (nat \<Rightarrow> nat option) \<Rightarrow>
     (mxlStatus outcome \<times> nat) option" where
  "waitForGrain r in_index in_min fuel env k deadline stat =
     (if dr_flowData r
      then (case getGrainImplUntil in_index in_min fuel env k deadline of
              None \<Rightarrow> None
            | Some (res, k') \<Rightarrow>
                Some (obind res (\<lambda>x.
                  if fst x = MXL_ERR_OUT_OF_RANGE_TOO_EARLY \<and> \<not> isFlowValidImpl (dm_flow (env_mem env k')) (stat k')
                  then Ret MXL_ERR_FLOW_INVALID else Ret (fst x)), k'))
      else Some (Ret MXL_ERR_UNKNOWN, k))"

definition discrete_isFlowValid :: "discrete_reader \<Rightarrow> Flow \<Rightarrow> nat option \<Rightarrow> bool" where
  "discrete_isFlowValid r fl st_ino \<longleftrightarrow> dr_flowData r \<and> isFlowValidImpl fl st_ino"

definition dr_getFlowInfo :: "discrete_reader \<Rightarrow> discrete_mem \<Rightarrow> mxlFlowInfo outcome" where
  "dr_getFlowInfo r m = (if dr_flowData r then Ret (flow_info (dm_flow m)) else Throw RuntimeError)"

definition dr_getFlowConfigInfo :: "discrete_reader \<Rightarrow> discrete_mem \<Rightarrow> mxlFlowConfigInfo outcome" where
  "dr_getFlowConfigInfo r m = obind (dr_getFlowInfo r m) (\<lambda>i. Ret (config i))"

definition dr_getFlowRuntimeInfo :: "discrete_reader \<Rightarrow> discrete_mem \<Rightarrow> mxlFlowRuntimeInfo outcome" where
  "dr_getFlowRuntimeInfo r m = obind (dr_getFlowInfo r m) (\<lambda>i. Ret (runtime i))"

section \<open>The writer\<close>

record discrete_writer =
  dw_flowData :: bool
  dw_currentIndex :: u64

definition new_discrete_writer :: discrete_writer where
  "new_discrete_writer = \<lparr>dw_flowData = True, dw_currentIndex = MXL_UNDEFINED_INDEX\<rparr>"

definition dw_getFlowInfo :: "discrete_writer \<Rightarrow> discrete_mem \<Rightarrow> mxlFlowInfo outcome" where
  "dw_getFlowInfo w m = (if dw_flowData w then Ret (flow_info (dm_flow m)) else Throw RuntimeError)"

definition getGrainInfo :: "discrete_writer \<Rightarrow> discrete_mem \<Rightarrow> u64 \<Rightarrow> mxlGrainInfo outcome" where
  "getGrainInfo w m in_index =
     (if dw_flowData w then
        if dm_grainCount m = 0 then Crash DivisionByZero
        else (case grainAt m (in_index mod dm_grainCount m) of
                None \<Rightarrow> Crash NullDereference
              | Some g \<Rightarrow> Ret (g_info g))
      else Throw RuntimeError)"

definition openGrain ::
  "discrete_writer \<Rightarrow> discrete_mem \<Rightarrow> u64 \<Rightarrow>
     (mxlStatus \<times> (mxlGrainInfo \<times> u64) option \<times> discrete_writer \<times> discrete_mem) outcome" where
  "openGrain w m in_index =
     (if dw_flowData w then
        if dm_grainCount m = 0 then Crash DivisionByZero
        else let offset = in_index mod dm_grainCount m in
          case grainAt m offset of
            None \<Rightarrow> Crash NullDereference
          | Some g \<Rightarrow>
              let info = (g_info g)\<lparr>gi_index := in_index\<rparr>
              in Ret (MXL_STATUS_OK, Some (info, offset), w\<lparr>dw_currentIndex := in_index\<rparr>,
                      set_grain offset (\<lambda>g. g\<lparr>g_info := info\<rparr>) m)
      else Ret (MXL_ERR_UNKNOWN, None, w, m))"

definition cancel_grain :: "discrete_writer \<Rightarrow> mxlStatus \<times> discrete_writer" where
  "cancel_grain w = (MXL_STATUS_OK, w\<lparr>dw_currentIndex := MXL_UNDEFINED_INDEX\<rparr>)"

text \<open>The four stores of \<open>commit\<close>, in their order.\<close>

definition commit_head :: "discrete_writer \<Rightarrow> discrete_mem \<Rightarrow> discrete_mem" where
  "commit_head w m = m\<lparr>dm_flow := set_runtime (\<lambda>r. r\<lparr>headIndex := dw_currentIndex w\<rparr>) (dm_flow m)\<rparr>"

definition commit_info :: "discrete_writer \<Rightarrow> mxlGrainInfo \<Rightarrow> discrete_mem \<Rightarrow> discrete_mem" where
  "commit_info w info m =
     set_grain (dw_currentIndex w mod dm_grainCount m) (\<lambda>g. g\<lparr>g_info := info\<rparr>) m"

definition commit_time :: "Timepoint \<Rightarrow> discrete_mem \<Rightarrow> discrete_mem" where
  "commit_time now m = m\<lparr>dm_flow := set_runtime (\<lambda>r. r\<lparr>lastWriteTime := word_of_int (tp_value now)\<rparr>) (dm_flow m)\<rparr>"

definition commit_signal :: "discrete_mem \<Rightarrow> discrete_mem" where
  "commit_signal m =
     m\<lparr>dm_flow := (dm_flow m)\<lparr>flow_state := (flow_state (dm_flow m))\<lparr>syncCounter := syncCounter (flow_state (dm_flow m)) + 1\<rparr>\<rparr>\<rparr>"

definition commit_reset :: "mxlGrainInfo \<Rightarrow> discrete_writer \<Rightarrow> discrete_writer" where
  "commit_reset info w =
     (if validSlices info = totalSlices info then w\<lparr>dw_currentIndex := MXL_UNDEFINED_INDEX\<rparr> else w)"

definition commit_grain ::
  "discrete_writer \<Rightarrow> discrete_mem \<Rightarrow> mxlGrainInfo \<Rightarrow> Timepoint \<Rightarrow> (mxlStatus \<times> discrete_writer \<times> discrete_mem) outcome" where
  "commit_grain w m info now =
     (if dw_flowData w then
        if gi_index info \<noteq> dw_currentIndex w then Ret (MXL_ERR_INVALID_ARG, w, m)
        else let m1 = commit_head w m in
          if dm_grainCount m1 = 0 then Crash DivisionByZero
          else if grainInfoAt m1 (dw_currentIndex w mod dm_grainCount m1) = None then Crash NullDereference
          else Ret (MXL_STATUS_OK, commit_reset info w,
                    commit_signal (commit_time now (commit_info w info m1)))
      else Ret (MXL_ERR_UNKNOWN, w, m))"

section \<open>How the stores act on what is read\<close>

named_theorems store_simps \<open>what each store changes and keeps\<close>

lemma set_runtime_simps [store_simps]:
  "flow_state (set_runtime f fl) = flow_state fl"
  "config (flow_info (set_runtime f fl)) = config (flow_info fl)"
  "runtime (flow_info (set_runtime f fl)) = f (runtime (flow_info fl))"
  by (simp_all add: set_runtime_def)

lemma set_grain_simps [store_simps]:
  "dm_flow (set_grain i f m) = dm_flow m"
  "length (dm_grains (set_grain i f m)) = length (dm_grains m)"
  "dm_head (set_grain i f m) = dm_head m"
  "dm_grainCount (set_grain i f m) = dm_grainCount m"
  "dm_counter (set_grain i f m) = dm_counter m"
  by (simp_all add: set_grain_def dm_head_def dm_grainCount_def dm_counter_def)

lemma set_grain_nth [store_simps]:
  "unat i < length (dm_grains m) \<Longrightarrow>
     dm_grains (set_grain i f m) ! k = (if k = unat i then f (dm_grains m ! k) else dm_grains m ! k)"
  by (simp add: set_grain_def nth_list_update)

lemma commit_head_simps [store_simps]:
  "dm_grains (commit_head w m) = dm_grains m"
  "dm_head (commit_head w m) = dw_currentIndex w"
  "dm_grainCount (commit_head w m) = dm_grainCount m"
  "dm_counter (commit_head w m) = dm_counter m"
  by (simp_all add: commit_head_def dm_head_def dm_grainCount_def dm_counter_def store_simps)

lemma commit_info_simps [store_simps]:
  "dm_flow (commit_info w info m) = dm_flow m"
  "length (dm_grains (commit_info w info m)) = length (dm_grains m)"
  "dm_head (commit_info w info m) = dm_head m"
  "dm_grainCount (commit_info w info m) = dm_grainCount m"
  "dm_counter (commit_info w info m) = dm_counter m"
  by (simp_all add: commit_info_def store_simps)

lemma commit_time_simps [store_simps]:
  "dm_grains (commit_time now m) = dm_grains m"
  "dm_head (commit_time now m) = dm_head m"
  "dm_grainCount (commit_time now m) = dm_grainCount m"
  "dm_counter (commit_time now m) = dm_counter m"
  by (simp_all add: commit_time_def dm_head_def dm_grainCount_def dm_counter_def store_simps)

lemma commit_signal_simps [store_simps]:
  "dm_grains (commit_signal m) = dm_grains m"
  "dm_head (commit_signal m) = dm_head m"
  "dm_grainCount (commit_signal m) = dm_grainCount m"
  "dm_counter (commit_signal m) = dm_counter m + 1"
  by (simp_all add: commit_signal_def dm_head_def dm_grainCount_def dm_counter_def)

end
