(* ===== verification/DiscreteRing.thy ===== *)
theory DiscreteRing
  imports DiscreteFlow
begin

text \<open>
  A discrete flow in use: the writer's operations as steps of a state machine, with the stores of a
  commit as separate steps so that readers run between any two of them. A ghost history records the
  header last committed and the payload last written for every grain index. The client opens
  indices in non decreasing order, which is how the grain index follows the media clock. The
  invariant says what of the history the ring still holds, and the properties of the reader follow.
\<close>

section \<open>The state machine\<close>

datatype commit_pc = Idle | HeadStored mxlGrainInfo | InfoStored mxlGrainInfo | TimeStored mxlGrainInfo

record ring =
  rg_mem :: discrete_mem
  rg_writer :: discrete_writer
  rg_pc :: commit_pc
  rg_top :: u64
  rg_hdr :: "u64 \<Rightarrow> mxlGrainInfo option"
  rg_pay :: "u64 \<Rightarrow> u8 list option"

definition set_payload :: "u64 \<Rightarrow> u8 list \<Rightarrow> discrete_mem \<Rightarrow> discrete_mem" where
  "set_payload i bytes m = set_grain i (\<lambda>g. g\<lparr>g_payload := bytes\<rparr>) m"

inductive ring_step :: "ring \<Rightarrow> ring \<Rightarrow> bool" where
  open_step:
    "rg_pc s = Idle \<Longrightarrow> rg_top s \<le> i \<Longrightarrow> i \<noteq> MXL_UNDEFINED_INDEX \<Longrightarrow>
     openGrain (rg_writer s) (rg_mem s) i = Ret (MXL_STATUS_OK, out, w', m') \<Longrightarrow>
     ring_step s (s\<lparr>rg_mem := m', rg_writer := w', rg_top := i\<rparr>)"
| write_step:
    "rg_pc s = Idle \<Longrightarrow> dw_currentIndex (rg_writer s) = i \<Longrightarrow> i \<noteq> MXL_UNDEFINED_INDEX \<Longrightarrow>
     ring_step s (s\<lparr>rg_mem := set_payload (i mod dm_grainCount (rg_mem s)) bytes (rg_mem s),
                    rg_pay := (rg_pay s)(i \<mapsto> bytes)\<rparr>)"
| cancel_step:
    "rg_pc s = Idle \<Longrightarrow> ring_step s (s\<lparr>rg_writer := snd (cancel_grain (rg_writer s))\<rparr>)"
| head_step:
    "rg_pc s = Idle \<Longrightarrow> dw_currentIndex (rg_writer s) \<noteq> MXL_UNDEFINED_INDEX \<Longrightarrow>
     gi_index info = dw_currentIndex (rg_writer s) \<Longrightarrow>
     ring_step s (s\<lparr>rg_mem := commit_head (rg_writer s) (rg_mem s), rg_pc := HeadStored info\<rparr>)"
| info_step:
    "rg_pc s = HeadStored info \<Longrightarrow>
     ring_step s (s\<lparr>rg_mem := commit_info (rg_writer s) info (rg_mem s), rg_pc := InfoStored info,
                    rg_hdr := (rg_hdr s)(gi_index info \<mapsto> info)\<rparr>)"
| time_step:
    "rg_pc s = InfoStored info \<Longrightarrow>
     ring_step s (s\<lparr>rg_mem := commit_time now (rg_mem s), rg_pc := TimeStored info\<rparr>)"
| signal_step:
    "rg_pc s = TimeStored info \<Longrightarrow>
     ring_step s (s\<lparr>rg_mem := commit_signal (rg_mem s), rg_writer := commit_reset info (rg_writer s),
                    rg_pc := Idle\<rparr>)"

inductive ring_steps :: "ring \<Rightarrow> ring \<Rightarrow> bool" where
  ring_refl: "ring_steps s s"
| ring_trans: "ring_steps s t \<Longrightarrow> ring_step t u \<Longrightarrow> ring_steps s u"

inductive_cases ring_stepE: "ring_step s t"

text \<open>A flow as its creator leaves it: no grain committed, a head index of zero.\<close>

definition fresh_ring :: "ring \<Rightarrow> bool" where
  "fresh_ring s \<longleftrightarrow>
     0 < dm_grainCount (rg_mem s) \<and> length (dm_grains (rg_mem s)) = unat (dm_grainCount (rg_mem s))
     \<and> dm_head (rg_mem s) = 0 \<and> rg_writer s = new_discrete_writer \<and> rg_pc s = Idle \<and> rg_top s = 0
     \<and> rg_hdr s = (\<lambda>_. None) \<and> rg_pay s = (\<lambda>_. None)"

section \<open>The invariant\<close>

definition slot_of :: "ring \<Rightarrow> u64 \<Rightarrow> Grain" where
  "slot_of s j = dm_grains (rg_mem s) ! unat (j mod dm_grainCount (rg_mem s))"

text \<open>No grain opened later shares the slot of index \<open>j\<close>.\<close>

definition retained :: "ring \<Rightarrow> u64 \<Rightarrow> bool" where
  "retained s j \<longleftrightarrow> unat (rg_top s) < unat j + unat (dm_grainCount (rg_mem s))"

definition writer_ok :: "ring \<Rightarrow> bool" where
  "writer_ok s \<longleftrightarrow>
     dw_flowData (rg_writer s)
     \<and> (dw_currentIndex (rg_writer s) = MXL_UNDEFINED_INDEX \<or> dw_currentIndex (rg_writer s) = rg_top s)
     \<and> (case rg_pc s of Idle \<Rightarrow> True
        | HeadStored info \<Rightarrow> gi_index info = rg_top s \<and> dw_currentIndex (rg_writer s) = rg_top s
        | InfoStored info \<Rightarrow> dw_currentIndex (rg_writer s) = rg_top s
        | TimeStored info \<Rightarrow> dw_currentIndex (rg_writer s) = rg_top s)"

definition ring_shape :: "ring \<Rightarrow> bool" where
  "ring_shape s \<longleftrightarrow>
     0 < dm_grainCount (rg_mem s) \<and> length (dm_grains (rg_mem s)) = unat (dm_grainCount (rg_mem s))
     \<and> dm_head (rg_mem s) \<le> rg_top s"

definition history_ok :: "ring \<Rightarrow> bool" where
  "history_ok s \<longleftrightarrow>
     (\<forall>j info. rg_hdr s j = Some info \<longrightarrow> j \<le> rg_top s \<and> gi_index info = j
        \<and> (retained s j \<longrightarrow> g_info (slot_of s j) = info))
     \<and> (\<forall>j bytes. rg_pay s j = Some bytes \<longrightarrow> j \<le> rg_top s
        \<and> (retained s j \<longrightarrow> g_payload (slot_of s j) = bytes))"

definition ring_inv :: "ring \<Rightarrow> bool" where
  "ring_inv s \<longleftrightarrow> ring_shape s \<and> writer_ok s \<and> history_ok s"

lemma history_okI:
  assumes "\<And>j info. rg_hdr s j = Some info \<Longrightarrow> j \<le> rg_top s"
    and "\<And>j info. rg_hdr s j = Some info \<Longrightarrow> gi_index info = j"
    and "\<And>j info. rg_hdr s j = Some info \<Longrightarrow> retained s j \<Longrightarrow> g_info (slot_of s j) = info"
    and "\<And>j bytes. rg_pay s j = Some bytes \<Longrightarrow> j \<le> rg_top s"
    and "\<And>j bytes. rg_pay s j = Some bytes \<Longrightarrow> retained s j \<Longrightarrow> g_payload (slot_of s j) = bytes"
  shows "history_ok s"
  unfolding history_ok_def using assms by blast

lemma history_hdrD:
  assumes "history_ok s" and "rg_hdr s j = Some info"
  shows "j \<le> rg_top s" and "gi_index info = j" and "retained s j \<Longrightarrow> g_info (slot_of s j) = info"
  using assms unfolding history_ok_def by blast+

lemma history_payD:
  assumes "history_ok s" and "rg_pay s j = Some bytes"
  shows "j \<le> rg_top s" and "retained s j \<Longrightarrow> g_payload (slot_of s j) = bytes"
  using assms unfolding history_ok_def by blast+

lemma fresh_ring_inv: "fresh_ring s \<Longrightarrow> ring_inv s"
  by (simp add: fresh_ring_def ring_inv_def ring_shape_def writer_ok_def history_ok_def new_discrete_writer_def)

lemma slot_in_ring: "ring_shape s \<Longrightarrow> unat (j mod dm_grainCount (rg_mem s)) < length (dm_grains (rg_mem s))"
  by (simp add: ring_shape_def unat_mod_distrib word_less_nat_alt)

text \<open>Retained indices up to the top have slots of their own.\<close>

lemma retained_own_slot:
  assumes "retained s j" and "j \<le> rg_top s" and "j \<noteq> rg_top s"
  shows "unat (rg_top s mod dm_grainCount (rg_mem s)) \<noteq> unat (j mod dm_grainCount (rg_mem s))"
proof
  define n where "n = unat (dm_grainCount (rg_mem s))"
  assume "unat (rg_top s mod dm_grainCount (rg_mem s)) = unat (j mod dm_grainCount (rg_mem s))"
  then have same: "unat j mod n = unat (rg_top s) mod n"
    unfolding n_def unat_mod_distrib by (rule sym)
  have less: "unat j < unat (rg_top s)"
    using assms(2,3) by (metis word_less_nat_alt order.not_eq_order_implies_strict)
  have "unat (rg_top s) < unat j + n"
    using assms(1) unfolding retained_def n_def .
  moreover from less have "unat j < unat (rg_top s) + n" by simp
  ultimately have "unat j = unat (rg_top s)"
    using mod_eq_same_lap [OF same] by blast
  with less show False by simp
qed

lemma openGrain_eq:
  assumes "openGrain w m i = Ret (MXL_STATUS_OK, out, w', m')"
  shows "dm_grainCount m \<noteq> 0 \<and> w' = w\<lparr>dw_currentIndex := i\<rparr>
    \<and> m' = set_grain (i mod dm_grainCount m)
             (\<lambda>g. g\<lparr>g_info := (g_info (dm_grains m ! unat (i mod dm_grainCount m)))\<lparr>gi_index := i\<rparr>\<rparr>) m"
  using assms by (auto simp: openGrain_def grainAt_def Let_def split: if_splits)

lemma grain_update_trivial: "gi_index info = j \<Longrightarrow> info\<lparr>gi_index := j\<rparr> = info"
  by (cases info) simp

lemma open_keeps_history:
  assumes inv: "ring_inv s" and i: "rg_top s \<le> i"
    and op: "openGrain (rg_writer s) (rg_mem s) i = Ret (MXL_STATUS_OK, out, w', m')"
  shows "history_ok (s\<lparr>rg_mem := m', rg_writer := w', rg_top := i\<rparr>)" (is "history_ok ?s")
proof -
  note eq = openGrain_eq [OF op]
  have shape: "ring_shape s" and hist: "history_ok s" using inv by (auto simp: ring_inv_def)
  have count: "dm_grainCount (rg_mem ?s) = dm_grainCount (rg_mem s)" using eq by (simp add: store_simps)
  have old: "retained s j" if "retained ?s j" for j
    using that i count by (simp add: retained_def word_le_nat_alt)
  have slot: "slot_of ?s j = (if j = i then (slot_of s j)\<lparr>g_info := (g_info (slot_of s j))\<lparr>gi_index := i\<rparr>\<rparr> else slot_of s j)"
    if "retained ?s j" and "j \<le> rg_top s" for j
  proof -
    have "unat (i mod dm_grainCount (rg_mem s)) \<noteq> unat (j mod dm_grainCount (rg_mem s))" if "j \<noteq> i"
      using retained_own_slot [of ?s j] \<open>retained ?s j\<close> \<open>j \<le> rg_top s\<close> i that count by simp
    then show ?thesis
      using eq slot_in_ring [OF shape, of i] by (auto simp: slot_of_def store_simps)
  qed
  note hdr = history_hdrD [OF hist] and pay = history_payD [OF hist]
  show ?thesis
  proof (rule history_okI)
    fix j info assume "rg_hdr ?s j = Some info"
    then have h: "rg_hdr s j = Some info" by simp
    from hdr(1) [OF h] i show "j \<le> rg_top ?s" by simp
    from hdr(2) [OF h] show "gi_index info = j" .
    assume "retained ?s j"
    from slot [OF this hdr(1) [OF h]] hdr(2) [OF h] hdr(3) [OF h old [OF this]]
    show "g_info (slot_of ?s j) = info" by (simp add: grain_update_trivial split: if_splits)
  next
    fix j bytes assume "rg_pay ?s j = Some bytes"
    then have h: "rg_pay s j = Some bytes" by simp
    from pay(1) [OF h] i show "j \<le> rg_top ?s" by simp
    assume "retained ?s j"
    from slot [OF this pay(1) [OF h]] pay(2) [OF h old [OF this]]
    show "g_payload (slot_of ?s j) = bytes" by (simp split: if_splits)
  qed
qed

lemma write_keeps_history:
  assumes inv: "ring_inv s" and cur: "dw_currentIndex (rg_writer s) = i" "i \<noteq> MXL_UNDEFINED_INDEX"
  shows "history_ok (s\<lparr>rg_mem := set_payload (i mod dm_grainCount (rg_mem s)) bytes (rg_mem s),
                       rg_pay := (rg_pay s)(i \<mapsto> bytes)\<rparr>)" (is "history_ok ?s")
proof -
  have shape: "ring_shape s" and hist: "history_ok s" and i: "i = rg_top s"
    using inv cur by (auto simp: ring_inv_def writer_ok_def)
  have ret: "retained ?s j \<longleftrightarrow> retained s j" for j
    by (simp add: retained_def set_payload_def store_simps)
  have slot: "slot_of ?s j = (if j = i then (slot_of s j)\<lparr>g_payload := bytes\<rparr> else slot_of s j)"
    if "retained s j" and "j \<le> rg_top s" for j
    using retained_own_slot [OF that] i slot_in_ring [OF shape, of i]
    by (auto simp: slot_of_def set_payload_def store_simps)
  note hdr = history_hdrD [OF hist] and pay = history_payD [OF hist]
  show ?thesis
  proof (rule history_okI)
    fix j info assume "rg_hdr ?s j = Some info"
    then have h: "rg_hdr s j = Some info" by simp
    from hdr(1) [OF h] show "j \<le> rg_top ?s" by simp
    from hdr(2) [OF h] show "gi_index info = j" .
    assume "retained ?s j"
    then have "retained s j" by (simp only: ret)
    from slot [OF this hdr(1) [OF h]] hdr(3) [OF h this]
    show "g_info (slot_of ?s j) = info" by (simp split: if_splits)
  next
    fix j b assume "rg_pay ?s j = Some b"
    then have h: "if j = i then b = bytes else rg_pay s j = Some b" by (simp split: if_splits)
    show le: "j \<le> rg_top ?s" using h i pay(1) by (auto split: if_splits)
    assume "retained ?s j"
    then have "retained s j" by (simp only: ret)
    moreover from le have "j \<le> rg_top s" by simp
    ultimately show "g_payload (slot_of ?s j) = b"
      using slot [of j] h pay(2) by (cases "j = i") auto
  qed
qed

lemma info_keeps_history:
  assumes inv: "ring_inv s" and pc: "rg_pc s = HeadStored info"
  shows "history_ok (s\<lparr>rg_mem := commit_info (rg_writer s) info (rg_mem s), rg_pc := InfoStored info,
                       rg_hdr := (rg_hdr s)(gi_index info \<mapsto> info)\<rparr>)" (is "history_ok ?s")
proof -
  have shape: "ring_shape s" and hist: "history_ok s"
    and i: "gi_index info = rg_top s" "dw_currentIndex (rg_writer s) = rg_top s"
    using inv pc by (auto simp: ring_inv_def writer_ok_def)
  have ret: "retained ?s j \<longleftrightarrow> retained s j" for j
    by (simp add: retained_def store_simps)
  have slot: "slot_of ?s j = (if j = rg_top s then (slot_of s j)\<lparr>g_info := info\<rparr> else slot_of s j)"
    if "retained s j" and "j \<le> rg_top s" for j
    using retained_own_slot [OF that] i slot_in_ring [OF shape, of "rg_top s"]
    by (auto simp: slot_of_def commit_info_def store_simps)
  note hdr = history_hdrD [OF hist] and pay = history_payD [OF hist]
  show ?thesis
  proof (rule history_okI)
    fix j d assume "rg_hdr ?s j = Some d"
    then have h: "if j = rg_top s then d = info else rg_hdr s j = Some d" using i by (simp split: if_splits)
    show le: "j \<le> rg_top ?s" using h hdr(1) by (auto split: if_splits)
    show "gi_index d = j" using h i hdr(2) by (auto split: if_splits)
    assume "retained ?s j"
    then have "retained s j" by (simp only: ret)
    moreover from le have "j \<le> rg_top s" by simp
    ultimately show "g_info (slot_of ?s j) = d"
      using slot [of j] h hdr(3) by (cases "j = rg_top s") auto
  next
    fix j bytes assume "rg_pay ?s j = Some bytes"
    then have h: "rg_pay s j = Some bytes" by simp
    from pay(1) [OF h] show "j \<le> rg_top ?s" by simp
    assume "retained ?s j"
    then have "retained s j" by (simp only: ret)
    from slot [OF this pay(1) [OF h]] pay(2) [OF h this]
    show "g_payload (slot_of ?s j) = bytes" by (simp split: if_splits)
  qed
qed

lemma same_grains_keep_history:
  assumes "history_ok s" and "dm_grains (rg_mem t) = dm_grains (rg_mem s)"
    and "dm_grainCount (rg_mem t) = dm_grainCount (rg_mem s)"
    and "rg_top t = rg_top s" and "rg_hdr t = rg_hdr s" and "rg_pay t = rg_pay s"
  shows "history_ok t"
  using assms by (simp add: history_ok_def retained_def slot_of_def)

lemma ring_step_inv:
  assumes "ring_step s t" and inv: "ring_inv s"
  shows "ring_inv t"
  using assms(1)
proof cases
  case (open_step i out w' m')
  with inv show ?thesis
    using openGrain_eq [OF open_step(5)] open_keeps_history [OF inv open_step(3,5)]
    by (auto simp: ring_inv_def ring_shape_def writer_ok_def store_simps)
next
  case (write_step i bytes)
  with inv show ?thesis
    using write_keeps_history [OF inv write_step(3,4)]
    by (auto simp: ring_inv_def ring_shape_def writer_ok_def set_payload_def store_simps)
next
  case cancel_step
  with inv show ?thesis
    using same_grains_keep_history [of s t]
    by (auto simp: ring_inv_def ring_shape_def writer_ok_def cancel_grain_def)
next
  case (head_step info)
  with inv show ?thesis
    using same_grains_keep_history [of s t]
    by (auto simp: ring_inv_def ring_shape_def writer_ok_def store_simps)
next
  case (info_step info)
  with inv show ?thesis
    using info_keeps_history [OF inv info_step(2)]
    by (auto simp: ring_inv_def ring_shape_def writer_ok_def store_simps)
next
  case (time_step info now)
  with inv show ?thesis
    using same_grains_keep_history [of s t]
    by (auto simp: ring_inv_def ring_shape_def writer_ok_def store_simps)
next
  case (signal_step info)
  with inv show ?thesis
    using same_grains_keep_history [of s t]
    by (auto simp: ring_inv_def ring_shape_def writer_ok_def commit_reset_def store_simps)
qed

lemma ring_steps_inv: "ring_steps s t \<Longrightarrow> ring_inv s \<Longrightarrow> ring_inv t"
  by (induction rule: ring_steps.induct) (auto intro: ring_step_inv)


lemma ring_step_mono:
  assumes "ring_step s t"
  shows "rg_top s \<le> rg_top t" and "dm_grainCount (rg_mem t) = dm_grainCount (rg_mem s)"
  using assms by (auto elim!: ring_stepE dest!: openGrain_eq simp: store_simps set_payload_def)

lemma ring_steps_mono:
  assumes "ring_steps s t"
  shows "rg_top s \<le> rg_top t \<and> dm_grainCount (rg_mem t) = dm_grainCount (rg_mem s)"
  using assms by (induction rule: ring_steps.induct) (auto dest: ring_step_mono)

section \<open>What the reader gets\<close>

lemma window_arith:
  fixes j head n :: u64
  assumes "n \<noteq> 0"
  shows "(if n \<le> head then head - n + 1 else 0) \<le> j \<longleftrightarrow> unat head < unat j + unat n"
proof (cases "n \<le> head")
  case True
  have "unat (head - n + 1) = unat head - unat n + 1"
  proof -
    have "unat (head - n) = unat head - unat n" using True by (rule unat_sub_le)
    moreover have "0 < unat n" using assms by (simp add: word_less_nat_alt [of 0, simplified] unat_gt_0)
    moreover have "unat head < 2 ^ 64" using unsigned_less [where ?'a = nat and w = head] by simp
    ultimately show ?thesis by (subst unat_add_lt) auto
  qed
  with True show ?thesis by (auto simp: word_le_nat_alt)
next
  case False
  then show ?thesis by (auto simp: word_le_nat_alt)
qed

text \<open>The result of an attempt on a ring with its grains in place, case by case.\<close>

lemma getGrainImpl_cases:
  assumes "dm_grainCount m1 \<noteq> 0" and "length (dm_grains m2) = unat (dm_grainCount m1)"
  shows "getGrainImpl j minv m1 m2 =
    (let g = dm_grains m2 ! unat (j mod dm_grainCount m1) in
     if dm_head m1 < j then Ret (MXL_ERR_OUT_OF_RANGE_TOO_EARLY, None)
     else if unat j + unat (dm_grainCount m1) \<le> unat (dm_head m1) then Ret (MXL_ERR_OUT_OF_RANGE_TOO_LATE, None)
     else if min minv (totalSlices (g_info g)) \<le> validSlices (g_info g)
          \<or> and (gi_flags (g_info g)) MXL_GRAIN_FLAG_INVALID \<noteq> 0
     then Ret (MXL_STATUS_OK, Some (g_info g, j mod dm_grainCount m1))
     else Ret (MXL_ERR_OUT_OF_RANGE_TOO_EARLY, None))"
proof -
  have "unat (j mod dm_grainCount m1) < length (dm_grains m2)"
    using assms by (simp add: unat_mod_distrib word_less_nat_alt [of 0, simplified] unat_gt_0)
  then show ?thesis
    using window_arith [OF assms(1), of "dm_head m1" j] assms(1)
    by (auto simp: getGrainImpl_def grainAt_def Let_def not_le min_le_iff_disj)
qed


lemma reachable_inv: "fresh_ring s0 \<Longrightarrow> ring_steps s0 s \<Longrightarrow> ring_inv s"
  using fresh_ring_inv ring_steps_inv by blast

text \<open>
  C2: In every state the writer's steps can reach, the middle of a commit included, the writer's
  bookkeeping is consistent, the head index does not pass the newest index opened, and every grain
  of the history that no later grain has overwritten is still in its slot: its committed header and
  the bytes last written for it.
\<close>

theorem ring_keeps_history:
  "fresh_ring s0 \<Longrightarrow> ring_steps s0 s \<Longrightarrow> ring_shape s \<and> writer_ok s \<and> history_ok s"
  using reachable_inv by (simp add: ring_inv_def)

text \<open>
  C1: A reader that takes the head index in one state of the ring and the grain header in a later
  one gets exactly the committed header of the index it asked for, and the slot it is handed holds
  the bytes written for that index, whenever the header was committed, the head had reached the
  index, enough slices are valid (or the grain is flagged invalid), and no later grain has yet been
  opened in the slot. The writer may be anywhere in a commit or may have opened the next grain.
\<close>

theorem reader_gets_committed_grain:
  assumes fresh: "fresh_ring s0" and s1: "ring_steps s0 s1" and s2: "ring_steps s1 s2"
    and hdr: "rg_hdr s2 j = Some info" and head: "j \<le> dm_head (rg_mem s1)" and ret: "retained s2 j"
    and enough: "min minv (totalSlices info) \<le> validSlices info \<or> and (gi_flags info) MXL_GRAIN_FLAG_INVALID \<noteq> 0"
  shows "getGrainImpl j minv (rg_mem s1) (rg_mem s2)
           = Ret (MXL_STATUS_OK, Some (info, j mod dm_grainCount (rg_mem s2)))
    \<and> (\<forall>bytes. rg_pay s2 j = Some bytes \<longrightarrow>
         map_option g_payload (grainAt (rg_mem s2) (j mod dm_grainCount (rg_mem s2))) = Some bytes)"
proof -
  have inv1: "ring_inv s1" using reachable_inv [OF fresh s1] .
  then have inv2: "ring_inv s2" using ring_steps_inv [OF s2] by blast
  have count: "dm_grainCount (rg_mem s2) = dm_grainCount (rg_mem s1)" and top: "rg_top s1 \<le> rg_top s2"
    using ring_steps_mono [OF s2] by auto
  have shape2: "ring_shape s2" and hist: "history_ok s2" using inv2 by (auto simp: ring_inv_def)
  have "unat (dm_head (rg_mem s1)) \<le> unat (rg_top s2)"
    using inv1 top by (meson order.trans ring_inv_def ring_shape_def word_le_nat_alt)
  with ret have "unat (dm_head (rg_mem s1)) < unat j + unat (dm_grainCount (rg_mem s1))"
    by (simp add: retained_def count)
  moreover have "g_info (slot_of s2 j) = info" by (rule history_hdrD(3) [OF hist hdr ret])
  moreover have "dm_grainCount (rg_mem s1) \<noteq> 0"
    using inv1 by (auto simp: ring_inv_def ring_shape_def)
  ultimately have "getGrainImpl j minv (rg_mem s1) (rg_mem s2)
      = Ret (MXL_STATUS_OK, Some (info, j mod dm_grainCount (rg_mem s2)))"
    using getGrainImpl_cases [of "rg_mem s1" "rg_mem s2" j minv] inv1 shape2 count head enough
    by (simp add: ring_inv_def ring_shape_def slot_of_def Let_def not_less [symmetric] not_le del: not_less)
  moreover have "map_option g_payload (grainAt (rg_mem s2) (j mod dm_grainCount (rg_mem s2))) = Some bytes"
    if "rg_pay s2 j = Some bytes" for bytes
    using history_payD(2) [OF hist that ret] slot_in_ring [OF shape2, of j]
    by (simp add: grainAt_def slot_of_def)
  ultimately show ?thesis by blast
qed

text \<open>
  On every reachable ring the non blocking read neither crashes nor throws, and its status
  follows from the head index alone outside the window: too early above the head, too late once the
  index is a whole ring behind it. Inside the window it is success, or too early for missing slices.
\<close>

theorem reader_status_total:
  assumes "fresh_ring s0" and "ring_steps s0 s1" and "ring_steps s1 s2"
  shows "\<exists>st out. getGrainImpl j minv (rg_mem s1) (rg_mem s2) = Ret (st, out)
    \<and> (dm_head (rg_mem s1) < j \<longrightarrow> st = MXL_ERR_OUT_OF_RANGE_TOO_EARLY)
    \<and> (unat j + unat (dm_grainCount (rg_mem s1)) \<le> unat (dm_head (rg_mem s1)) \<longrightarrow> st = MXL_ERR_OUT_OF_RANGE_TOO_LATE)
    \<and> (st = MXL_ERR_OUT_OF_RANGE_TOO_LATE \<longrightarrow> unat j + unat (dm_grainCount (rg_mem s1)) \<le> unat (dm_head (rg_mem s1)))
    \<and> (out \<noteq> None \<longleftrightarrow> st = MXL_STATUS_OK)"
proof -
  have inv: "ring_inv s1" "ring_inv s2"
    using reachable_inv [OF assms(1,2)] ring_steps_inv [OF assms(3)] by auto
  have count: "dm_grainCount (rg_mem s2) = dm_grainCount (rg_mem s1)"
    using ring_steps_mono [OF assms(3)] by simp
  have late: "unat j + unat (dm_grainCount (rg_mem s1)) \<le> unat (dm_head (rg_mem s1)) \<Longrightarrow> \<not> dm_head (rg_mem s1) < j"
    by (simp add: word_less_nat_alt)
  show ?thesis
    using getGrainImpl_cases [of "rg_mem s1" "rg_mem s2" j minv] inv count late
    by (auto simp: ring_inv_def ring_shape_def Let_def)
qed


section \<open>Running the state machine\<close>

datatype ring_event =
    OpenEvent u64
  | WriteEvent "u8 list"
  | CancelEvent
  | HeadEvent mxlGrainInfo
  | InfoEvent
  | TimeEvent Timepoint
  | SignalEvent

fun ring_exec :: "ring_event \<Rightarrow> ring \<Rightarrow> ring option" where
  "ring_exec (OpenEvent i) s =
     (if rg_pc s = Idle \<and> rg_top s \<le> i \<and> i \<noteq> MXL_UNDEFINED_INDEX
      then (case openGrain (rg_writer s) (rg_mem s) i of
              Ret (st, out, w', m') \<Rightarrow>
                if st = MXL_STATUS_OK then Some (s\<lparr>rg_mem := m', rg_writer := w', rg_top := i\<rparr>) else None
            | _ \<Rightarrow> None)
      else None)"
| "ring_exec (WriteEvent bytes) s =
     (let i = dw_currentIndex (rg_writer s) in
      if rg_pc s = Idle \<and> i \<noteq> MXL_UNDEFINED_INDEX
      then Some (s\<lparr>rg_mem := set_payload (i mod dm_grainCount (rg_mem s)) bytes (rg_mem s),
                   rg_pay := (rg_pay s)(i \<mapsto> bytes)\<rparr>)
      else None)"
| "ring_exec CancelEvent s =
     (if rg_pc s = Idle then Some (s\<lparr>rg_writer := snd (cancel_grain (rg_writer s))\<rparr>) else None)"
| "ring_exec (HeadEvent info) s =
     (if rg_pc s = Idle \<and> dw_currentIndex (rg_writer s) \<noteq> MXL_UNDEFINED_INDEX
         \<and> gi_index info = dw_currentIndex (rg_writer s)
      then Some (s\<lparr>rg_mem := commit_head (rg_writer s) (rg_mem s), rg_pc := HeadStored info\<rparr>)
      else None)"
| "ring_exec InfoEvent s =
     (case rg_pc s of
        HeadStored info \<Rightarrow>
          Some (s\<lparr>rg_mem := commit_info (rg_writer s) info (rg_mem s), rg_pc := InfoStored info,
                  rg_hdr := (rg_hdr s)(gi_index info \<mapsto> info)\<rparr>)
      | _ \<Rightarrow> None)"
| "ring_exec (TimeEvent now) s =
     (case rg_pc s of
        InfoStored info \<Rightarrow> Some (s\<lparr>rg_mem := commit_time now (rg_mem s), rg_pc := TimeStored info\<rparr>)
      | _ \<Rightarrow> None)"
| "ring_exec SignalEvent s =
     (case rg_pc s of
        TimeStored info \<Rightarrow>
          Some (s\<lparr>rg_mem := commit_signal (rg_mem s), rg_writer := commit_reset info (rg_writer s), rg_pc := Idle\<rparr>)
      | _ \<Rightarrow> None)"

fun ring_run :: "ring_event list \<Rightarrow> ring \<Rightarrow> ring option" where
  "ring_run [] s = Some s"
| "ring_run (e # es) s = (case ring_exec e s of None \<Rightarrow> None | Some t \<Rightarrow> ring_run es t)"

lemma ring_exec_step: "ring_exec e s = Some t \<Longrightarrow> ring_step s t"
  by (cases e) (auto simp: Let_def intro: ring_step.intros split: if_splits outcome.splits commit_pc.splits)

lemma ring_steps_Cons: "ring_steps t u \<Longrightarrow> ring_step s t \<Longrightarrow> ring_steps s u"
  by (induction rule: ring_steps.induct) (auto intro: ring_steps.intros)

lemma ring_steps_trans: "ring_steps t u \<Longrightarrow> ring_steps s t \<Longrightarrow> ring_steps s u"
  by (induction rule: ring_steps.induct) (auto intro: ring_trans)

lemma ring_run_steps: "ring_run es s = Some t \<Longrightarrow> ring_steps s t"
  by (induction es arbitrary: s) (auto intro: ring_refl ring_steps_Cons ring_exec_step split: option.splits)

lemma ring_run_the: "ring_run es s \<noteq> None \<Longrightarrow> ring_steps s (the (ring_run es s))"
  using ring_run_steps by auto

text \<open>The stores of a commit taken one by one are the commit of the code.\<close>

lemma ring_run_commit:
  assumes "rg_pc s = Idle" and "dw_currentIndex (rg_writer s) \<noteq> MXL_UNDEFINED_INDEX"
    and "commit_grain (rg_writer s) (rg_mem s) info now = Ret (MXL_STATUS_OK, w', m')"
  shows "ring_run [HeadEvent info, InfoEvent, TimeEvent now, SignalEvent] s
    = Some (s\<lparr>rg_mem := m', rg_writer := w', rg_pc := Idle,
              rg_hdr := (rg_hdr s)(gi_index info \<mapsto> info)\<rparr>)"
  using assms by (auto simp: commit_grain_def Let_def split: if_splits)

section \<open>Instances\<close>

definition ex_flow :: "u32 \<Rightarrow> Flow" where
  "ex_flow n = zero_flow\<lparr>flow_info := (flow_info zero_flow)\<lparr>config :=
     \<lparr>common = zero_common\<lparr>cfg_format := 1\<rparr>, specific = DiscreteMember \<lparr>sliceSizes = [2, 0, 0, 0], grainCount = n\<rparr>\<rparr>\<rparr>\<rparr>"

definition ex_info :: "u64 \<Rightarrow> u16 \<Rightarrow> mxlGrainInfo" where
  "ex_info i valid = zero_grain_info\<lparr>gi_version := 1, gi_size := 4096, gi_index := i, grainSize := 4,
     totalSlices := 2, validSlices := valid\<rparr>"

definition ex_ring :: ring where
  "ex_ring = \<lparr>rg_mem = \<lparr>dm_flow = ex_flow 2, dm_grains = replicate 2 \<lparr>g_info = ex_info 0 0, g_payload = [0, 0, 0, 0]\<rparr>\<rparr>,
     rg_writer = new_discrete_writer, rg_pc = Idle, rg_top = 0, rg_hdr = (\<lambda>_. None), rg_pay = (\<lambda>_. None)\<rparr>"

definition ex_commit :: "u64 \<Rightarrow> u16 \<Rightarrow> ring_event list" where
  "ex_commit i valid = [HeadEvent (ex_info i valid), InfoEvent, TimeEvent (Timepoint 5), SignalEvent]"

definition ex_s1 :: ring where
  "ex_s1 = the (ring_run ([OpenEvent 6, WriteEvent [1, 2, 3, 4]] @ ex_commit 6 2) ex_ring)"

definition ex_s2 :: ring where
  "ex_s2 = the (ring_run [OpenEvent 7, WriteEvent [9, 9, 0, 0], HeadEvent (ex_info 7 1)] ex_s1)"

lemma ex_ring_fresh: "fresh_ring ex_ring"
  by (simp add: fresh_ring_def ex_ring_def dm_grainCount_def dm_head_def ex_flow_def zero_flow_def discrete_def zero_runtime_def)

lemma ex_s1_steps: "ring_steps ex_ring ex_s1"
  unfolding ex_s1_def by (rule ring_run_the) code_simp

lemma ex_s2_steps: "ring_steps ex_s1 ex_s2"
  unfolding ex_s2_def by (rule ring_run_the) code_simp

lemma ring_keeps_history_witness: "ring_shape ex_s1 \<and> writer_ok ex_s1 \<and> history_ok ex_s1"
  by (rule ring_keeps_history [OF ex_ring_fresh ex_s1_steps])

lemma reader_gets_committed_grain_witness:
  "getGrainImpl 6 2 (rg_mem ex_s1) (rg_mem ex_s2)
           = Ret (MXL_STATUS_OK, Some (ex_info 6 2, 6 mod dm_grainCount (rg_mem ex_s2)))
    \<and> map_option g_payload (grainAt (rg_mem ex_s2) (6 mod dm_grainCount (rg_mem ex_s2))) = Some [1, 2, 3, 4]"
proof -
  have at: "rg_hdr ex_s2 6 = Some (ex_info 6 2)" "6 \<le> dm_head (rg_mem ex_s1)" "retained ex_s2 6"
    "min 2 (totalSlices (ex_info 6 2)) \<le> validSlices (ex_info 6 2)
       \<or> and (gi_flags (ex_info 6 2)) MXL_GRAIN_FLAG_INVALID \<noteq> 0"
    by code_simp+
  have "rg_pay ex_s2 6 = Some [1, 2, 3, 4]"
    by code_simp
  with reader_gets_committed_grain [OF ex_ring_fresh ex_s1_steps ex_s2_steps at] show ?thesis
    by blast
qed

lemma reader_status_total_witness:
  "\<exists>out. getGrainImpl 9 1 (rg_mem ex_s1) (rg_mem ex_s2) = Ret (MXL_ERR_OUT_OF_RANGE_TOO_EARLY, out)"
proof -
  have "dm_head (rg_mem ex_s1) < 9"
    by code_simp
  with reader_status_total [OF ex_ring_fresh ex_s1_steps ex_s2_steps, of 9 1] show ?thesis
    by blast
qed

section \<open>Waiting readers\<close>

lemma run_of_rings:
  assumes "\<And>i. ring_steps (\<sigma> i) (\<sigma> (Suc i))" and "i \<le> j"
  shows "ring_steps (\<sigma> i) (\<sigma> j)"
proof -
  have "ring_steps (\<sigma> i) (\<sigma> (i + d))" for d
    by (induction d) (auto intro: ring_refl ring_steps_trans assms(1))
  from this [of "j - i"] assms(2) show ?thesis by simp
qed

lemma retained_earlier: "ring_steps s t \<Longrightarrow> retained t j \<Longrightarrow> retained s j"
  using ring_steps_mono [of s t] by (auto simp: retained_def word_le_nat_alt)

lemma retained_not_late:
  assumes "ring_inv s" and "retained s j"
  shows "unat (dm_head (rg_mem s)) < unat j + unat (dm_grainCount (rg_mem s))"
  using assms by (auto simp: ring_inv_def ring_shape_def retained_def word_le_nat_alt)

text \<open>
  C3: A reader blocked on a grain index gets the grain: if the complete grain is committed by tick
  \<open>t\<close> and the counter has moved by tick \<open>u\<close>, then the blocking read, started at any tick up to
  \<open>u\<close>, returns success by tick \<open>u + 6\<close> provided its deadline is not reached before \<open>u\<close> and the
  grain is not overwritten by then. No wake up is lost, wherever the writer's stores fall between the
  reader's accesses.
\<close>

theorem waiting_reader_gets_grain:
  assumes fresh: "fresh_ring (\<sigma> 0)" and steps: "\<And>i. ring_steps (\<sigma> i) (\<sigma> (Suc i))"
    and mem: "\<And>i. env_mem env i = rg_mem (\<sigma> i)"
    and hdr: "\<And>i. t \<le> i \<Longrightarrow> i \<le> u + 4 \<Longrightarrow> rg_hdr (\<sigma> i) idx = Some info \<and> idx \<le> dm_head (rg_mem (\<sigma> i))"
    and complete: "validSlices info = totalSlices info" and ret: "retained (\<sigma> (u + 4)) idx"
    and bump: "\<And>i j. i + 1 < t \<Longrightarrow> u \<le> j \<Longrightarrow> j \<le> u + 1 \<Longrightarrow> dm_counter (env_mem env j) \<noteq> dm_counter (env_mem env i)"
    and patient: "\<And>j e. j < u \<Longrightarrow> \<not> gives_up env j e deadline"
    and "t \<le> u" "k \<le> u" "u + 5 \<le> k + fuel"
  shows "\<exists>out k'. getGrainImplUntil idx minv fuel env k deadline = Some (Ret (MXL_STATUS_OK, Some out), k') \<and> k' \<le> u + 6"
proof -
  have reach: "ring_steps (\<sigma> i) (\<sigma> j)" if "i \<le> j" for i j
    by (rule run_of_rings [where \<sigma> = \<sigma>, OF steps that])
  have total: "\<exists>st out. getGrainImpl idx minv (env_mem env j) (env_mem env (j + 1)) = Ret (st, out)
      \<and> (st = MXL_ERR_OUT_OF_RANGE_TOO_LATE \<longrightarrow> u + 4 < j) \<and> (out \<noteq> None \<longleftrightarrow> st = MXL_STATUS_OK)
      \<and> (st = MXL_STATUS_OK \<or> st = MXL_ERR_OUT_OF_RANGE_TOO_EARLY \<or> st = MXL_ERR_OUT_OF_RANGE_TOO_LATE)" for j
  proof -
    have inv: "ring_inv (\<sigma> j)" "ring_inv (\<sigma> (j + 1))"
      using fresh reach [of 0 j] reach [of 0 "j + 1"] reachable_inv by blast+
    have late: "u + 4 < j" if "unat idx + unat (dm_grainCount (rg_mem (\<sigma> j))) \<le> unat (dm_head (rg_mem (\<sigma> j)))"
      using retained_not_late [OF inv(1), of idx] retained_earlier [OF reach [of j "u + 4"] ret] that
      by (cases "j \<le> u + 4") auto
    show ?thesis
      using getGrainImpl_cases [of "rg_mem (\<sigma> j)" "rg_mem (\<sigma> (j + 1))" idx minv] inv late
        ring_step_mono(2) ring_steps_mono [OF steps [of j]]
      by (auto simp: ring_inv_def ring_shape_def Let_def mem)
  qed
  have after: "\<not> grain_early r"
    if "t \<le> j" "j \<le> u + 3" "getGrainImpl idx minv (env_mem env j) (env_mem env (j + 1)) = Ret r" for j r
  proof -
    have "retained (\<sigma> (j + 1)) idx"
      using retained_earlier [OF reach [of "j + 1" "u + 4"] ret] that by simp
    from reader_gets_committed_grain [OF fresh reach [of 0 j] reach [of j "j + 1"] _ _ this, of info minv]
    show ?thesis
      using hdr [of j] hdr [of "j + 1"] complete that by (auto simp: mem grain_early_def)
  qed
  have "\<exists>r k'. getGrainImplUntil idx minv fuel env k deadline = Some (Ret r, k') \<and> \<not> grain_early r \<and> k' \<le> u + 6"
  proof (rule discrete_blocking.no_lost_data [where t = t and u = u])
    show "\<exists>r. getGrainImpl idx minv (env_mem env j) (env_mem env (j + 1)) = Ret r" for j
      using total [of j] by blast
  qed (fact after bump patient assms)+
  then obtain r k' where
    run: "getGrainImplUntil idx minv fuel env k deadline = Some (Ret r, k')" "\<not> grain_early r" "k' \<le> u + 6"
    by blast
  from discrete_blocking.result_is_attempt [OF run(1)] obtain j where
    j: "j + 2 < k'" "getGrainImpl idx minv (env_mem env (j + 1)) (env_mem env (j + 2)) = Ret r" by blast
  with total [of "j + 1"] run(2,3) show ?thesis
    using run(1) by (auto simp: grain_early_def)
qed


definition ex_env :: "discrete_mem environment" where
  "ex_env = \<lparr>env_mem = (\<lambda>i. rg_mem (if i < 2 then ex_ring else ex_s1)), env_clock = (\<lambda>i. Timepoint 0),
     env_futex = (\<lambda>_ _ _. Woken)\<rparr>"

lemma ex_s1_retains: "retained ex_s1 6" "rg_hdr ex_s1 6 = Some (ex_info 6 2)" "6 \<le> dm_head (rg_mem ex_s1)"
  "dm_counter (rg_mem ex_s1) \<noteq> dm_counter (rg_mem ex_ring)"
  by code_simp+

lemma waiting_reader_gets_grain_witness:
  "\<exists>out k'. getGrainImplUntil 6 2 10 ex_env 0 (Timepoint 100) = Some (Ret (MXL_STATUS_OK, Some out), k') \<and> k' \<le> 2 + 6"
  by (rule waiting_reader_gets_grain [where \<sigma> = "\<lambda>i. if i < 2 then ex_ring else ex_s1" and t = 2 and info = "ex_info 6 2"])
    (auto simp: ex_ring_fresh ex_env_def ex_s1_retains gives_up_def ex_info_def less_eq_Timepoint_def Timepoint_le_def
       intro: ring_refl ex_s1_steps)

section \<open>Where the ring falls short\<close>

text \<open>
  C4: Take any reachable ring whose writer has index \<open>i\<close> open and no commit under way, and any step
  that begins a commit. The header in the slot is still the old one, as \<open>open\<close> left it: that of
  the lap before, with the new index. If it counts as readable (enough of its slices are valid, or it
  is flagged invalid), a reader that asks for \<open>i\<close> now is served that old header as a success. And
  the state is one on the way of \<open>commit\<close>: from it the remaining stores lead to exactly the state in
  which \<open>commit\<close> of a header for \<open>i\<close> returns. The code publishes the head before the header.
\<close>

theorem head_is_published_before_header:
  assumes reach: "fresh_ring s0" "ring_steps s0 s"
    and begins: "rg_pc s = Idle" "ring_step s t" "rg_pc t \<noteq> Idle"
    and i: "i = dw_currentIndex (rg_writer s)" and old: "old = g_info (slot_of s i)"
    and readable: "min minv (totalSlices old) \<le> validSlices old \<or> and (gi_flags old) MXL_GRAIN_FLAG_INVALID \<noteq> 0"
  shows "getGrainImpl i minv (rg_mem t) (rg_mem t) = Ret (MXL_STATUS_OK, Some (old, i mod dm_grainCount (rg_mem s)))
    \<and> (\<exists>info. gi_index info = i \<and> (\<forall>now. \<exists>u. ring_steps t u \<and> rg_pc u = Idle \<and> rg_hdr u i = Some info
         \<and> commit_grain (rg_writer s) (rg_mem s) info now = Ret (MXL_STATUS_OK, rg_writer u, rg_mem u)))"
proof -
  have inv: "ring_shape s" "writer_ok s" using reachable_inv [OF reach] by (auto simp: ring_inv_def)
  from begins obtain info where t: "t = s\<lparr>rg_mem := commit_head (rg_writer s) (rg_mem s), rg_pc := HeadStored info\<rparr>"
    and info: "dw_currentIndex (rg_writer s) \<noteq> MXL_UNDEFINED_INDEX" "gi_index info = i"
    unfolding i by (auto elim!: ring_stepE)
  have nz: "dm_grainCount (rg_mem s) \<noteq> 0" using inv(1) by (auto simp: ring_shape_def)
  have lt: "unat (i mod dm_grainCount (rg_mem s)) < length (dm_grains (rg_mem s))" by (rule slot_in_ring [OF inv(1)])
  have "0 < unat (dm_grainCount (rg_mem s))" using nz by (simp add: unat_gt_0)
  then have "getGrainImpl i minv (rg_mem t) (rg_mem t) = Ret (MXL_STATUS_OK, Some (old, i mod dm_grainCount (rg_mem s)))"
    using getGrainImpl_cases [of "rg_mem t" "rg_mem t" i minv] nz inv(1) readable
    by (simp add: t i old store_simps ring_shape_def slot_of_def Let_def)
  moreover have "\<exists>u. ring_steps t u \<and> rg_pc u = Idle \<and> rg_hdr u i = Some info
      \<and> commit_grain (rg_writer s) (rg_mem s) info now = Ret (MXL_STATUS_OK, rg_writer u, rg_mem u)" for now
  proof -
    obtain w' m' where c: "commit_grain (rg_writer s) (rg_mem s) info now = Ret (MXL_STATUS_OK, w', m')"
      using inv(2) info nz lt by (simp add: commit_grain_def writer_ok_def i store_simps Let_def grainInfoAt_def grainAt_def)
    let ?u = "s\<lparr>rg_mem := m', rg_writer := w', rg_pc := Idle, rg_hdr := (rg_hdr s)(gi_index info \<mapsto> info)\<rparr>"
    have "ring_run [InfoEvent, TimeEvent now, SignalEvent] t = Some ?u"
      using ring_run_commit [OF begins(1) info(1) c] begins(1) info i by (simp add: t)
    from ring_run_steps [OF this] c info(2) show ?thesis by (intro exI [of _ ?u]) simp
  qed
  ultimately show ?thesis using info(2) by blast
qed

definition ex_reopened :: ring where
  "ex_reopened = the (ring_run [OpenEvent 8] ex_s1)"

lemma head_is_published_before_header_witness:
  "getGrainImpl 8 2 (rg_mem (the (ring_exec (HeadEvent (ex_info 8 1)) ex_reopened))) (rg_mem (the (ring_exec (HeadEvent (ex_info 8 1)) ex_reopened)))
     = Ret (MXL_STATUS_OK, Some ((ex_info 6 2)\<lparr>gi_index := 8\<rparr>, 0))"
proof -
  let ?t = "the (ring_exec (HeadEvent (ex_info 8 1)) ex_reopened)"
  have "ring_steps ex_s1 ex_reopened"
    unfolding ex_reopened_def by (rule ring_run_the) code_simp
  then have r: "ring_steps ex_ring ex_reopened" using ring_steps_trans ex_s1_steps by blast
  have p: "rg_pc ex_reopened = Idle" "rg_pc ?t \<noteq> Idle" by code_simp+
  have "ring_exec (HeadEvent (ex_info 8 1)) ex_reopened \<noteq> None" by code_simp
  then have "ring_exec (HeadEvent (ex_info 8 1)) ex_reopened = Some ?t" by (simp only: option.collapse not_False_eq_True)
  then have s: "ring_step ex_reopened ?t" by (rule ring_exec_step)
  have d: "8 = dw_currentIndex (rg_writer ex_reopened)" "(ex_info 6 2)\<lparr>gi_index := 8\<rparr> = g_info (slot_of ex_reopened 8)"
    "8 mod dm_grainCount (rg_mem ex_reopened) = 0" by code_simp+
  have v: "min 2 (totalSlices ((ex_info 6 2)\<lparr>gi_index := 8\<rparr>)) \<le> validSlices ((ex_info 6 2)\<lparr>gi_index := 8\<rparr>)
      \<or> and (gi_flags ((ex_info 6 2)\<lparr>gi_index := 8\<rparr>)) MXL_GRAIN_FLAG_INVALID \<noteq> 0" by code_simp
  from head_is_published_before_header [OF ex_ring_fresh r p(1) s p(2) d(1,2) v] d(3) show ?thesis by simp
qed

text \<open>
  \<open>commit\<close> is guarded: for every defined index it is refused, with the memory and the writer
  unchanged, unless exactly that index is open; after a commit that completes the grain, or a
  cancel, no defined index is open. (The guard does not catch an index of 2^64 - 1, the value that
  stands for none.)
\<close>

theorem commit_requires_open_grain:
  assumes "dw_flowData w" and "gi_index info \<noteq> MXL_UNDEFINED_INDEX"
  shows "(dw_currentIndex w \<noteq> gi_index info \<longleftrightarrow> commit_grain w m info now = Ret (MXL_ERR_INVALID_ARG, w, m))
    \<and> (\<forall>w' m'. validSlices info = totalSlices info \<and> commit_grain w m info now = Ret (MXL_STATUS_OK, w', m') \<longrightarrow>
          commit_grain w' m' info now' = Ret (MXL_ERR_INVALID_ARG, w', m'))
    \<and> commit_grain (snd (cancel_grain w)) m info now = Ret (MXL_ERR_INVALID_ARG, snd (cancel_grain w), m)"
  using assms by (auto simp: commit_grain_def cancel_grain_def commit_reset_def Let_def split: if_splits)

lemma commit_without_open_is_accepted:
  "case commit_grain new_discrete_writer (rg_mem ex_ring) (ex_info MXL_UNDEFINED_INDEX 2) (Timepoint 5) of
     Ret (st, w, m) \<Rightarrow> st = MXL_STATUS_OK \<and> dm_head m = MXL_UNDEFINED_INDEX | _ \<Rightarrow> False"
  by code_simp

text \<open>
  A cancelled grain index is served as valid: opening index \<open>i\<close> stamps it on the header of the
  previous lap, \<open>cancel\<close> leaves the stamp, and once the next index is committed a reader of \<open>i\<close>
  gets success with the old payload under the new index.
\<close>

theorem cancelled_grain_is_served:
  assumes op: "openGrain w m i = Ret (MXL_STATUS_OK, Some (old, slot), w1, m1)"
    and complete: "validSlices old = totalSlices old"
    and nxt: "openGrain (snd (cancel_grain w1)) m1 (i + 1) = Ret (MXL_STATUS_OK, Some (info, slot'), w2, m2)"
    and com: "commit_grain w2 m2 done_info now = Ret (MXL_STATUS_OK, w3, m3)"
    and far: "1 < dm_grainCount m" "i < - 1"
  shows "getGrainImpl i minv m3 m3 = Ret (MXL_STATUS_OK, Some (old, slot))"
proof -
  let ?n = "dm_grainCount m"
  have i1: "unat (i + 1) = unat i + 1"
    using far(2) by (subst unat_add_lt) (auto simp: word_less_nat_alt unsigned_minus_1_eq_mask mask_eq_exp_minus_1)
  have n: "?n \<noteq> 0" "1 < unat ?n"
    using far(1) by (auto simp: word_less_nat_alt)
  have slots: "unat ((i + 1) mod ?n) \<noteq> unat (i mod ?n)"
  proof
    assume "unat ((i + 1) mod ?n) = unat (i mod ?n)"
    then have "(unat i + 1) mod unat ?n = unat i mod unat ?n"
      unfolding unat_mod_distrib i1 .
    from mod_eq_same_lap [OF this] n(2) show False by simp
  qed
  note o1 = openGrain_eq [OF op] and o2 = openGrain_eq [OF nxt]
  have lt: "unat (i mod ?n) < length (dm_grains m)" and old: "old = (g_info (dm_grains m ! unat (i mod ?n)))\<lparr>gi_index := i\<rparr>"
    and slot: "slot = i mod ?n"
    using op by (auto simp: openGrain_def grainAt_def Let_def split: if_splits)
  have lt1: "unat ((i + 1) mod ?n) < length (dm_grains m1)"
    using nxt o1 by (auto simp: openGrain_def grainAt_def Let_def store_simps split: if_splits)
  have m3: "m3 = commit_signal (commit_time now (commit_info w2 done_info (commit_head w2 m2)))"
    using com by (auto simp: commit_grain_def Let_def split: if_splits)
  have cur: "dw_currentIndex w2 = i + 1" using o2 by simp
  have grain: "g_info (dm_grains m3 ! unat (i mod ?n)) = old"
    using o1 o2 lt lt1 slots old by (auto simp: m3 commit_info_def cur store_simps)
  have "dm_head m3 = i + 1" "dm_grainCount m3 = ?n" "unat (i mod ?n) < length (dm_grains m3)"
    using o1 o2 lt by (auto simp: m3 cur store_simps)
  moreover have "(if ?n \<le> i + 1 then i + 1 - ?n + 1 else 0) \<le> i"
    using window_arith [OF n(1), of "i + 1" i] i1 n by simp
  moreover have "i \<le> i + 1"
    using i1 by (simp add: word_le_nat_alt)
  ultimately show ?thesis
    using n(1) grain complete slot by (simp add: getGrainImpl_def grainAt_def Let_def)
qed


definition opened :: "discrete_writer \<Rightarrow> discrete_mem \<Rightarrow> u64 \<Rightarrow> discrete_writer \<times> discrete_mem" where
  "opened w m i = (case openGrain w m i of Ret (st, out, w', m') \<Rightarrow> (w', m') | _ \<Rightarrow> (w, m))"

definition committed :: "discrete_writer \<Rightarrow> discrete_mem \<Rightarrow> mxlGrainInfo \<Rightarrow> discrete_writer \<times> discrete_mem" where
  "committed w m info = (case commit_grain w m info (Timepoint 5) of Ret (st, w', m') \<Rightarrow> (w', m') | _ \<Rightarrow> (w, m))"

definition ex_open :: "discrete_writer \<times> discrete_mem" where
  "ex_open = opened (rg_writer ex_s1) (rg_mem ex_s1) 8"

definition ex_next :: "discrete_writer \<times> discrete_mem" where
  "ex_next = opened (snd (cancel_grain (fst ex_open))) (snd ex_open) 9"

definition ex_last :: "discrete_writer \<times> discrete_mem" where
  "ex_last = committed (fst ex_next) (snd ex_next) (ex_info 9 2)"

lemma cancelled_grain_is_served_witness:
  "getGrainImpl 8 2 (snd ex_last) (snd ex_last) = Ret (MXL_STATUS_OK, Some (ex_info 8 2, 0))"
  by (rule cancelled_grain_is_served
        [where w = "rg_writer ex_s1" and m = "rg_mem ex_s1" and ?w1.0 = "fst ex_open" and ?m1.0 = "snd ex_open"
          and ?w2.0 = "fst ex_next" and ?m2.0 = "snd ex_next" and ?w3.0 = "fst ex_last" and slot' = 1
          and done_info = "ex_info 9 2" and info = "ex_info 9 0" and now = "Timepoint 5"]; code_simp)

lemma commit_requires_open_grain_witness:
  "commit_grain (snd (cancel_grain (rg_writer ex_s2))) (rg_mem ex_s2) (ex_info 7 2) (Timepoint 5)
     = Ret (MXL_ERR_INVALID_ARG, snd (cancel_grain (rg_writer ex_s2)), rg_mem ex_s2)"
proof -
  have "dw_flowData (rg_writer ex_s2)" "gi_index (ex_info 7 2) \<noteq> MXL_UNDEFINED_INDEX"
    by code_simp+
  from commit_requires_open_grain [OF this] show ?thesis by blast
qed

end
