(* ===== verification/ContinuousFlow.thy ===== *)
theory ContinuousFlow
  imports DiscreteFlow
begin

text \<open>
  The reader and the writer of a continuous flow (\<open>PosixContinuousFlowReader.cpp\<close>,
  \<open>PosixContinuousFlowWriter.cpp\<close>, \<open>ContinuousFlowData.hpp\<close>). A channel buffer holds
  \<open>bufferLength\<close> samples; the buffers of the channels follow each other in one segment, and
  a pointer into it is a byte offset. The slices both sides hand out are computed by the same
  expressions, which the model shares (\<open>wrapped_slices\<close>); \<open>slice_bytes\<close> reads them as the
  list of byte offsets they cover, and the lemmas show which bytes of the sample stream those are.
\<close>

section \<open>The mapped memory and its handle\<close>

record continuous_mem =
  cm_flow :: Flow
  cm_data :: "u8 list"

record ContinuousFlowData =
  cd_mappedSize :: u64
  cd_sampleWordSize :: u64

definition cm_head :: "continuous_mem \<Rightarrow> u64" where
  "cm_head m = headIndex (runtime (flow_info (cm_flow m)))"

definition cm_counter :: "continuous_mem \<Rightarrow> u32" where
  "cm_counter m = syncCounter (flow_state (cm_flow m))"

definition flow_channelCount :: "Flow \<Rightarrow> u64" where
  "flow_channelCount fl = ucast (channelCount (continuous (config (flow_info fl))))"

definition flow_bufferLength :: "Flow \<Rightarrow> u64" where
  "flow_bufferLength fl = ucast (bufferLength (continuous (config (flow_info fl))))"

definition channelDataLength :: "ContinuousFlowData \<Rightarrow> u64 outcome" where
  "channelDataLength d = (if cd_sampleWordSize d = 0 then Crash DivisionByZero else Ret (cd_mappedSize d div cd_sampleWordSize d))"

section \<open>The slices\<close>

definition wrapped_slices :: "u64 \<Rightarrow> u64 \<Rightarrow> u64 \<Rightarrow> u64 \<Rightarrow> u64 \<Rightarrow> mxlWrappedMultiBufferSlice" where
  "wrapped_slices bufLen sampleWordSize channels index count =
     (let startOffset = (index + bufLen - count) mod bufLen;
          endOffset = index mod bufLen;
          firstLength = (if startOffset < endOffset then count else bufLen - startOffset);
          secondLength = count - firstLength
      in \<lparr>fragment0 = \<lparr>slice_pointer = sampleWordSize * startOffset, slice_size = sampleWordSize * firstLength\<rparr>,
          fragment1 = \<lparr>slice_pointer = 0, slice_size = sampleWordSize * secondLength\<rparr>,
          slice_stride = sampleWordSize * bufLen, slice_count = channels\<rparr>)"

definition fragment_bytes :: "mxlBufferSlice \<Rightarrow> nat list" where
  "fragment_bytes f = [unat (slice_pointer f)..<unat (slice_pointer f) + unat (slice_size f)]"

definition slice_bytes :: "mxlWrappedMultiBufferSlice \<Rightarrow> nat list" where
  "slice_bytes s = fragment_bytes (fragment0 s) @ fragment_bytes (fragment1 s)"

section \<open>The reader\<close>

record continuous_reader =
  cr_flowData :: "ContinuousFlowData option"
  cr_channelCount :: u64
  cr_bufferLength :: u64

definition new_continuous_reader :: "ContinuousFlowData \<Rightarrow> Flow \<Rightarrow> bool \<Rightarrow> continuous_reader outcome" where
  "new_continuous_reader data fl permitted =
     (if permitted
      then Ret \<lparr>cr_flowData = Some data, cr_channelCount = flow_channelCount fl, cr_bufferLength = flow_bufferLength fl\<rparr>
      else Throw RuntimeError)"

definition getMaxReadLength :: "continuous_reader \<Rightarrow> u64" where
  "getMaxReadLength r = cr_bufferLength r div 2"

text \<open>
  \<open>getSamplesImpl\<close> on the memory at the time the head index is read; \<open>want\<close> says whether the
  caller passed a slice to fill.
\<close>

definition getSamplesImpl ::
  "continuous_reader \<Rightarrow> u64 \<Rightarrow> u64 \<Rightarrow> bool \<Rightarrow> continuous_mem \<Rightarrow>
     (mxlStatus \<times> mxlWrappedMultiBufferSlice option) outcome" where
  "getSamplesImpl r index count want m =
     (case cr_flowData r of
        None \<Rightarrow> Crash NullDereference
      | Some data \<Rightarrow>
          let head = cm_head m in
          if index \<le> head then
            let half = cr_bufferLength r div 2;
                minIndex = (if half \<le> head then head - half else 0)
            in if minIndex \<le> index \<and> count \<le> index - minIndex then
                 if want then
                   if cr_bufferLength r = 0 then Crash DivisionByZero
                   else Ret (MXL_STATUS_OK,
                     Some (wrapped_slices (cr_bufferLength r) (cd_sampleWordSize data) (cr_channelCount r) index count))
                 else Ret (MXL_STATUS_OK, None)
               else Ret (MXL_ERR_OUT_OF_RANGE_TOO_LATE, None)
          else Ret (MXL_ERR_OUT_OF_RANGE_TOO_EARLY, None))"

fun getSamplesImplUntil ::
  "continuous_reader \<Rightarrow> u64 \<Rightarrow> u64 \<Rightarrow> bool \<Rightarrow> nat \<Rightarrow> continuous_mem environment \<Rightarrow> nat \<Rightarrow> Timepoint \<Rightarrow>
     ((mxlStatus \<times> mxlWrappedMultiBufferSlice option) outcome \<times> nat) option" where
  "getSamplesImplUntil r index count want 0 env k deadline = None"
| "getSamplesImplUntil r index count want (Suc fuel) env k deadline =
     (case getSamplesImpl r index count want (env_mem env (k + 1)) of
        Ret res \<Rightarrow>
          if \<not> grain_early res then Some (Ret res, k + 3)
          else (case waitUntilChanged fuel cm_counter env (k + 3) (cm_counter (env_mem env k)) deadline of
                  None \<Rightarrow> None
                | Some (changed, k') \<Rightarrow>
                    if changed then getSamplesImplUntil r index count want fuel env k' deadline
                    else Some (Ret res, k'))
      | Throw e \<Rightarrow> Some (Throw e, k + 3)
      | Crash c \<Rightarrow> Some (Crash c, k + 3))"

interpretation continuous_blocking:
  blocking_read "\<lambda>m1 m2. getSamplesImpl r index count want m1" grain_early cm_counter
    "getSamplesImplUntil r index count want"
  for r index count want
  by unfold_locales simp_all

definition finish_getSamples :: "Flow \<Rightarrow> nat option \<Rightarrow> mxlStatus \<times> 'a \<Rightarrow> mxlStatus \<times> 'a" where
  "finish_getSamples fl st_ino res =
     (if fst res \<noteq> MXL_ERR_OUT_OF_RANGE_TOO_EARLY \<or> isFlowValidImpl fl st_ino
      then res else (MXL_ERR_FLOW_INVALID, snd res))"

definition getSamples ::
  "continuous_reader \<Rightarrow> u64 \<Rightarrow> u64 \<Rightarrow> continuous_mem \<Rightarrow> nat option \<Rightarrow>
     (mxlStatus \<times> mxlWrappedMultiBufferSlice option) outcome" where
  "getSamples r index count m st_ino =
     (if cr_flowData r \<noteq> None
      then obind (getSamplesImpl r index count True m) (\<lambda>res. Ret (finish_getSamples (cm_flow m) st_ino res))
      else Ret (MXL_ERR_UNKNOWN, None))"

definition getSamplesUntil ::
  "continuous_reader \<Rightarrow> u64 \<Rightarrow> u64 \<Rightarrow> nat \<Rightarrow> continuous_mem environment \<Rightarrow> nat \<Rightarrow> Timepoint \<Rightarrow> (nat \<Rightarrow> nat option) \<Rightarrow>
     ((mxlStatus \<times> mxlWrappedMultiBufferSlice option) outcome \<times> nat) option" where
  "getSamplesUntil r index count fuel env k deadline stat =
     (if cr_flowData r \<noteq> None
      then map_option (\<lambda>(res, k').
             (obind res (\<lambda>x. Ret (finish_getSamples (cm_flow (env_mem env k')) (stat k') x)), k'))
             (getSamplesImplUntil r index count True fuel env k deadline)
      else Some (Ret (MXL_ERR_UNKNOWN, None), k))"

definition waitForSamples ::
  "continuous_reader \<Rightarrow> u64 \<Rightarrow> nat \<Rightarrow> continuous_mem environment \<Rightarrow> nat \<Rightarrow> Timepoint \<Rightarrow> (nat \<Rightarrow> nat option) \<Rightarrow>
     (mxlStatus outcome \<times> nat) option" where
  "waitForSamples r index fuel env k deadline stat =
     (if cr_flowData r \<noteq> None
      then map_option (\<lambda>(res, k').
             (obind res (\<lambda>x. Ret (fst (finish_getSamples (cm_flow (env_mem env k')) (stat k') x))), k'))
             (getSamplesImplUntil r index 0 False fuel env k deadline)
      else Some (Ret MXL_ERR_UNKNOWN, k))"

definition continuous_isFlowValid :: "continuous_reader \<Rightarrow> Flow \<Rightarrow> nat option \<Rightarrow> bool" where
  "continuous_isFlowValid r fl st_ino \<longleftrightarrow> cr_flowData r \<noteq> None \<and> isFlowValidImpl fl st_ino"

definition cr_getFlowInfo :: "continuous_reader \<Rightarrow> continuous_mem \<Rightarrow> mxlFlowInfo outcome" where
  "cr_getFlowInfo r m = (if cr_flowData r \<noteq> None then Ret (flow_info (cm_flow m)) else Throw RuntimeError)"

section \<open>The writer\<close>

record continuous_writer =
  cw_flowData :: "ContinuousFlowData option"
  cw_channelCount :: u64
  cw_bufferLength :: u64
  cw_currentIndex :: u64
  cw_syncBatchSize :: u32
  cw_earlySyncThreshold :: u32
  cw_lastSyncSampleBatch :: u64

definition new_continuous_writer :: "ContinuousFlowData \<Rightarrow> Flow \<Rightarrow> bool \<Rightarrow> continuous_writer outcome" where
  "new_continuous_writer data fl permitted =
     (if permitted then
        let cfg = common (config (flow_info fl));
            commitBatchSize = max (maxCommitBatchSizeHint cfg) 1;
            syncBatchSize = max (maxSyncBatchSizeHint cfg) 1
        in Ret \<lparr>cw_flowData = Some data, cw_channelCount = flow_channelCount fl, cw_bufferLength = flow_bufferLength fl,
                cw_currentIndex = MXL_UNDEFINED_INDEX, cw_syncBatchSize = syncBatchSize,
                cw_earlySyncThreshold = (if commitBatchSize \<le> syncBatchSize then syncBatchSize - commitBatchSize else 0),
                cw_lastSyncSampleBatch = 0\<rparr>
      else Throw RuntimeError)"

definition getMaxWriteLength :: "continuous_writer \<Rightarrow> u64" where
  "getMaxWriteLength w = cw_bufferLength w div 2"

definition cw_getFlowInfo :: "continuous_writer \<Rightarrow> continuous_mem \<Rightarrow> mxlFlowInfo outcome" where
  "cw_getFlowInfo w m = (if cw_flowData w \<noteq> None then Ret (flow_info (cm_flow m)) else Throw RuntimeError)"

definition openSamples ::
  "continuous_writer \<Rightarrow> u64 \<Rightarrow> u64 \<Rightarrow> (mxlStatus \<times> mxlWrappedMultiBufferSlice option \<times> continuous_writer) outcome" where
  "openSamples w index count =
     (case cw_flowData w of
        None \<Rightarrow> Ret (MXL_ERR_UNKNOWN, None, w)
      | Some data \<Rightarrow>
          if count \<le> cw_bufferLength w div 2 then
            if cw_bufferLength w = 0 then Crash DivisionByZero
            else Ret (MXL_STATUS_OK,
                   Some (wrapped_slices (cw_bufferLength w) (cd_sampleWordSize data) (cw_channelCount w) index count),
                   w\<lparr>cw_currentIndex := index\<rparr>)
          else Ret (MXL_ERR_INVALID_ARG, None, w))"

definition signalCompletedBatch :: "continuous_writer \<Rightarrow> (bool \<times> continuous_writer) outcome" where
  "signalCompletedBatch w =
     (if cw_syncBatchSize w = 0 then Crash DivisionByZero
      else let batch = cw_currentIndex w div ucast (cw_syncBatchSize w) in
        if batch < cw_lastSyncSampleBatch w then Ret (False, w)
        else if batch = cw_lastSyncSampleBatch w then
          if ucast (cw_earlySyncThreshold w) < cw_currentIndex w mod ucast (cw_syncBatchSize w)
          then Ret (True, w\<lparr>cw_lastSyncSampleBatch := batch + 1\<rparr>)
          else Ret (False, w)
        else Ret (True, w\<lparr>cw_lastSyncSampleBatch := batch\<rparr>))"

definition store_head :: "continuous_writer \<Rightarrow> continuous_mem \<Rightarrow> continuous_mem" where
  "store_head w m = m\<lparr>cm_flow := set_runtime (\<lambda>r. r\<lparr>headIndex := cw_currentIndex w\<rparr>) (cm_flow m)\<rparr>"

definition bump_counter :: "continuous_mem \<Rightarrow> continuous_mem" where
  "bump_counter m =
     m\<lparr>cm_flow := (cm_flow m)\<lparr>flow_state := (flow_state (cm_flow m))\<lparr>syncCounter := syncCounter (flow_state (cm_flow m)) + 1\<rparr>\<rparr>\<rparr>"

definition cancel_samples :: "continuous_writer \<Rightarrow> mxlStatus \<times> continuous_writer" where
  "cancel_samples w = (MXL_STATUS_OK, w\<lparr>cw_currentIndex := MXL_UNDEFINED_INDEX\<rparr>)"

definition commit_samples ::
  "continuous_writer \<Rightarrow> continuous_mem \<Rightarrow> (mxlStatus \<times> continuous_writer \<times> continuous_mem) outcome" where
  "commit_samples w m =
     (if cw_flowData w \<noteq> None then
        let m1 = store_head w m;
            w1 = w\<lparr>cw_currentIndex := MXL_UNDEFINED_INDEX\<rparr>
        in obind (signalCompletedBatch w1) (\<lambda>(signal, w2).
             Ret (MXL_STATUS_OK, w2, if signal then bump_counter m1 else m1))
      else Ret (MXL_ERR_UNKNOWN, w\<lparr>cw_currentIndex := MXL_UNDEFINED_INDEX\<rparr>, m))"

lemma store_head_simps [store_simps]:
  "cm_data (store_head w m) = cm_data m"
  "cm_head (store_head w m) = cw_currentIndex w"
  "cm_counter (store_head w m) = cm_counter m"
  by (simp_all add: store_head_def cm_head_def cm_counter_def store_simps)

lemma bump_counter_simps [store_simps]:
  "cm_data (bump_counter m) = cm_data m"
  "cm_head (bump_counter m) = cm_head m"
  "cm_counter (bump_counter m) = cm_counter m + 1"
  by (simp_all add: bump_counter_def cm_head_def cm_counter_def)


section \<open>What the slices cover\<close>

lemma wrapped_start_end:
  fixes i c n :: nat
  assumes "c \<le> i" and "0 < c" and "c \<le> n"
  shows "(i - c) mod n < i mod n \<longleftrightarrow> (i - c) mod n + c < n"
proof -
  have "i mod n = ((i - c) mod n + c) mod n"
    using assms(1) by (simp add: mod_add_left_eq)
  moreover have "(i - c) mod n < n" using assms by simp
  ultimately show ?thesis
    using assms(2,3) by (cases "(i - c) mod n + c < n") (auto simp: mod_if [of "(i - c) mod n + c"])
qed

lemma wrapped_slices_nat:
  assumes "unat count \<le> unat index" and "0 < unat count" and "unat count \<le> unat bufLen"
    and "unat index + unat bufLen < 2 ^ 64" and fits: "unat w * unat bufLen < 2 ^ 64"
  shows "let s = (unat index - unat count) mod unat bufLen; n = unat bufLen; c = unat count;
             sl = wrapped_slices bufLen w ch index count
         in unat (slice_pointer (fragment0 sl)) = unat w * s
          \<and> unat (slice_size (fragment0 sl)) = unat w * (if s + c < n then c else n - s)
          \<and> unat (slice_pointer (fragment1 sl)) = 0
          \<and> unat (slice_size (fragment1 sl)) = unat w * (if s + c < n then 0 else c - (n - s))
          \<and> unat (slice_stride sl) = unat w * n"
proof -
  define i where "i = unat index"
  define c where "c = unat count"
  define n where "n = unat bufLen"
  define s where "s = (i - c) mod n"
  define first where "first = (if s + c < n then c else n - s)"
  have b: "c \<le> i" "0 < c" "c \<le> n" "i + n < 2 ^ 64" "s < n"
    using assms by (auto simp: i_def c_def n_def s_def)
  have "unat (index + bufLen) = i + n"
    unfolding i_def n_def using assms(4) by (intro unat_add_lt) simp
  moreover have "count \<le> index + bufLen"
    unfolding word_le_nat_alt calculation using b by (simp add: c_def [symmetric])
  ultimately have "unat (index + bufLen - count) = i + n - c"
    by (simp add: unat_sub_le c_def)
  moreover have "i + n - c = (i - c) + n" using b by simp
  ultimately have start: "unat ((index + bufLen - count) mod bufLen) = s"
    by (simp add: unat_mod_distrib s_def n_def)
  have "unat (index mod bufLen) = i mod n"
    by (simp add: unat_mod_distrib i_def n_def)
  then have cond: "(index + bufLen - count) mod bufLen < index mod bufLen \<longleftrightarrow> s + c < n"
    unfolding word_less_nat_alt start s_def using wrapped_start_end [OF b(1-3)] by simp
  define firstW where "firstW = (if s + c < n then count else bufLen - (index + bufLen - count) mod bufLen)"
  have "(index + bufLen - count) mod bufLen \<le> bufLen"
    unfolding word_le_nat_alt start using b by (simp add: n_def [symmetric])
  then have first: "unat firstW = first"
    by (simp add: firstW_def first_def c_def n_def start unat_sub_le)
  have fc: "first \<le> c"
    using b by (auto simp: first_def)
  then have second: "unat (count - firstW) = c - first"
    using first by (subst unat_sub_le) (auto simp: word_le_nat_alt c_def)
  have mult: "unat (w * x) = unat w * unat x" if "unat x \<le> n" for x
  proof -
    have "unat w * unat x \<le> unat w * n" using that by (rule mult_left_mono) simp
    also have "\<dots> < 2 ^ 64" using fits by (simp add: n_def)
    finally show ?thesis by (intro unat_mult_lt) simp
  qed
  have "first \<le> n" "c - first \<le> n" using b fc by linarith+
  then show ?thesis
    unfolding wrapped_slices_def Let_def cond firstW_def [symmetric]
    using mult [of "(index + bufLen - count) mod bufLen"] mult [of firstW] mult [of "count - firstW"] mult [of bufLen]
      start first second b
    by (simp add: first_def s_def [symmetric] i_def [symmetric] c_def [symmetric] n_def [symmetric])
qed

text \<open>
  The two fragments are, in order, the bytes of the samples \<open>index - count, \<dots>, index - 1\<close> of the
  stream, each at its position modulo the ring.
\<close>

lemma slice_bytes_stream:
  assumes "unat count \<le> unat index" and "0 < unat count" and "unat count \<le> unat bufLen"
    and "unat index + unat bufLen < 2 ^ 64" and "unat w * unat bufLen < 2 ^ 64" and "0 < unat w"
  shows "slice_bytes (wrapped_slices bufLen w ch index count)
    = map (\<lambda>n. n mod (unat w * unat bufLen)) [unat w * (unat index - unat count)..<unat w * unat index]"
proof -
  define i where "i = unat index"
  define c where "c = unat count"
  define n where "n = unat bufLen"
  define v where "v = unat w"
  define s where "s = (i - c) mod n"
  have b: "c \<le> i" "0 < c" "c \<le> n" "s < n" "0 < v"
    using assms by (auto simp: i_def c_def n_def s_def v_def)
  have sum: "v * x + v * y = v * (x + y)" for x y
    by (rule distrib_left [symmetric])
  have top: "v * i = v * (i - c) + v * c"
    unfolding sum using b(1) by simp
  have start: "v * (i - c) mod (v * n) = v * s"
    unfolding s_def by (rule mult_mod_right [symmetric])
  have range: "v * c \<le> v * n" "0 < v * n" using b by auto
  have "map (\<lambda>k. k mod (v * n)) [v * (i - c)..<v * i]
      = (if v * s + v * c \<le> v * n then [v * s..<v * s + v * c] else [v * s..<v * n] @ [0..<v * s + v * c - v * n])"
    unfolding top by (rule map_mod_upt [OF range, of "v * (i - c)", unfolded start])
  moreover have "v * s + v * c \<le> v * n \<longleftrightarrow> s + c \<le> n"
    unfolding sum using b(5) by simp
  moreover have "v * s + v * (n - s) = v * n"
    unfolding sum using b(4) by simp
  moreover have "v * s + v * c - v * n = v * (s + c - n)"
    unfolding sum by (rule diff_mult_distrib2 [symmetric])
  moreover have "c - (n - s) = s + c - n" using b by simp
  moreover note wrapped_slices_nat [OF assms(1-5), of ch]
  ultimately show ?thesis
    unfolding slice_bytes_def fragment_bytes_def Let_def
      i_def [symmetric] c_def [symmetric] n_def [symmetric] v_def [symmetric] s_def [symmetric]
    using b by (cases "s + c = n") auto
qed

end
