(* ===== verification/ContinuousRing.thy ===== *)
theory ContinuousRing
  imports ContinuousFlow
begin

text \<open>
  A continuous flow in use: the writer opens ranges of samples, writes the bytes of its slices one
  at a time, and commits in two stores; readers run in between. A ghost history records the byte
  last written at every position of every channel's stream. The invariant relates the ring to the
  history; the reader's theorem says that the bytes under its slices are the bytes of the stream.
\<close>

section \<open>The state machine\<close>

record cring =
  cg_mem :: continuous_mem
  cg_writer :: continuous_writer
  cg_stored :: bool
  cg_open :: "(u64 \<times> u64 \<times> mxlWrappedMultiBufferSlice) option"
  cg_top :: u64
  cg_hist :: "nat \<Rightarrow> nat \<Rightarrow> u8 option"

definition buf_len :: "cring \<Rightarrow> nat" where
  "buf_len s = unat (cw_bufferLength (cg_writer s))"

definition word_size :: "cring \<Rightarrow> u64" where
  "word_size s = (case cw_flowData (cg_writer s) of None \<Rightarrow> 0 | Some d \<Rightarrow> cd_sampleWordSize d)"

definition ring_bytes :: "cring \<Rightarrow> nat" where
  "ring_bytes s = unat (word_size s) * buf_len s"

definition channels :: "cring \<Rightarrow> nat" where
  "channels s = unat (cw_channelCount (cg_writer s))"

definition set_byte :: "nat \<Rightarrow> u8 \<Rightarrow> continuous_mem \<Rightarrow> continuous_mem" where
  "set_byte a b m = m\<lparr>cm_data := (cm_data m)[a := b]\<rparr>"

inductive cring_step :: "cring \<Rightarrow> cring \<Rightarrow> bool" where
  copen_step:
    "\<not> cg_stored s \<Longrightarrow> cg_top s \<le> index \<Longrightarrow> index < index + cw_bufferLength (cg_writer s) \<Longrightarrow> 0 < count \<Longrightarrow> count \<le> index \<Longrightarrow>
     openSamples (cg_writer s) index count = Ret (MXL_STATUS_OK, Some sl, w') \<Longrightarrow>
     cring_step s (s\<lparr>cg_writer := w', cg_open := Some (index, count, sl), cg_top := index\<rparr>)"
| cwrite_step:
    "\<not> cg_stored s \<Longrightarrow> cg_open s = Some (index, count, sl) \<Longrightarrow> c < channels s \<Longrightarrow> p < length (slice_bytes sl) \<Longrightarrow>
     n = unat (word_size s) * (unat index - unat count) + p \<Longrightarrow>
     cring_step s (s\<lparr>cg_mem := set_byte (c * unat (slice_stride sl) + slice_bytes sl ! p) b (cg_mem s),
                     cg_hist := (cg_hist s)(c := (cg_hist s c)(n \<mapsto> b))\<rparr>)"
| ccancel_step:
    "\<not> cg_stored s \<Longrightarrow>
     cring_step s (s\<lparr>cg_writer := snd (cancel_samples (cg_writer s)), cg_open := None\<rparr>)"
| cstore_step:
    "\<not> cg_stored s \<Longrightarrow> cg_open s \<noteq> None \<Longrightarrow>
     cring_step s (s\<lparr>cg_mem := store_head (cg_writer s) (cg_mem s), cg_stored := True\<rparr>)"
| csignal_step:
    "cg_stored s \<Longrightarrow>
     signalCompletedBatch ((cg_writer s)\<lparr>cw_currentIndex := MXL_UNDEFINED_INDEX\<rparr>) = Ret (signal, w') \<Longrightarrow>
     cring_step s (s\<lparr>cg_mem := (if signal then bump_counter (cg_mem s) else cg_mem s), cg_writer := w',
                     cg_stored := False, cg_open := None\<rparr>)"

inductive cring_steps :: "cring \<Rightarrow> cring \<Rightarrow> bool" where
  cring_refl: "cring_steps s s"
| cring_trans: "cring_steps s t \<Longrightarrow> cring_step t u \<Longrightarrow> cring_steps s u"

inductive_cases cring_stepE: "cring_step s t"

definition fresh_cring :: "cring \<Rightarrow> bool" where
  "fresh_cring s \<longleftrightarrow>
     0 < unat (word_size s) \<and> 0 < buf_len s \<and> ring_bytes s < 2 ^ 64
     \<and> length (cm_data (cg_mem s)) = channels s * ring_bytes s
     \<and> cm_head (cg_mem s) = 0 \<and> \<not> cg_stored s \<and> cg_open s = None \<and> cg_top s = 0
     \<and> cg_hist s = (\<lambda>_ _. None)"

section \<open>The invariant\<close>

definition cshape :: "cring \<Rightarrow> bool" where
  "cshape s \<longleftrightarrow>
     0 < unat (word_size s) \<and> 0 < buf_len s \<and> ring_bytes s < 2 ^ 64
     \<and> length (cm_data (cg_mem s)) = channels s * ring_bytes s
     \<and> cm_head (cg_mem s) \<le> cg_top s
     \<and> (cg_top s = 0 \<or> unat (cg_top s) + buf_len s < 2 ^ 64)"

definition copen_ok :: "cring \<Rightarrow> bool" where
  "copen_ok s \<longleftrightarrow>
     (cg_stored s \<longrightarrow> cg_open s \<noteq> None)
     \<and> (\<forall>index count sl. cg_open s = Some (index, count, sl) \<longrightarrow>
          index = cg_top s \<and> cw_currentIndex (cg_writer s) = index \<and> 0 < unat count \<and> unat count \<le> unat index
          \<and> unat count \<le> buf_len s
          \<and> sl = wrapped_slices (cw_bufferLength (cg_writer s)) (word_size s) (cw_channelCount (cg_writer s)) index count)"

text \<open>Stream position \<open>n\<close> has not been lapped by the newest opened range.\<close>

definition cretained :: "cring \<Rightarrow> nat \<Rightarrow> bool" where
  "cretained s n \<longleftrightarrow> unat (word_size s) * unat (cg_top s) \<le> n + ring_bytes s"

definition stream_at :: "cring \<Rightarrow> nat \<Rightarrow> nat \<Rightarrow> u8" where
  "stream_at s c n = cm_data (cg_mem s) ! (c * ring_bytes s + n mod ring_bytes s)"

definition chistory_ok :: "cring \<Rightarrow> bool" where
  "chistory_ok s \<longleftrightarrow>
     (\<forall>c n b. cg_hist s c n = Some b \<longrightarrow>
        c < channels s \<and> n < unat (word_size s) * unat (cg_top s) \<and> (cretained s n \<longrightarrow> stream_at s c n = b))"

definition cring_inv :: "cring \<Rightarrow> bool" where
  "cring_inv s \<longleftrightarrow> cshape s \<and> copen_ok s \<and> chistory_ok s"

lemma chistoryD:
  assumes "chistory_ok s" and "cg_hist s c n = Some b"
  shows "c < channels s" and "n < unat (word_size s) * unat (cg_top s)" and "cretained s n \<Longrightarrow> stream_at s c n = b"
  using assms unfolding chistory_ok_def by blast+

lemma chistoryI:
  assumes "\<And>c n b. cg_hist s c n = Some b \<Longrightarrow> c < channels s"
    and "\<And>c n b. cg_hist s c n = Some b \<Longrightarrow> n < unat (word_size s) * unat (cg_top s)"
    and "\<And>c n b. cg_hist s c n = Some b \<Longrightarrow> cretained s n \<Longrightarrow> stream_at s c n = b"
  shows "chistory_ok s"
  unfolding chistory_ok_def using assms by blast

lemma fresh_cring_inv: "fresh_cring s \<Longrightarrow> cring_inv s"
  by (simp add: fresh_cring_def cring_inv_def cshape_def copen_ok_def chistory_ok_def)

text \<open>The geometry never changes, and the newest opened index never decreases.\<close>

definition geometry :: "cring \<Rightarrow> nat \<times> u64 \<times> nat" where
  "geometry s = (buf_len s, word_size s, channels s)"

lemma openSamples_eq:
  assumes "openSamples w index count = Ret (MXL_STATUS_OK, Some sl, w')"
  shows "\<exists>d. cw_flowData w = Some d \<and> count \<le> cw_bufferLength w div 2 \<and> cw_bufferLength w \<noteq> 0
    \<and> sl = wrapped_slices (cw_bufferLength w) (cd_sampleWordSize d) (cw_channelCount w) index count
    \<and> w' = w\<lparr>cw_currentIndex := index\<rparr>"
  using assms by (auto simp: openSamples_def split: option.splits if_splits)

lemma signal_keeps:
  assumes "signalCompletedBatch w = Ret (b, w')"
  shows "cw_flowData w' = cw_flowData w" and "cw_bufferLength w' = cw_bufferLength w"
    and "cw_channelCount w' = cw_channelCount w" and "cw_currentIndex w' = cw_currentIndex w"
  using assms by (auto simp: signalCompletedBatch_def Let_def split: if_splits)

lemma cring_step_mono:
  assumes "cring_step s t"
  shows "geometry t = geometry s \<and> cg_top s \<le> cg_top t"
  using assms
  by cases (auto simp: geometry_def buf_len_def word_size_def channels_def cancel_samples_def
      dest!: openSamples_eq dest: signal_keeps)

lemma cring_steps_mono:
  assumes "cring_steps s t"
  shows "geometry t = geometry s \<and> cg_top s \<le> cg_top t"
  using assms by (induction rule: cring_steps.induct) (auto dest: cring_step_mono)

lemma geometry_eqD:
  "geometry t = geometry s \<Longrightarrow> buf_len t = buf_len s \<and> word_size t = word_size s \<and> channels t = channels s
     \<and> ring_bytes t = ring_bytes s"
  by (simp add: geometry_def ring_bytes_def)

text \<open>A position of one channel has an address of its own, away from every other retained position.\<close>

lemma address_inj:
  fixes c c' a a' B :: nat
  assumes "c * B + a = c' * B + a'" and "a < B" and "a' < B"
  shows "c = c' \<and> a = a'"
proof -
  have "c = (c * B + a) div B" "a = (c * B + a) mod B" using assms(2) by auto
  moreover have "c' = (c' * B + a') div B" "a' = (c' * B + a') mod B" using assms(3) by auto
  ultimately show ?thesis using assms(1) by metis
qed

lemma address_bound:
  fixes c k a B :: nat
  assumes "c < k" and "a < B"
  shows "c * B + a < k * B"
proof -
  have "c * B + a < Suc c * B" using assms(2) by simp
  also have "\<dots> \<le> k * B" using assms(1) by (intro mult_right_mono) auto
  finally show ?thesis .
qed

text \<open>What the open range covers.\<close>

lemma open_range:
  assumes inv: "cring_inv s" and op: "cg_open s = Some (index, count, sl)"
  shows "slice_bytes sl = map (\<lambda>n. n mod ring_bytes s)
           [unat (word_size s) * (unat index - unat count)..<unat (word_size s) * unat index]"
    and "unat (slice_stride sl) = ring_bytes s"
proof -
  have c: "index = cg_top s" "0 < unat count" "unat count \<le> unat index" "unat count \<le> buf_len s"
    "sl = wrapped_slices (cw_bufferLength (cg_writer s)) (word_size s) (cw_channelCount (cg_writer s)) index count"
    using inv op by (auto simp: cring_inv_def copen_ok_def)
  have sh: "0 < unat (word_size s)" "unat (word_size s) * unat (cw_bufferLength (cg_writer s)) < 2 ^ 64"
    using inv by (auto simp: cring_inv_def cshape_def ring_bytes_def buf_len_def)
  have "cg_top s \<noteq> 0" using c(1-3) by auto
  then have i: "unat index + unat (cw_bufferLength (cg_writer s)) < 2 ^ 64"
    using inv c(1) by (auto simp: cring_inv_def cshape_def buf_len_def)
  note b = c(3,2) c(4) [unfolded buf_len_def] i sh(2)
  show "slice_bytes sl = map (\<lambda>n. n mod ring_bytes s)
      [unat (word_size s) * (unat index - unat count)..<unat (word_size s) * unat index]"
    unfolding c(5) ring_bytes_def buf_len_def by (rule slice_bytes_stream [OF b sh(1)])
  show "unat (slice_stride sl) = ring_bytes s"
    unfolding c(5) ring_bytes_def buf_len_def using wrapped_slices_nat [OF b] by (simp add: Let_def)
qed

lemma cwrite_keeps_history:
  assumes inv: "cring_inv s" and op: "cg_open s = Some (index, count, sl)" and c: "c < channels s"
    and p: "p < length (slice_bytes sl)" and n: "n = unat (word_size s) * (unat index - unat count) + p"
    and t: "t = s\<lparr>cg_mem := set_byte (c * unat (slice_stride sl) + slice_bytes sl ! p) b (cg_mem s),
                 cg_hist := (cg_hist s)(c := (cg_hist s c)(n \<mapsto> b))\<rparr>"
  shows "chistory_ok t"
proof -
  define B where "B = ring_bytes s"
  define v where "v = unat (word_size s)"
  have hist: "chistory_ok s" and len: "length (cm_data (cg_mem s)) = channels s * B" and B: "0 < B"
    using inv by (auto simp: cring_inv_def cshape_def B_def ring_bytes_def)
  have o: "index = cg_top s" "unat count \<le> unat index" "unat count \<le> buf_len s"
    using inv op by (auto simp: cring_inv_def copen_ok_def)
  note r = open_range [OF inv op, folded B_def v_def]
  have le: "v * (unat index - unat count) \<le> v * unat index" by simp
  have nlt: "n < v * unat index"
    using p le by (simp add: r(1) n v_def [symmetric])
  have "v * unat index \<le> v * (unat index - unat count) + v * unat count"
    using o(2) by (simp add: distrib_left [symmetric] del: distrib_left)
  moreover have "v * unat count \<le> B"
    unfolding B_def ring_bytes_def v_def using o(3) by (rule mult_left_mono) simp
  ultimately have nret: "v * unat index \<le> n + B"
    by (simp add: n v_def [symmetric])
  have at: "slice_bytes sl ! p = n mod B"
    using p by (simp add: r(1) n v_def [symmetric])
  have geo: "channels t = channels s" "ring_bytes t = B" "word_size t = word_size s" "cg_top t = cg_top s"
    by (simp_all add: t channels_def ring_bytes_def word_size_def buf_len_def B_def)
  have bound: "c * B + n mod B < length (cm_data (cg_mem s))"
    unfolding len using c B by (intro address_bound) auto
  have hist_t: "cg_hist t c' n' = (if c' = c \<and> n' = n then Some b else cg_hist s c' n')" for c' n'
    by (simp add: t)
  have val: "stream_at t c' n' = (if c' = c \<and> n' mod B = n mod B then b else stream_at s c' n')" for c' n'
  proof -
    have "cm_data (cg_mem t) = (cm_data (cg_mem s))[c * B + n mod B := b]"
      by (simp add: t set_byte_def r(2) at)
    moreover have "c * B + n mod B = c' * B + n' mod B \<longleftrightarrow> c' = c \<and> n' mod B = n mod B"
      using address_inj [of c B "n mod B" c' "n' mod B"] B by auto
    ultimately show ?thesis
      unfolding stream_at_def geo B_def [symmetric] using bound by (simp add: nth_list_update)
  qed
  show ?thesis
  proof (rule chistoryI)
    fix c' n' b' assume h: "cg_hist t c' n' = Some b'"
    show "c' < channels t"
      using h c chistoryD(1) [OF hist, of c' n' b'] by (auto simp: hist_t geo split: if_splits)
    show lt: "n' < unat (word_size t) * unat (cg_top t)"
      using h nlt o(1) chistoryD(2) [OF hist, of c' n' b'] by (auto simp: hist_t geo v_def split: if_splits)
    assume ret: "cretained t n'"
    then have ret_s: "cretained s n'" by (simp add: cretained_def geo B_def)
    have top: "n' < v * unat index" "v * unat index \<le> n' + B"
      using lt ret unfolding cretained_def geo v_def o(1) by blast+
    have "n' < n + B" "n < n' + B"
      using top nlt nret by linarith+
    then have "n' = n" if "n' mod B = n mod B"
      using mod_eq_same_lap [OF that] by blast
    with h show "stream_at t c' n' = b'"
      using val [of c' n'] chistoryD(3) [OF hist _ ret_s] by (auto simp: hist_t split: if_splits)
  qed
qed


lemma same_data_keeps_history:
  assumes "chistory_ok s" and "cm_data (cg_mem t) = cm_data (cg_mem s)" and "geometry t = geometry s"
    and "cg_top s \<le> cg_top t" and "cg_hist t = cg_hist s"
  shows "chistory_ok t"
proof -
  have geo: "buf_len t = buf_len s" "word_size t = word_size s" "channels t = channels s" "ring_bytes t = ring_bytes s"
    using geometry_eqD [OF assms(3)] by auto
  have top: "unat (word_size s) * unat (cg_top s) \<le> unat (word_size s) * unat (cg_top t)"
    using assms(4) by (intro mult_left_mono) (auto simp: word_le_nat_alt)
  show ?thesis
  proof (rule chistoryI)
    fix c n b assume "cg_hist t c n = Some b"
    then have h: "cg_hist s c n = Some b" by (simp add: assms(5))
    note d = chistoryD [OF assms(1) h]
    show "c < channels t" using d(1) geo by simp
    show "n < unat (word_size t) * unat (cg_top t)" unfolding geo using d(2) top by (rule order.strict_trans2)
    assume "cretained t n"
    then have "cretained s n" unfolding cretained_def geo using top by linarith
    from d(3) [OF this] show "stream_at t c n = b" by (simp add: stream_at_def geo assms(2))
  qed
qed

lemma cring_step_inv:
  assumes step: "cring_step s t" and inv: "cring_inv s"
  shows "cring_inv t"
proof -
  note mono = cring_step_mono [OF step]
  note geo = geometry_eqD [OF conjunct1 [OF mono]]
  have hist: "chistory_ok s" and shape: "cshape s" and open_s: "copen_ok s" using inv by (auto simp: cring_inv_def)
  from step show ?thesis
  proof cases
    case (copen_step index count sl w')
    obtain d where d: "cw_flowData (cg_writer s) = Some d" "count \<le> cw_bufferLength (cg_writer s) div 2"
        "sl = wrapped_slices (cw_bufferLength (cg_writer s)) (cd_sampleWordSize d) (cw_channelCount (cg_writer s)) index count"
        "w' = (cg_writer s)\<lparr>cw_currentIndex := index\<rparr>"
      using openSamples_eq [OF copen_step(7)] by blast
    have le: "unat count \<le> unat index" "0 < unat count"
      using copen_step(5,6) by (auto simp: word_le_nat_alt word_less_nat_alt)
    have "unat count \<le> buf_len s div 2"
      using d(2) by (simp add: buf_len_def word_le_nat_alt unat_div)
    then have "copen_ok t"
      using d le copen_step(1) geo by (auto simp: copen_ok_def copen_step(2) word_size_def)
    moreover have "cshape t"
      using shape copen_step(3) no_wrap [OF copen_step(4)] geo by (auto simp: cshape_def copen_step(1) buf_len_def)
    moreover have "chistory_ok t"
      by (rule same_data_keeps_history [OF hist]) (use mono in \<open>auto simp: copen_step(1)\<close>)
    ultimately show ?thesis by (simp add: cring_inv_def)
  next
    case (cwrite_step index count sl c p n b)
    have "chistory_ok t"
      using cwrite_keeps_history [OF inv cwrite_step(3,4,5,6,1)] .
    moreover have "cshape t" "copen_ok t"
      using shape open_s geo
      by (auto simp: cshape_def copen_ok_def cwrite_step(1) set_byte_def cm_head_def word_size_def)
    ultimately show ?thesis by (simp add: cring_inv_def)
  next
    case ccancel_step
    have "chistory_ok t"
      by (rule same_data_keeps_history [OF hist]) (use mono in \<open>auto simp: ccancel_step(1)\<close>)
    moreover have "cshape t" "copen_ok t"
      using shape geo by (auto simp: cshape_def copen_ok_def ccancel_step)
    ultimately show ?thesis by (simp add: cring_inv_def)
  next
    case cstore_step
    have "chistory_ok t"
      by (rule same_data_keeps_history [OF hist]) (use mono in \<open>auto simp: cstore_step(1) store_simps\<close>)
    moreover have "cshape t" "copen_ok t"
      using shape open_s geo cstore_step(3)
      by (auto simp: cshape_def copen_ok_def cstore_step(1) store_simps word_size_def)
    ultimately show ?thesis by (simp add: cring_inv_def)
  next
    case (csignal_step w' signal)
    have "chistory_ok t"
      by (rule same_data_keeps_history [OF hist]) (use mono in \<open>auto simp: csignal_step(1) store_simps\<close>)
    moreover have "cshape t" "copen_ok t"
      using shape geo by (auto simp: cshape_def copen_ok_def csignal_step(1) store_simps)
    ultimately show ?thesis by (simp add: cring_inv_def)
  qed
qed

lemma cring_steps_inv: "cring_steps s t \<Longrightarrow> cring_inv s \<Longrightarrow> cring_inv t"
  by (induction rule: cring_steps.induct) (auto intro: cring_step_inv)

lemma reachable_cring_inv: "fresh_cring s0 \<Longrightarrow> cring_steps s0 s \<Longrightarrow> cring_inv s"
  using fresh_cring_inv cring_steps_inv by blast


section \<open>What the reader gets\<close>

definition reads_ring :: "continuous_reader \<Rightarrow> cring \<Rightarrow> bool" where
  "reads_ring r s \<longleftrightarrow>
     cr_bufferLength r = cw_bufferLength (cg_writer s) \<and> cr_channelCount r = cw_channelCount (cg_writer s)
     \<and> map_option cd_sampleWordSize (cr_flowData r) = Some (word_size s)"

definition read_bytes :: "continuous_mem \<Rightarrow> mxlWrappedMultiBufferSlice \<Rightarrow> nat \<Rightarrow> u8 list" where
  "read_bytes m sl c = map (\<lambda>a. cm_data m ! (c * unat (slice_stride sl) + a)) (slice_bytes sl)"

lemma getSamplesImpl_ok:
  assumes "getSamplesImpl r index count True m = Ret (MXL_STATUS_OK, Some sl)"
  shows "\<exists>d. cr_flowData r = Some d \<and> index \<le> cm_head m
    \<and> unat count \<le> unat index \<and> unat (cm_head m) + unat count \<le> unat index + unat (cr_bufferLength r) div 2
    \<and> sl = wrapped_slices (cr_bufferLength r) (cd_sampleWordSize d) (cr_channelCount r) index count"
proof -
  define half where "half = cr_bufferLength r div 2"
  define minIndex where "minIndex = (if half \<le> cm_head m then cm_head m - half else 0)"
  from assms obtain d where d: "cr_flowData r = Some d" "index \<le> cm_head m" "minIndex \<le> index" "count \<le> index - minIndex"
    "sl = wrapped_slices (cr_bufferLength r) (cd_sampleWordSize d) (cr_channelCount r) index count"
    by (auto simp: getSamplesImpl_def Let_def half_def minIndex_def split: option.splits if_splits)
  have half: "unat half = unat (cr_bufferLength r) div 2"
    by (simp add: half_def unat_div)
  have low: "unat (cm_head m) \<le> unat minIndex + unat half"
  proof (cases "half \<le> cm_head m")
    case True
    then have "unat minIndex = unat (cm_head m) - unat half"
      by (simp add: minIndex_def unat_sub_le)
    then show ?thesis by linarith
  next
    case False
    then show ?thesis by (simp add: minIndex_def word_le_nat_alt)
  qed
  have "unat count \<le> unat index - unat minIndex"
    using d(3,4) by (simp add: word_le_nat_alt unat_sub_le)
  moreover have "unat minIndex \<le> unat index"
    using d(3) by (simp add: word_le_nat_alt)
  ultimately show ?thesis
    using d low unfolding half by auto
qed

text \<open>
  C6: Samples come back as they were written: when a read of \<open>count\<close> samples up to \<open>index\<close>
  succeeds on the head index it saw, the bytes its slices point at, looked up at any later time, are
  in order the bytes the writer put at the positions of the samples \<open>index - count\<close> up to
  \<open>index - 1\<close> of every channel, as long as the writer has not meanwhile opened a range that
  ends more than half a buffer beyond that head.
\<close>

theorem reader_gets_written_samples:
  assumes fresh: "fresh_cring s0" and s1: "cring_steps s0 s1" and s2: "cring_steps s1 s2" and r: "reads_ring r s1"
    and ok: "getSamplesImpl r index count True (cg_mem s1) = Ret (MXL_STATUS_OK, Some sl)" and "0 < unat count"
    and half: "unat (cg_top s2) \<le> unat (cm_head (cg_mem s1)) + buf_len s1 div 2"
    and hist: "\<And>n. unat (word_size s1) * (unat index - unat count) \<le> n \<Longrightarrow> n < unat (word_size s1) * unat index \<Longrightarrow>
      cg_hist s2 c n = Some (f n)"
  shows "read_bytes (cg_mem s2) sl c
    = map f [unat (word_size s1) * (unat index - unat count)..<unat (word_size s1) * unat index]"
proof -
  define v where "v = unat (word_size s1)"
  define L where "L = buf_len s1"
  define i where "i = unat index"
  define k where "k = unat count"
  have inv1: "cring_inv s1" using reachable_cring_inv [OF fresh s1] .
  then have inv2: "cring_inv s2" using cring_steps_inv [OF s2] by blast
  note geo = geometry_eqD [OF conjunct1 [OF cring_steps_mono [OF s2]]]
  from getSamplesImpl_ok [OF ok] r obtain d where
    d: "index \<le> cm_head (cg_mem s1)" "k \<le> i" "unat (cm_head (cg_mem s1)) + k \<le> i + L div 2"
      "sl = wrapped_slices (cw_bufferLength (cg_writer s1)) (word_size s1) (cr_channelCount r) index count"
    by (auto simp: reads_ring_def i_def k_def L_def buf_len_def)
  have sh: "0 < v" "0 < L" "v * L < 2 ^ 64" "ring_bytes s1 = v * L"
    using inv1 by (auto simp: cring_inv_def cshape_def ring_bytes_def v_def L_def)
  have headle: "unat (cm_head (cg_mem s1)) \<le> unat (cg_top s1)" "cg_top s1 = 0 \<or> unat (cg_top s1) + L < 2 ^ 64"
    using inv1 by (auto simp: cring_inv_def cshape_def L_def word_le_nat_alt)
  have i_head: "i \<le> unat (cm_head (cg_mem s1))"
    using d(1) by (simp add: i_def word_le_nat_alt)
  have "k \<le> L" using d(3) i_head by linarith
  moreover have "0 < k" using assms(6) by (simp add: k_def)
  moreover have "i + L < 2 ^ 64" using headle i_head d(2) \<open>0 < k\<close> by auto
  ultimately have b: "unat count \<le> unat index" "0 < unat count" "unat count \<le> unat (cw_bufferLength (cg_writer s1))"
    "unat index + unat (cw_bufferLength (cg_writer s1)) < 2 ^ 64"
    "unat (word_size s1) * unat (cw_bufferLength (cg_writer s1)) < 2 ^ 64"
    using d(2) sh(3) by (auto simp: i_def k_def L_def buf_len_def v_def)
  have bytes: "slice_bytes sl = map (\<lambda>n. n mod (v * L)) [v * (i - k)..<v * i]"
    unfolding d(4) v_def L_def buf_len_def i_def k_def
    by (rule slice_bytes_stream [OF b]) (use sh in \<open>simp add: v_def\<close>)
  have stride: "unat (slice_stride sl) = v * L"
    unfolding d(4) v_def L_def buf_len_def using wrapped_slices_nat [OF b] by (simp add: Let_def)
  have "cm_data (cg_mem s2) ! (c * (v * L) + n mod (v * L)) = f n" if n: "v * (i - k) \<le> n" "n < v * i" for n
  proof -
    have h: "cg_hist s2 c n = Some (f n)" using hist n by (simp add: v_def i_def k_def)
    have "unat (cg_top s2) \<le> (i - k) + L" using half d(2,3) unfolding L_def [symmetric] by linarith
    then have "v * unat (cg_top s2) \<le> v * ((i - k) + L)" by (rule mult_left_mono) simp
    also have "\<dots> \<le> n + v * L" unfolding distrib_left using n by simp
    finally have "cretained s2 n"
      unfolding cretained_def using geo sh(4) by (simp add: v_def)
    moreover have "chistory_ok s2" using inv2 by (simp add: cring_inv_def)
    ultimately have "stream_at s2 c n = f n" using chistoryD(3) h by blast
    then show ?thesis using geo sh(4) by (simp add: stream_at_def)
  qed
  then show ?thesis
    unfolding read_bytes_def bytes stride v_def [symmetric] i_def [symmetric] k_def [symmetric] by simp
qed

text \<open>
  C7: What a reader may hold and what the writer may open next never share a byte: the slices of a
  successful read at head index \<open>h\<close> are disjoint from the slices of a range of at most half a
  buffer opened right behind that head.
\<close>

theorem reader_and_writer_ranges_disjoint:
  assumes ok: "getSamplesImpl r index count True m = Ret (MXL_STATUS_OK, Some sl)"
    and op: "openSamples w (cm_head m + count') count' = Ret (MXL_STATUS_OK, Some sl', w')"
    and geo: "cw_bufferLength w = cr_bufferLength r" "map_option cd_sampleWordSize (cw_flowData w) = map_option cd_sampleWordSize (cr_flowData r)"
    and word: "map_option cd_sampleWordSize (cr_flowData r) = Some ws" "0 < unat ws" "unat ws * unat (cr_bufferLength r) < 2 ^ 64"
    and "0 < unat count" "0 < unat count'" and room: "unat (cm_head m) + unat count' + unat (cr_bufferLength r) < 2 ^ 64"
  shows "set (slice_bytes sl) \<inter> set (slice_bytes sl') = {}"
proof -
  define v where "v = unat ws"
  define L where "L = unat (cr_bufferLength r)"
  define h where "h = unat (cm_head m)"
  define i where "i = unat index"
  define k where "k = unat count"
  define k' where "k' = unat count'"
  from getSamplesImpl_ok [OF ok] word geo have
    d: "i \<le> h" "k \<le> i" "h + k \<le> i + L div 2" "sl = wrapped_slices (cr_bufferLength r) ws (cr_channelCount r) index count"
    by (auto simp: i_def k_def L_def h_def word_le_nat_alt)
  from openSamples_eq [OF op] word geo have
    e: "k' \<le> L div 2" "sl' = wrapped_slices (cr_bufferLength r) ws (cw_channelCount w) (cm_head m + count') count'"
    by (auto simp: k'_def L_def word_le_nat_alt unat_div)
  have sum: "unat (cm_head m + count') = h + k'"
    unfolding h_def k'_def by (rule unat_add_lt) (use room in simp)
  have pos: "0 < k" "0 < k'" using assms(8,9) by (auto simp: k_def k'_def)
  have room': "h + k' + L < 2 ^ 64" using room by (simp add: h_def k'_def L_def)
  have kL: "k \<le> L" "k' \<le> L" "i + L < 2 ^ 64" using d e room' by linarith+
  have B: "slice_bytes sl = map (\<lambda>n. n mod (v * L)) [v * (i - k)..<v * i]"
    unfolding d(4) v_def L_def i_def k_def
    by (rule slice_bytes_stream) (use d kL pos word in \<open>auto simp: i_def k_def L_def\<close>)
  have B': "slice_bytes sl' = map (\<lambda>n. n mod (v * L)) [v * (h + k' - k')..<v * (h + k')]"
    unfolding e(2) v_def L_def k'_def sum [unfolded k'_def, symmetric]
    by (rule slice_bytes_stream) (use kL pos word room' in \<open>auto simp: sum k'_def L_def\<close>)
  have "n mod (v * L) \<noteq> n' mod (v * L)" if "v * (i - k) \<le> n" "n < v * i" "v * h \<le> n'" "n' < v * (h + k')" for n n'
  proof
    assume eq: "n mod (v * L) = n' mod (v * L)"
    have "v * i \<le> v * h" using d(1) by simp
    with that have lt: "n < n'" by linarith
    have "h + k' \<le> (i - k) + L" using d e by linarith
    then have "v * (h + k') \<le> v * ((i - k) + L)" by (rule mult_left_mono) simp
    also have "\<dots> \<le> n + v * L" unfolding distrib_left using that by simp
    finally have "n' < n + v * L" using that by linarith
    with mod_eq_same_lap [OF eq] lt show False by simp
  qed
  then show ?thesis unfolding B B' by auto
qed


section \<open>Running the state machine\<close>

datatype cring_event =
    COpenEvent u64 u64
  | CWriteEvent nat nat u8
  | CCancelEvent
  | CStoreEvent
  | CSignalEvent

fun cring_exec :: "cring_event \<Rightarrow> cring \<Rightarrow> cring option" where
  "cring_exec (COpenEvent index count) s =
     (if \<not> cg_stored s \<and> cg_top s \<le> index \<and> index < index + cw_bufferLength (cg_writer s) \<and> 0 < count \<and> count \<le> index
      then (case openSamples (cg_writer s) index count of
              Ret (st, Some sl, w') \<Rightarrow>
                if st = MXL_STATUS_OK
                then Some (s\<lparr>cg_writer := w', cg_open := Some (index, count, sl), cg_top := index\<rparr>) else None
            | _ \<Rightarrow> None)
      else None)"
| "cring_exec (CWriteEvent c p b) s =
     (case cg_open s of
        Some (index, count, sl) \<Rightarrow>
          if \<not> cg_stored s \<and> c < channels s \<and> p < length (slice_bytes sl)
          then Some (s\<lparr>cg_mem := set_byte (c * unat (slice_stride sl) + slice_bytes sl ! p) b (cg_mem s),
                       cg_hist := (cg_hist s)(c := (cg_hist s c)
                         (unat (word_size s) * (unat index - unat count) + p \<mapsto> b))\<rparr>)
          else None
      | None \<Rightarrow> None)"
| "cring_exec CCancelEvent s =
     (if cg_stored s then None
      else Some (s\<lparr>cg_writer := snd (cancel_samples (cg_writer s)), cg_open := None\<rparr>))"
| "cring_exec CStoreEvent s =
     (if \<not> cg_stored s \<and> cg_open s \<noteq> None
      then Some (s\<lparr>cg_mem := store_head (cg_writer s) (cg_mem s), cg_stored := True\<rparr>) else None)"
| "cring_exec CSignalEvent s =
     (if cg_stored s
      then (case signalCompletedBatch ((cg_writer s)\<lparr>cw_currentIndex := MXL_UNDEFINED_INDEX\<rparr>) of
              Ret (signal, w') \<Rightarrow>
                Some (s\<lparr>cg_mem := (if signal then bump_counter (cg_mem s) else cg_mem s), cg_writer := w',
                        cg_stored := False, cg_open := None\<rparr>)
            | _ \<Rightarrow> None)
      else None)"

fun cring_run :: "cring_event list \<Rightarrow> cring \<Rightarrow> cring option" where
  "cring_run [] s = Some s"
| "cring_run (e # es) s = (case cring_exec e s of None \<Rightarrow> None | Some t \<Rightarrow> cring_run es t)"

lemma cring_exec_step: "cring_exec e s = Some t \<Longrightarrow> cring_step s t"
  by (cases e) (auto intro: cring_step.intros split: if_splits outcome.splits option.splits)

lemma cring_steps_Cons: "cring_steps t u \<Longrightarrow> cring_step s t \<Longrightarrow> cring_steps s u"
  by (induction rule: cring_steps.induct) (auto intro: cring_steps.intros)

lemma cring_run_steps: "cring_run es s = Some t \<Longrightarrow> cring_steps s t"
  by (induction es arbitrary: s) (auto intro: cring_refl cring_steps_Cons cring_exec_step split: option.splits)

lemma cring_run_the: "cring_run es s \<noteq> None \<Longrightarrow> cring_steps s (the (cring_run es s))"
  using cring_run_steps by auto

section \<open>Instances\<close>

definition ex_aflow :: Flow where
  "ex_aflow = zero_flow\<lparr>flow_info := (flow_info zero_flow)\<lparr>config :=
     \<lparr>common = zero_common\<lparr>cfg_format := 2, maxCommitBatchSizeHint := 1, maxSyncBatchSizeHint := 1\<rparr>,
      specific = ContinuousMember \<lparr>channelCount = 2, bufferLength = 4\<rparr>\<rparr>\<rparr>\<rparr>"

definition ex_cdata :: ContinuousFlowData where
  "ex_cdata = \<lparr>cd_mappedSize = 8, cd_sampleWordSize = 1\<rparr>"

definition ex_cwriter :: continuous_writer where
  "ex_cwriter = (case new_continuous_writer ex_cdata ex_aflow True of Ret w \<Rightarrow> w)"

definition ex_creader :: continuous_reader where
  "ex_creader = (case new_continuous_reader ex_cdata ex_aflow True of Ret r \<Rightarrow> r)"

definition ex_cring :: cring where
  "ex_cring = \<lparr>cg_mem = \<lparr>cm_flow = ex_aflow, cm_data = replicate 8 0\<rparr>, cg_writer = ex_cwriter, cg_stored = False,
     cg_open = None, cg_top = 0, cg_hist = (\<lambda>_ _. None)\<rparr>"

definition ex_c1 :: cring where
  "ex_c1 = the (cring_run [COpenEvent 3 2, CWriteEvent 1 0 7, CWriteEvent 1 1 8, CStoreEvent, CSignalEvent,
     COpenEvent 5 2, CWriteEvent 1 0 9, CWriteEvent 1 1 10, CStoreEvent, CSignalEvent] ex_cring)"

definition ex_c2 :: cring where
  "ex_c2 = the (cring_run [COpenEvent 7 2, CWriteEvent 1 0 11] ex_c1)"

lemma ex_cring_fresh: "fresh_cring ex_cring"
  by (simp add: fresh_cring_def ex_cring_def ex_cwriter_def new_continuous_writer_def ex_cdata_def word_size_def
      buf_len_def ring_bytes_def channels_def ex_aflow_def zero_flow_def flow_bufferLength_def flow_channelCount_def
      continuous_def cm_head_def zero_runtime_def Let_def)

lemma ex_c1_steps: "cring_steps ex_cring ex_c1"
  unfolding ex_c1_def by (rule cring_run_the) code_simp

lemma ex_c2_steps: "cring_steps ex_c1 ex_c2"
  unfolding ex_c2_def by (rule cring_run_the) code_simp

definition ex_slices :: mxlWrappedMultiBufferSlice where
  "ex_slices = (case getSamplesImpl ex_creader 5 2 True (cg_mem ex_c1) of Ret (st, Some sl) \<Rightarrow> sl)"

lemma reader_gets_written_samples_witness: "read_bytes (cg_mem ex_c2) ex_slices 1 = [9, 10]"
proof -
  have "reads_ring ex_creader ex_c1" "getSamplesImpl ex_creader 5 2 True (cg_mem ex_c1) = Ret (MXL_STATUS_OK, Some ex_slices)"
    "0 < unat (2 :: u64)" "unat (cg_top ex_c2) \<le> unat (cm_head (cg_mem ex_c1)) + buf_len ex_c1 div 2"
    by code_simp+
  note at = ex_cring_fresh ex_c1_steps ex_c2_steps this
  have "unat (word_size ex_c1) = 1" by code_simp
  moreover have "cg_hist ex_c2 1 n = Some (if n = 3 then 9 else 10)" if "3 \<le> n" "n < 5" for n
  proof -
    have "cg_hist ex_c2 1 3 = Some 9" "cg_hist ex_c2 1 4 = Some 10" by code_simp+
    moreover from that have "n = 3 \<or> n = 4" by linarith
    ultimately show ?thesis by auto
  qed
  ultimately have "read_bytes (cg_mem ex_c2) ex_slices 1
      = map (\<lambda>n. if n = 3 then 9 else 10) [unat (word_size ex_c1) * (unat (5 :: u64) - unat (2 :: u64))..<unat (word_size ex_c1) * unat (5 :: u64)]"
    by (intro reader_gets_written_samples [OF at]) simp_all
  with \<open>unat (word_size ex_c1) = 1\<close> show ?thesis by (simp add: upt_rec)
qed

lemma reader_and_writer_ranges_disjoint_witness:
  "\<exists>sl'. fst (case openSamples (cg_writer ex_c1) 7 2 of Ret (st, out, w) \<Rightarrow> (out, w)) = Some sl'
     \<and> set (slice_bytes ex_slices) \<inter> set (slice_bytes sl') = {}"
proof -
  define sl' where "sl' = (case openSamples (cg_writer ex_c1) 7 2 of Ret (st, out, w) \<Rightarrow> the out)"
  define w' where "w' = (case openSamples (cg_writer ex_c1) 7 2 of Ret (st, out, w) \<Rightarrow> w)"
  have op: "openSamples (cg_writer ex_c1) (cm_head (cg_mem ex_c1) + 2) 2 = Ret (MXL_STATUS_OK, Some sl', w')"
    unfolding sl'_def w'_def by code_simp
  have ok: "getSamplesImpl ex_creader 5 2 True (cg_mem ex_c1) = Ret (MXL_STATUS_OK, Some ex_slices)"
    by code_simp
  have at: "cw_bufferLength (cg_writer ex_c1) = 4" "cr_bufferLength ex_creader = 4"
    "map_option cd_sampleWordSize (cr_flowData ex_creader) = Some 1"
    "map_option cd_sampleWordSize (cw_flowData (cg_writer ex_c1)) = Some 1" "cm_head (cg_mem ex_c1) = 5"
    by code_simp+
  have "set (slice_bytes ex_slices) \<inter> set (slice_bytes sl') = {}"
    by (rule reader_and_writer_ranges_disjoint [OF ok op _ _ at(3)])
      (simp_all only: at, simp_all)
  moreover have "cm_head (cg_mem ex_c1) + 2 = 7" by code_simp
  ultimately show ?thesis using op by auto
qed

section \<open>Where the continuous flow falls short\<close>

datatype cw_event = OpenSamples u64 u64 | CommitSamples | CancelSamples

fun cw_exec :: "cw_event \<Rightarrow> continuous_writer \<times> continuous_mem \<Rightarrow> (continuous_writer \<times> continuous_mem) outcome" where
  "cw_exec (OpenSamples index count) (w, m) =
     obind (openSamples w index count) (\<lambda>(st, out, w'). Ret (w', m))"
| "cw_exec CommitSamples (w, m) = obind (commit_samples w m) (\<lambda>(st, w', m'). Ret (w', m'))"
| "cw_exec CancelSamples (w, m) = Ret (snd (cancel_samples w), m)"

fun cw_run :: "cw_event list \<Rightarrow> continuous_writer \<times> continuous_mem \<Rightarrow> (continuous_writer \<times> continuous_mem) outcome" where
  "cw_run [] s = Ret s"
| "cw_run (e # es) s = obind (cw_exec e s) (cw_run es)"

text \<open>
  The batch counter compares with the batch of the index, but \<open>commit\<close> has reset the index to
  2^64 - 1 by then: at most two signals are left, whatever is committed.
\<close>

definition last_batch :: "continuous_writer \<Rightarrow> u64" where
  "last_batch w = MXL_UNDEFINED_INDEX div ucast (cw_syncBatchSize w)"

definition signals_left :: "continuous_writer \<Rightarrow> nat" where
  "signals_left w =
     (if cw_lastSyncSampleBatch w < last_batch w then 2
      else if cw_lastSyncSampleBatch w = last_batch w then 1 else 0)"

lemma last_batch_Suc:
  fixes x y :: u64
  assumes "0 < x mod y"
  shows "x div y < x div y + 1"
proof -
  have x: "unat x < 2 ^ 64" using unsigned_less [where ?'a = nat and w = x] by simp
  have "unat x div unat y < 2 ^ 64 - 1"
  proof (cases "2 \<le> unat y")
    case True
    then have "unat x div unat y \<le> unat x div 2" by (intro div_le_mono2) auto
    also have "\<dots> < 2 ^ 64 - 1" using x by simp
    finally show ?thesis .
  next
    case False
    have "unat y \<noteq> 1"
    proof
      assume "unat y = 1"
      then have "unat (x mod y) = 0" by (simp add: unat_mod_distrib)
      with assms show False by (simp add: word_less_nat_alt)
    qed
    with False have "unat y = 0" by linarith
    then show ?thesis by simp
  qed
  then have "unat (x div y + 1) = unat (x div y) + 1"
    using unat_add_lt [of "x div y" 1] by (simp add: unat_div)
  then show ?thesis by (simp add: word_less_nat_alt)
qed

lemma commit_uses_signals:
  assumes "commit_samples w m = Ret (st, w', m')"
  shows "\<exists>n. cm_counter m' = cm_counter m + of_nat n \<and> signals_left w' + n \<le> signals_left w"
proof (cases "cw_flowData w = None")
  case True
  with assms show ?thesis
    by (intro exI [of _ 0]) (auto simp: commit_samples_def signals_left_def last_batch_def)
next
  case False
  let ?w = "w\<lparr>cw_currentIndex := MXL_UNDEFINED_INDEX\<rparr>"
  from assms False obtain signal where sg: "signalCompletedBatch ?w = Ret (signal, w')"
    and m': "cm_counter m' = cm_counter m + (if signal then 1 else 0)"
    by (auto simp: commit_samples_def Let_def obind_eq_Ret store_simps)
  have "signals_left w' + (if signal then 1 else 0) \<le> signals_left w"
    using sg last_batch_Suc [of MXL_UNDEFINED_INDEX "ucast (cw_syncBatchSize w)"]
      le_less_trans [OF word_zero_le, of "ucast (cw_earlySyncThreshold w)" "MXL_UNDEFINED_INDEX mod ucast (cw_syncBatchSize w)"]
    by (auto simp: signalCompletedBatch_def signals_left_def last_batch_def Let_def not_less_iff_gr_or_eq split: if_splits)
  then show ?thesis
    using m' by (intro exI [of _ "if signal then 1 else 0"]) simp
qed

lemma cw_exec_signals:
  assumes "cw_exec e (w, m) = Ret (w', m')"
  shows "\<exists>n. cm_counter m' = cm_counter m + of_nat n \<and> signals_left w' + n \<le> signals_left w"
proof (cases e)
  case (OpenSamples index count)
  with assms show ?thesis
    by (intro exI [of _ 0])
      (auto simp: openSamples_def obind_eq_Ret signals_left_def last_batch_def split: option.splits if_splits)
next
  case CommitSamples
  with assms obtain st where "commit_samples w m = Ret (st, w', m')" by (auto simp: obind_eq_Ret)
  from commit_uses_signals [OF this] show ?thesis .
next
  case CancelSamples
  with assms show ?thesis
    by (intro exI [of _ 0]) (auto simp: cancel_samples_def signals_left_def last_batch_def)
qed

lemma cw_run_signals:
  "cw_run es (w, m) = Ret (w', m') \<Longrightarrow>
     \<exists>n. cm_counter m' = cm_counter m + of_nat n \<and> signals_left w' + n \<le> signals_left w"
proof (induction es arbitrary: w m)
  case Nil
  then show ?case by (intro exI [of _ 0]) simp
next
  case (Cons e es)
  then obtain w1 m1 where one: "cw_exec e (w, m) = Ret (w1, m1)" and rest: "cw_run es (w1, m1) = Ret (w', m')"
    by (auto simp: obind_eq_Ret)
  obtain a where a: "cm_counter m1 = cm_counter m + of_nat a" "signals_left w1 + a \<le> signals_left w"
    using cw_exec_signals [OF one] by blast
  obtain b where b: "cm_counter m' = cm_counter m1 + of_nat b" "signals_left w' + b \<le> signals_left w1"
    using Cons.IH [OF rest] by blast
  from a b show ?case by (intro exI [of _ "a + b"]) simp
qed

text \<open>
  A continuous writer signals its readers at most twice in its lifetime: whatever sequence of open,
  commit and cancel it runs, the counter the readers sleep on moves by at most two.
\<close>

theorem continuous_writer_signals_at_most_twice:
  assumes "cw_run es (w, m) = Ret (w', m')"
  shows "\<exists>n\<le>2. cm_counter m' = cm_counter m + of_nat n"
proof -
  have "signals_left w \<le> 2" by (simp add: signals_left_def)
  with cw_run_signals [OF assms] show ?thesis
    by (meson add_leD2 order_trans)
qed

definition ex_commits :: "cw_event list" where
  "ex_commits = [OpenSamples 2 2, CommitSamples, OpenSamples 4 2, CommitSamples, OpenSamples 6 2, CommitSamples, OpenSamples 8 2, CommitSamples]"

lemma continuous_writer_signals_at_most_twice_witness:
  "\<exists>w' m'. cw_run ex_commits (ex_cwriter, cg_mem ex_cring) = Ret (w', m') \<and> cm_head m' = 8
     \<and> (\<exists>n\<le>2. cm_counter m' = cm_counter (cg_mem ex_cring) + of_nat n)"
proof -
  define r where "r = (case cw_run ex_commits (ex_cwriter, cg_mem ex_cring) of Ret r \<Rightarrow> r)"
  have run: "cw_run ex_commits (ex_cwriter, cg_mem ex_cring) = Ret (fst r, snd r)"
    unfolding r_def by code_simp
  moreover have "cm_head (snd r) = 8"
    unfolding r_def by code_simp
  ultimately show ?thesis
    using continuous_writer_signals_at_most_twice [OF run] by blast
qed

text \<open>
  A request for zero samples is answered with a wrapped fragment of almost 2^64 bytes: both fragment
  lengths cancel modulo 2^64, the first running to the end of the ring.
\<close>

theorem zero_count_slice_underflows:
  assumes "bufLen \<noteq> 0" and "unat index + unat bufLen < 2 ^ 64"
  shows "slice_size (fragment0 (wrapped_slices bufLen w ch index 0)) = w * (bufLen - index mod bufLen)
    \<and> slice_size (fragment1 (wrapped_slices bufLen w ch index 0)) = - (w * (bufLen - index mod bufLen))
    \<and> bufLen - index mod bufLen \<noteq> 0"
proof -
  have "unat (index + bufLen) = unat index + unat bufLen"
    using assms(2) by (intro unat_add_lt) simp
  then have "(index + bufLen) mod bufLen = index mod bufLen"
    by (simp add: word_unat_eq_iff unat_mod_distrib)
  moreover have "index mod bufLen < bufLen"
    using assms(1) by (simp add: word_mod_less_divisor word_neq_0_conv)
  ultimately show ?thesis
    by (auto simp: wrapped_slices_def Let_def)
qed

lemma zero_count_slice_underflows_witness:
  "slice_size (fragment1 (wrapped_slices 8 4 1 5 0)) = - (4 * (8 - 5 mod 8))"
  using zero_count_slice_underflows [of 8 5 4 1] by simp

end
