(* ===== verification/Json.thy ===== *)
theory Json
  imports Complex_Main FlowTypes
begin

text \<open>
  JSON values as the parsers see them and the services of other libraries they call. Parsing JSON
  text and converting UUIDs to and from text is third-party code, a record of functions here. A
  number is the rational a finite double stands for; converting one to an integer truncates it,
  and is undefined (\<open>CastOutOfRange\<close>) when the integer type cannot hold it. Asking a value for
  the wrong type throws \<open>std::runtime_error\<close>, as the library documents.
\<close>

datatype json =
    JNull
  | JBool bool
  | JNum rat
  | JStr string
  | JArr "json list"
  | JObj "(string \<times> json) list"

record services =
  sv_parse :: "string \<Rightarrow> json option"
  sv_uuid_from_string :: "string \<Rightarrow> uuid option"
  sv_uuid_to_string :: "uuid \<Rightarrow> string"

section \<open>Typed access\<close>

fun json_number :: "json \<Rightarrow> rat outcome" where
  "json_number (JNum r) = Ret r"
| "json_number _ = Throw RuntimeError"

fun json_string :: "json \<Rightarrow> string outcome" where
  "json_string (JStr s) = Ret s"
| "json_string _ = Throw RuntimeError"

fun json_array :: "json \<Rightarrow> json list outcome" where
  "json_array (JArr a) = Ret a"
| "json_array _ = Throw RuntimeError"

fun json_object :: "json \<Rightarrow> (string \<times> json) list outcome" where
  "json_object (JObj ob) = Ret ob"
| "json_object _ = Throw RuntimeError"

definition testField :: "(string \<times> json) list \<Rightarrow> string \<Rightarrow> json outcome" where
  "testField ob fld = (case map_of ob fld of None \<Rightarrow> Throw InvalidArgument | Some v \<Rightarrow> Ret v)"

definition fetchAs :: "(json \<Rightarrow> 'a outcome) \<Rightarrow> (string \<times> json) list \<Rightarrow> string \<Rightarrow> 'a outcome" where
  "fetchAs conv ob fld = obind (testField ob fld) conv"

definition parse_object :: "services \<Rightarrow> string \<Rightarrow> (string \<times> json) list outcome" where
  "parse_object sv s =
     (case sv_parse sv s of
        None \<Rightarrow> Throw InvalidArgument
      | Some v \<Rightarrow> (case v of JObj ob \<Rightarrow> Ret ob | _ \<Rightarrow> Throw InvalidArgument))"

section \<open>Conversions of numbers\<close>

definition trunc_rat :: "rat \<Rightarrow> int" where
  "trunc_rat r = (if 0 \<le> r then \<lfloor>r\<rfloor> else \<lceil>r\<rceil>)"

definition cast_u64 :: "rat \<Rightarrow> u64 outcome" where
  "cast_u64 r = (let t = trunc_rat r in if 0 \<le> t \<and> t < 2 ^ 64 then Ret (word_of_int t) else Crash CastOutOfRange)"

definition cast_u32 :: "rat \<Rightarrow> u32 outcome" where
  "cast_u32 r = (let t = trunc_rat r in if 0 \<le> t \<and> t < 2 ^ 32 then Ret (word_of_int t) else Crash CastOutOfRange)"

definition cast_i64 :: "rat \<Rightarrow> int outcome" where
  "cast_i64 r = (let t = trunc_rat r in if i64_ok t then Ret t else Crash CastOutOfRange)"

lemma fetchAs_Ret [outcome_simps]:
  "fetchAs conv ob fld = Ret a \<longleftrightarrow> (\<exists>v. map_of ob fld = Some v \<and> conv v = Ret a)"
  by (auto simp: fetchAs_def testField_def split: option.splits)

lemma json_Ret [outcome_simps]:
  "json_number v = Ret r \<longleftrightarrow> v = JNum r"
  "json_string v = Ret s \<longleftrightarrow> v = JStr s"
  "json_array v = Ret a \<longleftrightarrow> v = JArr a"
  "json_object v = Ret ob \<longleftrightarrow> v = JObj ob"
  by (cases v; simp)+

lemma cast_u32_pos:
  assumes "cast_u32 r = Ret w" and "1 \<le> r"
  shows "1 \<le> w"
proof -
  have t: "1 \<le> trunc_rat r"
    using assms(2) by (simp add: trunc_rat_def le_floor_iff)
  with assms(1) have "w = word_of_int (trunc_rat r)" "trunc_rat r < 2 ^ 32"
    by (auto simp: cast_u32_def Let_def split: if_splits)
  with t show ?thesis
    by (simp add: word_le_def uint_word_of_int)
qed

end
