(* ===== verification/FlowOptions.thy ===== *)
theory FlowOptions
  imports Json
begin

text \<open>
  The options a caller may give when it creates a flow (\<open>FlowOptionsParser.cpp\<close>): two batch size
  hints, each at least one, the sync hint a multiple of the commit hint.
\<close>

record FlowOptionsParser =
  op_maxSyncBatchSizeHint :: "u32 option"
  op_maxCommitBatchSizeHint :: "u32 option"
  op_root :: "(string \<times> json) list"

definition no_options :: FlowOptionsParser where
  "no_options = \<lparr>op_maxSyncBatchSizeHint = None, op_maxCommitBatchSizeHint = None, op_root = []\<rparr>"

text \<open>One hint: absent, or a number that is at least one.\<close>

definition parse_hint :: "(string \<times> json) list \<Rightarrow> string \<Rightarrow> u32 option outcome" where
  "parse_hint jroot key =
     (case map_of jroot key of
        None \<Rightarrow> Ret None
      | Some v \<Rightarrow>
          (case v of
             JNum r \<Rightarrow> if r < 1 then Throw InvalidArgument else obind (cast_u32 r) (\<lambda>w. Ret (Some w))
           | _ \<Rightarrow> Throw InvalidArgument))"

definition FlowOptionsParser_new :: "services \<Rightarrow> string \<Rightarrow> FlowOptionsParser outcome" where
  "FlowOptionsParser_new sv in_options =
     (if in_options = [] then Ret no_options
      else obind (parse_object sv in_options) (\<lambda>jroot.
        obind (parse_hint jroot ''maxCommitBatchSizeHint'') (\<lambda>commit.
        obind (parse_hint jroot ''maxSyncBatchSizeHint'') (\<lambda>sync.
          let m = (case commit of None \<Rightarrow> 1 | Some c \<Rightarrow> c) in
          case sync of
            None \<Rightarrow> Ret \<lparr>op_maxSyncBatchSizeHint = None, op_maxCommitBatchSizeHint = commit, op_root = jroot\<rparr>
          | Some s \<Rightarrow>
              if m = 0 then Crash DivisionByZero
              else if s mod m \<noteq> 0 then Throw InvalidArgument
              else Ret \<lparr>op_maxSyncBatchSizeHint = Some s, op_maxCommitBatchSizeHint = commit, op_root = jroot\<rparr>))))"

lemma parse_hint_ge_1: "parse_hint jroot key = Ret (Some w) \<Longrightarrow> 1 \<le> w"
  by (auto simp: parse_hint_def obind_eq_Ret not_less dest: cast_u32_pos split: option.splits json.splits if_splits)

text \<open>
  The options parser never divides by zero, and what it accepts satisfies the documented
  contract: each hint that is present is at least one, and the sync hint is a multiple of the
  commit hint (of one, when no commit hint is given).
\<close>

theorem options_contract:
  "FlowOptionsParser_new sv s \<noteq> Crash DivisionByZero
   \<and> (\<forall>p. FlowOptionsParser_new sv s = Ret p \<longrightarrow>
        (\<forall>c. op_maxCommitBatchSizeHint p = Some c \<longrightarrow> 1 \<le> c)
      \<and> (\<forall>y. op_maxSyncBatchSizeHint p = Some y \<longrightarrow>
           1 \<le> y \<and> y mod (case op_maxCommitBatchSizeHint p of None \<Rightarrow> 1 | Some c \<Rightarrow> c) = 0))"
proof (rule conjI)
  have cast: "cast_u32 r \<noteq> Crash DivisionByZero" for r
    by (simp add: cast_u32_def Let_def)
  have hint: "parse_hint jroot key \<noteq> Crash DivisionByZero" for jroot key
    by (auto simp: parse_hint_def obind_eq_Crash cast split: option.splits json.splits)
  have "parse_object sv s \<noteq> Crash DivisionByZero"
    by (auto simp: parse_object_def split: option.splits json.splits)
  moreover have nz: "parse_hint jroot key \<noteq> Ret (Some 0)" for jroot key
    using parse_hint_ge_1 [of jroot key 0] by auto
  ultimately show "FlowOptionsParser_new sv s \<noteq> Crash DivisionByZero"
    using hint nz by (auto simp: FlowOptionsParser_new_def obind_eq_Crash Let_def split: option.splits if_splits)
next
  have "(\<forall>c. op_maxCommitBatchSizeHint p = Some c \<longrightarrow> 1 \<le> c)
      \<and> (\<forall>y. op_maxSyncBatchSizeHint p = Some y \<longrightarrow>
           1 \<le> y \<and> y mod (case op_maxCommitBatchSizeHint p of None \<Rightarrow> 1 | Some c \<Rightarrow> c) = 0)"
    if "FlowOptionsParser_new sv s = Ret p" for p
  proof (cases "s = []")
    case True
    with that show ?thesis by (auto simp: FlowOptionsParser_new_def no_options_def)
  next
    case False
    with that obtain rt commit sync where
      h: "parse_hint rt ''maxCommitBatchSizeHint'' = Ret commit" "parse_hint rt ''maxSyncBatchSizeHint'' = Ret sync"
      and p: "(let m = (case commit of None \<Rightarrow> 1 | Some c \<Rightarrow> c) in
          case sync of
            None \<Rightarrow> Ret \<lparr>op_maxSyncBatchSizeHint = None, op_maxCommitBatchSizeHint = commit, op_root = rt\<rparr>
          | Some s \<Rightarrow>
              if m = 0 then Crash DivisionByZero
              else if s mod m \<noteq> 0 then Throw InvalidArgument
              else Ret \<lparr>op_maxSyncBatchSizeHint = Some s, op_maxCommitBatchSizeHint = commit, op_root = rt\<rparr>) = Ret p"
      by (simp only: FlowOptionsParser_new_def if_False) (elim obind_RetE, blast)
    from p have "op_maxCommitBatchSizeHint p = commit" "op_maxSyncBatchSizeHint p = sync"
      "\<forall>y. sync = Some y \<longrightarrow> y mod (case commit of None \<Rightarrow> 1 | Some c \<Rightarrow> c) = 0"
      by (cases sync; simp add: Let_def split: if_splits; force)+
    with h show ?thesis by (metis parse_hint_ge_1)
  qed
  then show "\<forall>p. FlowOptionsParser_new sv s = Ret p \<longrightarrow>
        (\<forall>c. op_maxCommitBatchSizeHint p = Some c \<longrightarrow> 1 \<le> c)
      \<and> (\<forall>y. op_maxSyncBatchSizeHint p = Some y \<longrightarrow>
           1 \<le> y \<and> y mod (case op_maxCommitBatchSizeHint p of None \<Rightarrow> 1 | Some c \<Rightarrow> c) = 0)"
    by blast
qed

definition ex_services :: services where
  "ex_services = \<lparr>
     sv_parse = (\<lambda>s. if s = ''opts'' then Some (JObj [(''maxCommitBatchSizeHint'', JNum 48), (''maxSyncBatchSizeHint'', JNum 480)])
                     else None),
     sv_uuid_from_string = (\<lambda>s. if length s = 16 then Some (map (\<lambda>c. of_nat (of_char c)) s) else None),
     sv_uuid_to_string = map (\<lambda>w. char_of (unat w))\<rparr>"

lemma options_contract_witness:
  "FlowOptionsParser_new ex_services ''opts''
     = Ret \<lparr>op_maxSyncBatchSizeHint = Some 480, op_maxCommitBatchSizeHint = Some 48,
            op_root = [(''maxCommitBatchSizeHint'', JNum 48), (''maxSyncBatchSizeHint'', JNum 480)]\<rparr>
   \<and> (480 :: u32) mod 48 = 0"
proof -
  have "FlowOptionsParser_new ex_services ''opts''
     = Ret \<lparr>op_maxSyncBatchSizeHint = Some 480, op_maxCommitBatchSizeHint = Some 48,
            op_root = [(''maxCommitBatchSizeHint'', JNum 48), (''maxSyncBatchSizeHint'', JNum 480)]\<rparr>"
    by (simp add: FlowOptionsParser_new_def parse_object_def ex_services_def parse_hint_def cast_u32_def trunc_rat_def Let_def)
  with options_contract [of ex_services "''opts''"] show ?thesis by simp
qed

end
