(* ===== verification/FlowParser.thy ===== *)
theory FlowParser
  imports FlowOptions
begin

text \<open>
  The parser of NMOS flow definitions (\<open>FlowParser.cpp\<close>): which definitions it accepts and what it
  derives from them, the rate, the size of a grain or sample, its slices and planes, and the number
  of channels. The lemmas show that what is derived fits together: slices tile the payload and fit
  the integer types of the headers.
\<close>

section \<open>Formats, rates and group hints\<close>

definition FORMAT_PREFIX :: string where
  "FORMAT_PREFIX = ''urn:x-nmos:format:''"

definition translateFlowFormat :: "string \<Rightarrow> mxlDataFormat" where
  "translateFlowFormat fmt =
     (if take (length FORMAT_PREFIX) fmt = FORMAT_PREFIX then
        let tl = drop (length FORMAT_PREFIX) fmt
        in if tl = ''video'' then MXL_DATA_FORMAT_VIDEO
           else if tl = ''audio'' then MXL_DATA_FORMAT_AUDIO
           else if tl = ''data'' then MXL_DATA_FORMAT_DATA
           else MXL_DATA_FORMAT_UNSPECIFIED
      else MXL_DATA_FORMAT_UNSPECIFIED)"

definition extractRational :: "(string \<times> json) list \<Rightarrow> mxlRational outcome" where
  "extractRational ob =
     obind (obind (fetchAs json_number ob ''numerator'') cast_i64) (\<lambda>n.
     obind (case map_of ob ''denominator'' of None \<Rightarrow> Ret 1 | Some v \<Rightarrow> obind (json_number v) cast_i64) (\<lambda>d.
       let g = gcd n d in
       if g \<noteq> 0 then Ret \<lparr>numerator = n sdiv g, denominator = d sdiv g\<rparr>
       else Ret \<lparr>numerator = n, denominator = d\<rparr>))"

text \<open>\<open>std::views::split\<close> at colons: no part at all for the empty string.\<close>

fun split_parts :: "string \<Rightarrow> string list" where
  "split_parts [] = [[]]"
| "split_parts (c # cs) =
     (if c = CHR '':'' then [] # split_parts cs
      else (case split_parts cs of [] \<Rightarrow> [[c]] | p # ps \<Rightarrow> (c # p) # ps))"

definition split_colon :: "string \<Rightarrow> string list" where
  "split_colon s = (if s = [] then [] else split_parts s)"

fun valid_group_hint :: "json \<Rightarrow> bool" where
  "valid_group_hint (JStr s) =
     (let vec = split_colon s in
      if length vec < 2 \<or> 3 < length vec then False
      else if vec ! 0 = [] \<or> vec ! 1 = [] then False
      else if length vec = 3 then vec ! 2 = ''device'' \<or> vec ! 2 = ''node''
      else True)"
| "valid_group_hint _ = False"

definition validateGroupHint :: "(string \<times> json) list \<Rightarrow> bool" where
  "validateGroupHint ob =
     (case obind (fetchAs json_object ob ''tags'') (\<lambda>tags.
             fetchAs json_array tags ''urn:x-nmos:tag:grouphint/v1.0'') of
        Ret hints \<Rightarrow> if hints = [] then False else list_all valid_group_hint hints
      | Throw e \<Rightarrow> False
      | Crash c \<Rightarrow> False)"

section \<open>The constructor\<close>

record FlowParser =
  fp_id :: uuid
  fp_format :: mxlDataFormat
  fp_interlaced :: bool
  fp_grainRate :: mxlRational
  fp_root :: "(string \<times> json) list"

definition MAX_WIDTH :: u64 where "MAX_WIDTH = 7680"
definition MAX_HEIGHT :: u64 where "MAX_HEIGHT = 4320"

definition fetch_size :: "(string \<times> json) list \<Rightarrow> string \<Rightarrow> u64 outcome" where
  "fetch_size ob fld = obind (fetchAs json_number ob fld) cast_u64"

definition parse_rate :: "mxlDataFormat \<Rightarrow> (string \<times> json) list \<Rightarrow> mxlRational outcome" where
  "parse_rate fmt ob =
     (if mxlIsDiscreteDataFormat (format_code fmt)
      then obind (fetchAs json_object ob ''grain_rate'') extractRational
      else if fmt = MXL_DATA_FORMAT_AUDIO
      then obind (fetchAs json_object ob ''sample_rate'') extractRational
      else Throw DomainError)"

text \<open>The checks of a video flow: dimensions, interlace mode, and the rate of an interlaced flow.\<close>

definition check_video :: "(string \<times> json) list \<Rightarrow> mxlRational \<Rightarrow> (bool \<times> mxlRational) outcome" where
  "check_video ob rate =
     obind (fetch_size ob ''frame_width'') (\<lambda>width.
     obind (fetch_size ob ''frame_height'') (\<lambda>height.
       if width < 2 \<or> MAX_WIDTH < width \<or> height < 1 \<or> MAX_HEIGHT < height then Throw InvalidArgument
       else obind (case map_of ob ''interlace_mode'' of None \<Rightarrow> Ret ''progressive'' | Some v \<Rightarrow> json_string v) (\<lambda>mode.
         if mode \<noteq> ''progressive'' \<and> mode \<noteq> ''interlaced_tff'' \<and> mode \<noteq> ''interlaced_bff'' then Throw InvalidArgument
         else if mode = ''interlaced_tff'' \<or> mode = ''interlaced_bff'' then
           if rational_neq rate \<lparr>numerator = 30000, denominator = 1001\<rparr>
              \<and> rational_neq rate \<lparr>numerator = 25, denominator = 1\<rparr>
           then Throw InvalidArgument
           else Ret (True, rate\<lparr>numerator := wrap64 (numerator rate * 2)\<rparr>)
         else Ret (False, rate))))"

definition FlowParser_new :: "services \<Rightarrow> string \<Rightarrow> FlowParser outcome" where
  "FlowParser_new sv in_flowDef =
     obind (parse_object sv in_flowDef) (\<lambda>ob.
     obind (fetchAs json_string ob ''id'') (\<lambda>ids.
       case sv_uuid_from_string sv ids of
         None \<Rightarrow> Throw InvalidArgument
       | Some fid \<Rightarrow>
           obind (fetchAs json_string ob ''format'') (\<lambda>fs.
           let fmt = translateFlowFormat fs in
           obind (parse_rate fmt ob) (\<lambda>rate.
           obind (fetchAs json_string ob ''label'') (\<lambda>lbl.
             if lbl = [] then Throw DomainError
             else if \<not> validateGroupHint ob then Throw DomainError
             else if fmt = MXL_DATA_FORMAT_VIDEO
             then obind (check_video ob rate) (\<lambda>(interlaced, rate').
                    Ret \<lparr>fp_id = fid, fp_format = fmt, fp_interlaced = interlaced, fp_grainRate = rate', fp_root = ob\<rparr>)
             else Ret \<lparr>fp_id = fid, fp_format = fmt, fp_interlaced = False, fp_grainRate = rate, fp_root = ob\<rparr>)))))"

section \<open>What is derived\<close>

definition video_payload :: "FlowParser \<Rightarrow> u64 \<Rightarrow> u64 \<Rightarrow> string \<Rightarrow> u64 outcome" where
  "video_payload p width height mediaType =
     (let h = (if fp_interlaced p then height div 2 else height) in
      if mediaType = ''video/v210'' then
        if \<not> fp_interlaced p \<or> height mod 2 = 0 then Ret (ucast (getV210LineLength width) * h)
        else Throw InvalidArgument
      else if mediaType = ''video/v210a'' then
        if \<not> fp_interlaced p \<or> height mod 2 = 0
        then Ret (ucast (getV210LineLength width) * h + ucast (get10BitAlphaLineLength width) * h)
        else Throw InvalidArgument
      else Throw InvalidArgument)"

definition getPayloadSize :: "FlowParser \<Rightarrow> u64 outcome" where
  "getPayloadSize p =
     (case fp_format p of
        MXL_DATA_FORMAT_VIDEO \<Rightarrow>
          obind (fetch_size (fp_root p) ''frame_width'') (\<lambda>width.
          obind (fetch_size (fp_root p) ''frame_height'') (\<lambda>height.
          obind (fetchAs json_string (fp_root p) ''media_type'') (video_payload p width height)))
      | MXL_DATA_FORMAT_DATA \<Rightarrow>
          obind (fetchAs json_string (fp_root p) ''media_type'') (\<lambda>mediaType.
            if mediaType = ''video/smpte291'' then Ret 4096 else Throw InvalidArgument)
      | MXL_DATA_FORMAT_AUDIO \<Rightarrow>
          obind (fetchAs json_number (fp_root p) ''bit_depth'') (\<lambda>bitDepth.
            if bitDepth \<noteq> 32 \<and> bitDepth \<noteq> 64 then Throw InvalidArgument
            else obind (cast_u64 bitDepth) (\<lambda>b. Ret (b div 8)))
      | MXL_DATA_FORMAT_UNSPECIFIED \<Rightarrow> Throw InvalidArgument)"

definition getPayloadSliceLengths :: "FlowParser \<Rightarrow> u32 list outcome" where
  "getPayloadSliceLengths p =
     (case fp_format p of
        MXL_DATA_FORMAT_DATA \<Rightarrow> Ret [1, 0, 0, 0]
      | MXL_DATA_FORMAT_VIDEO \<Rightarrow>
          obind (fetch_size (fp_root p) ''frame_width'') (\<lambda>width.
          obind (fetchAs json_string (fp_root p) ''media_type'') (\<lambda>mediaType.
            if mediaType = ''video/v210'' then Ret [getV210LineLength width, 0, 0, 0]
            else if mediaType = ''video/v210a''
            then Ret [getV210LineLength width, get10BitAlphaLineLength width, 0, 0]
            else Throw InvalidArgument))
      | _ \<Rightarrow> Throw InvalidArgument)"

definition getTotalPayloadSlices :: "FlowParser \<Rightarrow> u64 outcome" where
  "getTotalPayloadSlices p =
     (case fp_format p of
        MXL_DATA_FORMAT_DATA \<Rightarrow> Ret 4096
      | MXL_DATA_FORMAT_VIDEO \<Rightarrow>
          obind (fetchAs json_string (fp_root p) ''media_type'') (\<lambda>mediaType.
            if mediaType \<noteq> ''video/v210'' \<and> mediaType \<noteq> ''video/v210a'' then Throw InvalidArgument
            else obind (fetch_size (fp_root p) ''frame_height'') (\<lambda>h.
              Ret (if fp_interlaced p then h div 2 else h)))
      | _ \<Rightarrow> Throw InvalidArgument)"

definition getChannelCount :: "FlowParser \<Rightarrow> u64 outcome" where
  "getChannelCount p =
     (case map_of (fp_root p) ''channel_count'' of
        None \<Rightarrow> Ret 1
      | Some v \<Rightarrow>
          (case v of
             JNum r \<Rightarrow> if r = of_int (trunc_rat r) \<and> 0 < r then cast_u64 r else Throw InvalidArgument
           | _ \<Rightarrow> Throw InvalidArgument))"

definition parser_get :: "(json \<Rightarrow> 'a outcome) \<Rightarrow> FlowParser \<Rightarrow> string \<Rightarrow> 'a outcome" where
  "parser_get conv p fld = fetchAs conv (fp_root p) fld"

section \<open>What an accepted definition guarantees\<close>

definition parsed_ok :: "FlowParser \<Rightarrow> bool" where
  "parsed_ok p \<longleftrightarrow>
     mxlIsSupportedDataFormat (format_code (fp_format p))
     \<and> (fp_interlaced p \<longrightarrow> fp_format p = MXL_DATA_FORMAT_VIDEO)
     \<and> validateGroupHint (fp_root p)
     \<and> (fp_format p = MXL_DATA_FORMAT_VIDEO \<longrightarrow>
          (\<exists>width height. fetch_size (fp_root p) ''frame_width'' = Ret width \<and> 2 \<le> width \<and> width \<le> 7680
             \<and> fetch_size (fp_root p) ''frame_height'' = Ret height \<and> height \<noteq> 0 \<and> height \<le> 4320))"

lemma check_video_ok:
  assumes "check_video ob rate = Ret r"
  shows "\<exists>width height. fetch_size ob ''frame_width'' = Ret width \<and> 2 \<le> width \<and> width \<le> 7680
    \<and> fetch_size ob ''frame_height'' = Ret height \<and> height \<noteq> 0 \<and> height \<le> 4320"
  using assms unfolding check_video_def MAX_WIDTH_def MAX_HEIGHT_def
  by (elim obind_RetE) (auto simp: not_less split: if_splits)

lemma parse_rate_format: "parse_rate fmt ob = Ret r \<Longrightarrow> mxlIsSupportedDataFormat (format_code fmt)"
  by (cases fmt) (auto simp: parse_rate_def mxlIsDiscreteDataFormat_def mxlIsSupportedDataFormat_def split: if_splits)

lemma FlowParser_new_ok:
  assumes "FlowParser_new sv s = Ret p"
  shows "parsed_ok p"
proof -
  have sup: "mxlIsSupportedDataFormat 1" by (simp add: mxlIsSupportedDataFormat_def)
  have video: "fp_format p = MXL_DATA_FORMAT_VIDEO \<Longrightarrow> \<exists>rate r. check_video (fp_root p) rate = Ret r"
    and rest: "mxlIsSupportedDataFormat (format_code (fp_format p)) \<and> validateGroupHint (fp_root p)
      \<and> (fp_interlaced p \<longrightarrow> fp_format p = MXL_DATA_FORMAT_VIDEO)"
    using assms unfolding FlowParser_new_def Let_def
    by (elim obind_RetE; auto split: option.splits if_splits elim!: obind_RetE intro: sup parse_rate_format)+
  from rest show ?thesis
    unfolding parsed_ok_def using video check_video_ok by blast
qed


lemma video_sizes:
  assumes "2 \<le> width" "width \<le> 7680" "h \<le> 4320"
  shows "unat (ucast (getV210LineLength width) * h :: u64) = unat (getV210LineLength width) * unat h"
    and "unat (ucast (get10BitAlphaLineLength width) * h :: u64) = unat (get10BitAlphaLineLength width) * unat h"
    and "unat (ucast (getV210LineLength width) * h + ucast (get10BitAlphaLineLength width) * h :: u64)
      = (unat (getV210LineLength width) + unat (get10BitAlphaLineLength width)) * unat h"
    and "(unat (getV210LineLength width) + unat (get10BitAlphaLineLength width)) * unat h < 2 ^ 32"
proof -
  have w: "unat width \<le> 7680" and h: "unat h \<le> 4320" using assms by (auto simp: word_le_nat_alt)
  have "unat width \<le> 2 ^ 24" using w by simp
  note ll = unat_getV210LineLength [OF this] unat_get10BitAlphaLineLength [OF this]
  have "(unat width + 47) div 48 \<le> 160" "(unat width + 2) div 3 \<le> 2560"
    using div_le_mono [OF add_right_mono [OF w], of 47 48] div_le_mono [OF add_right_mono [OF w], of 2 3] by simp_all
  then have a: "unat (getV210LineLength width) \<le> 20480" "unat (get10BitAlphaLineLength width) \<le> 10240"
    unfolding ll by simp_all
  have m: "unat (getV210LineLength width) * unat h \<le> 20480 * 4320"
    "unat (get10BitAlphaLineLength width) * unat h \<le> 10240 * 4320"
    by (rule mult_le_mono [OF a(1) h], rule mult_le_mono [OF a(2) h])
  show 1: "unat (ucast (getV210LineLength width) * h :: u64) = unat (getV210LineLength width) * unat h"
    using m by (subst unat_mult_lt) auto
  show 2: "unat (ucast (get10BitAlphaLineLength width) * h :: u64) = unat (get10BitAlphaLineLength width) * unat h"
    using m by (subst unat_mult_lt) auto
  show "unat (ucast (getV210LineLength width) * h + ucast (get10BitAlphaLineLength width) * h :: u64)
      = (unat (getV210LineLength width) + unat (get10BitAlphaLineLength width)) * unat h"
    using m by (subst unat_add_lt) (auto simp: 1 2 add_mult_distrib)
  show "(unat (getV210LineLength width) + unat (get10BitAlphaLineLength width)) * unat h < 2 ^ 32"
    using m by (simp add: add_mult_distrib)
qed

lemma video_sizes_v210:
  fixes width h :: u64
  assumes "2 \<le> width" "width \<le> 7680" "h \<le> 4320"
  shows "unat (getV210LineLength width) * unat h < 2 ^ 32"
  using video_sizes(4) [OF assms] by (simp add: add_mult_distrib)

text \<open>
  C8: For every accepted definition the slices tile the grain: the payload size is the number of
  slices times the bytes of a slice over all planes, computed without overflow, there is at least
  one slice, and both numbers fit the fields of the grain header (16 and 32 bits). This holds for
  progressive and interlaced video, with and without an alpha plane, and for data flows.
\<close>

theorem slices_tile_payload:
  assumes new: "FlowParser_new sv s = Ret p" and sz0: "getPayloadSize p = Ret bytes"
    and lens: "getPayloadSliceLengths p = Ret lens" and slices: "getTotalPayloadSlices p = Ret slices"
  shows "unat bytes = sum_list (map unat lens) * unat slices \<and> 0 < unat slices \<and> unat slices < 2 ^ 16 \<and> unat bytes < 2 ^ 32"
proof (cases "fp_format p")
  case MXL_DATA_FORMAT_VIDEO
  with FlowParser_new_ok [OF new] obtain width height where
    w: "fetch_size (fp_root p) ''frame_width'' = Ret width" "2 \<le> width" "width \<le> 7680" and
    h: "fetch_size (fp_root p) ''frame_height'' = Ret height" "height \<noteq> 0" "height \<le> 4320"
    by (auto simp: parsed_ok_def)
  define hh where "hh = (if fp_interlaced p then height div 2 else height)"
  have t: "slices = hh"
    using slices MXL_DATA_FORMAT_VIDEO h(1)
    by (auto simp: getTotalPayloadSlices_def hh_def elim!: obind_RetE split: if_splits)
  have hle: "hh \<le> 4320" and hn: "unat hh \<le> 4320"
    using h(3) div_le_dividend [of "unat height" 2] by (auto simp: hh_def word_le_nat_alt unat_div)
  obtain mt where mt: "fetchAs json_string (fp_root p) ''media_type'' = Ret mt"
    and sz: "video_payload p width height mt = Ret bytes"
    using sz0 MXL_DATA_FORMAT_VIDEO w(1) h(1) by (auto simp: getPayloadSize_def elim!: obind_RetE)
  have even: "fp_interlaced p \<longrightarrow> height mod 2 = 0"
    using sz by (auto simp: video_payload_def Let_def split: if_splits)
  have hpos: "0 < unat hh"
  proof (cases "fp_interlaced p")
    case True
    with even have "unat height mod 2 = 0" by (auto simp: word_unat_eq_iff unat_mod_distrib)
    moreover have "unat height \<noteq> 0" using h(2) by (simp add: unat_eq_zero)
    ultimately have "2 \<le> unat height" by (cases "unat height = 1") auto
    with True show ?thesis by (simp add: hh_def unat_div)
  next
    case False
    with h(2) show ?thesis by (simp add: hh_def unat_gt_0)
  qed
  note vs = video_sizes [OF w(2,3) hle] video_sizes_v210 [OF w(2,3) hle]
  show ?thesis
    using sz lens MXL_DATA_FORMAT_VIDEO w(1) mt vs hpos hn t
    by (auto simp: getPayloadSliceLengths_def video_payload_def Let_def hh_def [symmetric] elim!: obind_RetE split: if_splits)
next
  case MXL_DATA_FORMAT_DATA
  with assms show ?thesis
    by (auto simp: getPayloadSize_def getPayloadSliceLengths_def getTotalPayloadSlices_def elim!: obind_RetE split: if_splits)
qed (use lens in \<open>simp_all add: getPayloadSliceLengths_def\<close>)

text \<open>
  C9: The constructor of the parser is a filter: it succeeds only on definitions whose format is
  supported, whose group hints are all well formed, and, for video, whose dimensions are in range;
  only video is ever interlaced.
\<close>

theorem parser_accepts_supported_flows:
  assumes "FlowParser_new sv s = Ret p"
  shows "mxlIsSupportedDataFormat (format_code (fp_format p)) \<and> validateGroupHint (fp_root p)
    \<and> (fp_interlaced p \<longrightarrow> fp_format p = MXL_DATA_FORMAT_VIDEO)
    \<and> (fp_format p = MXL_DATA_FORMAT_VIDEO \<longrightarrow>
         (\<exists>w h. fetch_size (fp_root p) ''frame_width'' = Ret w \<and> 2 \<le> w \<and> w \<le> 7680
              \<and> fetch_size (fp_root p) ''frame_height'' = Ret h \<and> h \<noteq> 0 \<and> h \<le> 4320))"
  using FlowParser_new_ok [OF assms] by (simp add: parsed_ok_def)

section \<open>Instances\<close>

definition ex_video :: "int \<Rightarrow> json" where
  "ex_video den = JObj [
     (''id'', JStr ''0123456789abcdef''), (''format'', JStr ''urn:x-nmos:format:video''),
     (''grain_rate'', JObj [(''numerator'', JNum 25), (''denominator'', JNum (of_int den))]), (''label'', JStr ''cam''),
     (''tags'', JObj [(''urn:x-nmos:tag:grouphint/v1.0'', JArr [JStr ''studio:video:device''])]),
     (''frame_width'', JNum 1920), (''frame_height'', JNum 1080), (''media_type'', JStr ''video/v210a''),
     (''interlace_mode'', JStr (if den = 1 then ''interlaced_tff'' else ''progressive''))]"

definition ex_parser_services :: services where
  "ex_parser_services = ex_services\<lparr>sv_parse := (\<lambda>s. if s = ''v'' then Some (ex_video 1) else if s = ''z'' then Some (ex_video 0) else None)\<rparr>"

definition ex_parser :: "string \<Rightarrow> FlowParser" where
  "ex_parser s = (case FlowParser_new ex_parser_services s of Ret p \<Rightarrow> p)"

lemma ex_parser_ok: "FlowParser_new ex_parser_services ''v'' = Ret (ex_parser ''v'')"
  by code_simp

lemma slices_tile_payload_witness:
  "\<exists>bytes (lens :: u32 list) slices. getPayloadSize (ex_parser ''v'') = Ret bytes \<and> getTotalPayloadSlices (ex_parser ''v'') = Ret slices
     \<and> unat slices = 540 \<and> unat bytes = sum_list (map unat lens) * unat slices \<and> unat bytes < 2 ^ 32"
proof -
  have vals: "getPayloadSize (ex_parser ''v'') = Ret 4147200"
    "getPayloadSliceLengths (ex_parser ''v'') = Ret [5120, 2560, 0, 0]" "getTotalPayloadSlices (ex_parser ''v'') = Ret 540"
    by code_simp+
  from slices_tile_payload [OF ex_parser_ok vals]
  have "unat (4147200 :: u64) = sum_list (map unat [5120 :: u32, 2560, 0, 0]) * unat (540 :: u64)"
    "unat (4147200 :: u64) < 2 ^ 32" by blast+
  then show ?thesis using vals
    by - (rule exI [of _ 4147200], rule exI [of _ "[5120, 2560, 0, 0]"], rule exI [of _ 540], simp)
qed

lemma parser_accepts_supported_flows_witness:
  "mxlIsSupportedDataFormat (format_code (fp_format (ex_parser ''v''))) \<and> validateGroupHint (fp_root (ex_parser ''v''))"
  using parser_accepts_supported_flows [OF ex_parser_ok] by blast

text \<open>
  A rate with denominator zero is accepted: the parser normalises 25/0 to 1/0 and hands it on.
\<close>

theorem zero_denominator_is_accepted:
  "\<exists>p. FlowParser_new ex_parser_services ''z'' = Ret p \<and> fp_grainRate p = \<lparr>numerator = 1, denominator = 0\<rparr>
     \<and> \<not> isValid_rational (fp_grainRate p)"
proof -
  have "FlowParser_new ex_parser_services ''z'' = Ret (ex_parser ''z'')"
    "fp_grainRate (ex_parser ''z'') = \<lparr>numerator = 1, denominator = 0\<rparr>" "\<not> isValid_rational (fp_grainRate (ex_parser ''z''))"
    by code_simp+
  then show ?thesis by blast
qed

end
