(* ===== verification/FileSystem.thy ===== *)
theory FileSystem
  imports FlowParser "HOL-Library.AList"
begin

text \<open>
  The operating system as the library uses it: a tree of directories and files, inodes with their
  contents, descriptors with the advisory lock they hold. A computation takes the world and returns
  an outcome and the world it leaves behind, also when it throws. Every system call takes one tick
  of the clock; an environment of the world decides for every tick whether the call fails and with
  which error number, what a clock reads, and which name \<open>mkdtemp\<close> picks. So a statement about
  all worlds is one about all failures at all points.

  The functions starting with \<open>sys_\<close> are documented POSIX and standard library behaviour. A
  mapped segment is typed: the structure the code places in it. How other contents would read as
  such a structure is a parameter of the environment.
\<close>

section \<open>State\<close>

type_synonym path = "string list"

datatype content =
    TextFile string
  | RawBytes "u8 list"
  | FlowSegment Flow
  | GrainSegment mxlGrainInfo

datatype entry = DirEntry | FileEntry nat

datatype lock_state = Unlocked | SharedLock | ExclusiveLock

record os_file =
  f_size :: u64
  f_content :: content

record environment_os =
  en_fail :: "nat \<Rightarrow> nat option"
  en_clock :: "nat \<Rightarrow> Timepoint"
  en_tempname :: "nat \<Rightarrow> string"
  en_survives :: "nat \<Rightarrow> path \<Rightarrow> bool"
  en_flow_view :: "content \<Rightarrow> Flow"
  en_grain_view :: "content \<Rightarrow> mxlGrainInfo"

record world =
  w_env :: environment_os
  w_tick :: nat
  w_tree :: "(path \<times> entry) list"
  w_files :: "(nat \<times> os_file) list"
  w_inode :: nat
  w_fds :: "(nat \<times> nat \<times> lock_state) list"
  w_fd :: nat

section \<open>Computations\<close>

type_synonym 'a io = "world \<Rightarrow> 'a outcome \<times> world"

definition iret :: "'a \<Rightarrow> 'a io" where
  "iret a w = (Ret a, w)"

definition ithrow :: "exn \<Rightarrow> 'a io" where
  "ithrow e w = (Throw e, w)"

definition icrash :: "crash \<Rightarrow> 'a io" where
  "icrash c w = (Crash c, w)"

definition ilift :: "'a outcome \<Rightarrow> 'a io" where
  "ilift r w = (r, w)"

definition ibind :: "'a io \<Rightarrow> ('a \<Rightarrow> 'b io) \<Rightarrow> 'b io" where
  "ibind m f w =
     (case m w of
        (Ret a, w1) \<Rightarrow> f a w1
      | (Throw e, w1) \<Rightarrow> (Throw e, w1)
      | (Crash c, w1) \<Rightarrow> (Crash c, w1))"

definition icatch :: "'a io \<Rightarrow> (exn \<Rightarrow> 'a io) \<Rightarrow> 'a io" where
  "icatch m h w =
     (case m w of
        (Ret a, w1) \<Rightarrow> (Ret a, w1)
      | (Throw e, w1) \<Rightarrow> h e w1
      | (Crash c, w1) \<Rightarrow> (Crash c, w1))"

text \<open>A destructor or a deferred action: run when the scope is left, by return or by exception.\<close>

definition ifinally :: "'a io \<Rightarrow> unit io \<Rightarrow> 'a io" where
  "ifinally m c w =
     (case m w of
        (Ret a, w1) \<Rightarrow> (Ret a, snd (c w1))
      | (Throw e, w1) \<Rightarrow> (Throw e, snd (c w1))
      | (Crash c', w1) \<Rightarrow> (Crash c', w1))"

text \<open>A destructor of a local whose value is moved out on success: run on exceptions only.\<close>

definition iunwind :: "'a io \<Rightarrow> unit io \<Rightarrow> 'a io" where
  "iunwind m c = icatch m (\<lambda>e. ibind c (\<lambda>_. ithrow e))"

definition iwhen :: "bool \<Rightarrow> unit io \<Rightarrow> unit io" where
  "iwhen b m = (if b then m else iret ())"

section \<open>System calls\<close>

text \<open>Error numbers of Linux.\<close>

definition ENOENT :: nat where "ENOENT = 2"
definition EIO :: nat where "EIO = 5"
definition EBADF :: nat where "EBADF = 9"
definition EWOULDBLOCK :: nat where "EWOULDBLOCK = 11"
definition ENOMEM :: nat where "ENOMEM = 12"
definition EEXIST :: nat where "EEXIST = 17"
definition ENOTDIR :: nat where "ENOTDIR = 20"
definition EINVAL :: nat where "EINVAL = 22"
definition ENOTEMPTY :: nat where "ENOTEMPTY = 39"

type_synonym 'a syscall = "world \<Rightarrow> (nat + 'a) \<times> world"

definition tick :: "world \<Rightarrow> world" where
  "tick w = w\<lparr>w_tick := Suc (w_tick w)\<rparr>"

definition syscall :: "'a syscall \<Rightarrow> 'a syscall" where
  "syscall f w =
     (case en_fail (w_env w) (w_tick w) of
        Some e \<Rightarrow> (Inl e, tick w)
      | None \<Rightarrow> f (tick w))"

definition lookup :: "world \<Rightarrow> path \<Rightarrow> entry option" where
  "lookup w p = map_of (w_tree w) p"

definition under :: "path \<Rightarrow> path \<Rightarrow> bool" where
  "under base p \<longleftrightarrow> take (length base) p = base"

definition add_entry :: "path \<Rightarrow> entry \<Rightarrow> world \<Rightarrow> world" where
  "add_entry p e w = w\<lparr>w_tree := (p, e) # w_tree w\<rparr>"

text \<open>The file of an inode; an inode that was never written is an empty file.\<close>

definition w_file :: "world \<Rightarrow> nat \<Rightarrow> os_file" where
  "w_file w i = (case map_of (w_files w) i of Some f \<Rightarrow> f | None \<Rightarrow> \<lparr>f_size = 0, f_content = RawBytes []\<rparr>)"

definition put_file :: "nat \<Rightarrow> os_file \<Rightarrow> world \<Rightarrow> world" where
  "put_file i f w = w\<lparr>w_files := AList.update i f (w_files w)\<rparr>"

definition new_file :: "path \<Rightarrow> os_file \<Rightarrow> world \<Rightarrow> world" where
  "new_file p f w =
     (put_file (w_inode w) f w)\<lparr>w_tree := (p, FileEntry (w_inode w)) # w_tree w, w_inode := Suc (w_inode w)\<rparr>"

definition set_content :: "nat \<Rightarrow> content \<Rightarrow> world \<Rightarrow> world" where
  "set_content i c w = put_file i ((w_file w i)\<lparr>f_content := c\<rparr>) w"

definition new_fd :: "nat \<Rightarrow> world \<Rightarrow> nat \<times> world" where
  "new_fd i w = (w_fd w, w\<lparr>w_fds := (w_fd w, i, Unlocked) # w_fds w, w_fd := Suc (w_fd w)\<rparr>)"

definition sys_clock :: "Timepoint io" where
  "sys_clock w = (Ret (en_clock (w_env w) (w_tick w)), tick w)"

definition sys_mkdtemp :: "path \<Rightarrow> string \<Rightarrow> path syscall" where
  "sys_mkdtemp base prefix = syscall (\<lambda>w.
     let p = base @ [prefix @ en_tempname (w_env w) (w_tick w)] in
     if lookup w base \<noteq> Some DirEntry then (Inl ENOENT, w)
     else if lookup w p \<noteq> None then (Inl EEXIST, w)
     else (Inr p, add_entry p DirEntry w))"

definition sys_mkdir :: "path \<Rightarrow> bool syscall" where
  "sys_mkdir p = syscall (\<lambda>w.
     if lookup w (butlast p) \<noteq> Some DirEntry then (Inl ENOENT, w)
     else if lookup w p = Some DirEntry then (Inr False, w)
     else if lookup w p \<noteq> None then (Inl EEXIST, w)
     else (Inr True, add_entry p DirEntry w))"

definition sys_open_create :: "path \<Rightarrow> nat syscall" where
  "sys_open_create p = syscall (\<lambda>w.
     if lookup w (butlast p) \<noteq> Some DirEntry then (Inl ENOENT, w)
     else if lookup w p \<noteq> None then (Inl EEXIST, w)
     else let i = w_inode w; (fd, w') = new_fd i (new_file p \<lparr>f_size = 0, f_content = RawBytes []\<rparr> w) in (Inr fd, w'))"

definition sys_open :: "path \<Rightarrow> nat syscall" where
  "sys_open p = syscall (\<lambda>w.
     case lookup w p of
       Some (FileEntry i) \<Rightarrow> let (fd, w') = new_fd i w in (Inr fd, w')
     | Some DirEntry \<Rightarrow> (Inl EINVAL, w)
     | None \<Rightarrow> (Inl ENOENT, w))"

definition fd_inode :: "world \<Rightarrow> nat \<Rightarrow> nat option" where
  "fd_inode w fd = map_option fst (map_of (w_fds w) fd)"

definition sys_fallocate :: "nat \<Rightarrow> u64 \<Rightarrow> unit syscall" where
  "sys_fallocate fd sz = syscall (\<lambda>w.
     case fd_inode w fd of
       None \<Rightarrow> (Inl EBADF, w)
     | Some i \<Rightarrow>
         if sz = 0 then (Inl EINVAL, w)
         else (Inr (), put_file i ((w_file w i)\<lparr>f_size := max sz (f_size (w_file w i))\<rparr>) w))"

text \<open>
  \<open>flock\<close>: an exclusive lock excludes every other descriptor of the file, a shared one exclusive
  ones. A conversion first removes the lock held, so that a conversion that would block loses it.
\<close>

definition lock_free :: "world \<Rightarrow> nat \<Rightarrow> nat \<Rightarrow> lock_state \<Rightarrow> bool" where
  "lock_free w fd i l =
     list_all (\<lambda>(fd', i', l'). l = Unlocked \<or> fd' = fd \<or> i' \<noteq> i \<or> l' = Unlocked \<or> (l = SharedLock \<and> l' = SharedLock)) (w_fds w)"

definition set_lock :: "nat \<Rightarrow> lock_state \<Rightarrow> world \<Rightarrow> world" where
  "set_lock fd l w = w\<lparr>w_fds := map (\<lambda>(fd', i, l'). (fd', i, if fd' = fd then l else l')) (w_fds w)\<rparr>"

definition sys_flock :: "nat \<Rightarrow> lock_state \<Rightarrow> unit syscall" where
  "sys_flock fd l = syscall (\<lambda>w.
     case fd_inode w fd of
       None \<Rightarrow> (Inl EBADF, w)
     | Some i \<Rightarrow> if lock_free w fd i l then (Inr (), set_lock fd l w) else (Inl EWOULDBLOCK, set_lock fd Unlocked w))"

definition sys_fstat :: "nat \<Rightarrow> (nat \<times> u64) syscall" where
  "sys_fstat fd = syscall (\<lambda>w.
     case fd_inode w fd of
       None \<Rightarrow> (Inl EBADF, w)
     | Some i \<Rightarrow> (Inr (i, f_size (w_file w i)), w))"

definition sys_mmap :: "nat \<Rightarrow> nat syscall" where
  "sys_mmap fd = syscall (\<lambda>w.
     case fd_inode w fd of
       None \<Rightarrow> (Inl EBADF, w)
     | Some i \<Rightarrow> if f_size (w_file w i) = 0 then (Inl EINVAL, w) else (Inr i, w))"

definition sys_close :: "nat \<Rightarrow> unit io" where
  "sys_close fd w = (Ret (), (tick w)\<lparr>w_fds := filter (\<lambda>(fd', _). fd' \<noteq> fd) (w_fds w)\<rparr>)"

definition sys_stat :: "path \<Rightarrow> nat syscall" where
  "sys_stat p = syscall (\<lambda>w.
     case lookup w p of
       Some (FileEntry i) \<Rightarrow> (Inr i, w)
     | Some DirEntry \<Rightarrow> (Inr 0, w)
     | None \<Rightarrow> (Inl ENOENT, w))"

definition rename_path :: "path \<Rightarrow> path \<Rightarrow> path \<Rightarrow> path" where
  "rename_path src dst p = (if under src p then dst @ drop (length src) p else p)"

definition sys_rename_noreplace :: "path \<Rightarrow> path \<Rightarrow> unit syscall" where
  "sys_rename_noreplace src dst = syscall (\<lambda>w.
     if lookup w src = None \<or> lookup w (butlast dst) \<noteq> Some DirEntry then (Inl ENOENT, w)
     else if lookup w dst \<noteq> None then (Inl EEXIST, w)
     else if under src dst then (Inl EINVAL, w)
     else (Inr (), w\<lparr>w_tree := map (\<lambda>(p, e). (rename_path src dst p, e)) (w_tree w)\<rparr>))"

text \<open>Changing permission bits, which the model does not keep, and resolving a path without links.\<close>

definition sys_chmod :: "path \<Rightarrow> unit syscall" where
  "sys_chmod p = syscall (\<lambda>w. if lookup w p = None then (Inl ENOENT, w) else (Inr (), w))"

definition sys_canonical :: "path \<Rightarrow> path syscall" where
  "sys_canonical p = syscall (\<lambda>w. if lookup w p = None then (Inl ENOENT, w) else (Inr p, w))"

text \<open>
  \<open>remove_all\<close> returns how many entries it removed. When it fails it may have removed some: the
  environment says which entries survive, and with an entry the directories it is in.
\<close>

definition survives :: "world \<Rightarrow> path \<Rightarrow> path \<Rightarrow> bool" where
  "survives w p q = list_all (\<lambda>n. en_survives (w_env w) (w_tick w) (take n q)) [length p..<Suc (length q)]"

definition sys_remove_all :: "path \<Rightarrow> nat syscall" where
  "sys_remove_all p w =
     (case en_fail (w_env w) (w_tick w) of
        Some e \<Rightarrow> (Inl e, (tick w)\<lparr>w_tree := filter (\<lambda>(q, _). \<not> under p q \<or> survives w p q) (w_tree w)\<rparr>)
      | None \<Rightarrow> (Inr (length (filter (\<lambda>(q, _). under p q) (w_tree w))),
                 (tick w)\<lparr>w_tree := filter (\<lambda>(q, _). \<not> under p q) (w_tree w)\<rparr>))"

text \<open>Status queries of \<open>std::filesystem\<close>: absence is an answer, any other failure an exception.\<close>

definition fs_exists :: "path \<Rightarrow> bool io" where
  "fs_exists p w =
     (case syscall (\<lambda>w. (Inr (lookup w p \<noteq> None), w)) w of
        (Inr b, w1) \<Rightarrow> (Ret b, w1)
      | (Inl e, w1) \<Rightarrow> if e = ENOENT \<or> e = ENOTDIR then (Ret False, w1) else (Throw (FilesystemError e), w1))"

definition fs_is_directory :: "path \<Rightarrow> bool io" where
  "fs_is_directory p w =
     (case syscall (\<lambda>w. (Inr (lookup w p = Some DirEntry), w)) w of
        (Inr b, w1) \<Rightarrow> (Ret b, w1)
      | (Inl e, w1) \<Rightarrow> if e = ENOENT \<or> e = ENOTDIR then (Ret False, w1) else (Throw (FilesystemError e), w1))"

definition isys :: "'a syscall \<Rightarrow> (nat + 'a) io" where
  "isys f w = (case f w of (r, w1) \<Rightarrow> (Ret r, w1))"

definition orthrow :: "(nat \<Rightarrow> exn) \<Rightarrow> 'a syscall \<Rightarrow> 'a io" where
  "orthrow ex f w = (case f w of (Inr a, w1) \<Rightarrow> (Ret a, w1) | (Inl e, w1) \<Rightarrow> (Throw (ex e), w1))"

text \<open>
  Opening an output stream truncates or creates the file; writing to it can fail without notice, and
  then leaves a prefix of the text.
\<close>

definition sys_ofstream :: "path \<Rightarrow> nat syscall" where
  "sys_ofstream p = syscall (\<lambda>w.
     case lookup w p of
       Some (FileEntry i) \<Rightarrow> (Inr i, put_file i \<lparr>f_size = 0, f_content = TextFile []\<rparr> w)
     | Some DirEntry \<Rightarrow> (Inl EINVAL, w)
     | None \<Rightarrow>
         if lookup w (butlast p) \<noteq> Some DirEntry then (Inl ENOENT, w)
         else (Inr (w_inode w), new_file p \<lparr>f_size = 0, f_content = TextFile []\<rparr> w))"

definition sys_write :: "nat \<Rightarrow> string \<Rightarrow> unit io" where
  "sys_write i txt w =
     (case en_fail (w_env w) (w_tick w) of
        Some n \<Rightarrow> (Ret (), set_content i (TextFile (take n txt)) (tick w))
      | None \<Rightarrow> (Ret (), set_content i (TextFile txt) (tick w)))"

definition sys_ifstream :: "path \<Rightarrow> nat syscall" where
  "sys_ifstream p = syscall (\<lambda>w.
     case lookup w p of Some (FileEntry i) \<Rightarrow> (Inr i, w) | Some DirEntry \<Rightarrow> (Inl EINVAL, w) | None \<Rightarrow> (Inl ENOENT, w))"

definition sys_read_text :: "nat \<Rightarrow> string syscall" where
  "sys_read_text i = syscall (\<lambda>w.
     (Inr (case f_content (w_file w i) of TextFile s \<Rightarrow> s | _ \<Rightarrow> []), w))"

definition sys_listdir :: "path \<Rightarrow> string list syscall" where
  "sys_listdir p = syscall (\<lambda>w.
     if lookup w p \<noteq> Some DirEntry then (Inl ENOENT, w)
     else (Inr (map (last o fst) (filter (\<lambda>(q, _). q \<noteq> [] \<and> butlast q = p) (w_tree w))), w))"

section \<open>Elimination rules\<close>

lemma ibind_Ret [outcome_simps]:
  "ibind m f w = (Ret b, w2) \<longleftrightarrow> (\<exists>a w1. m w = (Ret a, w1) \<and> f a w1 = (Ret b, w2))"
  by (auto simp: ibind_def split: prod.splits outcome.splits)

lemma ibind_RetE:
  assumes "ibind m f w = (Ret b, w2)" obtains a w1 where "m w = (Ret a, w1)" and "f a w1 = (Ret b, w2)"
  using assms by (auto simp: ibind_Ret)

lemma orthrow_Ret [outcome_simps]: "orthrow ex f w = (Ret a, w1) \<longleftrightarrow> f w = (Inr a, w1)"
  by (auto simp: orthrow_def split: prod.splits sum.splits)

lemma iret_simps:
  "iret a w = (Ret a, w)" "ithrow e w = (Throw e, w)" "icrash c w = (Crash c, w)" "ilift r w = (r, w)"
  by (simp_all add: iret_def ithrow_def icrash_def ilift_def)

lemma syscall_Inr [outcome_simps]:
  "syscall f w = (Inr a, w1) \<longleftrightarrow> en_fail (w_env w) (w_tick w) = None \<and> f (tick w) = (Inr a, w1)"
  by (auto simp: syscall_def split: option.splits)

lemma w_file_simps [simp]:
  "w_file (w\<lparr>w_tree := t\<rparr>) = w_file w" "w_file (w\<lparr>w_tick := n\<rparr>) = w_file w" "w_file (w\<lparr>w_inode := n\<rparr>) = w_file w"
  "w_file (w\<lparr>w_fds := fds\<rparr>) = w_file w" "w_file (w\<lparr>w_fd := n\<rparr>) = w_file w" "w_file (put_file i f w) = (w_file w)(i := f)"
  by (auto simp: w_file_def put_file_def update_conv fun_eq_iff)

lemma put_file_simps [simp]:
  "w_env (put_file i f w) = w_env w" "w_tick (put_file i f w) = w_tick w" "w_tree (put_file i f w) = w_tree w"
  "w_inode (put_file i f w) = w_inode w" "w_fds (put_file i f w) = w_fds w" "w_fd (put_file i f w) = w_fd w"
  "lookup (put_file i f w) p = lookup w p" "fd_inode (put_file i f w) fd = fd_inode w fd"
  by (simp_all add: put_file_def lookup_def fd_inode_def)

lemma tick_simps [simp]:
  "w_env (tick w) = w_env w" "w_tree (tick w) = w_tree w" "w_file (tick w) = w_file w" "w_inode (tick w) = w_inode w"
  "w_fds (tick w) = w_fds w" "w_fd (tick w) = w_fd w" "lookup (tick w) p = lookup w p" "fd_inode (tick w) fd = fd_inode w fd"
  by (simp_all add: tick_def lookup_def fd_inode_def)

end
