(* ===== verification/SharedMemory.thy ===== *)
theory SharedMemory
  imports FileSystem
begin

text \<open>
  Shared memory segments (\<open>SharedMemory.hpp\<close>, \<open>SharedMemory.cpp\<close>): files mapped into memory
  under an advisory lock. A handle holds the descriptor, the access mode it was opened in, the inode
  it maps, the mapped size and the lock it believes to hold. The constructor delegates to the default
  constructor, so that the destructor runs when it throws.
\<close>

datatype LockMode = LockExclusive | LockShared | LockNone
datatype AccessMode = READ_ONLY | READ_WRITE | CREATE_READ_WRITE
datatype LockType = HoldsNone | HoldsExclusive | HoldsShared

record SharedMemoryBase =
  shm_fd :: "nat option"
  shm_mode :: AccessMode
  shm_data :: "nat option"
  shm_mappedSize :: u64
  shm_lockType :: LockType

definition empty_segment :: SharedMemoryBase where
  "empty_segment = \<lparr>shm_fd = None, shm_mode = READ_ONLY, shm_data = None, shm_mappedSize = 0, shm_lockType = HoldsNone\<rparr>"

section \<open>Destruction\<close>

definition close_fd :: "nat \<Rightarrow> unit io" where
  "close_fd fd = ibind (isys (sys_flock fd Unlocked)) (\<lambda>_. sys_close fd)"

definition SharedMemory_destroy :: "SharedMemoryBase \<Rightarrow> unit io" where
  "SharedMemory_destroy s = (case shm_fd s of None \<Rightarrow> iret () | Some fd \<Rightarrow> close_fd fd)"

section \<open>Construction\<close>

text \<open>Create the file if asked to, and open it when that fails or was not asked for.\<close>

definition open_segment :: "path \<Rightarrow> AccessMode \<Rightarrow> u64 \<Rightarrow> (nat \<times> AccessMode) io" where
  "open_segment p mode payloadSize =
     ibind (if mode = CREATE_READ_WRITE then isys (sys_open_create p) else iret (Inl ENOENT)) (\<lambda>created.
       case created of
         Inr fd \<Rightarrow>
           iunwind (ibind (orthrow SystemError (sys_fallocate fd payloadSize)) (\<lambda>_. iret (fd, CREATE_READ_WRITE))) (close_fd fd)
       | Inl _ \<Rightarrow>
           ibind (orthrow SystemError (sys_open p)) (\<lambda>fd.
             iret (fd, if mode = READ_ONLY then READ_ONLY else READ_WRITE)))"

definition lock_segment :: "nat \<Rightarrow> AccessMode \<Rightarrow> LockMode \<Rightarrow> LockType io" where
  "lock_segment fd mode lockMode =
     (if lockMode \<noteq> LockNone \<and> mode \<noteq> READ_ONLY then
        (if lockMode = LockExclusive
         then ibind (orthrow SystemError (sys_flock fd ExclusiveLock)) (\<lambda>_. iret HoldsExclusive)
         else ibind (orthrow SystemError (sys_flock fd SharedLock)) (\<lambda>_. iret HoldsShared))
      else iret HoldsNone)"

definition SharedMemoryBase_new :: "path \<Rightarrow> AccessMode \<Rightarrow> u64 \<Rightarrow> LockMode \<Rightarrow> SharedMemoryBase io" where
  "SharedMemoryBase_new p mode payloadSize lockMode =
     ibind (open_segment p mode payloadSize) (\<lambda>(fd, m).
       iunwind
         (ibind (lock_segment fd mode lockMode) (\<lambda>lt.
          ibind (orthrow SystemError (sys_fstat fd)) (\<lambda>st.
            if payloadSize \<le> snd st then
              ibind (orthrow SystemError (sys_mmap fd)) (\<lambda>i.
                iret \<lparr>shm_fd = Some fd, shm_mode = m, shm_data = Some i, shm_mappedSize = snd st, shm_lockType = lt\<rparr>)
            else ithrow (SystemError ENOMEM))))
         (close_fd fd))"

section \<open>Accessors\<close>

definition shm_isValid :: "SharedMemoryBase \<Rightarrow> bool" where
  "shm_isValid s \<longleftrightarrow> shm_data s \<noteq> None"

definition accessMode :: "SharedMemoryBase \<Rightarrow> AccessMode" where
  "accessMode s = (if shm_mode s = READ_ONLY then READ_ONLY else READ_WRITE)"

definition created :: "SharedMemoryBase \<Rightarrow> bool" where
  "created s \<longleftrightarrow> shm_mode s = CREATE_READ_WRITE"

definition isExclusive :: "SharedMemoryBase \<Rightarrow> bool" where
  "isExclusive s \<longleftrightarrow> shm_lockType s = HoldsExclusive"

definition shm_swap :: "SharedMemoryBase \<times> SharedMemoryBase \<Rightarrow> SharedMemoryBase \<times> SharedMemoryBase" where
  "shm_swap ab = (snd ab, fst ab)"

text \<open>\<open>flock\<close> on the descriptor -1 of an empty handle fails with \<open>EBADF\<close>.\<close>

definition flock_handle :: "SharedMemoryBase \<Rightarrow> lock_state \<Rightarrow> unit syscall" where
  "flock_handle s l = (case shm_fd s of None \<Rightarrow> syscall (\<lambda>w. (Inl EBADF, w)) | Some fd \<Rightarrow> sys_flock fd l)"

definition makeExclusive :: "SharedMemoryBase \<Rightarrow> (bool \<times> SharedMemoryBase) io" where
  "makeExclusive s =
     (if shm_lockType s = HoldsExclusive then iret (True, s)
      else ibind (isys (flock_handle s ExclusiveLock)) (\<lambda>r.
        case r of
          Inl e \<Rightarrow> if e = EWOULDBLOCK then iret (False, s)
                  else if e = EBADF then ithrow RuntimeError
                  else ithrow (SystemError e)
        | Inr _ \<Rightarrow> iret (True, s\<lparr>shm_lockType := HoldsExclusive\<rparr>)))"

section \<open>Instances of structures\<close>

definition SIZEOF_FLOW :: u64 where "SIZEOF_FLOW = 2064"
definition SIZEOF_GRAIN :: u64 where "SIZEOF_GRAIN = 8192"

text \<open>\<open>new (data()) T{}\<close> places the value initialised structure in a segment this call created.\<close>

definition SharedMemoryInstance_new ::
  "content \<Rightarrow> u64 \<Rightarrow> path \<Rightarrow> AccessMode \<Rightarrow> u64 \<Rightarrow> LockMode \<Rightarrow> SharedMemoryBase io" where
  "SharedMemoryInstance_new initial sizeof p mode payloadSize lockMode =
     ibind (SharedMemoryBase_new p mode (payloadSize + sizeof) lockMode) (\<lambda>s.
       if created s then
         (if shm_mappedSize s < payloadSize + sizeof
          then iunwind (ithrow RuntimeError) (SharedMemory_destroy s)
          else (case shm_data s of
                  None \<Rightarrow> icrash NullDereference
                | Some i \<Rightarrow> (\<lambda>w. (Ret s, set_content i initial w))))
       else iret s)"

definition FlowInstance_new :: "path \<Rightarrow> AccessMode \<Rightarrow> u64 \<Rightarrow> LockMode \<Rightarrow> SharedMemoryBase io" where
  "FlowInstance_new = SharedMemoryInstance_new (FlowSegment zero_flow) SIZEOF_FLOW"

definition GrainInstance_new :: "path \<Rightarrow> AccessMode \<Rightarrow> u64 \<Rightarrow> LockMode \<Rightarrow> SharedMemoryBase io" where
  "GrainInstance_new = SharedMemoryInstance_new (GrainSegment zero_grain_info) SIZEOF_GRAIN"

text \<open>Reading and writing through \<open>get()\<close>; other contents are read through the environment's view.\<close>

definition as_flow :: "world \<Rightarrow> content \<Rightarrow> Flow" where
  "as_flow w c = (case c of FlowSegment f \<Rightarrow> f | _ \<Rightarrow> en_flow_view (w_env w) c)"

definition as_grain :: "world \<Rightarrow> content \<Rightarrow> mxlGrainInfo" where
  "as_grain w c = (case c of GrainSegment g \<Rightarrow> g | _ \<Rightarrow> en_grain_view (w_env w) c)"

definition get_flow :: "SharedMemoryBase \<Rightarrow> Flow io" where
  "get_flow s w =
     (case shm_data s of None \<Rightarrow> (Crash NullDereference, w) | Some i \<Rightarrow> (Ret (as_flow w (f_content (w_file w i))), w))"

definition put_flow :: "SharedMemoryBase \<Rightarrow> (Flow \<Rightarrow> Flow) \<Rightarrow> unit io" where
  "put_flow s f w =
     (case shm_data s of
        None \<Rightarrow> (Crash NullDereference, w)
      | Some i \<Rightarrow> (Ret (), set_content i (FlowSegment (f (as_flow w (f_content (w_file w i))))) w))"

definition get_grain :: "SharedMemoryBase \<Rightarrow> mxlGrainInfo io" where
  "get_grain s w =
     (case shm_data s of None \<Rightarrow> (Crash NullDereference, w) | Some i \<Rightarrow> (Ret (as_grain w (f_content (w_file w i))), w))"

definition put_grain :: "SharedMemoryBase \<Rightarrow> (mxlGrainInfo \<Rightarrow> mxlGrainInfo) \<Rightarrow> unit io" where
  "put_grain s f w =
     (case shm_data s of
        None \<Rightarrow> (Crash NullDereference, w)
      | Some i \<Rightarrow> (Ret (), set_content i (GrainSegment (f (as_grain w (f_content (w_file w i))))) w))"

end
