(* ===== verification/Paths.thy ===== *)
theory Paths
  imports FileSystem
begin

text \<open>
  The names of a flow's files (\<open>PathUtils.hpp\<close>, \<open>PathUtils.cpp\<close>), the decimal numbers in them,
  and the parts of a file name that \<open>std::filesystem::path\<close> calls stem and extension.
\<close>

definition FLOW_DIRECTORY_NAME_SUFFIX :: string where "FLOW_DIRECTORY_NAME_SUFFIX = ''.mxl-flow''"
definition FLOW_DESCRIPTOR_FILE_NAME :: string where "FLOW_DESCRIPTOR_FILE_NAME = ''flow_def.json''"
definition FLOW_DATA_FILE_NAME :: string where "FLOW_DATA_FILE_NAME = ''data''"
definition FLOW_ACCESS_FILE_NAME :: string where "FLOW_ACCESS_FILE_NAME = ''access''"
definition GRAIN_DIRECTORY_NAME :: string where "GRAIN_DIRECTORY_NAME = ''grains''"
definition GRAIN_DATA_FILE_NAME_STEM :: string where "GRAIN_DATA_FILE_NAME_STEM = ''data''"
definition CHANNEL_DATA_FILE_NAME :: string where "CHANNEL_DATA_FILE_NAME = ''channels''"
definition DOMAIN_OPTIONS_FILE_NAME :: string where "DOMAIN_OPTIONS_FILE_NAME = ''options.json''"

fun decimal :: "nat \<Rightarrow> string" where
  "decimal n = (if n < 10 then [char_of (48 + n)] else decimal (n div 10) @ [char_of (48 + n mod 10)])"

declare decimal.simps [simp del]

definition makeFlowDirectoryName :: "path \<Rightarrow> string \<Rightarrow> path" where
  "makeFlowDirectoryName domain uuid = domain @ [uuid @ FLOW_DIRECTORY_NAME_SUFFIX]"

definition makeFlowDataFilePath :: "path \<Rightarrow> path" where
  "makeFlowDataFilePath flowDirectory = flowDirectory @ [FLOW_DATA_FILE_NAME]"

definition makeFlowDescriptorFilePath :: "path \<Rightarrow> path" where
  "makeFlowDescriptorFilePath flowDirectory = flowDirectory @ [FLOW_DESCRIPTOR_FILE_NAME]"

definition makeFlowAccessFilePath :: "path \<Rightarrow> path" where
  "makeFlowAccessFilePath flowDirectory = flowDirectory @ [FLOW_ACCESS_FILE_NAME]"

definition makeGrainDirectoryName :: "path \<Rightarrow> path" where
  "makeGrainDirectoryName flowDirectory = flowDirectory @ [GRAIN_DIRECTORY_NAME]"

definition makeGrainDataFilePath :: "path \<Rightarrow> u32 \<Rightarrow> path" where
  "makeGrainDataFilePath grainDirectory index = grainDirectory @ [GRAIN_DATA_FILE_NAME_STEM @ ''.'' @ decimal (unat index)]"

definition makeChannelDataFilePath :: "path \<Rightarrow> path" where
  "makeChannelDataFilePath flowDirectory = flowDirectory @ [CHANNEL_DATA_FILE_NAME]"

definition makeDomainOptionsFilePath :: "path \<Rightarrow> path" where
  "makeDomainOptionsFilePath domain = domain @ [DOMAIN_OPTIONS_FILE_NAME]"

lemmas path_names = FLOW_DIRECTORY_NAME_SUFFIX_def FLOW_DESCRIPTOR_FILE_NAME_def FLOW_DATA_FILE_NAME_def
  FLOW_ACCESS_FILE_NAME_def GRAIN_DIRECTORY_NAME_def GRAIN_DATA_FILE_NAME_STEM_def CHANNEL_DATA_FILE_NAME_def DOMAIN_OPTIONS_FILE_NAME_def

lemmas path_defs = makeFlowDirectoryName_def makeFlowDataFilePath_def makeFlowDescriptorFilePath_def makeFlowAccessFilePath_def
  makeGrainDirectoryName_def makeGrainDataFilePath_def makeChannelDataFilePath_def makeDomainOptionsFilePath_def

text \<open>Different grains have different files.\<close>

definition undecimal :: "string \<Rightarrow> nat" where
  "undecimal s = foldl (\<lambda>a c. a * 10 + (of_char c - 48)) 0 s"

lemma undecimal_decimal: "undecimal (decimal n) = n"
proof (induction n rule: decimal.induct)
  case (1 n)
  then show ?case
    by (subst decimal.simps) (auto simp: undecimal_def mod_less)
qed

lemma decimal_inj [simp]: "decimal m = decimal n \<longleftrightarrow> m = n"
  using undecimal_decimal by metis

lemma grain_path_inj [simp]: "makeGrainDataFilePath d i = makeGrainDataFilePath d j \<longleftrightarrow> i = j"
  by (auto simp: makeGrainDataFilePath_def word_unat_eq_iff)

text \<open>
  The extension of a file name runs from its last dot, unless that dot starts the name; the stem is
  the rest.
\<close>

definition path_extension :: "string \<Rightarrow> string" where
  "path_extension name =
     (let r = takeWhile (\<lambda>c. c \<noteq> CHR ''.'') (rev name)
      in if name = ''..'' \<or> Suc (length r) \<ge> length name then [] else CHR ''.'' # rev r)"

definition path_stem :: "string \<Rightarrow> string" where
  "path_stem name = take (length name - length (path_extension name)) name"

lemma flow_directory_name_parts:
  assumes "u \<noteq> []"
  shows "path_extension (u @ FLOW_DIRECTORY_NAME_SUFFIX) = FLOW_DIRECTORY_NAME_SUFFIX"
    and "path_stem (u @ FLOW_DIRECTORY_NAME_SUFFIX) = u"
proof -
  show e: "path_extension (u @ FLOW_DIRECTORY_NAME_SUFFIX) = FLOW_DIRECTORY_NAME_SUFFIX"
    using assms by (simp add: path_extension_def path_names Let_def)
  show "path_stem (u @ FLOW_DIRECTORY_NAME_SUFFIX) = u"
    unfolding path_stem_def e by simp
qed

end
