(* ===== verification/Effects.thy ===== *)
theory Effects
  imports SharedMemory Paths
begin

text \<open>
  How properties of computations over the world are proved: triples that hold for every outcome, one
  assertion for the normal one and one for exceptions (undefined behaviour satisfies none), and two
  assertions that describe a whole world relative to an earlier one. \<open>staged w0 t H K\<close>: outside
  the directory \<open>t\<close> nothing changed since \<open>w0\<close>, below it there is exactly what \<open>K\<close> says,
  and the descriptors opened since are those in \<open>H\<close>. \<open>observed w0 H\<close>: nothing at all changed
  but the descriptors. The system calls are proved to respect them once, here.
\<close>

named_theorems triple_rules \<open>decomposition of triples\<close>

section \<open>Triples\<close>

definition triple :: "(world \<Rightarrow> bool) \<Rightarrow> 'a io \<Rightarrow> ('a \<Rightarrow> world \<Rightarrow> bool) \<Rightarrow> (world \<Rightarrow> bool) \<Rightarrow> bool" where
  "triple P m Q E \<longleftrightarrow>
     (\<forall>w. P w \<longrightarrow> (case m w of (Ret a, w') \<Rightarrow> Q a w' | (Throw e, w') \<Rightarrow> E w' | (Crash c, w') \<Rightarrow> False))"

definition striple :: "(world \<Rightarrow> bool) \<Rightarrow> 'a syscall \<Rightarrow> ('a \<Rightarrow> world \<Rightarrow> bool) \<Rightarrow> (nat \<Rightarrow> world \<Rightarrow> bool) \<Rightarrow> bool" where
  "striple P f Q E \<longleftrightarrow> (\<forall>w. P w \<longrightarrow> (case f w of (Inr a, w') \<Rightarrow> Q a w' | (Inl e, w') \<Rightarrow> E e w'))"

lemma triple_weaken:
  assumes "triple P m Q E" and "\<And>w. P' w \<Longrightarrow> P w" and "\<And>a w. Q a w \<Longrightarrow> Q' a w" and "\<And>w. E w \<Longrightarrow> E' w"
  shows "triple P' m Q' E'"
  using assms by (fastforce simp: triple_def split: prod.splits outcome.splits)

lemma striple_weaken:
  assumes "striple P f Q E" and "\<And>w. P' w \<Longrightarrow> P w" and "\<And>a w. Q a w \<Longrightarrow> Q' a w" and "\<And>e w. E e w \<Longrightarrow> E' e w"
  shows "striple P' f Q' E'"
  unfolding striple_def
proof (intro allI impI)
  fix w assume "P' w"
  then show "case f w of (Inr a, w') \<Rightarrow> Q' a w' | (Inl e, w') \<Rightarrow> E' e w'"
    using assms(1,2,3,4) by (cases "f w"; cases "fst (f w)") (fastforce simp: striple_def)+
qed

lemma triple_ret: "(\<And>w. P w \<Longrightarrow> Q a w) \<Longrightarrow> triple P (iret a) Q E"
  by (simp add: triple_def iret_simps)

lemma triple_throw: "(\<And>w. P w \<Longrightarrow> E w) \<Longrightarrow> triple P (ithrow e) Q E"
  by (simp add: triple_def iret_simps)

lemma triple_bind:
  assumes "triple P m R E" and "\<And>a. triple (R a) (f a) Q E"
  shows "triple P (ibind m f) Q E"
  using assms unfolding triple_def ibind_def by (fastforce split: prod.splits outcome.splits)

lemma triple_catch:
  assumes "triple P m Q R" and "\<And>e. triple R (h e) Q E"
  shows "triple P (icatch m h) Q E"
  using assms unfolding triple_def icatch_def by (fastforce split: prod.splits outcome.splits)

lemma triple_unwind:
  assumes "triple P m Q R" and "triple R c (\<lambda>_. E) E"
  shows "triple P (iunwind m c) Q E"
  unfolding iunwind_def
  by (rule triple_catch [OF assms(1)], rule triple_bind [OF assms(2)], rule triple_throw)

lemma triple_finally:
  assumes "triple P m R F" and "\<And>a. triple (R a) c (\<lambda>_. Q a) (Q a)" and "triple F c (\<lambda>_. E) E"
  shows "triple P (ifinally m c) Q E"
  unfolding triple_def
proof (intro allI impI)
  fix w assume P: "P w"
  obtain r w1 where m: "m w = (r, w1)" by fastforce
  obtain r2 w2 where c: "c w1 = (r2, w2)" by fastforce
  show "case ifinally m c w of (Ret a, w') \<Rightarrow> Q a w' | (Throw e, w') \<Rightarrow> E w' | (Crash c, w') \<Rightarrow> False"
  proof (cases r)
    case (Ret a)
    then have "R a w1" using assms(1) P m by (fastforce simp: triple_def)
    then show ?thesis
      using assms(2) [of a] m c Ret by (cases r2) (fastforce simp: triple_def ifinally_def)+
  next
    case (Throw e)
    then have "F w1" using assms(1) P m by (fastforce simp: triple_def)
    then show ?thesis
      using assms(3) m c Throw by (cases r2) (fastforce simp: triple_def ifinally_def)+
  next
    case (Crash c')
    then show ?thesis using assms(1) P m by (fastforce simp: triple_def)
  qed
qed

lemma triple_orthrow: "striple P f Q (\<lambda>_. E) \<Longrightarrow> triple P (orthrow ex f) Q E"
  unfolding triple_def striple_def orthrow_def by (fastforce split: prod.splits sum.splits)

lemma triple_isys:
  "striple P f (\<lambda>a. Q (Inr a)) (\<lambda>e. Q (Inl e)) \<Longrightarrow> triple P (isys f) Q E"
  unfolding triple_def striple_def isys_def by (fastforce split: prod.splits sum.splits)

lemma triple_if:
  assumes "b \<Longrightarrow> triple P m Q E" and "\<not> b \<Longrightarrow> triple P m' Q E" shows "triple P (if b then m else m') Q E"
  using assms by simp

lemma triple_ex: "(\<And>x. triple (P x) m Q E) \<Longrightarrow> triple (\<lambda>w. \<exists>x. P x w) m Q E"
  unfolding triple_def by (intro allI impI, elim exE) simp

lemma triple_pure: "(c \<Longrightarrow> triple P m Q E) \<Longrightarrow> triple (\<lambda>w. c \<and> P w) m Q E"
  by (auto simp: triple_def)

lemma triple_pre: "triple P m Q E \<Longrightarrow> (\<And>w. P' w \<Longrightarrow> P w) \<Longrightarrow> triple P' m Q E"
  by (erule triple_weaken) auto

lemma triple_conj:
  assumes "triple P m Q E" and "triple P' m Q' E'"
  shows "triple (\<lambda>w. P w \<and> P' w) m (\<lambda>a w. Q a w \<and> Q' a w) (\<lambda>w. E w \<and> E' w)"
  using assms unfolding triple_def by (fastforce split: prod.splits outcome.splits)

lemma triple_Ret: "triple P m Q E \<Longrightarrow> P w \<Longrightarrow> m w = (Ret a, w') \<Longrightarrow> Q a w'"
  by (fastforce simp: triple_def)

lemma triple_Throw: "triple P m Q E \<Longrightarrow> P w \<Longrightarrow> m w = (Throw e, w') \<Longrightarrow> E w'"
  by (fastforce simp: triple_def)

lemma triple_Crash: "triple P m Q E \<Longrightarrow> P w \<Longrightarrow> m w \<noteq> (Crash c, w')"
  by (fastforce simp: triple_def)

lemma striple_syscall:
  assumes "\<And>w e. P w \<Longrightarrow> en_fail (w_env w) (w_tick w) = Some e \<Longrightarrow> E e (tick w)"
    and "\<And>w. P w \<Longrightarrow> case f (tick w) of (Inr a, w') \<Rightarrow> Q a w' | (Inl e, w') \<Rightarrow> E e w'"
  shows "striple P (syscall f) Q E"
  using assms by (simp add: striple_def syscall_def split: option.splits)

section \<open>Worlds\<close>

lemma under_refl [simp]: "under p p"
  by (simp add: under_def)

lemma under_append [simp]: "under p (p @ q)"
  by (simp add: under_def)

lemma under_iff: "under p q \<longleftrightarrow> (\<exists>r. q = p @ r)"
  unfolding under_def by (metis append_eq_conv_conj append_take_drop_id)

lemma under_trans: "under p q \<Longrightarrow> under q r \<Longrightarrow> under p r"
  by (auto simp: under_iff)

lemma under_butlast: "under p q \<Longrightarrow> q \<noteq> p \<Longrightarrow> under p (butlast q)"
  by (auto simp: under_iff butlast_append)

definition wf_world :: "world \<Rightarrow> bool" where
  "wf_world w \<longleftrightarrow>
     (\<forall>p. p \<noteq> [] \<longrightarrow> lookup w p \<noteq> None \<longrightarrow> lookup w (butlast p) = Some DirEntry) \<and>
     (\<forall>p i. lookup w p = Some (FileEntry i) \<longrightarrow> i < w_inode w) \<and>
     (\<forall>p q i. lookup w p = Some (FileEntry i) \<longrightarrow> lookup w q = Some (FileEntry i) \<longrightarrow> p = q) \<and>
     (\<forall>x\<in>set (w_fds w). fst x < w_fd w \<and> fst (snd x) < w_inode w)"

lemma absent_below:
  assumes "wf_world w" and "lookup w p = None"
  shows "lookup w (p @ r) = None"
proof (induction r rule: rev_induct)
  case (snoc x r)
  have "lookup w (butlast (p @ r @ [x])) = Some DirEntry" if "lookup w (p @ r @ [x]) \<noteq> None"
    using assms(1) that unfolding wf_world_def by blast
  with snoc show ?case by (force simp: butlast_append)
qed (simp add: assms)

lemma absent_under: "wf_world w \<Longrightarrow> lookup w p = None \<Longrightarrow> under p q \<Longrightarrow> lookup w q = None"
  by (auto simp: under_iff absent_below)

text \<open>What a directory under construction holds: for every path below it nothing, a directory or a file.\<close>

datatype node = NDir | NFile nat os_file

type_synonym layout = "path \<Rightarrow> node option"

fun entry_of :: "node \<Rightarrow> entry" where
  "entry_of NDir = DirEntry"
| "entry_of (NFile i f) = FileEntry i"

definition old_fds :: "world \<Rightarrow> world \<Rightarrow> (nat \<times> nat \<times> lock_state) list" where
  "old_fds w0 w = filter (\<lambda>x. fst x < w_fd w0) (w_fds w)"

definition new_fds :: "world \<Rightarrow> world \<Rightarrow> nat set" where
  "new_fds w0 w = {fd \<in> fst ` set (w_fds w). w_fd w0 \<le> fd}"

definition since :: "world \<Rightarrow> nat set \<Rightarrow> world \<Rightarrow> bool" where
  "since w0 H w \<longleftrightarrow>
     wf_world w \<and> w_env w = w_env w0 \<and> w_inode w0 \<le> w_inode w \<and> w_fd w0 \<le> w_fd w \<and>
     (\<forall>i < w_inode w0. w_file w i = w_file w0 i) \<and>
     old_fds w0 w = w_fds w0 \<and> new_fds w0 w = H"

definition staged :: "world \<Rightarrow> path \<Rightarrow> nat set \<Rightarrow> layout \<Rightarrow> world \<Rightarrow> bool" where
  "staged w0 t H K w \<longleftrightarrow>
     since w0 H w \<and>
     (\<forall>p. \<not> under t p \<longrightarrow> lookup w p = lookup w0 p) \<and>
     (\<forall>p. under t p \<longrightarrow> lookup w p = map_option entry_of (K p)) \<and>
     (\<forall>p i f. under t p \<longrightarrow> K p = Some (NFile i f) \<longrightarrow> w_inode w0 \<le> i \<and> w_file w i = f)"

definition observed :: "world \<Rightarrow> nat set \<Rightarrow> world \<Rightarrow> bool" where
  "observed w0 H w \<longleftrightarrow>
     since w0 H w \<and> w_tree w = w_tree w0 \<and> w_file w = w_file w0 \<and> w_inode w = w_inode w0"


subsection \<open>Frame facts\<close>

lemma fd_lists_frame:
  assumes "w_fds w' = w_fds w" shows "old_fds w0 w' = old_fds w0 w" and "new_fds w0 w' = new_fds w0 w"
  using assms by (simp_all add: old_fds_def new_fds_def)

lemma wf_world_cong:
  assumes "wf_world w" and "w_tree w' = w_tree w" and "w_fds w' = w_fds w" and "w_inode w' = w_inode w" and "w_fd w' = w_fd w"
  shows "wf_world w'"
  using assms unfolding wf_world_def lookup_def by simp

lemma since_tick [simp]: "since w0 H (tick w) \<longleftrightarrow> since w0 H w"
  by (auto simp: since_def fd_lists_frame [of "tick w" w] intro: wf_world_cong elim: wf_world_cong)

lemma staged_tick [simp]: "staged w0 t H K (tick w) \<longleftrightarrow> staged w0 t H K w"
  by (simp add: staged_def)

lemma observed_tick [simp]: "observed w0 H (tick w) \<longleftrightarrow> observed w0 H w"
  by (simp add: observed_def)

lemma since_start: "wf_world w \<Longrightarrow> since w {} w"
  by (auto simp: since_def wf_world_def old_fds_def new_fds_def filter_id_conv)

lemma observed_start: "wf_world w \<Longrightarrow> observed w {} w"
  by (simp add: observed_def since_start)


definition fresh_fd :: "world \<Rightarrow> nat set \<Rightarrow> nat \<Rightarrow> bool" where
  "fresh_fd w0 H fd \<longleftrightarrow> fd \<notin> H \<and> w_fd w0 \<le> fd"

lemma since_new_fd:
  assumes "since w0 H w" and "i < w_inode w" and "new_fd i w = (fd, w')"
  shows "fresh_fd w0 H fd" and "since w0 (insert fd H) w'" and "fd_inode w' fd = Some i"
    and "w_tree w' = w_tree w" and "w_file w' = w_file w" and "w_inode w' = w_inode w"
proof -
  have w': "fd = w_fd w" "w' = w\<lparr>w_fds := (w_fd w, i, Unlocked) # w_fds w, w_fd := Suc (w_fd w)\<rparr>"
    using assms(3) by (auto simp: new_fd_def)
  show "fresh_fd w0 H fd"
    using assms(1) by (fastforce simp: w' fresh_fd_def since_def new_fds_def wf_world_def)
  have "wf_world w'"
    using assms(1,2) by (auto simp: w' since_def wf_world_def lookup_def less_Suc_eq)
  then show "since w0 (insert fd H) w'"
    using assms(1) by (auto simp: w' since_def old_fds_def new_fds_def)
qed (use assms(3) in \<open>auto simp: new_fd_def fd_inode_def\<close>)

lemma since_close:
  assumes "since w0 (insert fd H) w" and "fresh_fd w0 H fd"
  shows "since w0 H (w\<lparr>w_fds := filter (\<lambda>(fd', _). fd' \<noteq> fd) (w_fds w)\<rparr>)"
proof -
  let ?w = "w\<lparr>w_fds := filter (\<lambda>(fd', _). fd' \<noteq> fd) (w_fds w)\<rparr>"
  have "wf_world ?w"
    using assms(1) by (auto simp: since_def wf_world_def lookup_def)
  moreover have "old_fds w0 ?w = old_fds w0 w"
    using assms(2) by (auto simp: old_fds_def fresh_fd_def intro!: filter_cong)
  moreover have "new_fds w0 ?w = new_fds w0 w - {fd}"
    by (force simp: new_fds_def)
  ultimately show ?thesis
    using assms by (auto simp: since_def fresh_fd_def)
qed

lemma since_set_lock:
  assumes "since w0 H w" and "w_fd w0 \<le> fd" shows "since w0 H (set_lock fd l w)"
proof -
  have "wf_world (set_lock fd l w)"
    using assms(1) by (auto simp: since_def wf_world_def lookup_def set_lock_def)
  moreover have "old_fds w0 (set_lock fd l w) = old_fds w0 w"
    using assms(2) unfolding old_fds_def set_lock_def
    by (auto simp: filter_map o_def case_prod_unfold intro!: map_idI cong: filter_cong)
  moreover have "new_fds w0 (set_lock fd l w) = new_fds w0 w"
    by (force simp: new_fds_def set_lock_def)
  ultimately show ?thesis
    using assms(1) by (simp add: since_def set_lock_def)
qed

lemma set_lock_simps [simp]:
  "w_tree (set_lock fd l w) = w_tree w" "w_file (set_lock fd l w) = w_file w" "w_inode (set_lock fd l w) = w_inode w"
  "w_env (set_lock fd l w) = w_env w" "w_tick (set_lock fd l w) = w_tick w" "lookup (set_lock fd l w) p = lookup w p"
  by (simp_all add: set_lock_def lookup_def)

lemma fd_inode_set_lock [simp]: "fd_inode (set_lock fd l w) fd' = fd_inode w fd'"
proof -
  have "map_option fst (map_of (map (\<lambda>(fd', i, l'). (fd', i, if fd' = fd then l else l')) xs) fd') = map_option fst (map_of xs fd')" for xs
    by (induction xs) auto
  then show ?thesis by (simp add: fd_inode_def set_lock_def)
qed

definition at_inode :: "path \<Rightarrow> nat \<Rightarrow> nat \<Rightarrow> world \<Rightarrow> bool" where
  "at_inode p fd i w \<longleftrightarrow> fd_inode w fd = Some i \<and> lookup w p = Some (FileEntry i)"

section \<open>Assertions that only look at the tree and the files\<close>

text \<open>
  Opening, locking, mapping and closing respect every assertion that a change of the descriptors
  opened since cannot break.
\<close>

locale descriptor_frame =
  fixes w0 :: world and A :: "nat set \<Rightarrow> world \<Rightarrow> bool"
  assumes A_since: "A H w \<Longrightarrow> since w0 H w"
    and A_frame: "A H w \<Longrightarrow> since w0 H' w' \<Longrightarrow> w_tree w' = w_tree w \<Longrightarrow> w_file w' = w_file w \<Longrightarrow> w_inode w' = w_inode w
                  \<Longrightarrow> A H' w'"
begin

lemma A_tick [simp]: "A H w \<Longrightarrow> A H (tick w)"
  by (rule A_frame) (auto simp: A_since)

lemma open_keeps:
  "striple (A H) (sys_open p)
     (\<lambda>fd w. fresh_fd w0 H fd \<and> (\<exists>i. fd_inode w fd = Some i \<and> lookup w p = Some (FileEntry i)) \<and> A (insert fd H) w) (\<lambda>_. A H)"
  unfolding sys_open_def
proof (rule striple_syscall)
  fix w assume A: "A H w"
  have i: "i < w_inode (tick w)" if "lookup w p = Some (FileEntry i)" for i
    using A_since [OF A] that by (auto simp: since_def wf_world_def)
  have s: "since w0 H (tick w)" using A_since [OF A] by simp
  have l: "lookup w' p = lookup w p" if "new_fd i (tick w) = (fd, w')" for i fd w'
    using that by (auto simp: new_fd_def lookup_def)
  show "case case lookup (tick w) p of None \<Rightarrow> (Inl ENOENT, tick w) | Some DirEntry \<Rightarrow> (Inl EINVAL, tick w)
         | Some (FileEntry i) \<Rightarrow> (let (fd, w') = new_fd i (tick w) in (Inr fd, w')) of
       (Inl e, w') \<Rightarrow> A H w'
     | (Inr fd, w') \<Rightarrow> fresh_fd w0 H fd \<and> (\<exists>i. fd_inode w' fd = Some i \<and> lookup w' p = Some (FileEntry i)) \<and> A (insert fd H) w'"
    using A since_new_fd [OF s i] l A_frame [OF A, of "insert _ H"]
    by (fastforce split: option.splits entry.splits prod.splits)
qed simp

lemma close_keeps:
  assumes "fresh_fd w0 H fd" shows "triple (A (insert fd H)) (sys_close fd) (\<lambda>_. A H) E"
  unfolding triple_def sys_close_def
  using since_close [OF _ assms, of "tick _"] A_since A_frame [of "insert fd H" _ H] by fastforce

lemma flock_keeps:
  assumes "w_fd w0 \<le> fd" and "\<And>w w'. B w \<Longrightarrow> fd_inode w' = fd_inode w \<Longrightarrow> w_tree w' = w_tree w \<Longrightarrow> w_file w' = w_file w \<Longrightarrow> B w'"
  shows "striple (\<lambda>w. A H w \<and> B w) (sys_flock fd l) (\<lambda>_ w. A H w \<and> B w) (\<lambda>_ w. A H w \<and> B w)"
  unfolding sys_flock_def
proof (rule striple_syscall)
  fix w assume AB: "A H w \<and> B w"
  have t: "A H (tick w)" "B (tick w)"
    using AB assms(2) [of w "tick w"] by (auto simp: fd_inode_def fun_eq_iff)
  have "A H (set_lock fd l' (tick w))" for l'
    by (rule A_frame [OF t(1)]) (use since_set_lock [OF A_since [OF t(1)] assms(1)] in auto)
  moreover have "B (set_lock fd l' (tick w))" for l'
    by (rule assms(2) [OF t(2)]) (auto simp: fun_eq_iff)
  ultimately show "case case fd_inode (tick w) fd of None \<Rightarrow> (Inl EBADF, tick w)
         | Some i \<Rightarrow> if lock_free (tick w) fd i l then (Inr (), set_lock fd l (tick w)) else (Inl EWOULDBLOCK, set_lock fd Unlocked (tick w)) of
       (Inl e, w') \<Rightarrow> A H w' \<and> B w' | (Inr a, w') \<Rightarrow> A H w' \<and> B w'"
    using t by (auto split: option.splits)
next
  fix w e assume AB: "A H w \<and> B w"
  then show "A H (tick w) \<and> B (tick w)"
    using assms(2) [of w "tick w"] by (auto simp: fd_inode_def fun_eq_iff)
qed

lemma close_fd_keeps:
  assumes "fresh_fd w0 H fd" shows "triple (A (insert fd H)) (close_fd fd) (\<lambda>_. A H) E"
  unfolding close_fd_def
proof (rule triple_bind)
  show "triple (A (insert fd H)) (isys (sys_flock fd Unlocked)) (\<lambda>_. A (insert fd H)) E"
    using flock_keeps [of fd "\<lambda>_. True"] assms
    by (intro triple_isys) (auto simp: fresh_fd_def)
qed (rule close_keeps [OF assms])

lemma destroy_keeps:
  assumes "fresh_fd w0 H fd" and "shm_fd s = Some fd"
  shows "triple (A (insert fd H)) (SharedMemory_destroy s) (\<lambda>_. A H) E"
  using close_fd_keeps [OF assms(1)] assms(2) by (simp add: SharedMemory_destroy_def)

lemma query_keeps:
  assumes "\<And>w. snd (f w) = w" and "\<And>w. B w \<Longrightarrow> B (tick w)"
    and "\<And>w a. B w \<Longrightarrow> fst (f w) = Inr a \<Longrightarrow> Q a w"
  shows "striple (\<lambda>w. A H w \<and> B w) (syscall f) (\<lambda>a w. A H w \<and> B w \<and> Q a w) (\<lambda>_ w. A H w \<and> B w)"
proof (rule striple_syscall)
  fix w assume "A H w \<and> B w"
  then show "case f (tick w) of (Inr a, w') \<Rightarrow> A H w' \<and> B w' \<and> Q a w' | (Inl e, w') \<Rightarrow> A H w' \<and> B w'"
    using assms(1) [of "tick w"] assms(2) [of w] assms(3) [of "tick w"] by (cases "f (tick w)") (auto split: sum.splits)
qed (use assms(2) in simp)

text \<open>The second half of the constructor, once the descriptor is there.\<close>

lemma lock_segment_keeps:
  assumes "fresh_fd w0 H fd"
  shows "triple (\<lambda>w. A (insert fd H) w \<and> at_inode p fd i w) (lock_segment fd mode lm)
           (\<lambda>_ w. A (insert fd H) w \<and> at_inode p fd i w) (A (insert fd H))"
proof -
  have k: "triple (\<lambda>w. A (insert fd H) w \<and> at_inode p fd i w) (ibind (orthrow SystemError (sys_flock fd l)) (\<lambda>_. iret lt))
           (\<lambda>_ w. A (insert fd H) w \<and> at_inode p fd i w) (A (insert fd H))" for l and lt :: LockType
  proof (rule triple_bind [OF triple_orthrow])
    have "striple (\<lambda>w. A (insert fd H) w \<and> at_inode p fd i w) (sys_flock fd l)
       (\<lambda>_ w. A (insert fd H) w \<and> at_inode p fd i w) (\<lambda>_ w. A (insert fd H) w \<and> at_inode p fd i w)"
      by (rule flock_keeps) (use assms in \<open>auto simp: fresh_fd_def at_inode_def lookup_def\<close>)
    then show "striple (\<lambda>w. A (insert fd H) w \<and> at_inode p fd i w) (sys_flock fd l)
       (\<lambda>_ w. A (insert fd H) w \<and> at_inode p fd i w) (\<lambda>_. A (insert fd H))"
      by (rule striple_weaken) simp_all
  qed (rule triple_ret)
  show ?thesis
    unfolding lock_segment_def by (intro triple_if k triple_ret)
qed

lemma map_segment_keeps:
  "triple (\<lambda>w. A (insert fd H) w \<and> at_inode p fd i w)
     (ibind (orthrow SystemError (sys_fstat fd)) (\<lambda>st.
        if sz \<le> snd st then
          ibind (orthrow SystemError (sys_mmap fd)) (\<lambda>i.
            iret \<lparr>shm_fd = Some fd, shm_mode = m, shm_data = Some i, shm_mappedSize = snd st, shm_lockType = lt\<rparr>)
        else ithrow (SystemError ENOMEM)))
     (\<lambda>s w. s = \<lparr>shm_fd = Some fd, shm_mode = m, shm_data = Some i, shm_mappedSize = f_size (w_file w i), shm_lockType = lt\<rparr>
        \<and> sz \<le> f_size (w_file w i) \<and> at_inode p fd i w \<and> A (insert fd H) w)
     (A (insert fd H))"
proof (rule triple_bind [OF triple_orthrow])
  have "striple (\<lambda>w. A (insert fd H) w \<and> at_inode p fd i w) (sys_fstat fd)
          (\<lambda>st w. A (insert fd H) w \<and> at_inode p fd i w \<and> st = (i, f_size (w_file w i))) (\<lambda>_ w. A (insert fd H) w \<and> at_inode p fd i w)"
    unfolding sys_fstat_def by (rule query_keeps) (auto simp: at_inode_def split: option.splits)
  then show "striple (\<lambda>w. A (insert fd H) w \<and> at_inode p fd i w) (sys_fstat fd)
          (\<lambda>st w. A (insert fd H) w \<and> at_inode p fd i w \<and> st = (i, f_size (w_file w i))) (\<lambda>_. A (insert fd H))"
    by (rule striple_weaken) simp_all
next
  fix st :: "nat \<times> u64"
  let ?B = "\<lambda>w. at_inode p fd i w \<and> st = (i, f_size (w_file w i))"
  have "striple (\<lambda>w. A (insert fd H) w \<and> ?B w) (sys_mmap fd) (\<lambda>j w. A (insert fd H) w \<and> ?B w \<and> j = i) (\<lambda>_ w. A (insert fd H) w \<and> ?B w)"
    unfolding sys_mmap_def by (rule query_keeps) (auto simp: at_inode_def split: option.splits if_splits)
  then have m: "striple (\<lambda>w. A (insert fd H) w \<and> ?B w) (sys_mmap fd) (\<lambda>j w. A (insert fd H) w \<and> ?B w \<and> j = i) (\<lambda>_. A (insert fd H))"
    by (rule striple_weaken) simp_all
  show "triple (\<lambda>w. A (insert fd H) w \<and> ?B w)
     (if sz \<le> snd st then ibind (orthrow SystemError (sys_mmap fd)) (\<lambda>i.
            iret \<lparr>shm_fd = Some fd, shm_mode = m, shm_data = Some i, shm_mappedSize = snd st, shm_lockType = lt\<rparr>)
      else ithrow (SystemError ENOMEM))
     (\<lambda>s w. s = \<lparr>shm_fd = Some fd, shm_mode = m, shm_data = Some i, shm_mappedSize = f_size (w_file w i), shm_lockType = lt\<rparr>
        \<and> sz \<le> f_size (w_file w i) \<and> at_inode p fd i w \<and> A (insert fd H) w) (A (insert fd H))"
    by (intro triple_if triple_bind [OF triple_orthrow [OF m]] triple_ret triple_throw) auto
qed

lemma finish_segment_keeps:
  assumes "fresh_fd w0 H fd"
  shows "triple (\<lambda>w. A (insert fd H) w \<and> at_inode p fd i w)
     (iunwind
       (ibind (lock_segment fd mode lm) (\<lambda>lt.
        ibind (orthrow SystemError (sys_fstat fd)) (\<lambda>st.
          if sz \<le> snd st then
            ibind (orthrow SystemError (sys_mmap fd)) (\<lambda>i.
              iret \<lparr>shm_fd = Some fd, shm_mode = m, shm_data = Some i, shm_mappedSize = snd st, shm_lockType = lt\<rparr>)
          else ithrow (SystemError ENOMEM))))
       (close_fd fd))
     (\<lambda>s w. shm_fd s = Some fd \<and> shm_mode s = m \<and> shm_data s = Some i \<and> shm_mappedSize s = f_size (w_file w i)
        \<and> sz \<le> f_size (w_file w i) \<and> at_inode p fd i w \<and> A (insert fd H) w)
     (A H)"
  by (rule triple_unwind [OF triple_bind [OF lock_segment_keeps [OF assms] triple_weaken [OF map_segment_keeps]]
        close_fd_keeps [OF assms]]) auto

lemma open_existing_keeps:
  assumes "mode \<noteq> CREATE_READ_WRITE"
  shows "triple (A H) (SharedMemoryBase_new p mode sz lm)
     (\<lambda>s w. \<exists>fd i. fresh_fd w0 H fd \<and> shm_fd s = Some fd \<and> shm_mode s = mode \<and> shm_data s = Some i
        \<and> shm_mappedSize s = f_size (w_file w i) \<and> sz \<le> f_size (w_file w i) \<and> lookup w p = Some (FileEntry i) \<and> A (insert fd H) w)
     (A H)"
  unfolding SharedMemoryBase_new_def
proof (rule triple_bind)
  let ?R = "\<lambda>(fd, m) w. fresh_fd w0 H fd \<and> m = mode \<and> (\<exists>i. A (insert fd H) w \<and> at_inode p fd i w)"
  have "(if mode = READ_ONLY then READ_ONLY else READ_WRITE) = mode"
    using assms by (cases mode) auto
  then have "triple (A H) (ibind (orthrow SystemError (sys_open p)) (\<lambda>fd. iret (fd, if mode = READ_ONLY then READ_ONLY else READ_WRITE))) ?R (A H)"
    by (intro triple_bind [OF triple_orthrow [OF open_keeps]] triple_ret) (auto simp: at_inode_def)
  then show "triple (A H) (open_segment p mode sz) ?R (A H)"
    using assms by (simp add: open_segment_def ibind_def [of "iret _"] triple_def iret_simps)
  fix x :: "nat \<times> AccessMode"
  obtain fd m where x: "x = (fd, m)" by fastforce
  show "triple (?R x)
     (case x of (fd, m) \<Rightarrow> iunwind
       (ibind (lock_segment fd mode lm) (\<lambda>lt.
        ibind (orthrow SystemError (sys_fstat fd)) (\<lambda>st.
          if sz \<le> snd st then
            ibind (orthrow SystemError (sys_mmap fd)) (\<lambda>i.
              iret \<lparr>shm_fd = Some fd, shm_mode = m, shm_data = Some i, shm_mappedSize = snd st, shm_lockType = lt\<rparr>)
          else ithrow (SystemError ENOMEM))))
       (close_fd fd))
     (\<lambda>s w. \<exists>fd i. fresh_fd w0 H fd \<and> shm_fd s = Some fd \<and> shm_mode s = mode \<and> shm_data s = Some i
        \<and> shm_mappedSize s = f_size (w_file w i) \<and> sz \<le> f_size (w_file w i) \<and> lookup w p = Some (FileEntry i) \<and> A (insert fd H) w)
     (A H)"
    unfolding x prod.case
    by (intro triple_pure triple_ex, rule triple_weaken [OF finish_segment_keeps]) (auto simp: at_inode_def)
qed

lemma exists_keeps: "triple (A H) (fs_exists p) (\<lambda>b w. A H w \<and> (b \<longrightarrow> lookup w p \<noteq> None)) (A H)"
  unfolding triple_def fs_exists_def syscall_def by (auto split: option.splits)

lemma is_directory_keeps: "triple (A H) (fs_is_directory p) (\<lambda>b w. A H w \<and> (b \<longrightarrow> lookup w p = Some DirEntry)) (A H)"
  unfolding triple_def fs_is_directory_def syscall_def by (auto split: option.splits)

end

interpretation staged_frame: descriptor_frame w0 "\<lambda>H. staged w0 t H K" for w0 t K
  by unfold_locales (auto simp: staged_def lookup_def)

interpretation observed_frame: descriptor_frame w0 "observed w0" for w0
  by unfold_locales (auto simp: observed_def)

end
