(* ===== verification/Staging.thy ===== *)
theory Staging
  imports Effects
begin

text \<open>
  Building a directory: what every system call that changes the tree or a file does to a staged world
  (\<open>Effects.thy\<close>), and so what the constructors of shared memory segments leave behind when they
  create their file. Everything is stated for all failures: on an exception the descriptors opened by
  the call are closed again and only the directory under construction may have changed.
\<close>

definition staged_any :: "world \<Rightarrow> path \<Rightarrow> nat set \<Rightarrow> world \<Rightarrow> bool" where
  "staged_any w0 t H w \<longleftrightarrow> (\<exists>K. staged w0 t H K w)"

lemma staged_anyI: "staged w0 t H K w \<Longrightarrow> staged_any w0 t H w"
  by (auto simp: staged_any_def)

interpretation staged_any_frame: descriptor_frame w0 "staged_any w0 t" for w0 t
proof unfold_locales
  show "since w0 H w" if "staged_any w0 t H w" for H w
    using that by (auto simp: staged_any_def staged_def)
  show "staged_any w0 t H' w'"
    if "staged_any w0 t H w" "since w0 H' w'" "w_tree w' = w_tree w" "w_file w' = w_file w" "w_inode w' = w_inode w" for H H' w w'
    using that unfolding staged_any_def by (blast intro: staged_frame.A_frame)
qed

section \<open>New entries\<close>

lemma lookup_add_entry [simp]: "lookup (add_entry p e w) q = (if q = p then Some e else lookup w q)"
  by (simp add: add_entry_def lookup_def)

lemma lookup_new_file [simp]: "lookup (new_file p f w) q = (if q = p then Some (FileEntry (w_inode w)) else lookup w q)"
  by (simp add: new_file_def lookup_def)

lemma staged_lookup: "staged w0 t H K w \<Longrightarrow> under t p \<Longrightarrow> lookup w p = map_option entry_of (K p)"
  by (simp add: staged_def)

lemma staged_cong:
  assumes "staged w0 t H K w" and "\<And>p. under t p \<Longrightarrow> K' p = K p" shows "staged w0 t H K' w"
  using assms unfolding staged_def by metis

lemma staged_NFile:
  assumes "staged w0 t H K w" and "under t p" and "K p = Some (NFile i f)"
  shows "lookup w p = Some (FileEntry i)" and "w_file w i = f" and "w_inode w0 \<le> i" and "i < w_inode w"
proof -
  show l: "lookup w p = Some (FileEntry i)" using assms by (simp add: staged_lookup)
  show "w_file w i = f" "w_inode w0 \<le> i" using assms by (auto simp: staged_def)
  show "i < w_inode w" using l assms(1) by (auto simp: staged_def since_def wf_world_def)
qed

lemma wf_world_add:
  assumes "wf_world w" and "lookup w p = None" and "lookup w (butlast p) = Some DirEntry"
  shows "wf_world (add_entry p DirEntry w)" and "wf_world (new_file p f w)"
proof -
  show "wf_world (add_entry p DirEntry w)"
    using assms unfolding wf_world_def by (auto simp: add_entry_def [of p _ w] lookup_def)
  show "wf_world (new_file p f w)"
    using assms unfolding wf_world_def
    by (auto simp: less_Suc_eq new_file_def lookup_def)
qed

lemma since_add_dir:
  assumes "since w0 H w" and "lookup w p = None" and "lookup w (butlast p) = Some DirEntry"
  shows "since w0 H (add_entry p DirEntry w)"
  using assms wf_world_add(1) [OF _ assms(2,3)] fd_lists_frame [of "add_entry p DirEntry w" w w0]
  by (simp add: since_def add_entry_def)

lemma staged_add_dir:
  assumes "staged w0 t H K w" and "under t p" and "K p = None" and "K (butlast p) = Some NDir" and "under t (butlast p)"
  shows "staged w0 t H (K(p \<mapsto> NDir)) (add_entry p DirEntry w)"
proof -
  have l: "lookup w p = None" "lookup w (butlast p) = Some DirEntry"
    using assms by (simp_all add: staged_lookup)
  have "since w0 H (add_entry p DirEntry w)"
    using since_add_dir [OF _ l] assms(1) by (simp add: staged_def)
  moreover have "w_file (add_entry p DirEntry w) = w_file w"
    by (simp add: add_entry_def)
  ultimately show ?thesis
    using assms(1,2) by (simp add: staged_def)
qed

lemma staged_new_file:
  assumes "staged w0 t H K w" and "under t p" and "K p = None" and "K (butlast p) = Some NDir" and "under t (butlast p)"
  shows "staged w0 t H (K(p \<mapsto> NFile (w_inode w) f)) (new_file p f w)"
proof -
  have l: "lookup w p = None" "lookup w (butlast p) = Some DirEntry"
    using assms by (simp_all add: staged_lookup)
  have s: "since w0 H w" using assms(1) by (simp add: staged_def)
  have sn: "since w0 H (new_file p f w)"
    using s wf_world_add(2) [OF _ l] fd_lists_frame [of "new_file p f w" w w0]
    by (auto simp: since_def new_file_def)
  have "w_inode w0 \<le> i \<and> w_file (new_file p f w) i = f'"
    if "under t q" "(K(p \<mapsto> NFile (w_inode w) f)) q = Some (NFile i f')" for q i f'
  proof (cases "q = p")
    case True
    with that s show ?thesis by (auto simp: new_file_def since_def)
  next
    case False
    with that have k: "K q = Some (NFile i f')" by simp
    have "i < w_inode w" "w_inode w0 \<le> i" "w_file w i = f'"
      using staged_NFile [OF assms(1) that(1) k] by simp_all
    then show ?thesis by (simp add: new_file_def)
  qed
  then show ?thesis
    using assms(1,2) sn unfolding staged_def by auto
qed

text \<open>Changing a file created since changes what is known of that file and of no other.\<close>

lemma staged_set_file:
  assumes "staged w0 t H K w" and "under t p" and "K p = Some (NFile i f)"
  shows "staged w0 t H (K(p \<mapsto> NFile i f')) (put_file i f' w)"
proof -
  let ?w = "put_file i f' w"
  note p = staged_NFile [OF assms]
  have s: "since w0 H w" and wf: "wf_world w" using assms(1) by (auto simp: staged_def since_def)
  have sn: "since w0 H ?w"
    using s p(3) wf_world_cong [OF wf, of ?w] fd_lists_frame [of ?w w w0] by (auto simp: since_def)
  have "w_inode w0 \<le> j \<and> w_file ?w j = g"
    if "under t q" "(K(p \<mapsto> NFile i f')) q = Some (NFile j g)" for q j g
  proof (cases "q = p")
    case True
    with that p show ?thesis by auto
  next
    case False
    with that have k: "K q = Some (NFile j g)" by simp
    note q = staged_NFile [OF assms(1) that(1) k]
    have "j \<noteq> i" using wf p(1) q(1) False unfolding wf_world_def by blast
    with q show ?thesis by simp
  qed
  then show ?thesis
    using assms(1) p(1) assms(2,3) sn unfolding staged_def by (auto simp: lookup_def)
qed

section \<open>System calls that change the directory\<close>

definition can_add :: "path \<Rightarrow> layout \<Rightarrow> path \<Rightarrow> bool" where
  "can_add t K p \<longleftrightarrow> under t p \<and> under t (butlast p) \<and> K p = None \<and> K (butlast p) = Some NDir"

lemma can_add_lookup:
  "staged w0 t H K w \<Longrightarrow> can_add t K p \<Longrightarrow> lookup w p = None \<and> lookup w (butlast p) = Some DirEntry"
  by (simp add: can_add_def staged_lookup)

lemma mkdtemp_stages:
  assumes "wf_world w0"
  shows "striple (observed w0 {}) (sys_mkdtemp base pre)
     (\<lambda>t w. (\<exists>name. t = base @ [pre @ name]) \<and> lookup w0 t = None \<and> lookup w0 base = Some DirEntry \<and> staged w0 t {} [t \<mapsto> NDir] w)
     (\<lambda>_. observed w0 {})"
  unfolding sys_mkdtemp_def
proof (rule striple_syscall)
  fix w assume ob: "observed w0 {} w"
  let ?t = "base @ [pre @ en_tempname (w_env (tick w)) (w_tick (tick w))]"
  have l: "lookup w p = lookup w0 p" for p using ob by (simp add: observed_def lookup_def)
  have st: "staged w0 ?t {} [?t \<mapsto> NDir] (add_entry ?t DirEntry (tick w))"
    if "lookup w ?t = None" "lookup w base = Some DirEntry"
  proof -
    have "lookup w0 ?t = None" using that(1) l by simp
    then have "lookup w0 p = None" if "under ?t p" for p
      using absent_under [OF assms] that by blast
    moreover have "since w0 {} (add_entry ?t DirEntry (tick w))"
      by (rule since_add_dir) (use that ob in \<open>simp_all add: observed_def butlast_append\<close>)
    ultimately show ?thesis
      unfolding staged_def by (simp add: l)
  qed
  show "case let p = ?t in
          if lookup (tick w) base \<noteq> Some DirEntry then (Inl ENOENT, tick w)
          else if lookup (tick w) p \<noteq> None then (Inl EEXIST, tick w)
          else (Inr p, add_entry p DirEntry (tick w)) of
        (Inl e, w') \<Rightarrow> observed w0 {} w'
      | (Inr t, w') \<Rightarrow> (\<exists>name. t = base @ [pre @ name]) \<and> lookup w0 t = None \<and> lookup w0 base = Some DirEntry \<and> staged w0 t {} [t \<mapsto> NDir] w'"
    using ob st l by (auto simp: Let_def)
qed simp

lemma mkdir_stages:
  assumes "can_add t K p"
  shows "striple (staged w0 t H K) (sys_mkdir p) (\<lambda>b w. b \<and> staged w0 t H (K(p \<mapsto> NDir)) w) (\<lambda>_. staged w0 t H K)"
  unfolding sys_mkdir_def
proof (rule striple_syscall)
  fix w assume "staged w0 t H K w"
  then have s: "staged w0 t H K (tick w)" by simp
  show "case if lookup (tick w) (butlast p) \<noteq> Some DirEntry then (Inl ENOENT, tick w)
             else if lookup (tick w) p = Some DirEntry then (Inr False, tick w)
             else if lookup (tick w) p \<noteq> None then (Inl EEXIST, tick w) else (Inr True, add_entry p DirEntry (tick w)) of
        (Inl e, w') \<Rightarrow> staged w0 t H K w' | (Inr b, w') \<Rightarrow> b \<and> staged w0 t H (K(p \<mapsto> NDir)) w'"
    using can_add_lookup [OF s assms] staged_add_dir [OF s, of p] assms by (simp add: can_add_def)
qed simp

lemma open_create_stages:
  assumes "can_add t K p"
  shows "striple (staged w0 t H K) (sys_open_create p)
     (\<lambda>fd w. fresh_fd w0 H fd \<and> (\<exists>i. staged w0 t (insert fd H) (K(p \<mapsto> NFile i \<lparr>f_size = 0, f_content = RawBytes []\<rparr>)) w
        \<and> at_inode p fd i w))
     (\<lambda>_. staged w0 t H K)"
  unfolding sys_open_create_def
proof (rule striple_syscall)
  fix w assume "staged w0 t H K w"
  then have s: "staged w0 t H K (tick w)" by simp
  let ?f = "\<lparr>f_size = 0, f_content = RawBytes []\<rparr>"
  let ?w = "new_file p ?f (tick w)" and ?i = "w_inode (tick w)"
  have n: "staged w0 t H (K(p \<mapsto> NFile ?i ?f)) ?w"
    using staged_new_file [OF s, of p ?f] assms by (simp add: can_add_def)
  obtain fd w' where nf: "new_fd ?i ?w = (fd, w')" by fastforce
  have "?i < w_inode ?w" by (simp add: new_file_def)
  note f = since_new_fd [OF staged_frame.A_since [OF n] this nf]
  have "lookup w' p = Some (FileEntry ?i)"
    using f(4) by (simp add: lookup_def new_file_def)
  then show "case if lookup (tick w) (butlast p) \<noteq> Some DirEntry then (Inl ENOENT, tick w)
             else if lookup (tick w) p \<noteq> None then (Inl EEXIST, tick w)
             else let i = w_inode (tick w); (fd, w') = new_fd i (new_file p ?f (tick w)) in (Inr fd, w') of
        (Inl e, w') \<Rightarrow> staged w0 t H K w'
      | (Inr fd, w') \<Rightarrow> fresh_fd w0 H fd \<and> (\<exists>i. staged w0 t (insert fd H) (K(p \<mapsto> NFile i ?f)) w' \<and> at_inode p fd i w')"
    using can_add_lookup [OF s assms] f nf staged_frame.A_frame [OF n f(2,4,5,6)]
    by (auto simp: Let_def at_inode_def)
qed simp

lemma fallocate_stages:
  assumes "under t p" and "K p = Some (NFile i f)"
  shows "striple (\<lambda>w. staged w0 t H K w \<and> at_inode p fd i w) (sys_fallocate fd sz)
     (\<lambda>_ w. staged w0 t H (K(p \<mapsto> NFile i (f\<lparr>f_size := max sz (f_size f)\<rparr>))) w \<and> at_inode p fd i w)
     (\<lambda>_ w. staged w0 t H K w \<and> at_inode p fd i w)"
  unfolding sys_fallocate_def
proof (rule striple_syscall)
  fix w assume a: "staged w0 t H K w \<and> at_inode p fd i w"
  then have s: "staged w0 t H K (tick w)" and at: "at_inode p fd i (tick w)" by (auto simp: at_inode_def)
  note n = staged_set_file [OF s assms] and fl = staged_NFile [OF s assms]
  show "case case fd_inode (tick w) fd of
          None \<Rightarrow> (Inl EBADF, tick w)
        | Some i \<Rightarrow> if sz = 0 then (Inl EINVAL, tick w)
            else (Inr (), put_file i ((w_file (tick w) i)\<lparr>f_size := max sz (f_size (w_file (tick w) i))\<rparr>) (tick w)) of
        (Inl e, w') \<Rightarrow> staged w0 t H K w' \<and> at_inode p fd i w'
      | (Inr u, w') \<Rightarrow> staged w0 t H (K(p \<mapsto> NFile i (f\<lparr>f_size := max sz (f_size f)\<rparr>))) w' \<and> at_inode p fd i w'"
    using s at n fl by (simp add: at_inode_def)
qed (auto simp: at_inode_def)

lemma set_content_stages:
  assumes "staged w0 t H K w" and "under t p" and "K p = Some (NFile i f)"
  shows "staged w0 t H (K(p \<mapsto> NFile i (f\<lparr>f_content := c\<rparr>))) (set_content i c w)"
  using staged_set_file [OF assms] staged_NFile [OF assms] by (simp add: set_content_def)

lemma ofstream_stages:
  assumes "can_add t K p"
  shows "striple (staged w0 t H K) (sys_ofstream p)
     (\<lambda>i. staged w0 t H (K(p \<mapsto> NFile i \<lparr>f_size = 0, f_content = TextFile []\<rparr>))) (\<lambda>_. staged w0 t H K)"
  unfolding sys_ofstream_def
proof (rule striple_syscall)
  fix w assume "staged w0 t H K w"
  then have s: "staged w0 t H K (tick w)" by simp
  have l: "lookup (tick w) p = None" "lookup (tick w) (butlast p) = Some DirEntry"
    using can_add_lookup [OF s assms] by simp_all
  show "case case lookup (tick w) p of
          None \<Rightarrow> if lookup (tick w) (butlast p) \<noteq> Some DirEntry then (Inl ENOENT, tick w)
            else (Inr (w_inode (tick w)), new_file p \<lparr>f_size = 0, f_content = TextFile []\<rparr> (tick w))
        | Some DirEntry \<Rightarrow> (Inl EINVAL, tick w)
        | Some (FileEntry i) \<Rightarrow> (Inr i, put_file i \<lparr>f_size = 0, f_content = TextFile []\<rparr> (tick w)) of
        (Inl e, w') \<Rightarrow> staged w0 t H K w'
      | (Inr i, w') \<Rightarrow> staged w0 t H (K(p \<mapsto> NFile i \<lparr>f_size = 0, f_content = TextFile []\<rparr>)) w'"
    using l staged_new_file [OF s, of p] assms by (simp add: can_add_def)
qed simp

lemma write_stages:
  assumes "under t p" and "K p = Some (NFile i f)"
  shows "triple (staged w0 t H K) (sys_write i txt)
     (\<lambda>_ w. \<exists>n. staged w0 t H (K(p \<mapsto> NFile i (f\<lparr>f_content := TextFile (take n txt)\<rparr>))) w) E"
proof -
  have "\<exists>n. staged w0 t H (K(p \<mapsto> NFile i (f\<lparr>f_content := TextFile (take n txt)\<rparr>))) (snd (sys_write i txt w))"
    if "staged w0 t H K w" for w
  proof -
    have s: "staged w0 t H K (tick w)" using that by simp
    show ?thesis
      using set_content_stages [OF s assms]
      by (cases "en_fail (w_env w) (w_tick w)") (auto simp: sys_write_def intro: exI [of _ "length txt"])
  qed
  then show ?thesis
    by (fastforce simp: triple_def sys_write_def split: option.splits)
qed

lemma stat_stages:
  assumes "under t p" and "K p = Some (NFile i f)"
  shows "striple (staged w0 t H K) (sys_stat p) (\<lambda>j w. j = i \<and> staged w0 t H K w) (\<lambda>_. staged w0 t H K)"
  unfolding sys_stat_def
  by (rule striple_syscall) (simp_all add: assms staged_lookup)

section \<open>Publication and removal\<close>

definition relocate :: "path \<Rightarrow> path \<Rightarrow> layout \<Rightarrow> layout" where
  "relocate src dst K p = (if under dst p then K (src @ drop (length dst) p) else None)"

lemma relocate_append [simp]: "relocate src dst K (dst @ r) = K (src @ r)"
  by (simp add: relocate_def)

lemma under_butlast_self: "under p (butlast q) \<Longrightarrow> under p q"
  by (metis append_butlast_last_id butlast.simps(1) under_append under_trans)

lemma map_of_rename:
  assumes "\<And>q e. (q, e) \<in> set xs \<Longrightarrow> \<not> under dst q"
  shows "map_of (map (\<lambda>(q, e). (rename_path src dst q, e)) xs) p
       = (if under dst p then map_of xs (src @ drop (length dst) p) else if under src p then None else map_of xs p)"
  using assms
proof (induction xs)
  case (Cons x xs)
  obtain q e where x: "x = (q, e)" by fastforce
  have nd: "\<not> under dst q" using Cons.prems [of q e] x by simp
  have "p = rename_path src dst q \<longleftrightarrow> (if under dst p then q = src @ drop (length dst) p else \<not> under src p \<and> q = p)"
    using nd by (auto simp: rename_path_def under_iff)
  moreover have "map_of (map (\<lambda>(q, e). (rename_path src dst q, e)) xs) p
       = (if under dst p then map_of xs (src @ drop (length dst) p) else if under src p then None else map_of xs p)"
    by (rule Cons.IH) (use Cons.prems in auto)
  ultimately show ?case by (simp add: x)
qed simp

lemma not_under_butlast: "p \<noteq> [] \<Longrightarrow> \<not> under p (butlast p)"
proof
  assume p: "p \<noteq> []" and "under p (butlast p)"
  then obtain r where "butlast p = p @ r" by (auto simp: under_iff)
  then have "length (butlast p) = length p + length r" by simp
  moreover have "length (butlast p) < length p" using p by simp
  ultimately show False by simp
qed

lemma map_of_filter_key: "map_of (filter (\<lambda>(q, _). P q) xs) p = (if P p then map_of xs p else None)"
  by (induction xs) auto

text \<open>
  Renaming the directory moves the whole layout at once: the world is then staged at the new place,
  and at the old one it is as before the directory was made.
\<close>

lemma lookup_renamed:
  assumes "wf_world w" and "lookup w dst = None" and "w2 = w\<lparr>w_tree := map (\<lambda>(p, e). (rename_path t dst p, e)) (w_tree w)\<rparr>"
  shows "lookup w2 p = (if under dst p then lookup w (t @ drop (length dst) p) else if under t p then None else lookup w p)"
proof -
  have "\<not> under dst q" if "(q, e) \<in> set (w_tree w)" for q e
    using absent_under [OF assms(1,2)] that unfolding lookup_def by (metis map_of_eq_None_iff fst_conv image_eqI)
  then show ?thesis
    using map_of_rename [of "w_tree w" dst t p] by (simp add: lookup_def assms(3))
qed

lemma wf_world_renamed:
  assumes wf: "wf_world w" and free: "lookup w dst = None" and parent: "lookup w (butlast dst) = Some DirEntry"
    and apart: "\<not> under t dst" and dst: "dst \<noteq> []"
    and w2: "w2 = w\<lparr>w_tree := map (\<lambda>(p, e). (rename_path t dst p, e)) (w_tree w)\<rparr>"
  shows "wf_world w2"
proof -
  note lk = lookup_renamed [OF wf free w2]
  have inj0: "a = b" if "lookup w a = Some (FileEntry i)" "lookup w b = Some (FileEntry i)" for a b i
    using wf that unfolding wf_world_def by blast
  have inj: "p = q" if "lookup w2 p = Some (FileEntry i)" "lookup w2 q = Some (FileEntry i)" for p q i
    using that unfolding lk under_iff by (auto split: if_splits simp: under_iff dest: inj0)
  have par0: "lookup w (butlast p) = Some DirEntry" if "p \<noteq> []" "lookup w p \<noteq> None" for p
    using wf that unfolding wf_world_def by blast
  have par: "lookup w2 (butlast p) = Some DirEntry" if p: "p \<noteq> []" "lookup w2 p \<noteq> None" for p
  proof (cases "under dst p \<and> p \<noteq> dst")
    case True
    then obtain r where r: "p = dst @ r" "r \<noteq> []" by (auto simp: under_iff)
    then have "lookup w (t @ r) \<noteq> None" using p(2) lk by simp
    then have "lookup w (butlast (t @ r)) = Some DirEntry" using par0 r(2) by blast
    then show ?thesis using r by (simp add: lk butlast_append)
  next
    case False
    have nu: "\<not> under dst (butlast p)"
      using False not_under_butlast [OF dst] under_butlast_self by blast
    have "\<not> under t p" and "lookup w (butlast p) = Some DirEntry"
      using False p apart parent par0 [of p] by (auto simp: lk split: if_splits)
    then show ?thesis using nu under_butlast_self by (auto simp: lk)
  qed
  have ino: "i < w_inode w2" if "lookup w2 p = Some (FileEntry i)" for p i
  proof -
    have "\<exists>q. lookup w q = Some (FileEntry i)" using that unfolding lk by (auto split: if_splits)
    then show ?thesis using wf unfolding wf_world_def by (auto simp: w2)
  qed
  have "\<forall>x\<in>set (w_fds w2). fst x < w_fd w2 \<and> fst (snd x) < w_inode w2"
    using wf by (simp add: w2 wf_world_def)
  with par inj ino show ?thesis unfolding wf_world_def by blast
qed

lemma staged_renamed:
  assumes wf0: "wf_world w0" and new: "lookup w0 t = None" and s: "staged w0 t H K w"
    and free: "lookup w dst = None" and parent: "lookup w (butlast dst) = Some DirEntry"
    and apart: "\<not> under t dst" and dst: "dst \<noteq> []"
    and w2: "w2 = w\<lparr>w_tree := map (\<lambda>(p, e). (rename_path t dst p, e)) (w_tree w)\<rparr>"
  shows "staged w0 dst H (relocate t dst K) w2"
proof -
  have si: "since w0 H w" and wf: "wf_world w" using s by (auto simp: staged_def since_def)
  note lk = lookup_renamed [OF wf free w2]
  have "lookup w2 p = lookup w0 p" if "\<not> under dst p" for p
    using that lk s absent_under [OF wf0 new] by (auto simp: staged_def)
  moreover have "lookup w2 p = map_option entry_of (relocate t dst K p)" if "under dst p" for p
    using that lk staged_lookup [OF s] by (simp add: relocate_def)
  moreover have "since w0 H w2"
    using si wf_world_renamed [OF wf free parent apart dst w2] fd_lists_frame [of w2 w w0] by (simp add: since_def w2)
  moreover have "w_inode w0 \<le> i \<and> w_file w2 i = f" if "under dst p" "relocate t dst K p = Some (NFile i f)" for p i f
    using staged_NFile(2,3) [OF s, of "t @ drop (length dst) p" i f] that by (simp add: relocate_def w2)
  ultimately show ?thesis unfolding staged_def by blast
qed

lemma rename_stages:
  assumes wf0: "wf_world w0" and new: "lookup w0 t = None" and nodes: "K t = Some NDir"
    and apart: "\<not> under t dst" and dst: "dst \<noteq> []"
  shows "striple (staged w0 t H K) (sys_rename_noreplace t dst)
     (\<lambda>_ w. lookup w0 dst = None \<and> staged w0 dst H (relocate t dst K) w) (\<lambda>_. staged w0 t H K)"
  unfolding sys_rename_noreplace_def
proof (rule striple_syscall)
  fix w assume "staged w0 t H K w"
  then have s: "staged w0 t H K (tick w)" by simp
  have "lookup (tick w) dst = lookup w0 dst" "lookup (tick w) t \<noteq> None"
    using s apart staged_lookup [OF s, of t] nodes unfolding staged_def by auto
  then show "case if lookup (tick w) t = None \<or> lookup (tick w) (butlast dst) \<noteq> Some DirEntry then (Inl ENOENT, tick w)
       else if lookup (tick w) dst \<noteq> None then (Inl EEXIST, tick w)
       else if under t dst then (Inl EINVAL, tick w)
       else (Inr (), (tick w)\<lparr>w_tree := map (\<lambda>(p, e). (rename_path t dst p, e)) (w_tree (tick w))\<rparr>) of
      (Inl e, w') \<Rightarrow> staged w0 t H K w'
    | (Inr u, w') \<Rightarrow> lookup w0 dst = None \<and> staged w0 dst H (relocate t dst K) w'"
    using s apart staged_renamed [OF wf0 new s _ _ apart dst refl] by simp
qed simp

text \<open>
  Removing the directory under construction empties the layout; when it fails some of it survives.
  After publication there is nothing to remove at the old place.
\<close>

lemma wf_world_removed:
  assumes wf: "wf_world w" and closed: "\<And>q. P q \<Longrightarrow> q \<noteq> [] \<Longrightarrow> P (butlast q)"
    and w2: "w2 = w\<lparr>w_tree := filter (\<lambda>(q, _). P q) (w_tree w)\<rparr>"
  shows "wf_world w2" and "lookup w2 p = (if P p then lookup w p else None)"
proof -
  show lk: "lookup w2 p = (if P p then lookup w p else None)" for p
    by (simp add: w2 lookup_def map_of_filter_key)
  have par0: "lookup w (butlast p) = Some DirEntry" if "p \<noteq> []" "lookup w p \<noteq> None" for p
    using wf that unfolding wf_world_def by blast
  have "lookup w2 (butlast p) = Some DirEntry" if "p \<noteq> []" "lookup w2 p \<noteq> None" for p
    using that par0 closed by (auto simp: lk split: if_splits)
  moreover have "i < w_inode w2" if "lookup w2 p = Some (FileEntry i)" for p i
  proof -
    have "\<exists>q. lookup w q = Some (FileEntry i)" using that unfolding lk by (auto split: if_splits)
    then show ?thesis using wf unfolding wf_world_def by (auto simp: w2)
  qed
  moreover have "p = q" if "lookup w2 p = Some (FileEntry i)" "lookup w2 q = Some (FileEntry i)" for p q i
    using wf that unfolding lk wf_world_def by (metis option.distinct(1))
  moreover have "\<forall>x\<in>set (w_fds w2). fst x < w_fd w2 \<and> fst (snd x) < w_inode w2"
    using wf by (simp add: w2 wf_world_def)
  ultimately show "wf_world w2" unfolding wf_world_def by blast
qed

lemma staged_removed:
  assumes s: "staged w0 t H K w" and closed: "\<And>q. P q \<Longrightarrow> q \<noteq> [] \<Longrightarrow> P (butlast q)" and "\<And>q. \<not> under t q \<Longrightarrow> lookup w q \<noteq> None \<Longrightarrow> P q"
  shows "staged w0 t H (\<lambda>q. if P q then K q else None) (w\<lparr>w_tree := filter (\<lambda>(q, _). P q) (w_tree w)\<rparr>)"
proof -
  define w2 where w2: "w2 = w\<lparr>w_tree := filter (\<lambda>(q, _). P q) (w_tree w)\<rparr>"
  have si: "since w0 H w" and wf: "wf_world w" using s by (auto simp: staged_def since_def)
  note r = wf_world_removed [OF wf closed w2]
  have "since w0 H w2"
    using si r(1) fd_lists_frame [of w2 w w0] by (simp add: since_def w2)
  moreover have "lookup w2 p = lookup w0 p" if "\<not> under t p" for p
  proof -
    have "lookup w p = lookup w0 p" using s that unfolding staged_def by blast
    then show ?thesis using assms(3) [OF that] by (cases "lookup w0 p") (auto simp: r(2))
  qed
  moreover have "lookup w2 p = map_option entry_of (if P p then K p else None)" if "under t p" for p
    using staged_lookup [OF s that] by (simp add: r(2))
  ultimately show ?thesis
    using s unfolding staged_def w2 by auto
qed

lemma survives_butlast: "survives w t q \<Longrightarrow> survives w t (butlast q)"
  by (cases q rule: rev_cases) (auto simp: survives_def list_all_iff)

lemma removal_closed:
  assumes "t \<noteq> []" and "q \<noteq> []"
  shows "\<not> under t q \<Longrightarrow> \<not> under t (butlast q)"
    and "\<not> under t q \<or> survives w t q \<Longrightarrow> \<not> under t (butlast q) \<or> survives w t (butlast q)"
  using survives_butlast under_butlast_self by blast+

lemma remove_stages:
  assumes "t \<noteq> []"
  shows "striple (staged_any w0 t H) (sys_remove_all t) (\<lambda>_. staged w0 t H Map.empty) (\<lambda>_. staged_any w0 t H)"
  unfolding striple_def
proof (intro allI impI)
  fix w assume "staged_any w0 t H w"
  then obtain K where "staged w0 t H K w" by (auto simp: staged_any_def)
  then have s: "staged w0 t H K (tick w)" by simp
  have e: "staged w0 t H Map.empty ((tick w)\<lparr>w_tree := filter (\<lambda>(q, _). \<not> under t q) (w_tree w)\<rparr>)"
    using staged_removed [OF s, of "\<lambda>q. \<not> under t q"] removal_closed(1) [OF assms] unfolding staged_def by simp
  have "staged_any w0 t H ((tick w)\<lparr>w_tree := filter (\<lambda>(q, _). \<not> under t q \<or> survives w t q) (w_tree w)\<rparr>)"
    using staged_removed [OF s, of "\<lambda>q. \<not> under t q \<or> survives w t q"] removal_closed(2) [OF assms]
    by (auto intro!: staged_anyI)
  with e show "case sys_remove_all t w of (Inl e, w') \<Rightarrow> staged_any w0 t H w' | (Inr a, w') \<Rightarrow> staged w0 t H Map.empty w'"
    by (simp add: sys_remove_all_def split: option.splits)
qed

lemma remove_elsewhere:
  assumes "t \<noteq> []" and "lookup w0 t = None" and "\<not> under d t"
  shows "striple (staged w0 d H K) (sys_remove_all t) (\<lambda>_. staged w0 d H K) (\<lambda>_. staged w0 d H K)"
  unfolding striple_def
proof (intro allI impI)
  fix w assume "staged w0 d H K w"
  then have s: "staged w0 d H K (tick w)" by simp
  then have wf: "wf_world (tick w)" and "lookup (tick w) t = None"
    using assms by (auto simp: staged_def since_def)
  note gone = absent_under [OF this]
  have k: "staged w0 d H K ((tick w)\<lparr>w_tree := filter (\<lambda>(q, _). P q) (w_tree w)\<rparr>)"
    if P: "\<And>q. P q \<Longrightarrow> q \<noteq> [] \<Longrightarrow> P (butlast q)" "\<And>q. \<not> under t q \<Longrightarrow> P q" for P
  proof -
    have Pd: "P q" if "lookup (tick w) q \<noteq> None" for q
      by (rule P(2)) (use that gone [of q] in auto)
    have n: "staged w0 d H (\<lambda>q. if P q then K q else None) ((tick w)\<lparr>w_tree := filter (\<lambda>(q, _). P q) (w_tree (tick w))\<rparr>)"
      by (rule staged_removed [OF s]) (auto intro: P(1) Pd)
    have "(if P q then K q else None) = K q" if "under d q" for q
      using Pd [of q] staged_lookup [OF s that] by (cases "K q") auto
    with n have "staged w0 d H K ((tick w)\<lparr>w_tree := filter (\<lambda>(q, _). P q) (w_tree (tick w))\<rparr>)"
      by (rule staged_cong [OF _ sym])
    then show ?thesis by simp
  qed
  show "case sys_remove_all t w of (Inl e, w') \<Rightarrow> staged w0 d H K w' | (Inr a, w') \<Rightarrow> staged w0 d H K w'"
    using k [of "\<lambda>q. \<not> under t q"] k [of "\<lambda>q. \<not> under t q \<or> survives w t q"] removal_closed [OF assms(1)]
    by (simp add: sys_remove_all_def split: option.splits)
qed

section \<open>Creating segments\<close>

lemma create_base_stages:
  assumes "can_add t K p"
  shows "triple (staged w0 t H K) (SharedMemoryBase_new p CREATE_READ_WRITE sz lm)
     (\<lambda>s w. \<exists>fd i. fresh_fd w0 H fd \<and> shm_fd s = Some fd \<and> shm_mode s = CREATE_READ_WRITE \<and> shm_data s = Some i \<and> shm_mappedSize s = sz
        \<and> staged w0 t (insert fd H) (K(p \<mapsto> NFile i \<lparr>f_size = sz, f_content = RawBytes []\<rparr>)) w)
     (staged_any w0 t H)"
  unfolding SharedMemoryBase_new_def
proof (rule triple_bind)
  let ?n = "\<lambda>sz. \<lparr>f_size = sz, f_content = RawBytes []\<rparr>"
  let ?R = "\<lambda>(fd, m) w. fresh_fd w0 H fd \<and> m = CREATE_READ_WRITE \<and>
     (\<exists>i. staged w0 t (insert fd H) (K(p \<mapsto> NFile i (?n sz))) w \<and> at_inode p fd i w)"
  have u: "under t p" using assms by (simp add: can_add_def)
  have k: "triple (\<lambda>w. staged w0 t H K w) (orthrow SystemError (sys_open p)) (\<lambda>_ _. False) (staged_any w0 t H)"
    by (rule triple_orthrow, unfold sys_open_def, rule striple_syscall)
       (use assms can_add_lookup in \<open>fastforce intro: staged_anyI\<close>)+
  have f: "triple (\<lambda>w. staged w0 t (insert fd H) (K(p \<mapsto> NFile i (?n 0))) w \<and> at_inode p fd i w)
       (iunwind (ibind (orthrow SystemError (sys_fallocate fd sz)) (\<lambda>_. iret (fd, CREATE_READ_WRITE))) (close_fd fd)) ?R (staged_any w0 t H)"
    if "fresh_fd w0 H fd" for fd i
  proof (rule triple_unwind [OF triple_bind [OF triple_orthrow]])
    show "striple (\<lambda>w. staged w0 t (insert fd H) (K(p \<mapsto> NFile i (?n 0))) w \<and> at_inode p fd i w) (sys_fallocate fd sz)
       (\<lambda>_ w. staged w0 t (insert fd H) (K(p \<mapsto> NFile i (?n sz))) w \<and> at_inode p fd i w) (\<lambda>_. staged_any w0 t (insert fd H))"
      by (rule striple_weaken [OF fallocate_stages [OF u, where K = "K(p \<mapsto> NFile i (?n 0))" and f = "?n 0"]]) (auto intro: staged_anyI)
    show "triple (staged_any w0 t (insert fd H)) (close_fd fd) (\<lambda>_. staged_any w0 t H) (staged_any w0 t H)"
      by (rule staged_any_frame.close_fd_keeps [OF that])
  qed (rule triple_ret, use that in auto)
  show "triple (staged w0 t H K) (open_segment p CREATE_READ_WRITE sz) ?R (staged_any w0 t H)"
    unfolding open_segment_def
  proof (simp only: simp_thms if_True, rule triple_bind [OF triple_isys])
    let ?S = "\<lambda>r w. case r of Inr fd \<Rightarrow> fresh_fd w0 H fd \<and> (\<exists>i. staged w0 t (insert fd H) (K(p \<mapsto> NFile i (?n 0))) w \<and> at_inode p fd i w)
                | Inl e \<Rightarrow> staged w0 t H K w"
    show "striple (staged w0 t H K) (sys_open_create p) (\<lambda>a. ?S (Inr a)) (\<lambda>e. ?S (Inl e))"
      using open_create_stages [OF assms] by simp
    show "triple (?S r) (case r of
         Inl e \<Rightarrow> ibind (orthrow SystemError (sys_open p)) (\<lambda>fd. iret (fd, if CREATE_READ_WRITE = READ_ONLY then READ_ONLY else READ_WRITE))
       | Inr fd \<Rightarrow> iunwind (ibind (orthrow SystemError (sys_fallocate fd sz)) (\<lambda>_. iret (fd, CREATE_READ_WRITE))) (close_fd fd))
       ?R (staged_any w0 t H)" for r
      by (cases r) (auto intro!: triple_pure triple_ex f triple_bind [OF k] triple_ret)
  qed
  show "triple (?R x) (case x of (fd, m) \<Rightarrow> iunwind
       (ibind (lock_segment fd CREATE_READ_WRITE lm) (\<lambda>lt.
        ibind (orthrow SystemError (sys_fstat fd)) (\<lambda>st.
          if sz \<le> snd st then
            ibind (orthrow SystemError (sys_mmap fd)) (\<lambda>i.
              iret \<lparr>shm_fd = Some fd, shm_mode = m, shm_data = Some i, shm_mappedSize = snd st, shm_lockType = lt\<rparr>)
          else ithrow (SystemError ENOMEM))))
       (close_fd fd))
     (\<lambda>s w. \<exists>fd i. fresh_fd w0 H fd \<and> shm_fd s = Some fd \<and> shm_mode s = CREATE_READ_WRITE \<and> shm_data s = Some i \<and> shm_mappedSize s = sz
        \<and> staged w0 t (insert fd H) (K(p \<mapsto> NFile i (?n sz))) w) (staged_any w0 t H)" for x
  proof (cases x)
    case (Pair fd m)
    have fl: "w_file w i = ?n sz" if "staged w0 t (insert fd H) (K(p \<mapsto> NFile i (?n sz))) w" for w i
      using staged_NFile(2) [OF that u] by simp
    show ?thesis
      unfolding Pair prod.case
      by (intro triple_pure triple_ex, rule triple_weaken [OF staged_frame.finish_segment_keeps]) (auto intro: staged_anyI simp: fl)
  qed
qed

lemma create_instance_stages:
  assumes "can_add t K p"
  shows "triple (staged w0 t H K) (SharedMemoryInstance_new initial sizeof p CREATE_READ_WRITE sz lm)
     (\<lambda>s w. \<exists>fd i. fresh_fd w0 H fd \<and> shm_fd s = Some fd \<and> shm_mode s = CREATE_READ_WRITE \<and> shm_data s = Some i
        \<and> shm_mappedSize s = sz + sizeof
        \<and> staged w0 t (insert fd H) (K(p \<mapsto> NFile i \<lparr>f_size = sz + sizeof, f_content = initial\<rparr>)) w)
     (staged_any w0 t H)"
  unfolding SharedMemoryInstance_new_def
proof (rule triple_bind [OF create_base_stages [OF assms]], intro triple_ex triple_pure)
  fix s :: SharedMemoryBase and fd i
  assume a: "fresh_fd w0 H fd" "shm_fd s = Some fd" "shm_mode s = CREATE_READ_WRITE" "shm_data s = Some i" "shm_mappedSize s = sz + sizeof"
  have u: "under t p" using assms by (simp add: can_add_def)
  let ?K = "K(p \<mapsto> NFile i \<lparr>f_size = sz + sizeof, f_content = RawBytes []\<rparr>)"
  have "staged w0 t (insert fd H) (K(p \<mapsto> NFile i \<lparr>f_size = sz + sizeof, f_content = initial\<rparr>)) (set_content i initial w)"
    if "staged w0 t (insert fd H) ?K w" for w
    using set_content_stages [OF that u, of i "\<lparr>f_size = sz + sizeof, f_content = RawBytes []\<rparr>" initial] by simp
  then show "triple (staged w0 t (insert fd H) ?K)
     (if created s then if shm_mappedSize s < sz + sizeof then iunwind (ithrow RuntimeError) (SharedMemory_destroy s)
        else case shm_data s of None \<Rightarrow> icrash NullDereference | Some i \<Rightarrow> \<lambda>w. (Ret s, set_content i initial w)
      else iret s)
     (\<lambda>s w. \<exists>fd i. fresh_fd w0 H fd \<and> shm_fd s = Some fd \<and> shm_mode s = CREATE_READ_WRITE \<and> shm_data s = Some i
        \<and> shm_mappedSize s = sz + sizeof
        \<and> staged w0 t (insert fd H) (K(p \<mapsto> NFile i \<lparr>f_size = sz + sizeof, f_content = initial\<rparr>)) w)
     (staged_any w0 t H)"
    using a by (auto simp: created_def triple_def iret_simps)
qed

text \<open>Stores through the mapping of a file created since.\<close>

lemma put_flow_stages:
  assumes "under t p" and "K p = Some (NFile i f)" and "f_content f = FlowSegment fl" and "shm_data s = Some i"
  shows "triple (staged w0 t H K) (put_flow s g) (\<lambda>_. staged w0 t H (K(p \<mapsto> NFile i (f\<lparr>f_content := FlowSegment (g fl)\<rparr>)))) E"
  unfolding triple_def
proof (intro allI impI)
  fix w assume s: "staged w0 t H K w"
  show "case put_flow s g w of (Ret a, w') \<Rightarrow> staged w0 t H (K(p \<mapsto> NFile i (f\<lparr>f_content := FlowSegment (g fl)\<rparr>))) w'
      | (Throw e, w') \<Rightarrow> E w' | (Crash c, w') \<Rightarrow> False"
    using set_content_stages [OF s assms(1,2)] staged_NFile(2) [OF s assms(1,2)] assms(3,4)
    by (simp add: put_flow_def as_flow_def)
qed

lemma put_grain_stages:
  assumes "under t p" and "K p = Some (NFile i f)" and "f_content f = GrainSegment gi" and "shm_data s = Some i"
  shows "triple (staged w0 t H K) (put_grain s g) (\<lambda>_. staged w0 t H (K(p \<mapsto> NFile i (f\<lparr>f_content := GrainSegment (g gi)\<rparr>)))) E"
  unfolding triple_def
proof (intro allI impI)
  fix w assume s: "staged w0 t H K w"
  show "case put_grain s g w of (Ret a, w') \<Rightarrow> staged w0 t H (K(p \<mapsto> NFile i (f\<lparr>f_content := GrainSegment (g gi)\<rparr>))) w'
      | (Throw e, w') \<Rightarrow> E w' | (Crash c, w') \<Rightarrow> False"
    using set_content_stages [OF s assms(1,2)] staged_NFile(2) [OF s assms(1,2)] assms(3,4)
    by (simp add: put_grain_def as_grain_def)
qed

end
