(* ===== verification/FlowManager.thy ===== *)
theory FlowManager
  imports Staging ContinuousFlow
begin

text \<open>
  The flow manager (\<open>FlowManager.cpp\<close>) and the handles it returns (\<open>FlowData.hpp\<close>,
  \<open>DiscreteFlowData.hpp\<close>, \<open>ContinuousFlowData.hpp\<close>): flows are created in a temporary directory
  that is renamed to its public name when it is complete, and opened, deleted and listed by that name.
  A unique pointer that is not moved out of its scope is destroyed there: \<open>iunwind\<close> where that
  happens on an exception only, an explicit call where it happens on return too.
\<close>

section \<open>Handles\<close>

datatype FlowData =
    DiscreteData (flow_segment: SharedMemoryBase) (grain_segments: "SharedMemoryBase list")
  | ContinuousData (flow_segment: SharedMemoryBase) (channel_segment: SharedMemoryBase) (sample_word_size: u64)

fun destroy_all :: "SharedMemoryBase list \<Rightarrow> unit io" where
  "destroy_all [] = iret ()"
| "destroy_all (s # ss) = ibind (SharedMemory_destroy s) (\<lambda>_. destroy_all ss)"

definition segments :: "FlowData \<Rightarrow> SharedMemoryBase list" where
  "segments fd = (case fd of DiscreteData s gs \<Rightarrow> gs @ [s] | ContinuousData s c _ \<Rightarrow> [c, s])"

definition FlowData_destroy :: "FlowData \<Rightarrow> unit io" where
  "FlowData_destroy fd = destroy_all (segments fd)"

definition FlowData_makeExclusive :: "FlowData \<Rightarrow> (bool \<times> FlowData) io" where
  "FlowData_makeExclusive fd =
     ibind (makeExclusive (flow_segment fd)) (\<lambda>r. iret (fst r,
       case fd of DiscreteData _ gs \<Rightarrow> DiscreteData (snd r) gs | ContinuousData _ c n \<Rightarrow> ContinuousData (snd r) c n))"

definition FlowData_isExclusive :: "FlowData \<Rightarrow> bool" where
  "FlowData_isExclusive fd = isExclusive (flow_segment fd)"

definition as_discrete :: "FlowData \<Rightarrow> FlowData option" where
  "as_discrete fd = (case fd of DiscreteData _ _ \<Rightarrow> Some fd | ContinuousData _ _ _ \<Rightarrow> None)"

definition as_continuous :: "FlowData \<Rightarrow> FlowData option" where
  "as_continuous fd = (case fd of ContinuousData _ _ _ \<Rightarrow> Some fd | DiscreteData _ _ \<Rightarrow> None)"

definition emplaceGrain :: "SharedMemoryBase \<Rightarrow> path \<Rightarrow> u64 \<Rightarrow> SharedMemoryBase io" where
  "emplaceGrain flow p grainPayloadSize =
     ibind (GrainInstance_new p (if created flow then CREATE_READ_WRITE else accessMode flow) grainPayloadSize LockShared) (\<lambda>grain.
       if created flow then iret grain
       else iunwind
              (ibind (get_grain grain) (\<lambda>gi.
                if gi_version gi \<noteq> GRAIN_HEADER_VERSION then ithrow InvalidArgument else iret grain))
              (SharedMemory_destroy grain))"

text \<open>
  A loop that appends what \<open>acquire\<close> returns to the vector of segments: when an iteration throws,
  the vector's elements are destroyed with the vector.
\<close>

fun acquire_all :: "(nat \<Rightarrow> SharedMemoryBase io) \<Rightarrow> nat \<Rightarrow> nat \<Rightarrow> SharedMemoryBase list io" where
  "acquire_all acquire i 0 = iret []"
| "acquire_all acquire i (Suc n) =
     ibind (acquire i) (\<lambda>s.
       iunwind (ibind (acquire_all acquire (Suc i) n) (\<lambda>ss. iret (s # ss))) (SharedMemory_destroy s))"

text \<open>
  \<open>openChannelBuffers\<close>: the product of the geometry is a product of 32 bit integers. The result
  is the new segment and the sample word size the handle keeps.
\<close>

definition openChannelBuffers :: "SharedMemoryBase \<Rightarrow> path \<Rightarrow> u64 \<Rightarrow> (SharedMemoryBase \<times> u64) io" where
  "openChannelBuffers flow p sampleWordSize =
     (if sampleWordSize \<noteq> 0 \<or> \<not> created flow then
        ibind (get_flow flow) (\<lambda>fl.
          let buffersLength = ucast (channelCount (continuous (config (flow_info fl)))
                                   * bufferLength (continuous (config (flow_info fl)))) :: u64
          in if 0 < buffersLength then
               ibind (SharedMemoryBase_new p (if created flow then CREATE_READ_WRITE else accessMode flow)
                        (buffersLength * sampleWordSize) LockShared) (\<lambda>s.
                 let mappedSize = shm_mappedSize s
                 in iret (s, if sampleWordSize \<noteq> 0 then sampleWordSize
                             else if buffersLength \<le> mappedSize then mappedSize div buffersLength else 1))
             else ithrow RuntimeError)
      else ithrow RuntimeError)"

text \<open>What a reader or writer of a continuous flow keeps of the handle.\<close>

fun continuous_view :: "FlowData \<Rightarrow> ContinuousFlowData option" where
  "continuous_view (ContinuousData s c n) = Some \<lparr>cd_mappedSize = shm_mappedSize c, cd_sampleWordSize = n\<rparr>"
| "continuous_view (DiscreteData s gs) = None"

section \<open>Helpers\<close>

definition TEMP_PREFIX :: string where "TEMP_PREFIX = ''.mxl-tmp-''"

definition createTemporaryFlowDirectory :: "path \<Rightarrow> path io" where
  "createTemporaryFlowDirectory base = orthrow FilesystemError (sys_mkdtemp base TEMP_PREFIX)"

definition publishFlowDirectory :: "path \<Rightarrow> path \<Rightarrow> bool io" where
  "publishFlowDirectory src dst =
     ibind (orthrow FilesystemError (sys_chmod src)) (\<lambda>_.
     ibind (isys (sys_rename_noreplace src dst)) (\<lambda>r.
       case r of
         Inr _ \<Rightarrow> iret True
       | Inl e \<Rightarrow> if e = EEXIST \<or> e = ENOTEMPTY then iret False else ithrow (SystemError e)))"

definition sanitizeFlowFormat :: "u32 \<Rightarrow> u32" where
  "sanitizeFlowFormat format = (if mxlIsSupportedDataFormat format then format else 0)"

definition writeFlowDescriptor :: "path \<Rightarrow> string \<Rightarrow> unit io" where
  "writeFlowDescriptor flowDir flowDef =
     ibind (isys (sys_ofstream (makeFlowDescriptorFilePath flowDir))) (\<lambda>r.
       case r of
         Inr i \<Rightarrow> sys_write i flowDef
       | Inl _ \<Rightarrow> ithrow (FilesystemError EIO))"

definition initCommonFlowConfigInfo :: "uuid \<Rightarrow> u32 \<Rightarrow> mxlRational \<Rightarrow> u32 \<Rightarrow> u32 \<Rightarrow> mxlCommonFlowConfigInfo" where
  "initCommonFlowConfigInfo flowId format rate maxSync maxCommit =
     zero_common\<lparr>cfg_id := flowId, cfg_format := format, grainRate := rate, maxCommitBatchSizeHint := maxCommit,
       maxSyncBatchSizeHint := maxSync, payloadLocation := MXL_PAYLOAD_LOCATION_HOST_MEMORY, deviceIndex := - 1\<rparr>"

definition initFlowRuntimeInfo :: "mxlFlowRuntimeInfo io" where
  "initFlowRuntimeInfo =
     ibind sys_clock (\<lambda>now. iret (zero_runtime\<lparr>lastWriteTime := word_of_int (tp_value now), lastReadTime := word_of_int (tp_value now)\<rparr>))"

definition initFlowState :: "path \<Rightarrow> FlowState io" where
  "initFlowState flowDataPath =
     ibind (orthrow FilesystemError (sys_stat flowDataPath)) (\<lambda>ino. iret \<lparr>inode = ino, syncCounter = 0\<rparr>)"

section \<open>Opening\<close>

definition open_grains :: "path \<Rightarrow> SharedMemoryBase \<Rightarrow> Flow \<Rightarrow> SharedMemoryBase list io" where
  "open_grains flowDir seg fl =
     (let n = grainCount (discrete (config (flow_info fl))); grainDir = makeGrainDirectoryName flowDir
      in if 0 < n then
           ibind (fs_exists grainDir) (\<lambda>ex.
           ibind (if ex then fs_is_directory grainDir else iret False) (\<lambda>ok.
             if ok then acquire_all (\<lambda>i. emplaceGrain seg (makeGrainDataFilePath grainDir (of_nat i)) 0) 0 (unat n)
             else ithrow (FilesystemError ENOENT)))
         else iret [])"

definition openDiscreteFlow :: "path \<Rightarrow> SharedMemoryBase \<Rightarrow> FlowData io" where
  "openDiscreteFlow flowDir seg =
     iunwind
       (ibind (get_flow seg) (\<lambda>fl. ibind (open_grains flowDir seg fl) (\<lambda>gs. iret (DiscreteData seg gs))))
       (SharedMemory_destroy seg)"

definition openContinuousFlow :: "path \<Rightarrow> SharedMemoryBase \<Rightarrow> FlowData io" where
  "openContinuousFlow flowDir seg =
     iunwind
       (ibind (openChannelBuffers seg (makeChannelDataFilePath flowDir) 0) (\<lambda>r. iret (ContinuousData seg (fst r) (snd r))))
       (SharedMemory_destroy seg)"

definition check_flow :: "Flow \<Rightarrow> bool outcome" where
  "check_flow fl =
     (let format = cfg_format (common (config (flow_info fl))) in
      if fi_version (flow_info fl) \<noteq> FLOW_DATA_VERSION then Throw InvalidArgument
      else if mxlIsDiscreteDataFormat format then Ret True
      else if mxlIsContinuousDataFormat format then Ret False
      else Throw RuntimeError)"

text \<open>The segment is moved into the handle, so that from there on only the handle destroys it.\<close>

definition openFlow :: "services \<Rightarrow> path \<Rightarrow> uuid \<Rightarrow> AccessMode \<Rightarrow> FlowData io" where
  "openFlow sv domain flowId mode =
     (if mode = CREATE_READ_WRITE then ithrow InvalidArgument
      else let base = makeFlowDirectoryName domain (sv_uuid_to_string sv flowId) in
        ibind (fs_exists (makeFlowDataFilePath base)) (\<lambda>ex.
          if ex then
            ibind (FlowInstance_new (makeFlowDataFilePath base) mode 0 LockShared) (\<lambda>seg.
            ibind (iunwind (ibind (get_flow seg) (\<lambda>fl. ilift (check_flow fl))) (SharedMemory_destroy seg)) (\<lambda>isDiscrete.
              if isDiscrete then openDiscreteFlow base seg else openContinuousFlow base seg))
          else ithrow (FilesystemError ENOENT)))"

section \<open>Creating\<close>

definition set_flow_info :: "(mxlFlowInfo \<Rightarrow> mxlFlowInfo) \<Rightarrow> Flow \<Rightarrow> Flow" where
  "set_flow_info f fl = fl\<lparr>flow_info := f (flow_info fl)\<rparr>"

definition set_header :: "mxlCommonFlowConfigInfo \<Rightarrow> flow_union \<Rightarrow> mxlFlowInfo \<Rightarrow> mxlFlowInfo" where
  "set_header cfg spec info =
     info\<lparr>fi_version := FLOW_DATA_VERSION, fi_size := SIZEOF_FLOW_INFO, config := \<lparr>common = cfg, specific = spec\<rparr>\<rparr>"

text \<open>The header of the new flow, field by field, and then its state.\<close>

definition init_flow :: "SharedMemoryBase \<Rightarrow> path \<Rightarrow> mxlCommonFlowConfigInfo \<Rightarrow> flow_union \<Rightarrow> unit io" where
  "init_flow seg flowDataPath cfg spec =
     ibind (put_flow seg (set_flow_info (set_header cfg spec))) (\<lambda>_.
     ibind initFlowRuntimeInfo (\<lambda>rt.
     ibind (put_flow seg (set_flow_info (\<lambda>info. info\<lparr>runtime := rt\<rparr>))) (\<lambda>_.
     ibind (initFlowState flowDataPath) (\<lambda>st.
       put_flow seg (\<lambda>fl. fl\<lparr>flow_state := st\<rparr>)))))"

definition create_grain :: "SharedMemoryBase \<Rightarrow> path \<Rightarrow> u64 \<Rightarrow> u64 \<Rightarrow> nat \<Rightarrow> SharedMemoryBase io" where
  "create_grain seg grainDir grainPayloadSize grainNumOfSlices i =
     ibind (emplaceGrain seg (makeGrainDataFilePath grainDir (of_nat i)) grainPayloadSize) (\<lambda>grain.
       ibind (put_grain grain (\<lambda>gi. gi\<lparr>grainSize := ucast grainPayloadSize, totalSlices := ucast grainNumOfSlices,
                validSlices := 0, gi_version := GRAIN_HEADER_VERSION, gi_size := SIZEOF_GRAIN_INFO\<rparr>)) (\<lambda>_. iret grain))"

text \<open>
  The existing flow, when another one was published first: its handle must be of the kind asked for;
  the handle of the flow just built is destroyed after it.
\<close>

definition open_existing :: "(FlowData \<Rightarrow> FlowData option) \<Rightarrow> services \<Rightarrow> path \<Rightarrow> uuid \<Rightarrow> FlowData io" where
  "open_existing cast sv domain flowId =
     ibind (openFlow sv domain flowId READ_WRITE) (\<lambda>ex.
       case cast ex of
         Some fd \<Rightarrow> iret fd
       | None \<Rightarrow> ibind (FlowData_destroy ex) (\<lambda>_. ithrow RuntimeError))"

definition publish_or_open ::
  "(FlowData \<Rightarrow> FlowData option) \<Rightarrow> services \<Rightarrow> path \<Rightarrow> uuid \<Rightarrow> path \<Rightarrow> FlowData \<Rightarrow> (bool \<times> FlowData) io" where
  "publish_or_open cast sv domain flowId tempDirectory flowData =
     ibind (publishFlowDirectory tempDirectory (makeFlowDirectoryName domain (sv_uuid_to_string sv flowId))) (\<lambda>ok.
       if ok then iret (True, flowData)
       else ibind (open_existing cast sv domain flowId) (\<lambda>ex.
              ibind (FlowData_destroy flowData) (\<lambda>_. iret (False, ex))))"

record discrete_params =
  dp_format :: u32
  dp_grainCount :: u64
  dp_grainRate :: mxlRational
  dp_payloadSize :: u64
  dp_numOfSlices :: u64
  dp_sliceLengths :: "u32 list"
  dp_maxSync :: u32
  dp_maxCommit :: u32

definition build_discrete :: "uuid \<Rightarrow> discrete_params \<Rightarrow> path \<Rightarrow> SharedMemoryBase \<Rightarrow> SharedMemoryBase list io" where
  "build_discrete flowId dp tempDirectory seg =
     ibind (init_flow seg (makeFlowDataFilePath tempDirectory)
              (initCommonFlowConfigInfo flowId (sanitizeFlowFormat (dp_format dp)) (dp_grainRate dp) (dp_maxSync dp) (dp_maxCommit dp))
              (DiscreteMember \<lparr>sliceSizes = dp_sliceLengths dp, grainCount = ucast (dp_grainCount dp)\<rparr>)) (\<lambda>_.
     ibind (orthrow FilesystemError (sys_mkdir (makeGrainDirectoryName tempDirectory))) (\<lambda>isnew.
       if \<not> isnew then ithrow (FilesystemError EIO)
       else acquire_all (create_grain seg (makeGrainDirectoryName tempDirectory) (dp_payloadSize dp) (dp_numOfSlices dp))
              0 (unat (dp_grainCount dp))))"

definition discrete_body :: "services \<Rightarrow> path \<Rightarrow> uuid \<Rightarrow> discrete_params \<Rightarrow> path \<Rightarrow> (bool \<times> FlowData) io" where
  "discrete_body sv domain flowId dp tempDirectory =
     ibind (FlowInstance_new (makeFlowDataFilePath tempDirectory) CREATE_READ_WRITE 0 LockShared) (\<lambda>seg.
     ibind (iunwind (build_discrete flowId dp tempDirectory seg) (SharedMemory_destroy seg)) (\<lambda>gs.
     iunwind (publish_or_open as_discrete sv domain flowId tempDirectory (DiscreteData seg gs))
             (FlowData_destroy (DiscreteData seg gs))))"

definition createOrOpenDiscreteFlow ::
  "services \<Rightarrow> path \<Rightarrow> uuid \<Rightarrow> string \<Rightarrow> discrete_params \<Rightarrow> (bool \<times> FlowData) io" where
  "createOrOpenDiscreteFlow sv domain flowId flowDef dp =
     (if \<not> mxlIsDiscreteDataFormat (sanitizeFlowFormat (dp_format dp)) then ithrow RuntimeError
      else
        ibind (createTemporaryFlowDirectory domain) (\<lambda>tempDirectory.
        ifinally
          (ibind (writeFlowDescriptor tempDirectory flowDef) (\<lambda>_.
           ibind (isys (sys_ofstream (makeFlowAccessFilePath tempDirectory))) (\<lambda>out.
             case out of
               Inl _ \<Rightarrow> ithrow (FilesystemError EEXIST)
             | Inr _ \<Rightarrow> discrete_body sv domain flowId dp tempDirectory)))
          (ibind (isys (sys_remove_all tempDirectory)) (\<lambda>_. iret ()))))"

record continuous_params =
  cp_format :: u32
  cp_sampleRate :: mxlRational
  cp_channelCount :: u64
  cp_sampleWordSize :: u64
  cp_bufferLength :: u64
  cp_maxSync :: u32
  cp_maxCommit :: u32

definition build_continuous :: "uuid \<Rightarrow> continuous_params \<Rightarrow> path \<Rightarrow> SharedMemoryBase \<Rightarrow> (SharedMemoryBase \<times> u64) io" where
  "build_continuous flowId cp tempDirectory seg =
     ibind (init_flow seg (makeFlowDataFilePath tempDirectory)
              (initCommonFlowConfigInfo flowId (sanitizeFlowFormat (cp_format cp)) (cp_sampleRate cp) (cp_maxSync cp) (cp_maxCommit cp))
              (ContinuousMember \<lparr>channelCount = ucast (cp_channelCount cp), bufferLength = ucast (cp_bufferLength cp)\<rparr>)) (\<lambda>_.
       openChannelBuffers seg (makeChannelDataFilePath tempDirectory) (cp_sampleWordSize cp))"

definition continuous_body :: "services \<Rightarrow> path \<Rightarrow> uuid \<Rightarrow> continuous_params \<Rightarrow> path \<Rightarrow> (bool \<times> FlowData) io" where
  "continuous_body sv domain flowId cp tempDirectory =
     ibind (FlowInstance_new (makeFlowDataFilePath tempDirectory) CREATE_READ_WRITE 0 LockShared) (\<lambda>seg.
     ibind (iunwind (build_continuous flowId cp tempDirectory seg) (SharedMemory_destroy seg)) (\<lambda>r.
     iunwind (publish_or_open as_continuous sv domain flowId tempDirectory (ContinuousData seg (fst r) (snd r)))
             (FlowData_destroy (ContinuousData seg (fst r) (snd r)))))"

definition createOrOpenContinuousFlow ::
  "services \<Rightarrow> path \<Rightarrow> uuid \<Rightarrow> string \<Rightarrow> continuous_params \<Rightarrow> (bool \<times> FlowData) io" where
  "createOrOpenContinuousFlow sv domain flowId flowDef cp =
     (if \<not> mxlIsContinuousDataFormat (sanitizeFlowFormat (cp_format cp)) then ithrow RuntimeError
      else
        ibind (createTemporaryFlowDirectory domain) (\<lambda>tempDirectory.
        iunwind
          (ibind (writeFlowDescriptor tempDirectory flowDef) (\<lambda>_.
             continuous_body sv domain flowId cp tempDirectory))
          (ibind (isys (sys_remove_all tempDirectory)) (\<lambda>_. iret ()))))"

section \<open>Deleting, listing, reading the definition\<close>

definition deleteFlow :: "services \<Rightarrow> path \<Rightarrow> uuid \<Rightarrow> bool io" where
  "deleteFlow sv domain flowId =
     icatch
       (ibind (orthrow FilesystemError (sys_remove_all (makeFlowDirectoryName domain (sv_uuid_to_string sv flowId)))) (\<lambda>removed.
          iret (removed \<noteq> 0)))
       (\<lambda>_. iret False)"

definition deleteFlowData :: "services \<Rightarrow> path \<Rightarrow> FlowData option \<Rightarrow> bool io" where
  "deleteFlowData sv domain flowData =
     (case flowData of
        None \<Rightarrow> iret False
      | Some fd \<Rightarrow>
          ibind (get_flow (flow_segment fd)) (\<lambda>fl.
          ibind (FlowData_destroy fd) (\<lambda>_.
            deleteFlow sv domain (cfg_id (common (config (flow_info fl)))))))"

fun list_entries :: "services \<Rightarrow> path \<Rightarrow> string list \<Rightarrow> uuid list io" where
  "list_entries sv domain [] = iret []"
| "list_entries sv domain (name # names) =
     ibind (fs_is_directory (domain @ [name])) (\<lambda>d.
     ibind (list_entries sv domain names) (\<lambda>ids.
       iret (if d \<and> path_extension name = FLOW_DIRECTORY_NAME_SUFFIX
             then (case sv_uuid_from_string sv (path_stem name) of Some u \<Rightarrow> u # ids | None \<Rightarrow> ids)
             else ids)))"

definition listFlows :: "services \<Rightarrow> path \<Rightarrow> uuid list io" where
  "listFlows sv domain =
     ibind (fs_exists domain) (\<lambda>ex.
     ibind (if ex then fs_is_directory domain else iret False) (\<lambda>ok.
       if ok then ibind (orthrow FilesystemError (sys_listdir domain)) (list_entries sv domain)
       else ithrow (FilesystemError ENOENT)))"

text \<open>
  A stream that was opened stays good while its buffer is read to the end; a failing read throws
  from the buffer, before the code's own test of the stream.
\<close>

definition getFlowDef :: "services \<Rightarrow> path \<Rightarrow> uuid \<Rightarrow> string io" where
  "getFlowDef sv domain flowId =
     (let flowJsonFile = makeFlowDescriptorFilePath (makeFlowDirectoryName domain (sv_uuid_to_string sv flowId)) in
      ibind (isys (sys_ifstream flowJsonFile)) (\<lambda>inp.
        case inp of
          Inr i \<Rightarrow> orthrow (\<lambda>_. OtherException) (sys_read_text i)
        | Inl _ \<Rightarrow>
            ibind (fs_exists flowJsonFile) (\<lambda>ex.
              if \<not> ex then ithrow (FilesystemError ENOENT) else ithrow RuntimeError)))"

definition FlowManager_new :: "path \<Rightarrow> path io" where
  "FlowManager_new in_mxlDomain =
     ibind (orthrow FilesystemError (sys_canonical in_mxlDomain)) (\<lambda>domain.
     ibind (fs_exists in_mxlDomain) (\<lambda>ex.
     ibind (if ex then fs_is_directory in_mxlDomain else iret False) (\<lambda>ok.
       if ok then iret domain else ithrow (FilesystemError ENOENT))))"

end
