(* ===== verification/FlowStore.thy ===== *)
theory FlowStore
  imports FlowManager
begin

text \<open>
  What the flow manager guarantees, whatever system call fails when: opening changes nothing but the
  caller's descriptors, creation touches nothing that existed and publishes a complete flow or
  nothing, and every exception closes what was opened.
\<close>

section \<open>Handles that own descriptors\<close>

text \<open>\<open>owned w0 H ss H'\<close>: the segments own pairwise different descriptors opened since \<open>w0\<close>, and \<open>H'\<close> is \<open>H\<close> with them.\<close>

primrec owned :: "world \<Rightarrow> nat set \<Rightarrow> SharedMemoryBase list \<Rightarrow> nat set \<Rightarrow> bool" where
  "owned w0 H [] H' \<longleftrightarrow> H' = H"
| "owned w0 H (s # ss) H' \<longleftrightarrow> (\<exists>fd H1. shm_fd s = Some fd \<and> owned w0 H ss H1 \<and> fresh_fd w0 H1 fd \<and> H' = insert fd H1)"

lemma fresh_fd_insert [simp]: "fresh_fd w0 (insert a H) fd \<longleftrightarrow> fresh_fd w0 H fd \<and> fd \<noteq> a"
  by (auto simp: fresh_fd_def)

lemma owned_rotate:
  "fresh_fd w0 H fd \<Longrightarrow> owned w0 (insert fd H) ss H2 \<Longrightarrow> \<exists>H1. owned w0 H ss H1 \<and> fresh_fd w0 H1 fd \<and> H2 = insert fd H1"
proof (induction ss arbitrary: H2)
  case (Cons x xs)
  then obtain g H3 where g: "shm_fd x = Some g" "owned w0 (insert fd H) xs H3" "fresh_fd w0 H3 g" "H2 = insert g H3" by auto
  then obtain H1 where "owned w0 H xs H1" "fresh_fd w0 H1 fd" "H3 = insert fd H1" using Cons by blast
  with g have "owned w0 H (x # xs) (insert g H1)" "fresh_fd w0 (insert g H1) fd" "H2 = insert fd (insert g H1)" by auto
  then show ?case by blast
qed auto

lemma owned_Cons_first:
  "fresh_fd w0 H fd \<Longrightarrow> shm_fd s = Some fd \<Longrightarrow> owned w0 (insert fd H) ss H2 \<Longrightarrow> owned w0 H (s # ss) H2"
  using owned_rotate by fastforce

lemma owned_snoc: "owned w0 H (ss @ [s]) H' \<longleftrightarrow> (\<exists>fd. shm_fd s = Some fd \<and> fresh_fd w0 H fd \<and> owned w0 (insert fd H) ss H')"
  by (induction ss arbitrary: H') auto

text \<open>A loop that acquires segments owns what it returns and releases everything when an iteration throws.\<close>

lemma acquire_all_triple:
  assumes step: "\<And>j H'. i \<le> j \<Longrightarrow> j < i + n \<Longrightarrow>
       triple (B j H') (acq j) (\<lambda>s w. \<exists>fd. shm_fd s = Some fd \<and> fresh_fd w0 H' fd \<and> B (Suc j) (insert fd H') w) (E H')"
    and release: "\<And>s fd H'. shm_fd s = Some fd \<Longrightarrow> fresh_fd w0 H' fd \<Longrightarrow> triple (E (insert fd H')) (SharedMemory_destroy s) (\<lambda>_. E H') (E H')"
  shows "triple (B i H) (acquire_all acq i n) (\<lambda>ss w. length ss = n \<and> (\<exists>H'. owned w0 H ss H' \<and> B (i + n) H' w)) (E H)"
  using step
proof (induction n arbitrary: i H)
  case 0
  show ?case by (auto intro!: triple_ret)
next
  case (Suc n)
  have "triple (B i H) (acq i) (\<lambda>s w. \<exists>fd. shm_fd s = Some fd \<and> fresh_fd w0 H fd \<and> B (Suc i) (insert fd H) w) (E H)"
    by (rule Suc.prems) auto
  then show ?case
    unfolding acquire_all.simps
  proof (rule triple_bind, intro triple_ex triple_pure)
    fix s :: SharedMemoryBase and fd assume s: "shm_fd s = Some fd" "fresh_fd w0 H fd"
    have "triple (B (Suc i) (insert fd H)) (acquire_all acq (Suc i) n)
        (\<lambda>ss w. length ss = n \<and> (\<exists>H'. owned w0 (insert fd H) ss H' \<and> B (Suc i + n) H' w)) (E (insert fd H))"
      by (rule Suc.IH) (auto intro: Suc.prems)
    then have "triple (B (Suc i) (insert fd H)) (ibind (acquire_all acq (Suc i) n) (\<lambda>ss. iret (s # ss)))
        (\<lambda>ss w. length ss = Suc n \<and> (\<exists>H'. owned w0 H ss H' \<and> B (i + Suc n) H' w)) (E (insert fd H))"
      by (rule triple_bind, intro triple_ret) (auto simp del: owned.simps intro: owned_Cons_first [OF s(2,1)])
    then show "triple (B (Suc i) (insert fd H)) (iunwind (ibind (acquire_all acq (Suc i) n) (\<lambda>ss. iret (s # ss))) (SharedMemory_destroy s))
        (\<lambda>ss w. length ss = Suc n \<and> (\<exists>H'. owned w0 H ss H' \<and> B (i + Suc n) H' w)) (E H)"
      by (rule triple_unwind) (rule release [OF s])
  qed
qed

section \<open>Opening is reading\<close>

context descriptor_frame
begin

lemma destroy_all_keeps: "owned w0 H ss H' \<Longrightarrow> triple (A H') (destroy_all ss) (\<lambda>_. A H) E"
proof (induction ss arbitrary: H')
  case Nil
  then show ?case by (auto intro: triple_ret)
next
  case (Cons s ss)
  then obtain fd H1 where "shm_fd s = Some fd" "owned w0 H ss H1" "fresh_fd w0 H1 fd" "H' = insert fd H1" by auto
  then show ?case by (auto intro!: triple_bind [OF destroy_keeps] Cons.IH)
qed

lemma get_keeps:
  assumes "shm_data s = Some i"
  shows "triple (A H) (get_flow s) (\<lambda>fl w. A H w \<and> fl = as_flow w (f_content (w_file w i))) E"
    and "triple (A H) (get_grain s) (\<lambda>gi w. A H w \<and> gi = as_grain w (f_content (w_file w i))) E"
  using assms by (auto simp: triple_def get_flow_def get_grain_def)

lemma open_instance_keeps:
  assumes "mode \<noteq> CREATE_READ_WRITE"
  shows "triple (A H) (SharedMemoryInstance_new c sizeof p mode sz lm)
     (\<lambda>s w. \<exists>fd i. fresh_fd w0 H fd \<and> shm_fd s = Some fd \<and> shm_mode s = mode \<and> shm_data s = Some i
        \<and> lookup w p = Some (FileEntry i) \<and> A (insert fd H) w) (A H)"
  unfolding SharedMemoryInstance_new_def
  by (rule triple_bind [OF open_existing_keeps [OF assms]]) (use assms in \<open>auto simp: created_def triple_def iret_simps\<close>)

lemma emplaceGrain_keeps:
  assumes "\<not> created seg"
  shows "triple (A H) (emplaceGrain seg p sz) (\<lambda>s w. \<exists>fd. shm_fd s = Some fd \<and> fresh_fd w0 H fd \<and> A (insert fd H) w) (A H)"
proof -
  have m: "accessMode seg \<noteq> CREATE_READ_WRITE" by (simp add: accessMode_def)
  have v: "triple (A (insert fd H)) (iunwind (ibind (get_grain s) (\<lambda>gi.
          if gi_version gi \<noteq> GRAIN_HEADER_VERSION then ithrow InvalidArgument else iret s)) (SharedMemory_destroy s))
     (\<lambda>s w. \<exists>fd. shm_fd s = Some fd \<and> fresh_fd w0 H fd \<and> A (insert fd H) w) (A H)"
    if "shm_fd s = Some fd" "fresh_fd w0 H fd" "shm_data s = Some i" for s fd i
    by (rule triple_unwind [OF triple_bind [OF get_keeps(2) [OF that(3)]] destroy_keeps [OF that(2,1)]])
       (use that in \<open>auto intro!: triple_if triple_throw triple_ret\<close>)
  show ?thesis
    unfolding emplaceGrain_def GrainInstance_new_def using assms
    by (simp only: if_False, intro triple_bind [OF open_instance_keeps [OF m]] triple_ex triple_pure)
       (rule triple_pre [OF v], auto)
qed

lemma query_triples:
  "triple (A H) (fs_exists p) (\<lambda>_. A H) (A H)"
  "triple (A H) (if ex then fs_is_directory p else iret False) (\<lambda>_. A H) (A H)"
  by (auto intro!: triple_if triple_ret intro: triple_weaken [OF exists_keeps] triple_weaken [OF is_directory_keeps])

lemma open_grains_keeps:
  assumes "\<not> created seg"
  shows "triple (A H) (open_grains d seg fl) (\<lambda>gs w. \<exists>H'. owned w0 H gs H' \<and> A H' w) (A H)"
proof -
  let ?acq = "\<lambda>i. emplaceGrain seg (makeGrainDataFilePath (makeGrainDirectoryName d) (of_nat i)) 0"
  have "triple (A H) (acquire_all ?acq 0 n) (\<lambda>gs w. length gs = n \<and> (\<exists>H'. owned w0 H gs H' \<and> A H' w)) (A H)" for n
    by (rule acquire_all_triple [where B = "\<lambda>_. A"]) (auto intro: emplaceGrain_keeps [OF assms] destroy_keeps)
  then have l: "triple (A H) (acquire_all ?acq 0 n) (\<lambda>gs w. \<exists>H'. owned w0 H gs H' \<and> A H' w) (A H)" for n
    by (rule triple_weaken) auto
  show ?thesis
    unfolding open_grains_def Let_def
    by (intro triple_if triple_bind [OF query_triples(1)] triple_bind [OF query_triples(2)] l triple_throw triple_ret) auto
qed

lemma openDiscreteFlow_keeps:
  assumes "\<not> created seg" and "shm_fd seg = Some fd" and "fresh_fd w0 H fd" and "shm_data seg = Some i"
  shows "triple (A (insert fd H)) (openDiscreteFlow d seg) (\<lambda>fd w. \<exists>H'. owned w0 H (segments fd) H' \<and> A H' w) (A H)"
proof -
  have "triple (\<lambda>w. \<exists>H'. owned w0 (insert fd H) gs H' \<and> A H' w) (iret (DiscreteData seg gs))
      (\<lambda>fd w. \<exists>H'. owned w0 H (segments fd) H' \<and> A H' w) (A (insert fd H))" for gs
    by (rule triple_ret) (use assms in \<open>auto simp: segments_def owned_snoc\<close>)
  note k = triple_bind [OF open_grains_keeps [OF assms(1)] this]
  show ?thesis
    unfolding openDiscreteFlow_def
    by (rule triple_unwind [OF triple_bind [OF get_keeps(1) [OF assms(4)] triple_pre [OF k]] destroy_keeps [OF assms(3,2)]]) simp
qed

lemma openChannelBuffers_keeps:
  assumes "\<not> created seg" and "shm_data seg = Some i"
  shows "triple (A H) (openChannelBuffers seg p n) (\<lambda>r w. \<exists>fd. shm_fd (fst r) = Some fd \<and> fresh_fd w0 H fd \<and> A (insert fd H) w) (A H)"
proof -
  have m: "accessMode seg \<noteq> CREATE_READ_WRITE" by (simp add: accessMode_def)
  have "triple (A H) (SharedMemoryBase_new p (accessMode seg) sz lm) (\<lambda>s w. \<exists>fd. shm_fd s = Some fd \<and> fresh_fd w0 H fd \<and> A (insert fd H) w) (A H)" for sz lm
    by (rule triple_weaken [OF open_existing_keeps [OF m]]) auto
  note k = triple_bind [OF this]
  have g: "triple (A H) (get_flow seg) (\<lambda>_. A H) (A H)"
    by (rule triple_weaken [OF get_keeps(1) [OF assms(2)]]) auto
  show ?thesis
    unfolding openChannelBuffers_def Let_def using assms(1)
    by (simp only: simp_thms if_True if_False) (intro triple_bind [OF g] triple_if k triple_ret triple_throw; auto)
qed

lemma openContinuousFlow_keeps:
  assumes "\<not> created seg" and "shm_fd seg = Some fd" and "fresh_fd w0 H fd" and "shm_data seg = Some i"
  shows "triple (A (insert fd H)) (openContinuousFlow d seg) (\<lambda>fd w. \<exists>H'. owned w0 H (segments fd) H' \<and> A H' w) (A H)"
  unfolding openContinuousFlow_def
  by (rule triple_unwind [OF triple_bind [OF openChannelBuffers_keeps [OF assms(1,4)] triple_ret] destroy_keeps [OF assms(3,2)]])
     (use assms in \<open>fastforce simp: segments_def\<close>)

lemma openFlow_keeps:
  "triple (A H) (openFlow sv domain flowId mode) (\<lambda>fd w. \<exists>H'. owned w0 H (segments fd) H' \<and> A H' w) (A H)"
proof -
  let ?Q = "\<lambda>fd w. \<exists>H'. owned w0 H (segments fd) H' \<and> A H' w"
  have c: "triple (A (insert fd H)) (iunwind (ibind (get_flow seg) (\<lambda>fl. ilift (check_flow fl))) (SharedMemory_destroy seg)) (\<lambda>_. A (insert fd H)) (A H)"
    if "shm_fd seg = Some fd" "fresh_fd w0 H fd" "shm_data seg = Some i" for seg fd i
    by (rule triple_unwind [OF triple_bind [OF get_keeps(1) [OF that(3)]] destroy_keeps [OF that(2,1)]])
       (auto simp: triple_def iret_simps check_flow_def Let_def)
  have o: "triple (\<lambda>w. lookup w p = Some (FileEntry i) \<and> A (insert fd H) w)
        (ibind (iunwind (ibind (get_flow seg) (\<lambda>fl. ilift (check_flow fl))) (SharedMemory_destroy seg)) (\<lambda>isDiscrete.
          if isDiscrete then openDiscreteFlow d seg else openContinuousFlow d seg)) ?Q (A H)"
    if "fresh_fd w0 H fd" "shm_fd seg = Some fd" "shm_mode seg = mode" "shm_data seg = Some i" "mode \<noteq> CREATE_READ_WRITE" for seg fd i p d
  proof -
    have "\<not> created seg" using that by (simp add: created_def)
    note k = openDiscreteFlow_keeps [OF this that(2,1,4)] openContinuousFlow_keeps [OF this that(2,1,4)]
    show ?thesis by (rule triple_pre [OF triple_bind [OF c [OF that(2,1,4)]]]) (auto intro: triple_if k)
  qed
  show ?thesis
    unfolding openFlow_def Let_def FlowInstance_new_def
    by (intro triple_if triple_throw triple_bind [OF query_triples(1)] triple_bind [OF open_instance_keeps] triple_ex triple_pure o) auto
qed

end

lemma since_fds:
  assumes "since w {} w'" shows "w_fds w' = w_fds w"
proof -
  have "x \<in> set (w_fds w') \<Longrightarrow> fst x < w_fd w" for x
    using assms by (force simp: since_def new_fds_def)
  then have "old_fds w w' = w_fds w'" by (auto simp: old_fds_def intro!: filter_True)
  with assms show ?thesis by (simp add: since_def)
qed

text \<open>
  C13: Opening a flow, in any state of the file system and whichever system call fails, ends in a handle
  or an exception and changes no directory, no file and no other descriptor. After an exception
  every descriptor opened on the way is closed; a handle owns exactly the descriptors opened.
\<close>

theorem open_flow_only_reads:
  assumes "wf_world w" and "openFlow sv domain flowId mode w = (r, w')"
  shows "w_tree w' = w_tree w \<and> w_file w' = w_file w \<and>
    ((\<exists>fd. r = Ret fd \<and> owned w {} (segments fd) (new_fds w w') \<and> old_fds w w' = w_fds w)
     \<or> (\<exists>e. r = Throw e \<and> w_fds w' = w_fds w))"
proof -
  note t = observed_frame.openFlow_keeps [of w "{}" sv domain flowId mode]
  note ob = observed_start [OF assms(1)]
  have "w_tree w' = w_tree w \<and> w_file w' = w_file w"
    using triple_Ret [OF t ob] triple_Throw [OF t ob] triple_Crash [OF t ob] assms(2)
    by (cases r) (auto simp: observed_def)
  moreover have "(\<exists>fd. r = Ret fd \<and> owned w {} (segments fd) (new_fds w w') \<and> old_fds w w' = w_fds w)
       \<or> (\<exists>e. r = Throw e \<and> w_fds w' = w_fds w)"
    using triple_Ret [OF t ob] triple_Throw [OF t ob] triple_Crash [OF t ob] assms(2)
    by (cases r) (auto simp: observed_def since_fds dest: since_fds, auto simp: since_def)
  ultimately show ?thesis by blast
qed

end
