(* ===== verification/FlowCreation.thy ===== *)
theory FlowCreation
  imports FlowStore
begin

text \<open>
  Creation of flows: the layout of the temporary directory is followed from call to call
  (\<open>staged\<close>), up to the rename that publishes it, so that the theorems hold for every failure
  at every point. A failure leaves at most the temporary directory behind, and that only when its
  removal, the last call, fails itself.
\<close>

section \<open>Commuting descriptors\<close>

lemma owned_swap_last: "owned w0 H (ss @ [s]) H' \<longleftrightarrow> owned w0 H (s # ss) H'"
  unfolding owned_snoc
proof
  show "owned w0 H (s # ss) H'" if "\<exists>fd. shm_fd s = Some fd \<and> fresh_fd w0 H fd \<and> owned w0 (insert fd H) ss H'"
    using that owned_Cons_first by blast
  assume "owned w0 H (s # ss) H'"
  then obtain fd H1 where fd: "shm_fd s = Some fd" "owned w0 H ss H1" "fresh_fd w0 H1 fd" "H' = insert fd H1" by auto
  have "owned w0 H ss H1 \<Longrightarrow> fresh_fd w0 H1 fd \<Longrightarrow> fresh_fd w0 H fd \<and> owned w0 (insert fd H) ss (insert fd H1)" for H1
  proof (induction ss arbitrary: H1)
    case (Cons x xs)
    then obtain g H2 where g: "shm_fd x = Some g" "owned w0 H xs H2" "fresh_fd w0 H2 g" "H1 = insert g H2" by auto
    then have "fresh_fd w0 H fd \<and> owned w0 (insert fd H) xs (insert fd H2)" using Cons by auto
    moreover have "fresh_fd w0 (insert fd H2) g \<and> insert fd H1 = insert g (insert fd H2)" using g Cons.prems by auto
    ultimately show ?case using g(1) by auto
  qed auto
  with fd show "\<exists>fd. shm_fd s = Some fd \<and> fresh_fd w0 H fd \<and> owned w0 (insert fd H) ss H'" by auto
qed

lemma owned_append: "owned w0 H (xs @ ys) H2 \<longleftrightarrow> (\<exists>H1. owned w0 H ys H1 \<and> owned w0 H1 xs H2)"
  by (induction xs arbitrary: H2) auto

lemma owned_commute: "owned w0 H (xs @ ys) H' \<Longrightarrow> owned w0 H (ys @ xs) H'"
proof (induction xs arbitrary: H' ys)
  case (Cons x xs)
  then have "owned w0 H ((xs @ ys) @ [x]) H'" by (simp only: owned_swap_last append_Cons)
  then show ?case using Cons.IH [of "ys @ [x]" H'] by simp
qed simp

lemma owned_exchange:
  assumes "owned w0 {} xs H" and "owned w0 H ys H1" shows "\<exists>H2. owned w0 {} ys H2 \<and> owned w0 H2 xs H1"
proof -
  have "owned w0 {} (ys @ xs) H1" using assms owned_append by blast
  then have "owned w0 {} (xs @ ys) H1" by (rule owned_commute)
  then show ?thesis using owned_append by blast
qed

section \<open>The steps of a creation\<close>

lemma can_add_below [simp]: "can_add t K (t @ [x]) \<longleftrightarrow> K (t @ [x]) = None \<and> K t = Some NDir"
  by (simp add: can_add_def butlast_append)

lemma can_add_below2 [simp]: "can_add t K (t @ [x, y]) \<longleftrightarrow> K (t @ [x, y]) = None \<and> K (t @ [x]) = Some NDir"
  by (simp add: can_add_def butlast_append)

lemma descriptor_stages:
  assumes "K (makeFlowDescriptorFilePath t) = None" and "K t = Some NDir"
  shows "triple (staged w0 t H K) (writeFlowDescriptor t txt)
     (\<lambda>_ w. \<exists>i n. staged w0 t H (K(makeFlowDescriptorFilePath t \<mapsto> NFile i \<lparr>f_size = 0, f_content = TextFile (take n txt)\<rparr>)) w)
     (staged w0 t H K)"
  unfolding writeFlowDescriptor_def
proof (rule triple_bind [OF triple_isys])
  let ?p = "makeFlowDescriptorFilePath t"
  let ?R = "\<lambda>r w. case r of Inr i \<Rightarrow> staged w0 t H (K(?p \<mapsto> NFile i \<lparr>f_size = 0, f_content = TextFile []\<rparr>)) w | Inl e \<Rightarrow> staged w0 t H K w"
  show "striple (staged w0 t H K) (sys_ofstream ?p) (\<lambda>i. ?R (Inr i)) (\<lambda>e. ?R (Inl e))"
    using ofstream_stages [of t K ?p w0 H] assms by (simp add: makeFlowDescriptorFilePath_def)
  have u: "under t ?p" by (simp add: makeFlowDescriptorFilePath_def)
  show "triple (?R r) (case r of Inl e \<Rightarrow> ithrow (FilesystemError EIO) | Inr i \<Rightarrow> sys_write i txt)
     (\<lambda>_ w. \<exists>i n. staged w0 t H (K(?p \<mapsto> NFile i \<lparr>f_size = 0, f_content = TextFile (take n txt)\<rparr>)) w) (staged w0 t H K)" for r
  proof (cases r)
    case (Inl e)
    then show ?thesis by (simp add: triple_throw)
  next
    case (Inr i)
    have "triple (staged w0 t H (K(?p \<mapsto> NFile i \<lparr>f_size = 0, f_content = TextFile []\<rparr>))) (sys_write i txt)
       (\<lambda>_ w. \<exists>n. staged w0 t H (K(?p \<mapsto> NFile i \<lparr>f_size = 0, f_content = TextFile (take n txt)\<rparr>)) w) (staged w0 t H K)"
      by (rule triple_weaken [OF write_stages [OF u, where K = "K(?p \<mapsto> NFile i \<lparr>f_size = 0, f_content = TextFile []\<rparr>)" and i = i and f = "\<lparr>f_size = 0, f_content = TextFile []\<rparr>"]]) auto
    then show ?thesis unfolding Inr sum.case by (rule triple_weaken) auto
  qed
qed

definition new_flow :: "mxlCommonFlowConfigInfo \<Rightarrow> flow_union \<Rightarrow> mxlFlowRuntimeInfo \<Rightarrow> nat \<Rightarrow> Flow" where
  "new_flow cfg spec rt ino =
     \<lparr>flow_info = \<lparr>fi_version = FLOW_DATA_VERSION, fi_size = SIZEOF_FLOW_INFO, config = \<lparr>common = cfg, specific = spec\<rparr>, runtime = rt\<rparr>,
      flow_state = \<lparr>inode = ino, syncCounter = 0\<rparr>\<rparr>"

lemma clock_keeps: "triple (staged w0 t H K) sys_clock (\<lambda>_. staged w0 t H K) E"
  by (auto simp: triple_def sys_clock_def)

lemma put_flow_stages':
  assumes "under t p" and "shm_data s = Some i"
  shows "triple (staged w0 t H (K(p \<mapsto> NFile i \<lparr>f_size = sz, f_content = FlowSegment fl\<rparr>))) (put_flow s g)
     (\<lambda>_. staged w0 t H (K(p \<mapsto> NFile i \<lparr>f_size = sz, f_content = FlowSegment (g fl)\<rparr>))) E"
  by (rule triple_weaken [OF put_flow_stages [OF assms(1), where i = i and fl = fl
        and K = "K(p \<mapsto> NFile i \<lparr>f_size = sz, f_content = FlowSegment fl\<rparr>)" and f = "\<lparr>f_size = sz, f_content = FlowSegment fl\<rparr>"]]) (use assms in auto)

lemma init_flow_stages:
  assumes "shm_data seg = Some i" and "under t p"
  shows "triple (staged w0 t H (K(p \<mapsto> NFile i \<lparr>f_size = sz, f_content = FlowSegment fl\<rparr>))) (init_flow seg p cfg spec)
     (\<lambda>_ w. \<exists>rt. headIndex rt = 0 \<and> staged w0 t H (K(p \<mapsto> NFile i \<lparr>f_size = sz, f_content = FlowSegment (new_flow cfg spec rt i)\<rparr>)) w)
     (staged_any w0 t H)"
proof -
  let ?K = "\<lambda>fl. K(p \<mapsto> NFile i \<lparr>f_size = sz, f_content = FlowSegment fl\<rparr>)"
  note put = put_flow_stages' [OF assms(2,1)]
  have rt: "triple (staged w0 t H (?K fl)) initFlowRuntimeInfo (\<lambda>rt w. headIndex rt = 0 \<and> staged w0 t H (?K fl) w) E" for fl E
    unfolding initFlowRuntimeInfo_def
    by (rule triple_bind [OF clock_keeps triple_ret]) (simp add: zero_runtime_def)
  have st: "triple (staged w0 t H (?K fl)) (initFlowState p)
      (\<lambda>st w. st = \<lparr>inode = i, syncCounter = 0\<rparr> \<and> staged w0 t H (?K fl) w) (staged_any w0 t H)" for fl
    unfolding initFlowState_def
    by (rule triple_bind [OF triple_orthrow triple_ret], rule striple_weaken,
        rule stat_stages [OF assms(2), where K = "?K fl" and i = i and f = "\<lparr>f_size = sz, f_content = FlowSegment fl\<rparr>"])
       (auto intro: staged_anyI)
  show ?thesis
    unfolding init_flow_def
  proof (rule triple_bind [OF put], rule triple_bind [OF rt], rule triple_pure, rule triple_bind [OF put], rule triple_bind [OF st], rule triple_pure)
    fix rt :: mxlFlowRuntimeInfo and st :: FlowState
    assume h: "headIndex rt = 0" and s: "st = \<lparr>inode = i, syncCounter = 0\<rparr>"
    have e: "(set_flow_info (\<lambda>info. info\<lparr>runtime := rt\<rparr>) (set_flow_info (set_header cfg spec) fl))\<lparr>flow_state := st\<rparr> = new_flow cfg spec rt i"
      by (cases fl; cases "flow_info fl") (simp add: set_flow_info_def set_header_def new_flow_def s)
    show "triple (staged w0 t H (?K (set_flow_info (\<lambda>info. info\<lparr>runtime := rt\<rparr>) (set_flow_info (set_header cfg spec) fl))))
        (put_flow seg (\<lambda>fl. fl\<lparr>flow_state := st\<rparr>))
        (\<lambda>_ w. \<exists>rt. headIndex rt = 0 \<and> staged w0 t H (?K (new_flow cfg spec rt i)) w) (staged_any w0 t H)"
      by (rule triple_weaken [OF put]) (use h e in auto)
  qed
qed

section \<open>Grains\<close>

definition grain_header :: "discrete_params \<Rightarrow> mxlGrainInfo" where
  "grain_header dp = zero_grain_info\<lparr>grainSize := ucast (dp_payloadSize dp), totalSlices := ucast (dp_numOfSlices dp),
     gi_version := GRAIN_HEADER_VERSION, gi_size := SIZEOF_GRAIN_INFO\<rparr>"

definition grain_file :: "discrete_params \<Rightarrow> os_file" where
  "grain_file dp = \<lparr>f_size = dp_payloadSize dp + SIZEOF_GRAIN, f_content = GrainSegment (grain_header dp)\<rparr>"

text \<open>\<open>K'\<close> is \<open>K\<close> with the files of the first \<open>j\<close> grains in directory \<open>g\<close>.\<close>

definition with_grains :: "discrete_params \<Rightarrow> path \<Rightarrow> layout \<Rightarrow> nat \<Rightarrow> layout \<Rightarrow> bool" where
  "with_grains dp g K j K' \<longleftrightarrow>
     (\<forall>k<j. \<exists>i. K' (makeGrainDataFilePath g (of_nat k)) = Some (NFile i (grain_file dp))) \<and>
     (\<forall>p. (\<forall>k<j. p \<noteq> makeGrainDataFilePath g (of_nat k)) \<longrightarrow> K' p = K p)"

lemma with_grains_short:
  assumes "with_grains dp g K j K'" and "length p \<le> length g" shows "K' p = K p"
proof -
  have "p \<noteq> makeGrainDataFilePath g k" for k
    using assms(2) by (auto simp: makeGrainDataFilePath_def)
  with assms(1) show ?thesis unfolding with_grains_def by blast
qed

lemma of_nat_u32_inj: "i < 2 ^ 32 \<Longrightarrow> j < 2 ^ 32 \<Longrightarrow> (of_nat i :: u32) = of_nat j \<longleftrightarrow> i = j"
  by (simp add: word_of_nat_eq_iff take_bit_nat_eq_self)

lemma with_grains_Suc:
  assumes "with_grains dp g K j K'" and "j < 2 ^ 32"
  shows "with_grains dp g K (Suc j) (K'(makeGrainDataFilePath g (of_nat j) \<mapsto> NFile i (grain_file dp)))"
  using assms unfolding with_grains_def
  by (auto simp: less_Suc_eq of_nat_u32_inj)

lemma create_grain_stages:
  assumes seg: "created seg" and K: "K t = Some NDir" "K (makeGrainDirectoryName t) = Some NDir"
    and free: "\<And>x. K (makeGrainDirectoryName t @ [x]) = None" and j: "j < 2 ^ 32"
  shows "triple (\<lambda>w. \<exists>K'. with_grains dp (makeGrainDirectoryName t) K j K' \<and> staged w0 t H K' w)
     (create_grain seg (makeGrainDirectoryName t) (dp_payloadSize dp) (dp_numOfSlices dp) j)
     (\<lambda>s w. \<exists>fd. shm_fd s = Some fd \<and> fresh_fd w0 H fd \<and>
        (\<exists>K'. with_grains dp (makeGrainDirectoryName t) K (Suc j) K' \<and> staged w0 t (insert fd H) K' w))
     (staged_any w0 t H)"
proof (intro triple_ex triple_pure)
  fix K' let ?g = "makeGrainDirectoryName t" let ?p = "makeGrainDataFilePath ?g (of_nat j)"
  assume wg: "with_grains dp ?g K j K'"
  have "?p \<noteq> makeGrainDataFilePath ?g (of_nat k)" if "k < j" for k
    using that j by (simp add: of_nat_u32_inj)
  then have "K' ?p = None" using wg free [of "GRAIN_DATA_FILE_NAME_STEM @ ''.'' @ decimal (unat (of_nat j :: u32))"]
    unfolding with_grains_def by (auto simp: makeGrainDataFilePath_def)
  moreover have "K' ?g = Some NDir"
    using wg K unfolding with_grains_def by (auto simp: makeGrainDataFilePath_def)
  ultimately have c: "can_add t K' ?p"
    by (simp add: makeGrainDataFilePath_def makeGrainDirectoryName_def)
  have u: "under t ?p" using c by (simp add: can_add_def)
  let ?f = "\<lparr>f_size = dp_payloadSize dp + SIZEOF_GRAIN, f_content = GrainSegment zero_grain_info\<rparr>"
  let ?upd = "\<lambda>gi. gi\<lparr>grainSize := ucast (dp_payloadSize dp), totalSlices := ucast (dp_numOfSlices dp),
                validSlices := 0, gi_version := GRAIN_HEADER_VERSION, gi_size := SIZEOF_GRAIN_INFO\<rparr>"
  have hdr: "?f\<lparr>f_content := GrainSegment (?upd zero_grain_info)\<rparr> = grain_file dp"
    by (simp add: grain_file_def grain_header_def zero_grain_info_def)
  have put: "triple (staged w0 t (insert fd H) (K'(?p \<mapsto> NFile i ?f))) (ibind (put_grain s ?upd) (\<lambda>_. iret s))
     (\<lambda>s w. \<exists>fd. shm_fd s = Some fd \<and> fresh_fd w0 H fd \<and> (\<exists>K'. with_grains dp ?g K (Suc j) K' \<and> staged w0 t (insert fd H) K' w))
     (staged_any w0 t H)"
    if "fresh_fd w0 H fd" "shm_fd s = Some fd" "shm_data s = Some i" for s fd i
  proof (rule triple_bind)
    show "triple (staged w0 t (insert fd H) (K'(?p \<mapsto> NFile i ?f))) (put_grain s ?upd)
        (\<lambda>_. staged w0 t (insert fd H) (K'(?p \<mapsto> NFile i (grain_file dp)))) (staged_any w0 t H)"
      by (rule triple_weaken [OF put_grain_stages [OF u, where K = "K'(?p \<mapsto> NFile i ?f)" and i = i and f = ?f and gi = zero_grain_info]])
         (use that hdr in auto)
    show "triple (staged w0 t (insert fd H) (K'(?p \<mapsto> NFile i (grain_file dp)))) (iret s)
      (\<lambda>s w. \<exists>fd. shm_fd s = Some fd \<and> fresh_fd w0 H fd \<and> (\<exists>K'. with_grains dp ?g K (Suc j) K' \<and> staged w0 t (insert fd H) K' w))
      (staged_any w0 t H)"
      by (rule triple_ret) (use that with_grains_Suc [OF wg j] in blast)
  qed
  show "triple (staged w0 t H K') (create_grain seg ?g (dp_payloadSize dp) (dp_numOfSlices dp) j)
     (\<lambda>s w. \<exists>fd. shm_fd s = Some fd \<and> fresh_fd w0 H fd \<and> (\<exists>K'. with_grains dp ?g K (Suc j) K' \<and> staged w0 t (insert fd H) K' w))
     (staged_any w0 t H)"
    unfolding create_grain_def emplaceGrain_def GrainInstance_new_def
  proof (simp only: seg if_True, rule triple_bind)
    let ?R = "\<lambda>s w. \<exists>fd i. fresh_fd w0 H fd \<and> shm_fd s = Some fd \<and> shm_data s = Some i \<and> staged w0 t (insert fd H) (K'(?p \<mapsto> NFile i ?f)) w"
    show "triple (staged w0 t H K') (ibind (SharedMemoryInstance_new (GrainSegment zero_grain_info) SIZEOF_GRAIN ?p CREATE_READ_WRITE
           (dp_payloadSize dp) LockShared) iret) ?R (staged_any w0 t H)"
      by (rule triple_bind [OF create_instance_stages [OF c] triple_ret]) auto
    show "triple (?R s) (ibind (put_grain s ?upd) (\<lambda>_. iret s))
      (\<lambda>s w. \<exists>fd. shm_fd s = Some fd \<and> fresh_fd w0 H fd \<and> (\<exists>K'. with_grains dp ?g K (Suc j) K' \<and> staged w0 t (insert fd H) K' w))
      (staged_any w0 t H)" for s
      by (intro triple_ex triple_pure put)
  qed
qed

lemma create_grains_stage:
  assumes seg: "created seg" and K: "K t = Some NDir" "K (makeGrainDirectoryName t) = Some NDir"
    and free: "\<And>x. K (makeGrainDirectoryName t @ [x]) = None" and n: "n \<le> 2 ^ 32"
  shows "triple (staged w0 t H K)
     (acquire_all (create_grain seg (makeGrainDirectoryName t) (dp_payloadSize dp) (dp_numOfSlices dp)) 0 n)
     (\<lambda>gs w. length gs = n \<and> (\<exists>H' K'. owned w0 H gs H' \<and> with_grains dp (makeGrainDirectoryName t) K n K' \<and> staged w0 t H' K' w))
     (staged_any w0 t H)"
proof -
  have "triple (\<lambda>w. \<exists>K'. with_grains dp (makeGrainDirectoryName t) K 0 K' \<and> staged w0 t H K' w)
     (acquire_all (create_grain seg (makeGrainDirectoryName t) (dp_payloadSize dp) (dp_numOfSlices dp)) 0 n)
     (\<lambda>gs w. length gs = n \<and> (\<exists>H'. owned w0 H gs H' \<and> (\<exists>K'. with_grains dp (makeGrainDirectoryName t) K (0 + n) K' \<and> staged w0 t H' K' w)))
     (staged_any w0 t H)"
    by (rule acquire_all_triple [where B = "\<lambda>j H w. \<exists>K'. with_grains dp (makeGrainDirectoryName t) K j K' \<and> staged w0 t H K' w"
          and E = "staged_any w0 t"])
       (use n in \<open>auto intro!: create_grain_stages [OF seg K free] intro: staged_any_frame.destroy_keeps\<close>)
  then show ?thesis
    by (rule triple_weaken) (auto simp: with_grains_def)
qed

section \<open>Publication\<close>

lemma publish_stages:
  assumes "wf_world w0" and "lookup w0 t = None" and "K t = Some NDir" and "\<not> under t dst" and "dst \<noteq> []"
  shows "triple (staged w0 t H K) (publishFlowDirectory t dst)
     (\<lambda>b w. if b then lookup w0 dst = None \<and> staged w0 dst H (relocate t dst K) w else staged w0 t H K w) (staged w0 t H K)"
  unfolding publishFlowDirectory_def
proof (rule triple_bind [OF triple_orthrow])
  show "striple (staged w0 t H K) (sys_chmod t) (\<lambda>_. staged w0 t H K) (\<lambda>_. staged w0 t H K)"
    unfolding sys_chmod_def by (rule striple_syscall) auto
  let ?S = "\<lambda>r w. case r of Inr _ \<Rightarrow> lookup w0 dst = None \<and> staged w0 dst H (relocate t dst K) w | Inl e \<Rightarrow> staged w0 t H K w"
  have "triple (staged w0 t H K) (isys (sys_rename_noreplace t dst)) ?S (staged w0 t H K)"
    by (rule triple_isys) (use rename_stages [of w0 t K dst H] assms in simp)
  moreover have "triple (?S r) (case r of Inr _ \<Rightarrow> iret True | Inl e \<Rightarrow> if e = EEXIST \<or> e = ENOTEMPTY then iret False else ithrow (SystemError e))
     (\<lambda>b w. if b then lookup w0 dst = None \<and> staged w0 dst H (relocate t dst K) w else staged w0 t H K w) (staged w0 t H K)" for r
    by (cases r) (auto intro: triple_ret triple_throw)
  ultimately show "triple (staged w0 t H K) (ibind (isys (sys_rename_noreplace t dst)) (\<lambda>r. case r of Inr _ \<Rightarrow> iret True
       | Inl e \<Rightarrow> if e = EEXIST \<or> e = ENOTEMPTY then iret False else ithrow (SystemError e)))
     (\<lambda>b w. if b then lookup w0 dst = None \<and> staged w0 dst H (relocate t dst K) w else staged w0 t H K w) (staged w0 t H K)"
    by (rule triple_bind)
qed

context descriptor_frame
begin

lemma existing_flow_keeps:
  assumes "\<And>ex fd. cast ex = Some fd \<Longrightarrow> fd = ex"
  shows "triple (A H) (open_existing cast sv domain flowId) (\<lambda>fd w. \<exists>H'. owned w0 H (segments fd) H' \<and> A H' w) (A H)"
  unfolding open_existing_def
proof (rule triple_bind [OF openFlow_keeps], intro triple_ex triple_pure)
  fix ex H' assume o: "owned w0 H (segments ex) H'"
  have d: "triple (A H') (ibind (FlowData_destroy ex) (\<lambda>_. ithrow RuntimeError)) Q (A H)" for Q :: "FlowData \<Rightarrow> world \<Rightarrow> bool"
    unfolding FlowData_destroy_def
    by (rule triple_bind [OF destroy_all_keeps [OF o] triple_throw])
  show "triple (A H') (case cast ex of Some fd \<Rightarrow> iret fd | None \<Rightarrow> ibind (FlowData_destroy ex) (\<lambda>_. ithrow RuntimeError))
      (\<lambda>fd w. \<exists>H'. owned w0 H (segments fd) H' \<and> A H' w) (A H)"
    using o assms by (cases "cast ex") (auto intro!: d triple_ret)
qed

end

lemma publish_or_open_stages:
  assumes pub: "wf_world w0" "lookup w0 t = None" "K t = Some NDir" "\<not> under t dst" "dst \<noteq> []"
    and dst: "dst = makeFlowDirectoryName domain (sv_uuid_to_string sv flowId)"
    and cast: "\<And>ex fd. cast ex = Some fd \<Longrightarrow> fd = ex" and own: "owned w0 {} (segments fd) H"
  shows "triple (staged w0 t H K) (publish_or_open cast sv domain flowId t fd)
     (\<lambda>r w. if fst r then snd r = fd \<and> lookup w0 dst = None \<and> staged w0 dst H (relocate t dst K) w
            else \<exists>H'. owned w0 {} (segments (snd r)) H' \<and> staged w0 t H' K w)
     (staged w0 t H K)"
  unfolding publish_or_open_def dst [symmetric]
proof (rule triple_bind [OF publish_stages [of w0 t K dst H, OF pub]])
  let ?Q = "\<lambda>r w. if fst r then snd r = fd \<and> lookup w0 dst = None \<and> staged w0 dst H (relocate t dst K) w
            else \<exists>H'. owned w0 {} (segments (snd r)) H' \<and> staged w0 t H' K w"
  have c: "triple (\<lambda>w. \<exists>H'. owned w0 H (segments ex) H' \<and> staged w0 t H' K w)
      (ibind (FlowData_destroy fd) (\<lambda>_. iret (False, ex))) ?Q (staged w0 t H K)" for ex
  proof (intro triple_ex triple_pure)
    fix H1 assume "owned w0 H (segments ex) H1"
    then obtain H2 where h: "owned w0 {} (segments ex) H2" "owned w0 H2 (segments fd) H1"
      using owned_exchange [OF own] by blast
    show "triple (staged w0 t H1 K) (ibind (FlowData_destroy fd) (\<lambda>_. iret (False, ex))) ?Q (staged w0 t H K)"
      unfolding FlowData_destroy_def
      by (rule triple_bind [OF staged_frame.destroy_all_keeps [OF h(2)] triple_ret]) (use h(1) in auto)
  qed
  show "triple (\<lambda>w. if ok then lookup w0 dst = None \<and> staged w0 dst H (relocate t dst K) w else staged w0 t H K w)
      (if ok then iret (True, fd) else ibind (open_existing cast sv domain flowId) (\<lambda>ex. ibind (FlowData_destroy fd) (\<lambda>_. iret (False, ex))))
      ?Q (staged w0 t H K)" for ok
  proof (cases ok)
    case True
    then show ?thesis by (auto intro: triple_ret)
  next
    case False
    have "triple (staged w0 t H K) (open_existing cast sv domain flowId) (\<lambda>ex w. \<exists>H'. owned w0 H (segments ex) H' \<and> staged w0 t H' K w) (staged w0 t H K)"
      by (rule staged_frame.existing_flow_keeps) (rule cast)
    from triple_bind [OF this c] False show ?thesis by simp
  qed
qed

text \<open>What is left of the temporary directory in the end: nothing, unless its removal failed.\<close>

definition cleaned :: "world \<Rightarrow> path \<Rightarrow> nat set \<Rightarrow> world \<Rightarrow> bool" where
  "cleaned w0 t H w \<longleftrightarrow>
     staged w0 t H Map.empty w \<or> (staged_any w0 t H w \<and> en_fail (w_env w0) (w_tick w - 1) \<noteq> None)"

lemma cleanup_stages:
  assumes "t \<noteq> []"
  shows "triple (staged_any w0 t H) (ibind (isys (sys_remove_all t)) (\<lambda>_. iret ())) (\<lambda>_. cleaned w0 t H) E"
proof (rule triple_bind [OF triple_isys triple_ret])
  show "striple (staged_any w0 t H) (sys_remove_all t) (\<lambda>_. cleaned w0 t H) (\<lambda>_. cleaned w0 t H)"
    unfolding striple_def
  proof (intro allI impI)
    fix w assume s: "staged_any w0 t H w"
    then have e: "w_env w = w_env w0" by (auto simp: staged_any_def staged_def since_def)
    show "case sys_remove_all t w of (Inl e, w') \<Rightarrow> cleaned w0 t H w' | (Inr a, w') \<Rightarrow> cleaned w0 t H w'"
      using remove_stages [OF assms, of w0 H] s
      by (fastforce simp: striple_def cleaned_def sys_remove_all_def e tick_def split: option.splits prod.splits sum.splits)
  qed
qed

section \<open>Discrete flows\<close>

definition discrete_config :: "uuid \<Rightarrow> discrete_params \<Rightarrow> mxlCommonFlowConfigInfo" where
  "discrete_config flowId dp =
     initCommonFlowConfigInfo flowId (sanitizeFlowFormat (dp_format dp)) (dp_grainRate dp) (dp_maxSync dp) (dp_maxCommit dp)"

definition discrete_member :: "discrete_params \<Rightarrow> flow_union" where
  "discrete_member dp = DiscreteMember \<lparr>sliceSizes = dp_sliceLengths dp, grainCount = ucast (dp_grainCount dp)\<rparr>"

definition flow_file :: "mxlCommonFlowConfigInfo \<Rightarrow> flow_union \<Rightarrow> nat \<Rightarrow> os_file \<Rightarrow> bool" where
  "flow_file cfg spec ino f \<longleftrightarrow>
     (\<exists>rt. headIndex rt = 0 \<and> f = \<lparr>f_size = SIZEOF_FLOW, f_content = FlowSegment (new_flow cfg spec rt ino)\<rparr>)"

lemma build_discrete_stages:
  assumes seg: "created seg" "shm_data seg = Some i" and K: "K t = Some NDir" "K (makeGrainDirectoryName t) = None"
    and free: "\<And>x. K (makeGrainDirectoryName t @ [x]) = None" and n: "dp_grainCount dp \<le> 2 ^ 32"
  shows "triple (staged w0 t H (K(makeFlowDataFilePath t \<mapsto> NFile i \<lparr>f_size = SIZEOF_FLOW, f_content = FlowSegment zero_flow\<rparr>)))
     (build_discrete flowId dp t seg)
     (\<lambda>gs w. \<exists>H' K' f. owned w0 H gs H' \<and> flow_file (discrete_config flowId dp) (discrete_member dp) i f \<and>
        with_grains dp (makeGrainDirectoryName t) (K(makeFlowDataFilePath t \<mapsto> NFile i f, makeGrainDirectoryName t \<mapsto> NDir))
          (unat (dp_grainCount dp)) K' \<and> staged w0 t H' K' w)
     (staged_any w0 t H)"
  unfolding build_discrete_def discrete_config_def [symmetric] discrete_member_def [symmetric]
proof (rule triple_bind [OF init_flow_stages [OF seg(2)]], simp add: makeFlowDataFilePath_def, intro triple_ex triple_pure)
  fix rt :: mxlFlowRuntimeInfo assume rt: "headIndex rt = 0"
  let ?g = "makeGrainDirectoryName t"
  let ?f = "\<lparr>f_size = SIZEOF_FLOW, f_content = FlowSegment (new_flow (discrete_config flowId dp) (discrete_member dp) rt i)\<rparr>"
  let ?K = "K(makeFlowDataFilePath t \<mapsto> NFile i ?f)"
  have f: "flow_file (discrete_config flowId dp) (discrete_member dp) i ?f"
    using rt by (auto simp: flow_file_def)
  have c: "can_add t ?K ?g"
    using K by (simp add: makeGrainDirectoryName_def makeFlowDataFilePath_def path_names)
  have m: "triple (staged w0 t H ?K) (orthrow FilesystemError (sys_mkdir ?g)) (\<lambda>b w. b \<and> staged w0 t H (?K(?g \<mapsto> NDir)) w) (staged_any w0 t H)"
    by (rule triple_orthrow, rule striple_weaken [OF mkdir_stages [OF c]]) (auto intro: staged_anyI)
  have nn: "unat (dp_grainCount dp) \<le> 2 ^ 32"
    using n by (simp add: word_le_nat_alt)
  have gs: "triple (staged w0 t H (?K(?g \<mapsto> NDir))) (acquire_all (create_grain seg ?g (dp_payloadSize dp) (dp_numOfSlices dp)) 0 (unat (dp_grainCount dp)))
     (\<lambda>gs w. \<exists>H' K' f. owned w0 H gs H' \<and> flow_file (discrete_config flowId dp) (discrete_member dp) i f \<and>
        with_grains dp ?g (K(makeFlowDataFilePath t \<mapsto> NFile i f, ?g \<mapsto> NDir)) (unat (dp_grainCount dp)) K' \<and> staged w0 t H' K' w)
     (staged_any w0 t H)"
  proof (rule triple_weaken)
    show "triple (staged w0 t H (?K(?g \<mapsto> NDir))) (acquire_all (create_grain seg ?g (dp_payloadSize dp) (dp_numOfSlices dp)) 0 (unat (dp_grainCount dp)))
       (\<lambda>gs w. length gs = unat (dp_grainCount dp) \<and>
          (\<exists>H' K'. owned w0 H gs H' \<and> with_grains dp ?g (?K(?g \<mapsto> NDir)) (unat (dp_grainCount dp)) K' \<and> staged w0 t H' K' w))
       (staged_any w0 t H)"
      by (rule create_grains_stage [OF seg(1)]) (use K free nn in \<open>auto simp: makeGrainDirectoryName_def makeFlowDataFilePath_def path_names\<close>)
  qed (use f in blast)+
  show "triple (staged w0 t H ?K)
     (ibind (orthrow FilesystemError (sys_mkdir ?g)) (\<lambda>isnew. if \<not> isnew then ithrow (FilesystemError EIO)
        else acquire_all (create_grain seg ?g (dp_payloadSize dp) (dp_numOfSlices dp)) 0 (unat (dp_grainCount dp))))
     (\<lambda>gs w. \<exists>H' K' f. owned w0 H gs H' \<and> flow_file (discrete_config flowId dp) (discrete_member dp) i f \<and>
        with_grains dp ?g (K(makeFlowDataFilePath t \<mapsto> NFile i f, ?g \<mapsto> NDir)) (unat (dp_grainCount dp)) K' \<and> staged w0 t H' K' w)
     (staged_any w0 t H)"
    by (rule triple_bind [OF m], intro triple_pure triple_if gs) simp
qed

text \<open>The public directory of a flow that was created completely.\<close>

definition discrete_complete :: "uuid \<Rightarrow> string \<Rightarrow> discrete_params \<Rightarrow> path \<Rightarrow> layout \<Rightarrow> bool" where
  "discrete_complete flowId txt dp d K \<longleftrightarrow>
     K d = Some NDir \<and>
     (\<exists>i n. K (makeFlowDescriptorFilePath d) = Some (NFile i \<lparr>f_size = 0, f_content = TextFile (take n txt)\<rparr>)) \<and>
     (\<exists>i f. K (makeFlowAccessFilePath d) = Some (NFile i f)) \<and>
     (\<exists>i f. K (makeFlowDataFilePath d) = Some (NFile i f) \<and> flow_file (discrete_config flowId dp) (discrete_member dp) i f) \<and>
     K (makeGrainDirectoryName d) = Some NDir \<and>
     (\<forall>k < unat (dp_grainCount dp). \<exists>i. K (makeGrainDataFilePath (makeGrainDirectoryName d) (of_nat k)) = Some (NFile i (grain_file dp)))"

lemma relocate_complete: "discrete_complete flowId txt dp t K \<Longrightarrow> discrete_complete flowId txt dp d (relocate t d K)"
  using relocate_append [of t d K "[]"] unfolding discrete_complete_def path_defs by simp

definition temp_dir :: "path \<Rightarrow> path \<Rightarrow> bool" where
  "temp_dir domain t \<longleftrightarrow> (\<exists>name. t = domain @ [TEMP_PREFIX @ name])"

definition uuid_text :: "string \<Rightarrow> bool" where
  "uuid_text u \<longleftrightarrow> u \<noteq> [] \<and> hd u \<noteq> CHR ''.''"

lemma temp_apart:
  assumes "temp_dir domain t" and "uuid_text u"
  shows "\<not> under t (makeFlowDirectoryName domain u)" and "\<not> under (makeFlowDirectoryName domain u) t" and "t \<noteq> []"
  using assms by (cases u; auto simp: temp_dir_def uuid_text_def makeFlowDirectoryName_def under_def TEMP_PREFIX_def)+

text \<open>The body of the creation, from the fresh temporary directory to publication.\<close>

definition discrete_outcome :: "world \<Rightarrow> services \<Rightarrow> path \<Rightarrow> uuid \<Rightarrow> string \<Rightarrow> discrete_params \<Rightarrow> path \<Rightarrow> nat set \<Rightarrow> bool \<Rightarrow> world \<Rightarrow> bool" where
  "discrete_outcome w0 sv domain flowId txt dp t H isnew w \<longleftrightarrow>
     (if isnew then
        (let d = makeFlowDirectoryName domain (sv_uuid_to_string sv flowId) in
         lookup w0 d = None \<and> (\<exists>K. discrete_complete flowId txt dp d K \<and> staged w0 d H K w))
      else staged_any w0 t H w)"

lemma discrete_body_stages:
  assumes wf: "wf_world w0" and new: "lookup w0 t = None" and t: "temp_dir domain t" "uuid_text (sv_uuid_to_string sv flowId)"
    and n: "dp_grainCount dp \<le> 2 ^ 32"
    and K: "K = [t \<mapsto> NDir, makeFlowDescriptorFilePath t \<mapsto> NFile i \<lparr>f_size = 0, f_content = TextFile (take m txt)\<rparr>,
              makeFlowAccessFilePath t \<mapsto> NFile j f]"
  shows "triple (staged w0 t {} K) (discrete_body sv domain flowId dp t)
     (\<lambda>r w. \<exists>H. owned w0 {} (segments (snd r)) H \<and> discrete_outcome w0 sv domain flowId txt dp t H (fst r) w)
     (staged_any w0 t {})"
  unfolding discrete_body_def FlowInstance_new_def
proof (rule triple_bind [OF create_instance_stages], simp add: K path_defs path_names, intro triple_ex triple_pure)
  fix seg :: SharedMemoryBase and fd i'
  let ?g = "makeGrainDirectoryName t" and ?d = "makeFlowDirectoryName domain (sv_uuid_to_string sv flowId)"
  let ?Q = "\<lambda>r w. \<exists>H. owned w0 {} (segments (snd r)) H \<and> discrete_outcome w0 sv domain flowId txt dp t H (fst r) w"
  assume seg: "fresh_fd w0 {} fd" "shm_fd seg = Some fd" "shm_mode seg = CREATE_READ_WRITE" "shm_data seg = Some i'"
    "shm_mappedSize seg = 0 + SIZEOF_FLOW"
  have b: "triple (staged w0 t (insert fd {}) (K(makeFlowDataFilePath t \<mapsto> NFile i' \<lparr>f_size = 0 + SIZEOF_FLOW, f_content = FlowSegment zero_flow\<rparr>)))
     (iunwind (build_discrete flowId dp t seg) (SharedMemory_destroy seg))
     (\<lambda>gs w. \<exists>H' K' f. owned w0 (insert fd {}) gs H' \<and> flow_file (discrete_config flowId dp) (discrete_member dp) i' f \<and>
        with_grains dp ?g (K(makeFlowDataFilePath t \<mapsto> NFile i' f, ?g \<mapsto> NDir)) (unat (dp_grainCount dp)) K' \<and> staged w0 t H' K' w)
     (staged_any w0 t {})"
    unfolding add_0
    by (rule triple_unwind [OF build_discrete_stages staged_any_frame.destroy_keeps [OF seg(1,2)]])
       (use seg n in \<open>auto simp: K created_def path_defs path_names\<close>)
  show "triple (staged w0 t (insert fd {}) (K(makeFlowDataFilePath t \<mapsto> NFile i' \<lparr>f_size = 0 + SIZEOF_FLOW, f_content = FlowSegment zero_flow\<rparr>)))
     (ibind (iunwind (build_discrete flowId dp t seg) (SharedMemory_destroy seg)) (\<lambda>gs.
        iunwind (publish_or_open as_discrete sv domain flowId t (DiscreteData seg gs)) (FlowData_destroy (DiscreteData seg gs))))
     ?Q (staged_any w0 t {})"
  proof (rule triple_bind [OF b], intro triple_ex triple_pure)
    fix gs H' K' f'
    assume own: "owned w0 (insert fd {}) gs H'" and ff: "flow_file (discrete_config flowId dp) (discrete_member dp) i' f'"
      and wg: "with_grains dp ?g (K(makeFlowDataFilePath t \<mapsto> NFile i' f', ?g \<mapsto> NDir)) (unat (dp_grainCount dp)) K'"
    have own': "owned w0 {} (segments (DiscreteData seg gs)) H'"
      using own seg(1,2) by (simp add: segments_def owned_snoc)
    have "K' p = (K(makeFlowDataFilePath t \<mapsto> NFile i' f', ?g \<mapsto> NDir)) p" if "length p \<le> Suc (length t)" for p
      by (rule with_grains_short [OF wg]) (use that in \<open>simp add: makeGrainDirectoryName_def\<close>)
    then have kt: "K' t = Some NDir" and c: "discrete_complete flowId txt dp t K'"
      using wg ff unfolding discrete_complete_def with_grains_def
      by (auto simp: K makeFlowDataFilePath_def makeFlowDescriptorFilePath_def makeFlowAccessFilePath_def makeGrainDirectoryName_def path_names)
    have d: "?d \<noteq> []" by (simp add: makeFlowDirectoryName_def)
    have cast: "fd' = ex" if "as_discrete ex = Some fd'" for ex fd' using that by (cases ex) (auto simp: as_discrete_def)
    note p = publish_or_open_stages [where K = K', OF wf new kt temp_apart(1) [OF t] d refl cast own']
    show "triple (staged w0 t H' K') (iunwind (publish_or_open as_discrete sv domain flowId t (DiscreteData seg gs))
            (FlowData_destroy (DiscreteData seg gs))) ?Q (staged_any w0 t {})"
    proof (rule triple_unwind [OF triple_weaken [OF p, where E' = "staged_any w0 t H'"]])
      show "triple (staged_any w0 t H') (FlowData_destroy (DiscreteData seg gs)) (\<lambda>_. staged_any w0 t {}) (staged_any w0 t {})"
        unfolding FlowData_destroy_def by (rule staged_any_frame.destroy_all_keeps [OF own'])
    qed (use own' relocate_complete [OF c] in \<open>auto simp: discrete_outcome_def Let_def intro: staged_anyI split: if_splits\<close>)
  qed
qed

lemma createTemporary_stages:
  assumes "wf_world w0"
  shows "triple (observed w0 {}) (createTemporaryFlowDirectory domain)
     (\<lambda>t w. temp_dir domain t \<and> lookup w0 t = None \<and> staged w0 t {} [t \<mapsto> NDir] w) (observed w0 {})"
  unfolding createTemporaryFlowDirectory_def
  by (rule triple_orthrow, rule striple_weaken [OF mkdtemp_stages [OF assms]]) (auto simp: temp_dir_def)

lemma discrete_steps_stage:
  assumes wf: "wf_world w0" and new: "lookup w0 t = None" and t: "temp_dir domain t" "uuid_text (sv_uuid_to_string sv flowId)"
    and n: "dp_grainCount dp \<le> 2 ^ 32"
  shows "triple (staged w0 t {} [t \<mapsto> NDir])
     (ibind (writeFlowDescriptor t txt) (\<lambda>_.
      ibind (isys (sys_ofstream (makeFlowAccessFilePath t))) (\<lambda>out.
        case out of Inl _ \<Rightarrow> ithrow (FilesystemError EEXIST) | Inr _ \<Rightarrow> discrete_body sv domain flowId dp t)))
     (\<lambda>r w. \<exists>H. owned w0 {} (segments (snd r)) H \<and> discrete_outcome w0 sv domain flowId txt dp t H (fst r) w)
     (staged_any w0 t {})"
proof -
  let ?K = "\<lambda>i m. [t \<mapsto> NDir, makeFlowDescriptorFilePath t \<mapsto> NFile i \<lparr>f_size = 0, f_content = TextFile (take m txt)\<rparr>]"
  let ?a = "makeFlowAccessFilePath t"
  have "triple (staged w0 t {} (?K i m)) (isys (sys_ofstream ?a))
      (\<lambda>out w. case out of Inl e \<Rightarrow> staged_any w0 t {} w
         | Inr j \<Rightarrow> staged w0 t {} ((?K i m)(?a \<mapsto> NFile j \<lparr>f_size = 0, f_content = TextFile []\<rparr>)) w) (staged_any w0 t {})" for i m
    by (rule triple_isys, rule striple_weaken [OF ofstream_stages [where K = "?K i m"]]) (auto simp: path_defs path_names intro: staged_anyI)
  then have "triple (staged w0 t {} (?K i m))
      (ibind (isys (sys_ofstream ?a)) (\<lambda>out. case out of Inl _ \<Rightarrow> ithrow (FilesystemError EEXIST) | Inr _ \<Rightarrow> discrete_body sv domain flowId dp t))
     (\<lambda>r w. \<exists>H. owned w0 {} (segments (snd r)) H \<and> discrete_outcome w0 sv domain flowId txt dp t H (fst r) w) (staged_any w0 t {})" for i m
    by (rule triple_bind) (auto intro: triple_throw discrete_body_stages [OF wf new t n refl] split: sum.split)
  then have b: "triple (\<lambda>w. \<exists>i m. staged w0 t {} (?K i m) w)
      (ibind (isys (sys_ofstream ?a)) (\<lambda>out. case out of Inl _ \<Rightarrow> ithrow (FilesystemError EEXIST) | Inr _ \<Rightarrow> discrete_body sv domain flowId dp t))
     (\<lambda>r w. \<exists>H. owned w0 {} (segments (snd r)) H \<and> discrete_outcome w0 sv domain flowId txt dp t H (fst r) w) (staged_any w0 t {})"
    by (intro triple_ex)
  have "triple (staged w0 t {} [t \<mapsto> NDir]) (writeFlowDescriptor t txt) (\<lambda>_ w. \<exists>i m. staged w0 t {} (?K i m) w) (staged_any w0 t {})"
    by (rule triple_weaken [OF descriptor_stages]) (auto simp: path_defs path_names intro: staged_anyI)
  from triple_bind [OF this b] show ?thesis .
qed

text \<open>The possible ends of a creation, relative to the world it started in.\<close>

definition creation_end :: "world \<Rightarrow> services \<Rightarrow> path \<Rightarrow> uuid \<Rightarrow> string \<Rightarrow> discrete_params \<Rightarrow> path \<Rightarrow> nat set \<Rightarrow> bool \<Rightarrow> world \<Rightarrow> bool" where
  "creation_end w0 sv domain flowId txt dp t H isnew w \<longleftrightarrow>
     (if isnew then discrete_outcome w0 sv domain flowId txt dp t H True w else cleaned w0 t H w)"

lemma create_discrete_triple:
  assumes wf: "wf_world w0" and u: "uuid_text (sv_uuid_to_string sv flowId)" and n: "dp_grainCount dp \<le> 2 ^ 32"
  shows "triple (observed w0 {}) (createOrOpenDiscreteFlow sv domain flowId txt dp)
     (\<lambda>r w. \<exists>t H. temp_dir domain t \<and> lookup w0 t = None \<and> owned w0 {} (segments (snd r)) H \<and> creation_end w0 sv domain flowId txt dp t H (fst r) w)
     (\<lambda>w. observed w0 {} w \<or> (\<exists>t. temp_dir domain t \<and> lookup w0 t = None \<and> cleaned w0 t {} w))"
proof -
  have c: "triple (observed w0 {}) (createTemporaryFlowDirectory domain)
     (\<lambda>t w. temp_dir domain t \<and> lookup w0 t = None \<and> staged w0 t {} [t \<mapsto> NDir] w)
     (\<lambda>w. observed w0 {} w \<or> (\<exists>t. temp_dir domain t \<and> lookup w0 t = None \<and> cleaned w0 t {} w))"
    by (rule triple_weaken [OF createTemporary_stages [OF wf]]) auto
  show ?thesis
    unfolding createOrOpenDiscreteFlow_def
  proof (rule triple_if, rule triple_throw, simp, rule triple_bind [OF c])
  fix t
  let ?steps = "ibind (writeFlowDescriptor t txt) (\<lambda>_. ibind (isys (sys_ofstream (makeFlowAccessFilePath t))) (\<lambda>out.
        case out of Inl _ \<Rightarrow> ithrow (FilesystemError EEXIST) | Inr _ \<Rightarrow> discrete_body sv domain flowId dp t))"
  let ?Q = "\<lambda>r w. \<exists>t H. temp_dir domain t \<and> lookup w0 t = None \<and> owned w0 {} (segments (snd r)) H \<and> creation_end w0 sv domain flowId txt dp t H (fst r) w"
  let ?E = "\<lambda>w. observed w0 {} w \<or> (\<exists>t. temp_dir domain t \<and> lookup w0 t = None \<and> cleaned w0 t {} w)"
  let ?clean = "ibind (isys (sys_remove_all t)) (\<lambda>_. iret ())"
  show "triple (\<lambda>w. temp_dir domain t \<and> lookup w0 t = None \<and> staged w0 t {} [t \<mapsto> NDir] w) (ifinally ?steps ?clean) ?Q ?E"
  proof (intro triple_pure)
    assume t: "temp_dir domain t" and new: "lookup w0 t = None"
    note ap = temp_apart [OF t u]
    show "triple (staged w0 t {} [t \<mapsto> NDir]) (ifinally ?steps ?clean) ?Q ?E"
    proof (rule triple_finally [OF discrete_steps_stage [OF wf new t u n]], intro triple_ex triple_pure)
      fix r :: "bool \<times> FlowData" and H assume own: "owned w0 {} (segments (snd r)) H"
      have "triple (staged w0 d H K) ?clean (\<lambda>_. staged w0 d H K) E" if "\<not> under d t" for d K E
        by (rule triple_bind [OF triple_isys triple_ret], rule striple_weaken [OF remove_elsewhere [OF ap(3) new that]]) auto
      note kept = this
      have "triple (discrete_outcome w0 sv domain flowId txt dp t H (fst r)) ?clean (\<lambda>_. creation_end w0 sv domain flowId txt dp t H (fst r)) E" for E
      proof (cases "fst r")
        case True
        show ?thesis
          by (simp only: creation_end_def [abs_def] discrete_outcome_def [abs_def] Let_def True if_True, intro triple_pure triple_ex, rule triple_weaken, rule kept, rule ap(2)) auto
      next
        case False
        then show ?thesis
          using cleanup_stages [OF ap(3), of w0 H] by (simp add: creation_end_def [abs_def] discrete_outcome_def [abs_def])
      qed
      then show "triple (discrete_outcome w0 sv domain flowId txt dp t H (fst r)) ?clean (\<lambda>_. ?Q r) (?Q r)"
        by (rule triple_weaken) (use t new own in auto)
    next
      show "triple (staged_any w0 t {}) ?clean (\<lambda>_. ?E) ?E"
        by (rule triple_weaken [OF cleanup_stages [OF ap(3)]]) (use t new in auto)
    qed
  qed
qed
qed

section \<open>What the world looks like afterwards\<close>

definition untouched :: "world \<Rightarrow> world \<Rightarrow> bool" where
  "untouched w w' \<longleftrightarrow>
     (\<forall>p. lookup w p \<noteq> None \<longrightarrow> lookup w' p = lookup w p) \<and> (\<forall>i < w_inode w. w_file w' i = w_file w i) \<and> old_fds w w' = w_fds w"

lemma staged_untouched: "staged w t H K w' \<Longrightarrow> wf_world w \<Longrightarrow> lookup w t = None \<Longrightarrow> untouched w w'"
proof -
  assume s: "staged w t H K w'" and wf: "wf_world w" and n: "lookup w t = None"
  have "lookup w' p = lookup w p" if "lookup w p \<noteq> None" for p
  proof -
    have "\<not> under t p" using absent_under [OF wf n, of p] that by auto
    then show ?thesis using s unfolding staged_def by blast
  qed
  then show ?thesis using s by (simp add: untouched_def staged_def since_def)
qed

definition owns :: "FlowData outcome \<Rightarrow> world \<Rightarrow> world \<Rightarrow> bool" where
  "owns r w w' \<longleftrightarrow>
     (case r of Ret fd \<Rightarrow> owned w {} (segments fd) (new_fds w w') | Throw _ \<Rightarrow> new_fds w w' = {} | Crash _ \<Rightarrow> False)"

fun omap :: "('a \<Rightarrow> 'b) \<Rightarrow> 'a outcome \<Rightarrow> 'b outcome" where
  "omap f (Ret a) = Ret (f a)"
| "omap f (Throw e) = Throw e"
| "omap f (Crash c) = Crash c"

text \<open>
  A new path is part of the flow that the call reports as created, or lies in a temporary directory
  whose removal failed.
\<close>

definition explained :: "path \<Rightarrow> path \<Rightarrow> bool outcome \<Rightarrow> world \<Rightarrow> world \<Rightarrow> bool" where
  "explained domain d r w w' \<longleftrightarrow>
     (\<forall>p. lookup w p = None \<longrightarrow> lookup w' p \<noteq> None \<longrightarrow>
        (r = Ret True \<and> under d p) \<or>
        (r \<noteq> Ret True \<and> (\<exists>t. temp_dir domain t \<and> under t p) \<and> en_fail (w_env w) (w_tick w' - 1) \<noteq> None))"

lemma cleaned_explained:
  assumes "cleaned w t H w'" and "temp_dir domain t" and "r \<noteq> Ret True" shows "explained domain d r w w'"
  unfolding explained_def
proof (intro allI impI disjI2)
  fix p assume p: "lookup w p = None" "lookup w' p \<noteq> None"
  obtain K where s: "staged w t H K w'" and e: "K = Map.empty \<or> en_fail (w_env w) (w_tick w' - 1) \<noteq> None"
    using assms(1) by (auto simp: cleaned_def staged_any_def)
  have u: "under t p" using p s unfolding staged_def by metis
  then have "K \<noteq> Map.empty" using p staged_lookup [OF s u] by auto
  then show "r \<noteq> Ret True \<and> (\<exists>t. temp_dir domain t \<and> under t p) \<and> en_fail (w_env w) (w_tick w' - 1) \<noteq> None"
    using u e assms(2,3) by blast
qed

lemma staged_explained:
  assumes "staged w d H K w'" shows "explained domain d (Ret True) w w'"
  using assms unfolding explained_def staged_def by metis

lemma observed_explained: "observed w H w' \<Longrightarrow> explained domain d r w w'"
  by (simp add: observed_def explained_def lookup_def)

lemma observed_untouched: "observed w H w' \<Longrightarrow> untouched w w'"
  by (simp add: observed_def untouched_def since_def lookup_def)

lemma cleaned_staged: "cleaned w t H w' \<Longrightarrow> \<exists>K. staged w t H K w'"
  by (auto simp: cleaned_def staged_any_def)

lemma staged_new_fds: "staged w t H K w' \<Longrightarrow> new_fds w w' = H"
  by (simp add: staged_def since_def)

text \<open>
  C10: Creating a discrete flow is atomic and leaks nothing. Whatever system call fails at whatever point:
  every directory entry, file and descriptor that existed is as before; a new directory entry either
  belongs to the flow the call reports as created or lies in a temporary directory whose removal
  failed itself; a returned handle owns the descriptors opened, and after an exception none is left.
\<close>

theorem discrete_creation_is_atomic:
  assumes "wf_world w" and "uuid_text (sv_uuid_to_string sv flowId)" and "dp_grainCount dp \<le> 2 ^ 32"
    and "createOrOpenDiscreteFlow sv domain flowId flowDef dp w = (r, w')"
  shows "untouched w w' \<and> owns (omap snd r) w w' \<and>
    explained domain (makeFlowDirectoryName domain (sv_uuid_to_string sv flowId)) (omap fst r) w w'"
proof (cases r)
  case (Ret a)
  let ?d = "makeFlowDirectoryName domain (sv_uuid_to_string sv flowId)"
  obtain t H where o: "owned w {} (segments (snd a)) H" and t: "temp_dir domain t" "lookup w t = None"
    and e: "creation_end w sv domain flowId flowDef dp t H (fst a) w'"
    using triple_Ret [OF create_discrete_triple [OF assms(1-3)] observed_start [OF assms(1)]] assms(4) Ret by blast
  have n: "owns (omap snd r) w w'" if "staged w x H K w'" for x K
    using o staged_new_fds [OF that] by (simp add: Ret owns_def)
  show ?thesis
  proof (cases "fst a")
    case True
    then obtain K where "lookup w ?d = None" "staged w ?d H K w'"
      using e by (auto simp: creation_end_def discrete_outcome_def Let_def)
    then show ?thesis using n staged_untouched [OF _ assms(1)] staged_explained True Ret by auto
  next
    case False
    then have c: "cleaned w t H w'" using e by (simp add: creation_end_def)
    obtain K where k: "staged w t H K w'" using cleaned_staged [OF c] by blast
    have "omap fst r \<noteq> Ret True" using False by (simp add: Ret)
    then show ?thesis
      using n [OF k] staged_untouched [OF k assms(1) t(2)] cleaned_explained [OF c t(1)] by blast
  qed
next
  case (Throw e)
  then consider "observed w {} w'" | t where "temp_dir domain t" "lookup w t = None" "cleaned w t {} w'"
    using triple_Throw [OF create_discrete_triple [OF assms(1-3)] observed_start [OF assms(1)]] assms(4) by blast
  then show ?thesis
  proof cases
    case 1
    then show ?thesis
      using observed_untouched observed_explained by (auto simp: Throw owns_def observed_def since_def)
  next
    case 2
    obtain K where k: "staged w t {} K w'" using cleaned_staged [OF 2(3)] by blast
    have "omap fst r \<noteq> Ret True" by (simp add: Throw)
    then show ?thesis
      using staged_new_fds [OF k] staged_untouched [OF k assms(1) 2(2)] cleaned_explained [OF 2(3,1)]
      by (simp add: Throw owns_def)
  qed
next
  case (Crash c)
  then show ?thesis
    using triple_Crash [OF create_discrete_triple [OF assms(1-3)] observed_start [OF assms(1)]] assms(4) by blast
qed

text \<open>
  C11: A flow reported as created is complete: its directory did not exist before, and now holds the
  definition (at least a prefix of it), the access file, the flow header with the parameters of the
  call, a head index of zero and the inode of its own data file, and one file of the full size and
  with an initialised header for every grain.
\<close>

theorem created_discrete_flow_is_complete:
  assumes "wf_world w" and "uuid_text (sv_uuid_to_string sv flowId)" and "dp_grainCount dp \<le> 2 ^ 32"
    and "createOrOpenDiscreteFlow sv domain flowId flowDef dp w = (Ret (True, fd), w')"
  shows "lookup w (makeFlowDirectoryName domain (sv_uuid_to_string sv flowId)) = None \<and>
    (\<exists>K. discrete_complete flowId flowDef dp (makeFlowDirectoryName domain (sv_uuid_to_string sv flowId)) K \<and>
      staged w (makeFlowDirectoryName domain (sv_uuid_to_string sv flowId)) (new_fds w w') K w')"
proof -
  obtain t H where e: "creation_end w sv domain flowId flowDef dp t H True w'"
    using triple_Ret [OF create_discrete_triple [OF assms(1-3)] observed_start [OF assms(1)] assms(4)] by auto
  then obtain K where "lookup w (makeFlowDirectoryName domain (sv_uuid_to_string sv flowId)) = None"
    and "discrete_complete flowId flowDef dp (makeFlowDirectoryName domain (sv_uuid_to_string sv flowId)) K"
    and k: "staged w (makeFlowDirectoryName domain (sv_uuid_to_string sv flowId)) H K w'"
    by (auto simp: creation_end_def discrete_outcome_def Let_def)
  then show ?thesis using staged_new_fds [OF k] by auto
qed

end
