(* ===== verification/ContinuousCreation.thy ===== *)
theory ContinuousCreation
  imports FlowCreation
begin

text \<open>
  Creation of continuous flows, by the steps of \<open>FlowCreation.thy\<close>, the directory it leaves behind,
  and runs of both creations on a small world, which discharge the hypotheses of their theorems.
\<close>

section \<open>Continuous flows\<close>

definition continuous_config :: "uuid \<Rightarrow> continuous_params \<Rightarrow> mxlCommonFlowConfigInfo" where
  "continuous_config flowId cp =
     initCommonFlowConfigInfo flowId (sanitizeFlowFormat (cp_format cp)) (cp_sampleRate cp) (cp_maxSync cp) (cp_maxCommit cp)"

definition continuous_member :: "continuous_params \<Rightarrow> flow_union" where
  "continuous_member cp = ContinuousMember \<lparr>channelCount = ucast (cp_channelCount cp), bufferLength = ucast (cp_bufferLength cp)\<rparr>"

definition channels_size :: "continuous_params \<Rightarrow> u64" where
  "channels_size cp = ucast ((ucast (cp_channelCount cp) :: u32) * ucast (cp_bufferLength cp)) * cp_sampleWordSize cp"

lemma open_channels_stages:
  assumes seg: "created seg" "shm_data seg = Some i" and f: "flow_file cfg (continuous_member cp) i f"
    and K: "K (makeFlowDataFilePath t) = Some (NFile i f)" "K t = Some NDir" "K (makeChannelDataFilePath t) = None"
  shows "triple (staged w0 t H K) (openChannelBuffers seg (makeChannelDataFilePath t) (cp_sampleWordSize cp))
     (\<lambda>r w. snd r = cp_sampleWordSize cp \<and> (\<exists>fd j. fresh_fd w0 H fd \<and> shm_fd (fst r) = Some fd \<and> staged w0 t (insert fd H)
        (K(makeChannelDataFilePath t \<mapsto> NFile j \<lparr>f_size = channels_size cp, f_content = RawBytes []\<rparr>)) w))
     (staged_any w0 t H)"
proof -
  let ?p = "makeChannelDataFilePath t"
  let ?Q = "\<lambda>r w. snd r = cp_sampleWordSize cp \<and> (\<exists>fd j. fresh_fd w0 H fd \<and> shm_fd (fst r) = Some fd \<and> staged w0 t (insert fd H)
        (K(?p \<mapsto> NFile j \<lparr>f_size = channels_size cp, f_content = RawBytes []\<rparr>)) w)"
  obtain rt where fl: "f = \<lparr>f_size = SIZEOF_FLOW, f_content = FlowSegment (new_flow cfg (continuous_member cp) rt i)\<rparr>"
    using f by (auto simp: flow_file_def)
  have g: "triple (staged w0 t H K) (get_flow seg) (\<lambda>x w. x = new_flow cfg (continuous_member cp) rt i \<and> staged w0 t H K w) E" for E
    using staged_NFile(2) [where K = K and p = "makeFlowDataFilePath t" and i = i and f = f] K(1) seg(2) fl
    by (auto simp: triple_def get_flow_def as_flow_def makeFlowDataFilePath_def)
  have c: "can_add t K ?p" using K by (simp add: makeChannelDataFilePath_def)
  have b: "triple (staged w0 t H K) (SharedMemoryBase_new ?p CREATE_READ_WRITE (channels_size cp) LockShared)
     (\<lambda>s w. \<exists>fd j. fresh_fd w0 H fd \<and> shm_fd s = Some fd \<and> staged w0 t (insert fd H)
        (K(?p \<mapsto> NFile j \<lparr>f_size = channels_size cp, f_content = RawBytes []\<rparr>)) w) (staged_any w0 t H)"
    by (rule triple_weaken [OF create_base_stages [OF c]]) auto
  have geom: "channelCount (continuous (config (flow_info (new_flow cfg (continuous_member cp) rt i))))
      * bufferLength (continuous (config (flow_info (new_flow cfg (continuous_member cp) rt i))))
      = (ucast (cp_channelCount cp) :: u32) * ucast (cp_bufferLength cp)"
    by (simp add: new_flow_def continuous_def continuous_member_def)
  show ?thesis
    unfolding openChannelBuffers_def
  proof (intro triple_if)
    assume "cp_sampleWordSize cp \<noteq> 0 \<or> \<not> created seg"
    then have nz: "cp_sampleWordSize cp \<noteq> 0" using seg(1) by simp
    show "triple (staged w0 t H K) (ibind (get_flow seg) (\<lambda>fl.
          let buffersLength = ucast (channelCount (continuous (config (flow_info fl))) * bufferLength (continuous (config (flow_info fl)))) :: u64
          in if 0 < buffersLength then
               ibind (SharedMemoryBase_new ?p (if created seg then CREATE_READ_WRITE else accessMode seg)
                        (buffersLength * cp_sampleWordSize cp) LockShared) (\<lambda>s.
                 let mappedSize = shm_mappedSize s
                 in iret (s, if cp_sampleWordSize cp \<noteq> 0 then cp_sampleWordSize cp
                             else if buffersLength \<le> mappedSize then mappedSize div buffersLength else 1))
             else ithrow RuntimeError)) ?Q (staged_any w0 t H)"
      unfolding Let_def
    proof (rule triple_bind [OF g], intro triple_pure, simp only: geom seg(1) if_True channels_size_def [symmetric], intro triple_if triple_bind [OF b] triple_ret triple_throw)
    qed (use nz in \<open>auto intro: staged_anyI\<close>)
  qed (auto intro: triple_throw staged_anyI)
qed

definition continuous_complete :: "uuid \<Rightarrow> string \<Rightarrow> continuous_params \<Rightarrow> path \<Rightarrow> layout \<Rightarrow> bool" where
  "continuous_complete flowId txt cp d K \<longleftrightarrow>
     K d = Some NDir \<and>
     (\<exists>i n. K (makeFlowDescriptorFilePath d) = Some (NFile i \<lparr>f_size = 0, f_content = TextFile (take n txt)\<rparr>)) \<and>
     (\<exists>i f. K (makeFlowDataFilePath d) = Some (NFile i f) \<and> flow_file (continuous_config flowId cp) (continuous_member cp) i f) \<and>
     (\<exists>i. K (makeChannelDataFilePath d) = Some (NFile i \<lparr>f_size = channels_size cp, f_content = RawBytes []\<rparr>))"

lemma relocate_continuous: "continuous_complete flowId txt cp t K \<Longrightarrow> continuous_complete flowId txt cp d (relocate t d K)"
  using relocate_append [of t d K "[]"] unfolding continuous_complete_def path_defs by simp

lemma build_continuous_stages:
  assumes seg: "created seg" "shm_data seg = Some i"
    and K: "K = [t \<mapsto> NDir, makeFlowDescriptorFilePath t \<mapsto> NFile j \<lparr>f_size = 0, f_content = TextFile (take m txt)\<rparr>]"
  shows "triple (staged w0 t H (K(makeFlowDataFilePath t \<mapsto> NFile i \<lparr>f_size = SIZEOF_FLOW, f_content = FlowSegment zero_flow\<rparr>)))
     (build_continuous flowId cp t seg)
     (\<lambda>r w. \<exists>fd K'. fresh_fd w0 H fd \<and> shm_fd (fst r) = Some fd \<and> continuous_complete flowId txt cp t K' \<and> staged w0 t (insert fd H) K' w)
     (staged_any w0 t H)"
  unfolding build_continuous_def continuous_config_def [symmetric] continuous_member_def [symmetric]
proof (rule triple_bind [OF init_flow_stages [OF seg(2)]], simp add: makeFlowDataFilePath_def, intro triple_ex triple_pure)
  fix rt :: mxlFlowRuntimeInfo assume rt: "headIndex rt = 0"
  let ?f = "\<lparr>f_size = SIZEOF_FLOW, f_content = FlowSegment (new_flow (continuous_config flowId cp) (continuous_member cp) rt i)\<rparr>"
  let ?K = "K(makeFlowDataFilePath t \<mapsto> NFile i ?f)"
  have f: "flow_file (continuous_config flowId cp) (continuous_member cp) i ?f"
    using rt by (auto simp: flow_file_def)
  have c: "continuous_complete flowId txt cp t (?K(makeChannelDataFilePath t \<mapsto> NFile k \<lparr>f_size = channels_size cp, f_content = RawBytes []\<rparr>))" for k
    using f by (auto simp: continuous_complete_def K path_defs path_names)
  show "triple (staged w0 t H ?K) (openChannelBuffers seg (makeChannelDataFilePath t) (cp_sampleWordSize cp))
     (\<lambda>r w. \<exists>fd K'. fresh_fd w0 H fd \<and> shm_fd (fst r) = Some fd \<and> continuous_complete flowId txt cp t K' \<and> staged w0 t (insert fd H) K' w)
     (staged_any w0 t H)"
    by (rule triple_weaken [OF open_channels_stages [OF seg f, where K = ?K]]) (use c in \<open>auto simp: K path_defs path_names\<close>)
qed

definition continuous_outcome :: "world \<Rightarrow> services \<Rightarrow> path \<Rightarrow> uuid \<Rightarrow> string \<Rightarrow> continuous_params \<Rightarrow> path \<Rightarrow> nat set \<Rightarrow> bool \<Rightarrow> world \<Rightarrow> bool" where
  "continuous_outcome w0 sv domain flowId txt cp t H isnew w \<longleftrightarrow>
     (if isnew then
        (let d = makeFlowDirectoryName domain (sv_uuid_to_string sv flowId) in
         lookup w0 d = None \<and> (\<exists>K. continuous_complete flowId txt cp d K \<and> staged w0 d H K w))
      else (\<exists>K. K t = Some NDir \<and> staged w0 t H K w))"

lemma continuous_body_stages:
  assumes wf: "wf_world w0" and new: "lookup w0 t = None" and t: "temp_dir domain t" "uuid_text (sv_uuid_to_string sv flowId)"
    and K: "K = [t \<mapsto> NDir, makeFlowDescriptorFilePath t \<mapsto> NFile j \<lparr>f_size = 0, f_content = TextFile (take m txt)\<rparr>]"
  shows "triple (staged w0 t {} K) (continuous_body sv domain flowId cp t)
     (\<lambda>r w. \<exists>H. owned w0 {} (segments (snd r)) H \<and> continuous_outcome w0 sv domain flowId txt cp t H (fst r) w)
     (staged_any w0 t {})"
  unfolding continuous_body_def FlowInstance_new_def
proof (rule triple_bind [OF create_instance_stages], simp add: K path_defs path_names, intro triple_ex triple_pure)
  fix seg :: SharedMemoryBase and fd i'
  let ?d = "makeFlowDirectoryName domain (sv_uuid_to_string sv flowId)"
  let ?Q = "\<lambda>r w. \<exists>H. owned w0 {} (segments (snd r)) H \<and> continuous_outcome w0 sv domain flowId txt cp t H (fst r) w"
  assume seg: "fresh_fd w0 {} fd" "shm_fd seg = Some fd" "shm_mode seg = CREATE_READ_WRITE" "shm_data seg = Some i'"
    "shm_mappedSize seg = 0 + SIZEOF_FLOW"
  have b: "triple (staged w0 t (insert fd {}) (K(makeFlowDataFilePath t \<mapsto> NFile i' \<lparr>f_size = 0 + SIZEOF_FLOW, f_content = FlowSegment zero_flow\<rparr>)))
     (iunwind (build_continuous flowId cp t seg) (SharedMemory_destroy seg))
     (\<lambda>r w. \<exists>fd' K'. fresh_fd w0 (insert fd {}) fd' \<and> shm_fd (fst r) = Some fd' \<and> continuous_complete flowId txt cp t K' \<and>
        staged w0 t (insert fd' (insert fd {})) K' w)
     (staged_any w0 t {})"
    unfolding add_0
    by (rule triple_unwind [OF build_continuous_stages [OF _ _ K] staged_any_frame.destroy_keeps [OF seg(1,2)]])
       (use seg in \<open>auto simp: created_def\<close>)
  show "triple (staged w0 t (insert fd {}) (K(makeFlowDataFilePath t \<mapsto> NFile i' \<lparr>f_size = 0 + SIZEOF_FLOW, f_content = FlowSegment zero_flow\<rparr>)))
     (ibind (iunwind (build_continuous flowId cp t seg) (SharedMemory_destroy seg)) (\<lambda>r.
        iunwind (publish_or_open as_continuous sv domain flowId t (ContinuousData seg (fst r) (snd r)))
          (FlowData_destroy (ContinuousData seg (fst r) (snd r)))))
     ?Q (staged_any w0 t {})"
  proof (rule triple_bind [OF b], intro triple_ex triple_pure)
    fix r :: "SharedMemoryBase \<times> u64" and fd' K'
    let ?h = "ContinuousData seg (fst r) (snd r)"
    assume fd': "fresh_fd w0 (insert fd {}) fd'" "shm_fd (fst r) = Some fd'" and c: "continuous_complete flowId txt cp t K'"
    have own: "owned w0 {} (segments ?h) (insert fd' (insert fd {}))"
      using seg(1,2) fd' by (auto simp: segments_def)
    have kt: "K' t = Some NDir" using c by (simp add: continuous_complete_def)
    have d: "?d \<noteq> []" by (simp add: makeFlowDirectoryName_def)
    have cast: "fd' = ex" if "as_continuous ex = Some fd'" for ex fd' using that by (cases ex) (auto simp: as_continuous_def)
    note p = publish_or_open_stages [where K = K', OF wf new kt temp_apart(1) [OF t] d refl cast own]
    show "triple (staged w0 t (insert fd' (insert fd {})) K')
        (iunwind (publish_or_open as_continuous sv domain flowId t ?h) (FlowData_destroy ?h)) ?Q (staged_any w0 t {})"
    proof (rule triple_unwind [OF triple_weaken [OF p, where E' = "staged_any w0 t (insert fd' (insert fd {}))"]])
      show "triple (staged_any w0 t (insert fd' (insert fd {}))) (FlowData_destroy ?h) (\<lambda>_. staged_any w0 t {}) (staged_any w0 t {})"
        unfolding FlowData_destroy_def by (rule staged_any_frame.destroy_all_keeps [OF own])
    qed (use own kt relocate_continuous [OF c] in \<open>auto simp: continuous_outcome_def Let_def intro: staged_anyI split: if_splits\<close>)
  qed
qed

lemma create_continuous_triple:
  assumes wf: "wf_world w0" and u: "uuid_text (sv_uuid_to_string sv flowId)"
  shows "triple (observed w0 {}) (createOrOpenContinuousFlow sv domain flowId txt cp)
     (\<lambda>r w. \<exists>t H. temp_dir domain t \<and> lookup w0 t = None \<and> owned w0 {} (segments (snd r)) H \<and>
        continuous_outcome w0 sv domain flowId txt cp t H (fst r) w)
     (\<lambda>w. observed w0 {} w \<or> (\<exists>t. temp_dir domain t \<and> lookup w0 t = None \<and> cleaned w0 t {} w))"
proof -
  let ?E = "\<lambda>w. observed w0 {} w \<or> (\<exists>t. temp_dir domain t \<and> lookup w0 t = None \<and> cleaned w0 t {} w)"
  let ?Q = "\<lambda>r w. \<exists>t H. temp_dir domain t \<and> lookup w0 t = None \<and> owned w0 {} (segments (snd r)) H \<and>
        continuous_outcome w0 sv domain flowId txt cp t H (fst r) w"
  have c: "triple (observed w0 {}) (createTemporaryFlowDirectory domain)
     (\<lambda>t w. temp_dir domain t \<and> lookup w0 t = None \<and> staged w0 t {} [t \<mapsto> NDir] w) ?E"
    by (rule triple_weaken [OF createTemporary_stages [OF wf]]) auto
  have b: "triple (staged w0 t {} [t \<mapsto> NDir])
     (ibind (writeFlowDescriptor t txt) (\<lambda>_. continuous_body sv domain flowId cp t)) ?Q (staged_any w0 t {})"
    if t: "temp_dir domain t" and new: "lookup w0 t = None" for t
  proof (rule triple_bind)
    let ?K = "\<lambda>i m. [t \<mapsto> NDir, makeFlowDescriptorFilePath t \<mapsto> NFile i \<lparr>f_size = 0, f_content = TextFile (take m txt)\<rparr>]"
    show "triple (staged w0 t {} [t \<mapsto> NDir]) (writeFlowDescriptor t txt) (\<lambda>_ w. \<exists>i m. staged w0 t {} (?K i m) w) (staged_any w0 t {})"
      by (rule triple_weaken [OF descriptor_stages]) (auto simp: path_defs path_names intro: staged_anyI)
    show "triple (\<lambda>w. \<exists>i m. staged w0 t {} (?K i m) w) (continuous_body sv domain flowId cp t) ?Q (staged_any w0 t {})"
      by (intro triple_ex, rule triple_weaken [OF continuous_body_stages [OF wf new t u refl]]) (use t new in auto)
  qed
  show ?thesis
    unfolding createOrOpenContinuousFlow_def
  proof (rule triple_if, rule triple_throw, simp, rule triple_bind [OF c], intro triple_pure)
    fix t assume t: "temp_dir domain t" and new: "lookup w0 t = None"
    have "triple (staged_any w0 t {}) (ibind (isys (sys_remove_all t)) (\<lambda>_. iret ())) (\<lambda>_. ?E) ?E"
      by (rule triple_weaken [OF cleanup_stages [OF temp_apart(3) [OF t u]]]) (use t new in auto)
    then show "triple (staged w0 t {} [t \<mapsto> NDir])
       (iunwind (ibind (writeFlowDescriptor t txt) (\<lambda>_. continuous_body sv domain flowId cp t))
          (ibind (isys (sys_remove_all t)) (\<lambda>_. iret ()))) ?Q ?E"
      by (rule triple_unwind [OF b [OF t new]])
  qed
qed

text \<open>
  C12: Creating a continuous flow is as safe as creating a discrete one: nothing that existed is touched,
  a flow reported as created is complete and was not there before, a handle owns the descriptors
  opened and an exception leaves none open.
\<close>

theorem continuous_creation_is_atomic:
  assumes "wf_world w" and "uuid_text (sv_uuid_to_string sv flowId)"
    and "createOrOpenContinuousFlow sv domain flowId flowDef cp w = (r, w')"
  shows "untouched w w' \<and> owns (omap snd r) w w' \<and>
    (let d = makeFlowDirectoryName domain (sv_uuid_to_string sv flowId) in
     omap fst r = Ret True \<longrightarrow> lookup w d = None \<and> (\<exists>K. continuous_complete flowId flowDef cp d K \<and> staged w d (new_fds w w') K w'))"
proof (cases r)
  case (Ret a)
  let ?d = "makeFlowDirectoryName domain (sv_uuid_to_string sv flowId)"
  obtain t H where o: "owned w {} (segments (snd a)) H" and t: "temp_dir domain t" "lookup w t = None"
    and e: "continuous_outcome w sv domain flowId flowDef cp t H (fst a) w'"
    using triple_Ret [OF create_continuous_triple [OF assms(1,2)] observed_start [OF assms(1)]] assms(3) Ret by blast
  have n: "owns (omap snd r) w w'" if "staged w x H K w'" for x K
    using o staged_new_fds [OF that] by (simp add: Ret owns_def)
  show ?thesis
  proof (cases "fst a")
    case True
    then obtain K where d: "lookup w ?d = None" and c: "continuous_complete flowId flowDef cp ?d K" and k: "staged w ?d H K w'"
      using e by (auto simp: continuous_outcome_def Let_def)
    show ?thesis
      using n [OF k] staged_untouched [OF k assms(1) d] c k d staged_new_fds [OF k] by (auto simp: Let_def)
  next
    case False
    then obtain K where k: "staged w t H K w'" using e by (auto simp: continuous_outcome_def)
    have "omap fst r \<noteq> Ret True" using False by (simp add: Ret)
    then show ?thesis
      using n [OF k] staged_untouched [OF k assms(1) t(2)] by (simp add: Let_def)
  qed
next
  case (Throw e)
  then consider "observed w {} w'" | t where "temp_dir domain t" "lookup w t = None" "cleaned w t {} w'"
    using triple_Throw [OF create_continuous_triple [OF assms(1,2)] observed_start [OF assms(1)]] assms(3) by blast
  then show ?thesis
  proof cases
    case 1
    then show ?thesis using observed_untouched by (auto simp: Throw owns_def observed_def since_def)
  next
    case 2
    obtain K where k: "staged w t {} K w'" using cleaned_staged [OF 2(3)] by blast
    show ?thesis
      using staged_new_fds [OF k] staged_untouched [OF k assms(1) 2(2)] by (simp add: Throw owns_def)
  qed
next
  case (Crash c)
  then show ?thesis
    using triple_Crash [OF create_continuous_triple [OF assms(1,2)] observed_start [OF assms(1)]] assms(3) by blast
qed

text \<open>
  But a call that finds the flow existing and opens it leaves its temporary directory behind, always:
  the discrete variant removes it on every path.
\<close>

theorem continuous_reopen_leaks_directory:
  assumes "wf_world w" and "uuid_text (sv_uuid_to_string sv flowId)"
    and "createOrOpenContinuousFlow sv domain flowId flowDef cp w = (Ret (False, fd), w')"
  shows "\<exists>t. temp_dir domain t \<and> lookup w t = None \<and> lookup w' t = Some DirEntry"
proof -
  obtain t H where t: "temp_dir domain t" "lookup w t = None"
    and "continuous_outcome w sv domain flowId flowDef cp t H False w'"
    using triple_Ret [OF create_continuous_triple [OF assms(1,2)] observed_start [OF assms(1)] assms(3)] by auto
  then obtain K where "K t = Some NDir" "staged w t H K w'" by (auto simp: continuous_outcome_def)
  then have "lookup w' t = Some DirEntry" using staged_lookup [of w t H K w' t] by simp
  with t show ?thesis by blast
qed

section \<open>Example runs\<close>

definition ex_store :: services where
  "ex_store = \<lparr>sv_parse = (\<lambda>_. None), sv_uuid_from_string = (\<lambda>s. if s = ''u'' then Some (replicate 16 7) else None),
     sv_uuid_to_string = (\<lambda>u. if u = replicate 16 7 then ''u'' else ''v'')\<rparr>"

definition ex_os :: environment_os where
  "ex_os = \<lparr>en_fail = (\<lambda>_. None), en_clock = (\<lambda>t. Timepoint (int t)), en_tempname = (\<lambda>_. ''a''), en_survives = (\<lambda>_ _. False),
     en_flow_view = (\<lambda>_. zero_flow), en_grain_view = (\<lambda>_. zero_grain_info)\<rparr>"

definition ex_world :: world where
  "ex_world = \<lparr>w_env = ex_os, w_tick = 0, w_tree = [([''domain''], DirEntry), ([], DirEntry)],
     w_files = [], w_inode = 1, w_fds = [], w_fd = 3\<rparr>"

definition ex_discrete :: discrete_params where
  "ex_discrete = \<lparr>dp_format = 1, dp_grainCount = 2, dp_grainRate = \<lparr>numerator = 50, denominator = 1\<rparr>, dp_payloadSize = 5120,
     dp_numOfSlices = 10, dp_sliceLengths = [512, 0, 0, 0], dp_maxSync = 1, dp_maxCommit = 1\<rparr>"

definition ex_continuous :: continuous_params where
  "ex_continuous = \<lparr>cp_format = 2, cp_sampleRate = \<lparr>numerator = 48000, denominator = 1\<rparr>, cp_channelCount = 2,
     cp_sampleWordSize = 4, cp_bufferLength = 16, cp_maxSync = 1, cp_maxCommit = 1\<rparr>"

definition run_discrete :: "world \<Rightarrow> (bool \<times> FlowData) outcome \<times> world" where
  "run_discrete = createOrOpenDiscreteFlow ex_store [''domain''] (replicate 16 7) ''{}'' ex_discrete"

definition run_continuous :: "world \<Rightarrow> (bool \<times> FlowData) outcome \<times> world" where
  "run_continuous = createOrOpenContinuousFlow ex_store [''domain''] (replicate 16 7) ''{}'' ex_continuous"

definition returns_flag :: "bool \<Rightarrow> (bool \<times> 'a) outcome \<times> world \<Rightarrow> bool" where
  "returns_flag b x = (case fst x of Ret r \<Rightarrow> fst r = b | _ \<Rightarrow> False)"

lemma returns_flagE:
  assumes "returns_flag b x" obtains a w where "x = (Ret (b, a), w)"
  using assms by (cases x; cases "fst x") (auto simp: returns_flag_def)

lemma ex_world_wf: "wf_world ex_world"
  by (auto simp: wf_world_def ex_world_def lookup_def)

lemma ex_uuid_text: "uuid_text (sv_uuid_to_string ex_store (replicate 16 7))"
  by (simp add: ex_store_def uuid_text_def)

lemma ex_grain_count: "dp_grainCount ex_discrete \<le> 2 ^ 32"
  by (simp add: ex_discrete_def)

lemma run_discrete_creates: "returns_flag True (run_discrete ex_world)"
  by code_simp

lemma run_continuous_reopens: "returns_flag True (run_continuous ex_world) \<and> returns_flag False (run_continuous (snd (run_continuous ex_world)))"
  by code_simp

theorem open_flow_only_reads_witness:
  "w_tree (snd (openFlow ex_store [''domain''] (replicate 16 7) READ_ONLY ex_world)) = w_tree ex_world"
  using open_flow_only_reads [OF ex_world_wf, of ex_store "[''domain'']" "replicate 16 7" READ_ONLY
      "fst (openFlow ex_store [''domain''] (replicate 16 7) READ_ONLY ex_world)"
      "snd (openFlow ex_store [''domain''] (replicate 16 7) READ_ONLY ex_world)"]
  by simp

theorem discrete_creation_is_atomic_witness:
  "untouched ex_world (snd (run_discrete ex_world)) \<and> owns (omap snd (fst (run_discrete ex_world))) ex_world (snd (run_discrete ex_world))"
  using discrete_creation_is_atomic [OF ex_world_wf ex_uuid_text ex_grain_count, of "[''domain'']" "''{}''" "fst (run_discrete ex_world)" "snd (run_discrete ex_world)"]
  by (simp add: run_discrete_def)

theorem created_discrete_flow_is_complete_witness:
  "\<exists>K. discrete_complete (replicate 16 7) ''{}'' ex_discrete [''domain'', ''u.mxl-flow''] K \<and>
     staged ex_world [''domain'', ''u.mxl-flow''] (new_fds ex_world (snd (run_discrete ex_world))) K (snd (run_discrete ex_world))"
proof -
  obtain fd w where r: "run_discrete ex_world = (Ret (True, fd), w)"
    using run_discrete_creates by (rule returns_flagE)
  have "makeFlowDirectoryName [''domain''] (sv_uuid_to_string ex_store (replicate 16 7)) = [''domain'', ''u.mxl-flow'']"
    by (simp add: makeFlowDirectoryName_def ex_store_def path_names)
  then show ?thesis
    using created_discrete_flow_is_complete [OF ex_world_wf ex_uuid_text ex_grain_count r [unfolded run_discrete_def]] by (simp add: r)
qed

theorem continuous_creation_is_atomic_witness:
  "untouched ex_world (snd (run_continuous ex_world)) \<and> owns (omap snd (fst (run_continuous ex_world))) ex_world (snd (run_continuous ex_world))"
  using continuous_creation_is_atomic [OF ex_world_wf ex_uuid_text, of "[''domain'']" "''{}''" ex_continuous
      "fst (run_continuous ex_world)" "snd (run_continuous ex_world)"]
  by (simp add: run_continuous_def)

lemma run_continuous_wf: "wf_world (snd (run_continuous ex_world))"
proof -
  obtain fd w where r: "run_continuous ex_world = (Ret (True, fd), w)"
    using conjunct1 [OF run_continuous_reopens] by (rule returns_flagE)
  obtain t H where "continuous_outcome ex_world ex_store [''domain''] (replicate 16 7) ''{}'' ex_continuous t H True w"
    using triple_Ret [OF create_continuous_triple [OF ex_world_wf ex_uuid_text] observed_start [OF ex_world_wf] r [unfolded run_continuous_def]] by auto
  then show ?thesis by (auto simp: r continuous_outcome_def Let_def staged_def since_def)
qed

theorem continuous_reopen_leaks_directory_witness:
  "\<exists>t. temp_dir [''domain''] t \<and> lookup (snd (run_continuous ex_world)) t = None
     \<and> lookup (snd (run_continuous (snd (run_continuous ex_world)))) t = Some DirEntry"
proof -
  obtain fd w where r: "run_continuous (snd (run_continuous ex_world)) = (Ret (False, fd), w)"
    using conjunct2 [OF run_continuous_reopens] by (rule returns_flagE)
  then show ?thesis
    using continuous_reopen_leaks_directory [OF run_continuous_wf [unfolded run_continuous_def] ex_uuid_text r [unfolded run_continuous_def]]
    by (simp add: run_continuous_def)
qed

end
