(* ===== verification/DomainWatcher.thy ===== *)
theory DomainWatcher
  imports ContinuousCreation
begin

text \<open>
  The domain watcher (\<open>DomainWatcher.cpp\<close>, the Linux branch): every discrete writer registers the
  access file of its flow; readers touch that file, the kernel reports it, and the watcher stores the
  time in the flow's header. The inotify instance belongs to the watcher and is part of its state:
  a table of watch descriptors and what they watch, from which the kernel drops the watches of deleted
  objects. The multimap of records is a list; its order among
  equal keys, which the standard leaves open, is that of the list.
\<close>

section \<open>The inotify instance\<close>

type_synonym watched = "nat + path"

record inotify =
  ino_watches :: "(int \<times> watched) list"
  ino_next :: int

definition watched_object :: "path \<Rightarrow> entry \<Rightarrow> watched" where
  "watched_object p e = (case e of FileEntry i \<Rightarrow> Inl i | DirEntry \<Rightarrow> Inr p)"

definition find_watch :: "watched \<Rightarrow> inotify \<Rightarrow> int option" where
  "find_watch x ino = map_option fst (find (\<lambda>y. snd y = x) (ino_watches ino))"

text \<open>
  The kernel drops a watch by itself when the object is deleted: a file when no name and no open
  descriptor is left of it, a directory when its name is gone. \<open>kernel_watches\<close> is the table as it is in
  a world; every call works on that table.
\<close>

definition watched_alive :: "world \<Rightarrow> watched \<Rightarrow> bool" where
  "watched_alive w x =
     (case x of
        Inl i \<Rightarrow> list_ex (\<lambda>(p, e). e = FileEntry i) (w_tree w) \<or> list_ex (\<lambda>(fd, j, l). j = i) (w_fds w)
      | Inr p \<Rightarrow> lookup w p = Some DirEntry)"

definition kernel_watches :: "world \<Rightarrow> inotify \<Rightarrow> inotify" where
  "kernel_watches w ino = ino\<lparr>ino_watches := filter (\<lambda>x. watched_alive w (snd x)) (ino_watches ino)\<rparr>"

text \<open>\<open>inotify_add_watch\<close> returns the descriptor of the object that is already watched, or a new one.\<close>

definition add_watched :: "watched \<Rightarrow> inotify \<Rightarrow> int \<times> inotify" where
  "add_watched x ino =
     (case find_watch x ino of
        Some wd \<Rightarrow> (wd, ino)
      | None \<Rightarrow> (ino_next ino, \<lparr>ino_watches = (ino_next ino, x) # ino_watches ino, ino_next = ino_next ino + 1\<rparr>))"

definition sys_inotify_add_watch :: "path \<Rightarrow> inotify \<Rightarrow> (int \<times> inotify) syscall" where
  "sys_inotify_add_watch p ino = syscall (\<lambda>w.
     case lookup w p of
       None \<Rightarrow> (Inl ENOENT, w)
     | Some e \<Rightarrow> (Inr (add_watched (watched_object p e) (kernel_watches w ino)), w))"

text \<open>A descriptor whose watch is gone, removed or dropped, is an invalid argument.\<close>

definition sys_inotify_rm_watch :: "int \<Rightarrow> inotify \<Rightarrow> inotify syscall" where
  "sys_inotify_rm_watch wd ino = syscall (\<lambda>w.
     let now = kernel_watches w ino in
     if wd \<in> fst ` set (ino_watches now)
     then (Inr (now\<lparr>ino_watches := filter (\<lambda>x. fst x \<noteq> wd) (ino_watches now)\<rparr>), w)
     else (Inl EINVAL, w))"

section \<open>The watcher\<close>

record DomainWatcherRecord =
  wr_id :: uuid
  wr_fileName :: path
  wr_fw :: nat
  wr_flowData :: SharedMemoryBase

record DomainWatcher =
  wt_inotifyFd :: nat
  wt_epollFd :: nat
  wt_eventFd :: nat
  wt_inotify :: inotify
  wt_watches :: "(int \<times> DomainWatcherRecord) list"
  wt_running :: bool

text \<open>
  The constructor: three descriptors that refer to no file of the tree, two registrations with the
  epoll descriptor, and the thread. Whatever fails, the descriptors opened so far are closed.
\<close>

definition sys_anonymous_fd :: "nat syscall" where
  "sys_anonymous_fd = syscall (\<lambda>w.
     let (fd, w') = new_fd (w_inode w) (w\<lparr>w_inode := Suc (w_inode w)\<rparr>) in (Inr fd, w'))"

definition sys_epoll_ctl :: "unit syscall" where
  "sys_epoll_ctl = syscall (\<lambda>w. (Inr (), w))"

definition sys_thread_start :: "unit syscall" where
  "sys_thread_start = syscall (\<lambda>w. (Inr (), w))"

fun close_all :: "nat list \<Rightarrow> unit io" where
  "close_all [] = iret ()"
| "close_all (fd # fds) = ibind (sys_close fd) (\<lambda>_. close_all fds)"

definition DomainWatcher_new :: "path \<Rightarrow> DomainWatcher io" where
  "DomainWatcher_new in_domain =
     ibind (fs_is_directory in_domain) (\<lambda>d.
       if \<not> d then ithrow (FilesystemError ENOTDIR)
       else
         ibind (orthrow SystemError sys_anonymous_fd) (\<lambda>inotifyFd.
         ibind (iunwind (orthrow SystemError sys_anonymous_fd) (close_all [inotifyFd])) (\<lambda>epollFd.
         ibind (iunwind (orthrow SystemError sys_epoll_ctl) (close_all [inotifyFd, epollFd])) (\<lambda>_.
         ibind (iunwind (orthrow SystemError sys_anonymous_fd) (close_all [inotifyFd, epollFd])) (\<lambda>eventFd.
         ibind (iunwind (orthrow SystemError sys_epoll_ctl) (close_all [inotifyFd, epollFd, eventFd])) (\<lambda>_.
         ibind (iunwind (orthrow SystemError sys_thread_start) (close_all [inotifyFd, epollFd, eventFd])) (\<lambda>_.
           iret \<lparr>wt_inotifyFd = inotifyFd, wt_epollFd = epollFd, wt_eventFd = eventFd,
                 wt_inotify = \<lparr>ino_watches = [], ino_next = 1\<rparr>, wt_watches = [], wt_running = True\<rparr>)))))))"

definition watcher_stop :: "DomainWatcher \<Rightarrow> DomainWatcher" where
  "watcher_stop wt = wt\<lparr>wt_running := False\<rparr>"

text \<open>Failures of the calls in the destructor are logged; its members, the records, go last.\<close>

fun rm_watches :: "int list \<Rightarrow> inotify \<Rightarrow> unit io" where
  "rm_watches [] ino = iret ()"
| "rm_watches (wd # wds) ino =
     ibind (isys (sys_inotify_rm_watch wd ino)) (\<lambda>r.
       rm_watches wds (case r of Inl _ \<Rightarrow> ino | Inr ino' \<Rightarrow> ino'))"

definition DomainWatcher_destroy :: "DomainWatcher \<Rightarrow> unit io" where
  "DomainWatcher_destroy wt =
     ibind (rm_watches (map fst (wt_watches wt)) (wt_inotify wt)) (\<lambda>_.
     ibind (close_all [wt_inotifyFd wt, wt_eventFd wt, wt_epollFd wt]) (\<lambda>_.
       destroy_all (map (wr_flowData \<circ> snd) (wt_watches wt))))"

text \<open>Equality of records ignores the file name and the mapping.\<close>

definition same_record :: "uuid \<Rightarrow> nat \<Rightarrow> DomainWatcherRecord \<Rightarrow> bool" where
  "same_record flowId fw r \<longleftrightarrow> wr_id r = flowId \<and> wr_fw r = fw"

text \<open>A computation whose exception is a value, so that state changed before it is not lost.\<close>

definition iattempt :: "'a io \<Rightarrow> 'a outcome io" where
  "iattempt m w = (case m w of (Crash c, w1) \<Rightarrow> (Crash c, w1) | (r, w1) \<Rightarrow> (Ret r, w1))"

definition existing_watch :: "DomainWatcher \<Rightarrow> uuid \<Rightarrow> nat \<Rightarrow> int option" where
  "existing_watch wt flowId fw = map_option fst (find (\<lambda>x. same_record flowId fw (snd x)) (wt_watches wt))"

definition ensure_watch :: "DomainWatcher \<Rightarrow> uuid \<Rightarrow> nat \<Rightarrow> path \<Rightarrow> (nat + int \<times> inotify) io" where
  "ensure_watch wt flowId fw fileName =
     (case existing_watch wt flowId fw of
        Some wd \<Rightarrow> iret (Inr (wd, wt_inotify wt))
      | None \<Rightarrow> isys (sys_inotify_add_watch fileName (wt_inotify wt)))"

definition addFlow :: "services \<Rightarrow> path \<Rightarrow> DomainWatcher \<Rightarrow> nat \<Rightarrow> uuid \<Rightarrow> (unit outcome \<times> DomainWatcher) io" where
  "addFlow sv domain wt fw flowId =
     (let flowDir = makeFlowDirectoryName domain (sv_uuid_to_string sv flowId);
          fileName = makeFlowAccessFilePath flowDir in
      ibind (ensure_watch wt flowId fw fileName) (\<lambda>r.
        case r of
          Inl e \<Rightarrow> iret (Throw (SystemError e), wt)
        | Inr (wd, ino) \<Rightarrow>
            ibind (iattempt (FlowInstance_new (makeFlowDataFilePath flowDir) READ_WRITE 0 LockNone)) (\<lambda>seg.
              case seg of
                Ret s \<Rightarrow> iret (Ret (), wt\<lparr>wt_inotify := ino,
                  wt_watches := (wd, \<lparr>wr_id = flowId, wr_fileName = fileName, wr_fw = fw, wr_flowData = s\<rparr>) # wt_watches wt\<rparr>)
              | Throw e \<Rightarrow> iret (Throw e, wt\<lparr>wt_inotify := ino\<rparr>)
              | Crash c \<Rightarrow> icrash c)))"

fun erase_first :: "('a \<Rightarrow> bool) \<Rightarrow> 'a list \<Rightarrow> 'a list" where
  "erase_first P [] = []"
| "erase_first P (x # xs) = (if P x then xs else x # erase_first P xs)"

text \<open>
  Erasing the record destroys its mapping. The watch is removed when no record uses it any more; a
  failure is only logged, after the file has been looked for in some cases, which may throw.
\<close>

definition removeFlow :: "services \<Rightarrow> path \<Rightarrow> DomainWatcher \<Rightarrow> nat \<Rightarrow> uuid \<Rightarrow> (unit outcome \<times> DomainWatcher) io" where
  "removeFlow sv domain wt fw flowId =
     (case find (\<lambda>x. same_record flowId fw (snd x)) (wt_watches wt) of
        None \<Rightarrow> iret (Ret (), wt)
      | Some (wd, r) \<Rightarrow>
          ibind (SharedMemory_destroy (wr_flowData r)) (\<lambda>_.
            let fileName = makeFlowAccessFilePath (makeFlowDirectoryName domain (sv_uuid_to_string sv flowId));
                watches = erase_first (\<lambda>x. same_record flowId fw (snd x)) (wt_watches wt);
                wt1 = wt\<lparr>wt_watches := watches\<rparr> in
            if wd \<in> fst ` set watches then iret (Ret (), wt1)
            else ibind (isys (sys_inotify_rm_watch wd (wt_inotify wt1))) (\<lambda>rm.
              case rm of
                Inr ino \<Rightarrow> iret (Ret (), wt1\<lparr>wt_inotify := ino\<rparr>)
              | Inl e \<Rightarrow>
                  if e = EINVAL
                  then ibind (iattempt (fs_exists fileName)) (\<lambda>ex. iret (obind ex (\<lambda>_. Ret ()), wt1))
                  else iret (Ret (), wt1))))"

definition watcher_count :: "DomainWatcher \<Rightarrow> uuid \<Rightarrow> nat" where
  "watcher_count wt flowId =
     (case find (\<lambda>x. wr_id (snd x) = flowId) (wt_watches wt) of
        None \<Rightarrow> 0
      | Some (wd, _) \<Rightarrow> length (filter (\<lambda>x. fst x = wd) (wt_watches wt)))"

definition watcher_size :: "DomainWatcher \<Rightarrow> nat" where
  "watcher_size wt = length (wt_watches wt)"

section \<open>Events\<close>

definition IN_ACCESS :: u32 where "IN_ACCESS = 1"
definition IN_MODIFY :: u32 where "IN_MODIFY = 2"
definition IN_ATTRIB :: u32 where "IN_ATTRIB = 4"

record inotify_event =
  ev_wd :: int
  ev_mask :: u32

text \<open>One event: the header of the first record of the watch descriptor gets the time.\<close>

definition process_event :: "DomainWatcher \<Rightarrow> Timepoint \<Rightarrow> inotify_event \<Rightarrow> unit io" where
  "process_event wt now ev =
     (if and (ev_mask ev) (or (or IN_ACCESS IN_MODIFY) IN_ATTRIB) = 0 then iret ()
      else (case map_of (wt_watches wt) (ev_wd ev) of
              None \<Rightarrow> iret ()
            | Some r \<Rightarrow>
                put_flow (wr_flowData r) (set_runtime (\<lambda>rt. rt\<lparr>lastReadTime := word_of_int (tp_value now)\<rparr>))))"

fun process_events_from :: "DomainWatcher \<Rightarrow> Timepoint \<Rightarrow> inotify_event list \<Rightarrow> unit io" where
  "process_events_from wt now [] = iret ()"
| "process_events_from wt now (ev # evs) = ibind (process_event wt now ev) (\<lambda>_. process_events_from wt now evs)"

definition processEventBuffer :: "DomainWatcher \<Rightarrow> inotify_event list \<Rightarrow> unit io" where
  "processEventBuffer wt buffer = ibind sys_clock (\<lambda>time. process_events_from wt time buffer)"

text \<open>
  The event loop. What \<open>epoll_wait\<close> and the reads return at every round, and whether a stop was
  requested before it, is given by the environment of the thread. A failing read of the inotify
  descriptor breaks out of the loop over the ready descriptors only, of which there is one.
\<close>

datatype poll_result =
    PollError nat
  | PollTimeout
  | PollStop "nat + u64"
  | PollInotify "nat + inotify_event list"

definition EINTR :: nat where "EINTR = 4"

fun processEvents :: "nat \<Rightarrow> (nat \<Rightarrow> bool) \<Rightarrow> (nat \<Rightarrow> poll_result) \<Rightarrow> nat \<Rightarrow> DomainWatcher \<Rightarrow> world \<Rightarrow> (unit outcome \<times> nat \<times> world) option" where
  "processEvents 0 running poll k wt w = None"
| "processEvents (Suc fuel) running poll k wt w =
     (if \<not> running k then Some (Ret (), k, w)
      else case poll k of
        PollError e \<Rightarrow> if e = EINTR then processEvents fuel running poll (Suc k) wt w else Some (Ret (), k, w)
      | PollTimeout \<Rightarrow> processEvents fuel running poll (Suc k) wt w
      | PollStop r \<Rightarrow> processEvents fuel running poll (Suc k) wt w
      | PollInotify (Inl e) \<Rightarrow> processEvents fuel running poll (Suc k) wt w
      | PollInotify (Inr evs) \<Rightarrow>
          (case processEventBuffer wt evs w of
             (Ret (), w1) \<Rightarrow> processEvents fuel running poll (Suc k) wt w1
           | (r, w1) \<Rightarrow> Some (r, k, w1)))"

section \<open>Construction cleans up\<close>

interpretation since_frame: descriptor_frame w0 "since w0" for w0
  by unfold_locales auto

lemma wf_world_more_inodes:
  assumes "wf_world w" and "w_tree w' = w_tree w" and "w_fds w' = w_fds w" and "w_fd w' = w_fd w" and "w_inode w \<le> w_inode w'"
  shows "wf_world w'"
proof -
  have l: "lookup w' = lookup w" by (simp add: lookup_def fun_eq_iff assms(2))
  have "\<forall>p i. lookup w p = Some (FileEntry i) \<longrightarrow> i < w_inode w'"
    using assms(1,5) unfolding wf_world_def by (meson order_less_le_trans)
  moreover have "\<forall>x\<in>set (w_fds w). fst x < w_fd w \<and> fst (snd x) < w_inode w'"
    using assms(1,5) unfolding wf_world_def by (meson order_less_le_trans)
  moreover have "\<forall>p. p \<noteq> [] \<longrightarrow> lookup w p \<noteq> None \<longrightarrow> lookup w (butlast p) = Some DirEntry"
    "\<forall>p q i. lookup w p = Some (FileEntry i) \<longrightarrow> lookup w q = Some (FileEntry i) \<longrightarrow> p = q"
    using assms(1) unfolding wf_world_def by blast+
  ultimately show ?thesis
    unfolding wf_world_def l assms(3,4) by blast
qed

lemma anonymous_fd_since:
  "striple (since w0 H) sys_anonymous_fd (\<lambda>fd w. fresh_fd w0 H fd \<and> since w0 (insert fd H) w) (\<lambda>_. since w0 H)"
  unfolding sys_anonymous_fd_def
proof (rule striple_syscall)
  fix w assume s: "since w0 H w"
  let ?w = "(tick w)\<lparr>w_inode := Suc (w_inode w)\<rparr>"
  have "wf_world w" using s by (simp add: since_def)
  then have "wf_world ?w" by (rule wf_world_more_inodes) simp_all
  moreover have "old_fds w0 ?w = old_fds w0 w" "new_fds w0 ?w = new_fds w0 w"
    by (rule fd_lists_frame; simp)+
  ultimately have s': "since w0 H ?w"
    using s by (simp add: since_def)
  obtain fd w' where n: "new_fd (w_inode w) ?w = (fd, w')" by fastforce
  have "fresh_fd w0 H fd" "since w0 (insert fd H) w'"
    by (rule since_new_fd [OF s' _ n]; simp)+
  then show "case let (fd, w') = new_fd (w_inode (tick w)) ((tick w)\<lparr>w_inode := Suc (w_inode (tick w))\<rparr>) in (Inr fd, w') of
       (Inl e, w') \<Rightarrow> since w0 H w' | (Inr fd, w') \<Rightarrow> fresh_fd w0 H fd \<and> since w0 (insert fd H) w'"
    by (simp add: n)
qed simp

lemma plain_call_since:
  "striple (since w0 H) sys_epoll_ctl (\<lambda>_. since w0 H) (\<lambda>_. since w0 H)"
  "striple (since w0 H) sys_thread_start (\<lambda>_. since w0 H) (\<lambda>_. since w0 H)"
  unfolding sys_epoll_ctl_def sys_thread_start_def by (rule striple_syscall; simp)+

fun opened :: "world \<Rightarrow> nat list \<Rightarrow> bool" where
  "opened w0 [] = True"
| "opened w0 (fd # fds) \<longleftrightarrow> opened w0 fds \<and> fresh_fd w0 (set fds) fd"

lemma close_all_since: "opened w0 fds \<Longrightarrow> triple (since w0 (set fds)) (close_all fds) (\<lambda>_. since w0 {}) E"
  by (induction fds) (auto intro!: triple_ret triple_bind [OF since_frame.close_keeps])

lemma since_unwind:
  assumes "opened w0 fds" and "set fds' = set fds" and "opened w0 fds'"
    and "striple (since w0 (set fds)) f (\<lambda>a w. Q a w) (\<lambda>_. since w0 (set fds))"
  shows "triple (since w0 (set fds)) (iunwind (orthrow ex f) (close_all fds')) Q (since w0 {})"
  by (rule triple_unwind [OF triple_orthrow [OF assms(4)]]) (use close_all_since [OF assms(3)] assms(2) in simp)

text \<open>The order in which the code closes does not matter.\<close>

lemma opened_perm: "opened w0 fds \<longleftrightarrow> distinct fds \<and> (\<forall>fd\<in>set fds. w_fd w0 \<le> fd)"
  by (induction fds) (auto simp: fresh_fd_def)

lemma watcher_new_triple:
  "triple (since w0 {}) (DomainWatcher_new d)
     (\<lambda>wt w. opened w0 [wt_eventFd wt, wt_epollFd wt, wt_inotifyFd wt]
        \<and> since w0 {wt_eventFd wt, wt_epollFd wt, wt_inotifyFd wt} w) (since w0 {})"
proof -
  let ?Q = "\<lambda>wt w. opened w0 [wt_eventFd wt, wt_epollFd wt, wt_inotifyFd wt]
        \<and> since w0 {wt_eventFd wt, wt_epollFd wt, wt_inotifyFd wt} w"
  let ?wt = "\<lambda>i p e. \<lparr>wt_inotifyFd = i, wt_epollFd = p, wt_eventFd = e,
                 wt_inotify = \<lparr>ino_watches = [], ino_next = 1\<rparr>, wt_watches = [], wt_running = True\<rparr>"
  have three: "triple (since w0 (set [e, p, i]))
      (ibind (iunwind (orthrow SystemError sys_epoll_ctl) (close_all [i, p, e])) (\<lambda>_.
       ibind (iunwind (orthrow SystemError sys_thread_start) (close_all [i, p, e])) (\<lambda>_. iret (?wt i p e)))) ?Q (since w0 {})"
    if o: "opened w0 [e, p, i]" for e p i
  proof -
    have o': "opened w0 [i, p, e]" "set [i, p, e] = set [e, p, i]" using o by (auto simp: opened_perm)
    show ?thesis
      by (rule triple_bind [OF since_unwind [OF o o'(2,1) plain_call_since(1)]],
          rule triple_bind [OF since_unwind [OF o o'(2,1) plain_call_since(2)]], rule triple_ret) (use o in simp)
  qed
  have two: "triple (since w0 (set [p, i]))
      (ibind (iunwind (orthrow SystemError sys_epoll_ctl) (close_all [i, p])) (\<lambda>_.
       ibind (iunwind (orthrow SystemError sys_anonymous_fd) (close_all [i, p])) (\<lambda>e.
       ibind (iunwind (orthrow SystemError sys_epoll_ctl) (close_all [i, p, e])) (\<lambda>_.
       ibind (iunwind (orthrow SystemError sys_thread_start) (close_all [i, p, e])) (\<lambda>_. iret (?wt i p e)))))) ?Q (since w0 {})"
    if o: "opened w0 [p, i]" for p i
  proof -
    have o': "opened w0 [i, p]" "set [i, p] = set [p, i]" using o by (auto simp: opened_perm)
    show ?thesis
      by (rule triple_bind [OF since_unwind [OF o o'(2,1) plain_call_since(1)]],
          rule triple_bind [OF since_unwind [OF o o'(2,1) anonymous_fd_since]], rule triple_pure,
          rule triple_pre [OF three]) (use o in auto)
  qed
  have one: "triple (since w0 (set [i]))
      (ibind (iunwind (orthrow SystemError sys_anonymous_fd) (close_all [i])) (\<lambda>p.
       ibind (iunwind (orthrow SystemError sys_epoll_ctl) (close_all [i, p])) (\<lambda>_.
       ibind (iunwind (orthrow SystemError sys_anonymous_fd) (close_all [i, p])) (\<lambda>e.
       ibind (iunwind (orthrow SystemError sys_epoll_ctl) (close_all [i, p, e])) (\<lambda>_.
       ibind (iunwind (orthrow SystemError sys_thread_start) (close_all [i, p, e])) (\<lambda>_. iret (?wt i p e))))))) ?Q (since w0 {})"
    if o: "opened w0 [i]" for i
    by (rule triple_bind [OF since_unwind [OF o refl o anonymous_fd_since]], rule triple_pure, rule triple_pre [OF two])
       (use o in auto)
  have d: "triple (since w0 {}) (fs_is_directory d) (\<lambda>_. since w0 {}) (since w0 {})"
    by (rule triple_weaken [OF since_frame.is_directory_keeps]) auto
  show ?thesis
    unfolding DomainWatcher_new_def
    by (rule triple_bind [OF d], rule triple_if, rule triple_throw, simp,
        rule triple_bind [OF triple_orthrow [OF anonymous_fd_since]], rule triple_pure, rule triple_pre [OF one]) auto
qed

section \<open>Registration\<close>

text \<open>
  The descriptors the kernel watches are pairwise different and new ones have not been used. The
  table a world leaves of it and the calls keep this.
\<close>

definition wds :: "(int \<times> 'a) list \<Rightarrow> int set" where
  "wds xs = fst ` set xs"

lemma wds_simps [simp]:
  "wds [] = {}" "wds (x # xs) = insert (fst x) (wds xs)" "wds (filter (\<lambda>x. fst x \<noteq> wd) xs) = wds xs - {wd}"
  by (auto simp: wds_def image_iff)

definition inotify_ok :: "inotify \<Rightarrow> bool" where
  "inotify_ok ino \<longleftrightarrow> distinct (map fst (ino_watches ino)) \<and> (\<forall>y\<in>set (ino_watches ino). fst y < ino_next ino)"

lemma find_SomeD: "find P xs = Some x \<Longrightarrow> x \<in> set xs \<and> P x"
  by (induction xs) (auto split: if_splits)

lemma watched_alive_tick [simp]: "watched_alive (tick w) x = watched_alive w x"
  by (simp add: watched_alive_def tick_def lookup_def split: sum.splits)

lemma kernel_watches_tick [simp]: "kernel_watches (tick w) ino = kernel_watches w ino"
  by (simp add: kernel_watches_def)

lemma kernel_watches_simps [simp]:
  "y \<in> set (ino_watches (kernel_watches w ino)) \<longleftrightarrow> y \<in> set (ino_watches ino) \<and> watched_alive w (snd y)"
  "ino_next (kernel_watches w ino) = ino_next ino"
  by (auto simp: kernel_watches_def)

lemma kernel_watches_ok: "inotify_ok ino \<Longrightarrow> inotify_ok (kernel_watches w ino)"
  by (auto simp: inotify_ok_def kernel_watches_def distinct_map_filter)

lemma add_watched_props:
  assumes "add_watched x ino = (wd, ino')" and "inotify_ok ino"
  shows "inotify_ok ino' \<and> (wd, x) \<in> set (ino_watches ino') \<and> set (ino_watches ino) \<subseteq> set (ino_watches ino')
    \<and> set (ino_watches ino') \<subseteq> insert (ino_next ino, x) (set (ino_watches ino)) \<and> ino_next ino \<le> ino_next ino'"
proof (cases "find_watch x ino")
  case None
  with assms(1) have i: "wd = ino_next ino"
    "ino' = \<lparr>ino_watches = (ino_next ino, x) # ino_watches ino, ino_next = ino_next ino + 1\<rparr>"
    by (auto simp: add_watched_def)
  have "ino_next ino \<notin> fst ` set (ino_watches ino)"
    using assms(2) by (auto simp: inotify_ok_def)
  moreover have "fst y < ino_next ino + 1" if "y \<in> set (ino_watches ino)" for y
    using assms(2) that by (auto simp: inotify_ok_def zless_add1_eq)
  ultimately show ?thesis
    using assms(2) i by (auto simp: inotify_ok_def)
next
  case (Some k)
  with assms(1) have i: "ino' = ino" "find_watch x ino = Some wd" by (auto simp: add_watched_def)
  then obtain y where "find (\<lambda>y. snd y = x) (ino_watches ino) = Some y" "fst y = wd"
    by (auto simp: find_watch_def)
  then have "(wd, x) \<in> set (ino_watches ino)"
    using find_SomeD [of "\<lambda>y. snd y = x" "ino_watches ino" y] by (cases y) simp
  then show ?thesis using assms(2) unfolding i(1) by (simp add: subset_insertI)
qed

lemmas add_watched_ok =
  add_watched_props [THEN conjunct1]
  add_watched_props [THEN conjunct2, THEN conjunct1]
  add_watched_props [THEN conjunct2, THEN conjunct2, THEN conjunct1]
  add_watched_props [THEN conjunct2, THEN conjunct2, THEN conjunct2, THEN conjunct1]
  add_watched_props [THEN conjunct2, THEN conjunct2, THEN conjunct2, THEN conjunct2]

lemma rm_watch_effect:
  assumes "sys_inotify_rm_watch wd ino w = (Inr ino', w')"
  shows "w' = tick w" and "ino_next ino' = ino_next ino"
    and "y \<in> set (ino_watches ino') \<longleftrightarrow> y \<in> set (ino_watches ino) \<and> watched_alive w (snd y) \<and> fst y \<noteq> wd"
    and "inotify_ok ino \<Longrightarrow> inotify_ok ino'"
proof -
  have i: "w' = tick w" "ino' = (kernel_watches w ino)\<lparr>ino_watches := filter (\<lambda>x. fst x \<noteq> wd) (ino_watches (kernel_watches w ino))\<rparr>"
    using assms by (auto simp: sys_inotify_rm_watch_def syscall_Inr Let_def split: if_splits)
  show "w' = tick w" "ino_next ino' = ino_next ino"
    "y \<in> set (ino_watches ino') \<longleftrightarrow> y \<in> set (ino_watches ino) \<and> watched_alive w (snd y) \<and> fst y \<noteq> wd"
    using i by auto
  show "inotify_ok ino'" if "inotify_ok ino"
    using kernel_watches_ok [OF that, of w] i(2) by (simp add: inotify_ok_def distinct_map_filter)
qed

lemma ensure_watch_cases:
  assumes "ensure_watch wt flowId fw p w = (Ret (Inr (wd, ino)), w')"
  obtains "existing_watch wt flowId fw = Some wd" and "ino = wt_inotify wt"
  | e where "lookup w p = Some e" and "add_watched (watched_object p e) (kernel_watches w (wt_inotify wt)) = (wd, ino)"
proof (cases "existing_watch wt flowId fw")
  case None
  with assms have "sys_inotify_add_watch p (wt_inotify wt) w = (Inr (wd, ino), w')"
    by (auto simp: ensure_watch_def isys_def split: prod.splits)
  with that(2) show ?thesis
    by (auto simp: sys_inotify_add_watch_def syscall_Inr split: option.splits)
next
  case (Some x)
  with assms that(1) show ?thesis
    by (auto simp: ensure_watch_def iret_simps)
qed

section \<open>What is deleted stays deleted\<close>

text \<open>An assertion that a computation or a system call keeps, however it ends.\<close>

definition preserves :: "(world \<Rightarrow> bool) \<Rightarrow> (world \<Rightarrow> 'a \<times> world) \<Rightarrow> bool" where
  "preserves S m \<longleftrightarrow> (\<forall>w. S w \<longrightarrow> S (snd (m w)))"

lemma preservesD: "preserves S m \<Longrightarrow> m w = (r, w') \<Longrightarrow> S w \<Longrightarrow> S w'"
  unfolding preserves_def by (metis snd_conv)

lemma preserves_bind: "preserves S m \<Longrightarrow> (\<And>a. preserves S (f a)) \<Longrightarrow> preserves S (ibind m f)"
  unfolding preserves_def ibind_def by (force split: prod.splits outcome.splits)

lemma preserves_catch: "preserves S m \<Longrightarrow> (\<And>e. preserves S (h e)) \<Longrightarrow> preserves S (icatch m h)"
  unfolding preserves_def icatch_def by (force split: prod.splits outcome.splits)

lemma preserves_value: "preserves S (iret a)" "preserves S (ithrow e)" "preserves S (icrash c)"
  by (simp_all add: preserves_def iret_simps)

lemma preserves_unwind: "preserves S m \<Longrightarrow> preserves S c \<Longrightarrow> preserves S (iunwind m c)"
  unfolding iunwind_def by (intro preserves_catch preserves_bind preserves_value)

lemma preserves_call:
  "preserves S f \<Longrightarrow> preserves S (isys f)" "preserves S f \<Longrightarrow> preserves S (orthrow ex f)"
  unfolding preserves_def isys_def orthrow_def by (force split: prod.splits sum.splits)+

lemma preserves_attempt: "preserves S m \<Longrightarrow> preserves S (iattempt m)"
  unfolding preserves_def iattempt_def by (force split: prod.splits outcome.splits)

lemma preserves_syscall: "(\<And>w. S w \<Longrightarrow> S (tick w)) \<Longrightarrow> preserves S f \<Longrightarrow> preserves S (syscall f)"
  unfolding preserves_def syscall_def by (auto split: option.splits)

lemma preserves_if: "preserves S m \<Longrightarrow> preserves S m' \<Longrightarrow> preserves S (if b then m else m')"
  by simp

lemmas preserves_rules = preserves_bind preserves_unwind preserves_value preserves_call preserves_attempt preserves_if

abbreviation deleted :: "watched \<Rightarrow> world \<Rightarrow> bool" where
  "deleted x \<equiv> \<lambda>w. \<not> watched_alive w x"

lemma deleted_frame:
  assumes "deleted x w" and "w_tree w' = w_tree w" and "(\<lambda>(fd, j, l). j) ` set (w_fds w') \<subseteq> (\<lambda>(fd, j, l). j) ` set (w_fds w)"
  shows "deleted x w'"
  using assms by (fastforce simp: watched_alive_def list_ex_iff lookup_def split: sum.splits)

lemma deleted_open: "preserves (deleted x) (sys_open p)"
  unfolding sys_open_def
proof (rule preserves_syscall)
  show "preserves (deleted x) (\<lambda>w. case lookup w p of
       Some (FileEntry i) \<Rightarrow> let (fd, w') = new_fd i w in (Inr fd, w')
     | Some DirEntry \<Rightarrow> (Inl EINVAL, w)
     | None \<Rightarrow> (Inl ENOENT, w))"
    unfolding preserves_def
  proof (intro allI impI)
    fix w assume d: "deleted x w"
    have "deleted x (snd (new_fd i w))" if "lookup w p = Some (FileEntry i)" for i
    proof (cases x)
      case (Inl j)
      have "(p, FileEntry i) \<in> set (w_tree w)" using that by (simp add: lookup_def map_of_SomeD)
      with d Inl show ?thesis by (auto simp: watched_alive_def list_ex_iff new_fd_def)
    next
      case (Inr q)
      with d show ?thesis by (simp add: watched_alive_def new_fd_def lookup_def)
    qed
    with d show "deleted x (snd (case lookup w p of
       Some (FileEntry i) \<Rightarrow> let (fd, w') = new_fd i w in (Inr fd, w')
     | Some DirEntry \<Rightarrow> (Inl EINVAL, w)
     | None \<Rightarrow> (Inl ENOENT :: nat + nat, w)))"
      by (auto split: option.splits entry.splits prod.splits)
  qed
qed simp

lemma deleted_close: "preserves (deleted x) (sys_close fd)"
  unfolding preserves_def by (intro allI impI, erule deleted_frame) (force simp: sys_close_def tick_def)+

lemma deleted_set_lock: "deleted x w \<Longrightarrow> deleted x (set_lock fd l w)"
  by (erule deleted_frame) (force simp: set_lock_def)+

lemma deleted_flock: "preserves (deleted x) (sys_flock fd l)"
  unfolding sys_flock_def
  by (rule preserves_syscall) (auto simp: preserves_def deleted_set_lock split: option.splits)

lemma deleted_query: "(\<And>w. snd (f w) = w) \<Longrightarrow> preserves (deleted x) (syscall f)"
  by (rule preserves_syscall) (auto simp: preserves_def)

lemma deleted_query_calls:
  "preserves (deleted x) (sys_fstat fd)" "preserves (deleted x) (sys_mmap fd)"
  "preserves (deleted x) (sys_inotify_add_watch p ino)" "preserves (deleted x) (sys_inotify_rm_watch wd ino)"
  unfolding sys_fstat_def sys_mmap_def sys_inotify_add_watch_def sys_inotify_rm_watch_def
  by (rule deleted_query, simp split: option.splits add: Let_def)+

lemma deleted_exists: "preserves (deleted x) (fs_exists p)"
  unfolding preserves_def fs_exists_def syscall_def by (auto split: option.splits)

lemmas deleted_calls = deleted_open deleted_close deleted_flock deleted_query_calls deleted_exists

lemma deleted_close_fd: "preserves (deleted x) (close_fd fd)"
  unfolding close_fd_def by (intro preserves_rules deleted_calls)

lemma deleted_destroy: "preserves (deleted x) (SharedMemory_destroy s)"
  unfolding SharedMemory_destroy_def by (cases "shm_fd s") (simp_all add: preserves_value deleted_close_fd)

lemma deleted_existing_flow: "preserves (deleted x) (FlowInstance_new p READ_WRITE sz lm)"
proof -
  have o: "preserves (deleted x) (open_segment p READ_WRITE z)" for z
  proof -
    have "open_segment p READ_WRITE z = ibind (orthrow SystemError (sys_open p)) (\<lambda>fd. iret (fd, READ_WRITE))"
      by (simp add: open_segment_def ibind_def [of "iret _"] iret_simps fun_eq_iff)
    then show ?thesis by (simp add: preserves_rules deleted_open)
  qed
  have l: "preserves (deleted x) (lock_segment fd READ_WRITE lm)" for fd
    unfolding lock_segment_def by (intro preserves_rules deleted_calls)
  have b: "preserves (deleted x) (SharedMemoryBase_new p READ_WRITE z lm)" for z
    unfolding SharedMemoryBase_new_def
    by (rule preserves_bind [OF o], simp split: prod.split) (intro allI impI preserves_rules l deleted_calls deleted_close_fd)
  have c: "preserves (deleted x) (\<lambda>w. (r, set_content i f w))" for r :: "SharedMemoryBase outcome" and i f
    unfolding preserves_def by (intro allI impI, erule deleted_frame) (simp_all add: set_content_def put_file_def)
  have f: "preserves (deleted x) (case shm_data s of None \<Rightarrow> icrash NullDereference | Some i \<Rightarrow> (\<lambda>w. (Ret s, set_content i f w)))" for s :: SharedMemoryBase and f
    using c [of "Ret s"] by (cases "shm_data s") (simp_all add: preserves_value)
  show ?thesis
    unfolding FlowInstance_new_def SharedMemoryInstance_new_def
    by (intro preserves_rules b f deleted_destroy)
qed

lemma deleted_addFlow: "preserves (deleted x) (addFlow sv domain wt fw flowId)"
proof -
  have e: "preserves (deleted x) (ensure_watch wt flowId fw p)" for p
    unfolding ensure_watch_def by (cases "existing_watch wt flowId fw") (simp_all add: preserves_rules deleted_calls)
  show ?thesis
    unfolding addFlow_def Let_def
  proof (rule preserves_bind [OF e], goal_cases)
    case (1 r)
    show ?case
      by (cases r) (auto intro!: preserves_rules deleted_existing_flow split: outcome.splits)
  qed
qed

lemma deleted_removeFlow: "preserves (deleted x) (removeFlow sv domain wt fw flowId)"
proof (cases "find (\<lambda>x. same_record flowId fw (snd x)) (wt_watches wt)")
  case None
  then show ?thesis by (simp add: removeFlow_def preserves_value)
next
  case (Some y)
  then show ?thesis
    unfolding removeFlow_def Let_def
    by (cases y) (auto intro!: preserves_rules deleted_destroy deleted_calls split: sum.splits)
qed

section \<open>Registration\<close>

lemma addFlow_cases:
  assumes "addFlow sv domain wt fw flowId w = (Ret (res, wt'), w')"
  obtains "wt' = wt" and "\<exists>e. res = Throw e"
  | wd ino w1 where "ensure_watch wt flowId fw (makeFlowAccessFilePath (makeFlowDirectoryName domain (sv_uuid_to_string sv flowId))) w
        = (Ret (Inr (wd, ino)), w1)" and "wt' = wt\<lparr>wt_inotify := ino\<rparr>" and "\<exists>e. res = Throw e"
  | wd ino w1 r where "ensure_watch wt flowId fw (makeFlowAccessFilePath (makeFlowDirectoryName domain (sv_uuid_to_string sv flowId))) w
        = (Ret (Inr (wd, ino)), w1)" and "wt' = wt\<lparr>wt_inotify := ino, wt_watches := (wd, r) # wt_watches wt\<rparr>"
      and "res = Ret ()" and "wr_id r = flowId"
      and "wr_fileName r = makeFlowAccessFilePath (makeFlowDirectoryName domain (sv_uuid_to_string sv flowId))"
proof -
  let ?dir = "makeFlowDirectoryName domain (sv_uuid_to_string sv flowId)"
  from assms obtain r w1 where e: "ensure_watch wt flowId fw (makeFlowAccessFilePath ?dir) w = (Ret r, w1)"
    and k: "(case r of Inl e \<Rightarrow> iret (Throw (SystemError e), wt)
        | Inr (wd, ino) \<Rightarrow>
            ibind (iattempt (FlowInstance_new (makeFlowDataFilePath ?dir) READ_WRITE 0 LockNone)) (\<lambda>seg.
              case seg of
                Ret s \<Rightarrow> iret (Ret (), wt\<lparr>wt_inotify := ino,
                  wt_watches := (wd, \<lparr>wr_id = flowId, wr_fileName = makeFlowAccessFilePath ?dir, wr_fw = fw, wr_flowData = s\<rparr>) # wt_watches wt\<rparr>)
              | Throw e \<Rightarrow> iret (Throw e, wt\<lparr>wt_inotify := ino\<rparr>)
              | Crash c \<Rightarrow> icrash c)) w1 = (Ret (res, wt'), w')"
    unfolding addFlow_def Let_def by (rule ibind_RetE) blast
  show ?thesis
  proof (cases r)
    case (Inl x)
    with k have "wt' = wt" "res = Throw (SystemError x)" by (auto simp: iret_simps)
    then show ?thesis using that(1) by blast
  next
    case (Inr y)
    obtain wd ino where y: "y = (wd, ino)" by fastforce
    from k [unfolded Inr y] obtain seg w2 where
      s: "(case seg of Ret s \<Rightarrow> iret (Ret (), wt\<lparr>wt_inotify := ino,
            wt_watches := (wd, \<lparr>wr_id = flowId, wr_fileName = makeFlowAccessFilePath ?dir, wr_fw = fw, wr_flowData = s\<rparr>) # wt_watches wt\<rparr>)
        | Throw e \<Rightarrow> iret (Throw e, wt\<lparr>wt_inotify := ino\<rparr>) | Crash c \<Rightarrow> icrash c) w2 = (Ret (res, wt'), w')"
      by (auto elim: ibind_RetE)
    show ?thesis
    proof (cases seg)
      case (Ret sg)
      show ?thesis
        by (rule that(3) [OF e [unfolded Inr y]]) (use s Ret in \<open>auto simp: iret_simps\<close>)
    next
      case (Throw x)
      show ?thesis
        by (rule that(2) [OF e [unfolded Inr y]]) (use s Throw in \<open>auto simp: iret_simps\<close>)
    qed (use s in \<open>simp add: iret_simps\<close>)
  qed
qed

lemma erase_first_subset: "set (erase_first P xs) \<subseteq> set xs"
  by (induction xs) auto

lemma removeFlow_cases:
  assumes "removeFlow sv domain wt fw flowId w = (Ret (res, wt'), w')"
  obtains "wt' = wt" and "find (\<lambda>x. same_record flowId fw (snd x)) (wt_watches wt) = None"
  | wd r where "find (\<lambda>x. same_record flowId fw (snd x)) (wt_watches wt) = Some (wd, r)"
      and "wt' = wt\<lparr>wt_watches := erase_first (\<lambda>x. same_record flowId fw (snd x)) (wt_watches wt)\<rparr>"
  | wd r ino w1 where "find (\<lambda>x. same_record flowId fw (snd x)) (wt_watches wt) = Some (wd, r)"
      and "wd \<notin> wds (erase_first (\<lambda>x. same_record flowId fw (snd x)) (wt_watches wt))"
      and "sys_inotify_rm_watch wd (wt_inotify wt) w1 = (Inr ino, w')"
      and "wt' = wt\<lparr>wt_watches := erase_first (\<lambda>x. same_record flowId fw (snd x)) (wt_watches wt), wt_inotify := ino\<rparr>"
proof (cases "find (\<lambda>x. same_record flowId fw (snd x)) (wt_watches wt)")
  case None
  with assms have "wt' = wt" by (auto simp: removeFlow_def iret_simps)
  with None that(1) show ?thesis by blast
next
  case (Some x)
  obtain wd r where x: "x = (wd, r)" by fastforce
  note f = Some [unfolded x]
  let ?es = "erase_first (\<lambda>x. same_record flowId fw (snd x)) (wt_watches wt)"
  show ?thesis
  proof (cases "wd \<in> wds ?es")
    case True
    with assms f have "wt' = wt\<lparr>wt_watches := ?es\<rparr>"
      by (auto simp: removeFlow_def iret_simps wds_def Let_def elim!: ibind_RetE)
    with f that(2) show ?thesis by blast
  next
    case False
    with assms f obtain w1 rm w2 where rm: "isys (sys_inotify_rm_watch wd (wt_inotify wt)) w1 = (Ret rm, w2)"
      and k: "(case rm of Inr ino \<Rightarrow> iret (Ret (), wt\<lparr>wt_watches := ?es, wt_inotify := ino\<rparr>)
              | Inl e \<Rightarrow>
                  if e = EINVAL
                  then ibind (iattempt (fs_exists (makeFlowAccessFilePath (makeFlowDirectoryName domain (sv_uuid_to_string sv flowId)))))
                         (\<lambda>ex. iret (obind ex (\<lambda>_. Ret ()), wt\<lparr>wt_watches := ?es\<rparr>))
                  else iret (Ret (), wt\<lparr>wt_watches := ?es\<rparr>)) w2 = (Ret (res, wt'), w')"
      by (auto simp: removeFlow_def wds_def Let_def elim!: ibind_RetE)
    show ?thesis
    proof (cases rm)
      case (Inl e)
      with k have "wt' = wt\<lparr>wt_watches := ?es\<rparr>"
        by (auto simp: iret_simps split: if_splits elim!: ibind_RetE)
      with f that(2) show ?thesis by blast
    next
      case (Inr ino)
      from rm Inr have "sys_inotify_rm_watch wd (wt_inotify wt) w1 = (Inr ino, w2)"
        by (auto simp: isys_def split: prod.splits)
      with Inr k have "sys_inotify_rm_watch wd (wt_inotify wt) w1 = (Inr ino, w')"
        "wt' = wt\<lparr>wt_watches := ?es, wt_inotify := ino\<rparr>"
        by (auto simp: iret_simps)
      with f False that(3) show ?thesis by blast
    qed
  qed
qed

section \<open>Events reach the headers\<close>

definition reports_access :: "inotify_event \<Rightarrow> bool" where
  "reports_access ev \<longleftrightarrow> and (ev_mask ev) (or (or IN_ACCESS IN_MODIFY) IN_ATTRIB) \<noteq> 0"

text \<open>The file an event is about, by the record the watcher finds for it.\<close>

definition event_inode :: "DomainWatcher \<Rightarrow> inotify_event \<Rightarrow> nat option" where
  "event_inode wt ev =
     (if reports_access ev then Option.bind (map_of (wt_watches wt) (ev_wd ev)) (\<lambda>r. shm_data (wr_flowData r)) else None)"

definition mark_read :: "world \<Rightarrow> Timepoint \<Rightarrow> os_file \<Rightarrow> os_file" where
  "mark_read w now f =
     f\<lparr>f_content := FlowSegment (set_runtime (\<lambda>rt. rt\<lparr>lastReadTime := word_of_int (tp_value now)\<rparr>) (as_flow w (f_content f)))\<rparr>"

lemma as_flow_env: "w_env w' = w_env w \<Longrightarrow> as_flow w' c = as_flow w c"
  by (cases c) (simp_all add: as_flow_def)

lemma as_flow_FlowSegment: "as_flow w (FlowSegment f) = f"
  by (simp add: as_flow_def)

lemma mark_read_twice: "w_env w' = w_env w \<Longrightarrow> mark_read w now (mark_read w' now f) = mark_read w now f"
  using as_flow_env [of w' w] by (simp add: mark_read_def set_runtime_def as_flow_FlowSegment)

lemma mark_read_env: "w_env w' = w_env w \<Longrightarrow> mark_read w' now f = mark_read w now f"
  using as_flow_env [of w' w] by (simp add: mark_read_def)

definition mapped_records :: "DomainWatcher \<Rightarrow> bool" where
  "mapped_records wt \<longleftrightarrow> (\<forall>x\<in>set (wt_watches wt). shm_data (wr_flowData (snd x)) \<noteq> None)"

lemma process_event_effect:
  assumes "mapped_records wt"
  obtains w' where "process_event wt now ev w = (Ret (), w')"
    and "w_tree w' = w_tree w" and "w_fds w' = w_fds w" and "w_env w' = w_env w"
    and "\<And>i. w_file w' i = (if event_inode wt ev = Some i then mark_read w now (w_file w i) else w_file w i)"
proof (cases "event_inode wt ev")
  case None
  then have "\<not> reports_access ev \<or> map_of (wt_watches wt) (ev_wd ev) = None"
    using assms map_of_SomeD [of "wt_watches wt" "ev_wd ev"]
    by (cases "map_of (wt_watches wt) (ev_wd ev)") (fastforce simp: event_inode_def mapped_records_def split: if_splits)+
  then have "process_event wt now ev w = (Ret (), w)"
    by (auto simp: process_event_def reports_access_def iret_simps)
  with None that [of w] show ?thesis by simp
next
  case (Some i)
  then obtain r where r: "reports_access ev" "map_of (wt_watches wt) (ev_wd ev) = Some r" "shm_data (wr_flowData r) = Some i"
    by (auto simp: event_inode_def split: if_splits bind_splits)
  then have p: "process_event wt now ev w = (Ret (), put_file i (mark_read w now (w_file w i)) w)"
    by (simp add: process_event_def reports_access_def put_flow_def set_content_def mark_read_def)
  show ?thesis by (rule that [OF p]) (simp_all add: Some)
qed

lemma process_events_effect:
  assumes "mapped_records wt"
  shows "\<exists>w'. process_events_from wt now evs w = (Ret (), w') \<and> w_tree w' = w_tree w \<and> w_fds w' = w_fds w \<and> w_env w' = w_env w
     \<and> (\<forall>i. w_file w' i = (if Some i \<in> event_inode wt ` set evs then mark_read w now (w_file w i) else w_file w i))"
proof (induction evs arbitrary: w)
  case Nil
  then show ?case by (simp add: iret_simps)
next
  case (Cons ev evs)
  obtain w1 where e: "process_event wt now ev w = (Ret (), w1)" "w_tree w1 = w_tree w" "w_fds w1 = w_fds w" "w_env w1 = w_env w"
    and f1: "\<And>i. w_file w1 i = (if event_inode wt ev = Some i then mark_read w now (w_file w i) else w_file w i)"
    using process_event_effect [OF assms] by blast
  obtain w2 where l: "process_events_from wt now evs w1 = (Ret (), w2)" "w_tree w2 = w_tree w1" "w_fds w2 = w_fds w1" "w_env w2 = w_env w1"
    and f2: "\<And>i. w_file w2 i = (if Some i \<in> event_inode wt ` set evs then mark_read w1 now (w_file w1 i) else w_file w1 i)"
    using Cons.IH [of w1] by blast
  have "w_file w2 i = (if Some i \<in> event_inode wt ` set (ev # evs) then mark_read w now (w_file w i) else w_file w i)" for i
    using f1 [of i] f2 [of i] mark_read_twice [OF e(4) [symmetric]] mark_read_env [OF e(4)] by auto
  then show ?case using e l by (intro exI [of _ w2]) (simp add: ibind_def)
qed

section \<open>Properties\<close>

definition access_file :: "services \<Rightarrow> path \<Rightarrow> uuid \<Rightarrow> path" where
  "access_file sv domain flowId = makeFlowAccessFilePath (makeFlowDirectoryName domain (sv_uuid_to_string sv flowId))"

text \<open>
  A watcher in the life of its host: registrations and removals, whatever their calls return, and
  between them whatever else happens to the file system, the deletion of flows included. Two ghosts
  go along: what every descriptor the kernel handed out stands for, and what was found at which path
  when a writer was registered. Deleted objects do not come back: inode numbers are not used again.
\<close>

definition found_in :: "world \<Rightarrow> (path \<times> watched) set" where
  "found_in w = {(p, watched_object p e) | p e. lookup w p = Some e}"

inductive watcher_run ::
  "services \<Rightarrow> path \<Rightarrow> world \<Rightarrow> DomainWatcher \<Rightarrow> (int \<rightharpoonup> watched) \<Rightarrow> (path \<times> watched) set \<Rightarrow> bool" for sv domain where
  started: "DomainWatcher_new domain w = (Ret wt, w') \<Longrightarrow> watcher_run sv domain w' wt Map.empty {}"
| elsewhere:
    "watcher_run sv domain w wt issued seen \<Longrightarrow> (\<And>x. x \<in> ran issued \<Longrightarrow> deleted x w \<Longrightarrow> deleted x w') \<Longrightarrow>
     watcher_run sv domain w' wt issued seen"
| added:
    "watcher_run sv domain w wt issued seen \<Longrightarrow> addFlow sv domain wt fw flowId w = (Ret (res, wt'), w') \<Longrightarrow>
     watcher_run sv domain w' wt' (issued ++ map_of (ino_watches (wt_inotify wt'))) (seen \<union> found_in w)"
| removed:
    "watcher_run sv domain w wt issued seen \<Longrightarrow> removeFlow sv domain wt fw flowId w = (Ret (res, wt'), w') \<Longrightarrow>
     watcher_run sv domain w' wt' issued seen"

definition table_logged :: "inotify \<Rightarrow> (int \<rightharpoonup> watched) \<Rightarrow> bool" where
  "table_logged ino issued \<longleftrightarrow>
     inotify_ok ino \<and> (\<forall>wd\<in>dom issued. wd < ino_next ino) \<and> (\<forall>y\<in>set (ino_watches ino). issued (fst y) = Some (snd y))"

definition record_watched :: "services \<Rightarrow> path \<Rightarrow> world \<Rightarrow> inotify \<Rightarrow> (int \<rightharpoonup> watched) \<Rightarrow> (path \<times> watched) set \<Rightarrow> int \<times> DomainWatcherRecord \<Rightarrow> bool" where
  "record_watched sv domain w ino issued seen y \<longleftrightarrow>
     wr_fileName (snd y) = access_file sv domain (wr_id (snd y))
     \<and> (\<exists>x. issued (fst y) = Some x \<and> (wr_fileName (snd y), x) \<in> seen
          \<and> (watched_alive w x \<longrightarrow> (fst y, x) \<in> set (ino_watches ino)))"

definition watcher_ok :: "services \<Rightarrow> path \<Rightarrow> world \<Rightarrow> DomainWatcher \<Rightarrow> (int \<rightharpoonup> watched) \<Rightarrow> (path \<times> watched) set \<Rightarrow> bool" where
  "watcher_ok sv domain w wt issued seen \<longleftrightarrow>
     table_logged (wt_inotify wt) issued \<and> (\<forall>y\<in>set (wt_watches wt). record_watched sv domain w (wt_inotify wt) issued seen y)"

text \<open>A new table that keeps the live watches keeps every record on its watch.\<close>

lemma record_watched_mono:
  assumes "record_watched sv domain w ino issued seen y" and "issued \<subseteq>\<^sub>m issued'" and "seen \<subseteq> seen'"
    and "\<And>x. watched_alive w' x \<Longrightarrow> watched_alive w x"
    and "\<And>x. (fst y, x) \<in> set (ino_watches ino) \<Longrightarrow> watched_alive w' x \<Longrightarrow> (fst y, x) \<in> set (ino_watches ino')"
  shows "record_watched sv domain w' ino' issued' seen' y"
proof -
  obtain x where x: "wr_fileName (snd y) = access_file sv domain (wr_id (snd y))" "issued (fst y) = Some x"
    "(wr_fileName (snd y), x) \<in> seen" "watched_alive w x \<longrightarrow> (fst y, x) \<in> set (ino_watches ino)"
    using assms(1) by (auto simp: record_watched_def)
  have "issued' (fst y) = Some x" using assms(2) x(2) unfolding map_le_def by (metis domI)
  with x assms(3-5) show ?thesis unfolding record_watched_def by blast
qed

lemma add_watched_logged:
  assumes "add_watched x (kernel_watches w ino) = (wd, ino')" and "table_logged ino issued"
  shows "table_logged ino' (issued ++ map_of (ino_watches ino'))" and "issued \<subseteq>\<^sub>m issued ++ map_of (ino_watches ino')"
    and "(issued ++ map_of (ino_watches ino')) wd = Some x"
proof -
  note ok = add_watched_ok [OF assms(1) kernel_watches_ok]
  have t: "inotify_ok ino" "\<And>wd. wd \<in> dom issued \<Longrightarrow> wd < ino_next ino" "\<And>y. y \<in> set (ino_watches ino) \<Longrightarrow> issued (fst y) = Some (snd y)"
    using assms(2) by (auto simp: table_logged_def)
  have i: "inotify_ok ino'" using ok(1) t(1) .
  then have d: "distinct (map fst (ino_watches ino'))" by (simp add: inotify_ok_def)
  have m: "(issued ++ map_of (ino_watches ino')) (fst y) = Some (snd y)" if "y \<in> set (ino_watches ino')" for y
    using map_of_is_SomeI [OF d, of "fst y" "snd y"] that by (simp add: map_add_def)
  have old: "y \<in> set (ino_watches ino) \<or> fst y = ino_next ino" if "y \<in> set (ino_watches ino')" for y
    using ok(4) [OF t(1)] that by auto
  show l: "issued \<subseteq>\<^sub>m issued ++ map_of (ino_watches ino')"
    unfolding map_le_def
  proof
    fix k assume k: "k \<in> dom issued"
    show "issued k = (issued ++ map_of (ino_watches ino')) k"
    proof (cases "map_of (ino_watches ino') k")
      case (Some z)
      then have z: "(k, z) \<in> set (ino_watches ino')" by (rule map_of_SomeD)
      from old [OF z] t(2) [OF k] have "(k, z) \<in> set (ino_watches ino)" by auto
      from t(3) [OF this] Some show ?thesis by (simp add: map_add_def)
    qed (simp add: map_add_def)
  qed
  have n: "ino_next ino \<le> ino_next ino'" using ok(5) [OF t(1)] by simp
  have "k < ino_next ino'" if k: "k \<in> dom (issued ++ map_of (ino_watches ino'))" for k
  proof (cases "k \<in> dom issued")
    case True
    with t(2) n show ?thesis by fastforce
  next
    case False
    with k have "k \<in> fst ` set (ino_watches ino')" by (simp add: dom_map_of_conv_image_fst)
    with i show ?thesis by (auto simp: inotify_ok_def)
  qed
  with i m show "table_logged ino' (issued ++ map_of (ino_watches ino'))" by (simp add: table_logged_def)
  show "(issued ++ map_of (ino_watches ino')) wd = Some x" using m [OF ok(2) [OF t(1)]] by simp
qed

lemma same_table_logged:
  assumes "table_logged ino issued" shows "issued ++ map_of (ino_watches ino) = issued"
proof
  fix k
  show "(issued ++ map_of (ino_watches ino)) k = issued k"
    using assms map_of_SomeD [of "ino_watches ino" k]
    by (cases "map_of (ino_watches ino) k") (fastforce simp: table_logged_def map_add_def)+
qed

text \<open>Whatever the registration found or made, the table and the records stay in step.\<close>

lemma ensure_watch_ok:
  assumes "ensure_watch wt flowId fw (access_file sv domain flowId) w = (Ret (Inr (wd, ino)), w1)" and "watcher_ok sv domain w wt issued seen"
    and alive: "\<And>x. watched_alive w' x \<Longrightarrow> watched_alive w x"
  shows "table_logged ino (issued ++ map_of (ino_watches ino))"
    and "y \<in> set (wt_watches wt) \<Longrightarrow> record_watched sv domain w' ino (issued ++ map_of (ino_watches ino)) (seen \<union> found_in w) y"
    and "wr_id r = flowId \<Longrightarrow> wr_fileName r = access_file sv domain flowId \<Longrightarrow>
         record_watched sv domain w' ino (issued ++ map_of (ino_watches ino)) (seen \<union> found_in w) (wd, r)"
proof -
  let ?issued = "issued ++ map_of (ino_watches ino)"
  have ok: "table_logged (wt_inotify wt) issued" "inotify_ok (wt_inotify wt)"
    and rec: "\<And>y. y \<in> set (wt_watches wt) \<Longrightarrow> record_watched sv domain w (wt_inotify wt) issued seen y"
    using assms(2) by (auto simp: watcher_ok_def table_logged_def)
  have "table_logged ino ?issued \<and> (y \<in> set (wt_watches wt) \<longrightarrow> record_watched sv domain w' ino ?issued (seen \<union> found_in w) y)
    \<and> (wr_id r = flowId \<longrightarrow> wr_fileName r = access_file sv domain flowId \<longrightarrow> record_watched sv domain w' ino ?issued (seen \<union> found_in w) (wd, r))"
    using assms(1)
  proof (cases rule: ensure_watch_cases)
    case 1
    have l: "?issued = issued" using same_table_logged [OF ok(1)] 1(2) by simp
    have keep: "record_watched sv domain w' ino ?issued (seen \<union> found_in w) y" if "y \<in> set (wt_watches wt)" for y
      unfolding l by (rule record_watched_mono [OF rec [OF that]]) (use alive 1(2) in auto)
    from 1(1) obtain z where z: "find (\<lambda>x. same_record flowId fw (snd x)) (wt_watches wt) = Some z" "fst z = wd"
      by (auto simp: existing_watch_def)
    then have "z \<in> set (wt_watches wt)" "wr_id (snd z) = flowId"
      using find_SomeD [OF z(1)] by (auto simp: same_record_def)
    then have "record_watched sv domain w' ino ?issued (seen \<union> found_in w) z" using keep by blast
    with \<open>wr_id (snd z) = flowId\<close> have "record_watched sv domain w' ino ?issued (seen \<union> found_in w) (wd, r)"
      if "wr_id r = flowId" "wr_fileName r = access_file sv domain flowId"
      using that z(2) unfolding record_watched_def by (elim conjE exE) auto
    with keep ok(1) 1(2) l show ?thesis by simp
  next
    case (2 e)
    let ?x = "watched_object (access_file sv domain flowId) e"
    note lg = add_watched_logged [OF 2(2) ok(1)]
    note kept = add_watched_ok [OF 2(2) kernel_watches_ok [OF ok(2)]]
    have "(k, x) \<in> set (ino_watches ino)" if "(k, x) \<in> set (ino_watches (wt_inotify wt))" "watched_alive w' x" for k x
      using kept(3) that alive [of x] by auto
    then have keep: "record_watched sv domain w' ino ?issued (seen \<union> found_in w) y" if "y \<in> set (wt_watches wt)" for y
      by (intro record_watched_mono [OF rec [OF that] lg(2)]) (use alive in auto)
    have "(access_file sv domain flowId, ?x) \<in> found_in w"
      using 2(1) by (auto simp: found_in_def)
    with lg(3) kept(2) have "record_watched sv domain w' ino ?issued (seen \<union> found_in w) (wd, r)"
      if "wr_id r = flowId" "wr_fileName r = access_file sv domain flowId"
      using that by (auto simp: record_watched_def)
    with keep lg(1) show ?thesis by simp
  qed
  then show "table_logged ino ?issued"
    and "y \<in> set (wt_watches wt) \<Longrightarrow> record_watched sv domain w' ino ?issued (seen \<union> found_in w) y"
    and "wr_id r = flowId \<Longrightarrow> wr_fileName r = access_file sv domain flowId \<Longrightarrow>
         record_watched sv domain w' ino ?issued (seen \<union> found_in w) (wd, r)"
    by blast+
qed

lemma addFlow_ok:
  assumes "addFlow sv domain wt fw flowId w = (Ret (res, wt'), w')" and "watcher_ok sv domain w wt issued seen"
  shows "watcher_ok sv domain w' wt' (issued ++ map_of (ino_watches (wt_inotify wt'))) (seen \<union> found_in w)"
proof -
  have alive: "watched_alive w x" if "watched_alive w' x" for x
    using preservesD [OF deleted_addFlow assms(1)] that by blast
  show ?thesis
    using assms(1)
  proof (cases rule: addFlow_cases)
    case 1
    have "issued ++ map_of (ino_watches (wt_inotify wt)) = issued"
      using same_table_logged assms(2) by (simp add: watcher_ok_def)
    moreover have "record_watched sv domain w' (wt_inotify wt) issued (seen \<union> found_in w) y"
      if "y \<in> set (wt_watches wt)" for y
      by (rule record_watched_mono [of _ _ w _ issued seen])
        (use that alive assms(2) in \<open>auto simp: watcher_ok_def\<close>)
    ultimately show ?thesis
      using assms(2) 1(1) by (simp add: watcher_ok_def)
  next
    case (2 wd ino w1)
    note e = ensure_watch_ok [OF 2(1) [folded access_file_def] assms(2), of w', OF alive]
    show ?thesis unfolding watcher_ok_def 2(2) using e(1,2) by simp
  next
    case (3 wd ino w1 r)
    note e = ensure_watch_ok [OF 3(1) [folded access_file_def] assms(2), of w', OF alive]
    show ?thesis unfolding watcher_ok_def 3(2) using e(1,2) e(3) [OF _ 3(4) 3(5) [folded access_file_def]] by simp
  qed
qed

lemma removeFlow_ok:
  assumes "removeFlow sv domain wt fw flowId w = (Ret (res, wt'), w')" and "watcher_ok sv domain w wt issued seen"
  shows "watcher_ok sv domain w' wt' issued seen"
proof -
  have alive: "watched_alive w x" if "watched_alive w' x" for x
    using preservesD [OF deleted_removeFlow assms(1)] that by blast
  have t: "table_logged (wt_inotify wt) issued"
    and rec: "\<And>y. y \<in> set (wt_watches wt) \<Longrightarrow> record_watched sv domain w (wt_inotify wt) issued seen y"
    using assms(2) by (auto simp: watcher_ok_def)
  let ?es = "erase_first (\<lambda>x. same_record flowId fw (snd x)) (wt_watches wt)"
  have es: "set ?es \<subseteq> set (wt_watches wt)" by (rule erase_first_subset)
  have same: "record_watched sv domain w' (wt_inotify wt) issued seen y" if "y \<in> set (wt_watches wt)" for y
    by (rule record_watched_mono [OF rec [OF that]]) (use alive in auto)
  show ?thesis
    using assms(1)
  proof (cases rule: removeFlow_cases)
    case 1
    with t same show ?thesis by (simp add: watcher_ok_def)
  next
    case (2 wd r)
    with t same es show ?thesis by (auto simp: watcher_ok_def)
  next
    case (3 wd r ino w1)
    note rm = rm_watch_effect [OF 3(3)]
    have "table_logged ino issued"
      using t rm(2,3) rm(4) by (auto simp: table_logged_def)
    moreover have "record_watched sv domain w' ino issued seen y" if y: "y \<in> set ?es" for y
    proof (rule record_watched_mono [OF rec])
      have "fst y \<noteq> wd" using y 3(2) by (auto simp: wds_def)
      then show "(fst y, x) \<in> set (ino_watches ino)" if "(fst y, x) \<in> set (ino_watches (wt_inotify wt))" "watched_alive w' x" for x
        using that rm(1,3) by simp
    qed (use alive y es in auto)
    ultimately show ?thesis unfolding watcher_ok_def 3(4) by simp
  qed
qed

lemma DomainWatcher_new_empty: "DomainWatcher_new d w = (Ret wt, w') \<Longrightarrow> wt_watches wt = [] \<and> wt_inotify wt = \<lparr>ino_watches = [], ino_next = 1\<rparr>"
  unfolding DomainWatcher_new_def by (auto simp: iret_simps split: if_splits elim!: ibind_RetE)

lemma watcher_run_ok: "watcher_run sv domain w wt issued seen \<Longrightarrow> watcher_ok sv domain w wt issued seen"
proof (induction rule: watcher_run.induct)
  case (started w wt w')
  then show ?case by (auto simp: watcher_ok_def table_logged_def inotify_ok_def dest!: DomainWatcher_new_empty)
next
  case (elsewhere w wt issued seen w')
  then show ?case by (fastforce simp: watcher_ok_def record_watched_def intro: ranI)
next
  case (added w wt issued seen fw flowId res wt' w')
  show ?case by (rule addFlow_ok [OF added.hyps(2) added.IH])
next
  case (removed w wt issued seen fw flowId res wt' w')
  show ?case by (rule removeFlow_ok [OF removed.hyps(2) removed.IH])
qed

text \<open>
  C17: Whatever happens at registration and removal, failures of system calls included, and whichever
  flows are deleted in between: the descriptor of a registered writer stands for the object that was
  found at the access file of its flow, and the kernel watches that object under the descriptor as
  long as the object exists. In particular removing one writer of a flow never silences the others.
\<close>

theorem registered_writers_are_watched:
  assumes "watcher_run sv domain w wt issued seen" and "(wd, r) \<in> set (wt_watches wt)"
  shows "\<exists>x. issued wd = Some x \<and> (access_file sv domain (wr_id r), x) \<in> seen
     \<and> (\<forall>y. (wd, y) \<in> set (ino_watches (kernel_watches w (wt_inotify wt))) \<longleftrightarrow> y = x \<and> watched_alive w x)"
proof -
  have ok: "watcher_ok sv domain w wt issued seen" using watcher_run_ok [OF assms(1)] .
  then obtain x where x: "issued wd = Some x" "(access_file sv domain (wr_id r), x) \<in> seen"
    "watched_alive w x \<longrightarrow> (wd, x) \<in> set (ino_watches (wt_inotify wt))"
    using assms(2) by (force simp: watcher_ok_def record_watched_def)
  moreover have "y = x" if "(wd, y) \<in> set (ino_watches (wt_inotify wt))" for y
    using ok that x(1) by (fastforce simp: watcher_ok_def table_logged_def)
  ultimately show ?thesis by auto
qed

text \<open>
  When the last writer of a flow is removed after the flow was deleted, the kernel has dropped the
  watch already: the failure of the call is expected, and nothing is looked at but the file.
\<close>

lemma removal_after_deletion:
  assumes "watcher_run sv domain w wt issued seen" and "issued wd = Some x" and "deleted x w"
    and "sys_inotify_rm_watch wd (wt_inotify wt) w = (r, w')" and "en_fail (w_env w) (w_tick w) = None"
  shows "r = Inl EINVAL"
proof -
  have "table_logged (wt_inotify wt) issued" using watcher_run_ok [OF assms(1)] by (simp add: watcher_ok_def)
  then have "wd \<notin> fst ` set (ino_watches (kernel_watches w (wt_inotify wt)))"
    using assms(2,3) by (fastforce simp: table_logged_def)
  with assms(4,5) show ?thesis by (auto simp: sys_inotify_rm_watch_def syscall_def Let_def)
qed

text \<open>
  Creating a watcher, whichever call fails, ends in a watcher with three descriptors of its own or in
  an exception after which every descriptor it opened is closed.
\<close>

theorem watcher_creation_cleans_up:
  assumes "wf_world w" and "DomainWatcher_new domain w = (r, w')"
  shows "(\<exists>wt. r = Ret wt \<and> distinct [wt_inotifyFd wt, wt_epollFd wt, wt_eventFd wt]
            \<and> new_fds w w' = {wt_inotifyFd wt, wt_epollFd wt, wt_eventFd wt} \<and> old_fds w w' = w_fds w)
    \<or> (\<exists>e. r = Throw e \<and> w_fds w' = w_fds w)"
proof (cases r)
  case (Ret wt)
  from triple_Ret [OF watcher_new_triple since_start [OF assms(1)]] assms(2) Ret
  have "opened w [wt_eventFd wt, wt_epollFd wt, wt_inotifyFd wt]" "since w {wt_eventFd wt, wt_epollFd wt, wt_inotifyFd wt} w'"
    by auto
  then show ?thesis using Ret by (auto simp: opened_perm since_def)
next
  case (Throw e)
  from triple_Throw [OF watcher_new_triple since_start [OF assms(1)]] assms(2) Throw
  have "since w {} w'" by blast
  then show ?thesis using Throw since_fds by blast
next
  case (Crash c)
  with triple_Crash [OF watcher_new_triple since_start [OF assms(1)]] assms(2) show ?thesis by blast
qed

text \<open>
  An event buffer with reads of flows sets the last read time in the headers of exactly those flows,
  to the time of the buffer, and changes nothing else in the file system.
\<close>

theorem access_events_update_headers:
  assumes "mapped_records wt" and "processEventBuffer wt evs w = (res, w')"
  shows "res = Ret () \<and> w_tree w' = w_tree w \<and> w_fds w' = w_fds w
    \<and> (\<forall>i. w_file w' i =
         (if \<exists>ev\<in>set evs. event_inode wt ev = Some i
          then mark_read w (en_clock (w_env w) (w_tick w)) (w_file w i) else w_file w i))"
proof -
  let ?now = "en_clock (w_env w) (w_tick w)"
  obtain w1 where "process_events_from wt ?now evs (tick w) = (Ret (), w1)" "w_tree w1 = w_tree w" "w_fds w1 = w_fds w"
    and f: "\<And>i. w_file w1 i = (if Some i \<in> event_inode wt ` set evs then mark_read (tick w) ?now (w_file w i) else w_file w i)"
    using process_events_effect [OF assms(1), of ?now evs "tick w"] by auto
  with assms(2) have "res = Ret ()" "w' = w1"
    by (auto simp: processEventBuffer_def ibind_def sys_clock_def)
  moreover have "(\<exists>ev\<in>set evs. event_inode wt ev = Some i) \<longleftrightarrow> Some i \<in> event_inode wt ` set evs" for i
    by force
  ultimately show ?thesis
    using \<open>w_tree w1 = w_tree w\<close> \<open>w_fds w1 = w_fds w\<close> f mark_read_env [of "tick w" w] by simp
qed

text \<open>
  When the flow's data cannot be mapped after the watch was added, the exception leaves the watch in
  the kernel with no record for it: nothing will ever remove it before the watcher goes.
\<close>

theorem failed_registration_leaks_watch:
  assumes "inotify_ok (wt_inotify wt)" and "existing_watch wt flowId fw = None"
    and "sys_inotify_add_watch (makeFlowAccessFilePath (makeFlowDirectoryName domain (sv_uuid_to_string sv flowId))) (wt_inotify wt) w
           = (Inr (wd, ino), w1)"
    and "wd \<notin> fst ` set (wt_watches wt)"
    and "FlowInstance_new (makeFlowDataFilePath (makeFlowDirectoryName domain (sv_uuid_to_string sv flowId))) READ_WRITE 0 LockNone w1
           = (Throw e, w2)"
  shows "\<exists>wt'. addFlow sv domain wt fw flowId w = (Ret (Throw e, wt'), w2) \<and> wt_watches wt' = wt_watches wt
    \<and> wd \<in> fst ` set (ino_watches (wt_inotify wt')) - fst ` set (wt_watches wt')"
proof -
  have "wd \<in> fst ` set (ino_watches ino)"
    using assms(3) add_watched_ok(2) [OF _ kernel_watches_ok [OF assms(1)]]
    by (force simp: sys_inotify_add_watch_def syscall_Inr split: option.splits)
  moreover have "addFlow sv domain wt fw flowId w = (Ret (Throw e, wt\<lparr>wt_inotify := ino\<rparr>), w2)"
    using assms(2,3,5) by (simp add: addFlow_def Let_def ensure_watch_def ibind_def isys_def iattempt_def iret_simps)
  ultimately show ?thesis
    using assms(4) by simp
qed

section \<open>A watcher at work\<close>

text \<open>A domain with one flow whose directory holds the access file and the data file.\<close>

definition ex_watched_world :: world where
  "ex_watched_world = \<lparr>w_env = ex_os, w_tick = 25,
     w_tree = [([''domain'', ''u.mxl-flow'', ''data''], FileEntry 3), ([''domain'', ''u.mxl-flow'', ''access''], FileEntry 2),
               ([''domain'', ''u.mxl-flow''], DirEntry), ([''domain''], DirEntry), ([], DirEntry)],
     w_files = [(3, \<lparr>f_size = SIZEOF_FLOW, f_content = FlowSegment zero_flow\<rparr>)], w_inode = 6, w_fds = [], w_fd = 3\<rparr>"

definition ex_watcher :: DomainWatcher where
  "ex_watcher = (case DomainWatcher_new [''domain''] ex_watched_world of (Ret wt, _) \<Rightarrow> wt)"

definition ex_registered :: "(unit outcome \<times> DomainWatcher) outcome \<times> world" where
  "ex_registered = addFlow ex_store [''domain''] ex_watcher 1 (replicate 16 7) ex_watched_world"

definition ex_broken_world :: world where
  "ex_broken_world = ex_watched_world\<lparr>w_env := ex_os\<lparr>en_fail := (\<lambda>t. if t = 26 then Some 13 else None)\<rparr>\<rparr>"

lemma ex_watcher_new: "fst (DomainWatcher_new [''domain''] ex_watched_world) = Ret ex_watcher"
  by code_simp

definition ex_watcher_world :: world where
  "ex_watcher_world = snd (DomainWatcher_new [''domain''] ex_watched_world)"

lemma ex_watcher_reachable: "watcher_run ex_store [''domain''] ex_watcher_world ex_watcher Map.empty {}"
  using ex_watcher_new watcher_run.started [of "[''domain'']" ex_watched_world ex_watcher ex_watcher_world]
  by (metis ex_watcher_world_def prod.collapse)

definition registered_as :: "int \<Rightarrow> nat \<Rightarrow> (unit outcome \<times> DomainWatcher) outcome \<times> world \<Rightarrow> bool" where
  "registered_as wd i x =
     (case fst x of
        Ret (r, wt) \<Rightarrow> r = Ret () \<and> map fst (wt_watches wt) = [wd] \<and> map (shm_data \<circ> wr_flowData \<circ> snd) (wt_watches wt) = [Some i]
      | _ \<Rightarrow> False)"

lemma ex_registered_eval: "registered_as 1 3 ex_registered"
  by code_simp

lemma registered_asE:
  assumes "registered_as wd i x"
  obtains wt r w where "x = (Ret (Ret (), wt), w)" and "wt_watches wt = [(wd, r)]" and "shm_data (wr_flowData r) = Some i"
  using assms by (cases x) (auto simp: registered_as_def split: outcome.splits)

text \<open>Two writers of one flow; the flow is deleted, then one writer is removed and the other one.\<close>

definition remove_tree :: "path \<Rightarrow> world \<Rightarrow> world" where
  "remove_tree p w = snd (sys_remove_all p w)"

definition after_op :: "(unit outcome \<times> DomainWatcher) outcome \<times> world \<Rightarrow> DomainWatcher \<times> world" where
  "after_op x = (case x of (Ret (r, wt), w) \<Rightarrow> (wt, w) | (_, w) \<Rightarrow> (ex_watcher, w))"

definition ex_two :: "DomainWatcher \<times> world" where
  "ex_two = (case after_op (addFlow ex_store [''domain''] ex_watcher 1 (replicate 16 7) ex_watcher_world) of (wt, w) \<Rightarrow>
     after_op (addFlow ex_store [''domain''] wt 2 (replicate 16 7) w))"

definition removal_ok :: "nat \<Rightarrow> (unit outcome \<times> DomainWatcher) outcome \<times> world \<Rightarrow> bool" where
  "removal_ok n x = (case fst x of Ret (r, wt) \<Rightarrow> r = Ret () \<and> length (wt_watches wt) = n | _ \<Rightarrow> False)"

lemma deleted_flow_is_unregistered:
  "removal_ok 1 (removeFlow ex_store [''domain''] (fst ex_two) 1 (replicate 16 7) (remove_tree [''domain'', ''u.mxl-flow''] (snd ex_two)))"
  "(case removeFlow ex_store [''domain''] (fst ex_two) 1 (replicate 16 7) (remove_tree [''domain'', ''u.mxl-flow''] (snd ex_two)) of
      (Ret (r, wt), w) \<Rightarrow> removal_ok 0 (removeFlow ex_store [''domain''] wt 2 (replicate 16 7) w) | _ \<Rightarrow> False)"
  by code_simp+

theorem registered_writers_are_watched_witness:
  "\<exists>wt r w issued seen. ex_registered = (Ret (Ret (), wt), w) \<and> watcher_run ex_store [''domain''] w wt issued seen
     \<and> (1, r) \<in> set (wt_watches wt) \<and> (\<exists>x. issued 1 = Some x \<and> (access_file ex_store [''domain''] (wr_id r), x) \<in> seen)"
proof -
  obtain wt r w where e: "ex_registered = (Ret (Ret (), wt), w)" "wt_watches wt = [(1, r)]"
    using ex_registered_eval by (rule registered_asE)
  have "watcher_run ex_store [''domain''] ex_watched_world ex_watcher Map.empty {}"
    by (rule watcher_run.elsewhere [OF ex_watcher_reachable]) simp
  from watcher_run.added [OF this e(1) [unfolded ex_registered_def]]
  obtain issued seen where run: "watcher_run ex_store [''domain''] w wt issued seen" by blast
  moreover have m: "(1, r) \<in> set (wt_watches wt)" using e(2) by simp
  ultimately show ?thesis using registered_writers_are_watched [OF run m] e(1) by blast
qed

theorem watcher_creation_cleans_up_witness:
  "\<exists>wt. fst (DomainWatcher_new [''domain''] ex_world) = Ret wt
     \<and> new_fds ex_world (snd (DomainWatcher_new [''domain''] ex_world)) = {wt_inotifyFd wt, wt_epollFd wt, wt_eventFd wt}"
proof -
  have "case fst (DomainWatcher_new [''domain''] ex_world) of Ret _ \<Rightarrow> True | _ \<Rightarrow> False" by code_simp
  then obtain wt w' where e: "DomainWatcher_new [''domain''] ex_world = (Ret wt, w')"
    by (cases "DomainWatcher_new [''domain''] ex_world"; cases "fst (DomainWatcher_new [''domain''] ex_world)") auto
  from watcher_creation_cleans_up [OF ex_world_wf e] e show ?thesis by simp
qed

theorem access_events_update_headers_witness:
  "\<exists>wt. fst ex_registered = Ret (Ret (), wt)
     \<and> (\<forall>w w' res. processEventBuffer wt [\<lparr>ev_wd = 1, ev_mask = IN_ATTRIB\<rparr>] w = (res, w') \<longrightarrow>
          w_file w' 3 = mark_read w (en_clock (w_env w) (w_tick w)) (w_file w 3) \<and> w_file w' 4 = w_file w 4)"
proof -
  obtain wt r w where e: "ex_registered = (Ret (Ret (), wt), w)" "wt_watches wt = [(1, r)]" "shm_data (wr_flowData r) = Some 3"
    using ex_registered_eval by (rule registered_asE)
  then have m: "mapped_records wt" by (simp add: mapped_records_def)
  have i: "event_inode wt \<lparr>ev_wd = 1, ev_mask = IN_ATTRIB\<rparr> = Some 3"
    using e by (simp add: event_inode_def reports_access_def IN_ACCESS_def IN_MODIFY_def IN_ATTRIB_def)
  have "w_file w' 3 = mark_read w (en_clock (w_env w) (w_tick w)) (w_file w 3) \<and> w_file w' 4 = w_file w 4"
    if "processEventBuffer wt [\<lparr>ev_wd = 1, ev_mask = IN_ATTRIB\<rparr>] w = (res, w')" for w w' res
    using access_events_update_headers [OF m that] i by simp
  moreover have "fst ex_registered = Ret (Ret (), wt)" unfolding e(1) by simp
  ultimately show ?thesis by blast
qed

theorem failed_registration_leaks_watch_witness:
  "\<exists>wt' w2. addFlow ex_store [''domain''] ex_watcher 1 (replicate 16 7) ex_broken_world = (Ret (Throw (SystemError 13), wt'), w2)
     \<and> 1 \<in> fst ` set (ino_watches (wt_inotify wt')) - fst ` set (wt_watches wt')"
proof -
  let ?dir = "makeFlowDirectoryName [''domain''] (sv_uuid_to_string ex_store (replicate 16 7))"
  let ?add = "sys_inotify_add_watch (makeFlowAccessFilePath ?dir) (wt_inotify ex_watcher) ex_broken_world"
  let ?open = "FlowInstance_new (makeFlowDataFilePath ?dir) READ_WRITE 0 LockNone"
  let ?ino = "\<lparr>ino_watches = [(1, Inl 2)], ino_next = 2\<rparr>"
  have "fst ?add = Inr (1, ?ino)" by code_simp
  then have a: "?add = (Inr (1, ?ino), snd ?add)" by (metis prod.collapse)
  have "fst (?open (snd ?add)) = Throw (SystemError 13)" by code_simp
  then have o: "?open (snd ?add) = (Throw (SystemError 13), snd (?open (snd ?add)))" by (metis prod.collapse)
  have n: "existing_watch ex_watcher (replicate 16 7) 1 = None" "wt_watches ex_watcher = []" by code_simp+
  then have "1 \<notin> fst ` set (wt_watches ex_watcher)" by simp
  moreover have "inotify_ok (wt_inotify ex_watcher)" by code_simp
  ultimately show ?thesis using failed_registration_leaks_watch [OF _ n(1) a _ o] by blast
qed

end
