(* ===== verification/FlowIo.thy ===== *)
theory FlowIo
  imports DomainWatcher
begin

text \<open>
  The reader and writer objects an instance hands out, and the factory that makes them
  (\<open>FlowIoFactory.cpp\<close>, \<open>PosixFlowIoFactory.cpp\<close>, the constructors and destructors of the four
  Posix classes, \<open>FlowReader.cpp\<close>, \<open>FlowWriter.cpp\<close>). An object is named by the number that stands
  for its address. A constructor owns the flow data it was given: when it throws, the data is
  destroyed with it.
\<close>

record reader_object =
  ro_address :: nat
  ro_id :: uuid
  ro_data :: FlowData
  ro_accessFileFd :: "nat option"
  ro_continuous :: "continuous_reader option"

record writer_object =
  wo_address :: nat
  wo_id :: uuid
  wo_data :: FlowData
  wo_discrete :: "discrete_writer option"
  wo_continuous :: "continuous_writer option"

section \<open>Permissions\<close>

definition fs_is_regular_file :: "path \<Rightarrow> bool io" where
  "fs_is_regular_file p w =
     (case syscall (\<lambda>w. (Inr (case lookup w p of Some (FileEntry _) \<Rightarrow> True | _ \<Rightarrow> False), w)) w of
        (Inr b, w1) \<Rightarrow> (Ret b, w1)
      | (Inl e, w1) \<Rightarrow> if e = ENOENT \<or> e = ENOTDIR then (Ret False, w1) else (Throw (FilesystemError e), w1))"

definition sys_access :: "path \<Rightarrow> unit syscall" where
  "sys_access p = syscall (\<lambda>w. if lookup w p = None then (Inl ENOENT, w) else (Inr (), w))"

definition accessible :: "path \<Rightarrow> bool io" where
  "accessible p = ibind (isys (sys_access p)) (\<lambda>r. iret (case r of Inr _ \<Rightarrow> True | Inl _ \<Rightarrow> False))"

definition reader_checkPermissions :: "services \<Rightarrow> path \<Rightarrow> uuid \<Rightarrow> bool io" where
  "reader_checkPermissions sv domain flowId =
     (let flowDefPath = makeFlowDescriptorFilePath (makeFlowDirectoryName domain (sv_uuid_to_string sv flowId)) in
      ibind (fs_is_regular_file flowDefPath) (\<lambda>b. if b then accessible flowDefPath else iret False))"

definition writer_checkPermissions :: "path \<Rightarrow> bool io" where
  "writer_checkPermissions domain = ibind (fs_is_directory domain) (\<lambda>b. if b then accessible domain else iret False)"

section \<open>Readers\<close>

text \<open>Opening the access file may fail, which only means that reads are not reported.\<close>

definition createDiscreteFlowReader :: "services \<Rightarrow> path \<Rightarrow> nat \<Rightarrow> uuid \<Rightarrow> FlowData \<Rightarrow> reader_object io" where
  "createDiscreteFlowReader sv domain addr flowId data =
     ibind (isys (sys_open (makeFlowAccessFilePath (makeFlowDirectoryName domain (sv_uuid_to_string sv flowId))))) (\<lambda>r.
       iret \<lparr>ro_address = addr, ro_id = flowId, ro_data = data,
             ro_accessFileFd = (case r of Inr fd \<Rightarrow> Some fd | Inl _ \<Rightarrow> None), ro_continuous = None\<rparr>)"

definition createContinuousFlowReader :: "services \<Rightarrow> path \<Rightarrow> nat \<Rightarrow> uuid \<Rightarrow> FlowData \<Rightarrow> reader_object io" where
  "createContinuousFlowReader sv domain addr flowId data =
     iunwind
       (ibind (get_flow (flow_segment data)) (\<lambda>fl.
        ibind (reader_checkPermissions sv domain flowId) (\<lambda>ok.
          case continuous_view data of
            None \<Rightarrow> icrash NullDereference
          | Some view \<Rightarrow>
              ibind (ilift (new_continuous_reader view fl ok)) (\<lambda>cr.
                iret \<lparr>ro_address = addr, ro_id = flowId, ro_data = data, ro_accessFileFd = None, ro_continuous = Some cr\<rparr>))))
       (FlowData_destroy data)"

definition createFlowReader :: "services \<Rightarrow> path \<Rightarrow> nat \<Rightarrow> uuid \<Rightarrow> FlowData \<Rightarrow> reader_object io" where
  "createFlowReader sv domain addr flowId data =
     (case as_discrete data of
        Some d \<Rightarrow> createDiscreteFlowReader sv domain addr flowId d
      | None \<Rightarrow>
          (case as_continuous data of
             Some c \<Rightarrow> createContinuousFlowReader sv domain addr flowId c
           | None \<Rightarrow> iunwind (ithrow RuntimeError) (FlowData_destroy data)))"

text \<open>No destructor of the reader classes is declared: the flow data goes, the access descriptor is not closed.\<close>

definition FlowReader_destroy :: "reader_object \<Rightarrow> unit io" where
  "FlowReader_destroy r = FlowData_destroy (ro_data r)"

section \<open>Writers\<close>

definition createDiscreteFlowWriter ::
  "services \<Rightarrow> path \<Rightarrow> nat \<Rightarrow> uuid \<Rightarrow> FlowData \<Rightarrow> DomainWatcher \<Rightarrow> (writer_object outcome \<times> DomainWatcher) io" where
  "createDiscreteFlowWriter sv domain addr flowId data wt =
     ibind (addFlow sv domain wt addr flowId) (\<lambda>(res, wt').
       case res of
         Ret _ \<Rightarrow> iret (Ret \<lparr>wo_address = addr, wo_id = flowId, wo_data = data, wo_discrete = Some new_discrete_writer,
                             wo_continuous = None\<rparr>, wt')
       | Throw e \<Rightarrow> ibind (FlowData_destroy data) (\<lambda>_. iret (Throw e, wt'))
       | Crash c \<Rightarrow> icrash c)"

definition createContinuousFlowWriter :: "path \<Rightarrow> nat \<Rightarrow> uuid \<Rightarrow> FlowData \<Rightarrow> writer_object io" where
  "createContinuousFlowWriter domain addr flowId data =
     iunwind
       (ibind (get_flow (flow_segment data)) (\<lambda>fl.
        ibind (writer_checkPermissions domain) (\<lambda>ok.
          case continuous_view data of
            None \<Rightarrow> icrash NullDereference
          | Some view \<Rightarrow>
              ibind (ilift (new_continuous_writer view fl ok)) (\<lambda>cw.
                iret \<lparr>wo_address = addr, wo_id = flowId, wo_data = data, wo_discrete = None, wo_continuous = Some cw\<rparr>))))
       (FlowData_destroy data)"

definition createFlowWriter_io ::
  "services \<Rightarrow> path \<Rightarrow> nat \<Rightarrow> uuid \<Rightarrow> FlowData \<Rightarrow> DomainWatcher \<Rightarrow> (writer_object outcome \<times> DomainWatcher) io" where
  "createFlowWriter_io sv domain addr flowId data wt =
     (case as_discrete data of
        Some d \<Rightarrow> createDiscreteFlowWriter sv domain addr flowId d wt
      | None \<Rightarrow>
          (case as_continuous data of
             Some c \<Rightarrow> ibind (iattempt (createContinuousFlowWriter domain addr flowId c)) (\<lambda>r. iret (r, wt))
           | None \<Rightarrow> ibind (FlowData_destroy data) (\<lambda>_. iret (Throw RuntimeError, wt))))"

text \<open>The destructor of the discrete writer asks its own header for the id; exceptions stay inside.\<close>

definition FlowWriter_destroy :: "services \<Rightarrow> path \<Rightarrow> DomainWatcher \<Rightarrow> writer_object \<Rightarrow> DomainWatcher io" where
  "FlowWriter_destroy sv domain wt w =
     ibind (case wo_discrete w of
              Some _ \<Rightarrow>
                ibind (get_flow (flow_segment (wo_data w))) (\<lambda>fl.
                ibind (removeFlow sv domain wt (wo_address w) (cfg_id (common (config (flow_info fl))))) (\<lambda>(_, wt'). iret wt'))
            | None \<Rightarrow> iret wt) (\<lambda>wt'.
     ibind (FlowData_destroy (wo_data w)) (\<lambda>_. iret wt'))"

definition FlowWriter_isExclusive :: "writer_object \<Rightarrow> bool" where
  "FlowWriter_isExclusive w = FlowData_isExclusive (wo_data w)"

definition FlowWriter_makeExclusive :: "writer_object \<Rightarrow> (bool \<times> writer_object) io" where
  "FlowWriter_makeExclusive w =
     ibind (FlowData_makeExclusive (wo_data w)) (\<lambda>(b, d). iret (b, w\<lparr>wo_data := d\<rparr>))"

end
