(* ===== verification/SyncGroup.thy ===== *)
theory SyncGroup
  imports ContinuousFlow "HOL-Library.Multiset"
begin

text \<open>
  Synchronisation groups (\<open>FlowSynchronizationGroup.cpp\<close>): a singly linked list of weak
  references to readers, waited for together. A reader is named by a number, its address; the
  group environment says which readers are alive and what each of them sees over time. The
  iterator of \<open>waitForDataAt\<close> is the border between the entries already visited and those still
  to visit. The group relies on the readers through the contract \<open>waitable_reader\<close>, which both
  kinds of reader fulfil.
\<close>

section \<open>Readers of either kind\<close>

datatype flow_reader =
    DiscreteFlowReader discrete_reader "discrete_mem environment" "nat \<Rightarrow> nat option"
  | ContinuousFlowReader continuous_reader "continuous_mem environment" "nat \<Rightarrow> nat option"

fun reader_getFlowInfo :: "flow_reader \<Rightarrow> nat \<Rightarrow> mxlFlowInfo outcome" where
  "reader_getFlowInfo (DiscreteFlowReader r env stat) k = dr_getFlowInfo r (env_mem env k)"
| "reader_getFlowInfo (ContinuousFlowReader r env stat) k = cr_getFlowInfo r (env_mem env k)"

definition reader_getFlowConfigInfo :: "flow_reader \<Rightarrow> nat \<Rightarrow> mxlFlowConfigInfo outcome" where
  "reader_getFlowConfigInfo rd k = obind (reader_getFlowInfo rd k) (\<lambda>i. Ret (config i))"

definition reader_getFlowRuntimeInfo :: "flow_reader \<Rightarrow> nat \<Rightarrow> mxlFlowRuntimeInfo outcome" where
  "reader_getFlowRuntimeInfo rd k = obind (reader_getFlowInfo rd k) (\<lambda>i. Ret (runtime i))"

section \<open>The group\<close>

datatype Variant = Discrete | Continuous

record ListEntry =
  le_reader :: nat
  le_minValidSlices :: u16
  le_variant :: Variant
  le_grainRate :: mxlRational
  le_maxObservedSourceDelay :: int

record group_environment =
  ge_reader :: "nat \<Rightarrow> flow_reader option"
  ge_tai :: "nat \<Rightarrow> Timepoint"

definition ListEntry_new :: "group_environment \<Rightarrow> nat \<Rightarrow> nat \<Rightarrow> Variant \<Rightarrow> ListEntry outcome" where
  "ListEntry_new ge k rd v =
     (case ge_reader ge rd of
        None \<Rightarrow> Crash DanglingPointer
      | Some r \<Rightarrow> obind (reader_getFlowConfigInfo r k) (\<lambda>cfg.
          Ret \<lparr>le_reader = rd, le_minValidSlices = 0, le_variant = v,
               le_grainRate = grainRate (common cfg), le_maxObservedSourceDelay = 0\<rparr>))"

fun addDiscreteReader :: "group_environment \<Rightarrow> nat \<Rightarrow> nat \<Rightarrow> u16 \<Rightarrow> ListEntry list \<Rightarrow> ListEntry list outcome" where
  "addDiscreteReader ge k rd minv [] =
     obind (ListEntry_new ge k rd Discrete) (\<lambda>e. Ret [e\<lparr>le_minValidSlices := minv\<rparr>])"
| "addDiscreteReader ge k rd minv (e # es) =
     (if le_reader e = rd then Ret (e\<lparr>le_minValidSlices := minv\<rparr> # es)
      else obind (addDiscreteReader ge k rd minv es) (\<lambda>es'. Ret (e # es')))"

fun addContinuousReader :: "group_environment \<Rightarrow> nat \<Rightarrow> nat \<Rightarrow> ListEntry list \<Rightarrow> ListEntry list outcome" where
  "addContinuousReader ge k rd [] = obind (ListEntry_new ge k rd Continuous) (\<lambda>e. Ret [e])"
| "addContinuousReader ge k rd (e # es) =
     (if le_reader e = rd then Ret (e # es)
      else obind (addContinuousReader ge k rd es) (\<lambda>es'. Ret (e # es')))"

fun removeReader :: "nat \<Rightarrow> ListEntry list \<Rightarrow> ListEntry list" where
  "removeReader rd [] = []"
| "removeReader rd (e # es) = (if le_reader e = rd then es else e # removeReader rd es)"

section \<open>Waiting\<close>

text \<open>The static casts of the two branches: on an object of the other class they have no meaning.\<close>

fun wait_for_entry ::
  "Variant \<Rightarrow> flow_reader \<Rightarrow> u16 \<Rightarrow> u64 \<Rightarrow> nat \<Rightarrow> nat \<Rightarrow> Timepoint \<Rightarrow> (mxlStatus outcome \<times> nat) option" where
  "wait_for_entry Discrete (DiscreteFlowReader r env stat) minv i fuel k deadline =
     waitForGrain r i minv fuel env k deadline stat"
| "wait_for_entry Continuous (ContinuousFlowReader r env stat) minv i fuel k deadline =
     waitForSamples r i fuel env k deadline stat"
| "wait_for_entry Discrete (ContinuousFlowReader r env stat) minv i fuel k deadline = Some (Crash BadDowncast, k)"
| "wait_for_entry Continuous (DiscreteFlowReader r env stat) minv i fuel k deadline = Some (Crash BadDowncast, k)"

text \<open>
  What the loop body does before it looks at the result: \<open>None\<close> inside means that the head was
  far enough and nothing was waited for. Reading the head takes the tick \<open>k\<close>.
\<close>

definition visit_entry ::
  "group_environment \<Rightarrow> ListEntry \<Rightarrow> nat \<Rightarrow> nat \<Rightarrow> Timepoint \<Rightarrow> Timepoint \<Rightarrow> (mxlStatus option outcome \<times> nat) option" where
  "visit_entry ge e fuel k originTime deadline =
     (case ge_reader ge (le_reader e) of
        None \<Rightarrow> Some (Crash DanglingPointer, k)
      | Some r \<Rightarrow>
          let expectedIndex = timestampToIndex (le_grainRate e) originTime in
          case reader_getFlowRuntimeInfo r k of
            Throw x \<Rightarrow> Some (Throw x, Suc k)
          | Crash c \<Rightarrow> Some (Crash c, Suc k)
          | Ret info \<Rightarrow>
              if headIndex info < expectedIndex
              then map_option (\<lambda>(res, k'). (obind res (\<lambda>st. Ret (Some st)), k'))
                     (wait_for_entry (le_variant e) r (le_minValidSlices e) expectedIndex fuel (Suc k) deadline)
              else Some (Ret None, Suc k))"

text \<open>The new maximum of the source delay, when the arrival just waited for sets one.\<close>

definition note_delay :: "Timepoint \<Rightarrow> Timepoint \<Rightarrow> ListEntry \<Rightarrow> ListEntry option" where
  "note_delay currentTaiTime originTime e =
     (let expectedArrivalTime = indexToTimestamp (le_grainRate e) (timestampToIndex (le_grainRate e) originTime) in
      if expectedArrivalTime < currentTaiTime then
        let sourceDelay = dur_value (tp_diff currentTaiTime expectedArrivalTime) in
        if le_maxObservedSourceDelay e < sourceDelay then Some (e\<lparr>le_maxObservedSourceDelay := sourceDelay\<rparr>)
        else None
      else None)"

text \<open>
  After a successful wait on \<open>e\<close>: the visited and the remaining entries. \<open>splice_after\<close> is called
  with the iterator of the entry itself, so it moves the entry \<^emph>\<open>after\<close> it to the front; the
  loop's iterator already points to that entry and goes on from there. On the last entry there is
  nothing to move and the call has no meaning.
\<close>

definition settle_entry ::
  "Timepoint \<Rightarrow> Timepoint \<Rightarrow> ListEntry list \<Rightarrow> ListEntry \<Rightarrow> ListEntry list \<Rightarrow> (ListEntry list \<times> ListEntry list) outcome" where
  "settle_entry currentTaiTime originTime visited e rest =
     (case note_delay currentTaiTime originTime e of
        None \<Rightarrow> Ret (visited @ [e], rest)
      | Some e' \<Rightarrow>
          if le_maxObservedSourceDelay (hd (visited @ [e'])) < le_maxObservedSourceDelay e'
          then (case rest of
                  [] \<Rightarrow> Crash BadIterator
                | x # rest' \<Rightarrow> Ret ([], x # visited @ e' # rest'))
          else Ret (visited @ [e'], rest))"

fun wait_loop ::
  "group_environment \<Rightarrow> nat \<Rightarrow> ListEntry list \<Rightarrow> ListEntry list \<Rightarrow> nat \<Rightarrow> Timepoint \<Rightarrow> Timepoint \<Rightarrow>
     (mxlStatus outcome \<times> ListEntry list \<times> nat) option" where
  "wait_loop ge 0 visited todo k originTime deadline = None"
| "wait_loop ge (Suc fuel) visited [] k originTime deadline = Some (Ret MXL_STATUS_OK, visited, k)"
| "wait_loop ge (Suc fuel) visited (e # rest) k originTime deadline =
     (case visit_entry ge e fuel k originTime deadline of
        None \<Rightarrow> None
      | Some (Throw x, k') \<Rightarrow> Some (Throw x, visited @ e # rest, k')
      | Some (Crash c, k') \<Rightarrow> Some (Crash c, visited @ e # rest, k')
      | Some (Ret None, k') \<Rightarrow> wait_loop ge fuel (visited @ [e]) rest k' originTime deadline
      | Some (Ret (Some st), k') \<Rightarrow>
          if st = MXL_STATUS_OK
          then (case settle_entry (ge_tai ge k') originTime visited e rest of
                  Ret (visited', todo') \<Rightarrow> wait_loop ge fuel visited' todo' (Suc k') originTime deadline
                | Throw x \<Rightarrow> Some (Throw x, visited @ e # rest, Suc k')
                | Crash c \<Rightarrow> Some (Crash c, visited @ e # rest, Suc k'))
          else Some (Ret st, visited @ e # rest, k'))"

definition waitForDataAt ::
  "group_environment \<Rightarrow> nat \<Rightarrow> ListEntry list \<Rightarrow> nat \<Rightarrow> Timepoint \<Rightarrow> Timepoint \<Rightarrow>
     (mxlStatus outcome \<times> ListEntry list \<times> nat) option" where
  "waitForDataAt ge fuel grp k originTime deadline = wait_loop ge fuel [] grp k originTime deadline"

section \<open>What the group relies on\<close>

text \<open>
  The contract of a reader that can be waited for: a successful wait for an index has seen the
  head at or past it, and once the reader is settled (its counter rests and the clock is past the
  deadline) every wait returns.
\<close>

locale waitable_reader =
  fixes head :: "nat \<Rightarrow> u64"
    and wait :: "u64 \<Rightarrow> nat \<Rightarrow> nat \<Rightarrow> Timepoint \<Rightarrow> (mxlStatus outcome \<times> nat) option"
    and settled :: "nat \<Rightarrow> Timepoint \<Rightarrow> bool"
  assumes wait_sees: "wait i fuel k d = Some (Ret MXL_STATUS_OK, k') \<Longrightarrow> \<exists>j. k \<le> j \<and> j < k' \<and> i \<le> head j"
    and wait_settles: "settled n d \<Longrightarrow> n + 8 \<le> k + fuel \<Longrightarrow> 2 \<le> fuel \<Longrightarrow> \<exists>res. wait i fuel k d = Some res"
begin

definition advancing :: bool where
  "advancing \<longleftrightarrow> (\<forall>a b. a \<le> b \<longrightarrow> head a \<le> head b)"

lemma advancing_le: "advancing \<Longrightarrow> i \<le> head a \<Longrightarrow> a \<le> b \<Longrightarrow> i \<le> head b"
  unfolding advancing_def by (meson order_trans)

lemma wait_time: "wait i fuel k d = Some (Ret MXL_STATUS_OK, k') \<Longrightarrow> k < k'"
  using wait_sees by fastforce

lemma wait_available:
  assumes "advancing" and "wait i fuel k d = Some (Ret MXL_STATUS_OK, k')" and "k' \<le> b"
  shows "i \<le> head b"
proof -
  obtain j where "j < k'" "i \<le> head j"
    using wait_sees [OF assms(2)] by blast
  with assms show ?thesis
    using advancing_le [of i j b] by simp
qed

end

definition at_rest :: "('m \<Rightarrow> u32) \<Rightarrow> 'm environment \<Rightarrow> nat \<Rightarrow> Timepoint \<Rightarrow> bool" where
  "at_rest ctr env n deadline \<longleftrightarrow>
     (\<forall>j. n \<le> j \<longrightarrow> ctr (env_mem env j) = ctr (env_mem env n) \<and> deadline \<le> env_clock env j)"

lemma getGrainImpl_OK_head:
  "getGrainImpl i minv m1 m2 = Ret x \<Longrightarrow> fst x = MXL_STATUS_OK \<Longrightarrow> i \<le> dm_head m1"
  by (auto simp: getGrainImpl_def Let_def split: if_splits option.splits)

lemma getSamplesImpl_OK_head:
  "getSamplesImpl r i n want m = Ret x \<Longrightarrow> fst x = MXL_STATUS_OK \<Longrightarrow> i \<le> cm_head m"
  by (auto simp: getSamplesImpl_def Let_def split: if_splits option.splits)

lemma waitForGrain_sees:
  assumes "waitForGrain r i minv fuel env k d stat = Some (Ret MXL_STATUS_OK, k')"
  shows "\<exists>j. k \<le> j \<and> j < k' \<and> i \<le> dm_head (env_mem env j)"
proof -
  from assms obtain x where "getGrainImplUntil i minv fuel env k d = Some (Ret x, k')" "fst x = MXL_STATUS_OK"
    by (auto simp: waitForGrain_def outcome_simps split: if_splits option.splits prod.splits)
  with discrete_blocking.result_is_attempt [of i minv fuel env k d "Ret x" k'] getGrainImpl_OK_head
  show ?thesis by (metis Suc_eq_plus1 add_2_eq_Suc' le_SucI less_SucI Suc_lessD)
qed

lemma waitForSamples_sees:
  assumes "waitForSamples r i fuel env k d stat = Some (Ret MXL_STATUS_OK, k')"
  shows "\<exists>j. k \<le> j \<and> j < k' \<and> i \<le> cm_head (env_mem env j)"
proof -
  from assms obtain x where "getSamplesImplUntil r i 0 False fuel env k d = Some (Ret x, k')" "fst x = MXL_STATUS_OK"
    by (auto simp: waitForSamples_def outcome_simps finish_getSamples_def split: if_splits)
  with continuous_blocking.result_is_attempt [of r i 0 False fuel env k d "Ret x" k'] getSamplesImpl_OK_head
  show ?thesis by (metis Suc_eq_plus1 add_2_eq_Suc' le_SucI less_SucI Suc_lessD)
qed

interpretation discrete_waitable: waitable_reader "\<lambda>k. dm_head (env_mem env k)"
    "\<lambda>i fuel k d. waitForGrain r i minv fuel env k d stat" "at_rest dm_counter env"
  for r env stat minv
proof
  fix i fuel k d k'
  assume "waitForGrain r i minv fuel env k d stat = Some (Ret MXL_STATUS_OK, k')"
  then show "\<exists>j. k \<le> j \<and> j < k' \<and> i \<le> dm_head (env_mem env j)" by (rule waitForGrain_sees)
next
  fix n d k fuel i
  assume "at_rest dm_counter env n d" "n + 8 \<le> k + fuel" "2 \<le> fuel"
  then obtain res k' where "getGrainImplUntil i minv fuel env k d = Some (res, k')"
    using discrete_blocking.ends_after_deadline [of n env d k fuel] unfolding at_rest_def by blast
  then show "\<exists>res. waitForGrain r i minv fuel env k d stat = Some res"
    by (simp add: waitForGrain_def)
qed

interpretation continuous_waitable: waitable_reader "\<lambda>k. cm_head (env_mem env k)"
    "\<lambda>i fuel k d. waitForSamples r i fuel env k d stat" "at_rest cm_counter env"
  for r env stat
proof
  fix i fuel k d k'
  assume "waitForSamples r i fuel env k d stat = Some (Ret MXL_STATUS_OK, k')"
  then show "\<exists>j. k \<le> j \<and> j < k' \<and> i \<le> cm_head (env_mem env j)" by (rule waitForSamples_sees)
next
  fix n d k fuel i
  assume "at_rest cm_counter env n d" "n + 8 \<le> k + fuel" "2 \<le> fuel"
  then obtain res k' where "getSamplesImplUntil r i 0 False fuel env k d = Some (res, k')"
    using continuous_blocking.ends_after_deadline [of n env d k fuel] unfolding at_rest_def by blast
  then show "\<exists>res. waitForSamples r i fuel env k d stat = Some res"
    by (simp add: waitForSamples_def)
qed

text \<open>Both kinds together, by the variant the group stores.\<close>

fun variant_of :: "flow_reader \<Rightarrow> Variant" where
  "variant_of (DiscreteFlowReader r env stat) = Discrete"
| "variant_of (ContinuousFlowReader r env stat) = Continuous"

fun reader_head :: "flow_reader \<Rightarrow> nat \<Rightarrow> u64" where
  "reader_head (DiscreteFlowReader r env stat) k = dm_head (env_mem env k)"
| "reader_head (ContinuousFlowReader r env stat) k = cm_head (env_mem env k)"

fun reader_at_rest :: "flow_reader \<Rightarrow> nat \<Rightarrow> Timepoint \<Rightarrow> bool" where
  "reader_at_rest (DiscreteFlowReader r env stat) n d = at_rest dm_counter env n d"
| "reader_at_rest (ContinuousFlowReader r env stat) n d = at_rest cm_counter env n d"

interpretation reader: waitable_reader "reader_head rd" "wait_for_entry v rd minv" "reader_at_rest rd"
  for v rd minv
proof
  fix i fuel k d k'
  assume "wait_for_entry v rd minv i fuel k d = Some (Ret MXL_STATUS_OK, k')"
  then show "\<exists>j. k \<le> j \<and> j < k' \<and> i \<le> reader_head rd j"
    by (cases v; cases rd) (auto dest: discrete_waitable.wait_sees continuous_waitable.wait_sees)
next
  fix n d k fuel i
  assume "reader_at_rest rd n d" "n + 8 \<le> k + fuel" "2 \<le> fuel"
  then show "\<exists>res. wait_for_entry v rd minv i fuel k d = Some res"
    by (cases v; cases rd)
      (simp_all add: discrete_waitable.wait_settles continuous_waitable.wait_settles del: split_paired_Ex)
qed

lemma reader_runtime_head:
  "reader_getFlowRuntimeInfo rd k = Ret info \<Longrightarrow> headIndex info = reader_head rd k"
  by (cases rd) (auto simp: reader_getFlowRuntimeInfo_def outcome_simps dr_getFlowInfo_def cr_getFlowInfo_def
    dm_head_def cm_head_def split: if_splits)

section \<open>One visit\<close>

text \<open>What identifies an entry; only the observed delay changes while waiting.\<close>

definition member :: "ListEntry \<Rightarrow> nat \<times> u16 \<times> Variant \<times> mxlRational" where
  "member e = (le_reader e, le_minValidSlices e, le_variant e, le_grainRate e)"

definition available :: "group_environment \<Rightarrow> nat \<Rightarrow> Timepoint \<Rightarrow> ListEntry \<Rightarrow> bool" where
  "available ge k originTime e =
     (case ge_reader ge (le_reader e) of
        None \<Rightarrow> False
      | Some r \<Rightarrow> timestampToIndex (le_grainRate e) originTime \<le> reader_head r k)"

definition heads_advance :: "group_environment \<Rightarrow> nat set \<Rightarrow> bool" where
  "heads_advance ge R \<longleftrightarrow>
     (\<forall>i\<in>R. \<forall>r. ge_reader ge i = Some r \<longrightarrow> (\<forall>a b. a \<le> b \<longrightarrow> reader_head r a \<le> reader_head r b))"

lemma member_le_reader: "member e' = member e \<Longrightarrow> le_reader e' = le_reader e"
  by (simp add: member_def)

lemma available_member: "member e' = member e \<Longrightarrow> available ge k t e' = available ge k t e"
  by (auto simp: member_def available_def split: option.split)

lemma available_mono:
  assumes "heads_advance ge R" and "le_reader e \<in> R" and "available ge k t e" and "k \<le> k'"
  shows "available ge k' t e"
proof -
  from assms(3) obtain r where r: "ge_reader ge (le_reader e) = Some r"
    and i: "timestampToIndex (le_grainRate e) t \<le> reader_head r k"
    by (auto simp: available_def split: option.splits)
  from assms r have "reader_head r k \<le> reader_head r k'"
    by (simp add: heads_advance_def)
  with i r show ?thesis by (simp add: available_def)
qed

lemma visit_skips:
  assumes "visit_entry ge e fuel k t d = Some (Ret None, k')"
  shows "k' = Suc k" and "available ge k t e"
  using assms by (auto simp: visit_entry_def available_def outcome_simps reader_runtime_head not_less Let_def
    split: option.splits outcome.splits if_splits)

lemma visit_waits:
  assumes "visit_entry ge e fuel k t d = Some (Ret (Some MXL_STATUS_OK), k')"
  shows "\<not> available ge k t e" and "k < k'"
    and "heads_advance ge R \<Longrightarrow> le_reader e \<in> R \<Longrightarrow> available ge k' t e"
proof -
  define i where "i = timestampToIndex (le_grainRate e) t"
  from assms obtain r info where r: "ge_reader ge (le_reader e) = Some r"
    and info: "reader_getFlowRuntimeInfo r k = Ret info" "headIndex info < i"
    and w: "wait_for_entry (le_variant e) r (le_minValidSlices e) i fuel (Suc k) d = Some (Ret MXL_STATUS_OK, k')"
    by (auto simp: visit_entry_def outcome_simps i_def Let_def split: option.splits outcome.splits if_splits)
  from r info show "\<not> available ge k t e"
    by (simp add: available_def reader_runtime_head i_def)
  show "k < k'"
    using reader.wait_time [OF w] by simp
  assume "heads_advance ge R" "le_reader e \<in> R"
  with r have "reader.advancing r"
    by (simp add: reader.advancing_def heads_advance_def)
  from reader.wait_available [OF this w order_refl] r show "available ge k' t e"
    by (simp add: available_def i_def)
qed

lemma note_delay_member: "note_delay now t e = Some e' \<Longrightarrow> member e' = member e"
  by (auto simp: note_delay_def member_def Let_def split: if_splits)

lemma settle_cases:
  assumes "settle_entry now t visited e rest = Ret (v, u)"
  obtains e' where "member e' = member e" and "v = visited @ [e']" and "u = rest"
  | e' x rest' where "member e' = member e" and "rest = x # rest'" and "v = []" and "u = x # visited @ e' # rest'"
  using assms by (auto simp: settle_entry_def dest: note_delay_member split: option.splits if_splits list.splits)

lemma settle_members:
  "settle_entry now t visited e rest = Ret (v, u) \<Longrightarrow>
     mset (map member (v @ u)) = mset (map member (visited @ e # rest))"
  by (erule settle_cases) auto

lemma settle_visited:
  "settle_entry now t visited e rest = Ret (v, u) \<Longrightarrow> \<forall>x\<in>set visited. available ge k t x \<Longrightarrow> available ge k t e \<Longrightarrow>
     \<forall>x\<in>set v. available ge k t x"
  by (erule settle_cases) (auto intro: available_member [THEN iffD2])

lemma members_readers:
  assumes "mset (map member es) = mset (map member fs)"
  shows "le_reader ` set es = le_reader ` set fs"
proof -
  have "set (map member es) = set (map member fs)"
    using assms by (rule mset_eq_setD)
  then have "fst ` member ` set es = fst ` member ` set fs" by simp
  then show ?thesis by (simp add: image_image member_def)
qed

section \<open>What a wait keeps and promises\<close>

lemma wait_loop_members:
  "wait_loop ge fuel visited todo k t d = Some (res, g, k') \<Longrightarrow>
     mset (map member g) = mset (map member (visited @ todo))"
proof (induction fuel arbitrary: visited todo k)
  case (Suc fuel)
  show ?case
  proof (cases todo)
    case Nil
    with Suc.prems show ?thesis by simp
  next
    case (Cons e rest)
    from Suc.prems Cons obtain x k1 where v: "visit_entry ge e fuel k t d = Some (x, k1)"
      by (cases "visit_entry ge e fuel k t d") auto
    consider "x = Ret None" | "x = Ret (Some MXL_STATUS_OK)" | "g = visited @ e # rest"
      using Suc.prems Cons v by (auto split: outcome.splits option.splits if_splits)
    then show ?thesis
    proof cases
      case 1
      with Suc.prems Cons v Suc.IH [of "visited @ [e]" rest k1] show ?thesis by simp
    next
      case 2
      with Suc.prems Cons v Suc.IH settle_members show ?thesis
        by (fastforce split: outcome.splits)
    next
      case 3
      with Cons show ?thesis by simp
    qed
  qed
qed simp

lemma wait_loop_sound:
  assumes adv: "heads_advance ge R"
  shows "wait_loop ge fuel visited todo k t d = Some (Ret MXL_STATUS_OK, g, k') \<Longrightarrow>
    le_reader ` set (visited @ todo) \<subseteq> R \<Longrightarrow> \<forall>e\<in>set visited. available ge k t e \<Longrightarrow>
    \<forall>e\<in>set g. available ge k' t e"
proof (induction fuel arbitrary: visited todo k)
  case (Suc fuel)
  have older: "\<forall>x\<in>set visited. available ge b t x" if "k \<le> b" for b
    using Suc.prems that by (auto intro: available_mono [OF adv])
  show ?case
  proof (cases todo)
    case Nil
    with Suc.prems show ?thesis by simp
  next
    case (Cons e rest)
    with Suc.prems obtain x k1 where v: "visit_entry ge e fuel k t d = Some (Ret x, k1)"
      and x: "x = None \<or> x = Some MXL_STATUS_OK"
      by (auto split: option.splits outcome.splits prod.splits if_splits)
    show ?thesis
    proof (cases "x = None")
      case True
      with v visit_skips have "k1 = Suc k" "available ge k t e" by auto
      with True v Suc.prems Cons Suc.IH [of "visited @ [e]" rest k1] older [of k1] available_mono [OF adv, of e k t k1]
      show ?thesis by auto
    next
      case False
      with x v have v: "visit_entry ge e fuel k t d = Some (Ret (Some MXL_STATUS_OK), k1)" by auto
      with Suc.prems Cons obtain v' u where s: "settle_entry (ge_tai ge k1) t visited e rest = Ret (v', u)"
        and w: "wait_loop ge fuel v' u (Suc k1) t d = Some (Ret MXL_STATUS_OK, g, k')"
        by (auto split: outcome.splits)
      have e: "available ge (Suc k1) t e"
        using visit_waits [OF v] adv Suc.prems Cons available_mono [OF adv, of e k1 t "Suc k1"] by auto
      have "\<forall>x\<in>set v'. available ge (Suc k1) t x"
        using settle_visited [OF s older e] visit_waits(2) [OF v] by simp
      moreover have "le_reader ` set (v' @ u) \<subseteq> R"
        using members_readers [OF settle_members [OF s]] Suc.prems Cons by simp
      ultimately show ?thesis using Suc.IH [OF w] by simp
    qed
  qed
qed simp

section \<open>Waiting ends\<close>

text \<open>
  Every restart from the front is paid for by an entry that has just become available, so a group
  of \<open>n\<close> readers makes at most \<open>n\<close> restarts of at most \<open>n\<close> visits.
\<close>

definition pending :: "group_environment \<Rightarrow> nat \<Rightarrow> Timepoint \<Rightarrow> ListEntry list \<Rightarrow> nat" where
  "pending ge k t es = length (filter (\<lambda>e. \<not> available ge k t e) es)"

lemma pending_members:
  assumes "mset (map member es) = mset (map member fs)"
  shows "pending ge k t es = pending ge k t fs"
proof -
  define P where "P m = (\<not> (case ge_reader ge (fst m) of None \<Rightarrow> False
      | Some r \<Rightarrow> timestampToIndex (snd (snd (snd m))) t \<le> reader_head r k))" for m :: "nat \<times> u16 \<times> Variant \<times> mxlRational"
  have p: "\<not> available ge k t e \<longleftrightarrow> P (member e)" for e
    by (simp add: P_def member_def available_def split: option.split)
  have "length (filter P (map member es)) = length (filter P (map member fs))"
    using assms by (metis mset_filter size_mset)
  then show ?thesis
    by (simp add: pending_def p filter_map comp_def)
qed

lemma pending_mono:
  assumes "heads_advance ge R" and "le_reader ` set es \<subseteq> R" and "k \<le> k'"
  shows "pending ge k' t es \<le> pending ge k t es"
  using assms(2)
proof (induction es)
  case (Cons e es)
  with available_mono [OF assms(1), of e k t k'] assms(3) show ?case
    by (auto simp: pending_def)
qed (simp add: pending_def)

lemma pending_visited:
  assumes "heads_advance ge R" and "le_reader ` set (visited @ e # rest) \<subseteq> R" and "k \<le> k'"
    and "\<not> available ge k t e" and "available ge k' t e"
  shows "pending ge k' t (visited @ e # rest) < pending ge k t (visited @ e # rest)"
  using assms pending_mono [OF assms(1) _ assms(3), of visited t] pending_mono [OF assms(1) _ assms(3), of rest t]
  by (simp add: pending_def image_Un)

lemma pending_le_length: "pending ge k t es \<le> length es"
  by (simp add: pending_def)

lemma visit_returns:
  assumes "\<And>r. ge_reader ge (le_reader e) = Some r \<Longrightarrow> reader_at_rest r n d" and "n + 8 \<le> fuel"
  shows "\<exists>x. visit_entry ge e fuel k t d = Some x"
proof (cases "ge_reader ge (le_reader e)")
  case None
  then show ?thesis by (simp add: visit_entry_def)
next
  case (Some r)
  with assms(1) have rest: "reader_at_rest r n d" by simp
  have "\<exists>x. wait_for_entry (le_variant e) r (le_minValidSlices e) i fuel (Suc k) d = Some x" for i
    by (rule reader.wait_settles [OF rest]) (use assms(2) in auto)
  then obtain x where "wait_for_entry (le_variant e) r (le_minValidSlices e)
      (timestampToIndex (le_grainRate e) t) fuel (Suc k) d = Some x" by blast
  with Some show ?thesis
    by (cases "reader_getFlowRuntimeInfo r k") (simp_all add: visit_entry_def Let_def del: split_paired_Ex)
qed

lemma wait_loop_stops:
  assumes v: "visit_entry ge e fuel k t d = Some (y, k1)" and "y \<noteq> Ret None"
    and stuck: "\<And>v u. y = Ret (Some MXL_STATUS_OK) \<Longrightarrow> settle_entry (ge_tai ge k1) t visited e rest \<noteq> Ret (v, u)"
  shows "\<exists>x. wait_loop ge (Suc fuel) visited (e # rest) k t d = Some x"
proof (cases y)
  case (Ret st)
  with assms(2) obtain s where s: "y = Ret (Some s)" by (cases st) auto
  show ?thesis
  proof (cases "s = MXL_STATUS_OK")
    case True
    show ?thesis
    proof (cases "settle_entry (ge_tai ge k1) t visited e rest")
      case (Ret w)
      with stuck [of "fst w" "snd w"] s True show ?thesis by simp
    qed (use v s True in simp_all)
  qed (use v s in simp)
qed (use v in simp_all)

lemma wait_loop_returns:
  assumes adv: "heads_advance ge R"
    and rest: "\<And>i r. i \<in> R \<Longrightarrow> ge_reader ge i = Some r \<Longrightarrow> reader_at_rest r n d"
  shows "le_reader ` set (visited @ todo) \<subseteq> R \<Longrightarrow>
    pending ge k t (visited @ todo) * Suc (length (visited @ todo)) + length todo + n + 9 \<le> fuel \<Longrightarrow>
    \<exists>x. wait_loop ge fuel visited todo k t d = Some x"
proof (induction fuel arbitrary: visited todo k)
  case (Suc fuel)
  show ?case
  proof (cases todo)
    case (Cons e tl)
    let ?N = "length (visited @ todo)" and ?all = "visited @ e # tl"
    from Suc.prems Cons have e: "le_reader e \<in> R" and small: "n + 8 \<le> fuel" by auto
    obtain y k1 where v: "visit_entry ge e fuel k t d = Some (y, k1)"
      using visit_returns [of ge e n d fuel k t] rest [OF e] small by auto
    consider "y = Ret None" | v' u where "y = Ret (Some MXL_STATUS_OK)"
        "settle_entry (ge_tai ge k1) t visited e tl = Ret (v', u)"
      | "\<exists>x. wait_loop ge (Suc fuel) visited todo k t d = Some x"
      using wait_loop_stops [OF v, of visited tl] Cons by metis
    then show ?thesis
    proof cases
      case 1
      with v have k1: "k1 = Suc k" using visit_skips by simp
      have "pending ge k1 t (visited @ todo) \<le> pending ge k t (visited @ todo)"
        using pending_mono [OF adv Suc.prems(1)] k1 by simp
      then have "pending ge k1 t (visited @ todo) * Suc ?N \<le> pending ge k t (visited @ todo) * Suc ?N"
        by (rule mult_le_mono1)
      with Suc.prems Cons have "\<exists>x. wait_loop ge fuel (visited @ [e]) tl k1 t d = Some x"
        by (intro Suc.IH) auto
      with 1 v Cons show ?thesis by simp
    next
      case 2
      with v have w: "visit_entry ge e fuel k t d = Some (Ret (Some MXL_STATUS_OK), k1)" by simp
      note av = visit_waits [OF w]
      have "available ge (Suc k1) t e"
        using av(3) [OF adv e] available_mono [OF adv e, of k1 t "Suc k1"] by simp
      then have "pending ge (Suc k1) t ?all < pending ge k t ?all"
        using pending_visited [OF adv] Suc.prems(1) Cons av(1,2) by simp
      moreover have m: "mset (map member (v' @ u)) = mset (map member ?all)"
        by (rule settle_members [OF 2(2)])
      ultimately have "Suc (pending ge (Suc k1) t (v' @ u)) \<le> pending ge k t (visited @ todo)"
        using pending_members [OF m] Cons by simp
      then have "Suc (pending ge (Suc k1) t (v' @ u)) * Suc ?N \<le> pending ge k t (visited @ todo) * Suc ?N"
        by (rule mult_le_mono1)
      moreover have "length (v' @ u) = ?N"
        using m Cons by (metis length_map size_mset)
      moreover have "le_reader ` set (v' @ u) \<subseteq> R"
        using members_readers [OF m] Suc.prems(1) Cons by simp
      ultimately have "\<exists>x. wait_loop ge fuel v' u (Suc k1) t d = Some x"
        using Suc.prems(2) by (intro Suc.IH) auto
      with 2 v Cons show ?thesis by simp
    qed
  qed simp
qed simp

section \<open>The members of a group\<close>

text \<open>
  The groups a client can build: the overload of \<open>addReader\<close> is chosen by the static type of the
  reader, so a discrete reader is added as discrete and a continuous one as continuous.
\<close>

inductive reachable_group :: "group_environment \<Rightarrow> ListEntry list \<Rightarrow> bool" for ge where
  empty: "reachable_group ge []"
| add_discrete: "reachable_group ge g \<Longrightarrow> ge_reader ge rd = Some (DiscreteFlowReader r env stat) \<Longrightarrow>
    addDiscreteReader ge k rd minv g = Ret g' \<Longrightarrow> reachable_group ge g'"
| add_continuous: "reachable_group ge g \<Longrightarrow> ge_reader ge rd = Some (ContinuousFlowReader r env stat) \<Longrightarrow>
    addContinuousReader ge k rd g = Ret g' \<Longrightarrow> reachable_group ge g'"
| remove: "reachable_group ge g \<Longrightarrow> reachable_group ge (removeReader rd g)"
| wait: "reachable_group ge g \<Longrightarrow> waitForDataAt ge fuel g k t d = Some (res, g', k') \<Longrightarrow> reachable_group ge g'"

definition variant_fits :: "group_environment \<Rightarrow> nat \<times> u16 \<times> Variant \<times> mxlRational \<Rightarrow> bool" where
  "variant_fits ge m \<longleftrightarrow> (\<forall>r. ge_reader ge (fst m) = Some r \<longrightarrow> fst (snd (snd m)) = variant_of r)"

definition group_ok :: "group_environment \<Rightarrow> ListEntry list \<Rightarrow> bool" where
  "group_ok ge g \<longleftrightarrow> distinct (map le_reader g) \<and> (\<forall>e\<in>set g. variant_fits ge (member e))"

lemma group_ok_members:
  assumes "mset (map member g') = mset (map member g)" and "group_ok ge g"
  shows "group_ok ge g'"
proof -
  have "mset (map fst (map member g')) = mset (map fst (map member g))"
    using assms(1) by (metis mset_map)
  then have "mset (map le_reader g') = mset (map le_reader g)"
    by (simp add: member_def comp_def)
  moreover have "member ` set g' = member ` set g"
    using mset_eq_setD [OF assms(1)] by simp
  ultimately show ?thesis
    using assms(2) unfolding group_ok_def by (metis mset_eq_imp_distinct_iff image_iff)
qed

lemma ListEntry_new_member:
  "ListEntry_new ge k rd v = Ret e \<Longrightarrow> le_reader e = rd \<and> le_variant e = v \<and> (\<exists>r. ge_reader ge rd = Some r)"
  by (auto simp: ListEntry_new_def outcome_simps split: option.splits)

lemma addDiscreteReader_readers:
  "addDiscreteReader ge k rd minv g = Ret g' \<Longrightarrow>
     map le_reader g' = map le_reader g @ (if rd \<in> le_reader ` set g then [] else [rd])"
  by (induction g arbitrary: g') (auto simp: outcome_simps dest: ListEntry_new_member split: if_splits)

lemma addContinuousReader_readers:
  "addContinuousReader ge k rd g = Ret g' \<Longrightarrow>
     map le_reader g' = map le_reader g @ (if rd \<in> le_reader ` set g then [] else [rd])"
  by (induction g arbitrary: g') (auto simp: outcome_simps dest: ListEntry_new_member split: if_splits)

lemma addDiscreteReader_fits:
  assumes "ge_reader ge rd = Some (DiscreteFlowReader r env stat)"
  shows "addDiscreteReader ge k rd minv g = Ret g' \<Longrightarrow> \<forall>e\<in>set g. variant_fits ge (member e) \<Longrightarrow>
    \<forall>e\<in>set g'. variant_fits ge (member e)"
proof (induction g arbitrary: g')
  case Nil
  with assms show ?case by (auto simp: outcome_simps variant_fits_def member_def dest!: ListEntry_new_member)
next
  case (Cons e g)
  then show ?case by (auto simp: outcome_simps variant_fits_def member_def split: if_splits)
qed

lemma addContinuousReader_fits:
  assumes "ge_reader ge rd = Some (ContinuousFlowReader r env stat)"
  shows "addContinuousReader ge k rd g = Ret g' \<Longrightarrow> \<forall>e\<in>set g. variant_fits ge (member e) \<Longrightarrow>
    \<forall>e\<in>set g'. variant_fits ge (member e)"
proof (induction g arbitrary: g')
  case Nil
  with assms show ?case by (auto simp: outcome_simps variant_fits_def member_def dest!: ListEntry_new_member)
next
  case (Cons e g)
  then show ?case by (auto simp: outcome_simps split: if_splits)
qed

lemma removeReader_filter: "distinct (map le_reader g) \<Longrightarrow> removeReader rd g = filter (\<lambda>e. le_reader e \<noteq> rd) g"
proof (induction g)
  case (Cons e g)
  then have "le_reader e = rd \<Longrightarrow> filter (\<lambda>e. le_reader e \<noteq> rd) g = g"
    by (metis (mono_tags, lifting) distinct.simps(2) filter_True image_eqI list.set_map list.simps(9))
  with Cons show ?case by auto
qed simp

lemma group_ok_remove: "group_ok ge g \<Longrightarrow> group_ok ge (removeReader rd g)"
  by (auto simp: group_ok_def removeReader_filter distinct_map_filter)

lemma reachable_group_ok: "reachable_group ge g \<Longrightarrow> group_ok ge g"
proof (induction rule: reachable_group.induct)
  case empty
  then show ?case by (simp add: group_ok_def)
next
  case (add_discrete g rd r env stat k minv g')
  from addDiscreteReader_readers [OF add_discrete(3)] addDiscreteReader_fits [OF add_discrete(2,3)] add_discrete(4)
  show ?case by (simp add: group_ok_def)
next
  case (add_continuous g rd r env stat k g')
  from addContinuousReader_readers [OF add_continuous(3)] addContinuousReader_fits [OF add_continuous(2,3)] add_continuous(4)
  show ?case by (simp add: group_ok_def)
next
  case (remove g rd)
  show ?case by (rule group_ok_remove [OF remove.IH])
next
  case (wait g fuel k t d res g' k')
  show ?case
    using wait.hyps wait_loop_members group_ok_members [OF _ wait.IH]
    unfolding waitForDataAt_def by fastforce
qed

section \<open>What goes wrong, and what cannot\<close>

lemma getGrainImpl_crashes: "getGrainImpl i minv m1 m2 = Crash c \<Longrightarrow> c \<in> {DivisionByZero, NullDereference}"
  by (auto simp: getGrainImpl_def Let_def split: if_splits option.splits)

lemma getSamplesImpl_crashes: "getSamplesImpl r i n want m = Crash c \<Longrightarrow> c \<in> {DivisionByZero, NullDereference}"
  by (auto simp: getSamplesImpl_def Let_def split: if_splits option.splits)

lemma wait_for_entry_crashes:
  assumes "wait_for_entry v rd minv i fuel k d = Some (Crash c, k')" and "v = variant_of rd"
  shows "c \<in> {DivisionByZero, NullDereference}"
proof (cases rd)
  case (DiscreteFlowReader r env stat)
  with assms have "getGrainImplUntil i minv fuel env k d = Some (Crash c, k')"
    by (auto simp: waitForGrain_def outcome_simps split: if_splits option.splits)
  with discrete_blocking.result_is_attempt getGrainImpl_crashes show ?thesis by blast
next
  case (ContinuousFlowReader r env stat)
  with assms have "getSamplesImplUntil r i 0 False fuel env k d = Some (Crash c, k')"
    by (auto simp: waitForSamples_def outcome_simps split: if_splits)
  with continuous_blocking.result_is_attempt getSamplesImpl_crashes show ?thesis by blast
qed

definition live :: "group_environment \<Rightarrow> ListEntry \<Rightarrow> bool" where
  "live ge e \<longleftrightarrow> ge_reader ge (le_reader e) \<noteq> None"

lemma reader_runtime_crash: "reader_getFlowRuntimeInfo rd k \<noteq> Crash c"
  by (cases rd) (auto simp: reader_getFlowRuntimeInfo_def dr_getFlowInfo_def cr_getFlowInfo_def)

lemma visit_crashes:
  assumes "visit_entry ge e fuel k t d = Some (Crash c, k')" and "live ge e" and "variant_fits ge (member e)"
  shows "c \<in> {DivisionByZero, NullDereference}"
proof -
  from assms(2) obtain r where r: "ge_reader ge (le_reader e) = Some r" by (auto simp: live_def)
  with assms(3) have v: "le_variant e = variant_of r" by (simp add: variant_fits_def member_def)
  from assms(1) r obtain i where "wait_for_entry (le_variant e) r (le_minValidSlices e) i fuel (Suc k) d = Some (Crash c, k')"
    by (auto simp: visit_entry_def Let_def outcome_simps reader_runtime_crash split: outcome.splits if_splits)
  from wait_for_entry_crashes [OF this v] show ?thesis .
qed

lemma settle_crashes: "settle_entry now t visited e rest = Crash c \<Longrightarrow> c = BadIterator \<and> rest = []"
  by (auto simp: settle_entry_def split: option.splits if_splits list.splits)

definition fit_and_live :: "group_environment \<Rightarrow> (nat \<times> u16 \<times> Variant \<times> mxlRational) multiset \<Rightarrow> bool" where
  "fit_and_live ge M \<longleftrightarrow> (\<forall>m\<in>#M. variant_fits ge m \<and> ge_reader ge (fst m) \<noteq> None)"

lemma wait_loop_crashes:
  "wait_loop ge fuel visited todo k t d = Some (Crash c, g, k') \<Longrightarrow>
     fit_and_live ge (mset (map member (visited @ todo))) \<Longrightarrow>
     c \<in> {BadIterator, DivisionByZero, NullDereference}"
proof (induction fuel arbitrary: visited todo k)
  case (Suc fuel)
  show ?case
  proof (cases todo)
    case Nil
    with Suc.prems show ?thesis by simp
  next
    case (Cons e rest)
    from Suc.prems(2) Cons have e: "live ge e" "variant_fits ge (member e)"
      by (auto simp: fit_and_live_def live_def member_def)
    from Suc.prems Cons obtain y k1 where v: "visit_entry ge e fuel k t d = Some (y, k1)"
      by (cases "visit_entry ge e fuel k t d") auto
    consider "y = Ret None" | "y = Crash c" | v' u where "y = Ret (Some MXL_STATUS_OK)"
        "settle_entry (ge_tai ge k1) t visited e rest = Ret (v', u)"
        "wait_loop ge fuel v' u (Suc k1) t d = Some (Crash c, g, k')"
      | "settle_entry (ge_tai ge k1) t visited e rest = Crash c"
      using Suc.prems(1) Cons v by (auto split: outcome.splits option.splits if_splits)
    then show ?thesis
    proof cases
      case 1
      with Suc.prems v Cons Suc.IH [of "visited @ [e]" rest k1] show ?thesis by simp
    next
      case 2
      with visit_crashes [OF _ e] v show ?thesis by simp
    next
      case 3
      have "fit_and_live ge (mset (map member (v' @ u)))"
        using settle_members [OF 3(2)] Suc.prems(2) Cons by metis
      with Suc.IH [OF 3(3)] show ?thesis by simp
    next
      case 4
      with settle_crashes show ?thesis by simp
    qed
  qed
qed simp

lemma skips_available:
  assumes "ge_reader ge (le_reader e) = Some r" and "reader_getFlowRuntimeInfo r k = Ret info" and "available ge k t e"
  shows "visit_entry ge e fuel k t d = Some (Ret None, Suc k)"
  using assms reader_runtime_head [OF assms(2)]
  by (auto simp: visit_entry_def available_def Let_def dest: leD)

definition readable :: "group_environment \<Rightarrow> nat \<Rightarrow> Timepoint \<Rightarrow> ListEntry \<Rightarrow> bool" where
  "readable ge k t e \<longleftrightarrow> available ge k t e
     \<and> (\<exists>r info. ge_reader ge (le_reader e) = Some r \<and> reader_getFlowRuntimeInfo r k = Ret info)"

lemma readable_slices: "readable ge k t (e\<lparr>le_minValidSlices := m\<rparr>) = readable ge k t e"
  by (cases "ge_reader ge (le_reader e)") (simp_all add: readable_def available_def)

lemma wait_loop_skips:
  "(\<And>i. i < length todo \<Longrightarrow> readable ge (k + i) t (todo ! i)) \<Longrightarrow>
     wait_loop ge (length todo + fuel) visited (todo @ rest) k t d
       = wait_loop ge fuel (visited @ todo) rest (k + length todo) t d"
proof (induction todo arbitrary: visited k)
  case (Cons e todo)
  from Cons.prems [of 0] obtain r info where "ge_reader ge (le_reader e) = Some r"
    "reader_getFlowRuntimeInfo r k = Ret info" "available ge k t e"
    by (auto simp: readable_def)
  then have "wait_loop ge (length (e # todo) + fuel) visited ((e # todo) @ rest) k t d
      = wait_loop ge (length todo + fuel) (visited @ [e]) (todo @ rest) (Suc k) t d"
    by (simp add: skips_available)
  also have "\<dots> = wait_loop ge fuel ((visited @ [e]) @ todo) rest (Suc k + length todo) t d"
    using Cons.prems [of "Suc i" for i] by (intro Cons.IH) auto
  finally show ?case by simp
qed simp

section \<open>A group for the witnesses\<close>

text \<open>
  Continuous flows of one thousand samples per second whose head jumps from zero to one hundred at
  a tick of their own. The first is late, the second is later and the clock keeps running.
\<close>

definition ex_flow :: "u64 \<Rightarrow> u32 \<Rightarrow> Flow" where
  "ex_flow h c = zero_flow\<lparr>
     flow_info := (flow_info zero_flow)\<lparr>
       config := \<lparr>common = zero_common\<lparr>grainRate := \<lparr>numerator = 1000, denominator = 1\<rparr>\<rparr>,
                  specific = ContinuousMember \<lparr>channelCount = 1, bufferLength = 1000\<rparr>\<rparr>,
       runtime := zero_runtime\<lparr>headIndex := h\<rparr>\<rparr>,
     flow_state := \<lparr>inode = 0, syncCounter = c\<rparr>\<rparr>"

definition ex_mem :: "nat \<Rightarrow> nat \<Rightarrow> continuous_mem" where
  "ex_mem at k = \<lparr>cm_flow = (if k < at then ex_flow 0 0 else ex_flow 100 1), cm_data = []\<rparr>"

definition ex_env :: "nat \<Rightarrow> continuous_mem environment" where
  "ex_env at = \<lparr>env_mem = ex_mem at, env_clock = (\<lambda>k. Timepoint (int k)), env_futex = (\<lambda>_ _ _. Woken)\<rparr>"

definition ex_reader :: "nat \<Rightarrow> flow_reader" where
  "ex_reader at = ContinuousFlowReader
     \<lparr>cr_flowData = Some \<lparr>cd_mappedSize = 4000, cd_sampleWordSize = 4\<rparr>, cr_channelCount = 1, cr_bufferLength = 1000\<rparr>
     (ex_env at) (\<lambda>_. Some 0)"

definition ex_group_env :: group_environment where
  "ex_group_env = \<lparr>ge_reader = (\<lambda>i. if i = 1 then Some (ex_reader 6) else if i = 2 then Some (ex_reader 20)
                                  else if i = 3 then Some (ex_reader 0) else None),
                   ge_tai = (\<lambda>k. Timepoint (60000000 + 1000000 * int k))\<rparr>"

definition ex_entry :: "nat \<Rightarrow> ListEntry" where
  "ex_entry i = \<lparr>le_reader = i, le_minValidSlices = 0, le_variant = Continuous,
     le_grainRate = \<lparr>numerator = 1000, denominator = 1\<rparr>, le_maxObservedSourceDelay = 0\<rparr>"

definition ex_wait :: "ListEntry list \<Rightarrow> (mxlStatus outcome \<times> ListEntry list \<times> nat) option" where
  "ex_wait g = waitForDataAt ex_group_env 60 g 0 (Timepoint 50000000) (Timepoint 40)"

lemma ex_added: "addContinuousReader ex_group_env 0 2 [ex_entry 1] = Ret [ex_entry 1, ex_entry 2]"
  by code_simp

lemma ex_heads_advance: "heads_advance ex_group_env R"
  by (auto simp: heads_advance_def ex_group_env_def ex_reader_def ex_env_def ex_mem_def cm_head_def ex_flow_def
    zero_runtime_def)

lemma ex_at_rest: "ge_reader ex_group_env i = Some r \<Longrightarrow> reader_at_rest r 40 (Timepoint 40)"
  by (auto simp: ex_group_env_def ex_reader_def at_rest_def ex_env_def ex_mem_def cm_counter_def ex_flow_def
    less_eq_Timepoint_def Timepoint_le_def split: if_splits)

section \<open>Properties\<close>

text \<open>
  C14: When a group wait reports success every member has the index that corresponds to the requested
  time, whatever was reordered and revisited on the way, provided the heads only advance; and no
  member was lost.
\<close>

theorem group_wait_ok_means_available:
  assumes "waitForDataAt ge fuel grp k t d = Some (Ret MXL_STATUS_OK, grp', k')"
    and "heads_advance ge (le_reader ` set grp)"
  shows "mset (map member grp') = mset (map member grp) \<and> (\<forall>e\<in>set grp. available ge k' t e)"
proof -
  from assms(1) have w: "wait_loop ge fuel [] grp k t d = Some (Ret MXL_STATUS_OK, grp', k')"
    by (simp add: waitForDataAt_def)
  from wait_loop_members [OF w] have m: "mset (map member grp') = mset (map member grp)" by simp
  from mset_eq_setD [OF m] have s: "member ` set grp' = member ` set grp" by simp
  have av: "\<forall>e\<in>set grp'. available ge k' t e"
    using wait_loop_sound [OF assms(2) w] by simp
  have "available ge k' t e" if "e \<in> set grp" for e
  proof -
    from that have "member e \<in> member ` set grp'" unfolding s by (rule imageI)
    then obtain e' where "e' \<in> set grp'" "member e' = member e" by auto
    with av show ?thesis using available_member by blast
  qed
  with m show ?thesis by simp
qed

theorem group_wait_ok_means_available_witness:
  "\<exists>g' k'. ex_wait [ex_entry 3, ex_entry 1, ex_entry 2] = Some (Ret MXL_STATUS_OK, g', k')
     \<and> map le_reader g' = [2, 3, 1] \<and> available ex_group_env k' (Timepoint 50000000) (ex_entry 1)"
proof -
  have "map_option (map_prod id (map_prod (map le_reader) id)) (ex_wait [ex_entry 3, ex_entry 1, ex_entry 2])
      = Some (Ret MXL_STATUS_OK, [2, 3, 1], 27)"
    by code_simp
  then obtain g' k' where w: "ex_wait [ex_entry 3, ex_entry 1, ex_entry 2] = Some (Ret MXL_STATUS_OK, g', k')"
    "map le_reader g' = [2, 3, 1]"
    by auto
  from group_wait_ok_means_available [OF w(1) [unfolded ex_wait_def] ex_heads_advance] w show ?thesis by simp
qed

text \<open>
  C15: A group wait always returns: with heads that only advance, once every member's counter rests
  and its clock is past the deadline by tick \<open>n\<close>, fuel quadratic in the size of the group beyond
  \<open>n\<close> is enough, however often the list is reordered and the loop starts again from its front.
\<close>

theorem group_wait_returns:
  assumes "heads_advance ge (le_reader ` set grp)"
    and "\<And>i r. i \<in> le_reader ` set grp \<Longrightarrow> ge_reader ge i = Some r \<Longrightarrow> reader_at_rest r n d"
    and "(length grp + 1)\<^sup>2 + n + 9 \<le> fuel"
  shows "\<exists>res grp' k'. waitForDataAt ge fuel grp k t d = Some (res, grp', k')"
proof -
  have "pending ge k t grp * Suc (length grp) \<le> length grp * Suc (length grp)"
    by (rule mult_le_mono1 [OF pending_le_length])
  with assms(3) have "pending ge k t ([] @ grp) * Suc (length ([] @ grp)) + length grp + n + 9 \<le> fuel"
    by (simp add: power2_eq_square)
  with wait_loop_returns [where R = "le_reader ` set grp" and visited = "[]" and todo = grp and k = k and t = t,
      OF assms(1,2)]
  show ?thesis unfolding waitForDataAt_def by simp
qed

theorem group_wait_returns_witness:
  "\<exists>res g' k'. waitForDataAt ex_group_env 65 [ex_entry 3, ex_entry 1, ex_entry 2] 0 (Timepoint 50000000) (Timepoint 40)
     = Some (res, g', k')"
  by (rule group_wait_returns [where n = 40]) (simp_all add: ex_heads_advance ex_at_rest power2_eq_square)

text \<open>
  C16: In every group a client can build, each reader is listed once and under the kind it has, and
  removing a reader removes exactly its entry. While all members are alive a wait never casts a
  reader to the wrong class and never follows a dangling pointer.
\<close>

theorem group_members_are_consistent:
  assumes "reachable_group ge g"
  shows "distinct (map le_reader g)
    \<and> (\<forall>e\<in>set g. \<forall>r. ge_reader ge (le_reader e) = Some r \<longrightarrow> le_variant e = variant_of r)
    \<and> removeReader rd g = filter (\<lambda>e. le_reader e \<noteq> rd) g
    \<and> ((\<forall>e\<in>set g. live ge e) \<longrightarrow>
        waitForDataAt ge fuel g k t d \<noteq> Some (Crash BadDowncast, g', k')
        \<and> waitForDataAt ge fuel g k t d \<noteq> Some (Crash DanglingPointer, g', k'))"
proof -
  from reachable_group_ok [OF assms] have ok: "distinct (map le_reader g)" "\<forall>e\<in>set g. variant_fits ge (member e)"
    by (auto simp: group_ok_def)
  have "fit_and_live ge (mset (map member ([] @ g)))" if "\<forall>e\<in>set g. live ge e"
    using that ok(2) by (auto simp: fit_and_live_def live_def member_def)
  then have "c \<in> {BadIterator, DivisionByZero, NullDereference}"
    if "\<forall>e\<in>set g. live ge e" "waitForDataAt ge fuel g k t d = Some (Crash c, g', k')" for c
    using that wait_loop_crashes unfolding waitForDataAt_def by blast
  then show ?thesis
    using ok removeReader_filter [OF ok(1)] by (auto simp: variant_fits_def member_def)
qed

lemma ex_reachable: "reachable_group ex_group_env [ex_entry 1, ex_entry 2]"
proof -
  have "reachable_group ex_group_env [ex_entry 1]"
    by (rule reachable_group.add_continuous [OF reachable_group.empty, where rd = 1 and k = 0])
      (simp add: ex_group_env_def ex_reader_def, code_simp)
  then show ?thesis
    by (rule reachable_group.add_continuous [OF _ _ ex_added]) (simp add: ex_group_env_def ex_reader_def)
qed

theorem group_members_are_consistent_witness:
  "removeReader 1 [ex_entry 1, ex_entry 2] = [ex_entry 2]
     \<and> waitForDataAt ex_group_env 60 [ex_entry 1, ex_entry 2] 0 (Timepoint 50000000) (Timepoint 40)
         \<noteq> Some (Crash DanglingPointer, [], 0)"
  using group_members_are_consistent [OF ex_reachable, of 1 60 0 "Timepoint 50000000" "Timepoint 40" "[]" 0]
  by (simp add: live_def ex_group_env_def ex_entry_def)

text \<open>
  When every head has reached its index the wait returns at once and leaves the list as it was:
  the number of valid slices a discrete member asked for is not looked at, so a grain of which
  not one slice has been written counts as available.
\<close>

theorem group_wait_ignores_slices:
  assumes "\<And>i. i < length grp \<Longrightarrow> readable ge (k + i) t (grp ! i)" and "length grp < fuel"
  shows "waitForDataAt ge fuel (map (\<lambda>e. e\<lparr>le_minValidSlices := minv e\<rparr>) grp) k t d
    = Some (Ret MXL_STATUS_OK, map (\<lambda>e. e\<lparr>le_minValidSlices := minv e\<rparr>) grp, k + length grp)"
proof -
  let ?g = "map (\<lambda>e. e\<lparr>le_minValidSlices := minv e\<rparr>) grp"
  from assms(2) obtain f where f: "fuel = length ?g + Suc f"
    by (auto dest: less_imp_Suc_add)
  have "\<And>i. i < length ?g \<Longrightarrow> readable ge (k + i) t (?g ! i)"
    using assms(1) by (simp add: readable_slices)
  then have "wait_loop ge (length ?g + Suc f) [] (?g @ []) k t d = wait_loop ge (Suc f) ([] @ ?g) [] (k + length ?g) t d"
    by (rule wait_loop_skips)
  also have "\<dots> = Some (Ret MXL_STATUS_OK, ?g, k + length grp)" by simp
  finally show ?thesis by (simp add: waitForDataAt_def f)
qed

text \<open>A discrete flow at head five whose grain five has none of its ten slices yet.\<close>

definition ex_partial :: discrete_mem where
  "ex_partial = \<lparr>dm_flow = zero_flow\<lparr>flow_info := (flow_info zero_flow)\<lparr>
      config := \<lparr>common = zero_common\<lparr>grainRate := \<lparr>numerator = 100, denominator = 1\<rparr>\<rparr>,
                 specific = DiscreteMember \<lparr>sliceSizes = [8, 0, 0, 0], grainCount = 2\<rparr>\<rparr>,
      runtime := zero_runtime\<lparr>headIndex := 5\<rparr>\<rparr>\<rparr>,
    dm_grains = replicate 2 \<lparr>g_info = zero_grain_info\<lparr>gi_index := 5, totalSlices := 10\<rparr>, g_payload = []\<rparr>\<rparr>"

definition ex_partial_env :: group_environment where
  "ex_partial_env = \<lparr>ge_reader = (\<lambda>i. Some (DiscreteFlowReader \<lparr>dr_flowData = True, dr_accessFileFd = 3\<rparr>
       \<lparr>env_mem = (\<lambda>_. ex_partial), env_clock = (\<lambda>k. Timepoint (int k)), env_futex = (\<lambda>_ _ _. Woken)\<rparr> (\<lambda>_. Some 0))),
     ge_tai = (\<lambda>k. Timepoint 60000000)\<rparr>"

definition ex_partial_entry :: ListEntry where
  "ex_partial_entry = \<lparr>le_reader = 1, le_minValidSlices = 0, le_variant = Discrete,
     le_grainRate = \<lparr>numerator = 100, denominator = 1\<rparr>, le_maxObservedSourceDelay = 0\<rparr>"

lemma ex_partial_readable: "readable ex_partial_env k (Timepoint 50000000) ex_partial_entry"
proof -
  have "timestampToIndex (le_grainRate ex_partial_entry) (Timepoint 50000000) = 5" by code_simp
  moreover have "dm_head ex_partial = 5" by code_simp
  ultimately show ?thesis
    by (simp add: readable_def available_def ex_partial_env_def reader_getFlowRuntimeInfo_def dr_getFlowInfo_def)
qed

theorem group_wait_ignores_slices_witness:
  "waitForDataAt ex_partial_env 9 [ex_partial_entry\<lparr>le_minValidSlices := 10\<rparr>] 0 (Timepoint 50000000) (Timepoint 40)
     = Some (Ret MXL_STATUS_OK, [ex_partial_entry\<lparr>le_minValidSlices := 10\<rparr>], 1)
   \<and> getGrainImpl 5 10 ex_partial ex_partial = Ret (MXL_ERR_OUT_OF_RANGE_TOO_EARLY, None)"
proof
  show "waitForDataAt ex_partial_env 9 [ex_partial_entry\<lparr>le_minValidSlices := 10\<rparr>] 0 (Timepoint 50000000) (Timepoint 40)
     = Some (Ret MXL_STATUS_OK, [ex_partial_entry\<lparr>le_minValidSlices := 10\<rparr>], 1)"
    using group_wait_ignores_slices [of "[ex_partial_entry]" ex_partial_env 0 "Timepoint 50000000" 9 "\<lambda>_. 10" "Timepoint 40"]
    by (simp add: ex_partial_readable)
  show "getGrainImpl 5 10 ex_partial ex_partial = Ret (MXL_ERR_OUT_OF_RANGE_TOO_EARLY, None)" by code_simp
qed

text \<open>
  The reordering of the list is wrong at its end: when the last entry is the only one waited for
  and its delay becomes greater than that of the entry at the front, the entry \<^emph>\<open>after\<close> the last
  one is moved, which does not exist.
\<close>

theorem slowest_last_member_breaks_the_list:
  assumes "es \<noteq> []" and "\<And>i. i < length es \<Longrightarrow> readable ge (k + i) t (es ! i)"
    and "visit_entry ge e fuel (k + length es) t d = Some (Ret (Some MXL_STATUS_OK), k')"
    and "note_delay (ge_tai ge k') t e = Some e'" and "le_maxObservedSourceDelay (hd es) < le_maxObservedSourceDelay e'"
  shows "waitForDataAt ge (length es + Suc fuel) (es @ [e]) k t d = Some (Crash BadIterator, es @ [e], Suc k')"
proof -
  have "wait_loop ge (length es + Suc fuel) [] (es @ [e]) k t d = wait_loop ge (Suc fuel) ([] @ es) [e] (k + length es) t d"
    by (rule wait_loop_skips) (rule assms(2))
  also have "\<dots> = Some (Crash BadIterator, es @ [e], Suc k')"
    using assms(1,3-5) by (simp add: settle_entry_def)
  finally show ?thesis by (simp add: waitForDataAt_def)
qed

theorem slowest_last_member_breaks_the_list_witness:
  "waitForDataAt ex_group_env 60 [ex_entry 3, ex_entry 1] 0 (Timepoint 50000000) (Timepoint 40)
     = Some (Crash BadIterator, [ex_entry 3, ex_entry 1], 11)"
proof -
  have r: "readable ex_group_env 0 (Timepoint 50000000) (ex_entry 3)"
  proof -
    have "timestampToIndex (le_grainRate (ex_entry 3)) (Timepoint 50000000) = 50" by code_simp
    moreover have "reader_head (ex_reader 0) 0 = 100" by code_simp
    ultimately show ?thesis
      by (simp add: readable_def available_def ex_group_env_def ex_entry_def ex_reader_def
        reader_getFlowRuntimeInfo_def cr_getFlowInfo_def)
  qed
  have v: "visit_entry ex_group_env (ex_entry 1) 58 1 (Timepoint 50000000) (Timepoint 40)
      = Some (Ret (Some MXL_STATUS_OK), 10)"
    by code_simp
  have n: "note_delay (ge_tai ex_group_env 10) (Timepoint 50000000) (ex_entry 1)
      = Some ((ex_entry 1)\<lparr>le_maxObservedSourceDelay := 20000000\<rparr>)"
    by code_simp
  show ?thesis
    using slowest_last_member_breaks_the_list [of "[ex_entry 3]" ex_group_env 0 "Timepoint 50000000" "ex_entry 1" 58
        "Timepoint 40" 10, OF _ _ _ n] r v
    by (simp add: ex_entry_def)
qed

end
