(* ===== verification/Instance.thy ===== *)
theory Instance
  imports FlowIo SyncGroup FlowOptions
begin

text \<open>
  Instances (\<open>Instance.cpp\<close>, \<open>Instance.hpp\<close>): the reference counted readers and writers of one
  client, its synchronisation groups, the history duration that sizes new flows, and garbage
  collection. An operation returns its outcome together with the instance it leaves, so that what an
  exception leaves behind is visible. The maps are association lists with one entry per key.
\<close>

section \<open>Reference counts\<close>

record 'a RefCounted =
  rc_ptr :: 'a
  rc_refCount :: u64

definition RefCounted_new :: "'a \<Rightarrow> 'a RefCounted" where
  "RefCounted_new p = \<lparr>rc_ptr = p, rc_refCount = 1\<rparr>"

definition addReference :: "'a RefCounted \<Rightarrow> 'a RefCounted" where
  "addReference rc = rc\<lparr>rc_refCount := rc_refCount rc + 1\<rparr>"

definition releaseReference :: "'a RefCounted \<Rightarrow> bool \<times> 'a RefCounted" where
  "releaseReference rc =
     (let n = rc_refCount rc - (if 0 < rc_refCount rc then 1 else 0) in (n = 0, rc\<lparr>rc_refCount := n\<rparr>))"

section \<open>State\<close>

record Instance =
  inst_domain :: path
  inst_readers :: "(uuid \<times> reader_object RefCounted) list"
  inst_writers :: "(uuid \<times> writer_object RefCounted) list"
  inst_groups :: "(nat \<times> ListEntry list) list"
  inst_history :: u64
  inst_watcher :: DomainWatcher
  inst_next :: nat

definition remove_key :: "'k \<Rightarrow> ('k \<times> 'v) list \<Rightarrow> ('k \<times> 'v) list" where
  "remove_key k m = filter (\<lambda>x. fst x \<noteq> k) m"

definition put_key :: "'k \<Rightarrow> 'v \<Rightarrow> ('k \<times> 'v) list \<Rightarrow> ('k \<times> 'v) list" where
  "put_key k v m = (k, v) # remove_key k m"

section \<open>Construction\<close>

definition MXL_HISTORY_DURATION_OPTION :: string where
  "MXL_HISTORY_DURATION_OPTION = ''urn:x-mxl:option:history_duration/v1.0''"

definition parseOptionsJson :: "services \<Rightarrow> string \<Rightarrow> (string \<times> json) list option" where
  "parseOptionsJson sv options = (case sv_parse sv options of Some (JObj ob) \<Rightarrow> Some ob | _ \<Rightarrow> None)"

text \<open>The duration a text of domain options sets; anything else leaves the default.\<close>

definition history_option :: "services \<Rightarrow> u64 \<Rightarrow> string \<Rightarrow> u64 outcome" where
  "history_option sv dflt txt =
     (case parseOptionsJson sv txt of
        None \<Rightarrow> Ret dflt
      | Some ob \<Rightarrow>
          (case map_of ob MXL_HISTORY_DURATION_OPTION of
             Some (JNum r) \<Rightarrow> cast_u64 r
           | _ \<Rightarrow> Ret dflt))"

definition parseOptions :: "services \<Rightarrow> path \<Rightarrow> u64 \<Rightarrow> u64 io" where
  "parseOptions sv domain dflt =
     (let file = makeDomainOptionsFilePath domain in
      ibind (fs_exists file) (\<lambda>ex.
        if \<not> ex then iret dflt
        else ibind (isys (sys_ifstream file)) (\<lambda>ifs.
          case ifs of
            Inl _ \<Rightarrow> iret dflt
          | Inr i \<Rightarrow>
              ibind (isys (sys_read_text i)) (\<lambda>txt.
                ilift (history_option sv dflt (case txt of Inr s \<Rightarrow> s | Inl _ \<Rightarrow> []))))))"

definition DEFAULT_HISTORY :: u64 where "DEFAULT_HISTORY = 200000000"

definition Instance_new :: "services \<Rightarrow> path \<Rightarrow> DomainWatcher \<Rightarrow> Instance io" where
  "Instance_new sv mxlDomain wt =
     ibind (FlowManager_new mxlDomain) (\<lambda>domain.
     ibind (parseOptions sv domain DEFAULT_HISTORY) (\<lambda>history.
       iret \<lparr>inst_domain = domain, inst_readers = [], inst_writers = [], inst_groups = [],
             inst_history = history, inst_watcher = wt, inst_next = 0\<rparr>))"

section \<open>Readers\<close>

definition getFlowReader :: "services \<Rightarrow> Instance \<Rightarrow> string \<Rightarrow> (nat outcome \<times> Instance) io" where
  "getFlowReader sv inst flowId =
     (case sv_uuid_from_string sv flowId of
        None \<Rightarrow> icrash EmptyOptional
      | Some u \<Rightarrow>
          (case map_of (inst_readers inst) u of
             Some v \<Rightarrow> iret (Ret (ro_address (rc_ptr v)), inst\<lparr>inst_readers := put_key u (addReference v) (inst_readers inst)\<rparr>)
           | None \<Rightarrow>
               ibind (iattempt (ibind (openFlow sv (inst_domain inst) u READ_ONLY)
                        (createFlowReader sv (inst_domain inst) (inst_next inst) u))) (\<lambda>r.
                 case r of
                   Ret ro \<Rightarrow> iret (Ret (ro_address ro),
                     inst\<lparr>inst_readers := put_key u (RefCounted_new ro) (inst_readers inst), inst_next := Suc (inst_next inst)\<rparr>)
                 | Throw e \<Rightarrow> iret (Throw e, inst)
                 | Crash c \<Rightarrow> icrash c)))"

definition find_reader :: "Instance \<Rightarrow> nat \<Rightarrow> reader_object option" where
  "find_reader inst addr =
     map_option (\<lambda>x. rc_ptr (snd x)) (find (\<lambda>x. ro_address (rc_ptr (snd x)) = addr) (inst_readers inst))"

definition find_writer :: "Instance \<Rightarrow> nat \<Rightarrow> writer_object option" where
  "find_writer inst addr =
     map_option (\<lambda>x. rc_ptr (snd x)) (find (\<lambda>x. wo_address (rc_ptr (snd x)) = addr) (inst_writers inst))"

definition leave_groups :: "nat \<Rightarrow> (nat \<times> ListEntry list) list \<Rightarrow> (nat \<times> ListEntry list) list" where
  "leave_groups addr = map (\<lambda>(g, es). (g, removeReader addr es))"

text \<open>\<open>None\<close> is the null pointer; an address that is not a live object dangles.\<close>

definition releaseReader :: "Instance \<Rightarrow> nat option \<Rightarrow> Instance io" where
  "releaseReader inst reader =
     (case reader of
        None \<Rightarrow> iret inst
      | Some addr \<Rightarrow>
          (case find_reader inst addr of
             None \<Rightarrow> icrash DanglingPointer
           | Some ro \<Rightarrow>
               (case map_of (inst_readers inst) (ro_id ro) of
                  None \<Rightarrow> iret inst
                | Some v \<Rightarrow>
                    let (last, v') = releaseReference v in
                    if last
                    then ibind (FlowReader_destroy (rc_ptr v')) (\<lambda>_.
                           iret (inst\<lparr>inst_groups := leave_groups addr (inst_groups inst),
                                      inst_readers := remove_key (ro_id ro) (inst_readers inst)\<rparr>))
                    else iret (inst\<lparr>inst_readers := put_key (ro_id ro) v' (inst_readers inst)\<rparr>))))"

section \<open>Writers\<close>

text \<open>The sizes of a new flow, from the history duration and the parsed definition.\<close>

definition u64_of_int :: "int \<Rightarrow> u64" where
  "u64_of_int = word_of_int"

definition history_length :: "u64 \<Rightarrow> u64 \<Rightarrow> mxlRational \<Rightarrow> u64 outcome" where
  "history_length history unit_ns rate =
     (let d = unit_ns * u64_of_int (denominator rate) in
      if d = 0 then Crash DivisionByZero else Ret (history * u64_of_int (numerator rate) div d))"

definition hint_or :: "u32 option \<Rightarrow> u32 \<Rightarrow> u32" where
  "hint_or h dflt = (case h of Some x \<Rightarrow> x | None \<Rightarrow> dflt)"

definition discrete_flow_params :: "u64 \<Rightarrow> FlowParser \<Rightarrow> FlowOptionsParser \<Rightarrow> discrete_params outcome" where
  "discrete_flow_params history p op =
     obind (history_length history 1000000000 (fp_grainRate p)) (\<lambda>n.
     obind (getTotalPayloadSlices p) (\<lambda>slices.
     obind (getPayloadSize p) (\<lambda>payloadSize.
     obind (getPayloadSliceLengths p) (\<lambda>lengths.
       Ret \<lparr>dp_format = format_code (fp_format p), dp_grainCount = n, dp_grainRate = fp_grainRate p,
            dp_payloadSize = payloadSize, dp_numOfSlices = slices, dp_sliceLengths = lengths,
            dp_maxSync = hint_or (op_maxSyncBatchSizeHint op) (ucast slices),
            dp_maxCommit = hint_or (op_maxCommitBatchSizeHint op) (ucast slices)\<rparr>))))"

text \<open>Ten milliseconds of samples: a quotient of signed integers, cut to the 32 bits of a hint.\<close>

definition default_batch :: "mxlRational \<Rightarrow> u32 outcome" where
  "default_batch rate =
     (let d = wrap64 (100 * denominator rate) in
      if d = 0 then Crash DivisionByZero else Ret (word_of_int (wrap64 (numerator rate sdiv d))))"

definition page_align :: "u64 \<Rightarrow> u64 \<Rightarrow> u64 outcome" where
  "page_align bufLen sampleWordSize =
     (if sampleWordSize = 0 then Crash DivisionByZero
      else let lengthPerPage = 4096 div sampleWordSize in
        if lengthPerPage = 0 then Crash DivisionByZero
        else Ret ((bufLen + lengthPerPage - 1) div lengthPerPage * lengthPerPage))"

definition continuous_flow_params :: "u64 \<Rightarrow> FlowParser \<Rightarrow> FlowOptionsParser \<Rightarrow> continuous_params outcome" where
  "continuous_flow_params history p op =
     obind (history_length history 500000000 (fp_grainRate p)) (\<lambda>n.
     obind (getPayloadSize p) (\<lambda>wordSize.
     obind (page_align n wordSize) (\<lambda>len.
     obind (default_batch (fp_grainRate p)) (\<lambda>batch.
     obind (getChannelCount p) (\<lambda>channels.
       Ret \<lparr>cp_format = format_code (fp_format p), cp_sampleRate = fp_grainRate p, cp_channelCount = channels,
            cp_sampleWordSize = wordSize, cp_bufferLength = len,
            cp_maxSync = hint_or (op_maxSyncBatchSizeHint op) batch,
            cp_maxCommit = hint_or (op_maxCommitBatchSizeHint op) batch\<rparr>)))))"

definition createOrOpenDiscreteFlowData ::
  "services \<Rightarrow> Instance \<Rightarrow> string \<Rightarrow> FlowParser \<Rightarrow> FlowOptionsParser \<Rightarrow> (bool \<times> FlowData) io" where
  "createOrOpenDiscreteFlowData sv inst flowDef p op =
     ibind (ilift (discrete_flow_params (inst_history inst) p op)) (createOrOpenDiscreteFlow sv (inst_domain inst) (fp_id p) flowDef)"

definition createOrOpenContinuousFlowData ::
  "services \<Rightarrow> Instance \<Rightarrow> string \<Rightarrow> FlowParser \<Rightarrow> FlowOptionsParser \<Rightarrow> (bool \<times> FlowData) io" where
  "createOrOpenContinuousFlowData sv inst flowDef p op =
     ibind (ilift (continuous_flow_params (inst_history inst) p op)) (createOrOpenContinuousFlow sv (inst_domain inst) (fp_id p) flowDef)"

definition createOrOpenFlowData :: "services \<Rightarrow> Instance \<Rightarrow> string \<Rightarrow> string option \<Rightarrow> (bool \<times> FlowData) io" where
  "createOrOpenFlowData sv inst flowDef options =
     ibind (ilift (FlowParser_new sv flowDef)) (\<lambda>p.
     ibind (ilift (case options of Some s \<Rightarrow> FlowOptionsParser_new sv s | None \<Rightarrow> Ret no_options)) (\<lambda>op.
       if mxlIsDiscreteDataFormat (format_code (fp_format p)) then createOrOpenDiscreteFlowData sv inst flowDef p op
       else if mxlIsContinuousDataFormat (format_code (fp_format p)) then createOrOpenContinuousFlowData sv inst flowDef p op
       else ithrow RuntimeError))"

text \<open>
  The writer of the flow's id: a further reference to the one there is, whose flow data is then not
  needed, or a new one.
\<close>

definition attach_writer ::
  "services \<Rightarrow> Instance \<Rightarrow> bool \<times> FlowData \<Rightarrow> ((mxlFlowConfigInfo \<times> nat \<times> bool) outcome \<times> Instance) io" where
  "attach_writer sv inst cd =
     ibind (get_flow (flow_segment (snd cd))) (\<lambda>fl.
       let cfg = config (flow_info fl); u = cfg_id (common cfg) in
       case map_of (inst_writers inst) u of
         Some v \<Rightarrow>
           ibind (FlowData_destroy (snd cd)) (\<lambda>_.
             iret (Ret (cfg, wo_address (rc_ptr v), fst cd), inst\<lparr>inst_writers := put_key u (addReference v) (inst_writers inst)\<rparr>))
       | None \<Rightarrow>
           ibind (createFlowWriter_io sv (inst_domain inst) (inst_next inst) u (snd cd) (inst_watcher inst)) (\<lambda>(res, wt).
             case res of
               Ret wo \<Rightarrow> iret (Ret (cfg, wo_address wo, fst cd),
                 inst\<lparr>inst_writers := put_key u (RefCounted_new wo) (inst_writers inst), inst_watcher := wt,
                      inst_next := Suc (inst_next inst)\<rparr>)
             | Throw e \<Rightarrow> iret (Throw e, inst\<lparr>inst_watcher := wt\<rparr>)
             | Crash c \<Rightarrow> icrash c))"

definition createFlowWriter ::
  "services \<Rightarrow> Instance \<Rightarrow> string \<Rightarrow> string option \<Rightarrow> ((mxlFlowConfigInfo \<times> nat \<times> bool) outcome \<times> Instance) io" where
  "createFlowWriter sv inst flowDef options =
     ibind (iattempt (createOrOpenFlowData sv inst flowDef options)) (\<lambda>r.
       case r of
         Ret cd \<Rightarrow> attach_writer sv inst cd
       | Throw e \<Rightarrow> iret (Throw e, inst)
       | Crash c \<Rightarrow> icrash c)"

text \<open>Whether this process may delete the flow, and the writer after the attempt to get its lock.\<close>

definition claim_exclusive :: "writer_object \<Rightarrow> (bool \<times> writer_object) io" where
  "claim_exclusive wo = (if FlowWriter_isExclusive wo then iret (True, wo) else FlowWriter_makeExclusive wo)"

definition releaseWriter :: "services \<Rightarrow> Instance \<Rightarrow> nat option \<Rightarrow> (unit outcome \<times> Instance) io" where
  "releaseWriter sv inst writer =
     (case writer of
        None \<Rightarrow> iret (Ret (), inst)
      | Some addr \<Rightarrow>
          (case find_writer inst addr of
             None \<Rightarrow> icrash DanglingPointer
           | Some wo \<Rightarrow>
               (case map_of (inst_writers inst) (wo_id wo) of
                  None \<Rightarrow> iret (Ret (), inst)
                | Some v \<Rightarrow>
                    let (last, v') = releaseReference v;
                        released = inst\<lparr>inst_writers := put_key (wo_id wo) v' (inst_writers inst)\<rparr> in
                    if \<not> last then iret (Ret (), released)
                    else ibind (iattempt (claim_exclusive (rc_ptr v'))) (\<lambda>r.
                      case r of
                        Throw e \<Rightarrow> iret (Throw e, released)
                      | Crash c \<Rightarrow> icrash c
                      | Ret (mine, wo') \<Rightarrow>
                          ibind (if mine then ibind (deleteFlow sv (inst_domain inst) (wo_id wo)) (\<lambda>_. iret ()) else iret ()) (\<lambda>_.
                          ibind (FlowWriter_destroy sv (inst_domain inst) (inst_watcher inst) wo') (\<lambda>wt.
                            iret (Ret (), inst\<lparr>inst_writers := remove_key (wo_id wo) (inst_writers inst), inst_watcher := wt\<rparr>)))))))"

section \<open>Synchronisation groups\<close>

definition createFlowSynchronizationGroup :: "Instance \<Rightarrow> nat \<times> Instance" where
  "createFlowSynchronizationGroup inst =
     (inst_next inst, inst\<lparr>inst_groups := (inst_next inst, []) # inst_groups inst, inst_next := Suc (inst_next inst)\<rparr>)"

definition releaseFlowSynchronizationGroup :: "Instance \<Rightarrow> nat \<Rightarrow> Instance" where
  "releaseFlowSynchronizationGroup inst g = inst\<lparr>inst_groups := erase_first (\<lambda>x. fst x = g) (inst_groups inst)\<rparr>"

section \<open>Garbage collection\<close>

text \<open>
  One entry of the domain. A descriptor that could not be opened is -1, on which \<open>flock\<close> fails and
  \<open>close\<close> does nothing.
\<close>

definition flow_is_active :: "path \<Rightarrow> bool io" where
  "flow_is_active flowDataFile =
     ibind (isys (sys_open flowDataFile)) (\<lambda>r.
       case r of
         Inl _ \<Rightarrow> ibind (isys (syscall (\<lambda>w. (Inl EBADF :: nat + unit, w)))) (\<lambda>_. iret True)
       | Inr fd \<Rightarrow>
           ibind (isys (sys_flock fd ExclusiveLock)) (\<lambda>l.
           ibind (sys_close fd) (\<lambda>_.
             iret (case l of Inl _ \<Rightarrow> True | Inr _ \<Rightarrow> False))))"

definition collect_entry :: "path \<Rightarrow> string \<Rightarrow> bool io" where
  "collect_entry domain name =
     ibind (fs_is_directory (domain @ [name])) (\<lambda>d.
       if d \<and> path_extension name = FLOW_DIRECTORY_NAME_SUFFIX then
         (let flowDataFile = makeFlowDataFilePath (makeFlowDirectoryName domain (path_stem name)) in
          ibind (fs_exists flowDataFile) (\<lambda>ex.
            if \<not> ex then iret False
            else ibind (flow_is_active flowDataFile) (\<lambda>active.
              if active then iret False
              else ibind (isys (sys_remove_all (domain @ [name]))) (\<lambda>r.
                iret (case r of Inl _ \<Rightarrow> False | Inr _ \<Rightarrow> True)))))
       else iret False)"

fun collect_entries :: "path \<Rightarrow> string list \<Rightarrow> nat \<Rightarrow> nat io" where
  "collect_entries domain [] n = iret n"
| "collect_entries domain (name # names) n =
     ibind (iattempt (collect_entry domain name)) (\<lambda>r.
       case r of
         Ret b \<Rightarrow> collect_entries domain names (if b then Suc n else n)
       | Throw e \<Rightarrow> iret n
       | Crash c \<Rightarrow> icrash c)"

definition garbageCollect :: "path \<Rightarrow> nat io" where
  "garbageCollect domain =
     icatch
       (ibind (fs_exists domain) (\<lambda>ex.
        ibind (if ex then fs_is_directory domain else iret False) (\<lambda>ok.
          if ok then ibind (orthrow FilesystemError (sys_listdir domain)) (\<lambda>names. collect_entries domain names 0)
          else iret 0)))
       (\<lambda>_. iret 0)"

section \<open>Destruction\<close>

text \<open>Flows of writers that were never released are deleted as a release would.\<close>

fun cleanup_writers :: "services \<Rightarrow> path \<Rightarrow> (uuid \<times> writer_object RefCounted) list \<Rightarrow> (uuid \<times> writer_object) list io" where
  "cleanup_writers sv domain [] = iret []"
| "cleanup_writers sv domain ((u, v) # ws) =
     ibind (iattempt (claim_exclusive (rc_ptr v))) (\<lambda>r.
     ibind (case r of
              Ret (True, wo) \<Rightarrow> ibind (deleteFlow sv domain u) (\<lambda>_. iret wo)
            | Ret (False, wo) \<Rightarrow> iret wo
            | Throw e \<Rightarrow> iret (rc_ptr v)
            | Crash c \<Rightarrow> icrash c) (\<lambda>wo.
     ibind (cleanup_writers sv domain ws) (\<lambda>rest. iret ((u, wo) # rest))))"

fun destroy_writers :: "services \<Rightarrow> path \<Rightarrow> DomainWatcher \<Rightarrow> (uuid \<times> writer_object) list \<Rightarrow> DomainWatcher io" where
  "destroy_writers sv domain wt [] = iret wt"
| "destroy_writers sv domain wt (x # xs) =
     ibind (FlowWriter_destroy sv domain wt (snd x)) (\<lambda>wt'. destroy_writers sv domain wt' xs)"

fun destroy_readers :: "(uuid \<times> reader_object RefCounted) list \<Rightarrow> unit io" where
  "destroy_readers [] = iret ()"
| "destroy_readers (x # xs) = ibind (FlowReader_destroy (rc_ptr (snd x))) (\<lambda>_. destroy_readers xs)"

definition Instance_destroy :: "services \<Rightarrow> Instance \<Rightarrow> unit io" where
  "Instance_destroy sv inst =
     ibind (cleanup_writers sv (inst_domain inst) (inst_writers inst)) (\<lambda>ws.
     ibind (destroy_writers sv (inst_domain inst) (watcher_stop (inst_watcher inst)) ws) (\<lambda>wt.
     ibind (destroy_readers (inst_readers inst)) (\<lambda>_.
       DomainWatcher_destroy wt)))"

end
