(* ===== verification/InstanceLife.thy ===== *)
theory InstanceLife
  imports Instance
begin

text \<open>
  Lifetimes within an instance: reference counts refine a counter per flow, groups only hold readers
  that are alive, and what the release of the last reader or writer does to descriptors and flows.
\<close>

section \<open>Maps\<close>

lemma map_of_remove_key [simp]: "map_of (remove_key k m) = (map_of m)(k := None)"
  by (induction m) (auto simp: remove_key_def fun_eq_iff)

lemma map_of_put_key [simp]: "map_of (put_key k v m) = (map_of m)(k \<mapsto> v)"
  by (auto simp: put_key_def fun_eq_iff)

lemma set_remove_key [simp]: "set (remove_key k m) = {x \<in> set m. fst x \<noteq> k}"
  by (auto simp: remove_key_def)

lemma distinct_remove_key: "distinct (map fst m) \<Longrightarrow> distinct (map fst (remove_key k m))"
  by (simp add: remove_key_def distinct_map_filter)

lemma distinct_put_key: "distinct (map fst m) \<Longrightarrow> distinct (map fst (put_key k v m))"
  using distinct_remove_key [of m k] by (force simp: put_key_def)

section \<open>Invariant\<close>

definition reader_address :: "reader_object RefCounted \<Rightarrow> nat" where
  "reader_address v = ro_address (rc_ptr v)"

definition map_ok :: "nat \<Rightarrow> (uuid \<rightharpoonup> reader_object RefCounted) \<Rightarrow> bool" where
  "map_ok n m \<longleftrightarrow>
     (\<forall>u v. m u = Some v \<longrightarrow> ro_id (rc_ptr v) = u \<and> reader_address v < n)
     \<and> (\<forall>u v u' v'. m u = Some v \<longrightarrow> m u' = Some v' \<longrightarrow> reader_address v = reader_address v' \<longrightarrow> u = u')"

definition live_map :: "(uuid \<rightharpoonup> reader_object RefCounted) \<Rightarrow> nat set" where
  "live_map m = {a. \<exists>u v. m u = Some v \<and> reader_address v = a}"

definition readers_ok :: "nat \<Rightarrow> (uuid \<times> reader_object RefCounted) list \<Rightarrow> bool" where
  "readers_ok n rs \<longleftrightarrow> distinct (map fst rs) \<and> map_ok n (map_of rs)"

definition live_readers :: "Instance \<Rightarrow> nat set" where
  "live_readers inst = live_map (map_of (inst_readers inst))"

definition groups_ok :: "nat set \<Rightarrow> (nat \<times> ListEntry list) list \<Rightarrow> bool" where
  "groups_ok R gs \<longleftrightarrow> (\<forall>x\<in>set gs. distinct (map le_reader (snd x)) \<and> le_reader ` set (snd x) \<subseteq> R)"

definition instance_ok :: "Instance \<Rightarrow> bool" where
  "instance_ok inst \<longleftrightarrow> readers_ok (inst_next inst) (inst_readers inst) \<and> groups_ok (live_readers inst) (inst_groups inst)"

lemma map_okD:
  assumes "map_ok n m" and "m u = Some v"
  shows "ro_id (rc_ptr v) = u" and "reader_address v < n" and "m u' = Some v' \<Longrightarrow> reader_address v = reader_address v' \<Longrightarrow> u = u'"
  using assms unfolding map_ok_def by blast+

lemma map_okI:
  assumes "\<And>u v. m u = Some v \<Longrightarrow> ro_id (rc_ptr v) = u \<and> reader_address v < n"
    and "\<And>u v u' v'. m u = Some v \<Longrightarrow> m u' = Some v' \<Longrightarrow> reader_address v = reader_address v' \<Longrightarrow> u = u'"
  shows "map_ok n m"
  using assms unfolding map_ok_def by blast

lemma upd_Some: "(m(u \<mapsto> w)) x = Some v \<longleftrightarrow> (x = u \<and> v = w) \<or> (x \<noteq> u \<and> m x = Some v)"
  by auto

lemma map_ok_put:
  assumes ok: "map_ok n m" and u: "m u = Some v" and p: "rc_ptr v' = rc_ptr v"
  shows "map_ok n (m(u \<mapsto> v'))"
proof (rule map_okI)
  define z where "z x y = (if x = u then v else y)" for x y
  have a: "reader_address v' = reader_address v" using p by (simp add: reader_address_def)
  have z: "m x = Some (z x y)" "reader_address (z x y) = reader_address y" if "(m(u \<mapsto> v')) x = Some y" for x y
    using that u a unfolding z_def by (auto split: if_splits)
  fix x y x' y' assume "(m(u \<mapsto> v')) x = Some y" "(m(u \<mapsto> v')) x' = Some y'" "reader_address y = reader_address y'"
  then show "x = x'"
    using map_okD(3) [OF ok z(1) z(1), of x y x' y'] z(2) by simp
next
  fix x y assume "(m(u \<mapsto> v')) x = Some y"
  then show "ro_id (rc_ptr y) = x \<and> reader_address y < n"
    unfolding upd_Some using map_okD(1,2) [OF ok] u p by (auto simp: reader_address_def)
qed

lemma map_ok_new:
  assumes ok: "map_ok n m" and "ro_id ro = u" and "ro_address ro = n"
  shows "map_ok (Suc n) (m(u \<mapsto> RefCounted_new ro))"
proof (rule map_okI)
  have a: "reader_address (RefCounted_new ro) = n" using assms(3) by (simp add: reader_address_def RefCounted_new_def)
  fix x y x' y' assume "(m(u \<mapsto> RefCounted_new ro)) x = Some y" "(m(u \<mapsto> RefCounted_new ro)) x' = Some y'"
    "reader_address y = reader_address y'"
  then show "x = x'"
    unfolding upd_Some using a map_okD(2) [OF ok, of x y] map_okD(2) [OF ok, of x' y'] map_okD(3) [OF ok, of x y x' y']
    by (elim disjE conjE) simp_all
next
  fix x y assume "(m(u \<mapsto> RefCounted_new ro)) x = Some y"
  then show "ro_id (rc_ptr y) = x \<and> reader_address y < Suc n"
    unfolding upd_Some using map_okD(1,2) [OF ok] assms(2,3)
    by (auto simp: RefCounted_new_def reader_address_def intro: less_SucI)
qed

lemma map_ok_remove: "map_ok n m \<Longrightarrow> map_ok n (m(u := None))"
  by (rule map_okI) (auto dest: map_okD split: if_splits)

lemma map_ok_mono: "map_ok n m \<Longrightarrow> n \<le> k \<Longrightarrow> map_ok k m"
  by (rule map_okI) (auto dest: map_okD order_less_le_trans)

lemma live_mapI: "m u = Some v \<Longrightarrow> reader_address v \<in> live_map m"
  unfolding live_map_def by blast

lemma live_mapE:
  assumes "a \<in> live_map m" obtains u v where "m u = Some v" and "reader_address v = a"
  using assms unfolding live_map_def by blast

lemma live_map_put:
  assumes "m u = Some v" and "rc_ptr v' = rc_ptr v"
  shows "live_map (m(u \<mapsto> v')) = live_map m"
proof (rule set_eqI, rule iffI)
  have r: "reader_address v' = reader_address v" using assms(2) by (simp add: reader_address_def)
  fix a
  { assume "a \<in> live_map (m(u \<mapsto> v'))"
    then obtain x y where "(m(u \<mapsto> v')) x = Some y" "reader_address y = a" by (rule live_mapE)
    then show "a \<in> live_map m"
      using live_mapI [of m x y] live_mapI [of m u v, OF assms(1)] r by (cases "x = u") auto }
  { assume "a \<in> live_map m"
    then obtain x y where "m x = Some y" "reader_address y = a" by (rule live_mapE)
    then show "a \<in> live_map (m(u \<mapsto> v'))"
      using live_mapI [of "m(u \<mapsto> v')" x y] live_mapI [of "m(u \<mapsto> v')" u v'] r assms(1) by (cases "x = u") auto }
qed

lemma live_map_new:
  assumes "m u = None"
  shows "live_map (m(u \<mapsto> v)) = insert (reader_address v) (live_map m)"
proof (rule set_eqI, rule iffI)
  fix a
  { assume "a \<in> live_map (m(u \<mapsto> v))"
    then obtain x y where "(m(u \<mapsto> v)) x = Some y" "reader_address y = a" by (rule live_mapE)
    then show "a \<in> insert (reader_address v) (live_map m)"
      using live_mapI [of m x y] by (cases "x = u") auto }
  { assume "a \<in> insert (reader_address v) (live_map m)"
    then consider "a = reader_address v" | x y where "m x = Some y" "reader_address y = a"
      by (auto elim: live_mapE)
    then show "a \<in> live_map (m(u \<mapsto> v))"
    proof cases
      case 1
      with live_mapI [of "m(u \<mapsto> v)" u v] show ?thesis by simp
    next
      case (2 x y)
      with assms have "x \<noteq> u" by auto
      with 2 live_mapI [of "m(u \<mapsto> v)" x y] show ?thesis by simp
    qed }
qed

lemma live_map_remove:
  assumes "map_ok n m" and "m u = Some v"
  shows "live_map (m(u := None)) = live_map m - {reader_address v}"
proof (rule set_eqI, rule iffI)
  fix a
  { assume "a \<in> live_map (m(u := None))"
    then obtain x y where "(m(u := None)) x = Some y" "reader_address y = a" by (rule live_mapE)
    then have x: "x \<noteq> u" "m x = Some y" "reader_address y = a" by (auto split: if_splits)
    then have "reader_address y \<noteq> reader_address v" using map_okD(3) [OF assms, of x y] by auto
    with x live_mapI [of m x y] show "a \<in> live_map m - {reader_address v}" by auto }
  { assume "a \<in> live_map m - {reader_address v}"
    then obtain x y where x: "m x = Some y" "reader_address y = a" "a \<noteq> reader_address v" by (auto elim: live_mapE)
    then have "x \<noteq> u" using assms(2) by auto
    with x live_mapI [of "m(u := None)" x y] show "a \<in> live_map (m(u := None))" by simp }
qed

lemma find_reader_Some:
  assumes "find_reader inst a = Some ro" and "readers_ok n (inst_readers inst)"
  obtains v where "map_of (inst_readers inst) (ro_id ro) = Some v" and "ro = rc_ptr v" and "reader_address v = a"
proof -
  from assms(1) obtain x where "find (\<lambda>x. ro_address (rc_ptr (snd x)) = a) (inst_readers inst) = Some x" and r: "ro = rc_ptr (snd x)"
    by (auto simp: find_reader_def)
  from find_SomeD [OF this(1)] have x: "x \<in> set (inst_readers inst)" "reader_address (snd x) = a"
    by (auto simp: reader_address_def)
  have m: "map_of (inst_readers inst) (fst x) = Some (snd x)"
    using assms(2) x(1) by (simp add: readers_ok_def)
  then have "ro_id ro = fst x"
    using assms(2) r map_okD(1) by (auto simp only: readers_ok_def)
  with m r x(2) that [of "snd x"] show ?thesis by simp
qed

lemma find_None_all: "find P xs = None \<Longrightarrow> x \<in> set xs \<Longrightarrow> \<not> P x"
  by (induction xs) (auto split: if_splits)

lemma find_reader_live:
  assumes "readers_ok n (inst_readers inst)"
  shows "find_reader inst a \<noteq> None \<longleftrightarrow> a \<in> live_readers inst"
proof
  assume "find_reader inst a \<noteq> None"
  then obtain ro where "find_reader inst a = Some ro" by auto
  from find_reader_Some [OF this assms] show "a \<in> live_readers inst"
    unfolding live_readers_def live_map_def by blast
next
  assume "a \<in> live_readers inst"
  then obtain u v where m: "map_of (inst_readers inst) u = Some v" and a: "reader_address v = a"
    unfolding live_readers_def live_map_def by blast
  show "find_reader inst a \<noteq> None"
  proof
    assume "find_reader inst a = None"
    then have "find (\<lambda>x. ro_address (rc_ptr (snd x)) = a) (inst_readers inst) = None"
      by (simp add: find_reader_def)
    from find_None_all [OF this map_of_SomeD [OF m]] a show False by (simp add: reader_address_def)
  qed
qed

lemma releaseReader_cases:
  assumes "releaseReader inst ptr w = (Ret inst', w')" and "instance_ok inst"
  obtains "ptr = None" and "inst' = inst" and "w' = w"
  | a ro v where "ptr = Some a" and "find_reader inst a = Some ro" and "map_of (inst_readers inst) (ro_id ro) = Some v"
      and "rc_ptr v = ro" and "\<not> fst (releaseReference v)" and "w' = w"
      and "inst' = inst\<lparr>inst_readers := put_key (ro_id ro) (snd (releaseReference v)) (inst_readers inst)\<rparr>"
  | a ro v r where "ptr = Some a" and "find_reader inst a = Some ro" and "map_of (inst_readers inst) (ro_id ro) = Some v"
      and "rc_ptr v = ro" and "fst (releaseReference v)" and "FlowReader_destroy ro w = (Ret r, w')"
      and "inst' = inst\<lparr>inst_groups := leave_groups a (inst_groups inst), inst_readers := remove_key (ro_id ro) (inst_readers inst)\<rparr>"
proof (cases ptr)
  case None
  with assms(1) that(1) show ?thesis by (simp add: releaseReader_def iret_simps)
next
  case (Some a)
  with assms(1) obtain ro where f: "find_reader inst a = Some ro"
    by (auto simp: releaseReader_def iret_simps split: option.splits)
  have "readers_ok (inst_next inst) (inst_readers inst)" using assms(2) by (simp add: instance_ok_def)
  from find_reader_Some [OF f this] obtain v where m: "map_of (inst_readers inst) (ro_id ro) = Some v" and v: "ro = rc_ptr v"
    by blast
  have p: "rc_ptr (snd (releaseReference v)) = ro"
    using v by (simp add: releaseReference_def Let_def)
  show ?thesis
  proof (cases "fst (releaseReference v)")
    case True
    with assms(1) Some f m p obtain r where d: "FlowReader_destroy ro w = (Ret r, w')"
      and i: "inst' = inst\<lparr>inst_groups := leave_groups a (inst_groups inst), inst_readers := remove_key (ro_id ro) (inst_readers inst)\<rparr>"
      by (auto simp: releaseReader_def iret_simps case_prod_unfold Let_def elim!: ibind_RetE)
    show ?thesis by (rule that(3) [OF Some f m v [symmetric] True d i])
  next
    case False
    with assms(1) Some f m have
      "inst' = inst\<lparr>inst_readers := put_key (ro_id ro) (snd (releaseReference v)) (inst_readers inst)\<rparr>" "w' = w"
      by (auto simp: releaseReader_def iret_simps case_prod_unfold Let_def)
    with that(2) [OF Some f m v [symmetric] False] show ?thesis by blast
  qed
qed

lemma groups_ok_leave: "groups_ok R gs \<Longrightarrow> groups_ok (R - {a}) (leave_groups a gs)"
proof (unfold groups_ok_def, rule ballI)
  fix x assume gs: "\<forall>x\<in>set gs. distinct (map le_reader (snd x)) \<and> le_reader ` set (snd x) \<subseteq> R" and "x \<in> set (leave_groups a gs)"
  then obtain g es where "(g, es) \<in> set gs" and x: "x = (g, removeReader a es)"
    by (auto simp: leave_groups_def)
  with gs have dr: "distinct (map le_reader (snd (g, es))) \<and> le_reader ` set (snd (g, es)) \<subseteq> R" by blast
  then have d: "distinct (map le_reader es)" and r: "le_reader ` set es \<subseteq> R" by simp_all
  have "le_reader ` set (removeReader a es) \<subseteq> R - {a}"
    using r by (auto simp: removeReader_filter [OF d])
  then show "distinct (map le_reader (snd x)) \<and> le_reader ` set (snd x) \<subseteq> R - {a}"
    by (simp add: x removeReader_filter [OF d] distinct_map_filter d)
qed

lemma groups_ok_mono: "groups_ok R gs \<Longrightarrow> R \<subseteq> R' \<Longrightarrow> groups_ok R' gs"
  by (auto simp: groups_ok_def)

lemma instance_ok_update:
  assumes "instance_ok inst" and "readers_ok (inst_next inst) rs" and "live_map (map_of rs) = R" and "groups_ok R gs"
  shows "instance_ok (inst\<lparr>inst_groups := gs, inst_readers := rs\<rparr>)"
    and "live_readers (inst\<lparr>inst_groups := gs, inst_readers := rs\<rparr>) = R"
  using assms by (simp_all add: instance_ok_def live_readers_def)

lemma readers_ok_put:
  assumes "readers_ok n rs" and "map_of rs u = Some v" and "rc_ptr v' = rc_ptr v"
  shows "readers_ok n (put_key u v' rs)" and "live_map (map_of (put_key u v' rs)) = live_map (map_of rs)"
  using map_ok_put [of n "map_of rs" u v v'] live_map_put [of "map_of rs" u v v'] assms
  unfolding readers_ok_def map_of_put_key by (auto simp only: distinct_put_key)

lemma readers_ok_remove:
  assumes "readers_ok n rs" and "map_of rs u = Some v"
  shows "readers_ok n (remove_key u rs)" and "live_map (map_of (remove_key u rs)) = live_map (map_of rs) - {reader_address v}"
  using map_ok_remove [of n "map_of rs" u] live_map_remove [of n "map_of rs" u v] assms
  unfolding readers_ok_def map_of_remove_key by (auto simp only: distinct_remove_key)

lemma releaseReader_ok:
  assumes "releaseReader inst ptr w = (Ret inst', w')" and ok: "instance_ok inst"
  shows "instance_ok inst'"
  using assms
proof (cases rule: releaseReader_cases)
  case 1
  with ok show ?thesis by simp
next
  case (2 a ro v)
  have p: "rc_ptr (snd (releaseReference v)) = rc_ptr v" by (simp add: releaseReference_def Let_def)
  have r: "readers_ok (inst_next inst) (inst_readers inst)" and g: "groups_ok (live_readers inst) (inst_groups inst)"
    using ok by (simp_all add: instance_ok_def)
  have "instance_ok (inst\<lparr>inst_groups := inst_groups inst, inst_readers := put_key (ro_id ro) (snd (releaseReference v)) (inst_readers inst)\<rparr>)"
    by (rule instance_ok_update(1) [OF ok readers_ok_put [OF r 2(3) p] g [unfolded live_readers_def]])
  then show ?thesis unfolding 2(7) by simp
next
  case (3 a ro v r)
  have r: "readers_ok (inst_next inst) (inst_readers inst)" and g: "groups_ok (live_readers inst) (inst_groups inst)"
    using ok by (simp_all add: instance_ok_def)
  obtain v' where "map_of (inst_readers inst) (ro_id ro) = Some v'" "reader_address v' = a"
    using find_reader_Some [OF 3(2) r] by blast
  with 3(3) have a: "reader_address v = a" by simp
  show ?thesis unfolding 3(7)
    by (rule instance_ok_update(1) [OF ok readers_ok_remove [OF r 3(3), unfolded a] groups_ok_leave [OF g [unfolded live_readers_def]]])
qed

section \<open>Operations of a client\<close>

lemma createFlowReader_object:
  assumes "createFlowReader sv domain addr u data w = (Ret ro, w')"
  shows "ro_id ro = u" and "ro_address ro = addr"
  using assms
  by (auto simp: createFlowReader_def createDiscreteFlowReader_def createContinuousFlowReader_def iunwind_def icatch_def
      iret_simps elim!: ibind_RetE split: option.splits prod.splits outcome.splits)

lemma getFlowReader_cases:
  assumes "getFlowReader sv inst s w = (Ret (res, inst'), w')"
  obtains u v where "sv_uuid_from_string sv s = Some u" and "map_of (inst_readers inst) u = Some v"
      and "res = Ret (ro_address (rc_ptr v))" and "w' = w"
      and "inst' = inst\<lparr>inst_readers := put_key u (addReference v) (inst_readers inst)\<rparr>"
  | u ro where "sv_uuid_from_string sv s = Some u" and "map_of (inst_readers inst) u = None"
      and "ibind (openFlow sv (inst_domain inst) u READ_ONLY) (createFlowReader sv (inst_domain inst) (inst_next inst) u) w = (Ret ro, w')"
      and "ro_id ro = u" and "ro_address ro = inst_next inst" and "res = Ret (inst_next inst)"
      and "inst' = inst\<lparr>inst_readers := put_key u (RefCounted_new ro) (inst_readers inst), inst_next := Suc (inst_next inst)\<rparr>"
  | e where "res = Throw e" and "inst' = inst"
proof -
  from assms obtain u where u: "sv_uuid_from_string sv s = Some u"
    by (cases "sv_uuid_from_string sv s") (simp_all add: getFlowReader_def iret_simps)
  show ?thesis
  proof (cases "map_of (inst_readers inst) u")
    case (Some v)
    with assms u that(1) show ?thesis by (simp add: getFlowReader_def iret_simps)
  next
    case None
    let ?m = "ibind (openFlow sv (inst_domain inst) u READ_ONLY) (createFlowReader sv (inst_domain inst) (inst_next inst) u)"
    obtain r w1 where m: "?m w = (r, w1)" by fastforce
    show ?thesis
    proof (cases r)
      case (Ret ro)
      with m obtain data w2 where "createFlowReader sv (inst_domain inst) (inst_next inst) u data w2 = (Ret ro, w1)"
        by (auto elim!: ibind_RetE)
      note o = createFlowReader_object [OF this]
      from assms u None m Ret o(2) have "res = Ret (inst_next inst)" "w' = w1"
        "inst' = inst\<lparr>inst_readers := put_key u (RefCounted_new ro) (inst_readers inst), inst_next := Suc (inst_next inst)\<rparr>"
        by (simp_all add: getFlowReader_def ibind_def iattempt_def iret_simps)
      with that(2) u None m Ret o show ?thesis by simp
    next
      case (Throw e)
      with assms u None m have "res = Throw e" "inst' = inst"
        by (simp_all add: getFlowReader_def ibind_def iattempt_def iret_simps)
      then show ?thesis by (rule that(3))
    next
      case (Crash c)
      with assms u None m show ?thesis by (simp add: getFlowReader_def ibind_def iattempt_def iret_simps)
    qed
  qed
qed

lemma attach_writer_frame:
  assumes "attach_writer sv inst cd w = (Ret (res, inst'), w')"
  shows "inst_readers inst' = inst_readers inst \<and> inst_groups inst' = inst_groups inst \<and> inst_next inst \<le> inst_next inst'"
  using assms
  by (auto simp: attach_writer_def iret_simps Let_def elim!: ibind_RetE split: option.splits outcome.splits prod.splits)

lemma createFlowWriter_frame:
  assumes "createFlowWriter sv inst def opts w = (Ret (res, inst'), w')"
  shows "inst_readers inst' = inst_readers inst \<and> inst_groups inst' = inst_groups inst \<and> inst_next inst \<le> inst_next inst'"
  using assms
  by (auto simp: createFlowWriter_def iret_simps dest: attach_writer_frame elim!: ibind_RetE split: outcome.splits)

lemma releaseWriter_frame:
  assumes "releaseWriter sv inst ptr w = (Ret (res, inst'), w')"
  shows "inst_readers inst' = inst_readers inst \<and> inst_groups inst' = inst_groups inst \<and> inst_next inst \<le> inst_next inst'"
  using assms
  by (auto simp: releaseWriter_def iret_simps Let_def elim!: ibind_RetE split: option.splits outcome.splits prod.splits if_splits)

text \<open>
  What a client can do to an instance, with the readers it holds references to. It only passes
  pointers it was given and has not released, to readers as well as to groups.
\<close>

definition change_group :: "nat \<Rightarrow> ListEntry list \<Rightarrow> (nat \<times> ListEntry list) list \<Rightarrow> (nat \<times> ListEntry list) list" where
  "change_group g es = map (\<lambda>x. if fst x = g then (g, es) else x)"

inductive client :: "services \<Rightarrow> Instance \<Rightarrow> uuid multiset \<Rightarrow> bool" for sv where
  start: "Instance_new sv domain wt w = (Ret inst, w') \<Longrightarrow> client sv inst {#}"
| get: "client sv inst M \<Longrightarrow> getFlowReader sv inst s w = (Ret (Ret a, inst'), w') \<Longrightarrow> sv_uuid_from_string sv s = Some u \<Longrightarrow>
    Suc (count M u) < 2 ^ 64 \<Longrightarrow> client sv inst' (add_mset u M)"
| get_failed: "client sv inst M \<Longrightarrow> getFlowReader sv inst s w = (Ret (Throw e, inst'), w') \<Longrightarrow> client sv inst' M"
| release: "client sv inst M \<Longrightarrow> find_reader inst a = Some ro \<Longrightarrow> releaseReader inst (Some a) w = (Ret inst', w') \<Longrightarrow>
    client sv inst' (M - {#ro_id ro#})"
| create_writer: "client sv inst M \<Longrightarrow> createFlowWriter sv inst def opts w = (Ret (res, inst'), w') \<Longrightarrow> client sv inst' M"
| release_writer: "client sv inst M \<Longrightarrow> releaseWriter sv inst ptr w = (Ret (r, inst'), w') \<Longrightarrow> client sv inst' M"
| create_group: "client sv inst M \<Longrightarrow> createFlowSynchronizationGroup inst = (g, inst') \<Longrightarrow> client sv inst' M"
| release_group: "client sv inst M \<Longrightarrow> client sv (releaseFlowSynchronizationGroup inst g) M"
| group_add_discrete: "client sv inst M \<Longrightarrow> (g, es) \<in> set (inst_groups inst) \<Longrightarrow> find_reader inst a = Some ro \<Longrightarrow>
    addDiscreteReader ge k a minv es = Ret es' \<Longrightarrow>
    client sv (inst\<lparr>inst_groups := change_group g es' (inst_groups inst)\<rparr>) M"
| group_add_continuous: "client sv inst M \<Longrightarrow> (g, es) \<in> set (inst_groups inst) \<Longrightarrow> find_reader inst a = Some ro \<Longrightarrow>
    addContinuousReader ge k a es = Ret es' \<Longrightarrow>
    client sv (inst\<lparr>inst_groups := change_group g es' (inst_groups inst)\<rparr>) M"
| group_remove: "client sv inst M \<Longrightarrow> (g, es) \<in> set (inst_groups inst) \<Longrightarrow>
    client sv (inst\<lparr>inst_groups := change_group g (removeReader a es) (inst_groups inst)\<rparr>) M"
| group_wait: "client sv inst M \<Longrightarrow> (g, es) \<in> set (inst_groups inst) \<Longrightarrow>
    waitForDataAt ge fuel es k t d = Some (status, es', k') \<Longrightarrow>
    client sv (inst\<lparr>inst_groups := change_group g es' (inst_groups inst)\<rparr>) M"

section \<open>Groups hold live readers\<close>

definition members_ok :: "nat set \<Rightarrow> ListEntry list \<Rightarrow> bool" where
  "members_ok R es \<longleftrightarrow> distinct (map le_reader es) \<and> le_reader ` set es \<subseteq> R"

lemma groups_ok_change:
  "groups_ok R gs \<Longrightarrow> members_ok R es \<Longrightarrow> groups_ok R (change_group g es gs)"
  by (auto simp: groups_ok_def members_ok_def change_group_def)

lemma groups_okD: "groups_ok R gs \<Longrightarrow> (g, es) \<in> set gs \<Longrightarrow> members_ok R es"
  using bspec [of "set gs" "\<lambda>x. members_ok R (snd x)" "(g, es)"] by (simp add: groups_ok_def members_ok_def)

lemma members_ok_add:
  assumes "map le_reader es' = map le_reader es @ (if a \<in> le_reader ` set es then [] else [a])"
    and "members_ok R es" and "a \<in> R"
  shows "members_ok R es'"
proof -
  have "le_reader ` set es' = set (map le_reader es')" by simp
  also have "\<dots> \<subseteq> R" unfolding assms(1) using assms(2,3) by (auto simp: members_ok_def)
  finally show ?thesis
    using assms(2) unfolding members_ok_def assms(1) by simp
qed

lemma members_ok_remove: "members_ok R es \<Longrightarrow> members_ok R (removeReader a es)"
  by (auto simp: members_ok_def removeReader_filter distinct_map_filter)

lemma members_ok_wait:
  assumes "waitForDataAt ge fuel es k t d = Some (res, es', k')" and "members_ok R es"
  shows "members_ok R es'"
proof -
  have "mset (map member es') = mset (map member es)"
    using wait_loop_members assms(1) unfolding waitForDataAt_def by fastforce
  then have "mset (map fst (map member es')) = mset (map fst (map member es))"
    by (metis mset_map)
  then have "mset (map le_reader es') = mset (map le_reader es)"
    by (simp add: member_def comp_def)
  then show ?thesis
    using assms(2) unfolding members_ok_def by (metis mset_eq_imp_distinct_iff mset_eq_setD list.set_map)
qed

lemma instance_ok_groups:
  "instance_ok inst \<Longrightarrow> groups_ok (live_readers inst) gs \<Longrightarrow> instance_ok (inst\<lparr>inst_groups := gs\<rparr>)"
  by (simp add: instance_ok_def live_readers_def)

lemma instance_ok_frame:
  assumes "instance_ok inst" and "inst_readers inst' = inst_readers inst \<and> inst_groups inst' = inst_groups inst \<and> inst_next inst \<le> inst_next inst'"
  shows "instance_ok inst'"
  using assms map_ok_mono [of "inst_next inst" "map_of (inst_readers inst)"]
  by (simp add: instance_ok_def live_readers_def readers_ok_def)

lemma getFlowReader_ok:
  assumes "getFlowReader sv inst s w = (Ret (res, inst'), w')" and ok: "instance_ok inst"
  shows "instance_ok inst'"
  using assms(1)
proof (cases rule: getFlowReader_cases)
  case (1 u v)
  have r: "readers_ok (inst_next inst) (inst_readers inst)" and g: "groups_ok (live_readers inst) (inst_groups inst)"
    using ok by (simp_all add: instance_ok_def)
  have p: "rc_ptr (addReference v) = rc_ptr v" by (simp add: addReference_def)
  have "instance_ok (inst\<lparr>inst_groups := inst_groups inst, inst_readers := put_key u (addReference v) (inst_readers inst)\<rparr>)"
    by (rule instance_ok_update(1) [OF ok readers_ok_put [OF r 1(2) p] g [unfolded live_readers_def]])
  then show ?thesis unfolding 1(5) by simp
next
  case (2 u ro)
  have r: "distinct (map fst (inst_readers inst))" "map_ok (inst_next inst) (map_of (inst_readers inst))"
    and g: "groups_ok (live_readers inst) (inst_groups inst)"
    using ok by (simp_all add: instance_ok_def readers_ok_def)
  from map_ok_new [where m = "map_of (inst_readers inst)", OF r(2) 2(4,5)] r(1)
  have "readers_ok (Suc (inst_next inst)) (put_key u (RefCounted_new ro) (inst_readers inst))"
    unfolding readers_ok_def map_of_put_key by (simp only: distinct_put_key)
  moreover have "groups_ok (insert (reader_address (RefCounted_new ro)) (live_readers inst)) (inst_groups inst)"
    using g by (rule groups_ok_mono) blast
  ultimately show ?thesis
    unfolding 2(7) instance_ok_def live_readers_def
    using live_map_new [where m = "map_of (inst_readers inst)", OF 2(2), of "RefCounted_new ro"] by simp
next
  case (3 e)
  with ok show ?thesis by simp
qed

lemma instance_ok_member:
  "instance_ok inst \<Longrightarrow> (g, es) \<in> set (inst_groups inst) \<Longrightarrow> members_ok (live_readers inst) es"
  by (auto simp: instance_ok_def intro: groups_okD)

lemma instance_ok_live: "instance_ok inst \<Longrightarrow> find_reader inst a = Some ro \<Longrightarrow> a \<in> live_readers inst"
  using find_reader_live [of "inst_next inst" inst a] by (simp add: instance_ok_def)

lemma instance_ok_change:
  assumes "instance_ok inst" and "members_ok (live_readers inst) es"
  shows "instance_ok (inst\<lparr>inst_groups := change_group g es (inst_groups inst)\<rparr>)"
  by (rule instance_ok_groups [OF assms(1)], rule groups_ok_change [OF _ assms(2)]) (use assms(1) in \<open>simp add: instance_ok_def\<close>)

lemma set_erase_first: "set (erase_first P xs) \<subseteq> set xs"
  by (induction xs) auto

lemma client_instance_ok: "client sv inst M \<Longrightarrow> instance_ok inst"
proof (induction rule: client.induct)
  case (start domain wt w inst w')
  then show ?case
    by (auto simp: Instance_new_def iret_simps instance_ok_def readers_ok_def groups_ok_def map_ok_def elim!: ibind_RetE)
next
  case (create_group inst M g inst')
  from create_group.IH have "groups_ok (live_readers inst) ((inst_next inst, []) # inst_groups inst)"
    by (simp add: instance_ok_def groups_ok_def)
  with create_group show ?case
    by (auto simp: createFlowSynchronizationGroup_def instance_ok_def live_readers_def readers_ok_def intro: map_ok_mono)
next
  case (release_group inst M g)
  then show ?case
    using set_erase_first [of "\<lambda>x. fst x = g" "inst_groups inst"]
    unfolding releaseFlowSynchronizationGroup_def
    by (intro instance_ok_groups) (auto simp: instance_ok_def groups_ok_def)
next
  case (group_add_discrete inst M g es a ro ge k minv es')
  show ?case
    by (rule instance_ok_change [OF group_add_discrete.IH members_ok_add [OF addDiscreteReader_readers [OF group_add_discrete.hyps(4)]
          instance_ok_member [OF group_add_discrete.IH group_add_discrete.hyps(2)] instance_ok_live [OF group_add_discrete.IH group_add_discrete.hyps(3)]]])
next
  case (group_add_continuous inst M g es a ro ge k es')
  show ?case
    by (rule instance_ok_change [OF group_add_continuous.IH members_ok_add [OF addContinuousReader_readers [OF group_add_continuous.hyps(4)]
          instance_ok_member [OF group_add_continuous.IH group_add_continuous.hyps(2)] instance_ok_live [OF group_add_continuous.IH group_add_continuous.hyps(3)]]])
next
  case (group_remove inst M g es a)
  show ?case
    by (rule instance_ok_change [OF group_remove.IH members_ok_remove [OF instance_ok_member [OF group_remove.IH group_remove.hyps(2)]]])
next
  case (group_wait inst M g es ge fuel k t d status es' k')
  show ?case
    by (rule instance_ok_change [OF group_wait.IH members_ok_wait [OF group_wait.hyps(3) instance_ok_member [OF group_wait.IH group_wait.hyps(2)]]])
qed (rule getFlowReader_ok releaseReader_ok instance_ok_frame createFlowWriter_frame releaseWriter_frame; assumption?)+

text \<open>
  C18: Every member of a synchronisation group is a reader of the instance that is still alive, and is
  in the group once: the release of the last reference to a reader takes it out of every group, so
  that no wait of a group follows a dangling pointer.
\<close>

theorem group_members_are_live:
  assumes "client sv inst M" and "(g, es) \<in> set (inst_groups inst)"
  shows "distinct (map le_reader es) \<and> (\<forall>e\<in>set es. \<exists>ro. find_reader inst (le_reader e) = Some ro)"
proof -
  have ok: "instance_ok inst" by (rule client_instance_ok [OF assms(1)])
  from instance_ok_member [OF ok assms(2)] have "members_ok (live_readers inst) es" .
  then show ?thesis
    using find_reader_live [of "inst_next inst" inst] ok by (auto simp: members_ok_def instance_ok_def)
qed

section \<open>Reference counts\<close>

definition counted :: "(uuid \<rightharpoonup> reader_object RefCounted) \<Rightarrow> uuid multiset \<Rightarrow> bool" where
  "counted m M \<longleftrightarrow>
     (\<forall>u. m u = None \<longrightarrow> count M u = 0) \<and>
     (\<forall>u v. m u = Some v \<longrightarrow> unat (rc_refCount v) = count M u \<and> 0 < count M u)"

lemma countedD:
  "counted m M \<Longrightarrow> m u = None \<Longrightarrow> count M u = 0"
  "counted m M \<Longrightarrow> m u = Some v \<Longrightarrow> unat (rc_refCount v) = count M u \<and> 0 < count M u"
  by (simp_all add: counted_def)

lemma counted_put:
  assumes "counted m M" and "unat (rc_refCount v) = n" and "0 < n" and "\<And>x. count M' x = (if x = u then n else count M x)"
  shows "counted (m(u \<mapsto> v)) M'"
  using assms by (auto simp: counted_def split: if_splits)

lemma counted_remove:
  assumes "counted m M" and "\<And>x. count M' x = (if x = u then 0 else count M x)"
  shows "counted (m(u := None)) M'"
  using assms by (auto simp: counted_def)

lemma addReference_count: "Suc (unat (rc_refCount v)) < 2 ^ 64 \<Longrightarrow> unat (rc_refCount (addReference v)) = Suc (unat (rc_refCount v))"
  by (simp add: addReference_def unat_word_ariths)

lemma releaseReference_count:
  assumes "0 < unat (rc_refCount v)"
  shows "unat (rc_refCount (snd (releaseReference v))) = unat (rc_refCount v) - 1"
    and "fst (releaseReference v) \<longleftrightarrow> unat (rc_refCount v) = 1"
proof -
  have p: "rc_refCount v \<noteq> 0" using assms by auto
  have q: "unat (rc_refCount v - 1) = unat (rc_refCount v) - 1" by (rule unat_minus_one [OF p])
  have r: "(rc_refCount v - 1 = 0) = (unat (rc_refCount v) = 1)"
    using assms q by (simp only: word_unat_eq_iff) auto
  have s: "releaseReference v = (rc_refCount v - 1 = 0, v\<lparr>rc_refCount := rc_refCount v - 1\<rparr>)"
    using p by (simp add: releaseReference_def Let_def word_greater_zero_iff)
  show "unat (rc_refCount (snd (releaseReference v))) = unat (rc_refCount v) - 1"
    by (simp add: s q)
  show "fst (releaseReference v) \<longleftrightarrow> unat (rc_refCount v) = 1"
    unfolding s fst_conv by (rule r)
qed


lemma counted_new:
  assumes "counted m M" and "m u = None"
  shows "counted (m(u \<mapsto> RefCounted_new p)) (add_mset u M)"
  by (rule counted_put [OF assms(1), where n = 1]) (simp_all add: RefCounted_new_def countedD(1) [OF assms])

lemma counted_get:
  assumes "counted m M" and "m u = Some v" and "Suc (count M u) < 2 ^ 64"
  shows "counted (m(u \<mapsto> addReference v)) (add_mset u M)"
  using countedD(2) [OF assms(1,2)] assms(3)
  by (intro counted_put [OF assms(1), where n = "Suc (count M u)"]) (simp_all add: addReference_count)

lemma counted_release:
  assumes "counted m M" and "m u = Some v"
  shows "fst (releaseReference v) \<Longrightarrow> counted (m(u := None)) (M - {#u#})"
    and "\<not> fst (releaseReference v) \<Longrightarrow> counted (m(u \<mapsto> snd (releaseReference v))) (M - {#u#})"
proof -
  have c: "unat (rc_refCount v) = count M u" "0 < count M u" using countedD(2) [OF assms] by simp_all
  with releaseReference_count [of v]
  have r: "unat (rc_refCount (snd (releaseReference v))) = count M u - 1" "fst (releaseReference v) \<longleftrightarrow> count M u = 1"
    by simp_all
  show "fst (releaseReference v) \<Longrightarrow> counted (m(u := None)) (M - {#u#})"
    by (rule counted_remove [OF assms(1)]) (use r(2) in simp)
  show "\<not> fst (releaseReference v) \<Longrightarrow> counted (m(u \<mapsto> snd (releaseReference v))) (M - {#u#})"
    by (rule counted_put [OF assms(1) r(1)]) (use r(2) c(2) in \<open>simp_all del: count_greater_zero_iff\<close>)
qed

lemma client_counted: "client sv inst M \<Longrightarrow> counted (map_of (inst_readers inst)) M"
proof (induction rule: client.induct)
  case (start domain wt w inst w')
  then show ?case by (auto simp: Instance_new_def iret_simps counted_def elim!: ibind_RetE)
next
  case (get inst M s w a inst' w' u)
  from get.hyps(2) show ?case
  proof (cases rule: getFlowReader_cases)
    case (1 x v)
    with get.hyps(3) have x: "x = u" by simp
    show ?thesis using counted_get [OF get.IH 1(2) [unfolded x] get.hyps(4)] unfolding 1(5) x by (simp add: fun_upd_def)
  next
    case (2 x ro)
    with get.hyps(3) have x: "x = u" by simp
    show ?thesis using counted_new [OF get.IH 2(2) [unfolded x], of ro] unfolding 2(7) x by (simp add: fun_upd_def)
  next
    case (3 e)
    then show ?thesis by simp
  qed
next
  case (get_failed inst M s w e inst' w')
  from get_failed.hyps(2) show ?case by (cases rule: getFlowReader_cases) (use get_failed.IH in simp_all)
next
  case (release inst M a ro w inst' w')
  have ok: "instance_ok inst" by (rule client_instance_ok [OF release.hyps(1)])
  from release.hyps(3) ok show ?case
  proof (cases rule: releaseReader_cases)
    case 1
    then show ?thesis by simp
  next
    case (2 b r v)
    with release.hyps(2) have r: "r = ro" by simp
    show ?thesis using counted_release(2) [OF release.IH 2(3) 2(5)] unfolding 2(7) r by (simp add: fun_upd_def)
  next
    case (3 b r v d)
    with release.hyps(2) have r: "r = ro" by simp
    show ?thesis using counted_release(1) [OF release.IH 3(3) 3(5)] unfolding 3(7) r by (simp add: fun_upd_def)
  qed
next
  case (create_writer inst M def opts w res inst' w')
  with createFlowWriter_frame [OF create_writer.hyps(2)] show ?case by simp
next
  case (release_writer inst M ptr w r inst' w')
  with releaseWriter_frame [OF release_writer.hyps(2)] show ?case by simp
qed (auto simp: createFlowSynchronizationGroup_def releaseFlowSynchronizationGroup_def)


text \<open>
  C19: The references a client holds are exactly those the instance counts: the map of readers refines
  the multiset of the references acquired and not yet released, a reader exists precisely while that
  multiset has one for its flow, and it is the object for that flow.
\<close>

theorem reader_references_refine_multiset:
  assumes "client sv inst M"
  shows "(case map_of (inst_readers inst) u of
            None \<Rightarrow> count M u = 0
          | Some v \<Rightarrow> unat (rc_refCount v) = count M u \<and> 0 < count M u \<and> ro_id (rc_ptr v) = u
              \<and> find_reader inst (ro_address (rc_ptr v)) = Some (rc_ptr v))"
proof (cases "map_of (inst_readers inst) u")
  case None
  then show ?thesis using countedD(1) [OF client_counted [OF assms]] by simp
next
  case (Some v)
  have r: "readers_ok (inst_next inst) (inst_readers inst)"
    using client_instance_ok [OF assms] by (simp add: instance_ok_def)
  then have m: "map_ok (inst_next inst) (map_of (inst_readers inst))" by (simp add: readers_ok_def)
  have "reader_address v \<in> live_readers inst"
    unfolding live_readers_def using Some by (rule live_mapI)
  then obtain ro where f: "find_reader inst (reader_address v) = Some ro"
    using find_reader_live [OF r] by blast
  from find_reader_Some [OF f r] obtain v' where v': "map_of (inst_readers inst) (ro_id ro) = Some v'"
    "ro = rc_ptr v'" "reader_address v' = reader_address v" by blast
  from map_okD(3) [OF m v'(1) Some v'(3)] v'(1) Some have "v' = v" by simp
  with f v'(2) map_okD(1) [OF m Some] countedD(2) [OF client_counted [OF assms] Some] Some show ?thesis
    by (simp add: reader_address_def)
qed

end
