(* ===== verification/InstanceRelease.thy ===== *)
theory InstanceRelease
  imports InstanceLife
begin

text \<open>
  What the release of the last reference to a reader leaves behind, and runs of an instance on a
  domain with one flow.
\<close>

section \<open>Descriptors of a reader\<close>

lemma owned_extra: "owned w0 H ss H' \<Longrightarrow> fd \<notin> H' \<Longrightarrow> owned w0 (insert fd H) ss (insert fd H')"
proof (induction ss arbitrary: H')
  case (Cons s ss)
  then obtain g H1 where g: "shm_fd s = Some g" "owned w0 H ss H1" "fresh_fd w0 H1 g" "H' = insert g H1" by auto
  with Cons have "owned w0 (insert fd H) ss (insert fd H1)" "g \<noteq> fd" by auto
  with g show ?case by (auto simp: fresh_fd_def intro!: exI [of _ "insert fd H1"])
qed simp

definition access_fds :: "reader_object \<Rightarrow> nat set" where
  "access_fds ro = set_option (ro_accessFileFd ro)"

lemma discrete_reader_observed:
  assumes "createDiscreteFlowReader sv domain a u data w = (Ret ro, w')"
    and "observed w0 H w" and "owned w0 {} (segments data) H"
  shows "\<exists>H'. observed w0 H' w' \<and> owned w0 (access_fds ro) (segments (ro_data ro)) H'"
proof -
  let ?p = "makeFlowAccessFilePath (makeFlowDirectoryName domain (sv_uuid_to_string sv u))"
  from assms(1) obtain r where r: "sys_open ?p w = (r, w')"
    and ro: "ro = \<lparr>ro_address = a, ro_id = u, ro_data = data,
             ro_accessFileFd = (case r of Inr fd \<Rightarrow> Some fd | Inl _ \<Rightarrow> None), ro_continuous = None\<rparr>"
    by (auto simp: createDiscreteFlowReader_def isys_def iret_simps split: prod.splits elim!: ibind_RetE)
  have o: "case r of Inr fd \<Rightarrow> fresh_fd w0 H fd \<and> observed w0 (insert fd H) w' | Inl e \<Rightarrow> observed w0 H w'"
    using observed_frame.open_keeps [of w0 H ?p] assms(2) r unfolding striple_def by (fastforce split: sum.splits)
  show ?thesis
  proof (cases r)
    case (Inl e)
    with o assms(3) ro show ?thesis by (auto simp: access_fds_def)
  next
    case (Inr fd)
    with o owned_extra [OF assms(3), of fd] ro show ?thesis by (auto simp: access_fds_def fresh_fd_def)
  qed
qed

lemma regular_file_observed:
  assumes "fs_is_regular_file p w = (Ret b, w')" and "observed w0 H w" shows "observed w0 H w'"
  using assms by (auto simp: fs_is_regular_file_def syscall_def split: option.splits prod.splits sum.splits if_splits)

lemma accessible_observed:
  assumes "accessible p w = (Ret b, w')" and "observed w0 H w" shows "observed w0 H w'"
  using assms
  by (auto simp: accessible_def isys_def sys_access_def syscall_def iret_simps split: option.splits prod.splits if_splits elim!: ibind_RetE)

lemma reader_checkPermissions_observed:
  assumes "reader_checkPermissions sv domain u w = (Ret b, w')" and "observed w0 H w" shows "observed w0 H w'"
proof -
  let ?p = "makeFlowDescriptorFilePath (makeFlowDirectoryName domain (sv_uuid_to_string sv u))"
  from assms(1) obtain c w1 where c: "fs_is_regular_file ?p w = (Ret c, w1)"
    and k: "(if c then accessible ?p else iret False) w1 = (Ret b, w')"
    unfolding reader_checkPermissions_def Let_def by (rule ibind_RetE)
  have o: "observed w0 H w1" by (rule regular_file_observed [OF c assms(2)])
  show ?thesis
  proof (cases c)
    case True
    with k have "accessible ?p w1 = (Ret b, w')" by simp
    from accessible_observed [OF this o] show ?thesis .
  next
    case False
    with k o show ?thesis by (simp add: iret_simps)
  qed
qed

lemma iunwind_RetD: "iunwind m c w = (Ret a, w') \<Longrightarrow> m w = (Ret a, w')"
  by (auto simp: iunwind_def icatch_def iret_simps split: prod.splits outcome.splits elim!: ibind_RetE)

lemma continuous_reader_observed:
  assumes "createContinuousFlowReader sv domain a u data w = (Ret ro, w')"
    and "observed w0 H w" and "owned w0 {} (segments data) H"
  shows "\<exists>H'. observed w0 H' w' \<and> owned w0 (access_fds ro) (segments (ro_data ro)) H'"
proof -
  from iunwind_RetD [OF assms(1) [unfolded createContinuousFlowReader_def]] obtain fl w1 b w2 where
    g: "get_flow (flow_segment data) w = (Ret fl, w1)" and b: "reader_checkPermissions sv domain u w1 = (Ret b, w2)"
    and k: "(case continuous_view data of None \<Rightarrow> icrash NullDereference
          | Some view \<Rightarrow> ibind (ilift (new_continuous_reader view fl b)) (\<lambda>cr.
                iret \<lparr>ro_address = a, ro_id = u, ro_data = data, ro_accessFileFd = None, ro_continuous = Some cr\<rparr>)) w2 = (Ret ro, w')"
    by (elim ibind_RetE)
  have "w1 = w" using g by (auto simp: get_flow_def split: option.splits)
  with reader_checkPermissions_observed [OF b] assms(2) have "observed w0 H w2" by simp
  moreover have "w' = w2 \<and> ro_data ro = data \<and> ro_accessFileFd ro = None"
    using k by (auto simp: iret_simps split: option.splits elim!: ibind_RetE)
  ultimately show ?thesis using assms(3) by (auto simp: access_fds_def)
qed

lemma reader_observed:
  assumes "createFlowReader sv domain a u data w = (Ret ro, w')"
    and "observed w0 H w" and "owned w0 {} (segments data) H"
  shows "\<exists>H'. observed w0 H' w' \<and> owned w0 (access_fds ro) (segments (ro_data ro)) H'"
  using assms discrete_reader_observed continuous_reader_observed
  by (cases data) (auto simp: createFlowReader_def as_discrete_def as_continuous_def)

lemma first_get_observed:
  assumes "wf_world w" and "sv_uuid_from_string sv s = Some u" and "map_of (inst_readers inst) u = None"
    and "getFlowReader sv inst s w = (Ret (Ret a, inst1), w1)"
  obtains ro H where "ro_id ro = u" and "ro_address ro = a" and "a = inst_next inst"
    and "inst1 = inst\<lparr>inst_readers := put_key u (RefCounted_new ro) (inst_readers inst), inst_next := Suc (inst_next inst)\<rparr>"
    and "observed w H w1" and "owned w (access_fds ro) (segments (ro_data ro)) H"
  using assms(4)
proof (cases rule: getFlowReader_cases)
  case (1 x v)
  with assms(2,3) show ?thesis by simp
next
  case (3 e)
  then show ?thesis by simp
next
  case (2 x ro)
  with assms(2) have x: "x = u" by simp
  from 2(3) obtain data wa where o: "openFlow sv (inst_domain inst) u READ_ONLY w = (Ret data, wa)"
    and c: "createFlowReader sv (inst_domain inst) (inst_next inst) u data wa = (Ret ro, w1)"
    unfolding x by (rule ibind_RetE)
  from triple_Ret [OF observed_frame.openFlow_keeps observed_start [OF assms(1)] o] obtain H
    where "owned w {} (segments data) H" "observed w H wa" by blast
  from reader_observed [OF c this(2,1)] obtain H' where "observed w H' w1" "owned w (access_fds ro) (segments (ro_data ro)) H'"
    by blast
  with 2 x that [of ro H'] show ?thesis by simp
qed

text \<open>
  A reader that is the first for its flow and then given back: the release succeeds, nothing on the
  file system or in any file changed, and every descriptor is closed again except the one of the
  access file, which is never closed.
\<close>

theorem released_reader_leaks_access_descriptor:
  assumes "wf_world w" and "sv_uuid_from_string sv s = Some u" and "map_of (inst_readers inst) u = None"
    and "getFlowReader sv inst s w = (Ret (Ret a, inst1), w1)"
  shows "\<exists>ro inst2 w2. find_reader inst1 a = Some ro \<and> releaseReader inst1 (Some a) w1 = (Ret inst2, w2)
    \<and> map_of (inst_readers inst2) u = None \<and> w_tree w2 = w_tree w \<and> w_file w2 = w_file w
    \<and> new_fds w w2 = access_fds ro \<and> old_fds w w2 = w_fds w"
proof -
  obtain ro H' where ro: "ro_id ro = u" "ro_address ro = a" "a = inst_next inst"
    and i: "inst1 = inst\<lparr>inst_readers := put_key u (RefCounted_new ro) (inst_readers inst), inst_next := Suc (inst_next inst)\<rparr>"
    and H': "observed w H' w1" "owned w (access_fds ro) (segments (ro_data ro)) H'"
    using first_get_observed [OF assms] by blast
  note d = observed_frame.destroy_all_keeps [OF H'(2), of "\<lambda>_. False"]
  obtain r2 w2 where r2: "FlowReader_destroy ro w1 = (r2, w2)" by fastforce
  then have "r2 = Ret ()" and ob: "observed w (access_fds ro) w2"
    using triple_Ret [OF d H'(1)] triple_Throw [OF d H'(1)] triple_Crash [OF d H'(1)]
    unfolding FlowReader_destroy_def FlowData_destroy_def by (cases r2; simp)+
  with r2 have r: "FlowReader_destroy ro w1 = (Ret (), w2)" by simp
  have f: "find_reader inst1 a = Some ro"
    unfolding i find_reader_def put_key_def by (simp add: RefCounted_new_def ro(2))
  have l: "releaseReference (RefCounted_new ro) = (True, \<lparr>rc_ptr = ro, rc_refCount = 0\<rparr>)"
    by (simp add: releaseReference_def RefCounted_new_def Let_def)
  have "map_of (inst_readers inst1) (ro_id ro) = Some (RefCounted_new ro)"
    unfolding i by (simp add: ro(1))
  with f l r have "releaseReader inst1 (Some a) w1 =
    (Ret (inst1\<lparr>inst_groups := leave_groups a (inst_groups inst1), inst_readers := remove_key (ro_id ro) (inst_readers inst1)\<rparr>), w2)"
    by (simp add: releaseReader_def ibind_def iret_simps)
  with f ob ro(1) show ?thesis by (simp add: observed_def since_def)
qed

section \<open>A run\<close>

text \<open>The domain as the writer of a flow of two grains left it, with no descriptor open any more.\<close>

definition ex_id :: uuid where
  "ex_id = replicate 16 7"

definition ex_stored_flow :: Flow where
  "ex_stored_flow = \<lparr>flow_info = \<lparr>fi_version = 1, fi_size = 2048,
     config = \<lparr>common = \<lparr>cfg_id = ex_id, cfg_format = 1, cfg_flags = 0, grainRate = \<lparr>numerator = 50, denominator = 1\<rparr>,
                          maxCommitBatchSizeHint = 1, maxSyncBatchSizeHint = 1, payloadLocation = 0, deviceIndex = -1\<rparr>,
               specific = DiscreteMember \<lparr>sliceSizes = [512, 0, 0, 0], grainCount = 2\<rparr>\<rparr>,
     runtime = \<lparr>headIndex = 0, lastWriteTime = 9, lastReadTime = 9\<rparr>\<rparr>, flow_state = \<lparr>inode = 3, syncCounter = 0\<rparr>\<rparr>"

definition ex_stored_grain :: mxlGrainInfo where
  "ex_stored_grain = \<lparr>gi_version = 1, gi_size = 4096, gi_index = 0, gi_flags = 0, grainSize = 5120, totalSlices = 10, validSlices = 0\<rparr>"

definition ex_flow_world :: world where
  "ex_flow_world = \<lparr>w_env = ex_os, w_tick = 25,
     w_tree = [([''domain'', ''u.mxl-flow'', ''grains'', ''data.1''], FileEntry 5), ([''domain'', ''u.mxl-flow'', ''grains'', ''data.0''], FileEntry 4),
       ([''domain'', ''u.mxl-flow'', ''grains''], DirEntry), ([''domain'', ''u.mxl-flow'', ''data''], FileEntry 3),
       ([''domain'', ''u.mxl-flow'', ''access''], FileEntry 2), ([''domain'', ''u.mxl-flow'', ''flow_def.json''], FileEntry 1),
       ([''domain'', ''u.mxl-flow''], DirEntry), ([''domain''], DirEntry), ([], DirEntry)],
     w_files = [(1, \<lparr>f_size = 0, f_content = TextFile ''{}''\<rparr>), (2, \<lparr>f_size = 0, f_content = TextFile []\<rparr>),
       (3, \<lparr>f_size = 2064, f_content = FlowSegment ex_stored_flow\<rparr>),
       (4, \<lparr>f_size = 13312, f_content = GrainSegment ex_stored_grain\<rparr>), (5, \<lparr>f_size = 13312, f_content = GrainSegment ex_stored_grain\<rparr>)],
     w_inode = 6, w_fds = [], w_fd = 6\<rparr>"

lemma ex_flow_world_wf: "wf_world ex_flow_world"
  by (simp add: wf_world_def lookup_def ex_flow_world_def)

definition ex_instance :: Instance where
  "ex_instance = \<lparr>inst_domain = [''domain''], inst_readers = [], inst_writers = [], inst_groups = [], inst_history = DEFAULT_HISTORY,
     inst_watcher = ex_watcher, inst_next = 0\<rparr>"

definition ex_reader_object :: reader_object where
  "ex_reader_object = \<lparr>ro_address = 0, ro_id = ex_id,
     ro_data = DiscreteData
       \<lparr>shm_fd = Some 6, shm_mode = READ_ONLY, shm_data = Some 3, shm_mappedSize = 2064, shm_lockType = HoldsNone\<rparr>
       [\<lparr>shm_fd = Some 7, shm_mode = READ_ONLY, shm_data = Some 4, shm_mappedSize = 13312, shm_lockType = HoldsNone\<rparr>,
        \<lparr>shm_fd = Some 8, shm_mode = READ_ONLY, shm_data = Some 5, shm_mappedSize = 13312, shm_lockType = HoldsNone\<rparr>],
     ro_accessFileFd = Some 9, ro_continuous = None\<rparr>"

definition ex_with_reader :: "u64 \<Rightarrow> (nat \<times> ListEntry list) list \<Rightarrow> nat \<Rightarrow> Instance" where
  "ex_with_reader n gs k =
     ex_instance\<lparr>inst_readers := [(ex_id, \<lparr>rc_ptr = ex_reader_object, rc_refCount = n\<rparr>)], inst_groups := gs, inst_next := k\<rparr>"

lemma ex_find: "find_reader (ex_with_reader n gs k) 0 = Some ex_reader_object"
  by (simp add: find_reader_def ex_with_reader_def ex_reader_object_def)

lemma ex_instance_new: "fst (Instance_new ex_store [''domain''] ex_watcher ex_flow_world) = Ret ex_instance"
  by code_simp

lemma ex_first_get: "fst (getFlowReader ex_store ex_instance ''u'' ex_flow_world) = Ret (Ret 0, ex_with_reader 1 [] 1)"
  by code_simp

lemma ex_next_get: "fst (getFlowReader ex_store (ex_with_reader 1 [] 1) ''u'' ex_flow_world) = Ret (Ret 0, ex_with_reader 2 [] 1)"
  by code_simp

lemma ex_id_parsed: "sv_uuid_from_string ex_store ''u'' = Some ex_id"
  by (simp add: ex_store_def ex_id_def)

lemma ex_client_0: "client ex_store ex_instance {#}"
  using ex_instance_new client.start [of ex_store "[''domain'']" ex_watcher ex_flow_world ex_instance] by (metis prod.collapse)

lemma ex_client_1: "client ex_store (ex_with_reader 1 [] 1) {#ex_id#}"
  using client.get [OF ex_client_0 _ ex_id_parsed, of ex_flow_world 0 "ex_with_reader 1 [] 1"] ex_first_get
  by (simp add: prod_eq_iff)

lemma ex_client_2: "client ex_store (ex_with_reader 2 [] 1) {#ex_id, ex_id#}"
  using client.get [OF ex_client_1 _ ex_id_parsed, of ex_flow_world 0 "ex_with_reader 2 [] 1"] ex_next_get
  by (simp add: prod_eq_iff)

theorem reader_references_refine_multiset_witness:
  "\<exists>v. map_of (inst_readers (ex_with_reader 2 [] 1)) ex_id = Some v \<and> unat (rc_refCount v) = 2
     \<and> find_reader (ex_with_reader 2 [] 1) (ro_address (rc_ptr v)) = Some (rc_ptr v)"
  using reader_references_refine_multiset [OF ex_client_2, of ex_id]
  by (auto simp: ex_with_reader_def split: option.splits)

definition ex_group_member :: ListEntry where
  "ex_group_member = \<lparr>le_reader = 0, le_minValidSlices = 2, le_variant = Discrete,
     le_grainRate = \<lparr>numerator = 100, denominator = 1\<rparr>, le_maxObservedSourceDelay = 0\<rparr>"

lemma ex_joined: "addDiscreteReader ex_partial_env 0 0 2 [] = Ret [ex_group_member]"
  by code_simp

lemma ex_client_group: "client ex_store (ex_with_reader 1 [(1, [ex_group_member])] 2) {#ex_id#}"
proof -
  have c: "client ex_store (ex_with_reader 1 [(1, [])] 2) {#ex_id#}"
    using client.create_group [OF ex_client_1, of 1 "ex_with_reader 1 [(1, [])] 2"]
    by (simp add: createFlowSynchronizationGroup_def ex_with_reader_def ex_instance_def)
  have m: "(1, []) \<in> set (inst_groups (ex_with_reader 1 [(1, [])] 2))" by (simp add: ex_with_reader_def)
  from client.group_add_discrete [OF c m ex_find ex_joined] show ?thesis
    by (simp add: change_group_def ex_with_reader_def ex_instance_def)
qed

theorem group_members_are_live_witness:
  "\<exists>ro. find_reader (ex_with_reader 1 [(1, [ex_group_member])] 2) (le_reader ex_group_member) = Some ro"
  using group_members_are_live [OF ex_client_group, of 1 "[ex_group_member]"]
  by (simp add: ex_with_reader_def)

lemma ex_first_run: "getFlowReader ex_store ex_instance ''u'' ex_flow_world
    = (Ret (Ret 0, ex_with_reader 1 [] 1), snd (getFlowReader ex_store ex_instance ''u'' ex_flow_world))"
  using ex_first_get by (simp add: prod_eq_iff)

lemma ex_no_reader: "map_of (inst_readers ex_instance) ex_id = None"
  by (simp add: ex_instance_def)

theorem released_reader_leaks_access_descriptor_witness:
  "\<exists>inst2 w2. releaseReader (ex_with_reader 1 [] 1) (Some 0) (snd (getFlowReader ex_store ex_instance ''u'' ex_flow_world)) = (Ret inst2, w2)
     \<and> new_fds ex_flow_world w2 = {9}"
proof -
  obtain ro inst2 w2 where "find_reader (ex_with_reader 1 [] 1) 0 = Some ro"
    and "releaseReader (ex_with_reader 1 [] 1) (Some 0) (snd (getFlowReader ex_store ex_instance ''u'' ex_flow_world)) = (Ret inst2, w2)"
    and "new_fds ex_flow_world w2 = access_fds ro"
    using released_reader_leaks_access_descriptor [OF ex_flow_world_wf ex_id_parsed ex_no_reader ex_first_run] by blast
  moreover from this(1) have "ro = ex_reader_object" by (simp add: ex_find)
  moreover have "access_fds ex_reader_object = {9}" by (simp add: access_fds_def ex_reader_object_def)
  ultimately show ?thesis by auto
qed

end
