(* ===== verification/Collection.thy ===== *)
theory Collection
  imports InstanceRelease
begin

text \<open>
  Garbage collection (\<open>Instance::garbageCollect\<close>): flows whose data file somebody holds a lock on
  survive whatever fails, and when nothing fails every other flow is removed, readers or not.
\<close>

section \<open>Names\<close>

lemma flow_data_path:
  assumes "path_extension name = FLOW_DIRECTORY_NAME_SUFFIX"
  shows "makeFlowDataFilePath (makeFlowDirectoryName domain (path_stem name)) = domain @ [name, FLOW_DATA_FILE_NAME]"
proof -
  have "path_stem name @ path_extension name = name"
  proof -
    define r and w where "r = takeWhile (\<lambda>c. c \<noteq> CHR ''.'') (rev name)" and "w = dropWhile (\<lambda>c. c \<noteq> CHR ''.'') (rev name)"
    have split: "rev name = r @ w" unfolding r_def w_def by simp
    show ?thesis
    proof (cases "name = ''..'' \<or> Suc (length r) \<ge> length name")
      case True
      then show ?thesis by (auto simp: path_stem_def path_extension_def r_def [symmetric] Let_def)
    next
      case False
      have "length name = length r + length w" using arg_cong [OF split, of length] by simp
      with False obtain c d where d: "w = c # d" by (cases w) auto
      have c: "c = CHR ''.''" using d dropWhile_eq_Cons_conv [of "\<lambda>c. c \<noteq> CHR ''.''" "rev name" c d] by (simp add: w_def)
      have "name = rev (r @ w)" unfolding split [symmetric] by simp
      then have n: "name = rev d @ CHR ''.'' # rev r" unfolding d c by simp
      have "path_extension name = CHR ''.'' # rev r"
        unfolding path_extension_def r_def [symmetric] Let_def using False by simp
      then show ?thesis unfolding path_stem_def by (simp add: n)
    qed
  qed
  with assms show ?thesis by (simp add: path_defs)
qed

lemma under_entry: "under (domain @ [name]) p \<Longrightarrow> under (domain @ [name']) p \<Longrightarrow> name = name'"
  by (auto simp: under_iff)

section \<open>Locked flows\<close>

text \<open>The lock is held and the flow's directory is as it was.\<close>

definition spared :: "world \<Rightarrow> path \<Rightarrow> nat \<Rightarrow> nat \<Rightarrow> lock_state \<Rightarrow> world \<Rightarrow> bool" where
  "spared w0 d fd i l w \<longleftrightarrow>
     (\<forall>p. under d p \<longrightarrow> lookup w p = lookup w0 p) \<and> map_of (w_fds w) fd = Some (i, l) \<and> fd < w_fd w"

lemma spared_tick [simp]: "spared w0 d fd i l (tick w) = spared w0 d fd i l w"
  by (simp add: spared_def tick_def lookup_def)

lemma spared_lookup: "spared w0 d fd i l w \<Longrightarrow> under d p \<Longrightarrow> lookup w p = lookup w0 p"
  by (simp add: spared_def)

lemma spared_frame:
  assumes "spared w0 d fd i l w" and "w_tree w' = w_tree w" and "map_of (w_fds w') fd = map_of (w_fds w) fd" and "w_fd w \<le> w_fd w'"
  shows "spared w0 d fd i l w'"
  using assms by (auto simp: spared_def lookup_def)

lemma spared_status:
  assumes "spared w0 d fd i l w"
  shows "spared w0 d fd i l (snd (fs_exists p w))" and "spared w0 d fd i l (snd (fs_is_directory p w))"
  using assms by (auto simp: fs_exists_def fs_is_directory_def syscall_def split: option.splits)

lemma spared_open:
  assumes "spared w0 d fd i l w" and "sys_open p w = (r, w')"
  shows "spared w0 d fd i l w' \<and> (\<forall>g. r = Inr g \<longrightarrow> g \<noteq> fd \<and> (\<exists>j. lookup w p = Some (FileEntry j) \<and> fd_inode w' g = Some j))"
  using assms
  by (auto simp: sys_open_def syscall_def new_fd_def fd_inode_def tick_def spared_def lookup_def split: option.splits entry.splits)

lemma map_of_set_lock: "g \<noteq> fd \<Longrightarrow> map_of (w_fds (set_lock g l w)) fd = map_of (w_fds w) fd"
proof -
  assume "g \<noteq> fd"
  then have "map_of (map (\<lambda>(fd', i, l'). (fd', i, if fd' = g then l else l')) xs) fd = map_of xs fd" for xs
    by (induction xs) auto
  then show ?thesis by (simp add: set_lock_def)
qed

lemma spared_flock:
  assumes "spared w0 d fd i l w" and "g \<noteq> fd" and "sys_flock g k w = (r, w')"
  shows "spared w0 d fd i l w'"
proof -
  have "spared w0 d fd i l (set_lock g m (tick w))" for m
    by (rule spared_frame [where w = "tick w"]) (use assms(1,2) in \<open>simp_all add: map_of_set_lock, simp_all add: set_lock_def\<close>)
  with assms show ?thesis by (auto simp: sys_flock_def syscall_def split: option.splits if_splits)
qed

lemma flock_refused:
  assumes "spared w0 d fd i l w" and "g \<noteq> fd" and "fd_inode w g = Some i" and "l \<noteq> Unlocked" and "sys_flock g ExclusiveLock w = (r, w')"
  shows "\<exists>e. r = Inl e"
proof -
  have "(fd, i, l) \<in> set (w_fds (tick w))" using assms(1) by (auto simp: spared_def tick_def dest: map_of_SomeD)
  then have "\<not> lock_free (tick w) g i ExclusiveLock"
    using assms(2,4) by (force simp: lock_free_def list_all_iff)
  moreover have "fd_inode (tick w) g = Some i" using assms(3) by (simp add: fd_inode_def tick_def)
  ultimately show ?thesis
    using assms(5) by (auto simp: sys_flock_def syscall_def split: option.splits)
qed

lemma spared_close:
  assumes "spared w0 d fd i l w" and "g \<noteq> fd"
  shows "spared w0 d fd i l (snd (sys_close g w))"
proof -
  have "map_of (filter (\<lambda>(f, _). f \<noteq> g) xs) fd = map_of xs fd" for xs :: "(nat \<times> nat \<times> lock_state) list"
    using assms(2) by (induction xs) auto
  then show ?thesis
    using assms(1) by (simp add: spared_def sys_close_def tick_def lookup_def)
qed

lemma status_spares:
  "triple (spared w0 d fd i l) (fs_exists p) (\<lambda>_. spared w0 d fd i l) (spared w0 d fd i l)"
  "triple (spared w0 d fd i l) (fs_is_directory p) (\<lambda>_. spared w0 d fd i l) (spared w0 d fd i l)"
  unfolding triple_def fs_exists_def fs_is_directory_def syscall_def by (auto split: option.splits)

lemma active_spares:
  assumes "l \<noteq> Unlocked"
  shows "triple (spared w0 d fd i l) (flow_is_active p)
    (\<lambda>b w. spared w0 d fd i l w \<and> (under d p \<longrightarrow> lookup w0 p = Some (FileEntry i) \<longrightarrow> b)) (\<lambda>_. False)"
  unfolding triple_def
proof (intro allI impI)
  fix w assume s: "spared w0 d fd i l w"
  obtain r w1 where o: "sys_open p w = (r, w1)" by fastforce
  note s1 = spared_open [OF s o]
  show "case flow_is_active p w of
      (Ret b, w') \<Rightarrow> spared w0 d fd i l w' \<and> (under d p \<longrightarrow> lookup w0 p = Some (FileEntry i) \<longrightarrow> b)
    | (Throw e, w') \<Rightarrow> False | (Crash c, w') \<Rightarrow> False"
  proof (cases r)
    case (Inl e)
    with o s1 show ?thesis
      by (simp add: flow_is_active_def ibind_def isys_def syscall_def iret_simps split: option.splits)
  next
    case (Inr g)
    with s1 have g: "g \<noteq> fd" by simp
    obtain lk w2 where k: "sys_flock g ExclusiveLock w1 = (lk, w2)" by fastforce
    have s2: "spared w0 d fd i l w2" using spared_flock [OF _ g k] s1 by simp
    have "flow_is_active p w = (Ret (case lk of Inl _ \<Rightarrow> True | Inr _ \<Rightarrow> False), snd (sys_close g w2))"
      using o k Inr by (simp add: flow_is_active_def ibind_def isys_def iret_simps sys_close_def)
    moreover have "\<exists>e. lk = Inl e" if "under d p" "lookup w0 p = Some (FileEntry i)"
    proof (rule flock_refused [OF _ g _ assms k])
      show "spared w0 d fd i l w1" using s1 by simp
      show "fd_inode w1 g = Some i" using s1 Inr that spared_lookup [OF s that(1)] by auto
    qed
    ultimately show ?thesis using spared_close [OF s2 g] by (auto split: sum.splits)
  qed
qed

lemma remove_spares:
  assumes "\<And>q. under d q \<Longrightarrow> \<not> under p q"
  shows "triple (spared w0 d fd i l) (isys (sys_remove_all p)) (\<lambda>_. spared w0 d fd i l) (\<lambda>_. False)"
  unfolding triple_def
proof (intro allI impI)
  fix w assume s: "spared w0 d fd i l w"
  have m: "map_of (filter (\<lambda>(q, _). Q q) xs) q = map_of xs q" if "Q q" for Q q and xs :: "(path \<times> entry) list"
    using that by (induction xs) auto
  have k: "spared w0 d fd i l ((tick w)\<lparr>w_tree := filter (\<lambda>(q, _). \<not> under p q \<or> P q) (w_tree w)\<rparr>)" for P
    using s assms by (simp add: spared_def tick_def lookup_def m)
  show "case isys (sys_remove_all p) w of (Ret a, w') \<Rightarrow> spared w0 d fd i l w' | (Throw e, w') \<Rightarrow> False | (Crash c, w') \<Rightarrow> False"
    using k [of "survives w p"] k [of "\<lambda>_. False"]
    by (simp add: isys_def sys_remove_all_def split: option.splits)
qed

lemma entry_spares:
  assumes "l \<noteq> Unlocked" and "lookup w0 (domain @ [kept, FLOW_DATA_FILE_NAME]) = Some (FileEntry i)"
  shows "triple (spared w0 (domain @ [kept]) fd i l) (collect_entry domain name)
    (\<lambda>_. spared w0 (domain @ [kept]) fd i l) (spared w0 (domain @ [kept]) fd i l)"
proof -
  let ?S = "spared w0 (domain @ [kept]) fd i l"
  let ?p = "domain @ [name, FLOW_DATA_FILE_NAME]"
  have removal: "triple (\<lambda>w. name \<noteq> kept \<and> ?S w)
      (ibind (isys (sys_remove_all (domain @ [name]))) (\<lambda>r. iret (case r of Inl _ \<Rightarrow> False | Inr _ \<Rightarrow> True))) (\<lambda>_. ?S) ?S"
  proof (rule triple_pure)
    assume n: "name \<noteq> kept"
    have r: "triple ?S (isys (sys_remove_all (domain @ [name]))) (\<lambda>_. ?S) (\<lambda>_. False)"
      by (rule remove_spares) (use n under_entry in blast)
    show "triple ?S (ibind (isys (sys_remove_all (domain @ [name])))
        (\<lambda>r. iret (case r of Inl _ \<Rightarrow> False | Inr _ \<Rightarrow> True))) (\<lambda>_. ?S) ?S"
      by (rule triple_bind [where R = "\<lambda>_. ?S", OF triple_weaken [OF r]]) (simp_all add: triple_ret)
  qed
  have active: "triple ?S (flow_is_active ?p) (\<lambda>b w. if b then ?S w else name \<noteq> kept \<and> ?S w) ?S"
    by (rule triple_weaken [OF active_spares [OF assms(1)]])
      (use assms(2) in \<open>auto simp: under_def\<close>)
  have collect: "triple ?S (ibind (fs_exists ?p) (\<lambda>ex.
      if \<not> ex then iret False
      else ibind (flow_is_active ?p) (\<lambda>active.
        if active then iret False
        else ibind (isys (sys_remove_all (domain @ [name]))) (\<lambda>r. iret (case r of Inl _ \<Rightarrow> False | Inr _ \<Rightarrow> True)))))
      (\<lambda>_. ?S) ?S"
    by (intro triple_bind [OF status_spares(1)] triple_if triple_ret triple_bind [OF active])
      (auto intro: triple_pre [OF removal])
  show ?thesis
    unfolding collect_entry_def
    by (intro triple_bind [OF status_spares(2)] triple_if triple_ret)
      (auto simp: flow_data_path Let_def intro: collect)
qed

lemma triple_attempt:
  assumes "triple P m (\<lambda>_. Q) Q" shows "triple P (iattempt m) (\<lambda>r w. (\<forall>c. r \<noteq> Crash c) \<and> Q w) E"
  using assms unfolding triple_def iattempt_def by (fastforce split: prod.splits outcome.splits)

lemma entries_spare:
  assumes "\<And>name. triple S (collect_entry domain name) (\<lambda>_. S) S"
  shows "triple S (collect_entries domain names n) (\<lambda>_. S) S"
proof (induction names arbitrary: n)
  case Nil
  then show ?case by (simp add: triple_ret)
next
  case (Cons name names)
  show ?case
    unfolding collect_entries.simps
  proof (rule triple_bind [OF triple_attempt [OF assms]])
    fix r
    show "triple (\<lambda>w. (\<forall>c. r \<noteq> Crash c) \<and> S w)
        (case r of Ret b \<Rightarrow> collect_entries domain names (if b then Suc n else n) | Throw e \<Rightarrow> iret n | Crash c \<Rightarrow> icrash c) (\<lambda>_. S) S"
      by (rule triple_pure, cases r) (simp_all add: Cons.IH triple_ret)
  qed
qed

lemma listdir_spares:
  "triple (spared w0 d fd i l) (orthrow FilesystemError (sys_listdir p)) (\<lambda>_. spared w0 d fd i l) (spared w0 d fd i l)"
  unfolding triple_def orthrow_def sys_listdir_def syscall_def by (auto split: option.splits prod.splits sum.splits if_splits)

text \<open>
  C20: Garbage collection always returns, and a flow whose data file some descriptor holds a lock on is
  untouched by it, whatever system calls fail and whatever else the domain holds.
\<close>

theorem collection_spares_locked_flows:
  assumes "wf_world w" and "map_of (w_fds w) fd = Some (i, l)" and "l \<noteq> Unlocked"
    and "lookup w (domain @ [name, FLOW_DATA_FILE_NAME]) = Some (FileEntry i)"
  shows "\<exists>n w'. garbageCollect domain w = (Ret n, w') \<and> map_of (w_fds w') fd = Some (i, l)
    \<and> (\<forall>p. under (domain @ [name]) p \<longrightarrow> lookup w' p = lookup w p)"
proof -
  let ?S = "spared w (domain @ [name]) fd i l"
  have "fd < w_fd w"
    using assms(1) map_of_SomeD [OF assms(2)] by (force simp: wf_world_def)
  with assms(2) have start: "?S w" by (simp add: spared_def)
  have entries: "triple ?S (collect_entries domain names 0) (\<lambda>_. ?S) ?S" for names
    by (rule entries_spare) (rule entry_spares [OF assms(3,4)])
  have body: "triple ?S (ibind (fs_exists domain) (\<lambda>ex.
        ibind (if ex then fs_is_directory domain else iret False) (\<lambda>ok.
          if ok then ibind (orthrow FilesystemError (sys_listdir domain)) (\<lambda>names. collect_entries domain names 0)
          else iret 0))) (\<lambda>_. ?S) ?S"
  proof (rule triple_bind [OF status_spares(1)])
    fix ex :: bool
    have d: "triple ?S (if ex then fs_is_directory domain else iret False) (\<lambda>_. ?S) ?S"
      using status_spares(2) [of w "domain @ [name]" fd i l domain] by (cases ex) (simp_all add: triple_ret)
    show "triple ?S (ibind (if ex then fs_is_directory domain else iret False) (\<lambda>ok.
        if ok then ibind (orthrow FilesystemError (sys_listdir domain)) (\<lambda>names. collect_entries domain names 0) else iret 0))
        (\<lambda>_. ?S) ?S"
    proof (rule triple_bind [OF d])
      fix ok :: bool
      have "triple ?S (ibind (orthrow FilesystemError (sys_listdir domain)) (\<lambda>names. collect_entries domain names 0)) (\<lambda>_. ?S) ?S"
        by (rule triple_bind [OF listdir_spares]) (rule entries)
      then show "triple ?S (if ok then ibind (orthrow FilesystemError (sys_listdir domain)) (\<lambda>names. collect_entries domain names 0)
          else iret 0) (\<lambda>_. ?S) ?S"
        by (cases ok) (simp_all add: triple_ret)
    qed
  qed
  have "triple ?S (garbageCollect domain) (\<lambda>_. ?S) (\<lambda>_. False)"
    unfolding garbageCollect_def by (rule triple_catch [OF body], rule triple_ret)
  from this [unfolded triple_def, rule_format, OF start]
  have g: "case garbageCollect domain w of (Ret n, w') \<Rightarrow> ?S w' | (Throw e, w') \<Rightarrow> False | (Crash c, w') \<Rightarrow> False" .
  obtain r w' where e: "garbageCollect domain w = (r, w')" by fastforce
  with g obtain n where "r = Ret n" and "?S w'" by (cases r) simp_all
  with e show ?thesis unfolding spared_def by blast
qed

section \<open>Collection without failures\<close>

definition quiet :: "world \<Rightarrow> bool" where
  "quiet w \<longleftrightarrow> en_fail (w_env w) = (\<lambda>_. None) \<and> (\<forall>x\<in>set (w_fds w). fst x < w_fd w)"

definition unlocked :: "world \<Rightarrow> nat \<Rightarrow> bool" where
  "unlocked w i \<longleftrightarrow> (\<forall>x\<in>set (w_fds w). fst (snd x) = i \<longrightarrow> snd (snd x) = Unlocked)"

definition abandoned :: "world \<Rightarrow> path \<Rightarrow> string \<Rightarrow> bool" where
  "abandoned w domain name \<longleftrightarrow> path_extension name = FLOW_DIRECTORY_NAME_SUFFIX \<and> lookup w (domain @ [name]) = Some DirEntry
     \<and> (\<exists>i. lookup w (domain @ [name, FLOW_DATA_FILE_NAME]) = Some (FileEntry i) \<and> unlocked w i)"

text \<open>Only the tree changed; \<open>same\<close> is what a descriptor opened and closed in between leaves.\<close>

definition same :: "world \<Rightarrow> world \<Rightarrow> bool" where
  "same w w' \<longleftrightarrow> w_env w' = w_env w \<and> w_fds w' = w_fds w \<and> w_fd w \<le> w_fd w'"

lemma same_quiet: "same w w' \<Longrightarrow> quiet w \<Longrightarrow> quiet w'"
  by (auto simp: same_def quiet_def)

lemma same_refl [simp]: "same w w" by (simp add: same_def)
lemma same_trans: "same w w1 \<Longrightarrow> same w1 w2 \<Longrightarrow> same w w2" by (auto simp: same_def)
lemma same_tick [simp]: "same w (tick w') = same w w'" by (simp add: same_def tick_def)
lemma same_unlocked: "same w w' \<Longrightarrow> unlocked w' i = unlocked w i" by (simp add: same_def unlocked_def)

lemma quiet_syscall: "quiet w \<Longrightarrow> syscall f w = f (tick w)"
  by (simp add: quiet_def syscall_def)

lemma quiet_tick: "quiet (tick w) = quiet w"
  by (simp add: quiet_def tick_def)

lemma quiet_status:
  assumes "quiet w"
  shows "fs_exists p w = (Ret (lookup w p \<noteq> None), tick w)" and "fs_is_directory p w = (Ret (lookup w p = Some DirEntry), tick w)"
  using assms by (simp_all add: fs_exists_def fs_is_directory_def quiet_syscall lookup_def tick_def)

lemma quiet_active:
  assumes q: "quiet w" and l: "lookup w p = Some e"
  shows "\<exists>w'. flow_is_active p w = (Ret (\<forall>i. e = FileEntry i \<longrightarrow> \<not> unlocked w i), w') \<and> same w w' \<and> w_tree w' = w_tree w"
proof (cases e)
  case DirEntry
  with q l show ?thesis
    by (simp add: flow_is_active_def sys_open_def quiet_syscall ibind_def isys_def iret_simps)
      (simp add: quiet_def syscall_def tick_def lookup_def same_def ibind_def isys_def iret_simps)
next
  case (FileEntry i)
  define g where "g = w_fd w"
  define w1 where "w1 = (tick w)\<lparr>w_fds := (g, i, Unlocked) # w_fds w, w_fd := Suc g\<rparr>"
  have o: "sys_open p w = (Inr g, w1)"
    using q l FileEntry by (simp add: sys_open_def quiet_syscall w1_def g_def new_fd_def tick_def lookup_def)
  have n: "x \<in> set (w_fds w) \<Longrightarrow> fst x \<noteq> g" for x using q by (auto simp: quiet_def g_def)
  have q1: "quiet w1" using q by (auto simp: quiet_def w1_def g_def tick_def)
  have fi: "fd_inode w1 g = Some i" by (simp add: fd_inode_def w1_def)
  have ft: "fd_inode (tick w1) g = fd_inode w1 g" by (simp add: fd_inode_def tick_def)
  have lf: "lock_free (tick w1) g i ExclusiveLock \<longleftrightarrow> unlocked w i"
    using n by (fastforce simp: lock_free_def list_all_iff unlocked_def w1_def tick_def)
  have k: "sys_flock g ExclusiveLock w1 = (if unlocked w i then (Inr (), set_lock g ExclusiveLock (tick w1))
      else (Inl EWOULDBLOCK, set_lock g Unlocked (tick w1)))"
    by (simp add: sys_flock_def quiet_syscall [OF q1] ft fi lf)
  have m: "map (\<lambda>(fd', i, l'). (fd', i, if fd' = g then m else l')) (w_fds w) = w_fds w" for m
    by (rule map_idI) (use n in fastforce)
  have f: "filter (\<lambda>(fd', _). fd' \<noteq> g) (w_fds w) = w_fds w"
    by (rule filter_True) (use n in fastforce)
  have c: "\<exists>w'. sys_close g (set_lock g m (tick w1)) = (Ret (), w') \<and> same w w' \<and> w_tree w' = w_tree w" for m
    by (simp add: sys_close_def set_lock_def same_def tick_def w1_def m f flip: g_def)
  show ?thesis
    using c [of ExclusiveLock] c [of Unlocked] FileEntry
    by (auto simp: flow_is_active_def ibind_def isys_def iret_simps o k)
qed

lemma quiet_entry:
  assumes q: "quiet w"
  shows "\<exists>w'. collect_entry domain name w = (Ret (abandoned w domain name), w') \<and> same w w'
    \<and> w_tree w' = (if abandoned w domain name then filter (\<lambda>(p, _). \<not> under (domain @ [name]) p) (w_tree w) else w_tree w)"
proof (cases "lookup w (domain @ [name]) = Some DirEntry \<and> path_extension name = FLOW_DIRECTORY_NAME_SUFFIX")
  case False
  then show ?thesis
    by (auto simp: collect_entry_def ibind_def quiet_status [OF q] iret_simps abandoned_def tick_def same_def)
next
  case True
  let ?p = "domain @ [name, FLOW_DATA_FILE_NAME]"
  have q1: "quiet (tick w)" by (rule same_quiet [OF _ q]) simp
  have q2: "quiet (tick (tick w))" by (rule same_quiet [OF _ q]) simp
  have t: "lookup (tick w) p = lookup w p" "w_tree (tick w) = w_tree w" "unlocked (tick w) i = unlocked w i" for w p i
    by (simp_all add: lookup_def tick_def unlocked_def)
  show ?thesis
  proof (cases "lookup w ?p")
    case None
    with True show ?thesis
      by (simp add: collect_entry_def ibind_def quiet_status [OF q] quiet_status [OF q1] iret_simps flow_data_path t abandoned_def Let_def)
  next
    case (Some e)
    then have "lookup (tick (tick w)) ?p = Some e" by (simp add: t)
    from quiet_active [OF q2 this] obtain w3 where
      a: "flow_is_active ?p (tick (tick w)) = (Ret (\<forall>i. e = FileEntry i \<longrightarrow> \<not> unlocked w i), w3)"
      and s3: "same w w3" and t3: "w_tree w3 = w_tree w"
      by (auto simp: t same_def tick_def unlocked_def)
    have ab: "abandoned w domain name \<longleftrightarrow> (\<exists>i. e = FileEntry i \<and> unlocked w i)"
      using True Some by (auto simp: abandoned_def)
    have "sys_remove_all (domain @ [name]) w3 = (Inr (length (filter (\<lambda>(q, _). under (domain @ [name]) q) (w_tree w))),
        (tick w3)\<lparr>w_tree := filter (\<lambda>(q, _). \<not> under (domain @ [name]) q) (w_tree w)\<rparr>)"
      using same_quiet [OF s3 q] t3 by (simp add: sys_remove_all_def quiet_def)
    with True Some a s3 t3 ab show ?thesis
      by (auto simp: collect_entry_def ibind_def quiet_status [OF q] quiet_status [OF q1] iret_simps flow_data_path t isys_def Let_def)
        (simp_all add: same_def tick_def)
  qed
qed


lemma lookup_filtered:
  assumes "w_tree w' = filter (\<lambda>(p, _). Q p) (w_tree w)" shows "lookup w' p = (if Q p then lookup w p else None)"
proof -
  have "map_of (filter (\<lambda>(p, _). Q p) xs) p = (if Q p then map_of xs p else None)" for xs :: "(path \<times> entry) list"
    by (induction xs) auto
  with assms show ?thesis by (simp add: lookup_def)
qed

definition collected :: "world \<Rightarrow> path \<Rightarrow> string set \<Rightarrow> path \<Rightarrow> bool" where
  "collected w domain names p \<longleftrightarrow> (\<exists>name\<in>names. abandoned w domain name \<and> under (domain @ [name]) p)"

lemma entry_lookup:
  assumes "w_tree w' = (if abandoned w domain name then filter (\<lambda>(p, _). \<not> under (domain @ [name]) p) (w_tree w) else w_tree w)"
  shows "lookup w' p = (if collected w domain {name} p then None else lookup w p)"
  using assms lookup_filtered [of w' "\<lambda>p. \<not> under (domain @ [name]) p" w p]
  by (auto simp: collected_def lookup_def)

lemma abandoned_after:
  assumes l: "\<And>p. lookup w' p = (if collected w domain {name} p then None else lookup w p)" and s: "same w w'"
  shows "collected w domain {name} p \<or> collected w' domain names p \<longleftrightarrow> collected w domain (insert name names) p"
proof -
  have "abandoned w' domain n \<longleftrightarrow> abandoned w domain n \<and> \<not> (n = name \<and> abandoned w domain name)" for n
    unfolding abandoned_def [of w'] l
    by (auto simp: collected_def abandoned_def same_unlocked [OF s] under_def)
  then show ?thesis by (auto simp: collected_def)
qed

lemma quiet_entries:
  "quiet w \<Longrightarrow> \<exists>k w'. collect_entries domain names n w = (Ret k, w') \<and> same w w'
     \<and> (\<forall>p. lookup w' p = (if collected w domain (set names) p then None else lookup w p))"
proof (induction names arbitrary: n w)
  case Nil
  then show ?case by (simp add: iret_simps collected_def)
next
  case (Cons name names)
  from quiet_entry [OF Cons.prems, of domain name] obtain w1
    where e: "collect_entry domain name w = (Ret (abandoned w domain name), w1)" and s: "same w w1"
      and t: "w_tree w1 = (if abandoned w domain name then filter (\<lambda>(p, _). \<not> under (domain @ [name]) p) (w_tree w) else w_tree w)"
    by blast
  note l = entry_lookup [OF t]
  from Cons.IH [OF same_quiet [OF s Cons.prems], of "if abandoned w domain name then Suc n else n"] obtain k w2
    where c: "collect_entries domain names (if abandoned w domain name then Suc n else n) w1 = (Ret k, w2)" and s2: "same w1 w2"
      and l2: "\<And>p. lookup w2 p = (if collected w1 domain (set names) p then None else lookup w1 p)"
    by blast
  have "collect_entries domain (name # names) n w = (Ret k, w2)"
    using c by (simp add: ibind_def iattempt_def e)
  moreover have "lookup w2 p = (if collected w domain (set (name # names)) p then None else lookup w p)" for p
    using abandoned_after [OF l s, where names = "set names" and p = p] by (auto simp: l2 l)
  ultimately show ?case using same_trans [OF s s2] by blast
qed

lemma quiet_listing:
  assumes "quiet w" and "lookup w domain = Some DirEntry"
  shows "\<exists>names. sys_listdir domain w = (Inr names, tick w) \<and> (\<forall>name. lookup w (domain @ [name]) \<noteq> None \<longrightarrow> name \<in> set names)"
proof -
  let ?names = "map (last o fst) (filter (\<lambda>(q, _). q \<noteq> [] \<and> butlast q = domain) (w_tree w))"
  have "sys_listdir domain w = (Inr ?names, tick w)"
    using assms by (simp add: sys_listdir_def quiet_syscall lookup_def tick_def)
  moreover have "name \<in> set ?names" if "lookup w (domain @ [name]) \<noteq> None" for name
  proof -
    from that obtain e where "(domain @ [name], e) \<in> set (w_tree w)" by (auto simp: lookup_def dest: map_of_SomeD)
    then show ?thesis by (force simp: image_iff)
  qed
  ultimately show ?thesis by blast
qed

lemma collection_removes:
  assumes "quiet w" and "lookup w domain = Some DirEntry"
  shows "\<exists>n w'. garbageCollect domain w = (Ret n, w') \<and> w_fds w' = w_fds w
    \<and> (\<forall>p. lookup w' p = (if \<exists>name. abandoned w domain name \<and> under (domain @ [name]) p then None else lookup w p))"
proof -
  let ?w1 = "tick (tick w)"
  have q: "quiet (tick w)" "quiet ?w1" "quiet (tick ?w1)" using assms(1) by (simp_all add: quiet_tick)
  have t: "lookup (tick w) p = lookup w p" for w p by (simp add: lookup_def tick_def)
  have u: "unlocked (tick w) i = unlocked w i" for w i by (simp add: unlocked_def tick_def)
  from quiet_listing [OF q(2), of domain] assms(2) obtain names
    where l: "sys_listdir domain ?w1 = (Inr names, tick ?w1)" and n: "\<And>name. lookup w (domain @ [name]) \<noteq> None \<Longrightarrow> name \<in> set names"
    by (auto simp: t)
  from quiet_entries [OF q(3), of domain names 0] obtain k w2
    where c: "collect_entries domain names 0 (tick ?w1) = (Ret k, w2)" and s: "same (tick ?w1) w2"
      and p: "\<And>p. lookup w2 p = (if collected (tick ?w1) domain (set names) p then None else lookup (tick ?w1) p)"
    by blast
  have "garbageCollect domain w = (Ret k, w2)"
    using assms(2) l c
    by (simp add: garbageCollect_def icatch_def ibind_def quiet_status [OF assms(1)] quiet_status [OF q(1)] orthrow_def t)
  moreover have "collected (tick ?w1) domain (set names) p \<longleftrightarrow> (\<exists>name. abandoned w domain name \<and> under (domain @ [name]) p)" for p
  proof -
    have "abandoned (tick ?w1) domain name = abandoned w domain name" for name by (simp add: abandoned_def t u)
    moreover have "abandoned w domain name \<Longrightarrow> name \<in> set names" for name using n by (auto simp: abandoned_def)
    ultimately show ?thesis by (auto simp: collected_def)
  qed
  moreover have "lookup (tick ?w1) p = lookup w p" for p by (simp add: t)
  moreover have "w_fds w2 = w_fds w" using s by (simp add: same_def tick_def)
  ultimately show ?thesis using p by auto
qed

text \<open>
  When no system call fails, garbage collection removes exactly the flow directories whose data file
  nobody holds a lock on, each with everything below it; the descriptors of readers, which hold no
  lock, do not matter.
\<close>

theorem collection_removes_unlocked_flows:
  assumes "quiet w" and "lookup w domain = Some DirEntry"
  shows "\<exists>n w'. garbageCollect domain w = (Ret n, w') \<and> w_fds w' = w_fds w
    \<and> (\<forall>p. lookup w' p = (if \<exists>name. abandoned w domain name \<and> under (domain @ [name]) p then None else lookup w p))"
  using assms by (rule collection_removes)

section \<open>Runs\<close>

theorem collection_spares_locked_flows_witness:
  "\<exists>n w'. garbageCollect [''domain''] (ex_flow_world\<lparr>w_fds := [(3, 3, SharedLock)]\<rparr>) = (Ret n, w')
     \<and> lookup w' [''domain'', ''u.mxl-flow'', ''grains''] = Some DirEntry"
proof -
  let ?w = "ex_flow_world\<lparr>w_fds := [(3, 3, SharedLock)]\<rparr>"
  have wf: "wf_world ?w" by (simp add: wf_world_def lookup_def ex_flow_world_def)
  have l: "lookup ?w ([''domain''] @ [''u.mxl-flow'', FLOW_DATA_FILE_NAME]) = Some (FileEntry 3)"
    and g: "lookup ?w [''domain'', ''u.mxl-flow'', ''grains''] = Some DirEntry"
    by (simp_all add: lookup_def ex_flow_world_def path_names)
  obtain n w' where r: "garbageCollect [''domain''] ?w = (Ret n, w')"
    and k: "\<And>p. under ([''domain''] @ [''u.mxl-flow'']) p \<Longrightarrow> lookup w' p = lookup ?w p"
    using collection_spares_locked_flows [OF wf _ _ l, of 3 SharedLock] by auto
  have "lookup w' [''domain'', ''u.mxl-flow'', ''grains''] = Some DirEntry"
    using k [of "[''domain'', ''u.mxl-flow'', ''grains'']"] g by (simp add: under_def)
  with r show ?thesis by blast
qed

theorem collection_removes_unlocked_flows_witness:
  "\<exists>n w'. garbageCollect [''domain''] (snd (getFlowReader ex_store ex_instance ''u'' ex_flow_world)) = (Ret n, w')
     \<and> lookup w' [''domain'', ''u.mxl-flow'', ''data''] = None \<and> length (w_fds w') = 4"
proof -
  let ?w = "snd (getFlowReader ex_store ex_instance ''u'' ex_flow_world)"
  have tree: "w_tree ?w = w_tree ex_flow_world" and fds: "w_fds ?w = [(9, 2, Unlocked), (8, 5, Unlocked), (7, 4, Unlocked), (6, 3, Unlocked)]"
    and fd: "w_fd ?w = 10"
    by code_simp+
  obtain H where "observed ex_flow_world H ?w"
    using first_get_observed [OF ex_flow_world_wf ex_id_parsed ex_no_reader ex_first_run] by blast
  then have env: "w_env ?w = ex_os" by (simp add: observed_def since_def ex_flow_world_def)
  have q: "quiet ?w" unfolding quiet_def env fds fd by (simp add: ex_os_def)
  have l: "lookup ?w p = lookup ex_flow_world p" for p by (simp add: lookup_def tree)
  have d: "lookup ?w [''domain''] = Some DirEntry" unfolding l by (simp add: lookup_def ex_flow_world_def)
  have "abandoned ?w [''domain''] ''u.mxl-flow''"
    unfolding abandoned_def l unlocked_def fds by (simp add: lookup_def ex_flow_world_def path_names path_extension_def Let_def)
  moreover have "under ([''domain''] @ [''u.mxl-flow'']) [''domain'', ''u.mxl-flow'', ''data'']" by (simp add: under_def)
  ultimately have a: "\<exists>name. abandoned ?w [''domain''] name \<and> under ([''domain''] @ [name]) [''domain'', ''u.mxl-flow'', ''data'']" by blast
  from collection_removes_unlocked_flows [OF q d] obtain n w' where "garbageCollect [''domain''] ?w = (Ret n, w')"
    and "w_fds w' = w_fds ?w" and "\<And>p. lookup w' p = (if \<exists>name. abandoned ?w [''domain''] name \<and> under ([''domain''] @ [name]) p then None else lookup ?w p)"
    by blast
  with a show ?thesis by (intro exI [of _ n] exI [of _ w']) (simp add: fds)
qed

end
