(* ===== verification/WriterRelease.thy ===== *)
theory WriterRelease
  imports Collection
begin

text \<open>
  The release of a writer (\<open>Instance::releaseWriter\<close>): the flow goes with its last writer, and not
  before.
\<close>

section \<open>What the end of a writer cannot change\<close>

definition segment_fds :: "SharedMemoryBase list \<Rightarrow> nat set" where
  "segment_fds ss = \<Union> (set_option ` shm_fd ` set ss)"

definition mapped_fds :: "DomainWatcher \<Rightarrow> nat set" where
  "mapped_fds wt = segment_fds (map (wr_flowData \<circ> snd) (wt_watches wt))"

text \<open>
  An assertion that counting system calls keeps, and locking, unlocking and closing a descriptor
  outside \<open>G\<close>. The destruction of a writer keeps it.
\<close>

locale lock_frame =
  fixes S :: "world \<Rightarrow> bool" and G :: "nat set"
  assumes frame_tick: "S (tick w) = S w"
    and frame_flock: "S w \<Longrightarrow> g \<notin> G \<Longrightarrow> sys_flock g k w = (r, w') \<Longrightarrow> S w'"
    and frame_close: "S w \<Longrightarrow> g \<notin> G \<Longrightarrow> S (snd (sys_close g w))"
begin

lemma isys_keeps:
  assumes "\<And>w r w'. S w \<Longrightarrow> f w = (r, w') \<Longrightarrow> S w'"
  shows "triple S (isys f) (\<lambda>_. S) E"
  using assms unfolding triple_def isys_def by (fastforce split: prod.splits)

lemma close_keeps:
  assumes "g \<notin> G"
  shows "triple S (close_fd g) (\<lambda>_. S) E"
  unfolding close_fd_def
proof (rule triple_bind [OF isys_keeps])
  show "S w'" if "S w" "sys_flock g Unlocked w = (r, w')" for w r w'
    using frame_flock [OF that(1) assms that(2)] .
  show "triple S (sys_close g) (\<lambda>_. S) E"
    using frame_close [OF _ assms] by (simp add: triple_def sys_close_def)
qed

lemma destroy_keeps:
  assumes "set_option (shm_fd s) \<inter> G = {}"
  shows "triple S (SharedMemory_destroy s) (\<lambda>_. S) E"
  using assms close_keeps by (cases "shm_fd s") (simp_all add: SharedMemory_destroy_def triple_ret)

lemma destroy_all_keeps:
  "segment_fds ss \<inter> G = {} \<Longrightarrow> triple S (destroy_all ss) (\<lambda>_. S) E"
proof (induction ss)
  case (Cons s ss)
  then show ?case by (auto simp: segment_fds_def Int_Un_distrib2 intro!: triple_bind [OF destroy_keeps])
qed (simp add: triple_ret)

lemma status_keeps: "triple S (fs_exists p) (\<lambda>_. S) S"
  unfolding triple_def fs_exists_def syscall_def by (auto simp: frame_tick split: option.splits)

lemma rm_watch_keeps: "S w \<Longrightarrow> sys_inotify_rm_watch wd ino w = (r, w') \<Longrightarrow> S w'"
  by (auto simp: sys_inotify_rm_watch_def syscall_def Let_def frame_tick split: option.splits if_splits)

lemma removeFlow_keeps:
  assumes "mapped_fds wt \<inter> G = {}"
  shows "triple S (removeFlow sv domain wt fw u) (\<lambda>_. S) E"
proof (cases "find (\<lambda>x. same_record u fw (snd x)) (wt_watches wt)")
  case None
  then show ?thesis by (simp add: removeFlow_def triple_ret)
next
  case (Some x)
  obtain wd r where x: "x = (wd, r)" by fastforce
  have "(wd, r) \<in> set (wt_watches wt)" using find_SomeD [OF Some] x by simp
  then have "set_option (shm_fd (wr_flowData r)) \<subseteq> mapped_fds wt" by (force simp: mapped_fds_def segment_fds_def)
  with assms have s: "set_option (shm_fd (wr_flowData r)) \<inter> G = {}" by blast
  have ex: "triple S (ibind (iattempt (fs_exists p)) (\<lambda>ex. iret (obind ex (\<lambda>_. Ret ()), wt1))) (\<lambda>_. S) E"
    for p and wt1 :: DomainWatcher
    by (rule triple_bind [OF triple_attempt [OF status_keeps]], rule triple_ret, blast)
  have k: "triple S
      (ibind (isys (sys_inotify_rm_watch wd (wt_inotify wt1))) (\<lambda>rm. case rm of
          Inr ino \<Rightarrow> iret (Ret (), wt1\<lparr>wt_inotify := ino\<rparr>)
        | Inl e \<Rightarrow> if e = EINVAL then ibind (iattempt (fs_exists p)) (\<lambda>ex. iret (obind ex (\<lambda>_. Ret ()), wt1)) else iret (Ret (), wt1)))
      (\<lambda>_. S) E" for p and wt1 :: DomainWatcher
  proof (rule triple_bind [OF isys_keeps [OF rm_watch_keeps]])
    fix rm :: "nat + inotify"
    show "triple S (case rm of
          Inr ino \<Rightarrow> iret (Ret (), wt1\<lparr>wt_inotify := ino\<rparr>)
        | Inl e \<Rightarrow> if e = EINVAL then ibind (iattempt (fs_exists p)) (\<lambda>ex. iret (obind ex (\<lambda>_. Ret ()), wt1)) else iret (Ret (), wt1))
      (\<lambda>_. S) E"
      using ex by (cases rm) (simp_all add: triple_ret)
  qed
  show ?thesis
    unfolding removeFlow_def Some x option.case prod.case Let_def
    by (rule triple_bind [OF destroy_keeps [OF s]], rule triple_if, rule triple_ret, assumption, rule k)
qed

lemma destroy_writer_keeps:
  assumes "shm_data (flow_segment (wo_data wo)) = Some j" and "segment_fds (segments (wo_data wo)) \<inter> G = {}" and "mapped_fds wt \<inter> G = {}"
  shows "triple S (FlowWriter_destroy sv domain wt wo) (\<lambda>_. S) E"
proof -
  have g: "triple S (get_flow (flow_segment (wo_data wo))) (\<lambda>_. S) E"
    using assms(1) by (simp add: triple_def get_flow_def)
  have a: "triple S (ibind (get_flow (flow_segment (wo_data wo))) (\<lambda>fl.
      ibind (removeFlow sv domain wt (wo_address wo) (cfg_id (common (config (flow_info fl))))) (\<lambda>(_, wt'). iret wt'))) (\<lambda>_. S) E"
  proof (rule triple_bind [OF g], rule triple_bind [OF removeFlow_keeps [OF assms(3)]])
    fix x :: "unit outcome \<times> DomainWatcher"
    show "triple S (case x of (_, wt') \<Rightarrow> iret wt') (\<lambda>_. S) E" by (cases x) (simp add: triple_ret)
  qed
  have b: "triple S (ibind (FlowData_destroy (wo_data wo)) (\<lambda>_. iret wt')) (\<lambda>_. S) E" for wt' :: DomainWatcher
    unfolding FlowData_destroy_def
    by (rule triple_bind [OF destroy_all_keeps [OF assms(2)]]) (simp add: triple_ret)
  show ?thesis
    unfolding FlowWriter_destroy_def
    by (rule triple_bind [OF _ b]) (cases "wo_discrete wo", simp_all add: triple_ret a)
qed

end

text \<open>A lock somebody else holds, with the paths below a directory; and the tree of paths.\<close>

interpretation spared_frame: lock_frame "spared w0 d fd i l" "{fd}" for w0 d fd i l
proof unfold_locales
  show "spared w0 d fd i l w'" if "spared w0 d fd i l w" "g \<notin> {fd}" "sys_flock g k w = (r, w')" for w g k r w'
    using spared_flock [of w0 d fd i l w g k r w'] that by simp
  show "spared w0 d fd i l (snd (sys_close g w))" if "spared w0 d fd i l w" "g \<notin> {fd}" for w g
    using spared_close [of w0 d fd i l w g] that by simp
qed simp

interpretation tree_frame: lock_frame "\<lambda>w. w_tree w = T" "{}" for T
proof unfold_locales
  show "w_tree w' = T" if "w_tree w = T" "sys_flock g k w = (r, w')" for w g k r w'
    using that by (auto simp: sys_flock_def syscall_def tick_def set_lock_def split: option.splits if_splits)
qed (simp_all add: tick_def sys_close_def)

section \<open>Flows others still write\<close>

definition writer_fds :: "writer_object \<Rightarrow> nat set" where
  "writer_fds wo = segment_fds (segments (wo_data wo))"

text \<open>Another descriptor \<open>fd\<close> holds a lock on the data file the writer has open.\<close>

definition shares_flow :: "world \<Rightarrow> writer_object \<Rightarrow> nat \<Rightarrow> bool" where
  "shares_flow w wo fd \<longleftrightarrow>
     (\<exists>g i j l. shm_fd (flow_segment (wo_data wo)) = Some g \<and> fd_inode w g = Some i \<and> shm_data (flow_segment (wo_data wo)) = Some j
        \<and> map_of (w_fds w) fd = Some (i, l) \<and> l \<noteq> Unlocked \<and> fd \<notin> writer_fds wo \<and> \<not> FlowWriter_isExclusive wo)"

lemma segment_in: "flow_segment data \<in> set (segments data)"
  by (cases data) (simp_all add: segments_def)

lemma claim_refused:
  assumes "shares_flow w wo fd" and "fd < w_fd w"
  obtains l i r w' where "claim_exclusive wo w = (r, w')" and "l \<noteq> Unlocked" and "map_of (w_fds w) fd = Some (i, l)"
    and "spared w [] fd i l w'" and "r = Ret (False, wo) \<or> (\<exists>e. r = Throw e)"
proof -
  from assms(1) obtain g i j l where g: "shm_fd (flow_segment (wo_data wo)) = Some g" and gi: "fd_inode w g = Some i"
    and l: "map_of (w_fds w) fd = Some (i, l)" "l \<noteq> Unlocked" and f: "fd \<notin> writer_fds wo" and x: "\<not> FlowWriter_isExclusive wo"
    by (auto simp: shares_flow_def)
  have gf: "g \<noteq> fd" using f g segment_in [of "wo_data wo"] by (force simp: writer_fds_def segment_fds_def)
  have s: "spared w [] fd i l w" using l assms(2) by (simp add: spared_def)
  obtain k w' where k: "sys_flock g ExclusiveLock w = (k, w')" by fastforce
  with flock_refused [OF s gf gi l(2)] obtain e where e: "k = Inl e" by blast
  have d: "wo\<lparr>wo_data := D\<rparr> = wo" if "wo_data wo = D" for D using that by (cases wo) simp
  have "claim_exclusive wo w = (if e = EWOULDBLOCK then Ret (False, wo) else if e = EBADF then Throw RuntimeError else Throw (SystemError e), w')"
    using x k e g
    by (cases "wo_data wo") (simp_all add: d claim_exclusive_def FlowWriter_makeExclusive_def FlowData_makeExclusive_def makeExclusive_def FlowWriter_isExclusive_def
        FlowData_isExclusive_def isExclusive_def ibind_def isys_def flock_handle_def iret_simps)
  with that [OF this l(2,1) spared_flock [OF s gf k]] show ?thesis by (simp split: if_splits)
qed

text \<open>
  C21: As long as another descriptor, of this process or another, holds a lock on the data file of a flow,
  the release of a writer removes nothing: every path of the file system stays what it was and the
  other lock stays held, whatever system calls fail.
\<close>

theorem release_spares_flows_in_use:
  assumes "wf_world w" and "find_writer inst a = Some wo" and "map_of (inst_writers inst) (wo_id wo) = Some v" and "rc_ptr v = wo"
    and "shares_flow w wo fd" and "fd \<notin> mapped_fds (inst_watcher inst)"
  shows "\<exists>res inst' w'. releaseWriter sv inst (Some a) w = (Ret (res, inst'), w') \<and> lookup w' = lookup w
    \<and> map_of (w_fds w') fd = map_of (w_fds w) fd"
proof -
  from assms(5) obtain i j l where m: "map_of (w_fds w) fd = Some (i, l)" and j: "shm_data (flow_segment (wo_data wo)) = Some j"
    and f: "fd \<notin> writer_fds wo" by (auto simp: shares_flow_def)
  have fd: "fd < w_fd w" using assms(1) map_of_SomeD [OF m] by (force simp: wf_world_def)
  have p: "rc_ptr (snd (releaseReference v)) = wo" using assms(4) by (simp add: releaseReference_def Let_def)
  have kept: "lookup w' = lookup w \<and> map_of (w_fds w') fd = map_of (w_fds w) fd" if "spared w [] fd i l w'" for w'
    using that m by (auto simp: spared_def under_def)
  show ?thesis
  proof (cases "fst (releaseReference v)")
    case False
    with assms(2,3) show ?thesis by (simp add: releaseWriter_def case_prod_unfold Let_def iret_simps)
  next
    case True
    obtain l' i' r w1 where c: "claim_exclusive wo w = (r, w1)" and "map_of (w_fds w) fd = Some (i', l')" and "spared w [] fd i' l' w1"
      and r: "r = Ret (False, wo) \<or> (\<exists>e. r = Throw e)" using claim_refused [OF assms(5) fd] by metis
    with m have s: "spared w [] fd i l w1" by simp
    show ?thesis
    proof (cases "\<exists>e. r = Throw e")
      case thrown: True
      with assms(2,3) True p c kept [OF s] show ?thesis
        by (auto simp: releaseWriter_def case_prod_unfold Let_def iret_simps ibind_def iattempt_def)
    next
      case False
      with r have r: "r = Ret (False, wo)" by blast
      obtain q w2 where q: "FlowWriter_destroy sv (inst_domain inst) (inst_watcher inst) wo w1 = (q, w2)" by fastforce
      have "case FlowWriter_destroy sv (inst_domain inst) (inst_watcher inst) wo w1 of
          (Ret wt, w') \<Rightarrow> spared w [] fd i l w' | (Throw e, w') \<Rightarrow> False | (Crash c, w') \<Rightarrow> False"
        using spared_frame.destroy_writer_keeps [OF j, of fd "inst_watcher inst" w "[]" i l sv "inst_domain inst" "\<lambda>_. False"] s f assms(6)
        unfolding triple_def writer_fds_def by simp
      with q obtain wt where "q = Ret wt" and s2: "spared w [] fd i l w2" by (cases q) auto
      with assms(2,3) True p c r q kept [OF s2] show ?thesis
        by (simp add: releaseWriter_def case_prod_unfold Let_def iret_simps ibind_def iattempt_def)
    qed
  qed
qed

section \<open>The last writer\<close>

lemma claim_granted:
  assumes "quiet w" and "shm_fd (flow_segment (wo_data wo)) = Some g" and "fd_inode w g = Some i"
    and "\<And>x. x \<in> set (w_fds w) \<Longrightarrow> fst (snd x) = i \<Longrightarrow> fst x = g \<or> snd (snd x) = Unlocked"
  obtains wo' w' where "claim_exclusive wo w = (Ret (True, wo'), w')" and "quiet w'" and "w_tree w' = w_tree w"
    and "shm_data (flow_segment (wo_data wo')) = shm_data (flow_segment (wo_data wo))"
proof (cases "FlowWriter_isExclusive wo")
  case True
  with assms(1) that [of wo w] show ?thesis by (simp add: claim_exclusive_def iret_simps)
next
  case False
  have fd: "fd_inode (tick w) g = Some i" using assms(3) by (simp add: fd_inode_def tick_def)
  have "lock_free (tick w) g i ExclusiveLock"
    using assms(4) by (force simp: lock_free_def list_all_iff tick_def)
  then have k: "sys_flock g ExclusiveLock w = (Inr (), set_lock g ExclusiveLock (tick w))"
    using fd by (simp add: sys_flock_def quiet_syscall [OF assms(1)])
  have q: "quiet (set_lock g ExclusiveLock (tick w))" and t: "w_tree (set_lock g ExclusiveLock (tick w)) = w_tree w"
    using assms(1) by (auto simp: quiet_def set_lock_def tick_def)
  show ?thesis
    using False k assms(2) that [OF _ q t]
    by (cases "wo_data wo")
      (simp_all add: claim_exclusive_def FlowWriter_makeExclusive_def FlowData_makeExclusive_def makeExclusive_def FlowWriter_isExclusive_def
        FlowData_isExclusive_def isExclusive_def ibind_def isys_def flock_handle_def iret_simps)
qed

text \<open>
  C22: When no system call fails and nobody else holds a lock on the data file, the release of the last
  reference to the writer removes the writer from the instance and the flow's directory with
  everything in it from the file system, and nothing else.
\<close>

theorem last_release_removes_flow:
  assumes "quiet w" and "find_writer inst a = Some wo" and "map_of (inst_writers inst) (wo_id wo) = Some v" and "rc_ptr v = wo"
    and "fst (releaseReference v)" and "shm_fd (flow_segment (wo_data wo)) = Some g" and "fd_inode w g = Some i"
    and "shm_data (flow_segment (wo_data wo)) = Some j"
    and "\<And>x. x \<in> set (w_fds w) \<Longrightarrow> fst (snd x) = i \<Longrightarrow> fst x = g \<or> snd (snd x) = Unlocked"
  shows "\<exists>inst' w'. releaseWriter sv inst (Some a) w = (Ret (Ret (), inst'), w') \<and> map_of (inst_writers inst') (wo_id wo) = None
    \<and> (\<forall>p. lookup w' p =
        (if under (makeFlowDirectoryName (inst_domain inst) (sv_uuid_to_string sv (wo_id wo))) p then None else lookup w p))"
proof -
  let ?dir = "makeFlowDirectoryName (inst_domain inst) (sv_uuid_to_string sv (wo_id wo))"
  let ?T = "filter (\<lambda>(q, _). \<not> under ?dir q) (w_tree w)"
  have p: "rc_ptr (snd (releaseReference v)) = wo" using assms(4) by (simp add: releaseReference_def Let_def)
  obtain wo' w1 where c: "claim_exclusive wo w = (Ret (True, wo'), w1)" and q: "quiet w1" and t: "w_tree w1 = w_tree w"
    and d: "shm_data (flow_segment (wo_data wo')) = Some j"
    using claim_granted [OF assms(1,6,7,9)] assms(8) by metis
  have del: "deleteFlow sv (inst_domain inst) (wo_id wo) w1 =
      (Ret (length (filter (\<lambda>(q, _). under ?dir q) (w_tree w)) \<noteq> 0), (tick w1)\<lparr>w_tree := ?T\<rparr>)"
    using q t by (simp add: deleteFlow_def icatch_def ibind_def orthrow_def sys_remove_all_def quiet_def iret_simps)
  obtain r w2 where r: "FlowWriter_destroy sv (inst_domain inst) (inst_watcher inst) wo' ((tick w1)\<lparr>w_tree := ?T\<rparr>) = (r, w2)" by fastforce
  have D: "triple (\<lambda>w. w_tree w = ?T) (FlowWriter_destroy sv (inst_domain inst) (inst_watcher inst) wo') (\<lambda>_ w. w_tree w = ?T) (\<lambda>_. False)"
    by (rule tree_frame.destroy_writer_keeps [OF d]) simp_all
  have "case FlowWriter_destroy sv (inst_domain inst) (inst_watcher inst) wo' ((tick w1)\<lparr>w_tree := ?T\<rparr>) of
      (Ret wt, w') \<Rightarrow> w_tree w' = ?T | (Throw e, w') \<Rightarrow> False | (Crash c, w') \<Rightarrow> False"
    by (rule D [unfolded triple_def, rule_format]) simp
  with r obtain wt where wt: "r = Ret wt" and t2: "w_tree w2 = ?T"
    by (cases r) simp_all
  have "releaseWriter sv inst (Some a) w =
      (Ret (Ret (), inst\<lparr>inst_writers := remove_key (wo_id wo) (inst_writers inst), inst_watcher := wt\<rparr>), w2)"
    using assms(2,3,5) p c del r wt
    by (simp add: releaseWriter_def case_prod_unfold Let_def iret_simps ibind_def iattempt_def)
  with lookup_filtered [OF t2] show ?thesis by simp
qed

section \<open>Runs\<close>

text \<open>A writer of the stored flow, with its three descriptors, and the instance that has it.\<close>

definition ex_writer_object :: writer_object where
  "ex_writer_object = \<lparr>wo_address = 0, wo_id = ex_id,
     wo_data = DiscreteData
       \<lparr>shm_fd = Some 3, shm_mode = READ_WRITE, shm_data = Some 3, shm_mappedSize = 2064, shm_lockType = HoldsShared\<rparr>
       [\<lparr>shm_fd = Some 4, shm_mode = READ_WRITE, shm_data = Some 4, shm_mappedSize = 13312, shm_lockType = HoldsShared\<rparr>,
        \<lparr>shm_fd = Some 5, shm_mode = READ_WRITE, shm_data = Some 5, shm_mappedSize = 13312, shm_lockType = HoldsShared\<rparr>],
     wo_discrete = Some new_discrete_writer, wo_continuous = None\<rparr>"

definition ex_writer_fds :: "(nat \<times> nat \<times> lock_state) list" where
  "ex_writer_fds = [(5, 5, SharedLock), (4, 4, SharedLock), (3, 3, SharedLock)]"

definition ex_with_writer :: Instance where
  "ex_with_writer = ex_instance\<lparr>inst_writers := [(ex_id, RefCounted_new ex_writer_object)]\<rparr>"

lemma ex_writer_found:
  "find_writer ex_with_writer 0 = Some ex_writer_object"
  "map_of (inst_writers ex_with_writer) (wo_id ex_writer_object) = Some (RefCounted_new ex_writer_object)"
  by (simp_all add: find_writer_def ex_with_writer_def ex_writer_object_def RefCounted_new_def)

lemma ex_no_watches: "mapped_fds (inst_watcher ex_with_writer) = {}"
proof -
  have "wt_watches ex_watcher = []" by code_simp
  then show ?thesis by (simp add: mapped_fds_def segment_fds_def ex_with_writer_def ex_instance_def)
qed

theorem release_spares_flows_in_use_witness:
  "\<exists>res inst' w'. releaseWriter ex_store ex_with_writer (Some 0) (ex_flow_world\<lparr>w_fds := (2, 3, SharedLock) # ex_writer_fds\<rparr>)
       = (Ret (res, inst'), w') \<and> lookup w' [''domain'', ''u.mxl-flow'', ''data''] = Some (FileEntry 3)"
proof -
  let ?w = "ex_flow_world\<lparr>w_fds := (2, 3, SharedLock) # ex_writer_fds\<rparr>"
  have wf: "wf_world ?w" by (simp add: wf_world_def lookup_def ex_flow_world_def ex_writer_fds_def)
  have s: "shares_flow ?w ex_writer_object 2"
    by (simp add: shares_flow_def ex_writer_object_def fd_inode_def ex_writer_fds_def writer_fds_def segment_fds_def segments_def
        FlowWriter_isExclusive_def FlowData_isExclusive_def isExclusive_def)
  have l: "lookup ?w [''domain'', ''u.mxl-flow'', ''data''] = Some (FileEntry 3)" by (simp add: lookup_def ex_flow_world_def)
  obtain res inst' w' where "releaseWriter ex_store ex_with_writer (Some 0) ?w = (Ret (res, inst'), w')" and "lookup w' = lookup ?w"
    using release_spares_flows_in_use [OF wf ex_writer_found _ s, of ex_store] by (auto simp: RefCounted_new_def ex_no_watches)
  with l show ?thesis by auto
qed

theorem last_release_removes_flow_witness:
  "\<exists>inst' w'. releaseWriter ex_store ex_with_writer (Some 0) (ex_flow_world\<lparr>w_fds := ex_writer_fds\<rparr>) = (Ret (Ret (), inst'), w')
     \<and> lookup w' [''domain'', ''u.mxl-flow'', ''data''] = None \<and> lookup w' [''domain''] = Some DirEntry"
proof -
  let ?w = "ex_flow_world\<lparr>w_fds := ex_writer_fds\<rparr>"
  have q: "quiet ?w" by (simp add: quiet_def ex_flow_world_def ex_os_def ex_writer_fds_def)
  have seg: "shm_fd (flow_segment (wo_data ex_writer_object)) = Some 3" "shm_data (flow_segment (wo_data ex_writer_object)) = Some 3"
    by (simp_all add: ex_writer_object_def)
  have i: "fd_inode ?w 3 = Some 3" by (simp add: fd_inode_def ex_writer_fds_def)
  have last: "rc_ptr (RefCounted_new ex_writer_object) = ex_writer_object" "fst (releaseReference (RefCounted_new ex_writer_object))"
    by (simp_all add: RefCounted_new_def releaseReference_def Let_def)
  have other: "\<And>x. x \<in> set (w_fds ?w) \<Longrightarrow> fst (snd x) = 3 \<Longrightarrow> fst x = 3 \<or> snd (snd x) = Unlocked"
    by (auto simp: ex_writer_fds_def)
  have dir: "makeFlowDirectoryName (inst_domain ex_with_writer) (sv_uuid_to_string ex_store (wo_id ex_writer_object)) = [''domain'', ''u.mxl-flow'']"
    by (simp add: ex_with_writer_def ex_instance_def ex_store_def ex_writer_object_def ex_id_def path_defs path_names)
  have l: "lookup ?w [''domain''] = Some DirEntry" by (simp add: lookup_def ex_flow_world_def)
  obtain inst' w' where "releaseWriter ex_store ex_with_writer (Some 0) ?w = (Ret (Ret (), inst'), w')"
    and "\<And>p. lookup w' p = (if under [''domain'', ''u.mxl-flow''] p then None else lookup ?w p)"
    using last_release_removes_flow [OF q ex_writer_found last seg(1) i seg(2) other, of ex_store] unfolding dir by auto
  with l show ?thesis by (intro exI [of _ inst'] exI [of _ w']) (simp add: under_def)
qed

end
