(* ===== verification/FlowApi.thy ===== *)
theory FlowApi
  imports WriterRelease
begin

text \<open>
  The C interface to flows (\<open>lib/src/flow.cpp\<close>). A pointer argument is an option, \<open>None\<close> for the
  null pointer; a pointer that is only written through is a boolean, whether it is not null, and what
  is written is part of the result. An exception becomes a status; undefined behaviour stays
  \<open>Crash\<close>. Reading calls take the reader with its environment, that is the memory and the clock at
  every tick; writing calls take the writer together with the memory it maps.
\<close>

section \<open>Exceptions and deadlines\<close>

text \<open>\<open>catch (...)\<close>, with the outputs as they were.\<close>

definition catch_all :: "'a \<Rightarrow> (mxlStatus \<times> 'a) outcome \<Rightarrow> (mxlStatus \<times> 'a) outcome" where
  "catch_all out r = (case r of Ret x \<Rightarrow> Ret x | Throw _ \<Rightarrow> Ret (MXL_ERR_UNKNOWN, out) | Crash c \<Rightarrow> Crash c)"

definition catch_all_io :: "(exn \<Rightarrow> mxlStatus) \<Rightarrow> 'a \<Rightarrow> (mxlStatus \<times> 'a) io \<Rightarrow> (mxlStatus \<times> 'a) io" where
  "catch_all_io h out m = icatch m (\<lambda>e. iret (h e, out))"

definition unknown_error :: "exn \<Rightarrow> mxlStatus" where
  "unknown_error e = MXL_ERR_UNKNOWN"

definition not_found_error :: "exn \<Rightarrow> mxlStatus" where
  "not_found_error e = (if e = FilesystemError ENOENT then MXL_ERR_FLOW_NOT_FOUND else MXL_ERR_UNKNOWN)"

definition EPERM :: nat where "EPERM = 1"
definition EACCES :: nat where "EACCES = 13"
definition EROFS :: nat where "EROFS = 30"

definition permission_error :: "exn \<Rightarrow> mxlStatus" where
  "permission_error e =
     (if e \<in> {FilesystemError EACCES, FilesystemError EPERM, FilesystemError EROFS} then MXL_ERR_PERMISSION_DENIED
      else MXL_ERR_UNKNOWN)"

definition toDeadline :: "Timepoint \<Rightarrow> u64 \<Rightarrow> Timepoint" where
  "toDeadline now timeoutNs = tp_plus_dur now (Duration (sint timeoutNs))"

section \<open>Flows\<close>

definition mxlIsFlowActive ::
  "(string \<Rightarrow> bool) \<Rightarrow> services \<Rightarrow> Instance option \<Rightarrow> string option \<Rightarrow> bool \<Rightarrow> (mxlStatus \<times> bool option) io" where
  "mxlIsFlowActive is_valid_uuid sv inst flowId isActive =
     (case (isActive, inst, flowId) of
        (True, Some cppInstance, Some flowId) \<Rightarrow>
          if \<not> is_valid_uuid flowId \<or> sv_uuid_from_string sv flowId = None then iret (MXL_ERR_INVALID_ARG, None)
          else ibind (isys (sys_open (makeFlowDataFilePath (makeFlowDirectoryName (inst_domain cppInstance) flowId)))) (\<lambda>r.
            case r of
              Inl _ \<Rightarrow> iret (MXL_ERR_FLOW_NOT_FOUND, None)
            | Inr fd \<Rightarrow>
                ibind (isys (sys_flock fd ExclusiveLock)) (\<lambda>l.
                ibind (sys_close fd) (\<lambda>_.
                  iret (MXL_STATUS_OK, Some (case l of Inl _ \<Rightarrow> True | Inr _ \<Rightarrow> False)))))
      | _ \<Rightarrow> iret (MXL_ERR_INVALID_ARG, None))"

text \<open>
  \<open>std::strncpy\<close> copies up to the first null character and fills the rest of the \<open>n\<close> characters with
  nulls. The result of the call is the status, the size stored and what the buffer then begins with.
\<close>

definition strncpy :: "string \<Rightarrow> nat \<Rightarrow> string" where
  "strncpy s n = take n (takeWhile (\<lambda>c. c \<noteq> CHR 0x00) s @ replicate n (CHR 0x00))"

definition mxlGetFlowDef ::
  "services \<Rightarrow> Instance option \<Rightarrow> string option \<Rightarrow> bool \<Rightarrow> u64 option \<Rightarrow> (mxlStatus \<times> u64 option \<times> string option) io" where
  "mxlGetFlowDef sv inst flowId buffer bufferSize =
     (case (flowId, bufferSize) of
        (Some flowId, Some room) \<Rightarrow>
          (case (inst, sv_uuid_from_string sv flowId) of
             (Some cppInstance, Some u) \<Rightarrow>
               catch_all_io not_found_error (bufferSize, None)
                 (ibind (getFlowDef sv (inst_domain cppInstance) u) (\<lambda>flowDef.
                    let requiredSize = of_nat (length flowDef) + 1 in
                    if \<not> buffer \<or> room < requiredSize then iret (MXL_ERR_INVALID_ARG, Some requiredSize, None)
                    else iret (MXL_STATUS_OK, Some requiredSize, Some (strncpy flowDef (length flowDef + 1)))))
           | _ \<Rightarrow> iret (MXL_ERR_INVALID_ARG, bufferSize, None))
      | _ \<Rightarrow> iret (MXL_ERR_INVALID_ARG, bufferSize, None))"

section \<open>Readers and writers of an instance\<close>

definition mxlCreateFlowReader ::
  "(string \<Rightarrow> bool) \<Rightarrow> services \<Rightarrow> Instance option \<Rightarrow> string option \<Rightarrow> bool \<Rightarrow> (mxlStatus \<times> nat option \<times> Instance option) io" where
  "mxlCreateFlowReader is_valid_uuid sv inst flowId reader =
     (case (reader, inst, flowId) of
        (True, Some cppInstance, Some flowId) \<Rightarrow>
          if \<not> is_valid_uuid flowId then iret (MXL_ERR_INVALID_ARG, None, inst)
          else ibind (getFlowReader sv cppInstance flowId) (\<lambda>(res, inst').
            case res of
              Ret addr \<Rightarrow> iret (MXL_STATUS_OK, Some addr, Some inst')
            | Throw e \<Rightarrow> iret (not_found_error e, None, Some inst')
            | Crash c \<Rightarrow> icrash c)
      | _ \<Rightarrow> iret (MXL_ERR_INVALID_ARG, None, inst))"

definition mxlReleaseFlowReader :: "Instance option \<Rightarrow> nat option \<Rightarrow> (mxlStatus \<times> Instance option) io" where
  "mxlReleaseFlowReader inst reader =
     (case (inst, reader) of
        (Some cppInstance, Some _) \<Rightarrow>
          catch_all_io unknown_error inst (ibind (releaseReader cppInstance reader) (\<lambda>inst'. iret (MXL_STATUS_OK, Some inst')))
      | _ \<Rightarrow> iret (MXL_ERR_INVALID_ARG, inst))"

text \<open>The outputs for the configuration and for whether the flow is new may be null.\<close>

definition mxlCreateFlowWriter ::
  "services \<Rightarrow> Instance option \<Rightarrow> string option \<Rightarrow> string option \<Rightarrow> bool \<Rightarrow> bool \<Rightarrow> bool \<Rightarrow>
     (mxlStatus \<times> (nat option \<times> mxlFlowConfigInfo option \<times> bool option) \<times> Instance option) io" where
  "mxlCreateFlowWriter sv inst flowDef options writer configInfo wasCreated =
     (case (inst, flowDef, writer) of
        (Some cppInstance, Some flowDef, True) \<Rightarrow>
          ibind (createFlowWriter sv cppInstance flowDef options) (\<lambda>(res, inst').
            case res of
              Ret (cfg, addr, flowCreated) \<Rightarrow>
                iret (MXL_STATUS_OK, (Some addr, if configInfo then Some cfg else None, if wasCreated then Some flowCreated else None), Some inst')
            | Throw e \<Rightarrow> iret (permission_error e, (None, None, None), Some inst')
            | Crash c \<Rightarrow> icrash c)
      | _ \<Rightarrow> iret (MXL_ERR_INVALID_ARG, (None, None, None), inst))"

definition mxlReleaseFlowWriter :: "services \<Rightarrow> Instance option \<Rightarrow> nat option \<Rightarrow> (mxlStatus \<times> Instance option) io" where
  "mxlReleaseFlowWriter sv inst writer =
     (case (inst, writer) of
        (Some cppInstance, Some _) \<Rightarrow>
          ibind (releaseWriter sv cppInstance writer) (\<lambda>(res, inst').
            case res of
              Ret _ \<Rightarrow> iret (MXL_STATUS_OK, Some inst')
            | Throw e \<Rightarrow> iret (MXL_ERR_UNKNOWN, Some inst')
            | Crash c \<Rightarrow> icrash c)
      | _ \<Rightarrow> iret (MXL_ERR_INVALID_ARG, inst))"

section \<open>Reading\<close>

definition with_reader :: "bool \<Rightarrow> flow_reader option \<Rightarrow> (flow_reader \<Rightarrow> (mxlStatus \<times> 'a option) outcome) \<Rightarrow> (mxlStatus \<times> 'a option) outcome" where
  "with_reader outputs reader f =
     (if outputs then (case reader of Some r \<Rightarrow> catch_all None (f r) | None \<Rightarrow> Ret (MXL_ERR_INVALID_FLOW_READER, None))
      else Ret (MXL_ERR_INVALID_ARG, None))"

definition mxlFlowReaderGetInfo :: "flow_reader option \<Rightarrow> nat \<Rightarrow> bool \<Rightarrow> (mxlStatus \<times> mxlFlowInfo option) outcome" where
  "mxlFlowReaderGetInfo reader k info =
     with_reader info reader (\<lambda>r. obind (reader_getFlowInfo r k) (\<lambda>i. Ret (MXL_STATUS_OK, Some i)))"

definition mxlFlowReaderGetConfigInfo :: "flow_reader option \<Rightarrow> nat \<Rightarrow> bool \<Rightarrow> (mxlStatus \<times> mxlFlowConfigInfo option) outcome" where
  "mxlFlowReaderGetConfigInfo reader k info =
     with_reader info reader (\<lambda>r. obind (reader_getFlowInfo r k) (\<lambda>i. Ret (MXL_STATUS_OK, Some (config i))))"

definition mxlFlowReaderGetRuntimeInfo :: "flow_reader option \<Rightarrow> nat \<Rightarrow> bool \<Rightarrow> (mxlStatus \<times> mxlFlowRuntimeInfo option) outcome" where
  "mxlFlowReaderGetRuntimeInfo reader k info =
     with_reader info reader (\<lambda>r. obind (reader_getFlowInfo r k) (\<lambda>i. Ret (MXL_STATUS_OK, Some (runtime i))))"

text \<open>The clock is read for the deadline at tick \<open>k\<close>, the call proper starts at the next.\<close>

type_synonym grain_result = "mxlStatus \<times> (mxlGrainInfo \<times> u64) option \<times> int option"

definition mxlFlowReaderGetGrainSlice ::
  "flow_reader option \<Rightarrow> u64 \<Rightarrow> u16 \<Rightarrow> u64 \<Rightarrow> bool \<Rightarrow> bool \<Rightarrow> nat \<Rightarrow> nat \<Rightarrow> (grain_result outcome \<times> nat) option" where
  "mxlFlowReaderGetGrainSlice reader index minValidSlices timeoutNs grainInfo payload fuel k =
     (if grainInfo \<and> payload then
        (case reader of
           Some (DiscreteFlowReader r env stat) \<Rightarrow>
             map_option (\<lambda>(res, k'). (catch_all (None, None) res, k'))
               (getGrainUntil r index minValidSlices fuel env (Suc k) (toDeadline (env_clock env k) timeoutNs) stat)
         | _ \<Rightarrow> Some (Ret (MXL_ERR_INVALID_FLOW_READER, None, None), k))
      else Some (Ret (MXL_ERR_INVALID_ARG, None, None), k))"

definition mxlFlowReaderGetGrain ::
  "flow_reader option \<Rightarrow> u64 \<Rightarrow> u64 \<Rightarrow> bool \<Rightarrow> bool \<Rightarrow> nat \<Rightarrow> nat \<Rightarrow> (grain_result outcome \<times> nat) option" where
  "mxlFlowReaderGetGrain reader index timeoutNs grainInfo payload fuel k =
     mxlFlowReaderGetGrainSlice reader index MXL_GRAIN_VALID_SLICES_ALL timeoutNs grainInfo payload fuel k"

definition mxlFlowReaderGetGrainSliceNonBlocking ::
  "flow_reader option \<Rightarrow> u64 \<Rightarrow> u16 \<Rightarrow> bool \<Rightarrow> bool \<Rightarrow> nat \<Rightarrow> grain_result outcome" where
  "mxlFlowReaderGetGrainSliceNonBlocking reader index minValidSlices grainInfo payload k =
     (if grainInfo \<and> payload then
        (case reader of
           Some (DiscreteFlowReader r env stat) \<Rightarrow>
             catch_all (None, None) (getGrain r index minValidSlices (env_mem env k) (env_mem env (Suc k)) (stat (Suc k)))
         | _ \<Rightarrow> Ret (MXL_ERR_INVALID_FLOW_READER, None, None))
      else Ret (MXL_ERR_INVALID_ARG, None, None))"

definition mxlFlowReaderGetGrainNonBlocking ::
  "flow_reader option \<Rightarrow> u64 \<Rightarrow> bool \<Rightarrow> bool \<Rightarrow> nat \<Rightarrow> grain_result outcome" where
  "mxlFlowReaderGetGrainNonBlocking reader index grainInfo payload k =
     mxlFlowReaderGetGrainSliceNonBlocking reader index MXL_GRAIN_VALID_SLICES_ALL grainInfo payload k"

definition mxlFlowReaderGetMaxReadLengthSamples :: "flow_reader option \<Rightarrow> bool \<Rightarrow> (mxlStatus \<times> u64 option) outcome" where
  "mxlFlowReaderGetMaxReadLengthSamples reader maxReadLength =
     (if maxReadLength then
        (case reader of
           Some (ContinuousFlowReader r env stat) \<Rightarrow> Ret (MXL_STATUS_OK, Some (getMaxReadLength r))
         | _ \<Rightarrow> Ret (MXL_ERR_INVALID_FLOW_READER, None))
      else Ret (MXL_ERR_INVALID_ARG, None))"

definition mxlFlowReaderGetSamples ::
  "flow_reader option \<Rightarrow> u64 \<Rightarrow> u64 \<Rightarrow> u64 \<Rightarrow> bool \<Rightarrow> nat \<Rightarrow> nat \<Rightarrow>
     ((mxlStatus \<times> mxlWrappedMultiBufferSlice option) outcome \<times> nat) option" where
  "mxlFlowReaderGetSamples reader index nsamples timeoutNs payloadBuffersSlices fuel k =
     (if payloadBuffersSlices then
        (case reader of
           Some (ContinuousFlowReader r env stat) \<Rightarrow>
             map_option (\<lambda>(res, k'). (catch_all None res, k'))
               (getSamplesUntil r index nsamples fuel env (Suc k) (toDeadline (env_clock env k) timeoutNs) stat)
         | _ \<Rightarrow> Some (Ret (MXL_ERR_INVALID_FLOW_READER, None), k))
      else Some (Ret (MXL_ERR_INVALID_ARG, None), k))"

definition mxlFlowReaderGetSamplesNonBlocking ::
  "flow_reader option \<Rightarrow> u64 \<Rightarrow> u64 \<Rightarrow> bool \<Rightarrow> nat \<Rightarrow> (mxlStatus \<times> mxlWrappedMultiBufferSlice option) outcome" where
  "mxlFlowReaderGetSamplesNonBlocking reader index nsamples payloadBuffersSlices k =
     (if payloadBuffersSlices then
        (case reader of
           Some (ContinuousFlowReader r env stat) \<Rightarrow> catch_all None (getSamples r index nsamples (env_mem env k) (stat k))
         | _ \<Rightarrow> Ret (MXL_ERR_INVALID_FLOW_READER, None))
      else Ret (MXL_ERR_INVALID_ARG, None))"

section \<open>Writing\<close>

text \<open>A writer with the memory it maps; every call returns both as it leaves them.\<close>

datatype flow_writer =
    DiscreteFlowWriter discrete_writer discrete_mem
  | ContinuousFlowWriter continuous_writer continuous_mem

type_synonym 'a written = "(mxlStatus \<times> 'a option \<times> flow_writer option) outcome"

definition catch_write :: "flow_writer option \<Rightarrow> 'a written \<Rightarrow> 'a written" where
  "catch_write writer r = (case r of Throw _ \<Rightarrow> Ret (MXL_ERR_UNKNOWN, None, writer) | _ \<Rightarrow> r)"

definition with_discrete ::
  "bool \<Rightarrow> flow_writer option \<Rightarrow> (discrete_writer \<Rightarrow> discrete_mem \<Rightarrow> 'a written) \<Rightarrow> 'a written" where
  "with_discrete outputs writer f =
     (if outputs then
        (case writer of
           Some (DiscreteFlowWriter w m) \<Rightarrow> catch_write writer (f w m)
         | _ \<Rightarrow> Ret (MXL_ERR_INVALID_FLOW_WRITER, None, writer))
      else Ret (MXL_ERR_INVALID_ARG, None, writer))"

definition with_continuous ::
  "bool \<Rightarrow> flow_writer option \<Rightarrow> (continuous_writer \<Rightarrow> continuous_mem \<Rightarrow> 'a written) \<Rightarrow> 'a written" where
  "with_continuous outputs writer f =
     (if outputs then
        (case writer of
           Some (ContinuousFlowWriter w m) \<Rightarrow> catch_write writer (f w m)
         | _ \<Rightarrow> Ret (MXL_ERR_INVALID_FLOW_WRITER, None, writer))
      else Ret (MXL_ERR_INVALID_ARG, None, writer))"

definition mxlFlowWriterGetGrainInfo :: "flow_writer option \<Rightarrow> u64 \<Rightarrow> bool \<Rightarrow> mxlGrainInfo written" where
  "mxlFlowWriterGetGrainInfo writer index grainInfo =
     with_discrete grainInfo writer (\<lambda>w m. obind (getGrainInfo w m index) (\<lambda>i. Ret (MXL_STATUS_OK, Some i, writer)))"

definition mxlFlowWriterOpenGrain :: "flow_writer option \<Rightarrow> u64 \<Rightarrow> bool \<Rightarrow> bool \<Rightarrow> (mxlGrainInfo \<times> u64) written" where
  "mxlFlowWriterOpenGrain writer index grainInfo payload =
     with_discrete (grainInfo \<and> payload) writer (\<lambda>w m.
       obind (openGrain w m index) (\<lambda>(st, out, w', m'). Ret (st, out, Some (DiscreteFlowWriter w' m'))))"

definition mxlFlowWriterCancelGrain :: "flow_writer option \<Rightarrow> unit written" where
  "mxlFlowWriterCancelGrain writer =
     with_discrete True writer (\<lambda>w m. Ret (fst (cancel_grain w), None, Some (DiscreteFlowWriter (snd (cancel_grain w)) m)))"

definition mxlFlowWriterCommitGrain :: "flow_writer option \<Rightarrow> mxlGrainInfo option \<Rightarrow> Timepoint \<Rightarrow> unit written" where
  "mxlFlowWriterCommitGrain writer grainInfo now =
     (case grainInfo of
        None \<Rightarrow> Ret (MXL_ERR_INVALID_ARG, None, writer)
      | Some info \<Rightarrow>
          with_discrete True writer (\<lambda>w m.
            obind (commit_grain w m info now) (\<lambda>(st, w', m'). Ret (st, None, Some (DiscreteFlowWriter w' m')))))"

definition mxlFlowWriterGetMaxWriteLengthSamples :: "flow_writer option \<Rightarrow> bool \<Rightarrow> u64 written" where
  "mxlFlowWriterGetMaxWriteLengthSamples writer maxWriteLength =
     with_continuous maxWriteLength writer (\<lambda>w m. Ret (MXL_STATUS_OK, Some (getMaxWriteLength w), writer))"

definition mxlFlowWriterOpenSamples :: "flow_writer option \<Rightarrow> u64 \<Rightarrow> u64 \<Rightarrow> bool \<Rightarrow> mxlWrappedMultiBufferSlice written" where
  "mxlFlowWriterOpenSamples writer index nsamples payloadBuffersSlices =
     with_continuous payloadBuffersSlices writer (\<lambda>w m.
       obind (openSamples w index nsamples) (\<lambda>(st, out, w'). Ret (st, out, Some (ContinuousFlowWriter w' m))))"

definition mxlFlowWriterCancelSamples :: "flow_writer option \<Rightarrow> unit written" where
  "mxlFlowWriterCancelSamples writer =
     with_continuous True writer (\<lambda>w m. Ret (fst (cancel_samples w), None, Some (ContinuousFlowWriter (snd (cancel_samples w)) m)))"

definition mxlFlowWriterCommitSamples :: "flow_writer option \<Rightarrow> unit written" where
  "mxlFlowWriterCommitSamples writer =
     with_continuous True writer (\<lambda>w m.
       obind (commit_samples w m) (\<lambda>(st, w', m'). Ret (st, None, Some (ContinuousFlowWriter w' m'))))"

section \<open>Synchronisation groups\<close>

text \<open>The pointer the handle of a new group is stored through is not checked.\<close>

definition mxlCreateFlowSynchronizationGroup :: "Instance option \<Rightarrow> bool \<Rightarrow> (mxlStatus \<times> nat option \<times> Instance option) outcome" where
  "mxlCreateFlowSynchronizationGroup inst grp =
     (case inst of
        None \<Rightarrow> Ret (MXL_ERR_INVALID_ARG, None, inst)
      | Some cppInstance \<Rightarrow>
          let (g, inst') = createFlowSynchronizationGroup cppInstance in
          if grp then Ret (MXL_STATUS_OK, Some g, Some inst') else Crash NullDereference)"

definition mxlReleaseFlowSynchronizationGroup :: "Instance option \<Rightarrow> nat option \<Rightarrow> mxlStatus \<times> Instance option" where
  "mxlReleaseFlowSynchronizationGroup inst grp =
     (case (inst, grp) of
        (Some cppInstance, Some g) \<Rightarrow> (MXL_STATUS_OK, Some (releaseFlowSynchronizationGroup cppInstance g))
      | _ \<Rightarrow> (MXL_ERR_INVALID_ARG, inst))"

text \<open>
  A group is given by its entries; a reader by its address, which the environment resolves: the
  interface does not check that the reader is one of the instance of the group.
\<close>

definition mxlFlowSynchronizationGroupAddReader ::
  "group_environment \<Rightarrow> nat \<Rightarrow> ListEntry list option \<Rightarrow> nat option \<Rightarrow> (mxlStatus \<times> ListEntry list option) outcome" where
  "mxlFlowSynchronizationGroupAddReader ge k grp reader =
     (case (grp, reader) of
        (None, _) \<Rightarrow> Ret (MXL_ERR_INVALID_ARG, grp)
      | (Some _, None) \<Rightarrow> Ret (MXL_ERR_INVALID_FLOW_READER, grp)
      | (Some es, Some a) \<Rightarrow>
          (case ge_reader ge a of
             None \<Rightarrow> Crash DanglingPointer
           | Some (DiscreteFlowReader _ _ _) \<Rightarrow>
               catch_all grp (obind (addDiscreteReader ge k a MXL_GRAIN_VALID_SLICES_ALL es) (\<lambda>es'. Ret (MXL_STATUS_OK, Some es')))
           | Some (ContinuousFlowReader _ _ _) \<Rightarrow>
               catch_all grp (obind (addContinuousReader ge k a es) (\<lambda>es'. Ret (MXL_STATUS_OK, Some es')))))"

definition mxlFlowSynchronizationGroupAddPartialGrainReader ::
  "group_environment \<Rightarrow> nat \<Rightarrow> ListEntry list option \<Rightarrow> nat option \<Rightarrow> u16 \<Rightarrow> (mxlStatus \<times> ListEntry list option) outcome" where
  "mxlFlowSynchronizationGroupAddPartialGrainReader ge k grp reader minValidSlices =
     (case (grp, reader) of
        (None, _) \<Rightarrow> Ret (MXL_ERR_INVALID_ARG, grp)
      | (Some _, None) \<Rightarrow> Ret (MXL_ERR_INVALID_FLOW_READER, grp)
      | (Some es, Some a) \<Rightarrow>
          (case ge_reader ge a of
             None \<Rightarrow> Crash DanglingPointer
           | Some (DiscreteFlowReader _ _ _) \<Rightarrow>
               catch_all grp (obind (addDiscreteReader ge k a minValidSlices es) (\<lambda>es'. Ret (MXL_STATUS_OK, Some es')))
           | Some (ContinuousFlowReader _ _ _) \<Rightarrow> Ret (MXL_ERR_INVALID_FLOW_READER, grp)))"

definition mxlFlowSynchronizationGroupRemoveReader ::
  "ListEntry list option \<Rightarrow> nat option \<Rightarrow> mxlStatus \<times> ListEntry list option" where
  "mxlFlowSynchronizationGroupRemoveReader grp reader =
     (case (grp, reader) of
        (Some es, Some a) \<Rightarrow> (MXL_STATUS_OK, Some (removeReader a es))
      | _ \<Rightarrow> (MXL_ERR_INVALID_ARG, grp))"

definition mxlFlowSynchronizationGroupWaitForDataAt ::
  "group_environment \<Rightarrow> (nat \<Rightarrow> Timepoint) \<Rightarrow> nat \<Rightarrow> ListEntry list option \<Rightarrow> nat \<Rightarrow> u64 \<Rightarrow> u64 \<Rightarrow>
     (mxlStatus outcome \<times> ListEntry list option \<times> nat) option" where
  "mxlFlowSynchronizationGroupWaitForDataAt ge realtime fuel grp k timestamp timeoutNs =
     (case grp of
        None \<Rightarrow> Some (Ret MXL_ERR_INVALID_ARG, None, k)
      | Some es \<Rightarrow>
          map_option (\<lambda>(res, es', k'). (case res of Throw _ \<Rightarrow> Ret MXL_ERR_UNKNOWN | _ \<Rightarrow> res, Some es', k'))
            (waitForDataAt ge fuel es (Suc k) (Timepoint (sint timestamp)) (toDeadline (realtime k) timeoutNs)))"

section \<open>Instances\<close>

text \<open>
  \<open>mxl.cpp\<close>. The domain path is used without a check for null. When the instance cannot be
  constructed, the watcher goes with the last reference to it.
\<close>

definition mxlCreateInstance :: "services \<Rightarrow> path option \<Rightarrow> Instance option io" where
  "mxlCreateInstance sv in_mxlDomain =
     (case in_mxlDomain of
        None \<Rightarrow> icrash NullDereference
      | Some domain \<Rightarrow>
          icatch
            (ibind (DomainWatcher_new domain) (\<lambda>wt.
               ibind (iunwind (Instance_new sv domain wt) (DomainWatcher_destroy wt)) (\<lambda>inst. iret (Some inst))))
            (\<lambda>_. iret None))"

definition TMPFS_MAGIC :: nat where "TMPFS_MAGIC = 0x01021994"
definition RAMFS_MAGIC :: nat where "RAMFS_MAGIC = 0x858458f6"

definition mxlIsTmpFs :: "(string \<Rightarrow> nat option) \<Rightarrow> string option \<Rightarrow> bool \<Rightarrow> mxlStatus \<times> bool option" where
  "mxlIsTmpFs statfs in_path out_isTmpFs =
     (case (in_path, out_isTmpFs) of
        (Some p, True) \<Rightarrow>
          (case statfs p of
             None \<Rightarrow> (MXL_ERR_UNKNOWN, None)
           | Some f_type \<Rightarrow> (MXL_STATUS_OK, Some (f_type = TMPFS_MAGIC \<or> f_type = RAMFS_MAGIC)))
      | _ \<Rightarrow> (MXL_ERR_INVALID_ARG, None))"

definition mxlDestroyInstance :: "services \<Rightarrow> Instance option \<Rightarrow> mxlStatus io" where
  "mxlDestroyInstance sv in_instance =
     (case in_instance of
        None \<Rightarrow> iret MXL_ERR_INVALID_ARG
      | Some inst \<Rightarrow> ibind (Instance_destroy sv inst) (\<lambda>_. iret MXL_STATUS_OK))"

definition mxlGarbageCollectFlows :: "Instance option \<Rightarrow> mxlStatus io" where
  "mxlGarbageCollectFlows in_instance =
     (case in_instance of
        None \<Rightarrow> iret MXL_ERR_INVALID_ARG
      | Some inst \<Rightarrow> icatch (ibind (garbageCollect (inst_domain inst)) (\<lambda>_. iret MXL_STATUS_OK)) (\<lambda>_. iret MXL_ERR_UNKNOWN))"

end
