(* ===== verification/ApiContract.thy ===== *)
theory ApiContract
  imports FlowApi DiscreteRing
begin

text \<open>
  What a C program can rely on: the catch clauses of the interface (lemmas), blocking and non-blocking reads
  agree on a flow nobody writes, the size protocol of the flow definition, and that a flow reported
  inactive is one that garbage collection removes.
\<close>

section \<open>No exception crosses the interface\<close>

lemma catch_all_no_throw: "catch_all out r \<noteq> Throw e"
  by (cases r) (simp_all add: catch_all_def)

lemma with_reader_no_throw: "with_reader b r f \<noteq> Throw e"
  by (auto simp: with_reader_def catch_all_no_throw split: option.splits)

lemma catch_write_no_throw: "catch_write wr r \<noteq> Throw e"
  by (cases r) (simp_all add: catch_write_def)

lemma with_writer_no_throw: "with_discrete b wr f \<noteq> Throw e" "with_continuous b wr g \<noteq> Throw e"
  by (auto simp: with_discrete_def with_continuous_def catch_write_no_throw split: option.splits flow_writer.splits)

definition never_throws :: "'a io \<Rightarrow> bool" where
  "never_throws m \<longleftrightarrow> (\<forall>w e. fst (m w) \<noteq> Throw e)"

lemma never_throws_ret [simp]: "never_throws (iret a)"
  by (simp add: never_throws_def iret_simps)

lemma never_throws_crash [simp]: "never_throws (icrash c)"
  by (simp add: never_throws_def iret_simps)

lemma never_throws_bind: "never_throws m \<Longrightarrow> (\<And>a. never_throws (f a)) \<Longrightarrow> never_throws (ibind m f)"
  unfolding never_throws_def ibind_def
  by (auto split: prod.splits outcome.splits) (metis fst_conv)

lemma never_throws_catch: "(\<And>e. never_throws (h e)) \<Longrightarrow> never_throws (icatch m h)"
  unfolding never_throws_def icatch_def by (auto split: prod.splits outcome.splits)

lemma never_throws_isys [simp]: "never_throws (isys f)"
  by (auto simp: never_throws_def isys_def split: prod.splits)

lemma never_throws_attempt [simp]: "never_throws (iattempt m)"
  by (auto simp: never_throws_def iattempt_def split: prod.splits outcome.splits)

lemma never_throws_close [simp]: "never_throws (sys_close fd)"
  by (simp add: never_throws_def sys_close_def)

lemma never_throws_get_flow [simp]: "never_throws (get_flow s)"
  by (auto simp: never_throws_def get_flow_def split: option.splits)

lemma never_throws_if: "(b \<Longrightarrow> never_throws m) \<Longrightarrow> (\<not> b \<Longrightarrow> never_throws m') \<Longrightarrow> never_throws (if b then m else m')"
  by simp

lemma never_throws_case:
  "(x = None \<Longrightarrow> never_throws m) \<Longrightarrow> (\<And>a. x = Some a \<Longrightarrow> never_throws (f a)) \<Longrightarrow> never_throws (case x of None \<Rightarrow> m | Some a \<Rightarrow> f a)"
  "(\<And>a. r = Ret a \<Longrightarrow> never_throws (g a)) \<Longrightarrow> (\<And>e. r = Throw e \<Longrightarrow> never_throws (h e)) \<Longrightarrow> (\<And>c. r = Crash c \<Longrightarrow> never_throws (k c)) \<Longrightarrow>
     never_throws (case r of Ret a \<Rightarrow> g a | Throw e \<Rightarrow> h e | Crash c \<Rightarrow> k c)"
  "(\<And>a. y = Inl a \<Longrightarrow> never_throws (p a)) \<Longrightarrow> (\<And>b. y = Inr b \<Longrightarrow> never_throws (q b)) \<Longrightarrow>
     never_throws (case y of Inl a \<Rightarrow> p a | Inr b \<Rightarrow> q b)"
  "(\<And>a b. z = (a, b) \<Longrightarrow> never_throws (t a b)) \<Longrightarrow> never_throws (case z of (a, b) \<Rightarrow> t a b)"
  by (simp_all split: option.split outcome.split sum.split prod.split)

lemma never_throws_let: "never_throws (f x) \<Longrightarrow> never_throws (let a = x in f a)"
  by simp

lemmas never_throws_rules = never_throws_bind never_throws_if never_throws_case never_throws_let
  never_throws_ret never_throws_crash never_throws_isys never_throws_attempt never_throws_close never_throws_get_flow

lemma destruction_never_throws:
  "never_throws (SharedMemory_destroy s)" "never_throws (destroy_all ss)" "never_throws (FlowData_destroy data)"
  "never_throws (FlowReader_destroy ro)" "never_throws (close_all fds)"
proof -
  show s: "never_throws (SharedMemory_destroy s)" for s
    unfolding SharedMemory_destroy_def close_fd_def by (intro never_throws_rules)
  show d: "never_throws (destroy_all ss)" for ss
    by (induction ss) (auto intro: never_throws_bind s)
  show "never_throws (FlowData_destroy data)" "never_throws (FlowReader_destroy ro)"
    by (simp_all add: FlowData_destroy_def FlowReader_destroy_def d)
  show "never_throws (close_all fds)"
    by (induction fds) (auto intro: never_throws_bind)
qed

lemma removeFlow_never_throws: "never_throws (removeFlow sv domain wt fw u)"
  unfolding removeFlow_def by (intro never_throws_rules destruction_never_throws)

lemma destroy_writer_never_throws: "never_throws (FlowWriter_destroy sv domain wt wo)"
  unfolding FlowWriter_destroy_def by (intro never_throws_rules destruction_never_throws removeFlow_never_throws)

lemma deleteFlow_never_throws: "never_throws (deleteFlow sv domain u)"
  unfolding deleteFlow_def by (rule never_throws_catch) simp

lemma addFlow_never_throws: "never_throws (addFlow sv domain wt fw u)"
  unfolding addFlow_def ensure_watch_def by (intro never_throws_rules)

lemma getFlowReader_never_throws: "never_throws (getFlowReader sv inst s)"
  unfolding getFlowReader_def by (intro never_throws_rules)

lemma releaseReader_never_throws: "never_throws (releaseReader inst ptr)"
  unfolding releaseReader_def by (intro never_throws_rules destruction_never_throws)

lemma createFlowWriter_never_throws: "never_throws (createFlowWriter sv inst def opts)"
  unfolding createFlowWriter_def attach_writer_def createFlowWriter_io_def createDiscreteFlowWriter_def
  by (intro never_throws_rules destruction_never_throws addFlow_never_throws)

lemma releaseWriter_never_throws: "never_throws (releaseWriter sv inst ptr)"
  unfolding releaseWriter_def
  by (intro never_throws_rules deleteFlow_never_throws destroy_writer_never_throws)

lemma Instance_destroy_never_throws: "never_throws (Instance_destroy sv inst)"
proof -
  have c: "never_throws (cleanup_writers sv domain ws)" for domain ws
    by (induction ws) (auto intro!: never_throws_rules deleteFlow_never_throws split: bool.splits)
  have w: "never_throws (destroy_writers sv domain wt ws)" for domain wt ws
    by (induction ws arbitrary: wt) (auto intro: never_throws_bind destroy_writer_never_throws)
  have r: "never_throws (destroy_readers rs)" for rs
    by (induction rs) (auto intro: never_throws_bind destruction_never_throws)
  have m: "never_throws (rm_watches wds ino)" for wds ino
    by (induction wds arbitrary: ino) (auto intro!: never_throws_rules)
  show ?thesis
    unfolding Instance_destroy_def DomainWatcher_destroy_def
    by (intro never_throws_rules c w r m destruction_never_throws)
qed

lemma read_calls_never_throw:
  "mxlFlowReaderGetInfo rd k out \<noteq> Throw e" "mxlFlowReaderGetConfigInfo rd k out \<noteq> Throw e"
  "mxlFlowReaderGetRuntimeInfo rd k out \<noteq> Throw e"
  "mxlFlowReaderGetGrainSlice rd i minv t out out2 fuel k \<noteq> Some (Throw e, k')"
  "mxlFlowReaderGetGrainSliceNonBlocking rd i minv out out2 k \<noteq> Throw e"
  "mxlFlowReaderGetMaxReadLengthSamples rd out \<noteq> Throw e"
  "mxlFlowReaderGetSamples rd i n t out fuel k \<noteq> Some (Throw e, k')"
  "mxlFlowReaderGetSamplesNonBlocking rd i n out k \<noteq> Throw e"
  by (auto simp: mxlFlowReaderGetInfo_def mxlFlowReaderGetConfigInfo_def mxlFlowReaderGetRuntimeInfo_def with_reader_no_throw
      mxlFlowReaderGetGrainSlice_def mxlFlowReaderGetGrainSliceNonBlocking_def mxlFlowReaderGetMaxReadLengthSamples_def
      mxlFlowReaderGetSamples_def mxlFlowReaderGetSamplesNonBlocking_def catch_all_no_throw
      split: option.split flow_reader.split)

lemma write_calls_never_throw:
  "mxlFlowWriterGetGrainInfo wr i out \<noteq> Throw e" "mxlFlowWriterOpenGrain wr i out out2 \<noteq> Throw e"
  "mxlFlowWriterCancelGrain wr \<noteq> Throw e" "mxlFlowWriterCommitGrain wr info now \<noteq> Throw e"
  "mxlFlowWriterGetMaxWriteLengthSamples wr out \<noteq> Throw e" "mxlFlowWriterOpenSamples wr i n out \<noteq> Throw e"
  "mxlFlowWriterCancelSamples wr \<noteq> Throw e" "mxlFlowWriterCommitSamples wr \<noteq> Throw e"
  by (auto simp: mxlFlowWriterGetGrainInfo_def mxlFlowWriterOpenGrain_def mxlFlowWriterCancelGrain_def mxlFlowWriterCommitGrain_def
      mxlFlowWriterGetMaxWriteLengthSamples_def mxlFlowWriterOpenSamples_def mxlFlowWriterCancelSamples_def
      mxlFlowWriterCommitSamples_def with_writer_no_throw split: option.split)

lemma group_calls_never_throw:
  "mxlCreateFlowSynchronizationGroup inst out \<noteq> Throw e"
  "mxlFlowSynchronizationGroupAddReader ge k grp rda \<noteq> Throw e"
  "mxlFlowSynchronizationGroupAddPartialGrainReader ge k grp rda minv \<noteq> Throw e"
  "mxlFlowSynchronizationGroupWaitForDataAt ge clk fuel grp k ts t \<noteq> Some (Throw e, grp', k')"
  by (auto simp: mxlCreateFlowSynchronizationGroup_def mxlFlowSynchronizationGroupAddReader_def Let_def case_prod_unfold
      mxlFlowSynchronizationGroupAddPartialGrainReader_def mxlFlowSynchronizationGroupWaitForDataAt_def catch_all_no_throw
      split: option.split flow_reader.split outcome.split)

lemma instance_calls_never_throw:
  "never_throws (mxlIsFlowActive vld sv inst fid out)" "never_throws (mxlGetFlowDef sv inst fid buf len)"
  "never_throws (mxlCreateFlowReader vld sv inst fid out)" "never_throws (mxlReleaseFlowReader inst ptr)"
  "never_throws (mxlCreateFlowWriter sv inst fdef opts out out2 out3)" "never_throws (mxlReleaseFlowWriter sv inst ptr)"
  "never_throws (mxlCreateInstance sv domain)" "never_throws (mxlDestroyInstance sv inst)" "never_throws (mxlGarbageCollectFlows inst)"
  unfolding mxlIsFlowActive_def mxlGetFlowDef_def mxlCreateFlowReader_def mxlReleaseFlowReader_def mxlCreateFlowWriter_def
    mxlReleaseFlowWriter_def mxlCreateInstance_def mxlDestroyInstance_def mxlGarbageCollectFlows_def catch_all_io_def
  by (auto intro!: never_throws_rules never_throws_catch getFlowReader_never_throws releaseReader_never_throws
      createFlowWriter_never_throws releaseWriter_never_throws Instance_destroy_never_throws
      split: option.split bool.split)

section \<open>Blocking and non-blocking reads\<close>

lemma static_flow_read:
  assumes "\<And>j. env_mem env j = m" and "\<And>j. stat j = ino"
    and "\<And>j. n \<le> j \<Longrightarrow> toDeadline (env_clock env k) timeoutNs \<le> env_clock env j" and "n + 8 \<le> Suc k + fuel" and "2 \<le> fuel"
  shows "\<exists>k'. mxlFlowReaderGetGrainSlice (Some (DiscreteFlowReader r env stat)) index minv timeoutNs out out2 fuel k
    = Some (mxlFlowReaderGetGrainSliceNonBlocking (Some (DiscreteFlowReader r env stat)) index minv out out2 k, k')"
proof -
  let ?d = "toDeadline (env_clock env k) timeoutNs"
  have quiet: "\<And>j. n \<le> j \<Longrightarrow> dm_counter (env_mem env j) = dm_counter (env_mem env n)" by (simp add: assms(1))
  obtain res k' where run: "getGrainImplUntil index minv fuel env (Suc k) ?d = Some (res, k')"
    using discrete_blocking.ends_after_deadline [where i = index and minv = minv and env = env, OF quiet assms(3) assms(4,5)] by blast
  from discrete_blocking.result_is_attempt [OF this] have "res = getGrainImpl index minv m m" by (auto simp: assms(1))
  with run assms(1,2) show ?thesis
    by (cases "getGrainImpl index minv m m")
      (auto simp: mxlFlowReaderGetGrainSlice_def mxlFlowReaderGetGrainSliceNonBlocking_def getGrainUntil_def getGrain_def)
qed

text \<open>
  C23: On a flow nobody writes to, and with a clock that reaches the deadline, a blocking read of a grain
  returns, and with exactly what the non-blocking read returns: status, grain and the descriptor whose access
  time is updated.
\<close>

theorem blocking_read_agrees_with_nonblocking:
  assumes "\<And>j. env_mem env j = m" and "\<And>j. stat j = ino"
    and "\<And>j. n \<le> j \<Longrightarrow> toDeadline (env_clock env k) timeoutNs \<le> env_clock env j" and "n + 8 \<le> Suc k + fuel" and "2 \<le> fuel"
  shows "\<exists>k'. mxlFlowReaderGetGrainSlice (Some (DiscreteFlowReader r env stat)) index minv timeoutNs out out2 fuel k
    = Some (mxlFlowReaderGetGrainSliceNonBlocking (Some (DiscreteFlowReader r env stat)) index minv out out2 k, k')"
  using assms by (rule static_flow_read)

lemma huge_timeout_deadline:
  assumes "0 \<le> tp_value now" and "tp_value now < 2 ^ 63" and "2 ^ 63 \<le> uint timeoutNs"
  shows "toDeadline now timeoutNs \<le> now"
proof -
  have b: "uint timeoutNs < 2 ^ 64" using uint_lt2p [of timeoutNs] by simp
  have "sint timeoutNs = (uint timeoutNs + 2 ^ 63) mod 2 ^ 64 - 2 ^ 63"
    by (simp add: sint_uint signed_take_bit_eq_take_bit_shift take_bit_eq_mod)
  also have "\<dots> = uint timeoutNs - 2 ^ 64" using b assms(3) by (subst mod_pos_geq) simp_all
  finally have s: "sint timeoutNs = uint timeoutNs - 2 ^ 64" .
  have "i64_ok (tp_value now + sint timeoutNs)" using assms b by (simp add: s i64_ok_def)
  then show ?thesis
    using assms b by (simp add: toDeadline_def tp_plus_dur_def less_eq_Timepoint_def Timepoint_le_def Let_def s wrap64_id)
qed

text \<open>
  The timeout is an unsigned number that the code casts to a signed duration: one of \<open>2^63\<close> nanoseconds
  or more, the usual way to wait for ever, is a deadline that has already passed, and a blocking read
  gives up at once.
\<close>

theorem huge_timeout_does_not_wait:
  assumes "\<And>j. env_mem env j = m" and "\<And>j. stat j = ino" and "\<And>j. k \<le> j \<Longrightarrow> env_clock env k \<le> env_clock env j"
    and "0 \<le> tp_value (env_clock env k)" and "tp_value (env_clock env k) < 2 ^ 63" and "2 ^ 63 \<le> uint timeoutNs"
  shows "\<exists>k'. mxlFlowReaderGetGrainSlice (Some (DiscreteFlowReader r env stat)) index minv timeoutNs out out2 8 k
    = Some (mxlFlowReaderGetGrainSliceNonBlocking (Some (DiscreteFlowReader r env stat)) index minv out out2 k, k')"
proof -
  have "toDeadline (env_clock env k) timeoutNs \<le> env_clock env j" if "Suc k \<le> j" for j
    using huge_timeout_deadline [OF assms(4-6)] assms(3) [of j] that by (meson Suc_leD order_trans)
  then show ?thesis
    by (intro static_flow_read [where n = "Suc k", OF assms(1,2)]) simp_all
qed

section \<open>The size of a flow definition\<close>

lemma strncpy_text: "CHR 0x00 \<notin> set s \<Longrightarrow> strncpy s (length s + 1) = s @ [CHR 0x00]"
proof -
  assume "CHR 0x00 \<notin> set s"
  then have "takeWhile (\<lambda>c. c \<noteq> CHR 0x00) s = s" by (subst takeWhile_eq_all_conv) auto
  then show ?thesis by (simp only: strncpy_def) simp
qed

lemma quiet_getFlowDef:
  assumes "quiet w" and "lookup w (makeFlowDescriptorFilePath (makeFlowDirectoryName domain (sv_uuid_to_string sv u))) = Some (FileEntry i)"
    and "f_content (w_file w i) = TextFile s"
  shows "getFlowDef sv domain u w = (Ret s, tick (tick w))"
  using assms
  by (simp add: getFlowDef_def Let_def ibind_def isys_def iret_simps sys_ifstream_def orthrow_def sys_read_text_def
      quiet_syscall [OF assms(1)] quiet_tick lookup_def tick_def w_file_def quiet_def syscall_def)

text \<open>
  Asked with no buffer, \<open>mxlGetFlowDef\<close> stores the size it needs; asked again with a buffer of that
  size it stores the flow definition, terminated by a null character, and changes nothing.
\<close>

theorem flow_definition_size_protocol:
  assumes q: "quiet w" and u: "sv_uuid_from_string sv flowId = Some u"
    and l: "lookup w (makeFlowDescriptorFilePath (makeFlowDirectoryName (inst_domain inst) (sv_uuid_to_string sv u))) = Some (FileEntry i)"
    and c: "f_content (w_file w i) = TextFile s" and small: "length s + 1 < 2 ^ 64" and nonul: "CHR 0x00 \<notin> set s"
  shows "\<exists>needed w1 w2. mxlGetFlowDef sv (Some inst) (Some flowId) False (Some room) w = (Ret (MXL_ERR_INVALID_ARG, Some needed, None), w1)
    \<and> mxlGetFlowDef sv (Some inst) (Some flowId) True (Some needed) w1 = (Ret (MXL_STATUS_OK, Some needed, Some (s @ [CHR 0x00])), w2)
    \<and> unat needed = length s + 1 \<and> w_tree w2 = w_tree w \<and> w_fds w2 = w_fds w"
proof -
  let ?n = "of_nat (length s) + 1 :: u64" and ?w1 = "tick (tick w)"
  have n: "unat ?n = length s + 1"
    by (rule of_nat_inverse [where 'a = 64]) (use small in \<open>simp_all\<close>)
  have q1: "quiet ?w1" using q by (simp add: quiet_tick)
  have r1: "getFlowDef sv (inst_domain inst) u w = (Ret s, ?w1)" by (rule quiet_getFlowDef [OF q l c])
  have r2: "getFlowDef sv (inst_domain inst) u ?w1 = (Ret s, tick (tick ?w1))"
    by (rule quiet_getFlowDef [OF q1, where i = i]) (use l c in \<open>simp_all add: lookup_def tick_def w_file_def\<close>)
  have "mxlGetFlowDef sv (Some inst) (Some flowId) False (Some room) w = (Ret (MXL_ERR_INVALID_ARG, Some ?n, None), ?w1)"
    by (simp add: mxlGetFlowDef_def u catch_all_io_def icatch_def ibind_def r1 iret_simps Let_def)
  moreover have "mxlGetFlowDef sv (Some inst) (Some flowId) True (Some ?n) ?w1
      = (Ret (MXL_STATUS_OK, Some ?n, Some (s @ [CHR 0x00])), tick (tick ?w1))"
    using strncpy_text [OF nonul] by (simp add: mxlGetFlowDef_def u catch_all_io_def icatch_def ibind_def r2 iret_simps Let_def)
  ultimately show ?thesis
    using n by (intro exI [of _ ?n] exI [of _ ?w1] exI [of _ "tick (tick ?w1)"]) (simp add: tick_def)
qed

section \<open>Inactive flows and garbage collection\<close>

text \<open>
  C24: A flow that \<open>mxlIsFlowActive\<close> reports inactive is one that garbage collection then removes, and a
  flow it reports active is one that garbage collection keeps.
\<close>

theorem inactive_flows_are_collected:
  assumes q: "quiet w" and d: "lookup w (inst_domain inst) = Some DirEntry"
    and vld: "is_valid_uuid flowId" "sv_uuid_from_string sv flowId \<noteq> None" "flowId \<noteq> []"
    and f: "lookup w (makeFlowDirectoryName (inst_domain inst) flowId) = Some DirEntry"
    and l: "lookup w (makeFlowDataFilePath (makeFlowDirectoryName (inst_domain inst) flowId)) = Some (FileEntry i)"
  shows "\<exists>active w1 n w2. mxlIsFlowActive is_valid_uuid sv (Some inst) (Some flowId) True w = (Ret (MXL_STATUS_OK, Some active), w1)
    \<and> garbageCollect (inst_domain inst) w1 = (Ret n, w2)
    \<and> lookup w2 (makeFlowDirectoryName (inst_domain inst) flowId) = (if active then Some DirEntry else None)"
proof -
  let ?D = "inst_domain inst" and ?name = "flowId @ FLOW_DIRECTORY_NAME_SUFFIX"
  let ?p = "?D @ [?name, FLOW_DATA_FILE_NAME]"
  have p: "makeFlowDirectoryName ?D flowId = ?D @ [?name]" "makeFlowDataFilePath (?D @ [?name]) = ?p"
    by (simp_all add: path_defs)
  from quiet_active [OF q l [unfolded p]] obtain w1 where a: "flow_is_active ?p w = (Ret (\<not> unlocked w i), w1)" and s: "same w w1" and t: "w_tree w1 = w_tree w"
    unfolding p by auto
  have active: "mxlIsFlowActive is_valid_uuid sv (Some inst) (Some flowId) True w = (Ret (MXL_STATUS_OK, Some (\<not> unlocked w i)), w1)"
  proof -
    obtain g w0 where "sys_open ?p w = (Inr g, w0)"
      using l q by (auto simp: sys_open_def quiet_syscall p lookup_def tick_def new_fd_def)
    with a vld show ?thesis
      by (auto simp: mxlIsFlowActive_def flow_is_active_def p ibind_def isys_def iret_simps split: prod.splits sum.splits outcome.splits)
  qed
  have ab: "abandoned w1 ?D ?name \<longleftrightarrow> unlocked w i"
    using f l t vld(3) by (simp add: abandoned_def flow_directory_name_parts p same_unlocked [OF s] lookup_def)
  have "lookup w1 ?D = Some DirEntry" using d t by (simp add: lookup_def)
  from collection_removes [OF same_quiet [OF s q] this] obtain n w2 where "garbageCollect ?D w1 = (Ret n, w2)"
    and "\<And>p. lookup w2 p = (if \<exists>name. abandoned w1 ?D name \<and> under (?D @ [name]) p then None else lookup w1 p)"
    by blast
  moreover have "(\<exists>name. abandoned w1 ?D name \<and> under (?D @ [name]) (?D @ [?name])) \<longleftrightarrow> unlocked w i"
    using ab by (auto simp: under_def)
  ultimately show ?thesis
    using q f active t
    by (intro exI [of _ "\<not> unlocked w i"] exI [of _ w1] exI [of _ n] exI [of _ w2]) (simp add: p lookup_def)
qed

section \<open>Examples\<close>

definition ex_still :: "discrete_mem environment" where
  "ex_still = \<lparr>env_mem = (\<lambda>_. rg_mem ex_s1), env_clock = (\<lambda>j. Timepoint (int j)), env_futex = (\<lambda>_ _ _. FUTEX_ETIMEDOUT)\<rparr>"

lemma blocking_read_agrees_with_nonblocking_witness:
  "\<exists>k'. mxlFlowReaderGetGrainSlice (Some (DiscreteFlowReader \<lparr>dr_flowData = True, dr_accessFileFd = 9\<rparr> ex_still (\<lambda>_. Some 0))) 9 1 10 True True 30 0
    = Some (mxlFlowReaderGetGrainSliceNonBlocking (Some (DiscreteFlowReader \<lparr>dr_flowData = True, dr_accessFileFd = 9\<rparr> ex_still (\<lambda>_. Some 0))) 9 1 True True 0, k')"
  by (rule blocking_read_agrees_with_nonblocking [where n = 10])
    (auto simp: ex_still_def toDeadline_def tp_plus_dur_def less_eq_Timepoint_def Timepoint_le_def wrap64_def)

lemma huge_timeout_does_not_wait_witness:
  "\<exists>k'. mxlFlowReaderGetGrainSlice (Some (DiscreteFlowReader \<lparr>dr_flowData = True, dr_accessFileFd = 9\<rparr> ex_still (\<lambda>_. Some 0))) 9 1 0xffffffffffffffff True True 8 0
    = Some (mxlFlowReaderGetGrainSliceNonBlocking (Some (DiscreteFlowReader \<lparr>dr_flowData = True, dr_accessFileFd = 9\<rparr> ex_still (\<lambda>_. Some 0))) 9 1 True True 0, k')"
  by (rule huge_timeout_does_not_wait) (auto simp: ex_still_def less_eq_Timepoint_def Timepoint_le_def)

lemma ex_flow_world_quiet: "quiet ex_flow_world"
  by (simp add: quiet_def ex_flow_world_def ex_os_def)

lemma flow_definition_size_protocol_witness:
  "\<exists>w1 w2. mxlGetFlowDef ex_store (Some ex_instance) (Some ''u'') False (Some 0) ex_flow_world = (Ret (MXL_ERR_INVALID_ARG, Some 3, None), w1)
    \<and> mxlGetFlowDef ex_store (Some ex_instance) (Some ''u'') True (Some 3) w1 = (Ret (MXL_STATUS_OK, Some 3, Some [CHR ''{'', CHR ''}'', CHR 0x00]), w2)"
proof -
  have "lookup ex_flow_world (makeFlowDescriptorFilePath (makeFlowDirectoryName (inst_domain ex_instance) (sv_uuid_to_string ex_store (replicate 16 7)))) = Some (FileEntry 1)"
    by code_simp
  moreover have "f_content (w_file ex_flow_world 1) = TextFile ''{}''" by code_simp
  moreover have "sv_uuid_from_string ex_store ''u'' = Some (replicate 16 7)" by (simp add: ex_store_def)
  ultimately obtain needed w1 w2
    where "mxlGetFlowDef ex_store (Some ex_instance) (Some ''u'') False (Some 0) ex_flow_world = (Ret (MXL_ERR_INVALID_ARG, Some needed, None), w1)"
      and "mxlGetFlowDef ex_store (Some ex_instance) (Some ''u'') True (Some needed) w1 = (Ret (MXL_STATUS_OK, Some needed, Some (''{}'' @ [CHR 0x00])), w2)"
      and n: "unat needed = length ''{}'' + 1"
    using flow_definition_size_protocol [OF ex_flow_world_quiet, of ex_store "''u''" "replicate 16 7" ex_instance 1 "''{}''" 0] by auto
  moreover have "needed = 3" using n by (simp add: word_unat_eq_iff)
  ultimately show ?thesis by auto
qed

lemma inactive_flows_are_collected_witness:
  "\<exists>active w1 n w2. mxlIsFlowActive (\<lambda>s. s = ''u'') ex_store (Some ex_instance) (Some ''u'') True ex_flow_world = (Ret (MXL_STATUS_OK, Some active), w1)
    \<and> garbageCollect [''domain''] w1 = (Ret n, w2) \<and> lookup w2 [''domain'', ''u.mxl-flow''] = (if active then Some DirEntry else None)"
proof -
  have "lookup ex_flow_world (inst_domain ex_instance) = Some DirEntry"
    "lookup ex_flow_world (makeFlowDirectoryName (inst_domain ex_instance) ''u'') = Some DirEntry"
    "lookup ex_flow_world (makeFlowDataFilePath (makeFlowDirectoryName (inst_domain ex_instance) ''u'')) = Some (FileEntry 3)"
    by code_simp+
  from inactive_flows_are_collected [OF ex_flow_world_quiet this(1) _ _ _ this(2,3), of "\<lambda>s. s = ''u''" ex_store]
  show ?thesis by (simp add: ex_store_def ex_instance_def path_defs path_names)
qed

end
