(* ===== verification/Fabric.thy ===== *)
theory Fabric
  imports FlowTypes
begin

text \<open>
  The fabrics library over libfabric: the programs it is written in, what it uses of libfabric, and
  its wrappers of libfabric objects (\<open>Exception.hpp\<close>, \<open>Completion.cpp\<close>, \<open>CompletionQueue.cpp\<close>,
  \<open>Event.cpp\<close>, \<open>EventQueue.cpp\<close>, \<open>AddressVector.cpp\<close>, \<open>PassiveEndpoint.cpp\<close>, \<open>Endpoint.cpp\<close>).
  libfabric is a parameter: what its calls and queue reads answer is a function of the number of
  calls made so far, as is the clock. The objects it opened are numbered handles with the context
  value they were opened with; a handle is dangling once it is closed.
\<close>

section \<open>Programs over a state\<close>

text \<open>
  A program returns or throws with the state it leaves; the state of an object method is the object
  paired with the fabric.
\<close>

type_synonym ('s, 'a) prog = "'s \<Rightarrow> 'a outcome \<times> 's"

definition pret :: "'a \<Rightarrow> ('s, 'a) prog" where
  "pret a s = (Ret a, s)"

definition pthrow :: "exn \<Rightarrow> ('s, 'a) prog" where
  "pthrow e s = (Throw e, s)"

definition pcrash :: "crash \<Rightarrow> ('s, 'a) prog" where
  "pcrash c s = (Crash c, s)"

definition plift :: "'a outcome \<Rightarrow> ('s, 'a) prog" where
  "plift r s = (r, s)"

definition pget :: "('s, 's) prog" where
  "pget s = (Ret s, s)"

definition pmodify :: "('s \<Rightarrow> 's) \<Rightarrow> ('s, unit) prog" where
  "pmodify f s = (Ret (), f s)"

definition pbind :: "('s, 'a) prog \<Rightarrow> ('a \<Rightarrow> ('s, 'b) prog) \<Rightarrow> ('s, 'b) prog" where
  "pbind m f s =
     (case m s of
        (Ret a, s') \<Rightarrow> f a s'
      | (Throw e, s') \<Rightarrow> (Throw e, s')
      | (Crash c, s') \<Rightarrow> (Crash c, s'))"

definition pwhen :: "bool \<Rightarrow> ('s, unit) prog \<Rightarrow> ('s, unit) prog" where
  "pwhen b m = (if b then m else pret ())"

text \<open>\<open>catch\<close>; and what runs when an exception leaves a scope, before it travels on.\<close>

definition pcatch :: "('s, 'a) prog \<Rightarrow> (exn \<Rightarrow> ('s, 'a) prog) \<Rightarrow> ('s, 'a) prog" where
  "pcatch m h s = (case m s of (Throw e, s') \<Rightarrow> h e s' | r \<Rightarrow> r)"

definition punwind :: "('s, 'a) prog \<Rightarrow> ('s, unit) prog \<Rightarrow> ('s, 'a) prog" where
  "punwind m c = pcatch m (\<lambda>e. pbind c (\<lambda>_. pthrow e))"

text \<open>A program on the second component of a pair, and one on the first.\<close>

definition net :: "('f, 'a) prog \<Rightarrow> ('o \<times> 'f, 'a) prog" where
  "net m s = (case m (snd s) of (r, f) \<Rightarrow> (r, (fst s, f)))"

definition own :: "('o, 'a) prog \<Rightarrow> ('o \<times> 'f, 'a) prog" where
  "own m s = (case m (fst s) of (r, a) \<Rightarrow> (r, (a, snd s)))"

lemma pbind_assoc: "pbind (pbind m f) g = pbind m (\<lambda>a. pbind (f a) g)"
  by (rule ext) (simp add: pbind_def split: prod.split outcome.split)

lemma prog_simps [simp]:
  "pret a s = (Ret a, s)" "pthrow e s = (Throw e, s)" "pcrash c s = (Crash c, s)" "plift r s = (r, s)" "pmodify g s = (Ret (), g s)"
  by (simp_all add: pret_def pthrow_def pcrash_def plift_def pmodify_def)

lemma pget_simp [simp]: "pget s = (Ret s, s)"
  by (simp add: pget_def)

lemma pbind_ret [simp]: "pbind (pret a) f = f a" "pbind m pret = m"
  by (auto simp: pbind_def fun_eq_iff pret_def split: prod.split outcome.split)

lemma pbind_cases:
  assumes "pbind m f s = (r, s')"
  obtains (Ret) a s1 where "m s = (Ret a, s1)" and "f a s1 = (r, s')"
  | (Throw) e where "m s = (Throw e, s')" and "r = Throw e"
  | (Crash) c where "m s = (Crash c, s')" and "r = Crash c"
  using assms by (auto simp: pbind_def split: prod.splits outcome.splits)

lemma pbind_eq_Ret: "pbind m f s = (Ret b, s') \<longleftrightarrow> (\<exists>a s1. m s = (Ret a, s1) \<and> f a s1 = (Ret b, s'))"
  by (auto simp: pbind_def split: prod.splits outcome.splits)

lemma pbind_Ret: "m s = (Ret a, s1) \<Longrightarrow> pbind m f s = f a s1"
  by (simp add: pbind_def)

section \<open>libfabric\<close>

type_synonym fid = nat

record cq_data_entry =
  cqe_token :: u64
  cqe_remote_cq_data :: bool
  cqe_data :: u64

text \<open>The answer to a read of a completion queue or of an event queue.\<close>

datatype cq_read =
    CqAgain
  | CqAvail u64
  | CqFailed int
  | CqEntry cq_data_entry

datatype event_type =
    FI_CONNREQ
  | FI_CONNECTED
  | FI_SHUTDOWN
  | FI_NOTIFY
  | FI_MR_COMPLETE
  | FI_AV_COMPLETE
  | FI_JOIN_COMPLETE
  | FI_OTHER_EVENT u32

datatype eq_read =
    EqAgain
  | EqAvail fid
  | EqFailed int
  | EqEntry event_type fid

record libfabric =
  lf_call :: "nat \<Rightarrow> int"
  lf_cq :: "nat \<Rightarrow> cq_read"
  lf_eq :: "nat \<Rightarrow> eq_read"
  lf_clock :: "nat \<Rightarrow> int"
  lf_random :: "nat \<Rightarrow> u64"
  lf_address :: "nat \<Rightarrow> u64"
  lf_alloc :: "nat \<Rightarrow> u64"
  lf_infos :: "nat \<Rightarrow> nat"
  lf_name :: "fid \<Rightarrow> u8 list"
  lf_iov_limit :: nat
  lf_virtual_addresses :: bool
  lf_recv_buffer_for_data :: bool
  lf_desc :: "fid \<Rightarrow> u64"
  lf_key :: "fid \<Rightarrow> u64"

text \<open>
  A memory region as the library passes it about (\<open>LocalRegion.hpp\<close>, \<open>RemoteRegion.hpp\<close>), and an
  operation posted to the work queue of an endpoint.
\<close>

record LocalRegion =
  lr_addr :: u64
  lr_len :: u64
  lr_desc :: u64

record RemoteRegion =
  rr_addr :: u64
  rr_len :: u64
  rr_rkey :: u64

record rma_write =
  wr_endpoint :: fid
  wr_token :: u64
  wr_local :: "LocalRegion list"
  wr_remote :: RemoteRegion
  wr_dest :: u64
  wr_imm :: "u32 option"

text \<open>
  A region of local memory (\<open>Region.hpp\<close>) is an address and a size; for a grain of a writer it also
  points to fields of the grain header, which the number of the grain stands for.
\<close>

datatype Location = HostLocation | CudaLocation int

record Region =
  rg_base :: u64
  rg_size :: u64
  rg_grain :: "nat option"
  rg_loc :: Location

record RegisteredRegion =
  reg_mr :: fid
  reg_region :: Region

text \<open>
  The state: the number of calls so far, the next handle, the open handles with their context, the
  writes posted (the newest last), the number of receive buffers posted, the addresses in the address
  vector, and the regions registered with the domain, of which an initiator or a target has one.
\<close>

record fabric =
  fb_env :: libfabric
  fb_tick :: nat
  fb_next :: fid
  fb_open :: "(fid \<times> u64) list"
  fb_writes :: "rma_write list"
  fb_recvs :: nat
  fb_addresses :: "u64 list"
  fb_regions :: "RegisteredRegion list"

type_synonym 'a fab = "(fabric, 'a) prog"

definition ftick :: "fabric \<Rightarrow> fabric" where
  "ftick f = f\<lparr>fb_tick := Suc (fb_tick f)\<rparr>"

lemma ftick_simps [simp]:
  "fb_env (ftick f) = fb_env f" "fb_next (ftick f) = fb_next f" "fb_open (ftick f) = fb_open f"
  "fb_writes (ftick f) = fb_writes f" "fb_recvs (ftick f) = fb_recvs f" "fb_addresses (ftick f) = fb_addresses f"
  "fb_regions (ftick f) = fb_regions f"
  "fb_tick (ftick f) = Suc (fb_tick f)"
  by (simp_all add: ftick_def)

definition steady_clock :: "int fab" where
  "steady_clock f = (Ret (lf_clock (fb_env f) (fb_tick f)), ftick f)"

definition random_device :: "u64 fab" where
  "random_device f = (Ret (lf_random (fb_env f) (fb_tick f)), ftick f)"

text \<open>The address of a block of memory the library allocates and registers.\<close>

definition allocate :: "u64 fab" where
  "allocate f = (Ret (lf_alloc (fb_env f) (fb_tick f)), ftick f)"

section \<open>Errors\<close>

definition FI_EINTR :: int where "FI_EINTR = 4"
definition FI_EAGAIN :: int where "FI_EAGAIN = 11"

definition mxlStatusFromFiErrno :: "int \<Rightarrow> mxlStatus" where
  "mxlStatusFromFiErrno fiErrno =
     (if fiErrno = - FI_EINTR then MXL_ERR_INTERRUPTED
      else if fiErrno = - FI_EAGAIN then MXL_ERR_NOT_READY
      else MXL_ERR_UNKNOWN)"

definition fiCall :: "(fabric \<Rightarrow> 'a \<times> fabric) \<Rightarrow> 'a fab" where
  "fiCall effect f =
     (let result = lf_call (fb_env f) (fb_tick f) in
      if result < 0 then (Throw (StatusException (mxlStatusFromFiErrno result)), ftick f)
      else (case effect (ftick f) of (a, f') \<Rightarrow> (Ret a, f')))"

lemma fiCall_Ret:
  "fiCall effect f = (Ret a, f') \<longleftrightarrow> 0 \<le> lf_call (fb_env f) (fb_tick f) \<and> effect (ftick f) = (a, f')"
  by (auto simp: fiCall_def Let_def split: prod.splits)

definition open_handle :: "u64 \<Rightarrow> fabric \<Rightarrow> fid \<times> fabric" where
  "open_handle ctx f = (fb_next f, f\<lparr>fb_next := Suc (fb_next f), fb_open := (fb_next f, ctx) # fb_open f\<rparr>)"

definition close_handle :: "fid \<Rightarrow> fabric \<Rightarrow> fabric" where
  "close_handle h f = f\<lparr>fb_open := filter (\<lambda>(h', _). h' \<noteq> h) (fb_open f)\<rparr>"

definition no_effect :: "fabric \<Rightarrow> unit \<times> fabric" where
  "no_effect f = ((), f)"

section \<open>Completions and events\<close>

datatype Completion =
    CompletionData cq_data_entry
  | CompletionError u64

definition completion_data :: "cq_data_entry \<Rightarrow> u64 option" where
  "completion_data d = (if \<not> cqe_remote_cq_data d then None else Some (cqe_data d))"

definition tryData :: "Completion \<Rightarrow> cq_data_entry option" where
  "tryData c = (case c of CompletionData d \<Rightarrow> Some d | CompletionError _ \<Rightarrow> None)"

definition tryErr :: "Completion \<Rightarrow> u64 option" where
  "tryErr c = (case c of CompletionData _ \<Rightarrow> None | CompletionError t \<Rightarrow> Some t)"

definition isErrEntry :: "Completion \<Rightarrow> bool" where
  "isErrEntry c = (case c of CompletionData _ \<Rightarrow> False | CompletionError _ \<Rightarrow> True)"

definition get_data :: "Completion \<Rightarrow> cq_data_entry outcome" where
  "get_data c = (case tryData c of Some d \<Rightarrow> Ret d | None \<Rightarrow> Throw (StatusException MXL_ERR_INVALID_STATE))"

definition completion_token :: "Completion \<Rightarrow> u64" where
  "completion_token c = (case c of CompletionData d \<Rightarrow> cqe_token d | CompletionError t \<Rightarrow> t)"

definition cq_handleReadResult :: "cq_read \<Rightarrow> Completion option outcome" where
  "cq_handleReadResult r =
     (case r of
        CqAgain \<Rightarrow> Ret None
      | CqAvail token \<Rightarrow> Ret (Some (CompletionError token))
      | CqFailed ret \<Rightarrow> Throw (StatusException (mxlStatusFromFiErrno ret))
      | CqEntry d \<Rightarrow> Ret (Some (CompletionData d)))"

text \<open>
  A blocking read waits inside libfabric; what it answers is again up to the environment, and how
  long it takes is in the clock.
\<close>

definition cq_read :: "Completion option fab" where
  "cq_read f = (cq_handleReadResult (lf_cq (fb_env f) (fb_tick f)), ftick f)"

definition cq_readBlocking :: "int \<Rightarrow> Completion option fab" where
  "cq_readBlocking timeout =
     (let timeoutMs = timeout sdiv 1000000 in
      if timeoutMs = 0 then cq_read
      else (\<lambda>f. (cq_handleReadResult (lf_cq (fb_env f) (fb_tick f)), ftick f)))"

datatype Event =
    ConnectionRequestedEvent fid
  | ConnectedEvent fid
  | ShutdownEvent fid
  | ErrorEvent fid

definition event_fid :: "Event \<Rightarrow> fid" where
  "event_fid ev = (case ev of ConnectionRequestedEvent h \<Rightarrow> h | ConnectedEvent h \<Rightarrow> h | ShutdownEvent h \<Rightarrow> h | ErrorEvent h \<Rightarrow> h)"

definition isConnReq :: "Event \<Rightarrow> bool" where
  "isConnReq ev = (case ev of ConnectionRequestedEvent _ \<Rightarrow> True | _ \<Rightarrow> False)"

definition isConnected :: "Event \<Rightarrow> bool" where
  "isConnected ev = (case ev of ConnectedEvent _ \<Rightarrow> True | _ \<Rightarrow> False)"

definition isShutdown :: "Event \<Rightarrow> bool" where
  "isShutdown ev = (case ev of ShutdownEvent _ \<Rightarrow> True | _ \<Rightarrow> False)"

definition isError :: "Event \<Rightarrow> bool" where
  "isError ev = (case ev of ErrorEvent _ \<Rightarrow> True | _ \<Rightarrow> False)"

definition fromRawCMEntry :: "fid \<Rightarrow> event_type \<Rightarrow> Event outcome" where
  "fromRawCMEntry h eventType =
     (case eventType of
        FI_CONNREQ \<Rightarrow> Ret (ConnectionRequestedEvent h)
      | FI_CONNECTED \<Rightarrow> Ret (ConnectedEvent h)
      | FI_SHUTDOWN \<Rightarrow> Ret (ShutdownEvent h)
      | _ \<Rightarrow> Throw (StatusException MXL_ERR_INTERNAL))"

definition fromRawEntry :: "fid \<Rightarrow> event_type \<Rightarrow> Event outcome" where
  "fromRawEntry h eventType = Throw (StatusException MXL_ERR_INTERNAL)"

definition eq_handleReadResult :: "eq_read \<Rightarrow> Event option outcome" where
  "eq_handleReadResult r =
     (case r of
        EqAgain \<Rightarrow> Ret None
      | EqAvail h \<Rightarrow> Ret (Some (ErrorEvent h))
      | EqFailed ret \<Rightarrow> Throw (StatusException (mxlStatusFromFiErrno ret))
      | EqEntry eventType h \<Rightarrow>
          if eventType \<in> {FI_CONNECTED, FI_CONNREQ, FI_SHUTDOWN} then obind (fromRawCMEntry h eventType) (\<lambda>e. Ret (Some e))
          else if eventType \<in> {FI_NOTIFY, FI_MR_COMPLETE, FI_AV_COMPLETE, FI_JOIN_COMPLETE}
          then obind (fromRawEntry h eventType) (\<lambda>e. Ret (Some e))
          else Ret None)"

definition eq_read :: "Event option fab" where
  "eq_read f = (eq_handleReadResult (lf_eq (fb_env f) (fb_tick f)), ftick f)"

definition eq_readBlocking :: "int \<Rightarrow> Event option fab" where
  "eq_readBlocking timeout =
     (let timeoutMs = timeout sdiv 1000000 in
      if timeoutMs = 0 then eq_read
      else (\<lambda>f. (eq_handleReadResult (lf_eq (fb_env f) (fb_tick f)), ftick f)))"

section \<open>Endpoints\<close>

text \<open>
  An optional shared pointer: empty, holding an object, or engaged but null after it was moved from.
\<close>

datatype slot = Unbound | Bound fid | MovedFrom

record Endpoint =
  ep_raw :: "fid option"
  ep_cq :: slot
  ep_eq :: slot
  ep_av :: slot

definition moved_slot :: "slot \<Rightarrow> slot" where
  "moved_slot s = (case s of Unbound \<Rightarrow> Unbound | _ \<Rightarrow> MovedFrom)"

text \<open>What the move constructor leaves in the object it moved from.\<close>

definition moved_from :: "Endpoint \<Rightarrow> Endpoint" where
  "moved_from ep = \<lparr>ep_raw = None, ep_cq = moved_slot (ep_cq ep), ep_eq = moved_slot (ep_eq ep), ep_av = moved_slot (ep_av ep)\<rparr>"

definition Endpoint_create :: "u64 \<Rightarrow> Endpoint fab" where
  "Endpoint_create epid =
     pbind (fiCall (open_handle epid)) (\<lambda>h. pret \<lparr>ep_raw = Some h, ep_cq = Unbound, ep_eq = Unbound, ep_av = Unbound\<rparr>)"

definition with_raw :: "Endpoint \<Rightarrow> (fid \<Rightarrow> 'a fab) \<Rightarrow> 'a fab" where
  "with_raw ep g = (case ep_raw ep of None \<Rightarrow> pcrash NullDereference | Some h \<Rightarrow> g h)"

lemma with_raw_Ret: "with_raw ep g f = (Ret a, f') \<longleftrightarrow> (\<exists>h. ep_raw ep = Some h \<and> g h f = (Ret a, f'))"
  by (auto simp: with_raw_def split: option.splits)

definition idFromFID :: "fid \<Rightarrow> u64 fab" where
  "idFromFID h f = (case map_of (fb_open f) h of Some ctx \<Rightarrow> (Ret ctx, f) | None \<Rightarrow> (Crash DanglingPointer, f))"

definition Endpoint_id :: "Endpoint \<Rightarrow> u64 fab" where
  "Endpoint_id ep = with_raw ep idFromFID"

text \<open>The destructor logs a failure to close and forgets the handle, which stays open.\<close>

definition close_raw :: "fid option \<Rightarrow> unit fab" where
  "close_raw raw =
     (case raw of
        None \<Rightarrow> pret ()
      | Some h \<Rightarrow> pcatch (fiCall (\<lambda>f. ((), close_handle h f))) (\<lambda>_. pret ()))"

definition Endpoint_destroy :: "Endpoint \<Rightarrow> unit fab" where
  "Endpoint_destroy ep = close_raw (ep_raw ep)"

definition bind_eq :: "Endpoint \<Rightarrow> fid \<Rightarrow> Endpoint fab" where
  "bind_eq ep eq = with_raw ep (\<lambda>_. pbind (fiCall no_effect) (\<lambda>_. pret (ep\<lparr>ep_eq := Bound eq\<rparr>)))"

definition bind_cq :: "Endpoint \<Rightarrow> fid \<Rightarrow> Endpoint fab" where
  "bind_cq ep cq = with_raw ep (\<lambda>_. pbind (fiCall no_effect) (\<lambda>_. pret (ep\<lparr>ep_cq := Bound cq\<rparr>)))"

definition bind_av :: "Endpoint \<Rightarrow> fid \<Rightarrow> Endpoint fab" where
  "bind_av ep av = with_raw ep (\<lambda>_. pbind (fiCall no_effect) (\<lambda>_. pret (ep\<lparr>ep_av := Bound av\<rparr>)))"

definition ep_enable :: "Endpoint \<Rightarrow> unit fab" where
  "ep_enable ep = with_raw ep (\<lambda>_. fiCall no_effect)"

definition ep_accept :: "Endpoint \<Rightarrow> unit fab" where
  "ep_accept ep = with_raw ep (\<lambda>_. fiCall no_effect)"

definition ep_connect :: "Endpoint \<Rightarrow> u8 list \<Rightarrow> unit fab" where
  "ep_connect ep addr = with_raw ep (\<lambda>_. fiCall no_effect)"

definition ep_shutdown :: "Endpoint \<Rightarrow> unit fab" where
  "ep_shutdown ep = with_raw ep (\<lambda>_. fiCall no_effect)"

definition ep_recv :: "Endpoint \<Rightarrow> LocalRegion \<Rightarrow> unit fab" where
  "ep_recv ep region = with_raw ep (\<lambda>_. fiCall (\<lambda>f. ((), f\<lparr>fb_recvs := Suc (fb_recvs f)\<rparr>)))"

definition slot_queue :: "slot \<Rightarrow> fid outcome" where
  "slot_queue s =
     (case s of
        Unbound \<Rightarrow> Throw (StatusException MXL_ERR_INTERNAL)
      | Bound q \<Rightarrow> Ret q
      | MovedFrom \<Rightarrow> Crash NullDereference)"

text \<open>
  \<open>readQueues\<close> reads both queues; the blocking form polls the event queue every 100 ms at most and
  waits on the completion queue in between, until its deadline.
\<close>

text \<open>Dereferencing an optional queue, which is undefined when there is none.\<close>

definition deref :: "slot \<Rightarrow> 'a fab \<Rightarrow> 'a fab" where
  "deref s m = (case s of Unbound \<Rightarrow> pcrash EmptyOptional | Bound _ \<Rightarrow> m | MovedFrom \<Rightarrow> pcrash NullDereference)"

definition if_bound :: "slot \<Rightarrow> 'a option fab \<Rightarrow> 'a option fab" where
  "if_bound s m = (if s = Unbound then pret None else deref s m)"

definition readQueues :: "Endpoint \<Rightarrow> (Completion option \<times> Event option) fab" where
  "readQueues ep =
     pbind (if_bound (ep_cq ep) cq_read) (\<lambda>completion.
     pbind (if_bound (ep_eq ep) eq_read) (\<lambda>event.
       pret (completion, event)))"

definition EQReadInterval :: int where "EQReadInterval = 100"

fun read_until :: "nat \<Rightarrow> Endpoint \<Rightarrow> int \<Rightarrow> (Completion option \<times> Event option) option fab" where
  "read_until 0 ep deadline = pret None"
| "read_until (Suc fuel) ep deadline =
     pbind steady_clock (\<lambda>now.
       let timeUntilDeadline = (deadline - now) sdiv 1000000 in
       if timeUntilDeadline \<le> 0 then pret (Some (None, None))
       else pbind (deref (ep_eq ep) eq_read) (\<lambda>event.
         if event \<noteq> None then pret (Some (None, event))
         else pbind (deref (ep_cq ep) (cq_readBlocking (min EQReadInterval timeUntilDeadline * 1000000))) (\<lambda>completion.
           if completion \<noteq> None then pret (Some (completion, None))
           else read_until fuel ep deadline)))"

definition readQueuesBlocking :: "nat \<Rightarrow> Endpoint \<Rightarrow> int \<Rightarrow> (Completion option \<times> Event option) option fab" where
  "readQueuesBlocking fuel ep timeout =
     (if ep_eq ep = Unbound \<and> ep_cq ep = Unbound then pthrow (StatusException MXL_ERR_INVALID_STATE)
      else if ep_eq ep = Unbound then
        pbind (deref (ep_cq ep) (cq_readBlocking timeout)) (\<lambda>completion. pret (Some (completion, None)))
      else if timeout sdiv 1000000 < EQReadInterval then
        pbind (deref (ep_eq ep) eq_read) (\<lambda>event.
        pbind (deref (ep_cq ep) (cq_readBlocking timeout)) (\<lambda>completion. pret (Some (completion, event))))
      else pbind steady_clock (\<lambda>now. read_until fuel ep (now + timeout)))"

section \<open>Address vectors\<close>

text \<open>\<open>insert\<close> throws when not exactly one address was taken; \<open>remove\<close> must not fail, or the process ends.\<close>

definition av_insert :: "u8 list \<Rightarrow> u64 fab" where
  "av_insert addr f =
     (if lf_call (fb_env f) (fb_tick f) \<noteq> 1 then (Throw (StatusException MXL_ERR_INTERNAL), ftick f)
      else let fiAddr = lf_address (fb_env f) (fb_tick f) in
           (Ret fiAddr, (ftick f)\<lparr>fb_addresses := fiAddr # fb_addresses f\<rparr>))"

definition av_remove :: "u64 \<Rightarrow> unit fab" where
  "av_remove addr f =
     (case fiCall (\<lambda>f. ((), f\<lparr>fb_addresses := remove1 addr (fb_addresses f)\<rparr>)) f of
        (Throw _, f') \<Rightarrow> (Crash Terminate, f')
      | r \<Rightarrow> r)"

section \<open>Passive endpoints\<close>

record PassiveEndpoint =
  pep_raw :: "fid option"
  pep_id :: u64
  pep_eq :: slot

definition pep_moved_from :: "PassiveEndpoint \<Rightarrow> PassiveEndpoint" where
  "pep_moved_from pep = \<lparr>pep_raw = None, pep_id = pep_id pep, pep_eq = moved_slot (pep_eq pep)\<rparr>"

definition PassiveEndpoint_create :: "PassiveEndpoint fab" where
  "PassiveEndpoint_create =
     pbind random_device (\<lambda>epid.
     pbind (fiCall (open_handle 0)) (\<lambda>h. pret \<lparr>pep_raw = Some h, pep_id = epid, pep_eq = Unbound\<rparr>))"

definition PassiveEndpoint_destroy :: "PassiveEndpoint \<Rightarrow> unit fab" where
  "PassiveEndpoint_destroy pep = close_raw (pep_raw pep)"

definition pep_bind :: "PassiveEndpoint \<Rightarrow> fid \<Rightarrow> PassiveEndpoint fab" where
  "pep_bind pep eq =
     (case pep_raw pep of
        None \<Rightarrow> pcrash NullDereference
      | Some _ \<Rightarrow> pbind (fiCall no_effect) (\<lambda>_. pret (pep\<lparr>pep_eq := Bound eq\<rparr>)))"

definition pep_listen :: "PassiveEndpoint \<Rightarrow> unit fab" where
  "pep_listen pep = (case pep_raw pep of None \<Rightarrow> pcrash NullDereference | Some _ \<Rightarrow> fiCall no_effect)"

section \<open>The domain\<close>

text \<open>
  Registering a region takes a random key and one call; the regions registered before a failure stay
  registered. The lists of local and remote regions are those of all registered regions, in order.
\<close>

definition registerRegion :: "Region \<Rightarrow> unit fab" where
  "registerRegion region =
     pbind random_device (\<lambda>_.
     pbind (fiCall (open_handle 0)) (\<lambda>mr.
       pmodify (\<lambda>f. f\<lparr>fb_regions := fb_regions f @ [\<lparr>reg_mr = mr, reg_region = region\<rparr>]\<rparr>)))"

fun registerRegions :: "Region list \<Rightarrow> unit fab" where
  "registerRegions [] = pret ()"
| "registerRegions (r # rs) = pbind (registerRegion r) (\<lambda>_. registerRegions rs)"

definition toRemote :: "libfabric \<Rightarrow> RegisteredRegion \<Rightarrow> RemoteRegion" where
  "toRemote lf r =
     \<lparr>rr_addr = (if lf_virtual_addresses lf then rg_base (reg_region r) else 0), rr_len = rg_size (reg_region r),
      rr_rkey = lf_key lf (reg_mr r)\<rparr>"

definition toLocal :: "libfabric \<Rightarrow> RegisteredRegion \<Rightarrow> LocalRegion" where
  "toLocal lf r = \<lparr>lr_addr = rg_base (reg_region r), lr_len = rg_size (reg_region r), lr_desc = lf_desc lf (reg_mr r)\<rparr>"

definition localRegions :: "LocalRegion list fab" where
  "localRegions f = (Ret (map (toLocal (fb_env f)) (fb_regions f)), f)"

definition remoteRegions :: "RemoteRegion list fab" where
  "remoteRegions f = (Ret (map (toRemote (fb_env f)) (fb_regions f)), f)"

end
