(* ===== verification/FabricsData.thy ===== *)
theory FabricsData
  imports Fabric
begin

text \<open>
  The values the fabrics library computes with: sub-regions (\<open>LocalRegion.cpp\<close>, \<open>RemoteRegion.cpp\<close>),
  slice ranges (\<open>GrainSlices.cpp\<close>), the immediate data of a grain (\<open>ImmData.cpp\<close>), data layouts
  (\<open>DataLayout.cpp\<close>), providers (\<open>Provider.cpp\<close>), the description of a target (\<open>TargetInfo.hpp\<close>) and
  the regions of a flow (\<open>Region.cpp\<close>). The lemmas show which bytes of a grain a slice range stands for
  and that immediate data can be unpacked.
\<close>

section \<open>Sub-regions\<close>

definition LocalRegion_sub :: "LocalRegion \<Rightarrow> u64 \<Rightarrow> u64 \<Rightarrow> LocalRegion outcome" where
  "LocalRegion_sub r offset len =
     (if offset + len > lr_len r then Throw (StatusException MXL_ERR_INVALID_STATE)
      else Ret \<lparr>lr_addr = lr_addr r + offset, lr_len = len, lr_desc = lr_desc r\<rparr>)"

definition RemoteRegion_sub :: "RemoteRegion \<Rightarrow> u64 \<Rightarrow> u64 \<Rightarrow> RemoteRegion outcome" where
  "RemoteRegion_sub r offset len =
     (if offset + len > rr_len r then Throw (StatusException MXL_ERR_INVALID_ARG)
      else Ret \<lparr>rr_addr = rr_addr r + offset, rr_len = len, rr_rkey = rr_rkey r\<rparr>)"

section \<open>Slice ranges\<close>

record SliceRange =
  sr_start :: u16
  sr_end :: u16

definition SliceRange_make :: "u16 \<Rightarrow> u16 \<Rightarrow> SliceRange outcome" where
  "SliceRange_make s e = (if s > e then Throw (StatusException MXL_ERR_INVALID_ARG) else Ret \<lparr>sr_start = s, sr_end = e\<rparr>)"

text \<open>The number of slices is an \<open>int\<close>, converted to unsigned for the multiplication.\<close>

definition transferSize :: "SliceRange \<Rightarrow> u32 \<Rightarrow> u32 \<Rightarrow> u32" where
  "transferSize r payloadOffset sliceSize =
     (let sz = (ucast (sr_end r) - ucast (sr_start r)) * sliceSize in if sr_start r = 0 then sz + payloadOffset else sz)"

definition transferOffset :: "SliceRange \<Rightarrow> u32 \<Rightarrow> u32 \<Rightarrow> u32" where
  "transferOffset r payloadOffset sliceSize =
     (if sr_start r = 0 then 0 else payloadOffset + ucast (sr_start r) * sliceSize)"

section \<open>Immediate data\<close>

text \<open>\<open>bit_cast\<close> between the two 16 bit fields and 32 bits, on a little-endian machine.\<close>

definition imm_pack :: "u64 \<Rightarrow> u16 \<Rightarrow> u32" where
  "imm_pack index sliceIndex = or (ucast (ucast index :: u16)) (push_bit 16 (ucast sliceIndex))"

definition imm_unpack :: "u32 \<Rightarrow> u16 \<times> u16" where
  "imm_unpack d = (ucast d, ucast (drop_bit 16 d))"

section \<open>Data layouts\<close>

datatype DataLayout =
    DiscreteLayout "u32 list"
  | ContinuousLayout (lay_sampleSize: u64) (lay_channelCount: u64) (lay_bufferLength: u64)

section \<open>Providers\<close>

datatype mxlFabricsProvider =
    MXL_FABRICS_PROVIDER_AUTO
  | MXL_FABRICS_PROVIDER_TCP
  | MXL_FABRICS_PROVIDER_VERBS
  | MXL_FABRICS_PROVIDER_EFA
  | MXL_FABRICS_PROVIDER_SHM
  | MXL_FABRICS_PROVIDER_OTHER int

datatype Provider = TCP | VERBS | EFA | SHM

definition providerToAPI :: "Provider \<Rightarrow> mxlFabricsProvider" where
  "providerToAPI p =
     (case p of TCP \<Rightarrow> MXL_FABRICS_PROVIDER_TCP | VERBS \<Rightarrow> MXL_FABRICS_PROVIDER_VERBS
      | EFA \<Rightarrow> MXL_FABRICS_PROVIDER_EFA | SHM \<Rightarrow> MXL_FABRICS_PROVIDER_SHM)"

definition providerFromAPI :: "mxlFabricsProvider \<Rightarrow> Provider option" where
  "providerFromAPI api =
     (case api of
        MXL_FABRICS_PROVIDER_AUTO \<Rightarrow> Some TCP
      | MXL_FABRICS_PROVIDER_TCP \<Rightarrow> Some TCP
      | MXL_FABRICS_PROVIDER_VERBS \<Rightarrow> Some VERBS
      | MXL_FABRICS_PROVIDER_EFA \<Rightarrow> Some EFA
      | MXL_FABRICS_PROVIDER_SHM \<Rightarrow> Some SHM
      | MXL_FABRICS_PROVIDER_OTHER _ \<Rightarrow> None)"

definition providerFromString :: "string \<Rightarrow> Provider option" where
  "providerFromString s = map_of [(''tcp'', TCP), (''verbs'', VERBS), (''efa'', EFA), (''shm'', SHM)] s"

section \<open>The description of a target\<close>

record TargetInfo =
  ti_id :: u64
  ti_address :: "u8 list"
  ti_regions :: "RemoteRegion list"
  ti_bounce :: "(u64 \<times> u64) option"

text \<open>The comparison does not look at the bounce buffer.\<close>

definition TargetInfo_eq :: "TargetInfo \<Rightarrow> TargetInfo \<Rightarrow> bool" where
  "TargetInfo_eq a b \<longleftrightarrow> ti_address a = ti_address b \<and> ti_regions a = ti_regions b \<and> ti_id a = ti_id b"

section \<open>The regions of a flow\<close>

record MxlRegions =
  mr_regions :: "Region list"
  mr_layout :: DataLayout
  mr_maxSync :: u32

text \<open>
  The flow is its header, the address and the header of every grain it maps, and for a continuous
  flow the address, the size and the sample size of the mapped channels.
\<close>

record mapped_flow =
  mf_info :: mxlFlowInfo
  mf_grains :: "(u64 \<times> mxlGrainInfo) list"
  mf_channels :: u64
  mf_channelsSize :: u64
  mf_sampleWordSize :: u64

definition host_region :: "u64 \<Rightarrow> u64 \<Rightarrow> Region" where
  "host_region addr len = \<lparr>rg_base = addr, rg_size = len, rg_grain = None, rg_loc = HostLocation\<rparr>"

definition mxlFabricsRegionsFromFlow :: "mapped_flow \<Rightarrow> MxlRegions outcome" where
  "mxlFabricsRegionsFromFlow fl =
     (let cfg = config (mf_info fl) in
      if payloadLocation (common cfg) \<noteq> MXL_PAYLOAD_LOCATION_HOST_MEMORY then Throw (StatusException MXL_ERR_UNKNOWN)
      else if mxlIsDiscreteDataFormat (cfg_format (common cfg)) then
        Ret \<lparr>mr_regions = map (\<lambda>(addr, info). host_region addr (of_nat MXL_GRAIN_PAYLOAD_OFFSET + ucast (grainSize info))) (mf_grains fl),
             mr_layout = DiscreteLayout (sliceSizes (discrete cfg)), mr_maxSync = maxSyncBatchSizeHint (common cfg)\<rparr>
      else if mxlIsContinuousDataFormat (cfg_format (common cfg)) then
        Ret \<lparr>mr_regions = [host_region (mf_channels fl) (mf_channelsSize fl)],
             mr_layout = ContinuousLayout (mf_sampleWordSize fl) (ucast (channelCount (continuous cfg))) (ucast (bufferLength (continuous cfg))),
             mr_maxSync = maxSyncBatchSizeHint (common cfg)\<rparr>
      else Throw (StatusException MXL_ERR_UNKNOWN))"

definition mxlFabricsRegionsFromMutableFlow :: "mapped_flow \<Rightarrow> MxlRegions outcome" where
  "mxlFabricsRegionsFromMutableFlow fl =
     obind (mxlFabricsRegionsFromFlow fl) (\<lambda>mxlRegions.
       if mxlIsDiscreteDataFormat (cfg_format (common (config (mf_info fl)))) then
         if length (mr_regions mxlRegions) \<noteq> length (mf_grains fl) then Throw (StatusException MXL_ERR_INVALID_STATE)
         else Ret (mxlRegions\<lparr>mr_regions := map (\<lambda>(i, r). r\<lparr>rg_grain := Some i\<rparr>) (enumerate 0 (mr_regions mxlRegions))\<rparr>)
       else Ret mxlRegions)"

text \<open>The grain headers the regions of a writer point to are those of the flow it writes.\<close>

definition grain_pointer :: "Region list \<Rightarrow> u16 \<Rightarrow> nat outcome" where
  "grain_pointer regions slot =
     (if unat slot \<ge> length regions then Throw (StatusException MXL_ERR_INVALID_ARG)
      else (case rg_grain (regions ! unat slot) of None \<Rightarrow> Crash NullDereference | Some i \<Rightarrow> Ret i))"

definition getGrainIndexInRingSlot :: "Region list \<Rightarrow> u16 \<Rightarrow> mxlGrainInfo list \<Rightarrow> u64 outcome" where
  "getGrainIndexInRingSlot regions slot infos = obind (grain_pointer regions slot) (\<lambda>i. Ret (gi_index (infos ! i)))"

definition setValidSlicesForGrain :: "Region list \<Rightarrow> u16 \<Rightarrow> u16 \<Rightarrow> mxlGrainInfo list \<Rightarrow> mxlGrainInfo list outcome" where
  "setValidSlicesForGrain regions slot valid infos =
     obind (grain_pointer regions slot) (\<lambda>i. Ret (infos[i := (infos ! i)\<lparr>validSlices := valid\<rparr>]))"

section \<open>Immediate data can be unpacked\<close>

lemma imm_unpack_pack:
  assumes "unat index < 2 ^ 16"
  shows "imm_unpack (imm_pack index sl) = (ucast index, sl)"
proof -
  have "ucast (or (ucast (ucast index :: u16)) (push_bit 16 (ucast sl) :: u32)) = (ucast index :: u16)"
    by (rule bit_word_eqI) (auto simp: bit_simps)
  moreover have "ucast (drop_bit 16 (or (ucast (ucast index :: u16)) (push_bit 16 (ucast sl) :: u32))) = (sl :: u16)"
    by (rule bit_word_eqI) (auto simp: bit_simps dest: bit_imp_le_length)
  ultimately show ?thesis by (simp add: imm_unpack_def imm_pack_def)
qed

section \<open>The bytes of a slice range\<close>

lemma unat_ucast_16_32 [simp]: "unat (ucast (x :: u16) :: u32) = unat x"
  using unsigned_less [where ?'a = nat and w = x] by (simp add: unsigned_ucast_eq take_bit_nat_eq_self_iff)

definition range_bytes :: "u32 \<Rightarrow> u32 \<Rightarrow> SliceRange \<Rightarrow> nat list" where
  "range_bytes payloadOffset sliceSize r =
     [unat (transferOffset r payloadOffset sliceSize)..<
      unat (transferOffset r payloadOffset sliceSize) + unat (transferSize r payloadOffset sliceSize)]"

lemma range_bytes_eq:
  assumes "sr_start r \<le> sr_end r" and "unat p + unat (sr_end r) * unat z < 2 ^ 32"
  shows "range_bytes p z r = [(if sr_start r = 0 then 0 else unat p + unat (sr_start r) * unat z)..<unat p + unat (sr_end r) * unat z]"
proof -
  let ?s = "unat (sr_start r)" and ?e = "unat (sr_end r)" and ?z = "unat z"
  have le: "?s \<le> ?e" using assms(1) by (simp add: word_le_nat_alt)
  have u: "unat (ucast x :: u32) = unat x" for x :: u16
    by (rule unat_ucast_16_32)
  have d: "unat (ucast (sr_end r) - ucast (sr_start r) :: u32) = ?e - ?s"
    using le by (subst unat_sub_le) (simp_all add: word_le_nat_alt u)
  have "(?e - ?s) * ?z \<le> ?e * ?z" by simp
  then have "(?e - ?s) * ?z < 2 ^ 32" using assms(2) by linarith
  then have m: "unat ((ucast (sr_end r) - ucast (sr_start r)) * z) = (?e - ?s) * ?z"
    using d by (subst unat_mult_lt) auto
  have "?s * ?z \<le> ?e * ?z" using le by simp
  then have small: "unat p + ?s * ?z < 2 ^ 32" using assms(2) by linarith
  then have "?s * ?z < 2 ^ 32" by linarith
  then have sz: "unat (ucast (sr_start r) * z) = ?s * ?z" by (subst unat_mult_lt) auto
  with small have o: "unat (p + ucast (sr_start r) * z) = unat p + ?s * ?z"
    by (subst unat_add_lt) auto
  show ?thesis
  proof (cases "sr_start r = 0")
    case True
    then have "unat ((ucast (sr_end r) - ucast (sr_start r)) * z + p) = ?e * ?z + unat p"
      using assms(2) m by (subst unat_add_lt) auto
    with True show ?thesis by (simp add: range_bytes_def transferOffset_def transferSize_def add.commute)
  next
    case False
    have "?s * ?z + (?e - ?s) * ?z = ?e * ?z"
      using le by (simp flip: add_mult_distrib)
    with False show ?thesis by (simp add: range_bytes_def transferOffset_def transferSize_def o m add.assoc)
  qed
qed

text \<open>The ranges between increasing cuts, starting with the first slice.\<close>

fun ranges :: "u16 \<Rightarrow> u16 list \<Rightarrow> SliceRange list" where
  "ranges s [] = []"
| "ranges s (e # es) = \<lparr>sr_start = s, sr_end = e\<rparr> # ranges e es"

definition range_base :: "u32 \<Rightarrow> u32 \<Rightarrow> u16 \<Rightarrow> nat" where
  "range_base p z s = (if s = 0 then 0 else unat p + unat s * unat z)"

lemma upt_add_eq_append': "i \<le> j \<Longrightarrow> j \<le> k \<Longrightarrow> [i..<k] = [i..<j] @ [j..<k]"
  using upt_add_eq_append [of i j "k - j"] by simp

lemma ranges_bytes:
  assumes "sorted_wrt (<) (s # es)" and "es \<noteq> []" and "unat p + unat (last es) * unat z < 2 ^ 32"
  shows "concat (map (range_bytes p z) (ranges s es)) = [range_base p z s..<unat p + unat (last es) * unat z]"
  using assms
proof (induction es arbitrary: s)
  case Nil
  then show ?case by simp
next
  case (Cons e es)
  have "e \<le> last (e # es)" using Cons.prems(1) by (cases es) (auto simp: less_imp_le)
  then have "unat e * unat z \<le> unat (last (e # es)) * unat z" by (simp add: word_le_nat_alt)
  then have fits: "unat p + unat e * unat z < 2 ^ 32" using Cons.prems(3) by linarith
  have "s < e" using Cons.prems(1) by simp
  then have pos: "e \<noteq> 0" and le: "unat s * unat z \<le> unat e * unat z" by (auto simp: word_less_nat_alt)
  have h: "range_bytes p z \<lparr>sr_start = s, sr_end = e\<rparr> = [range_base p z s..<unat p + unat e * unat z]"
    using range_bytes_eq [of "\<lparr>sr_start = s, sr_end = e\<rparr>" p z] \<open>s < e\<close> fits by (simp add: range_base_def)
  show ?case
  proof (cases "es = []")
    case True
    with h show ?thesis by simp
  next
    case False
    with Cons.IH [of e] Cons.prems have "concat (map (range_bytes p z) (ranges e es)) = [range_base p z e..<unat p + unat (last es) * unat z]"
      by simp
    moreover have "range_base p z s \<le> unat p + unat e * unat z" using le by (simp add: range_base_def)
    moreover have "unat p + unat e * unat z \<le> unat p + unat (last es) * unat z"
      using \<open>unat e * unat z \<le> unat (last (e # es)) * unat z\<close> False by simp
    ultimately show ?thesis
      using h False pos upt_add_eq_append' [of "range_base p z s" "unat p + unat e * unat z" "unat p + unat (last es) * unat z"]
      by (simp add: range_base_def)
  qed
qed

text \<open>
  C25: Sending a grain in consecutive ranges of slices, whatever the cuts, sends every byte of the header
  and of the slices of the first plane exactly once, in order, and no other byte: the size of the slices
  of the other planes plays no part.
\<close>

theorem slice_ranges_cover_first_plane:
  assumes "sorted_wrt (<) (0 # cuts)" and "cuts \<noteq> []" and "unat p + unat (last cuts) * unat z < 2 ^ 32"
  shows "concat (map (range_bytes p z) (ranges 0 cuts)) = [0..<unat p + unat (last cuts) * unat z]"
  using ranges_bytes [OF assms] by (simp add: range_base_def)

lemma slice_ranges_cover_first_plane_witness:
  "concat (map (range_bytes 8192 5120) (ranges 0 [270, 1080])) = [0..<8192 + 1080 * 5120]"
  using slice_ranges_cover_first_plane [of "[270, 1080]" 8192 5120] by simp

end
