(* ===== verification/Base64.thy ===== *)
theory Base64
  imports FabricsData
begin

text \<open>
  The encoding of fabric addresses as text (\<open>Base64.hpp\<close>, on a machine that stores the least significant
  byte first): the tables of the code, encoding and decoding, and that decoding inverts encoding. The
  tables are related to the rule that generates them once, by evaluation.
\<close>

unbundle bit_operations_syntax

section \<open>The tables\<close>

definition bad_char :: u32 where "bad_char = 0x01FFFFFF"

definition decode_table_0 :: "u32 list" where
  "decode_table_0 =
    [0x01ffffff, 0x01ffffff, 0x01ffffff, 0x01ffffff, 0x01ffffff, 0x01ffffff, 0x01ffffff, 0x01ffffff, 0x01ffffff, 0x01ffffff,
     0x01ffffff, 0x01ffffff, 0x01ffffff, 0x01ffffff, 0x01ffffff, 0x01ffffff, 0x01ffffff, 0x01ffffff, 0x01ffffff, 0x01ffffff,
     0x01ffffff, 0x01ffffff, 0x01ffffff, 0x01ffffff, 0x01ffffff, 0x01ffffff, 0x01ffffff, 0x01ffffff, 0x01ffffff, 0x01ffffff,
     0x01ffffff, 0x01ffffff, 0x01ffffff, 0x01ffffff, 0x01ffffff, 0x01ffffff, 0x01ffffff, 0x01ffffff, 0x01ffffff, 0x01ffffff,
     0x01ffffff, 0x01ffffff, 0x01ffffff, 0x000000f8, 0x01ffffff, 0x01ffffff, 0x01ffffff, 0x000000fc, 0x000000d0, 0x000000d4,
     0x000000d8, 0x000000dc, 0x000000e0, 0x000000e4, 0x000000e8, 0x000000ec, 0x000000f0, 0x000000f4, 0x01ffffff, 0x01ffffff,
     0x01ffffff, 0x01ffffff, 0x01ffffff, 0x01ffffff, 0x01ffffff, 0x00000000, 0x00000004, 0x00000008, 0x0000000c, 0x00000010,
     0x00000014, 0x00000018, 0x0000001c, 0x00000020, 0x00000024, 0x00000028, 0x0000002c, 0x00000030, 0x00000034, 0x00000038,
     0x0000003c, 0x00000040, 0x00000044, 0x00000048, 0x0000004c, 0x00000050, 0x00000054, 0x00000058, 0x0000005c, 0x00000060,
     0x00000064, 0x01ffffff, 0x01ffffff, 0x01ffffff, 0x01ffffff, 0x01ffffff, 0x01ffffff, 0x00000068, 0x0000006c, 0x00000070,
     0x00000074, 0x00000078, 0x0000007c, 0x00000080, 0x00000084, 0x00000088, 0x0000008c, 0x00000090, 0x00000094, 0x00000098,
     0x0000009c, 0x000000a0, 0x000000a4, 0x000000a8, 0x000000ac, 0x000000b0, 0x000000b4, 0x000000b8, 0x000000bc, 0x000000c0,
     0x000000c4, 0x000000c8, 0x000000cc, 0x01ffffff, 0x01ffffff, 0x01ffffff, 0x01ffffff, 0x01ffffff, 0x01ffffff, 0x01ffffff,
     0x01ffffff, 0x01ffffff, 0x01ffffff, 0x01ffffff, 0x01ffffff, 0x01ffffff, 0x01ffffff, 0x01ffffff, 0x01ffffff, 0x01ffffff,
     0x01ffffff, 0x01ffffff, 0x01ffffff, 0x01ffffff, 0x01ffffff, 0x01ffffff, 0x01ffffff, 0x01ffffff, 0x01ffffff, 0x01ffffff,
     0x01ffffff, 0x01ffffff, 0x01ffffff, 0x01ffffff, 0x01ffffff, 0x01ffffff, 0x01ffffff, 0x01ffffff, 0x01ffffff, 0x01ffffff,
     0x01ffffff, 0x01ffffff, 0x01ffffff, 0x01ffffff, 0x01ffffff, 0x01ffffff, 0x01ffffff, 0x01ffffff, 0x01ffffff, 0x01ffffff,
     0x01ffffff, 0x01ffffff, 0x01ffffff, 0x01ffffff, 0x01ffffff, 0x01ffffff, 0x01ffffff, 0x01ffffff, 0x01ffffff, 0x01ffffff,
     0x01ffffff, 0x01ffffff, 0x01ffffff, 0x01ffffff, 0x01ffffff, 0x01ffffff, 0x01ffffff, 0x01ffffff, 0x01ffffff, 0x01ffffff,
     0x01ffffff, 0x01ffffff, 0x01ffffff, 0x01ffffff, 0x01ffffff, 0x01ffffff, 0x01ffffff, 0x01ffffff, 0x01ffffff, 0x01ffffff,
     0x01ffffff, 0x01ffffff, 0x01ffffff, 0x01ffffff, 0x01ffffff, 0x01ffffff, 0x01ffffff, 0x01ffffff, 0x01ffffff, 0x01ffffff,
     0x01ffffff, 0x01ffffff, 0x01ffffff, 0x01ffffff, 0x01ffffff, 0x01ffffff, 0x01ffffff, 0x01ffffff, 0x01ffffff, 0x01ffffff,
     0x01ffffff, 0x01ffffff, 0x01ffffff, 0x01ffffff, 0x01ffffff, 0x01ffffff, 0x01ffffff, 0x01ffffff, 0x01ffffff, 0x01ffffff,
     0x01ffffff, 0x01ffffff, 0x01ffffff, 0x01ffffff, 0x01ffffff, 0x01ffffff, 0x01ffffff, 0x01ffffff, 0x01ffffff, 0x01ffffff,
     0x01ffffff, 0x01ffffff, 0x01ffffff, 0x01ffffff, 0x01ffffff, 0x01ffffff, 0x01ffffff, 0x01ffffff, 0x01ffffff, 0x01ffffff,
     0x01ffffff, 0x01ffffff, 0x01ffffff, 0x01ffffff, 0x01ffffff, 0x01ffffff]"

definition decode_table_1 :: "u32 list" where
  "decode_table_1 =
    [0x01ffffff, 0x01ffffff, 0x01ffffff, 0x01ffffff, 0x01ffffff, 0x01ffffff, 0x01ffffff, 0x01ffffff, 0x01ffffff, 0x01ffffff,
     0x01ffffff, 0x01ffffff, 0x01ffffff, 0x01ffffff, 0x01ffffff, 0x01ffffff, 0x01ffffff, 0x01ffffff, 0x01ffffff, 0x01ffffff,
     0x01ffffff, 0x01ffffff, 0x01ffffff, 0x01ffffff, 0x01ffffff, 0x01ffffff, 0x01ffffff, 0x01ffffff, 0x01ffffff, 0x01ffffff,
     0x01ffffff, 0x01ffffff, 0x01ffffff, 0x01ffffff, 0x01ffffff, 0x01ffffff, 0x01ffffff, 0x01ffffff, 0x01ffffff, 0x01ffffff,
     0x01ffffff, 0x01ffffff, 0x01ffffff, 0x0000e003, 0x01ffffff, 0x01ffffff, 0x01ffffff, 0x0000f003, 0x00004003, 0x00005003,
     0x00006003, 0x00007003, 0x00008003, 0x00009003, 0x0000a003, 0x0000b003, 0x0000c003, 0x0000d003, 0x01ffffff, 0x01ffffff,
     0x01ffffff, 0x01ffffff, 0x01ffffff, 0x01ffffff, 0x01ffffff, 0x00000000, 0x00001000, 0x00002000, 0x00003000, 0x00004000,
     0x00005000, 0x00006000, 0x00007000, 0x00008000, 0x00009000, 0x0000a000, 0x0000b000, 0x0000c000, 0x0000d000, 0x0000e000,
     0x0000f000, 0x00000001, 0x00001001, 0x00002001, 0x00003001, 0x00004001, 0x00005001, 0x00006001, 0x00007001, 0x00008001,
     0x00009001, 0x01ffffff, 0x01ffffff, 0x01ffffff, 0x01ffffff, 0x01ffffff, 0x01ffffff, 0x0000a001, 0x0000b001, 0x0000c001,
     0x0000d001, 0x0000e001, 0x0000f001, 0x00000002, 0x00001002, 0x00002002, 0x00003002, 0x00004002, 0x00005002, 0x00006002,
     0x00007002, 0x00008002, 0x00009002, 0x0000a002, 0x0000b002, 0x0000c002, 0x0000d002, 0x0000e002, 0x0000f002, 0x00000003,
     0x00001003, 0x00002003, 0x00003003, 0x01ffffff, 0x01ffffff, 0x01ffffff, 0x01ffffff, 0x01ffffff, 0x01ffffff, 0x01ffffff,
     0x01ffffff, 0x01ffffff, 0x01ffffff, 0x01ffffff, 0x01ffffff, 0x01ffffff, 0x01ffffff, 0x01ffffff, 0x01ffffff, 0x01ffffff,
     0x01ffffff, 0x01ffffff, 0x01ffffff, 0x01ffffff, 0x01ffffff, 0x01ffffff, 0x01ffffff, 0x01ffffff, 0x01ffffff, 0x01ffffff,
     0x01ffffff, 0x01ffffff, 0x01ffffff, 0x01ffffff, 0x01ffffff, 0x01ffffff, 0x01ffffff, 0x01ffffff, 0x01ffffff, 0x01ffffff,
     0x01ffffff, 0x01ffffff, 0x01ffffff, 0x01ffffff, 0x01ffffff, 0x01ffffff, 0x01ffffff, 0x01ffffff, 0x01ffffff, 0x01ffffff,
     0x01ffffff, 0x01ffffff, 0x01ffffff, 0x01ffffff, 0x01ffffff, 0x01ffffff, 0x01ffffff, 0x01ffffff, 0x01ffffff, 0x01ffffff,
     0x01ffffff, 0x01ffffff, 0x01ffffff, 0x01ffffff, 0x01ffffff, 0x01ffffff, 0x01ffffff, 0x01ffffff, 0x01ffffff, 0x01ffffff,
     0x01ffffff, 0x01ffffff, 0x01ffffff, 0x01ffffff, 0x01ffffff, 0x01ffffff, 0x01ffffff, 0x01ffffff, 0x01ffffff, 0x01ffffff,
     0x01ffffff, 0x01ffffff, 0x01ffffff, 0x01ffffff, 0x01ffffff, 0x01ffffff, 0x01ffffff, 0x01ffffff, 0x01ffffff, 0x01ffffff,
     0x01ffffff, 0x01ffffff, 0x01ffffff, 0x01ffffff, 0x01ffffff, 0x01ffffff, 0x01ffffff, 0x01ffffff, 0x01ffffff, 0x01ffffff,
     0x01ffffff, 0x01ffffff, 0x01ffffff, 0x01ffffff, 0x01ffffff, 0x01ffffff, 0x01ffffff, 0x01ffffff, 0x01ffffff, 0x01ffffff,
     0x01ffffff, 0x01ffffff, 0x01ffffff, 0x01ffffff, 0x01ffffff, 0x01ffffff, 0x01ffffff, 0x01ffffff, 0x01ffffff, 0x01ffffff,
     0x01ffffff, 0x01ffffff, 0x01ffffff, 0x01ffffff, 0x01ffffff, 0x01ffffff, 0x01ffffff, 0x01ffffff, 0x01ffffff, 0x01ffffff,
     0x01ffffff, 0x01ffffff, 0x01ffffff, 0x01ffffff, 0x01ffffff, 0x01ffffff]"

definition decode_table_2 :: "u32 list" where
  "decode_table_2 =
    [0x01ffffff, 0x01ffffff, 0x01ffffff, 0x01ffffff, 0x01ffffff, 0x01ffffff, 0x01ffffff, 0x01ffffff, 0x01ffffff, 0x01ffffff,
     0x01ffffff, 0x01ffffff, 0x01ffffff, 0x01ffffff, 0x01ffffff, 0x01ffffff, 0x01ffffff, 0x01ffffff, 0x01ffffff, 0x01ffffff,
     0x01ffffff, 0x01ffffff, 0x01ffffff, 0x01ffffff, 0x01ffffff, 0x01ffffff, 0x01ffffff, 0x01ffffff, 0x01ffffff, 0x01ffffff,
     0x01ffffff, 0x01ffffff, 0x01ffffff, 0x01ffffff, 0x01ffffff, 0x01ffffff, 0x01ffffff, 0x01ffffff, 0x01ffffff, 0x01ffffff,
     0x01ffffff, 0x01ffffff, 0x01ffffff, 0x00800f00, 0x01ffffff, 0x01ffffff, 0x01ffffff, 0x00c00f00, 0x00000d00, 0x00400d00,
     0x00800d00, 0x00c00d00, 0x00000e00, 0x00400e00, 0x00800e00, 0x00c00e00, 0x00000f00, 0x00400f00, 0x01ffffff, 0x01ffffff,
     0x01ffffff, 0x01ffffff, 0x01ffffff, 0x01ffffff, 0x01ffffff, 0x00000000, 0x00400000, 0x00800000, 0x00c00000, 0x00000100,
     0x00400100, 0x00800100, 0x00c00100, 0x00000200, 0x00400200, 0x00800200, 0x00c00200, 0x00000300, 0x00400300, 0x00800300,
     0x00c00300, 0x00000400, 0x00400400, 0x00800400, 0x00c00400, 0x00000500, 0x00400500, 0x00800500, 0x00c00500, 0x00000600,
     0x00400600, 0x01ffffff, 0x01ffffff, 0x01ffffff, 0x01ffffff, 0x01ffffff, 0x01ffffff, 0x00800600, 0x00c00600, 0x00000700,
     0x00400700, 0x00800700, 0x00c00700, 0x00000800, 0x00400800, 0x00800800, 0x00c00800, 0x00000900, 0x00400900, 0x00800900,
     0x00c00900, 0x00000a00, 0x00400a00, 0x00800a00, 0x00c00a00, 0x00000b00, 0x00400b00, 0x00800b00, 0x00c00b00, 0x00000c00,
     0x00400c00, 0x00800c00, 0x00c00c00, 0x01ffffff, 0x01ffffff, 0x01ffffff, 0x01ffffff, 0x01ffffff, 0x01ffffff, 0x01ffffff,
     0x01ffffff, 0x01ffffff, 0x01ffffff, 0x01ffffff, 0x01ffffff, 0x01ffffff, 0x01ffffff, 0x01ffffff, 0x01ffffff, 0x01ffffff,
     0x01ffffff, 0x01ffffff, 0x01ffffff, 0x01ffffff, 0x01ffffff, 0x01ffffff, 0x01ffffff, 0x01ffffff, 0x01ffffff, 0x01ffffff,
     0x01ffffff, 0x01ffffff, 0x01ffffff, 0x01ffffff, 0x01ffffff, 0x01ffffff, 0x01ffffff, 0x01ffffff, 0x01ffffff, 0x01ffffff,
     0x01ffffff, 0x01ffffff, 0x01ffffff, 0x01ffffff, 0x01ffffff, 0x01ffffff, 0x01ffffff, 0x01ffffff, 0x01ffffff, 0x01ffffff,
     0x01ffffff, 0x01ffffff, 0x01ffffff, 0x01ffffff, 0x01ffffff, 0x01ffffff, 0x01ffffff, 0x01ffffff, 0x01ffffff, 0x01ffffff,
     0x01ffffff, 0x01ffffff, 0x01ffffff, 0x01ffffff, 0x01ffffff, 0x01ffffff, 0x01ffffff, 0x01ffffff, 0x01ffffff, 0x01ffffff,
     0x01ffffff, 0x01ffffff, 0x01ffffff, 0x01ffffff, 0x01ffffff, 0x01ffffff, 0x01ffffff, 0x01ffffff, 0x01ffffff, 0x01ffffff,
     0x01ffffff, 0x01ffffff, 0x01ffffff, 0x01ffffff, 0x01ffffff, 0x01ffffff, 0x01ffffff, 0x01ffffff, 0x01ffffff, 0x01ffffff,
     0x01ffffff, 0x01ffffff, 0x01ffffff, 0x01ffffff, 0x01ffffff, 0x01ffffff, 0x01ffffff, 0x01ffffff, 0x01ffffff, 0x01ffffff,
     0x01ffffff, 0x01ffffff, 0x01ffffff, 0x01ffffff, 0x01ffffff, 0x01ffffff, 0x01ffffff, 0x01ffffff, 0x01ffffff, 0x01ffffff,
     0x01ffffff, 0x01ffffff, 0x01ffffff, 0x01ffffff, 0x01ffffff, 0x01ffffff, 0x01ffffff, 0x01ffffff, 0x01ffffff, 0x01ffffff,
     0x01ffffff, 0x01ffffff, 0x01ffffff, 0x01ffffff, 0x01ffffff, 0x01ffffff, 0x01ffffff, 0x01ffffff, 0x01ffffff, 0x01ffffff,
     0x01ffffff, 0x01ffffff, 0x01ffffff, 0x01ffffff, 0x01ffffff, 0x01ffffff]"

definition decode_table_3 :: "u32 list" where
  "decode_table_3 =
    [0x01ffffff, 0x01ffffff, 0x01ffffff, 0x01ffffff, 0x01ffffff, 0x01ffffff, 0x01ffffff, 0x01ffffff, 0x01ffffff, 0x01ffffff,
     0x01ffffff, 0x01ffffff, 0x01ffffff, 0x01ffffff, 0x01ffffff, 0x01ffffff, 0x01ffffff, 0x01ffffff, 0x01ffffff, 0x01ffffff,
     0x01ffffff, 0x01ffffff, 0x01ffffff, 0x01ffffff, 0x01ffffff, 0x01ffffff, 0x01ffffff, 0x01ffffff, 0x01ffffff, 0x01ffffff,
     0x01ffffff, 0x01ffffff, 0x01ffffff, 0x01ffffff, 0x01ffffff, 0x01ffffff, 0x01ffffff, 0x01ffffff, 0x01ffffff, 0x01ffffff,
     0x01ffffff, 0x01ffffff, 0x01ffffff, 0x003e0000, 0x01ffffff, 0x01ffffff, 0x01ffffff, 0x003f0000, 0x00340000, 0x00350000,
     0x00360000, 0x00370000, 0x00380000, 0x00390000, 0x003a0000, 0x003b0000, 0x003c0000, 0x003d0000, 0x01ffffff, 0x01ffffff,
     0x01ffffff, 0x01ffffff, 0x01ffffff, 0x01ffffff, 0x01ffffff, 0x00000000, 0x00010000, 0x00020000, 0x00030000, 0x00040000,
     0x00050000, 0x00060000, 0x00070000, 0x00080000, 0x00090000, 0x000a0000, 0x000b0000, 0x000c0000, 0x000d0000, 0x000e0000,
     0x000f0000, 0x00100000, 0x00110000, 0x00120000, 0x00130000, 0x00140000, 0x00150000, 0x00160000, 0x00170000, 0x00180000,
     0x00190000, 0x01ffffff, 0x01ffffff, 0x01ffffff, 0x01ffffff, 0x01ffffff, 0x01ffffff, 0x001a0000, 0x001b0000, 0x001c0000,
     0x001d0000, 0x001e0000, 0x001f0000, 0x00200000, 0x00210000, 0x00220000, 0x00230000, 0x00240000, 0x00250000, 0x00260000,
     0x00270000, 0x00280000, 0x00290000, 0x002a0000, 0x002b0000, 0x002c0000, 0x002d0000, 0x002e0000, 0x002f0000, 0x00300000,
     0x00310000, 0x00320000, 0x00330000, 0x01ffffff, 0x01ffffff, 0x01ffffff, 0x01ffffff, 0x01ffffff, 0x01ffffff, 0x01ffffff,
     0x01ffffff, 0x01ffffff, 0x01ffffff, 0x01ffffff, 0x01ffffff, 0x01ffffff, 0x01ffffff, 0x01ffffff, 0x01ffffff, 0x01ffffff,
     0x01ffffff, 0x01ffffff, 0x01ffffff, 0x01ffffff, 0x01ffffff, 0x01ffffff, 0x01ffffff, 0x01ffffff, 0x01ffffff, 0x01ffffff,
     0x01ffffff, 0x01ffffff, 0x01ffffff, 0x01ffffff, 0x01ffffff, 0x01ffffff, 0x01ffffff, 0x01ffffff, 0x01ffffff, 0x01ffffff,
     0x01ffffff, 0x01ffffff, 0x01ffffff, 0x01ffffff, 0x01ffffff, 0x01ffffff, 0x01ffffff, 0x01ffffff, 0x01ffffff, 0x01ffffff,
     0x01ffffff, 0x01ffffff, 0x01ffffff, 0x01ffffff, 0x01ffffff, 0x01ffffff, 0x01ffffff, 0x01ffffff, 0x01ffffff, 0x01ffffff,
     0x01ffffff, 0x01ffffff, 0x01ffffff, 0x01ffffff, 0x01ffffff, 0x01ffffff, 0x01ffffff, 0x01ffffff, 0x01ffffff, 0x01ffffff,
     0x01ffffff, 0x01ffffff, 0x01ffffff, 0x01ffffff, 0x01ffffff, 0x01ffffff, 0x01ffffff, 0x01ffffff, 0x01ffffff, 0x01ffffff,
     0x01ffffff, 0x01ffffff, 0x01ffffff, 0x01ffffff, 0x01ffffff, 0x01ffffff, 0x01ffffff, 0x01ffffff, 0x01ffffff, 0x01ffffff,
     0x01ffffff, 0x01ffffff, 0x01ffffff, 0x01ffffff, 0x01ffffff, 0x01ffffff, 0x01ffffff, 0x01ffffff, 0x01ffffff, 0x01ffffff,
     0x01ffffff, 0x01ffffff, 0x01ffffff, 0x01ffffff, 0x01ffffff, 0x01ffffff, 0x01ffffff, 0x01ffffff, 0x01ffffff, 0x01ffffff,
     0x01ffffff, 0x01ffffff, 0x01ffffff, 0x01ffffff, 0x01ffffff, 0x01ffffff, 0x01ffffff, 0x01ffffff, 0x01ffffff, 0x01ffffff,
     0x01ffffff, 0x01ffffff, 0x01ffffff, 0x01ffffff, 0x01ffffff, 0x01ffffff, 0x01ffffff, 0x01ffffff, 0x01ffffff, 0x01ffffff,
     0x01ffffff, 0x01ffffff, 0x01ffffff, 0x01ffffff, 0x01ffffff, 0x01ffffff]"

definition encode_table_0 :: string where
  "encode_table_0 =
     ''AAAABBBBCCCCDDDDEEEEFFFFGGGGHHHHIIIIJJJJKKKKLLLLMMMMNNNNOOOOPPPP'' @
     ''QQQQRRRRSSSSTTTTUUUUVVVVWWWWXXXXYYYYZZZZaaaabbbbccccddddeeeeffff'' @
     ''gggghhhhiiiijjjjkkkkllllmmmmnnnnooooppppqqqqrrrrssssttttuuuuvvvv'' @
     ''wwwwxxxxyyyyzzzz0000111122223333444455556666777788889999++++////''"

definition encode_table_1 :: string where
  "encode_table_1 =
     ''ABCDEFGHIJKLMNOPQRSTUVWXYZabcdefghijklmnopqrstuvwxyz0123456789+/'' @
     ''ABCDEFGHIJKLMNOPQRSTUVWXYZabcdefghijklmnopqrstuvwxyz0123456789+/'' @
     ''ABCDEFGHIJKLMNOPQRSTUVWXYZabcdefghijklmnopqrstuvwxyz0123456789+/'' @
     ''ABCDEFGHIJKLMNOPQRSTUVWXYZabcdefghijklmnopqrstuvwxyz0123456789+/''"

section \<open>Encoding\<close>

definition enc0 :: "u8 \<Rightarrow> char" where
  "enc0 i = encode_table_0 ! unat i"

definition enc1 :: "u8 \<Rightarrow> char" where
  "enc1 i = encode_table_1 ! unat i"

text \<open>The two indices that straddle a pair of bytes.\<close>

definition straddle4 :: "u8 \<Rightarrow> u8 \<Rightarrow> u8" where
  "straddle4 t1 t2 = push_bit 4 (t1 AND 0x03) OR (drop_bit 4 t2 AND 0x0F)"

definition straddle2 :: "u8 \<Rightarrow> u8 \<Rightarrow> u8" where
  "straddle2 t2 t3 = push_bit 2 (t2 AND 0x0F) OR (drop_bit 6 t3 AND 0x03)"

fun encode_into :: "u8 list \<Rightarrow> string" where
  "encode_into (t1 # t2 # t3 # bytes) = enc0 t1 # enc1 (straddle4 t1 t2) # enc1 (straddle2 t2 t3) # enc1 t3 # encode_into bytes"
| "encode_into [t1] = [enc0 t1, enc1 (push_bit 4 (t1 AND 0x03)), CHR ''='', CHR ''='']"
| "encode_into [t1, t2] =
     [enc0 t1, enc1 (straddle4 t1 t2), enc1 (push_bit 2 (t2 AND 0x0F)), CHR ''='']"
| "encode_into [] = []"

section \<open>Decoding\<close>

definition dec :: "u32 list \<Rightarrow> char \<Rightarrow> u32" where
  "dec tab c = tab ! of_char c"

text \<open>The bytes of a decoded group, of which the last group has one or two.\<close>

definition tempBytes :: "u32 \<Rightarrow> u8 list" where
  "tempBytes temp = [ucast temp, ucast (drop_bit 8 temp), ucast (drop_bit 16 temp)]"

definition checked :: "u32 \<Rightarrow> nat \<Rightarrow> u8 list outcome" where
  "checked temp n = (if temp \<ge> bad_char then Throw RuntimeError else Ret (take n (tempBytes temp)))"

text \<open>The loop over the groups, with the number of full groups left.\<close>

fun decode_groups :: "nat \<Rightarrow> string \<Rightarrow> (u8 list \<times> string) outcome" where
  "decode_groups 0 bytes = Ret ([], bytes)"
| "decode_groups (Suc i) (t1 # t2 # t3 # t4 # bytes) =
     obind (checked (dec decode_table_0 t1 OR dec decode_table_1 t2 OR dec decode_table_2 t3 OR dec decode_table_3 t4) 3) (\<lambda>out.
     obind (decode_groups i bytes) (\<lambda>(rest, bytes). Ret (out @ rest, bytes)))"
| "decode_groups (Suc i) bytes = Crash DanglingPointer"

definition decode_tail :: "nat \<Rightarrow> string \<Rightarrow> u8 list outcome" where
  "decode_tail pads bytes =
     (case (pads, bytes) of
        (0, _) \<Rightarrow> Ret []
      | (Suc 0, t1 # t2 # t3 # _) \<Rightarrow> checked (dec decode_table_0 t1 OR dec decode_table_1 t2 OR dec decode_table_2 t3) 2
      | (Suc 0, _) \<Rightarrow> Crash DanglingPointer
      | (Suc (Suc 0), t1 # t2 # _) \<Rightarrow> checked (dec decode_table_0 t1 OR dec decode_table_1 t2) 1
      | (Suc (Suc 0), _) \<Rightarrow> Crash DanglingPointer
      | _ \<Rightarrow> Throw RuntimeError)"

definition numPadding :: "string \<Rightarrow> nat" where
  "numPadding base64Text = length (filter (\<lambda>c. c = CHR ''='') (take 4 (rev base64Text)))"

definition decode_into :: "string \<Rightarrow> u8 list outcome" where
  "decode_into base64Text =
     (if base64Text = [] then Ret []
      else if length base64Text mod 4 \<noteq> 0 then Throw RuntimeError
      else
        let pads = numPadding base64Text in
        if pads > 2 then Throw RuntimeError
        else
          obind (decode_groups (length base64Text div 4 - (if pads \<noteq> 0 then 1 else 0)) base64Text) (\<lambda>(out, bytes).
          obind (decode_tail pads bytes) (\<lambda>tail. Ret (out @ tail))))"

section \<open>What the tables hold\<close>

definition alphabet :: string where
  "alphabet = ''ABCDEFGHIJKLMNOPQRSTUVWXYZabcdefghijklmnopqrstuvwxyz0123456789+/''"

lemma encode_tables: "encode_table_0 = concat (map (replicate 4) alphabet)" "encode_table_1 = concat (replicate 4 alphabet)"
  by code_simp+

lemma alphabet_length: "length alphabet = 64" by (simp add: alphabet_def)

definition table_of :: "(nat \<Rightarrow> u32) \<Rightarrow> u32 list" where
  "table_of f = replicate 43 bad_char @ [f 62] @ replicate 3 bad_char @ map f ([63] @ [52..<62]) @ replicate 7 bad_char
     @ map f [0..<26] @ replicate 6 bad_char @ map f [26..<52] @ replicate 133 bad_char"

lemma decode_table_0_eq: "decode_table_0 = table_of (\<lambda>v. push_bit 2 (of_nat v))" by code_simp
lemma decode_table_1_eq: "decode_table_1 = table_of (\<lambda>v. drop_bit 4 (of_nat v) OR push_bit 12 (of_nat v AND 0xF))" by code_simp
lemma decode_table_2_eq: "decode_table_2 = table_of (\<lambda>v. push_bit 8 (drop_bit 2 (of_nat v)) OR push_bit 22 (of_nat v AND 3))" by code_simp
lemma decode_table_3_eq: "decode_table_3 = table_of (\<lambda>v. push_bit 16 (of_nat v))" by code_simp

definition char_of_value :: "nat \<Rightarrow> nat" where
  "char_of_value v = (if v < 26 then 65 + v else if v < 52 then 71 + v else if v < 62 then v - 4 else if v = 62 then 43 else 47)"

lemma of_char_alphabet: "v < 64 \<Longrightarrow> of_char (alphabet ! v) = char_of_value v"
proof -
  assume "v < 64"
  have "map of_char alphabet = map char_of_value [0..<64]" by code_simp
  then have "map of_char alphabet ! v = map char_of_value [0..<64] ! v" by simp
  then show ?thesis using \<open>v < 64\<close> by (simp add: alphabet_length)
qed

lemma table_of_value:
  assumes "v < 64" shows "table_of f ! char_of_value v = f v"
proof -
  consider "v < 26" | "26 \<le> v" "v < 52" | "52 \<le> v" "v < 62" | "v = 62" | "v = 63" using assms by linarith
  then show ?thesis
    by cases (auto simp: table_of_def char_of_value_def nth_append nth_Cons' simp del: upt_rec_numeral)
qed

lemmas table_of_simps = decode_table_0_eq decode_table_1_eq decode_table_2_eq decode_table_3_eq

lemma dec_tables [simp]:
  assumes "v < 64"
  shows "dec decode_table_0 (alphabet ! v) = push_bit 2 (of_nat v)"
    and "dec decode_table_1 (alphabet ! v) = drop_bit 4 (of_nat v) OR push_bit 12 (of_nat v AND 0xF)"
    and "dec decode_table_2 (alphabet ! v) = push_bit 8 (drop_bit 2 (of_nat v)) OR push_bit 22 (of_nat v AND 3)"
    and "dec decode_table_3 (alphabet ! v) = push_bit 16 (of_nat v)"
  using assms by (simp_all add: dec_def of_char_alphabet table_of_simps table_of_value)

lemma nth_concat_replicates: "i < n * length xs \<Longrightarrow> concat (map (replicate n) xs) ! i = xs ! (i div n)"
proof (induction xs arbitrary: i)
  case (Cons x xs)
  show ?case
  proof (cases "i < n")
    case True then show ?thesis by (simp add: nth_append)
  next
    case False
    then have "n > 0 \<Longrightarrow> i div n = Suc ((i - n) div n)" by (simp add: le_div_geq)
    moreover have "n > 0" using Cons.prems by (cases n) auto
    ultimately show ?thesis using False Cons by (simp add: nth_append)
  qed
qed simp

lemma nth_concat_replicate: "i < n * length xs \<Longrightarrow> concat (replicate n xs) ! i = xs ! (i mod length xs)"
proof (induction n arbitrary: i)
  case (Suc n)
  show ?case
  proof (cases "i < length xs")
    case True then show ?thesis by (simp add: nth_append)
  next
    case False
    then have "i mod length xs = (i - length xs) mod length xs" by (simp add: le_mod_geq)
    then show ?thesis using False Suc by (simp add: nth_append)
  qed
qed simp

lemma unat_u8_less: "unat (i :: u8) < 256"
  using unsigned_less [of i, where 'a = nat] by simp

lemma enc_alphabet: "enc0 i = alphabet ! (unat i div 4)" "enc1 i = alphabet ! (unat i mod 64)"
  using unat_u8_less [of i]
  by (simp_all add: enc0_def enc1_def encode_tables nth_concat_replicates nth_concat_replicate alphabet_length)

lemma values_u8:
  "unat (i :: u8) div 4 < 64" "unat (i :: u8) mod 64 < 64"
  "(of_nat (unat (i :: u8) div 4) :: u32) = ucast (drop_bit 2 i)"
  "(of_nat (unat (i :: u8) mod 64) :: u32) = ucast (take_bit 6 i)"
proof -
  have "unat (drop_bit 2 i) = unat i div 4" "unat (take_bit 6 i) = unat i mod 64"
    by (simp_all add: unat_drop_bit_eq drop_bit_eq_div [where 'a = nat] unsigned_take_bit_eq take_bit_eq_mod [where 'a = nat])
  then show "(of_nat (unat (i :: u8) div 4) :: u32) = ucast (drop_bit 2 i)"
    "(of_nat (unat (i :: u8) mod 64) :: u32) = ucast (take_bit 6 i)" by (metis of_nat_unat)+
  show "unat (i :: u8) div 4 < 64" "unat (i :: u8) mod 64 < 64"
    using unat_u8_less [of i] by simp_all
qed

lemma u8_eqI:
  assumes "\<And>n. n \<in> {0, 1, 2, 3, 4, 5, 6, 7} \<Longrightarrow> bit (a :: u8) n = bit b n"
  shows "a = b"
proof (rule bit_word_eqI)
  fix n :: nat assume "n < LENGTH(8)"
  then have "n \<in> {0, 1, 2, 3, 4, 5, 6, 7}" by auto
  then show "bit a n = bit b n" by (rule assms)
qed

lemma not_bit_u8 [simp]: "8 \<le> n \<Longrightarrow> \<not> bit (w :: u8) n"
  using bit_imp_le_length [of w n] by auto

definition group_of :: "u8 \<Rightarrow> u8 \<Rightarrow> u8 \<Rightarrow> u8 \<Rightarrow> u32" where
  "group_of v1 v2 v3 v4 = push_bit 2 (ucast (drop_bit 2 v1)) OR
     (drop_bit 4 (ucast (take_bit 6 v2)) OR push_bit 12 (ucast (take_bit 6 v2) AND 0xF)) OR
     (push_bit 8 (drop_bit 2 (ucast (take_bit 6 v3))) OR push_bit 22 (ucast (take_bit 6 v3) AND 3)) OR push_bit 16 (ucast (take_bit 6 v4))"

lemma tempBytes_group_of: "tempBytes (group_of t1 (straddle4 t1 t2) (straddle2 t2 t3) t3) = [t1, t2, t3]"
proof -
  have "(ucast (group_of t1 (straddle4 t1 t2) (straddle2 t2 t3) t3) :: u8) = t1"
    "(ucast (drop_bit 8 (group_of t1 (straddle4 t1 t2) (straddle2 t2 t3) t3)) :: u8) = t2"
    "(ucast (drop_bit 16 (group_of t1 (straddle4 t1 t2) (straddle2 t2 t3) t3)) :: u8) = t3"
    unfolding group_of_def straddle4_def straddle2_def
    by (rule u8_eqI; elim insertE emptyE; simp add: bit_simps)+
  then show ?thesis by (simp add: tempBytes_def)
qed

lemma group_of_high_bits: "n \<in> {24, 25, 26, 27, 28, 29, 30, 31} \<Longrightarrow> \<not> bit (group_of v1 v2 v3 v4) n"
  unfolding group_of_def by (elim insertE emptyE; simp add: bit_simps)

lemma group_of_good: "\<not> group_of v1 v2 v3 v4 \<ge> bad_char"
proof -
  have "group_of v1 v2 v3 v4 = take_bit 24 (group_of v1 v2 v3 v4)"
  proof (rule bit_word_eqI)
    fix n :: nat assume "n < LENGTH(32)"
    then have "n < 24 \<or> n \<in> {24, 25, 26, 27, 28, 29, 30, 31}" by auto
    then show "bit (group_of v1 v2 v3 v4) n = bit (take_bit 24 (group_of v1 v2 v3 v4)) n"
      using group_of_high_bits [of n v1 v2 v3 v4] by (auto simp only: bit_take_bit_iff)
  qed
  then have "uint (group_of v1 v2 v3 v4) < 2 ^ 24"
    by (metis unsigned_take_bit_eq take_bit_int_less_exp)
  then show ?thesis by (simp add: bad_char_def word_le_def)
qed

lemma checked_group_of:
  "checked (group_of t1 (straddle4 t1 t2) (straddle2 t2 t3) t3) n = Ret (take n [t1, t2, t3])"
  by (simp add: checked_def group_of_good tempBytes_group_of)

lemma straddle_end: "push_bit 4 (t1 AND 0x03) = straddle4 t1 0" "push_bit 2 (t2 AND 0x0F) = straddle2 t2 0" "straddle2 0 0 = 0"
  by (simp_all add: straddle4_def straddle2_def)

lemmas encode_into_straddle = encode_into.simps [unfolded straddle_end]

lemma enc_decode:
  "dec decode_table_0 (enc0 v1) OR dec decode_table_1 (enc1 v2) OR dec decode_table_2 (enc1 v3) OR dec decode_table_3 (enc1 v4)
     = group_of v1 v2 v3 v4"
  by (simp add: enc_alphabet values_u8 group_of_def)

lemma enc_decode_tail:
  "dec decode_table_0 (enc0 v1) OR dec decode_table_1 (enc1 v2) OR dec decode_table_2 (enc1 v3) = group_of v1 v2 v3 0"
  "dec decode_table_0 (enc0 v1) OR dec decode_table_1 (enc1 v2) = group_of v1 v2 0 0"
  by (simp_all add: enc_alphabet values_u8 group_of_def)

definition encodedsize :: "nat \<Rightarrow> nat" where
  "encodedsize n = (n div 3 + (if n mod 3 > 0 then 1 else 0)) * 4"

lemma take_three [simp]:
  "take (3 + n) (a # b # c # xs) = a # b # c # take n xs" "drop (3 + n) (a # b # c # xs) = drop n xs"
  by (simp_all add: numeral_3_eq_3)

lemma three_more: "(3 + n) div 3 = Suc (n div 3)" "(3 + n) mod 3 = n mod (3 :: nat)"
  by simp_all

lemma length_encode_into [simp]: "length (encode_into bs) = encodedsize (length bs)"
proof (induction bs rule: encode_into.induct)
  case (1 t1 t2 t3 bytes)
  have "length (t1 # t2 # t3 # bytes) = 3 + length bytes" by simp
  then show ?case using 1 by (simp only: encodedsize_def three_more encode_into.simps) simp
qed (simp_all add: encodedsize_def)

lemma decode_groups_encode_into:
  "decode_groups (length bs div 3) (encode_into bs)
     = Ret (take (length bs div 3 * 3) bs, encode_into (drop (length bs div 3 * 3) bs))"
proof (induction bs rule: encode_into.induct)
  case (1 t1 t2 t3 bytes)
  have "length (t1 # t2 # t3 # bytes) div 3 = Suc (length bytes div 3)"
    using three_more(1) [of "length bytes"] by simp
  then show ?case using 1 by (simp only: mult_Suc take_three) (simp add: enc_decode checked_group_of)
qed simp_all

lemma enc_not_padding: "enc0 i \<noteq> CHR ''=''" "enc1 i \<noteq> CHR ''=''"
proof -
  have "CHR ''='' \<notin> set alphabet" by code_simp
  then show "enc0 i \<noteq> CHR ''=''" "enc1 i \<noteq> CHR ''=''"
    using values_u8(1,2) [of i] by (metis alphabet_length enc_alphabet nth_mem)+
qed

definition padding_of :: "nat \<Rightarrow> nat" where
  "padding_of n = (3 - n mod 3) mod 3"

lemma numPadding_encode_into: "bs \<noteq> [] \<Longrightarrow> numPadding (encode_into bs) = padding_of (length bs)"
proof (induction bs rule: encode_into.induct)
  case (1 t1 t2 t3 bytes)
  have *: "padding_of (length (t1 # t2 # t3 # bytes)) = padding_of (length bytes)"
    using three_more(2) [of "length bytes"] by (simp add: padding_of_def)
  show ?case
  proof (cases "bytes = []")
    case True
    then show ?thesis by (simp add: numPadding_def enc_not_padding padding_of_def)
  next
    case False
    then have "length bytes div 3 > 0 \<or> length bytes mod 3 > 0" by (cases "length bytes < 3") (auto simp: div_greater_zero_iff)
    then have "4 \<le> length (encode_into bytes)" by (auto simp: encodedsize_def)
    with 1 False * show ?thesis by (simp add: numPadding_def)
  qed
qed (simp_all add: numPadding_def enc_not_padding padding_of_def)

lemma checked_group_of_end:
  "checked (group_of t1 (straddle4 t1 t2) (straddle2 t2 0) 0) n = Ret (take n [t1, t2, 0])"
  "checked (group_of t1 (straddle4 t1 0) 0 0) n = Ret (take n [t1, 0, 0])"
  using checked_group_of [of t1 t2 0 n] checked_group_of [of t1 0 0 n] by (simp_all only: straddle_end)

lemma encode_into_end:
  "encode_into [t1] = [enc0 t1, enc1 (straddle4 t1 0), CHR ''='', CHR ''='']"
  "encode_into [t1, t2] = [enc0 t1, enc1 (straddle4 t1 t2), enc1 (straddle2 t2 0), CHR ''='']"
  by (simp_all add: straddle4_def straddle2_def)

lemma decode_tail_encode_into:
  "length bs < 3 \<Longrightarrow> decode_tail (padding_of (length bs)) (encode_into bs) = Ret bs"
proof (cases bs rule: encode_into.cases)
  case (2 t1)
  have "padding_of (length [t1]) = Suc (Suc 0)" by (simp add: padding_of_def)
  then show ?thesis
    unfolding 2 encode_into_end decode_tail_def by (simp add: enc_decode_tail checked_group_of_end)
next
  case (3 t1 t2)
  have "padding_of (length [t1, t2]) = Suc 0" by (simp add: padding_of_def)
  then show ?thesis
    unfolding 3 encode_into_end decode_tail_def by (simp add: enc_decode_tail checked_group_of_end numeral_2_eq_2)
qed (simp_all add: decode_tail_def padding_of_def)

lemma padding_of_eq: "padding_of n = (if n mod 3 = 0 then 0 else 3 - n mod 3)"
  unfolding padding_of_def by (cases "n mod 3 = 0") simp_all

lemma decode_encode: "decode_into (encode_into bs) = Ret bs"
proof (cases "bs = []")
  case False
  have len: "encode_into bs \<noteq> []" "length (encode_into bs) mod 4 = 0"
    "length (encode_into bs) div 4 - (if padding_of (length bs) \<noteq> 0 then 1 else 0) = length bs div 3"
    using False by (cases bs rule: encode_into.cases; auto simp: encodedsize_def padding_of_eq)+
  let ?n = "length bs div 3 * 3"
  have "padding_of (length (drop ?n bs)) = padding_of (length bs)" "length (drop ?n bs) < 3"
    by (simp_all add: padding_of_def minus_div_mult_eq_mod)
  moreover have "\<not> padding_of (length bs) > 2"
    unfolding padding_of_def by (simp add: not_less less_Suc_eq_le [symmetric])
  ultimately show ?thesis
    using len decode_groups_encode_into [of bs] decode_tail_encode_into [of "drop ?n bs"]
    by (simp add: decode_into_def Let_def numPadding_encode_into False)
qed (simp add: decode_into_def)

text \<open>
  Whatever bytes are encoded, of any length including none, decoding the text gives them back: no
character of the text is refused, no padding is miscounted, and the last group yields the bytes it stands for.
\<close>

theorem encoded_bytes_come_back: "decode_into (encode_into bs) = Ret bs"
  by (rule decode_encode)

lemma checked_cases: "checked temp n = Throw RuntimeError \<or> (\<exists>out. checked temp n = Ret out \<and> length out = min n 3)"
  by (simp add: checked_def tempBytes_def numeral_3_eq_3 min.commute)

lemma decode_groups_cases:
  "4 * i \<le> length bytes \<Longrightarrow> decode_groups i bytes = Throw RuntimeError
     \<or> (\<exists>out. decode_groups i bytes = Ret (out, drop (4 * i) bytes) \<and> length out = 3 * i)"
proof (induction i bytes rule: decode_groups.induct)
  case (2 i t1 t2 t3 t4 bytes)
  let ?temp = "dec decode_table_0 t1 OR dec decode_table_1 t2 OR dec decode_table_2 t3 OR dec decode_table_3 t4"
  consider "checked ?temp 3 = Throw RuntimeError" | out where "checked ?temp 3 = Ret out" "length out = 3"
    using checked_cases [of ?temp 3] by auto
  then show ?case
  proof cases
    case 1 then show ?thesis by simp
  next
    case (2 out)
    then have "decode_groups i bytes = Throw RuntimeError
        \<or> (\<exists>out. decode_groups i bytes = Ret (out, drop (4 * i) bytes) \<and> length out = 3 * i)"
      using "2.IH" "2.prems" by simp
    then show ?thesis using 2 by (auto simp: numeral_eq_Suc)
  qed
qed auto

lemma decode_tail_cases:
  "pads \<le> 2 \<Longrightarrow> pads > 0 \<Longrightarrow> 4 \<le> length bytes \<Longrightarrow>
     decode_tail pads bytes = Throw RuntimeError \<or> (\<exists>out. decode_tail pads bytes = Ret out \<and> length out = 3 - pads)"
proof -
  assume "pads \<le> 2" "pads > 0" "4 \<le> length bytes"
  then obtain t1 t2 t3 rest where b: "bytes = t1 # t2 # t3 # rest" and p: "pads = Suc 0 \<or> pads = Suc (Suc 0)"
    by (auto simp: numeral_eq_Suc Suc_le_length_iff le_Suc_eq)
  then show ?thesis
    using checked_cases [of "dec decode_table_0 t1 OR dec decode_table_1 t2 OR dec decode_table_2 t3" 2]
      checked_cases [of "dec decode_table_0 t1 OR dec decode_table_1 t2" 1]
    by (auto simp: decode_tail_def)
qed

lemma decode_into_cases:
  "decode_into s = Throw RuntimeError \<or> (\<exists>bs. decode_into s = Ret bs \<and> length bs = length s * 3 div 4 - numPadding s)"
proof (cases "s = [] \<or> length s mod 4 \<noteq> 0 \<or> numPadding s > 2")
  case True then show ?thesis by (auto simp: decode_into_def Let_def)
next
  case False
  then obtain k where k: "length s = 4 * Suc k" by (metis mod_0_imp_dvd dvdE length_0_conv mult_0_right not0_implies_Suc)
  show ?thesis
  proof (cases "numPadding s = 0")
    case True
    then show ?thesis using decode_groups_cases [of "Suc k" s] k False
      by (auto simp: decode_into_def Let_def decode_tail_def)
  next
    case pads: False
    then show ?thesis
      using decode_groups_cases [of k s] decode_tail_cases [of "numPadding s" "drop (4 * k) s"] k False
      by (auto simp: decode_into_def Let_def)
  qed
qed

text \<open>
  C35: Whatever text arrives, decoding either fails with a runtime error or fills exactly the buffer the
function allocated, three bytes for four characters less one for each padding sign: it never reads past the text,
and never writes past the buffer.
\<close>

theorem decoding_fills_its_buffer:
  "decode_into s = Throw RuntimeError \<or> (\<exists>bs. decode_into s = Ret bs \<and> length bs = length s * 3 div 4 - numPadding s)"
  by (rule decode_into_cases)

end
