(* ===== verification/TargetInfoText.thy ===== *)
theory TargetInfoText
  imports Base64 Json Paths
begin

text \<open>
  A target's description as text (\<open>TargetInfo.cpp\<close>, \<open>Address.cpp\<close>), which is what travels from a target
  to its initiators: writing it, reading it back, and that the two fit. Writing JSON values as text is
  third-party code, one more function next to the parser.
\<close>

record text_services = services +
  sv_serialize :: "json \<Rightarrow> string"

section \<open>Numbers as text\<close>

definition isspace :: "char \<Rightarrow> bool" where
  "isspace c \<longleftrightarrow> of_char c = (32 :: nat) \<or> of_char c \<in> {9 :: nat .. 13}"

definition isdigit :: "char \<Rightarrow> bool" where
  "isdigit c \<longleftrightarrow> of_char c \<in> {48 :: nat .. 57}"

text \<open>
  \<open>std::stoull\<close> skips white space, takes a sign and digits, and ignores what follows. A minus sign
  negates the number modulo \<open>2 ^ 64\<close>. Text without a digit and a number that does not fit are exceptions.
\<close>

definition stoull :: "string \<Rightarrow> u64 outcome" where
  "stoull s =
     (let s = dropWhile isspace s;
          (negative, s) = (case s of c # s' \<Rightarrow> if c = CHR ''-'' then (True, s') else if c = CHR ''+'' then (False, s') else (False, s) | [] \<Rightarrow> (False, s));
          digits = takeWhile isdigit s;
          n = undecimal digits
      in if digits = [] then Throw InvalidArgument
         else if n \<ge> 2 ^ 64 then Throw OtherException
         else Ret (if negative then - of_nat n else of_nat n))"

definition to_string :: "u64 \<Rightarrow> string" where
  "to_string n = decimal (unat n)"

lemma digit_char: "d < 10 \<Longrightarrow> isdigit (char_of (48 + d :: nat))"
  by (simp add: isdigit_def)

lemma decimal_digits: "\<forall>c \<in> set (decimal n). isdigit c" "decimal n \<noteq> []"
proof (induction n rule: decimal.induct)
  case (1 n)
  {
    case 1
    show ?case using "1.IH"(1) by (subst decimal.simps) (auto simp: digit_char)
  next
    case 2
    show ?case by (subst decimal.simps) simp
  }
qed

lemma stoull_to_string: "stoull (to_string n) = Ret n"
proof -
  obtain c cs where d: "decimal (unat n) = c # cs" using decimal_digits(2) by (cases "decimal (unat n)") auto
  then have "isdigit c" using decimal_digits(1) [of "unat n"] by simp
  then have "\<not> isspace c" "c \<noteq> CHR ''-''" "c \<noteq> CHR ''+''" by (auto simp: isdigit_def isspace_def)
  moreover have "takeWhile isdigit (c # cs) = c # cs"
    using decimal_digits(1) [of "unat n"] unfolding d takeWhile_eq_all_conv .
  moreover have "undecimal (c # cs) = unat n" unfolding d [symmetric] by (rule undecimal_decimal)
  moreover have "unat n < 2 ^ 64" using unsigned_less [of n, where 'a = nat] by simp
  ultimately show ?thesis by (simp add: stoull_def to_string_def d Let_def)
qed

section \<open>Addresses\<close>

definition FabricAddress_toBase64 :: "u8 list \<Rightarrow> string" where
  "FabricAddress_toBase64 addr = encode_into addr"

definition FabricAddress_fromBase64 :: "string \<Rightarrow> u8 list outcome" where
  "FabricAddress_fromBase64 text =
     obind (decode_into text) (\<lambda>decoded. if decoded = [] then Throw RuntimeError else Ret decoded)"

section \<open>Writing\<close>

text \<open>An object is a map: its members are in the order of their names.\<close>

definition number_text :: "u64 \<Rightarrow> json" where
  "number_text n = JStr (to_string n)"

definition region_json :: "RemoteRegion \<Rightarrow> json" where
  "region_json r = JObj [(''addr'', number_text (rr_addr r)), (''len'', number_text (rr_len r)), (''rkey'', number_text (rr_rkey r))]"

definition bounce_json :: "u64 \<times> u64 \<Rightarrow> json" where
  "bounce_json b = JObj [(''entryCount'', number_text (fst b)), (''entrySize'', number_text (snd b))]"

definition TargetInfo_json :: "TargetInfo \<Rightarrow> json" where
  "TargetInfo_json ti =
     JObj ((case ti_bounce ti of None \<Rightarrow> [] | Some b \<Rightarrow> [(''bounceBufferInfo'', bounce_json b)])
       @ [(''fabricAddress'', JStr (FabricAddress_toBase64 (ti_address ti))),
          (''id'', number_text (ti_id ti)),
          (''regions'', JArr (map region_json (ti_regions ti)))])"

definition TargetInfo_toJSON :: "text_services \<Rightarrow> TargetInfo \<Rightarrow> string" where
  "TargetInfo_toJSON sv ti = sv_serialize sv (TargetInfo_json ti)"

section \<open>Reading\<close>

text \<open>\<open>at\<close> on a map without the key throws \<open>std::out_of_range\<close>.\<close>

definition json_at :: "(string \<times> json) list \<Rightarrow> string \<Rightarrow> json outcome" where
  "json_at ob key = (case map_of ob key of None \<Rightarrow> Throw OtherException | Some v \<Rightarrow> Ret v)"

definition number_at :: "(string \<times> json) list \<Rightarrow> string \<Rightarrow> u64 outcome" where
  "number_at ob key = obind (json_at ob key) (\<lambda>v. obind (json_string v) stoull)"

definition region_from :: "json \<Rightarrow> RemoteRegion outcome" where
  "region_from v =
     obind (json_object v) (\<lambda>ob.
     obind (number_at ob ''addr'') (\<lambda>addr.
     obind (number_at ob ''len'') (\<lambda>len.
     obind (number_at ob ''rkey'') (\<lambda>rkey.
       Ret \<lparr>rr_addr = addr, rr_len = len, rr_rkey = rkey\<rparr>))))"

fun regions_from :: "json list \<Rightarrow> RemoteRegion list outcome" where
  "regions_from [] = Ret []"
| "regions_from (v # vs) = obind (region_from v) (\<lambda>r. obind (regions_from vs) (\<lambda>rs. Ret (r # rs)))"

definition bounce_from :: "(string \<times> json) list \<Rightarrow> (u64 \<times> u64) option outcome" where
  "bounce_from members =
     (if map_of members ''bounceBufferInfo'' = None then Ret None
      else
        obind (json_at members ''bounceBufferInfo'') (\<lambda>v.
        obind (json_object v) (\<lambda>ob.
        obind (number_at ob ''entryCount'') (\<lambda>n.
        obind (number_at ob ''entrySize'') (\<lambda>size. Ret (Some (n, size)))))))"

definition TargetInfo_fromJSON :: "text_services \<Rightarrow> string \<Rightarrow> TargetInfo outcome" where
  "TargetInfo_fromJSON sv s =
     (case sv_parse sv s of
        None \<Rightarrow> Throw (StatusException MXL_ERR_INVALID_ARG)
      | Some (JObj members) \<Rightarrow>
          obind (obind (json_at members ''fabricAddress'') (\<lambda>v. obind (json_string v) FabricAddress_fromBase64)) (\<lambda>addr.
          obind (obind (json_at members ''regions'') (\<lambda>v. obind (json_array v) regions_from)) (\<lambda>regions.
          obind (bounce_from members) (\<lambda>bounce.
          obind (number_at members ''id'') (\<lambda>tid.
            Ret \<lparr>ti_id = tid, ti_address = addr, ti_regions = regions, ti_bounce = bounce\<rparr>))))
      | Some _ \<Rightarrow> Throw (StatusException MXL_ERR_INVALID_ARG))"

section \<open>Reading what was written\<close>

lemma address_comes_back: "addr \<noteq> [] \<Longrightarrow> FabricAddress_fromBase64 (FabricAddress_toBase64 addr) = Ret addr"
  by (simp add: FabricAddress_fromBase64_def FabricAddress_toBase64_def decode_encode)

lemma number_at_text [simp]: "map_of ob key = Some (number_text n) \<Longrightarrow> number_at ob key = Ret n"
  by (simp add: number_at_def json_at_def number_text_def stoull_to_string)

lemma region_from_json: "region_from (region_json r) = Ret r"
  by (simp add: region_from_def region_json_def)

lemma regions_from_json: "regions_from (map region_json rs) = Ret rs"
  by (induction rs) (simp_all add: region_from_json)

lemma bounce_from_json: "bounce_from (((''bounceBufferInfo'', bounce_json b)) # rest) = Ret (Some b)"
  by (simp add: bounce_from_def json_at_def bounce_json_def)

lemma bounce_from_none: "map_of members ''bounceBufferInfo'' = None \<Longrightarrow> bounce_from members = Ret None"
  by (simp add: bounce_from_def)

lemma fromJSON_toJSON:
  assumes "sv_parse sv (sv_serialize sv (TargetInfo_json ti)) = Some (TargetInfo_json ti)" and "ti_address ti \<noteq> []"
  shows "TargetInfo_fromJSON sv (TargetInfo_toJSON sv ti) = Ret ti"
  using assms
  by (cases "ti_bounce ti")
     (simp_all add: TargetInfo_fromJSON_def TargetInfo_toJSON_def TargetInfo_json_def json_at_def address_comes_back
        regions_from_json bounce_from_json bounce_from_none)

section \<open>Reading anything\<close>

text \<open>A member that is missing or has the wrong shape is an exception of the standard library.\<close>

definition library_outcome :: "'a outcome \<Rightarrow> bool" where
  "library_outcome r \<longleftrightarrow> (\<exists>a. r = Ret a) \<or> r \<in> Throw ` {InvalidArgument, RuntimeError, OtherException}"

lemma library_outcome_obind:
  "library_outcome m \<Longrightarrow> (\<And>a. library_outcome (f a)) \<Longrightarrow> library_outcome (obind m f)"
  by (cases m) (auto simp: library_outcome_def)

lemma library_outcome_Ret: "library_outcome (Ret a)"
  by (simp add: library_outcome_def)

lemma library_outcome_stoull: "library_outcome (stoull s)"
  unfolding stoull_def Let_def by (simp add: library_outcome_def split: prod.split)

lemma library_outcome_json: "library_outcome (json_string v)" "library_outcome (json_object v)" "library_outcome (json_array v)"
  by (cases v; simp add: library_outcome_def)+

lemma library_outcome_simple: "library_outcome (json_at ob key)" "library_outcome (decode_into s)"
  using decode_into_cases [of s] by (auto simp: library_outcome_def json_at_def split: option.split)

lemmas library_outcome_intros = library_outcome_obind library_outcome_Ret library_outcome_simple library_outcome_json library_outcome_stoull

lemma library_outcome_number_at: "library_outcome (number_at ob key)"
  unfolding number_at_def by (intro library_outcome_intros)

lemma library_outcome_region: "library_outcome (region_from v)"
  unfolding region_from_def by (intro library_outcome_intros library_outcome_number_at)

lemma library_outcome_regions: "library_outcome (regions_from vs)"
  by (induction vs) (auto intro: library_outcome_intros library_outcome_region)

lemma library_outcome_bounce: "library_outcome (bounce_from members)"
  unfolding bounce_from_def by (auto intro!: library_outcome_intros library_outcome_number_at)

lemma library_outcome_address: "library_outcome (FabricAddress_fromBase64 text)"
  unfolding FabricAddress_fromBase64_def
  by (rule library_outcome_obind, rule library_outcome_simple, simp add: library_outcome_def)

lemma fromJSON_outcomes:
  "case sv_parse sv s of
     Some (JObj members) \<Rightarrow> library_outcome (TargetInfo_fromJSON sv s)
   | _ \<Rightarrow> TargetInfo_fromJSON sv s = Throw (StatusException MXL_ERR_INVALID_ARG)"
  unfolding TargetInfo_fromJSON_def
  by (auto split: option.split json.split
      intro!: library_outcome_intros library_outcome_number_at library_outcome_regions library_outcome_bounce library_outcome_address)

end
