(* ===== verification/BounceBuffer.thy ===== *)
theory BounceBuffer
  imports FabricsData ContinuousFlow
begin

text \<open>
  How samples cross the network (\<open>AudioBounceBuffer.cpp\<close>, \<open>ProtocolEgressRMA.cpp\<close>,
  \<open>ProtocolIngressRMA.cpp\<close>): the initiator gathers the fragments of all channels behind a header into
  one entry of the target's bounce buffer, the target copies them out to its own ring. Memory is a
  function of addresses. The main lemma shows that what is copied out is what was gathered.
\<close>

type_synonym memory = "u64 \<Rightarrow> u8"

section \<open>The bounce buffer\<close>

record AudioEntryHeader =
  ah_headIndex :: u64
  ah_count :: u64

definition SIZEOF_AUDIO_HEADER :: u64 where "SIZEOF_AUDIO_HEADER = 16"

text \<open>An entry is a block of memory at an address: the header, then the samples.\<close>

record AudioBounceBufferEntry =
  be_addr :: u64
  be_header :: AudioEntryHeader
  be_samples :: "u8 list"

record AudioLayout =
  al_sampleSize :: u64
  al_channelCount :: u64
  al_bufferLength :: u64

record AudioBounceBuffer =
  ab_entries :: "AudioBounceBufferEntry list"
  ab_layout :: AudioLayout

definition getMutableMultiBufferSlices ::
  "u64 \<Rightarrow> u64 \<Rightarrow> u64 \<Rightarrow> u64 \<Rightarrow> u64 \<Rightarrow> u64 \<Rightarrow> mxlWrappedMultiBufferSlice outcome" where
  "getMutableMultiBufferSlices index count bufLen wordSize channels baseBufferPtr =
     (if bufLen = 0 then Crash DivisionByZero
      else
        let startOffset = (index + bufLen - count) mod bufLen;
            endOffset = index mod bufLen;
            firstLength = (if startOffset < endOffset then count else bufLen - startOffset);
            secondLength = count - firstLength
        in Ret \<lparr>fragment0 = \<lparr>slice_pointer = baseBufferPtr + wordSize * startOffset, slice_size = wordSize * firstLength\<rparr>,
                fragment1 = \<lparr>slice_pointer = baseBufferPtr, slice_size = wordSize * secondLength\<rparr>,
                slice_stride = wordSize * bufLen, slice_count = channels\<rparr>)"

text \<open>The rows both sides go through: for each fragment present, one per channel.\<close>

definition fragment_rows :: "mxlWrappedMultiBufferSlice \<Rightarrow> mxlBufferSlice \<Rightarrow> (u64 \<times> u64) list" where
  "fragment_rows s f =
     (if slice_size f > 0
      then map (\<lambda>chan. (slice_pointer f + slice_stride s * of_nat chan, slice_size f)) [0..<unat (slice_count s)]
      else [])"

definition slice_rows :: "mxlWrappedMultiBufferSlice \<Rightarrow> (u64 \<times> u64) list" where
  "slice_rows s = fragment_rows s (fragment0 s) @ fragment_rows s (fragment1 s)"

definition AudioBounceBuffer_new :: "u64 \<Rightarrow> u64 \<Rightarrow> AudioLayout \<Rightarrow> (nat \<Rightarrow> u64) \<Rightarrow> AudioBounceBuffer" where
  "AudioBounceBuffer_new entryCount entrySize layout addr =
     \<lparr>ab_entries = map (\<lambda>i. \<lparr>be_addr = addr i, be_header = \<lparr>ah_headIndex = 0, ah_count = 0\<rparr>,
        be_samples = replicate (unat (ucast entrySize :: u32)) 0\<rparr>) [0..<unat entryCount],
      ab_layout = layout\<rparr>"

definition be_size :: "AudioBounceBufferEntry \<Rightarrow> u64" where
  "be_size e = SIZEOF_AUDIO_HEADER + of_nat (length (be_samples e))"

definition getRegions :: "AudioBounceBuffer \<Rightarrow> Region list" where
  "getRegions ab = map (\<lambda>e. host_region (be_addr e) (be_size e)) (ab_entries ab)"

definition entryCount :: "AudioBounceBuffer \<Rightarrow> u64" where
  "entryCount ab = of_nat (length (ab_entries ab))"

definition entrySize :: "AudioBounceBuffer \<Rightarrow> u64" where
  "entrySize ab = (case ab_entries ab of [] \<Rightarrow> 0 | e # _ \<Rightarrow> be_size e)"

text \<open>\<open>memcpy\<close> writes bytes at an address; the source offset runs through the samples of the entry.\<close>

definition poke :: "u64 \<Rightarrow> u8 list \<Rightarrow> memory \<Rightarrow> memory" where
  "poke dst bytes mem = (\<lambda>a. if unat (a - dst) < length bytes then bytes ! unat (a - dst) else mem a)"

fun copy_rows :: "u8 list \<Rightarrow> nat \<Rightarrow> (u64 \<times> u64) list \<Rightarrow> memory \<Rightarrow> memory outcome" where
  "copy_rows samples off [] mem = Ret mem"
| "copy_rows samples off ((dst, n) # rows) mem =
     (if length samples < off + unat n then Crash DanglingPointer
      else copy_rows samples (off + unat n) rows (poke dst (take (unat n) (drop off samples)) mem))"

definition unpack :: "AudioBounceBuffer \<Rightarrow> u64 \<Rightarrow> Region \<Rightarrow> memory \<Rightarrow> (AudioEntryHeader \<times> memory) outcome" where
  "unpack ab entryIndex outRegion mem =
     (if unat entryIndex \<ge> length (ab_entries ab) then Throw OtherException
      else
        let entry = ab_entries ab ! unat entryIndex;
            header = be_header entry;
            layout = ab_layout ab in
        if al_channelCount layout * al_sampleSize layout = 0 then Crash DivisionByZero
        else
          let maxCountPerEntry = (entrySize ab - SIZEOF_AUDIO_HEADER) div (al_channelCount layout * al_sampleSize layout) in
          if ah_count header > maxCountPerEntry then Throw (StatusException MXL_ERR_INVALID_ARG)
          else obind (getMutableMultiBufferSlices (ah_headIndex header) (ah_count header) (al_bufferLength layout)
                        (al_sampleSize layout) (al_channelCount layout) (rg_base outRegion)) (\<lambda>slices.
               obind (copy_rows (be_samples entry) 0 (slice_rows slices) mem) (\<lambda>mem'.
                 Ret (header, mem'))))"

definition makeAudioBounceBuffer :: "AudioLayout \<Rightarrow> u32 \<Rightarrow> (nat \<Rightarrow> u64) \<Rightarrow> AudioBounceBuffer outcome" where
  "makeAudioBounceBuffer layout maxSyncBatchSize addr =
     (let oneSampleSize = al_sampleSize layout * al_channelCount layout;
          entryBytes = oneSampleSize * ucast maxSyncBatchSize;
          historySize = al_bufferLength layout * oneSampleSize
      in if entryBytes = 0 then Crash DivisionByZero
         else Ret (AudioBounceBuffer_new ((historySize + entryBytes - 1) div entryBytes) entryBytes layout addr))"

section \<open>Gathering\<close>

definition makeScatterGatherList :: "AudioLayout \<Rightarrow> u64 \<Rightarrow> u64 \<Rightarrow> LocalRegion \<Rightarrow> LocalRegion list outcome" where
  "makeScatterGatherList layout head count region =
     obind (getMutableMultiBufferSlices head count (al_bufferLength layout) (al_sampleSize layout)
              (al_channelCount layout) (lr_addr region)) (\<lambda>slice.
       Ret (map (\<lambda>(addr, n). \<lparr>lr_addr = addr, lr_len = n, lr_desc = lr_desc region\<rparr>) (slice_rows slice)))"

text \<open>The bytes a list of regions stands for, in the order of the list.\<close>

definition region_bytes :: "memory \<Rightarrow> LocalRegion \<Rightarrow> u8 list" where
  "region_bytes mem r = map (\<lambda>i. mem (lr_addr r + of_nat i)) [0..<unat (lr_len r)]"

definition gathered :: "memory \<Rightarrow> LocalRegion list \<Rightarrow> u8 list" where
  "gathered mem rs = concat (map (region_bytes mem) rs)"

section \<open>Copying out what was gathered\<close>

lemma rebased_slices:
  "getMutableMultiBufferSlices index count bufLen w ch base =
     (if bufLen = 0 then Crash DivisionByZero
      else Ret (let s = wrapped_slices bufLen w ch index count in
        s\<lparr>fragment0 := (fragment0 s)\<lparr>slice_pointer := base + slice_pointer (fragment0 s)\<rparr>,
          fragment1 := (fragment1 s)\<lparr>slice_pointer := base + slice_pointer (fragment1 s)\<rparr>\<rparr>))"
  by (simp add: getMutableMultiBufferSlices_def wrapped_slices_def Let_def)

text \<open>Rows relative to a base.\<close>

definition rebase :: "u64 \<Rightarrow> (u64 \<times> u64) list \<Rightarrow> (u64 \<times> u64) list" where
  "rebase base rows = map (\<lambda>(off, n). (base + off, n)) rows"

definition in_rows :: "u64 \<Rightarrow> (u64 \<times> u64) list \<Rightarrow> bool" where
  "in_rows x rows \<longleftrightarrow> (\<exists>(off, n)\<in>set rows. unat (x - off) < unat n)"

lemma slice_rows_rebased:
  "slice_rows (let s = wrapped_slices bufLen w ch index count in
        s\<lparr>fragment0 := (fragment0 s)\<lparr>slice_pointer := base + slice_pointer (fragment0 s)\<rparr>,
          fragment1 := (fragment1 s)\<lparr>slice_pointer := base + slice_pointer (fragment1 s)\<rparr>\<rparr>)
   = rebase base (slice_rows (wrapped_slices bufLen w ch index count))"
  by (auto simp: slice_rows_def fragment_rows_def rebase_def Let_def add.assoc)

lemma copy_gathered:
  assumes "length pre = off"
  shows "copy_rows (pre @ gathered src (map (\<lambda>(a, n). \<lparr>lr_addr = a, lr_len = n, lr_desc = d\<rparr>) (rebase from rows)) @ rest) off (rebase to rows) mem
    = Ret (\<lambda>a. if in_rows (a - to) rows then src (from + (a - to)) else mem a)"
  using assms
proof (induction rows arbitrary: pre off mem)
  case Nil
  then show ?case by (simp add: rebase_def in_rows_def)
next
  case (Cons row rows)
  obtain o' n where row: "row = (o', n)" by (cases row)
  let ?regs = "\<lambda>rows. map (\<lambda>(a, n). \<lparr>lr_addr = a, lr_len = n, lr_desc = d\<rparr>) (rebase from rows)"
  let ?b = "region_bytes src \<lparr>lr_addr = from + o', lr_len = n, lr_desc = d\<rparr>"
  have len: "length ?b = unat n" by (simp add: region_bytes_def)
  have all: "gathered src (?regs (row # rows)) = ?b @ gathered src (?regs rows)"
    by (simp add: gathered_def rebase_def row)
  have step: "(\<lambda>a. if in_rows (a - to) rows then src (from + (a - to)) else poke (to + o') ?b mem a)
      = (\<lambda>a. if in_rows (a - to) (row # rows) then src (from + (a - to)) else mem a)"
  proof (rule ext)
    fix a
    have "a - (to + o') = (a - to) - o'" by simp
    then show "(if in_rows (a - to) rows then src (from + (a - to)) else poke (to + o') ?b mem a)
      = (if in_rows (a - to) (row # rows) then src (from + (a - to)) else mem a)"
      by (auto simp: poke_def len in_rows_def row region_bytes_def algebra_simps)
  qed
  have "copy_rows (pre @ (?b @ gathered src (?regs rows)) @ rest) off (rebase to (row # rows)) mem
      = copy_rows ((pre @ ?b) @ gathered src (?regs rows) @ rest) (off + unat n) (rebase to rows) (poke (to + o') ?b mem)"
    using Cons.prems len by (simp add: rebase_def row)
  also have "\<dots> = Ret (\<lambda>a. if in_rows (a - to) rows then src (from + (a - to)) else poke (to + o') ?b mem a)"
    by (rule Cons.IH) (simp add: Cons.prems len)
  finally show ?case by (simp only: all step)
qed

section \<open>The bytes of a window of samples\<close>

lemma unat_diff_less:
  fixes x off :: u64
  assumes "unat off + n \<le> 2 ^ 64" and "0 < n"
  shows "unat (x - off) < n \<longleftrightarrow> unat off \<le> unat x \<and> unat x < unat off + n"
proof (cases "off \<le> x")
  case True
  then show ?thesis by (auto simp: unat_sub_le word_le_nat_alt)
next
  case False
  then have "unat x < unat off" by (simp add: word_less_nat_alt not_le)
  moreover have "unat off < 2 ^ 64" using unsigned_less [of off, where ?'a = nat] by simp
  ultimately have "unat (x - off) = 2 ^ 64 + unat x - unat off" by (simp add: unat_sub_if_size word_size word_le_nat_alt)
  with \<open>unat x < unat off\<close> assms show ?thesis by auto
qed

lemma in_fragment_rows:
  assumes stride: "unat (slice_stride s) = t" and fits: "t * unat (slice_count s) < 2 ^ 64"
    and inside: "unat (slice_pointer f) + unat (slice_size f) \<le> t"
  shows "in_rows x (fragment_rows s f) \<longleftrightarrow> (\<exists>c<unat (slice_count s). \<exists>b\<in>set (fragment_bytes f). unat x = t * c + b)"
proof -
  let ?p = "unat (slice_pointer f)" and ?z = "unat (slice_size f)" and ?ch = "unat (slice_count s)"
  have row: "unat (x - (slice_pointer f + slice_stride s * of_nat c)) < ?z \<longleftrightarrow> t * c + ?p \<le> unat x \<and> unat x < t * c + ?p + ?z"
    if "c < ?ch" "0 < ?z" for c
  proof -
    have "c < 2 ^ 64" using that(1) unsigned_less [of "slice_count s", where ?'a = nat] by simp
    then have c: "unat (of_nat c :: u64) = c" by (intro of_nat_inverse [OF refl]) simp
    have "t * Suc c \<le> t * ?ch" using that(1) by (intro mult_le_mono2) simp
    then have top: "t * c + t < 2 ^ 64" using fits by simp
    have "unat (slice_stride s * of_nat c) = t * c"
      using top by (subst unat_mult_lt) (simp_all add: stride c)
    then have "unat (slice_pointer f + slice_stride s * of_nat c) = t * c + ?p"
      using top inside by (subst unat_add_lt) simp_all
    then show ?thesis
      using unat_diff_less [of "slice_pointer f + slice_stride s * of_nat c" ?z x] top inside that(2) by simp
  qed
  have bytes: "(\<exists>b\<in>set (fragment_bytes f). unat x = t * c + b) \<longleftrightarrow> t * c + ?p \<le> unat x \<and> unat x < t * c + ?p + ?z" for c
    by (auto simp: fragment_bytes_def intro!: bexI [of _ "unat x - t * c"])
  show ?thesis
  proof (cases "0 < ?z")
    case True
    then have "slice_size f > 0" by (simp add: word_less_nat_alt)
    with True row bytes show ?thesis by (auto simp: in_rows_def fragment_rows_def)
  next
    case False
    then have "slice_size f = 0" by (simp add: unat_eq_0)
    then show ?thesis by (simp add: in_rows_def fragment_rows_def fragment_bytes_def)
  qed
qed

text \<open>
  The bytes of the samples \<open>index - count, \<dots>, index - 1\<close> of every channel, as offsets in the ring.
\<close>

definition window :: "nat \<Rightarrow> nat \<Rightarrow> nat \<Rightarrow> nat \<Rightarrow> nat \<Rightarrow> nat set" where
  "window w n ch i c = {w * n * k + b mod (w * n) | k b. k < ch \<and> w * (i - c) \<le> b \<and> b < w * i}"

lemma in_slice_rows:
  assumes "unat count \<le> unat index" and "0 < unat count" and "unat count \<le> unat bufLen"
    and "unat index + unat bufLen < 2 ^ 64" and fits: "unat w * unat bufLen * unat ch < 2 ^ 64" and "0 < unat w" and "0 < unat ch"
  shows "in_rows x (slice_rows (wrapped_slices bufLen w ch index count))
    \<longleftrightarrow> unat x \<in> window (unat w) (unat bufLen) (unat ch) (unat index) (unat count)"
proof -
  let ?s = "wrapped_slices bufLen w ch index count" and ?t = "unat w * unat bufLen"
  have "?t \<le> ?t * unat ch" using assms(7) by simp
  then have t: "?t < 2 ^ 64" by (rule le_less_trans [OF _ fits])
  note n = wrapped_slices_nat [OF assms(1-4) t, of ch, unfolded Let_def]
  have stride: "unat (slice_stride ?s) = ?t" and cnt: "slice_count ?s = ch"
    using n by (simp_all add: wrapped_slices_def Let_def)
  have pos: "(unat index - unat count) mod unat bufLen < unat bufLen" using assms by simp
  have in0: "unat (slice_pointer (fragment0 ?s)) + unat (slice_size (fragment0 ?s)) \<le> ?t"
  proof -
    let ?o = "(unat index - unat count) mod unat bufLen"
    have "unat w * ?o + unat w * (if ?o + unat count < unat bufLen then unat count else unat bufLen - ?o) \<le> unat w * unat bufLen"
      unfolding add_mult_distrib2 [symmetric] using pos by (intro mult_le_mono2) auto
    with n show ?thesis by simp
  qed
  have in1: "unat (slice_pointer (fragment1 ?s)) + unat (slice_size (fragment1 ?s)) \<le> ?t"
  proof -
    let ?o = "(unat index - unat count) mod unat bufLen"
    have "unat w * (if ?o + unat count < unat bufLen then 0 else unat count - (unat bufLen - ?o)) \<le> unat w * unat bufLen"
      using pos assms(3) by (intro mult_le_mono2) auto
    with n show ?thesis by simp
  qed
  have "set (slice_bytes ?s) = (\<lambda>n. n mod ?t) ` {unat w * (unat index - unat count)..<unat w * unat index}"
    by (simp add: slice_bytes_stream [OF assms(1-4) t assms(6)])
  then have b: "set (fragment_bytes (fragment0 ?s)) \<union> set (fragment_bytes (fragment1 ?s))
      = (\<lambda>n. n mod ?t) ` {unat w * (unat index - unat count)..<unat w * unat index}"
    by (simp add: slice_bytes_def)
  have "in_rows x (slice_rows ?s) \<longleftrightarrow> (\<exists>c<unat ch. \<exists>b\<in>set (fragment_bytes (fragment0 ?s)) \<union> set (fragment_bytes (fragment1 ?s)). unat x = ?t * c + b)"
    using in_fragment_rows [OF stride _ in0, of x] in_fragment_rows [OF stride _ in1, of x] fits
    by (auto simp: slice_rows_def in_rows_def cnt)
  also have "\<dots> \<longleftrightarrow> unat x \<in> window (unat w) (unat bufLen) (unat ch) (unat index) (unat count)"
    unfolding b window_def by (auto; metis atLeastLessThan_iff)
  finally show ?thesis .
qed

lemma length_gathered:
  "length (gathered mem (map (\<lambda>(a, n). \<lparr>lr_addr = a, lr_len = n, lr_desc = d\<rparr>) rows)) = (\<Sum>(a, n)\<leftarrow>rows. unat n)"
  by (induction rows) (auto simp: gathered_def region_bytes_def)

lemma slice_rows_total:
  "(\<Sum>(a, n)\<leftarrow>slice_rows s. unat n) = unat (slice_count s) * (unat (slice_size (fragment0 s)) + unat (slice_size (fragment1 s)))"
proof -
  have "(\<Sum>(a, n)\<leftarrow>fragment_rows s f. unat n) = unat (slice_count s) * unat (slice_size f)" for f
    by (auto simp: fragment_rows_def sum_list_triv comp_def unat_eq_0 word_gt_0)
  then show ?thesis by (simp add: slice_rows_def distrib_left)
qed

lemma rebase_total: "(\<Sum>(a, n)\<leftarrow>rebase base rows. unat n) = (\<Sum>(a, n)\<leftarrow>rows. unat n)"
  by (induction rows) (auto simp: rebase_def)

text \<open>What the gathered samples take.\<close>

lemma gathered_size:
  assumes "unat count \<le> unat index" and "0 < unat count" and "unat count \<le> unat bufLen"
    and "unat index + unat bufLen < 2 ^ 64" and "unat w * unat bufLen < 2 ^ 64"
  shows "(\<Sum>(a, n)\<leftarrow>rebase base (slice_rows (wrapped_slices bufLen w ch index count)). unat n) = unat ch * (unat w * unat count)"
proof -
  note n = wrapped_slices_nat [OF assms, of ch, unfolded Let_def]
  have "slice_count (wrapped_slices bufLen w ch index count) = ch" by (simp add: wrapped_slices_def Let_def)
  moreover have "unat (slice_size (fragment0 (wrapped_slices bufLen w ch index count)))
      + unat (slice_size (fragment1 (wrapped_slices bufLen w ch index count))) = unat w * unat count"
    using n by (auto simp: add_mult_distrib2 [symmetric])
  ultimately show ?thesis by (simp add: rebase_total slice_rows_total)
qed

text \<open>
  C26: An entry that holds the header and the bytes the initiator gathered from its ring is copied out to
  the same offsets of the target's ring: every byte of the window of samples, in every channel, is the
  initiator's, and no other byte of the memory changes.
\<close>

theorem samples_cross_the_network:
  assumes ring: "al_bufferLength layout = bufLen" "al_sampleSize layout = w" "al_channelCount layout = ch" "ab_layout ab = layout"
    and header: "unat count \<le> unat index" "0 < unat count" "unat count \<le> unat bufLen" "unat index + unat bufLen < 2 ^ 64"
    and fits: "unat w * unat bufLen * unat ch < 2 ^ 64" "0 < unat w" "0 < unat ch"
    and sgl: "makeScatterGatherList layout index count region = Ret sgl"
    and entry: "unat i < length (ab_entries ab)" "be_header (ab_entries ab ! unat i) = \<lparr>ah_headIndex = index, ah_count = count\<rparr>"
      "be_samples (ab_entries ab ! unat i) = gathered src sgl @ rest"
    and size: "\<And>e. e \<in> set (ab_entries ab) \<Longrightarrow> length (be_samples e) = len" "len + 16 < 2 ^ 64"
  shows "unpack ab i out mem = Ret (\<lparr>ah_headIndex = index, ah_count = count\<rparr>,
    \<lambda>a. if unat (a - rg_base out) \<in> window (unat w) (unat bufLen) (unat ch) (unat index) (unat count)
        then src (lr_addr region + (a - rg_base out)) else mem a)"
proof -
  let ?rows = "slice_rows (wrapped_slices bufLen w ch index count)"
  have b0: "bufLen \<noteq> 0" using header(2,3) by auto
  have "unat w * unat bufLen \<le> unat w * unat bufLen * unat ch" using fits(3) by simp
  then have t: "unat w * unat bufLen < 2 ^ 64" by (rule le_less_trans [OF _ fits(1)])
  have "unat ch * unat w \<le> unat w * unat bufLen * unat ch" using header(2,3) by simp
  then have "unat ch * unat w < 2 ^ 64" by (rule le_less_trans [OF _ fits(1)])
  then have m: "unat (ch * w) = unat ch * unat w" by (subst unat_mult_lt) auto
  then have m0: "ch * w \<noteq> 0" using fits(2,3) by (metis mult_is_0 neq0_conv unat_0)
  have sgl': "sgl = map (\<lambda>(a, n). \<lparr>lr_addr = a, lr_len = n, lr_desc = lr_desc region\<rparr>) (rebase (lr_addr region) ?rows)"
    using sgl b0 by (simp add: makeScatterGatherList_def rebased_slices slice_rows_rebased ring)
  have "length (gathered src sgl @ rest) = len" using size(1) entry(1,3) by (metis nth_mem)
  then have "unat ch * (unat w * unat count) \<le> len"
    using gathered_size [OF header t, of "lr_addr region" ch] by (simp add: sgl' length_gathered)
  then have count: "unat count \<le> len div (unat ch * unat w)"
    using fits(2,3) by (simp add: less_eq_div_iff_mult_less_eq mult.commute mult.left_commute)
  have "entrySize ab = 16 + of_nat len"
    using entry(1) size(1) by (cases "ab_entries ab") (auto simp: entrySize_def be_size_def SIZEOF_AUDIO_HEADER_def)
  then have "unat (entrySize ab - SIZEOF_AUDIO_HEADER) = len"
    using size(2) by (simp add: SIZEOF_AUDIO_HEADER_def of_nat_inverse [OF refl])
  then have ok: "\<not> count > (entrySize ab - SIZEOF_AUDIO_HEADER) div (ch * w)"
    using count by (simp add: word_less_nat_alt unat_div m)
  have "copy_rows (gathered src sgl @ rest) 0 (rebase (rg_base out) ?rows) mem
      = Ret (\<lambda>a. if in_rows (a - rg_base out) ?rows then src (lr_addr region + (a - rg_base out)) else mem a)"
    using copy_gathered [where pre = "[]" and off = 0 and src = src and d = "lr_desc region"] by (simp add: sgl')
  then show ?thesis
    using entry ok m0 b0 by (simp add: unpack_def ring Let_def rebased_slices slice_rows_rebased [unfolded Let_def] in_slice_rows [OF header fits])
qed

lemma oversized_row_crashes:
  "(a, n) \<in> set rows \<Longrightarrow> length samples < unat n \<Longrightarrow> copy_rows samples off rows mem = Crash DanglingPointer"
  by (induction samples off rows mem rule: copy_rows.induct) auto

text \<open>
  The initiator refuses to send no samples, but the target takes the count from the header as it is: a
  header with count 0 passes its check, and the size of the second fragment wraps around.
\<close>

theorem empty_batch_crashes_target:
  assumes "al_bufferLength (ab_layout ab) = bufLen" "al_sampleSize (ab_layout ab) = w" "al_channelCount (ab_layout ab) = ch"
    and "unat i < length (ab_entries ab)" "be_header (ab_entries ab ! unat i) = \<lparr>ah_headIndex = index, ah_count = 0\<rparr>"
    and "0 < unat bufLen" "0 < unat w" "0 < unat ch" "ch * w \<noteq> 0"
    and "unat index + unat bufLen < 2 ^ 64" "unat w * unat bufLen + length (be_samples (ab_entries ab ! unat i)) < 2 ^ 64"
  shows "unpack ab i out mem = Crash DanglingPointer"
proof -
  let ?s = "wrapped_slices bufLen w ch index 0" and ?first = "bufLen - index mod bufLen"
  have s: "(index + bufLen) mod bufLen = index mod bufLen"
    using assms(10) by (simp add: word_unat_eq_iff unat_mod unat_add_lt)
  have f1: "slice_size (fragment1 ?s) = w * (0 - ?first)" "slice_count ?s = ch" "slice_pointer (fragment1 ?s) = 0"
    by (simp_all add: wrapped_slices_def Let_def s right_diff_distrib)
  have "unat (index mod bufLen) < unat bufLen" using assms(6) by (simp add: unat_mod)
  then have "unat ?first = unat bufLen - unat (index mod bufLen)" by (subst unat_sub_le) (simp_all add: word_le_nat_alt)
  with \<open>unat (index mod bufLen) < unat bufLen\<close> have first: "0 < unat ?first" "unat ?first \<le> unat bufLen" by simp_all
  then have le: "unat w * unat ?first \<le> unat w * unat bufLen" by simp
  also have "\<dots> < 2 ^ 64" using assms(11) by linarith
  finally have m: "unat (w * ?first) = unat w * unat ?first" by (subst unat_mult_lt) auto
  have "w * (0 - ?first) = - (w * ?first)" by (simp add: right_diff_distrib)
  then have "unat (w * (0 - ?first)) = 2 ^ 64 - unat w * unat ?first"
    using first(1) assms(7) m unat_sub_if_size [of 0 "w * ?first"] by (simp add: word_size)
  then have big: "length (be_samples (ab_entries ab ! unat i)) < unat (slice_size (fragment1 ?s))"
    using le assms(11) unfolding f1 by linarith
  then have "(0 + slice_stride ?s * of_nat 0, slice_size (fragment1 ?s)) \<in> set (slice_rows ?s)"
    using assms(8) f1 by (auto simp: slice_rows_def fragment_rows_def word_less_nat_alt intro!: image_eqI [of _ _ 0])
  then have "(rg_base out + 0, slice_size (fragment1 ?s)) \<in> set (rebase (rg_base out) (slice_rows ?s))"
    by (force simp: rebase_def)
  from oversized_row_crashes [OF this big] show ?thesis
    using assms(4-9) by (simp add: unpack_def assms(1-3) Let_def rebased_slices slice_rows_rebased [unfolded Let_def] word_gt_0 unat_gt_0)
qed

section \<open>Examples\<close>

text \<open>Three samples of two bytes in two channels of four, the last of them past the end of the ring.\<close>

definition ex_layout :: AudioLayout where
  "ex_layout = \<lparr>al_sampleSize = 2, al_channelCount = 2, al_bufferLength = 4\<rparr>"

definition ex_local :: LocalRegion where
  "ex_local = \<lparr>lr_addr = 100, lr_len = 16, lr_desc = 0\<rparr>"

definition ex_sgl :: "LocalRegion list" where
  "ex_sgl = (case makeScatterGatherList ex_layout 5 3 ex_local of Ret rs \<Rightarrow> rs | _ \<Rightarrow> [])"

definition ex_bounce :: "u64 \<Rightarrow> u8 list \<Rightarrow> AudioBounceBuffer" where
  "ex_bounce n samples = \<lparr>ab_entries = [\<lparr>be_addr = 0, be_header = \<lparr>ah_headIndex = 5, ah_count = n\<rparr>, be_samples = samples\<rparr>], ab_layout = ex_layout\<rparr>"

lemma samples_cross_the_network_witness:
  "unpack (ex_bounce 3 (gathered ucast ex_sgl)) 0 (host_region 1000 16) (\<lambda>_. 0)
    = Ret (\<lparr>ah_headIndex = 5, ah_count = 3\<rparr>, \<lambda>a. if unat (a - 1000) \<in> window 2 4 2 5 3 then ucast (lr_addr ex_local + (a - rg_base (host_region 1000 16))) else 0)"
proof -
  have s: "makeScatterGatherList ex_layout 5 3 ex_local = Ret ex_sgl" by code_simp
  have "length (gathered ucast ex_sgl :: u8 list) = 12" by code_simp
  moreover have "lr_addr ex_local = 100" "rg_base (host_region 1000 16) = 1000" by (simp_all add: ex_local_def host_region_def)
  ultimately show ?thesis
    using samples_cross_the_network [where src = ucast and layout = ex_layout and ab = "ex_bounce 3 (gathered ucast ex_sgl)" and bufLen = 4 and w = 2 and ch = 2
        and i = 0 and out = "host_region 1000 16" and mem = "\<lambda>_. 0" and rest = "[]" and len = 12, OF _ _ _ _ _ _ _ _ _ _ _ s]
    by (simp add: ex_bounce_def ex_layout_def)
qed

lemma empty_batch_crashes_target_witness:
  "unpack (ex_bounce 0 (replicate 12 0)) 0 (host_region 1000 16) (\<lambda>_. 0) = Crash DanglingPointer"
  by (rule empty_batch_crashes_target [where bufLen = 4 and w = 2 and ch = 2 and index = 5]) (simp_all add: ex_bounce_def ex_layout_def)

end
