(* ===== verification/RmaTransfer.thy ===== *)
theory RmaTransfer
  imports BounceBuffer
begin

text \<open>
  Transfers (\<open>Endpoint.cpp\<close>, \<open>ProtocolEgressRMA.cpp\<close>, \<open>ProtocolIngressRMA.cpp\<close>, \<open>Protocol.cpp\<close>): an
  egress protocol turns a range of slices or a batch of samples into remote writes and counts those not
  completed; an ingress protocol turns a completion into a grain or a batch of samples received. The
  lemmas show where the writes of a scatter-gather list go, that a grain arrives in the slot it was
  sent to, and what an error in the middle of a transfer does to the count.
\<close>

section \<open>Remote writes\<close>

definition FI_ADDR_UNSPEC :: u64 where "FI_ADDR_UNSPEC = - 1"

definition writeImpl :: "Endpoint \<Rightarrow> u64 \<Rightarrow> LocalRegion list \<Rightarrow> RemoteRegion \<Rightarrow> u64 \<Rightarrow> u32 option \<Rightarrow> unit fab" where
  "writeImpl ep token msgIov rmaIov destAddr immData =
     with_raw ep (\<lambda>h. fiCall (\<lambda>f. ((), f\<lparr>fb_writes := fb_writes f @
       [\<lparr>wr_endpoint = h, wr_token = token, wr_local = msgIov, wr_remote = rmaIov, wr_dest = destAddr, wr_imm = immData\<rparr>]\<rparr>)))"

definition ep_write :: "Endpoint \<Rightarrow> u64 \<Rightarrow> LocalRegion \<Rightarrow> RemoteRegion \<Rightarrow> u64 \<Rightarrow> u32 option \<Rightarrow> nat fab" where
  "ep_write ep token local remote destAddr immData =
     pbind (writeImpl ep token [local] remote destAddr immData) (\<lambda>_. pret 1)"

definition group_span :: "LocalRegion list \<Rightarrow> nat \<Rightarrow> nat \<Rightarrow> LocalRegion list outcome" where
  "group_span inner b e =
     (if e < b then Throw (StatusException MXL_ERR_INVALID_ARG)
      else if e - b > length inner then Throw (StatusException MXL_ERR_INVALID_ARG)
      else Ret (take (e - b) (drop b inner)))"

definition byteSize :: "LocalRegion list \<Rightarrow> u64" where
  "byteSize rs = (\<Sum>r\<leftarrow>rs. lr_len r)"

fun write_spans ::
  "Endpoint \<Rightarrow> u64 \<Rightarrow> LocalRegion list \<Rightarrow> RemoteRegion \<Rightarrow> u64 \<Rightarrow> u32 option \<Rightarrow> nat \<Rightarrow> nat \<Rightarrow> nat list \<Rightarrow> u64 \<Rightarrow> unit fab" where
  "write_spans ep token localGroup remote destAddr immData iovLimit nbWrites [] remoteOffset = pret ()"
| "write_spans ep token localGroup remote destAddr immData iovLimit nbWrites (i # is) remoteOffset =
     (let b = i * iovLimit;
          e = b + min iovLimit (length localGroup - b) in
      pbind (plift (group_span localGroup b e)) (\<lambda>span.
      if remoteOffset + byteSize span > rr_len remote then pthrow (StatusException MXL_ERR_INVALID_ARG)
      else pbind (writeImpl ep token span (remote\<lparr>rr_addr := rr_addr remote + remoteOffset, rr_len := byteSize span\<rparr>)
                    destAddr (if i = nbWrites - 1 then immData else None)) (\<lambda>_.
             write_spans ep token localGroup remote destAddr immData iovLimit nbWrites is (remoteOffset + byteSize span))))"

definition ep_write_group :: "Endpoint \<Rightarrow> u64 \<Rightarrow> LocalRegion list \<Rightarrow> RemoteRegion \<Rightarrow> u64 \<Rightarrow> u32 option \<Rightarrow> nat fab" where
  "ep_write_group ep token localGroup remote destAddr immData =
     pbind pget (\<lambda>f.
       let iovLimit = lf_iov_limit (fb_env f) in
       if iovLimit = 0 then pcrash DivisionByZero
       else
         let nbWrites = (length localGroup + iovLimit - 1) div iovLimit in
         pbind (write_spans ep token localGroup remote destAddr immData iovLimit nbWrites [0..<nbWrites] 0)
           (\<lambda>_. pret nbWrites))"

section \<open>Egress protocols\<close>

record GrainEgress =
  ge_token :: u64
  ge_info :: TargetInfo
  ge_sliceSizes :: "u32 list"
  ge_regions :: "LocalRegion list"
  ge_pending :: u64

record SampleEgress =
  se_token :: u64
  se_info :: TargetInfo
  se_layout :: AudioLayout
  se_region :: LocalRegion
  se_headers :: "AudioEntryHeader list"
  se_headerRegions :: "LocalRegion list"
  se_pending :: u64
  se_entryIndex :: u32
  se_entryCount :: u64

datatype EgressProtocol =
    RMAGrainEgress GrainEgress
  | RMASampleEgress SampleEgress

definition div_index :: "u64 \<Rightarrow> 'a list \<Rightarrow> u64 outcome" where
  "div_index i xs = (if xs = [] then Crash DivisionByZero else Ret (i mod of_nat (length xs)))"

definition GrainEgress_transferGrain ::
  "Endpoint \<Rightarrow> u64 \<Rightarrow> u64 \<Rightarrow> u32 \<Rightarrow> SliceRange \<Rightarrow> u64 \<Rightarrow> (GrainEgress \<times> fabric, unit) prog" where
  "GrainEgress_transferGrain ep localIndex remoteIndex payloadOffset sliceRange destAddr =
     pbind pget (\<lambda>(p, _).
       let sz = transferSize sliceRange payloadOffset (ge_sliceSizes p ! 0);
           offset = transferOffset sliceRange payloadOffset (ge_sliceSizes p ! 0);
           remotes = ti_regions (ge_info p) in
       pbind (plift (div_index localIndex (ge_regions p))) (\<lambda>i.
       pbind (plift (LocalRegion_sub (ge_regions p ! unat i) (ucast offset) (ucast sz))) (\<lambda>localRegion.
       pbind (plift (div_index remoteIndex remotes)) (\<lambda>remoteSlot.
       pbind (plift (RemoteRegion_sub (remotes ! unat remoteSlot) (ucast offset) (ucast sz))) (\<lambda>remoteRegion.
       pbind (net (ep_write ep (ge_token p) localRegion remoteRegion destAddr (Some (imm_pack remoteSlot (sr_end sliceRange))))) (\<lambda>n.
         own (pmodify (\<lambda>p. p\<lparr>ge_pending := ge_pending p + of_nat n\<rparr>))))))))"

definition SampleEgress_transferSamples ::
  "Endpoint \<Rightarrow> u64 \<Rightarrow> u64 \<Rightarrow> u64 \<Rightarrow> (SampleEgress \<times> fabric, unit) prog" where
  "SampleEgress_transferSamples ep head count destAddr =
     pbind pget (\<lambda>(p, _).
       let layout = se_layout p in
       if count = 0 then pthrow (StatusException MXL_ERR_INVALID_ARG)
       else
         let entrySizeRequired = al_sampleSize layout * al_channelCount layout * count + SIZEOF_AUDIO_HEADER in
         case ti_bounce (se_info p) of
           None \<Rightarrow> pcrash EmptyOptional
         | Some (_, entryBytes) \<Rightarrow>
             if entrySizeRequired > entryBytes then pthrow (StatusException MXL_ERR_INVALID_ARG)
             else
               let k = unat (se_entryIndex p) in
               pbind (plift (makeScatterGatherList layout head count (se_region p))) (\<lambda>sgl.
               if k \<ge> length (se_headers p) \<or> k \<ge> length (se_headerRegions p) then pcrash BadIterator
               else
                 pbind (own (pmodify (\<lambda>p. p\<lparr>se_headers := (se_headers p)[k := \<lparr>ah_headIndex = head, ah_count = count\<rparr>]\<rparr>))) (\<lambda>_.
                 pbind (plift (div_index (ucast (se_entryIndex p)) (ti_regions (se_info p)))) (\<lambda>slot.
                 pbind (net (ep_write_group ep (se_token p) (se_headerRegions p ! k # sgl) (ti_regions (se_info p) ! unat slot) destAddr
                               (Some (se_entryIndex p)))) (\<lambda>n.
                 pbind (own (pmodify (\<lambda>p. p\<lparr>se_pending := se_pending p + of_nat n\<rparr>))) (\<lambda>_.
                 if se_entryCount p = 0 then pcrash DivisionByZero
                 else own (pmodify (\<lambda>p. p\<lparr>se_entryIndex := ucast ((ucast (se_entryIndex p) + 1) mod se_entryCount p)\<rparr>))))))))"

text \<open>A grain protocol does not transfer samples, nor a sample protocol grains.\<close>

definition inside :: "('q \<Rightarrow> 'p) \<Rightarrow> 'q \<Rightarrow> ('q \<times> 'f, 'a) prog \<Rightarrow> ('p \<times> 'f, 'a) prog" where
  "inside c q m s = (case m (q, snd s) of (r, (q', f)) \<Rightarrow> (r, (c q', f)))"

definition proto_transferGrain ::
  "Endpoint \<Rightarrow> u64 \<Rightarrow> u64 \<Rightarrow> u32 \<Rightarrow> SliceRange \<Rightarrow> u64 \<Rightarrow> (EgressProtocol \<times> fabric, unit) prog" where
  "proto_transferGrain ep localIndex remoteIndex payloadOffset sliceRange destAddr =
     pbind pget (\<lambda>(p, _).
       case p of
         RMAGrainEgress g \<Rightarrow> inside RMAGrainEgress g (GrainEgress_transferGrain ep localIndex remoteIndex payloadOffset sliceRange destAddr)
       | RMASampleEgress _ \<Rightarrow> pthrow (StatusException MXL_ERR_INVALID_STATE))"

definition proto_transferSamples :: "Endpoint \<Rightarrow> u64 \<Rightarrow> u64 \<Rightarrow> u64 \<Rightarrow> (EgressProtocol \<times> fabric, unit) prog" where
  "proto_transferSamples ep head count destAddr =
     pbind pget (\<lambda>(p, _).
       case p of
         RMAGrainEgress _ \<Rightarrow> pthrow (StatusException MXL_ERR_INVALID_STATE)
       | RMASampleEgress q \<Rightarrow> inside RMASampleEgress q (SampleEgress_transferSamples ep head count destAddr))"

definition pending :: "EgressProtocol \<Rightarrow> u64" where
  "pending p = (case p of RMAGrainEgress g \<Rightarrow> ge_pending g | RMASampleEgress q \<Rightarrow> se_pending q)"

definition set_pending :: "u64 \<Rightarrow> EgressProtocol \<Rightarrow> EgressProtocol" where
  "set_pending n p =
     (case p of RMAGrainEgress g \<Rightarrow> RMAGrainEgress (g\<lparr>ge_pending := n\<rparr>) | RMASampleEgress q \<Rightarrow> RMASampleEgress (q\<lparr>se_pending := n\<rparr>))"

definition proto_processCompletion :: "EgressProtocol \<Rightarrow> EgressProtocol" where
  "proto_processCompletion p = set_pending (pending p - 1) p"

definition proto_hasPendingWork :: "EgressProtocol \<Rightarrow> bool" where
  "proto_hasPendingWork p \<longleftrightarrow> pending p > 0"

definition proto_reset :: "EgressProtocol \<Rightarrow> u64 \<times> EgressProtocol" where
  "proto_reset p = (pending p, set_pending 0 p)"

text \<open>
  Only the headers of a sample protocol need memory of their own: one region per entry, behind the
  regions the domain has already registered.
\<close>

definition SampleEgress_registerMemory :: "(SampleEgress \<times> fabric, unit) prog" where
  "SampleEgress_registerMemory =
     pbind pget (\<lambda>(p, _).
       if se_headers p = [] then pthrow (StatusException MXL_ERR_INVALID_STATE)
       else
         pbind (net allocate) (\<lambda>base.
         pbind (net localRegions) (\<lambda>before.
         pbind (net (registerRegions (map (\<lambda>i. host_region (base + SIZEOF_AUDIO_HEADER * of_nat i) SIZEOF_AUDIO_HEADER) [0..<length (se_headers p)]))) (\<lambda>_.
         pbind (net localRegions) (\<lambda>all.
           own (pmodify (\<lambda>p. p\<lparr>se_headerRegions := drop (length before) all\<rparr>)))))))"

definition proto_registerMemory :: "(EgressProtocol \<times> fabric, unit) prog" where
  "proto_registerMemory =
     pbind pget (\<lambda>(p, _).
       case p of
         RMAGrainEgress _ \<Rightarrow> pret ()
       | RMASampleEgress q \<Rightarrow> inside RMASampleEgress q SampleEgress_registerMemory)"

section \<open>Protocol templates\<close>

datatype EgressTemplate =
    GrainTemplate "u32 list" "Region list" "LocalRegion list option"
  | SampleTemplate AudioLayout Region "LocalRegion option"

definition template_registerMemory :: "(EgressTemplate \<times> fabric, unit) prog" where
  "template_registerMemory =
     pbind pget (\<lambda>(t, _).
       case t of
         GrainTemplate sizes regions local \<Rightarrow>
           if local \<noteq> None then pthrow (StatusException MXL_ERR_INVALID_STATE)
           else pbind (net (registerRegions regions)) (\<lambda>_.
                pbind (net localRegions) (\<lambda>rs. own (pmodify (\<lambda>_. GrainTemplate sizes regions (Some rs)))))
       | SampleTemplate layout region local \<Rightarrow>
           if local \<noteq> None then pthrow (StatusException MXL_ERR_INVALID_STATE)
           else pbind (net localRegions) (\<lambda>before.
             if before \<noteq> [] then pthrow (StatusException MXL_ERR_INVALID_STATE)
             else pbind (net (registerRegion region)) (\<lambda>_.
                  pbind (net localRegions) (\<lambda>rs. own (pmodify (\<lambda>_. SampleTemplate layout region (Some (hd rs))))))))"

text \<open>The number of entries goes through a 32 bit parameter.\<close>

definition template_createInstance :: "EgressTemplate \<Rightarrow> u64 \<Rightarrow> TargetInfo \<Rightarrow> EgressProtocol outcome" where
  "template_createInstance t token remoteInfo =
     (case t of
        GrainTemplate sizes _ local \<Rightarrow>
          (case local of
             None \<Rightarrow> Throw (StatusException MXL_ERR_INVALID_STATE)
           | Some rs \<Rightarrow> Ret (RMAGrainEgress \<lparr>ge_token = token, ge_info = remoteInfo, ge_sliceSizes = sizes, ge_regions = rs, ge_pending = 0\<rparr>))
      | SampleTemplate layout _ local \<Rightarrow>
          (case local of
             None \<Rightarrow> Throw (StatusException MXL_ERR_INVALID_STATE)
           | Some r \<Rightarrow>
               (case ti_bounce remoteInfo of
                  None \<Rightarrow> Throw (StatusException MXL_ERR_INVALID_ARG)
                | Some (entries, _) \<Rightarrow>
                    let n = ucast entries :: u32 in
                    Ret (RMASampleEgress \<lparr>se_token = token, se_info = remoteInfo, se_layout = layout, se_region = r,
                      se_headers = replicate (unat n) \<lparr>ah_headIndex = 0, ah_count = 0\<rparr>, se_headerRegions = [], se_pending = 0,
                      se_entryIndex = 0, se_entryCount = ucast n\<rparr>))))"

definition audio_layout :: "u64 \<Rightarrow> u64 \<Rightarrow> u64 \<Rightarrow> AudioLayout" where
  "audio_layout ss ch bl = \<lparr>al_sampleSize = ss, al_channelCount = ch, al_bufferLength = bl\<rparr>"

definition selectEgressProtocol :: "DataLayout \<Rightarrow> Region list \<Rightarrow> EgressTemplate outcome" where
  "selectEgressProtocol layout regions =
     (case layout of
        DiscreteLayout sizes \<Rightarrow> Ret (GrainTemplate sizes regions None)
      | ContinuousLayout ss ch bl \<Rightarrow>
          if length regions \<noteq> 1 then Throw (StatusException MXL_ERR_INVALID_ARG)
          else Ret (SampleTemplate (audio_layout ss ch bl) (hd regions) None))"

section \<open>Ingress protocols\<close>

datatype IngressProtocol =
    RMAGrainIngress "Region list"
  | RMASampleIngress AudioBounceBuffer Region

text \<open>
  The protocol with whether its memory is registered and whether it has a buffer for immediate data, the
  grain headers of the flow written to, and the memory of the process.
\<close>

record Ingress =
  in_proto :: IngressProtocol
  in_registered :: bool
  in_immData :: "u64 option"
  in_infos :: "mxlGrainInfo list"
  in_memory :: memory

datatype ReadResult =
    GrainReadResult u64
  | SampleReadResult u64 u64

definition new_ingress :: "IngressProtocol \<Rightarrow> mxlGrainInfo list \<Rightarrow> memory \<Rightarrow> Ingress" where
  "new_ingress p infos mem = \<lparr>in_proto = p, in_registered = False, in_immData = None, in_infos = infos, in_memory = mem\<rparr>"

definition selectIngressProtocol :: "DataLayout \<Rightarrow> Region list \<Rightarrow> u32 \<Rightarrow> (nat \<Rightarrow> u64) \<Rightarrow> IngressProtocol outcome" where
  "selectIngressProtocol layout regions maxSyncBatchSize addr =
     (case layout of
        DiscreteLayout _ \<Rightarrow> Ret (RMAGrainIngress regions)
      | ContinuousLayout ss ch bl \<Rightarrow>
          if length regions \<noteq> 1 then Throw (StatusException MXL_ERR_INVALID_ARG)
          else obind (makeAudioBounceBuffer (audio_layout ss ch bl) maxSyncBatchSize addr) (\<lambda>ab. Ret (RMASampleIngress ab (hd regions))))"

definition ingress_registerMemory :: "(Ingress \<times> fabric, RemoteRegion list) prog" where
  "ingress_registerMemory =
     pbind pget (\<lambda>(g, _).
       if in_registered g then pthrow (StatusException MXL_ERR_INVALID_STATE)
       else
         pbind (net (registerRegions (case in_proto g of RMAGrainIngress rs \<Rightarrow> rs | RMASampleIngress ab _ \<Rightarrow> getRegions ab))) (\<lambda>_.
         pbind (own (pmodify (\<lambda>g. g\<lparr>in_registered := True\<rparr>))) (\<lambda>_.
           net remoteRegions)))"

definition bounceBufferInfo :: "IngressProtocol \<Rightarrow> (u64 \<times> u64) option" where
  "bounceBufferInfo p = (case p of RMAGrainIngress _ \<Rightarrow> None | RMASampleIngress ab _ \<Rightarrow> Some (entryCount ab, entrySize ab))"

definition canReadGrains :: "IngressProtocol \<Rightarrow> bool" where
  "canReadGrains p = (case p of RMAGrainIngress _ \<Rightarrow> True | RMASampleIngress _ _ \<Rightarrow> False)"

definition canReadSamples :: "IngressProtocol \<Rightarrow> bool" where
  "canReadSamples p = (case p of RMAGrainIngress _ \<Rightarrow> False | RMASampleIngress _ _ \<Rightarrow> True)"

definition imm_region :: "u64 \<Rightarrow> LocalRegion" where
  "imm_region addr = \<lparr>lr_addr = addr, lr_len = 8, lr_desc = 0\<rparr>"

definition immDataRegion :: "(Ingress \<times> fabric, LocalRegion) prog" where
  "immDataRegion =
     pbind pget (\<lambda>(g, _).
       case in_immData g of
         Some addr \<Rightarrow> pret (imm_region addr)
       | None \<Rightarrow> pbind (net allocate) (\<lambda>addr.
                 pbind (own (pmodify (\<lambda>g. g\<lparr>in_immData := Some addr\<rparr>))) (\<lambda>_. pret (imm_region addr))))"

definition ingress_start :: "Endpoint \<Rightarrow> (Ingress \<times> fabric, unit) prog" where
  "ingress_start ep =
     pbind pget (\<lambda>(_, f).
       pwhen (lf_recv_buffer_for_data (fb_env f)) (pbind immDataRegion (\<lambda>r. net (ep_recv ep r))))"

definition ingress_read :: "Endpoint \<Rightarrow> Completion \<Rightarrow> (Ingress \<times> fabric, ReadResult option) prog" where
  "ingress_read ep completion =
     (case tryData completion of
        None \<Rightarrow> pret None
      | Some completionData \<Rightarrow>
          pbind pget (\<lambda>(g, _).
          pbind (case in_immData g of None \<Rightarrow> pret () | Some addr \<Rightarrow> net (ep_recv ep (imm_region addr))) (\<lambda>_.
          case completion_data completionData of
            None \<Rightarrow> pthrow (StatusException MXL_ERR_INVALID_STATE)
          | Some immData \<Rightarrow>
              (case in_proto g of
                 RMAGrainIngress regions \<Rightarrow>
                   (let (slot, slice) = imm_unpack (ucast immData) in
                    pbind (plift (setValidSlicesForGrain regions slot slice (in_infos g))) (\<lambda>infos.
                    pbind (own (pmodify (\<lambda>g. g\<lparr>in_infos := infos\<rparr>))) (\<lambda>_.
                    pbind (plift (getGrainIndexInRingSlot regions slot infos)) (\<lambda>grainIndex.
                      pret (Some (GrainReadResult grainIndex))))))
               | RMASampleIngress ab region \<Rightarrow>
                   pbind (plift (unpack ab immData region (in_memory g))) (\<lambda>(header, mem).
                   pbind (own (pmodify (\<lambda>g. g\<lparr>in_memory := mem\<rparr>))) (\<lambda>_.
                     pret (Some (SampleReadResult (ah_headIndex header) (ah_count header)))))))))"

section \<open>Where a gathered write goes\<close>

lemma byteSize_simps [simp]: "byteSize [] = 0" "byteSize (r # rs) = lr_len r + byteSize rs" "byteSize (rs @ rs') = byteSize rs + byteSize rs'"
  by (simp_all add: byteSize_def)

definition placed :: "RemoteRegion \<Rightarrow> u64 \<Rightarrow> nat \<Rightarrow> u32 option \<Rightarrow> rma_write list \<Rightarrow> bool" where
  "placed remote off iovLimit immData ws \<longleftrightarrow>
     (\<forall>i<length ws. length (wr_local (ws ! i)) \<le> iovLimit
       \<and> wr_remote (ws ! i) = remote\<lparr>rr_addr := rr_addr remote + (off + byteSize (concat (map wr_local (take i ws)))),
                                     rr_len := byteSize (wr_local (ws ! i))\<rparr>
       \<and> wr_imm (ws ! i) = (if Suc i = length ws then immData else None))"

lemma placed_Cons:
  assumes "length (wr_local w) \<le> iovLimit" and "wr_remote w = remote\<lparr>rr_addr := rr_addr remote + off, rr_len := byteSize (wr_local w)\<rparr>"
    and "wr_imm w = (if ws = [] then immData else None)" and "placed remote (off + byteSize (wr_local w)) iovLimit immData ws"
  shows "placed remote off iovLimit immData (w # ws)"
  unfolding placed_def
proof (intro allI impI)
  fix i
  assume "i < length (w # ws)"
  with assms show "length (wr_local ((w # ws) ! i)) \<le> iovLimit
       \<and> wr_remote ((w # ws) ! i) = remote\<lparr>rr_addr := rr_addr remote + (off + byteSize (concat (map wr_local (take i (w # ws))))),
                                     rr_len := byteSize (wr_local ((w # ws) ! i))\<rparr>
       \<and> wr_imm ((w # ws) ! i) = (if Suc i = length (w # ws) then immData else None)"
    by (cases i) (auto simp: placed_def add.assoc)
qed

lemma spans_cover:
  assumes "0 < lim" shows "drop ((length rs + lim - 1) div lim * lim) rs = []"
proof -
  let ?m = "length rs + lim - 1"
  have "?m - ?m mod lim = ?m div lim * lim" by (simp add: minus_mod_eq_div_mult)
  moreover have "?m mod lim < lim" using assms by simp
  ultimately have "length rs \<le> ?m div lim * lim" using assms by linarith
  then show ?thesis by simp
qed

lemma write_spans_placed:
  assumes "0 < lim" and nb: "nb = (length rs + lim - 1) div lim" and last: "drop (nb * lim) rs = []"
  shows "write_spans ep token rs remote dest imm lim nb [a..<nb] off f = (Ret (), f') \<Longrightarrow> a \<le> nb \<Longrightarrow>
    \<exists>ws. fb_writes f' = fb_writes f @ ws \<and> length ws = nb - a \<and> concat (map wr_local ws) = drop (a * lim) rs
      \<and> placed remote off lim imm ws \<and> (a < nb \<longrightarrow> off + byteSize (drop (a * lim) rs) \<le> rr_len remote)"
proof (induction "nb - a" arbitrary: a off f)
  case 0
  then have "a = nb" by simp
  with 0 last show ?case by (simp add: placed_def)
next
  case (Suc k)
  let ?span = "take lim (drop (a * lim) rs)"
  have a: "a < nb" "[a..<nb] = a # [Suc a..<nb]" using Suc.hyps(2) by (auto simp: upt_conv_Cons)
  have "a * lim < length rs"
  proof -
    have "Suc a * lim \<le> nb * lim" using a(1) by (intro mult_le_mono1) simp
    moreover have "nb * lim \<le> length rs + lim - 1" unfolding nb by (rule div_times_less_eq_dividend)
    ultimately show ?thesis using assms(1) by simp
  qed
  then have sp: "group_span rs (a * lim) (a * lim + min lim (length rs - a * lim)) = Ret ?span"
    by (auto simp: group_span_def min_def)
  from Suc.prems obtain h f1 where fits: "\<not> off + byteSize ?span > rr_len remote"
    and w: "writeImpl ep token ?span (remote\<lparr>rr_addr := rr_addr remote + off, rr_len := byteSize ?span\<rparr>) dest (if a = nb - 1 then imm else None) f = (Ret (), f1)"
    and rest: "write_spans ep token rs remote dest imm lim nb [Suc a..<nb] (off + byteSize ?span) f1 = (Ret (), f')"
    by (auto simp: a Let_def sp pbind_eq_Ret simp del: upt_Suc split: if_splits)
  from w obtain w' where w': "fb_writes f1 = fb_writes f @ [w']" "wr_local w' = ?span"
      "wr_remote w' = remote\<lparr>rr_addr := rr_addr remote + off, rr_len := byteSize ?span\<rparr>" "wr_imm w' = (if a = nb - 1 then imm else None)"
    by (auto simp: writeImpl_def with_raw_Ret fiCall_Ret)
  have k: "k = nb - Suc a" "Suc a \<le> nb" using Suc.hyps(2) a(1) by simp_all
  from Suc.hyps(1) [OF k(1) rest k(2)] obtain ws where ws: "fb_writes f' = fb_writes f1 @ ws" "length ws = nb - Suc a"
      "concat (map wr_local ws) = drop (Suc a * lim) rs" "placed remote (off + byteSize ?span) lim imm ws"
      "Suc a < nb \<longrightarrow> off + byteSize ?span + byteSize (drop (Suc a * lim) rs) \<le> rr_len remote"
    by blast
  have rest': "drop (Suc a * lim) rs = drop lim (drop (a * lim) rs)" by simp
  have split: "?span @ drop (Suc a * lim) rs = drop (a * lim) rs" unfolding rest' by (rule append_take_drop_id)
  then have bytes: "byteSize (drop (a * lim) rs) = byteSize ?span + byteSize (drop (Suc a * lim) rs)"
    by (metis byteSize_simps(3))
  have "placed remote off lim imm (w' # ws)"
    using w' ws(2,4) a(1) by (intro placed_Cons) auto
  moreover have "off + byteSize (drop (a * lim) rs) \<le> rr_len remote"
  proof (cases "Suc a < nb")
    case True
    with ws(5) show ?thesis unfolding bytes by (simp only: add.assoc)
  next
    case False
    then have "nb = Suc a" using a(1) by simp
    with last have "drop (Suc a * lim) rs = []" by simp
    with fits show ?thesis unfolding bytes by (simp only: byteSize_simps add_0_right not_less)
  qed
  moreover have "fb_writes f' = fb_writes f @ w' # ws" using w'(1) ws(1) by simp
  moreover have "length (w' # ws) = nb - a" using ws(2) a(1) by simp
  moreover have "concat (map wr_local (w' # ws)) = drop (a * lim) rs" using w'(2) ws(3) split by simp
  ultimately show ?case by blast
qed

lemma ep_write_group_Ret:
  assumes "ep_write_group ep token rs remote dest imm f = (Ret n, f')"
  shows "0 < lf_iov_limit (fb_env f) \<and> n = (length rs + lf_iov_limit (fb_env f) - 1) div lf_iov_limit (fb_env f)
    \<and> (\<exists>ws. fb_writes f' = fb_writes f @ ws \<and> length ws = n \<and> concat (map wr_local ws) = rs
         \<and> placed remote 0 (lf_iov_limit (fb_env f)) imm ws \<and> (0 < n \<longrightarrow> byteSize rs \<le> rr_len remote))"
proof -
  define lim' where "lim' = lf_iov_limit (fb_env f)"
  define nb where "nb = (length rs + lim' - 1) div lim'"
  have "(if lim' = 0 then pcrash DivisionByZero
      else pbind (write_spans ep token rs remote dest imm lim' nb [0..<nb] 0) (\<lambda>_. pret nb)) f = (Ret n, f')"
    using assms by (simp only: ep_write_group_def Let_def pbind_Ret [OF pget_simp] lim'_def nb_def)
  then have lim: "0 < lim'" and n: "n = nb"
    and run: "write_spans ep token rs remote dest imm lim' nb [0..<nb] 0 f = (Ret (), f')"
    by (auto simp: pbind_eq_Ret simp del: write_spans.simps split: if_splits)
  from write_spans_placed [OF lim nb_def spans_cover [OF lim, of rs, folded nb_def] run le0]
  have "\<exists>ws. fb_writes f' = fb_writes f @ ws \<and> length ws = n \<and> concat (map wr_local ws) = rs
      \<and> placed remote 0 lim' imm ws \<and> (0 < n \<longrightarrow> byteSize rs \<le> rr_len remote)"
    by (simp only: n mult_0 drop_0 diff_zero add_0_left)
  with lim n show ?thesis unfolding lim'_def nb_def by blast
qed

text \<open>
  C27: A scatter-gather list that does not fit into one write is cut into several. If all are posted, they
  carry the list in order, fill the remote region from its start without a gap, stay inside it, and the
  last one alone has the immediate data.
\<close>

theorem gathered_write_is_contiguous:
  assumes "ep_write_group ep token rs remote dest imm f = (Ret n, f')"
  shows "\<exists>ws. fb_writes f' = fb_writes f @ ws \<and> length ws = n \<and> concat (map wr_local ws) = rs
    \<and> (rs \<noteq> [] \<longrightarrow> byteSize rs \<le> rr_len remote)
    \<and> (\<forall>i<n. length (wr_local (ws ! i)) \<le> lf_iov_limit (fb_env f)
         \<and> wr_remote (ws ! i) = remote\<lparr>rr_addr := rr_addr remote + byteSize (concat (map wr_local (take i ws))), rr_len := byteSize (wr_local (ws ! i))\<rparr>
         \<and> wr_imm (ws ! i) = (if i = n - 1 then imm else None))"
proof -
  note run = ep_write_group_Ret [OF assms]
  have lim: "0 < lf_iov_limit (fb_env f)" using run by (rule conjunct1)
  have n: "n = (length rs + lf_iov_limit (fb_env f) - 1) div lf_iov_limit (fb_env f)" using run by (rule conjunct1 [OF conjunct2])
  obtain ws where ws: "fb_writes f' = fb_writes f @ ws" "length ws = n" "concat (map wr_local ws) = rs"
      "placed remote 0 (lf_iov_limit (fb_env f)) imm ws" "0 < n \<longrightarrow> byteSize rs \<le> rr_len remote"
    using conjunct2 [OF conjunct2 [OF run]] by (elim exE conjE) (rule that)
  have "rs \<noteq> [] \<longrightarrow> 0 < n" unfolding n using lim by (cases rs) (auto simp: div_greater_zero_iff)
  moreover have "Suc i = length ws \<longleftrightarrow> i = n - 1" if "i < length ws" for i using that ws(2) by auto
  ultimately show ?thesis
    using ws unfolding placed_def by (intro exI [of _ ws]) (simp add: add_0_left)
qed

section \<open>The count of pending writes\<close>

lemma pending_simps [simp]:
  "pending (set_pending n p) = n" "set_pending m (set_pending n p) = set_pending m p"
  by (simp_all add: pending_def set_pending_def split: EgressProtocol.split)

lemma pending_after_completions: "pending ((proto_processCompletion ^^ k) p) = pending p - of_nat k"
  by (induction k) (simp_all add: proto_processCompletion_def)

lemma pbind_eq_Throw:
  "pbind m f s = (Throw e, s') \<longleftrightarrow> m s = (Throw e, s') \<or> (\<exists>a s1. m s = (Ret a, s1) \<and> f a s1 = (Throw e, s'))"
  by (auto simp: pbind_def split: prod.splits outcome.splits)

lemma net_outcome: "net m (a, f) = (r, (a', f')) \<longleftrightarrow> a' = a \<and> m f = (r, f')"
  by (auto simp: net_def split: prod.splits)

lemma own_outcome: "own m (a, f) = (r, (a', f')) \<longleftrightarrow> f' = f \<and> m a = (r, a')"
  by (auto simp: own_def split: prod.splits)

lemma failed_transfer_keeps_pending:
  assumes "SampleEgress_transferSamples ep head count dest (p, f) = (Throw e, (p', f'))"
  shows "se_pending p' = se_pending p"
  using assms
  by (auto simp: SampleEgress_transferSamples_def pbind_eq_Throw pbind_eq_Ret net_outcome own_outcome Let_def split: option.splits if_splits)

text \<open>A transfer that returns has counted the writes it posted.\<close>

lemma transferGrain_counts_writes:
  assumes "proto_transferGrain ep l k off r dest (p, f) = (Ret (), (p', f'))"
  shows "\<exists>ws. fb_writes f' = fb_writes f @ ws \<and> pending p' = pending p + of_nat (length ws)"
  using assms
  by (auto simp: proto_transferGrain_def inside_def GrainEgress_transferGrain_def pbind_eq_Ret net_outcome own_outcome Let_def ep_write_def
      writeImpl_def with_raw_Ret fiCall_Ret pending_def split: EgressProtocol.splits prod.splits)

lemma transferSamples_counts_writes:
  assumes "proto_transferSamples ep head n dest (p, f) = (Ret (), (p', f'))"
  shows "\<exists>ws. fb_writes f' = fb_writes f @ ws \<and> pending p' = pending p + of_nat (length ws)"
  using assms
  by (auto simp: proto_transferSamples_def inside_def SampleEgress_transferSamples_def pbind_eq_Ret net_outcome own_outcome Let_def pending_def
      dest!: ep_write_group_Ret split: EgressProtocol.splits prod.splits option.splits if_splits)

text \<open>
  A transfer that fails after some of its writes were posted counts none of them. When they complete,
  the count of pending writes wraps around below zero, and from then on there is always work pending.
\<close>

theorem interrupted_transfer_stays_pending:
  assumes "proto_transferSamples ep head count dest (p, f) = (Throw e, (p', f'))" and "pending p = 0"
    and "fb_writes f' = fb_writes f @ ws" and "ws \<noteq> []" and "length ws < 2 ^ 64"
  shows "proto_hasPendingWork ((proto_processCompletion ^^ length ws) p')"
proof -
  have "pending p' = pending p"
    using assms(1) by (cases p)
      (auto simp: proto_transferSamples_def pbind_eq_Throw inside_def pending_def dest!: failed_transfer_keeps_pending split: prod.splits)
  moreover have "of_nat (length ws) \<noteq> (0 :: u64)"
    using assms(4,5) by (simp add: word_of_nat_eq_0_iff nat_dvd_not_less dvd_imp_le not_le)
  ultimately show ?thesis
    using assms(2) by (simp add: proto_hasPendingWork_def pending_after_completions word_gt_0)
qed

section \<open>From the initiator's slot to the target's\<close>

lemma div_index_Ret: "div_index i xs = Ret k \<longleftrightarrow> xs \<noteq> [] \<and> k = i mod of_nat (length xs)"
  by (auto simp: div_index_def)

lemma unat_div_index: "xs \<noteq> [] \<Longrightarrow> length xs < 2 ^ 64 \<Longrightarrow> unat (i mod of_nat (length xs) :: u64) = unat i mod length xs"
  by (simp add: unat_mod of_nat_inverse [OF refl])

text \<open>
  C28: A range of slices is written into the remote region of the slot of its index, and the completion of
  that write makes a target with as many grains set the valid slices of the grain in the same slot and
  report its index, as long as the number of the slot fits into 16 bits.
\<close>

theorem grain_arrives_in_its_slot:
  assumes send: "GrainEgress_transferGrain ep local index offset slices dest (p, f) = (Ret (), (p', f'))"
    and n: "length (ti_regions (ge_info p)) = n" "n \<le> 2 ^ 16"
    and target: "in_proto g = RMAGrainIngress regions" "in_immData g = None" "length regions = n" "\<And>i. i < n \<Longrightarrow> rg_grain (regions ! i) = Some i"
      "length (in_infos g) = n"
  shows "\<exists>w imm. fb_writes f' = fb_writes f @ [w] \<and> wr_imm w = Some imm
    \<and> RemoteRegion_sub (ti_regions (ge_info p) ! (unat index mod n)) (ucast (transferOffset slices offset (ge_sliceSizes p ! 0)))
        (ucast (transferSize slices offset (ge_sliceSizes p ! 0))) = Ret (wr_remote w)
    \<and> ingress_read ep' (CompletionData \<lparr>cqe_token = t, cqe_remote_cq_data = True, cqe_data = ucast imm\<rparr>) (g, tf)
        = (Ret (Some (GrainReadResult (gi_index (in_infos g ! (unat index mod n))))),
           (g\<lparr>in_infos := (in_infos g)[unat index mod n := (in_infos g ! (unat index mod n))\<lparr>validSlices := sr_end slices\<rparr>]\<rparr>, tf))"
proof -
  let ?slot = "index mod of_nat n :: u64" and ?k = "unat index mod n"
  from send obtain w r where w: "fb_writes f' = fb_writes f @ [w]" "wr_imm w = Some (imm_pack ?slot (sr_end slices))" "wr_remote w = r"
    and ne: "ti_regions (ge_info p) \<noteq> []"
    and sub: "RemoteRegion_sub (ti_regions (ge_info p) ! unat ?slot) (ucast (transferOffset slices offset (ge_sliceSizes p ! 0)))
        (ucast (transferSize slices offset (ge_sliceSizes p ! 0))) = Ret r"
    by (auto simp: GrainEgress_transferGrain_def pbind_eq_Ret net_outcome own_outcome Let_def div_index_Ret n ep_write_def
        writeImpl_def with_raw_Ret fiCall_Ret)
  have n0: "0 < n" using ne n(1) by auto
  have k: "unat ?slot = ?k" using unat_div_index [of "ti_regions (ge_info p)" index] n n0 by auto
  have small: "?k < n" using n0 by simp
  then have "imm_unpack (imm_pack ?slot (sr_end slices)) = (ucast ?slot, sr_end slices)"
    using n(2) k by (intro imm_unpack_pack) simp
  moreover have u: "unat (ucast ?slot :: u16) = ?k"
    using small n(2) k by (simp add: unsigned_ucast_eq take_bit_nat_eq_self)
  moreover have "ucast (ucast (imm_pack ?slot (sr_end slices)) :: u64) = imm_pack ?slot (sr_end slices)"
    by (rule bit_word_eqI) (auto simp: bit_simps)
  ultimately have "ingress_read ep' (CompletionData \<lparr>cqe_token = t, cqe_remote_cq_data = True, cqe_data = ucast (imm_pack ?slot (sr_end slices))\<rparr>) (g, tf)
        = (Ret (Some (GrainReadResult (gi_index (in_infos g ! ?k)))),
           (g\<lparr>in_infos := (in_infos g)[?k := (in_infos g ! ?k)\<lparr>validSlices := sr_end slices\<rparr>]\<rparr>, tf))"
    using small by (simp add: ingress_read_def tryData_def completion_data_def target setValidSlicesForGrain_def
        getGrainIndexInRingSlot_def grain_pointer_def pbind_def own_def)
  with w sub [unfolded k] show ?thesis
    by (intro exI [of _ w] exI [of _ "imm_pack ?slot (sr_end slices)"]) (simp only: simp_thms)
qed

section \<open>Examples\<close>

text \<open>A network on which the calls up to a tick succeed and all later ones fail.\<close>

definition ex_libfabric :: "nat \<Rightarrow> libfabric" where
  "ex_libfabric n = \<lparr>lf_call = (\<lambda>t. if t < n then 0 else - 1), lf_cq = (\<lambda>_. CqAgain), lf_eq = (\<lambda>_. EqAgain), lf_clock = (\<lambda>t. int t),
     lf_random = (\<lambda>t. of_nat t), lf_address = (\<lambda>t. of_nat t), lf_alloc = (\<lambda>_. 5000), lf_infos = (\<lambda>_. 1), lf_name = (\<lambda>_. [1, 2]),
     lf_iov_limit = 2, lf_virtual_addresses = False,
     lf_recv_buffer_for_data = False, lf_desc = (\<lambda>_. 0), lf_key = of_nat\<rparr>"

definition ex_fabric :: "nat \<Rightarrow> fabric" where
  "ex_fabric n = \<lparr>fb_env = ex_libfabric n, fb_tick = 0, fb_next = 1, fb_open = [(0, 7)], fb_writes = [], fb_recvs = 0, fb_addresses = [], fb_regions = []\<rparr>"

definition ex_endpoint :: Endpoint where
  "ex_endpoint = \<lparr>ep_raw = Some 0, ep_cq = Bound 10, ep_eq = Bound 11, ep_av = Unbound\<rparr>"

definition ex_target_info :: TargetInfo where
  "ex_target_info = \<lparr>ti_id = 7, ti_address = [1], ti_regions = [\<lparr>rr_addr = 0, rr_len = 40, rr_rkey = 3\<rparr>, \<lparr>rr_addr = 0, rr_len = 40, rr_rkey = 4\<rparr>],
     ti_bounce = Some (2, 40)\<rparr>"

definition ex_egress :: EgressProtocol where
  "ex_egress = RMASampleEgress \<lparr>se_token = 7, se_info = ex_target_info, se_layout = ex_layout, se_region = ex_local,
     se_headers = replicate 2 \<lparr>ah_headIndex = 0, ah_count = 0\<rparr>,
     se_headerRegions = [\<lparr>lr_addr = 5000, lr_len = 16, lr_desc = 0\<rparr>, \<lparr>lr_addr = 5016, lr_len = 16, lr_desc = 0\<rparr>], se_pending = 0,
     se_entryIndex = 0, se_entryCount = 2\<rparr>"

lemma gathered_write_is_contiguous_witness:
  "\<exists>ws. fb_writes (snd (ep_write_group ex_endpoint 7 (hd ex_sgl # ex_sgl) \<lparr>rr_addr = 64, rr_len = 40, rr_rkey = 3\<rparr> 0 (Some 1) (ex_fabric 9))) = ws
     \<and> length ws = 3 \<and> concat (map wr_local ws) = hd ex_sgl # ex_sgl \<and> wr_imm (ws ! 2) = Some 1"
proof -
  let ?run = "ep_write_group ex_endpoint 7 (hd ex_sgl # ex_sgl) \<lparr>rr_addr = 64, rr_len = 40, rr_rkey = 3\<rparr> 0 (Some 1) (ex_fabric 9)"
  have "fst ?run = Ret 3" "fb_writes (ex_fabric 9) = []" by code_simp+
  then have "?run = (Ret 3, snd ?run)" by (simp add: prod_eq_iff)
  from gathered_write_is_contiguous [OF this] show ?thesis by (auto simp: ex_fabric_def)
qed

lemma interrupted_transfer_stays_pending_witness:
  "case proto_transferSamples ex_endpoint 5 3 0 (ex_egress, ex_fabric 1) of
     (r, (p, f)) \<Rightarrow> length (fb_writes f) = 1 \<and> proto_hasPendingWork ((proto_processCompletion ^^ 1) p)"
proof -
  let ?run = "proto_transferSamples ex_endpoint 5 3 0 (ex_egress, ex_fabric 1)"
  have r: "fst ?run = Throw (StatusException MXL_ERR_UNKNOWN)" "pending ex_egress = 0" "length (fb_writes (snd (snd ?run))) = 1" by code_simp+
  then have "?run = (Throw (StatusException MXL_ERR_UNKNOWN), (fst (snd ?run), snd (snd ?run)))" by (simp add: prod_eq_iff)
  moreover have "fb_writes (snd (snd ?run)) = fb_writes (ex_fabric 1) @ fb_writes (snd (snd ?run))" by (simp add: ex_fabric_def)
  moreover have "fb_writes (snd (snd ?run)) \<noteq> []" "length (fb_writes (snd (snd ?run))) < 2 ^ 64" using r(3) by auto
  ultimately have "proto_hasPendingWork ((proto_processCompletion ^^ length (fb_writes (snd (snd ?run)))) (fst (snd ?run)))"
    using r(2) by (intro interrupted_transfer_stays_pending)
  with r(3) show ?thesis by (simp add: case_prod_beta)
qed

definition ex_grain_egress :: GrainEgress where
  "ex_grain_egress = \<lparr>ge_token = 7, ge_info = ex_target_info, ge_sliceSizes = [4, 0, 0, 0], ge_regions = [ex_local], ge_pending = 0\<rparr>"

definition ex_ingress :: Ingress where
  "ex_ingress = new_ingress (RMAGrainIngress [(host_region 0 40)\<lparr>rg_grain := Some 0\<rparr>, (host_region 40 40)\<lparr>rg_grain := Some 1\<rparr>])
     [zero_grain_info, zero_grain_info\<lparr>gi_index := 5\<rparr>] (\<lambda>_. 0)"

lemma grain_arrives_in_its_slot_witness:
  "\<exists>w imm. fb_writes (snd (snd (GrainEgress_transferGrain ex_endpoint 5 5 8 \<lparr>sr_start = 0, sr_end = 2\<rparr> 0 (ex_grain_egress, ex_fabric 9)))) = [w]
    \<and> wr_imm w = Some imm \<and> fst (ingress_read ex_endpoint (CompletionData \<lparr>cqe_token = 7, cqe_remote_cq_data = True, cqe_data = ucast imm\<rparr>) (ex_ingress, ex_fabric 9))
       = Ret (Some (GrainReadResult 5))"
proof -
  let ?run = "GrainEgress_transferGrain ex_endpoint 5 5 8 \<lparr>sr_start = 0, sr_end = 2\<rparr> 0 (ex_grain_egress, ex_fabric 9)"
  have "fst ?run = Ret ()" by code_simp
  then have run: "?run = (Ret (), (fst (snd ?run), snd (snd ?run)))" by (simp add: prod_eq_iff)
  have i: "i = 0 \<or> i = 1" if "i < 2" for i :: nat using that by auto
  have "\<exists>w imm. fb_writes (snd (snd ?run)) = fb_writes (ex_fabric 9) @ [w] \<and> wr_imm w = Some imm
    \<and> RemoteRegion_sub (ti_regions (ge_info ex_grain_egress) ! (unat (5 :: u64) mod 2)) (ucast (transferOffset \<lparr>sr_start = 0, sr_end = 2\<rparr> 8 (ge_sliceSizes ex_grain_egress ! 0)))
        (ucast (transferSize \<lparr>sr_start = 0, sr_end = 2\<rparr> 8 (ge_sliceSizes ex_grain_egress ! 0))) = Ret (wr_remote w)
    \<and> ingress_read ex_endpoint (CompletionData \<lparr>cqe_token = 7, cqe_remote_cq_data = True, cqe_data = ucast imm\<rparr>) (ex_ingress, ex_fabric 9)
        = (Ret (Some (GrainReadResult (gi_index (in_infos ex_ingress ! (unat (5 :: u64) mod 2))))),
           (ex_ingress\<lparr>in_infos := (in_infos ex_ingress)[unat (5 :: u64) mod 2 := (in_infos ex_ingress ! (unat (5 :: u64) mod 2))\<lparr>validSlices := sr_end \<lparr>sr_start = 0, sr_end = 2\<rparr>\<rparr>]\<rparr>, ex_fabric 9))"
    by (rule grain_arrives_in_its_slot [OF run])
      (auto simp: ex_grain_egress_def ex_target_info_def ex_ingress_def new_ingress_def dest!: i)
  then show ?thesis by (auto simp: ex_fabric_def ex_ingress_def new_ingress_def)
qed

end
