(* ===== verification/Peers.thy ===== *)
theory Peers
  imports RmaTransfer
begin

text \<open>
  What initiators and targets share: programs run with a bound on their loops, the ordered map of the
  targets of an initiator, and the opening and closing of the libfabric objects a peer is built from
  (\<open>FabricInfo.cpp\<close>, \<open>Fabric.cpp\<close>, \<open>Domain.cpp\<close>, \<open>Address.cpp\<close>, and the \<open>open\<close> functions of the
  queues and of the address vector).
\<close>

section \<open>Loops with a bound\<close>

text \<open>A program that answers \<open>None\<close> has run out of the iterations it was given.\<close>

definition pthen :: "('s, 'a option) prog \<Rightarrow> ('a \<Rightarrow> ('s, 'b option) prog) \<Rightarrow> ('s, 'b option) prog" where
  "pthen m f = pbind m (\<lambda>x. case x of None \<Rightarrow> pret None | Some a \<Rightarrow> f a)"

definition pdone :: "('s, 'a) prog \<Rightarrow> ('s, 'a option) prog" where
  "pdone m = pbind m (\<lambda>a. pret (Some a))"

lemma outcome_of: "fst p = r \<Longrightarrow> p = (r, snd p)"
  by (cases p) simp

section \<open>The targets of an initiator\<close>

text \<open>A \<open>std::map\<close>: an association list ordered by its keys. A failing call ends the loop over it.\<close>

type_synonym 't targets = "(u64 \<times> 't) list"

fun each :: "('t \<times> 'f, unit) prog \<Rightarrow> ('t targets \<times> 'f, unit) prog" where
  "each m ([], f) = (Ret (), ([], f))"
| "each m ((k, t) # ts, f) =
     (case m (t, f) of
        (Ret _, (t', f')) \<Rightarrow> (case each m (ts, f') of (r, (ts', f'')) \<Rightarrow> (r, ((k, t') # ts', f'')))
      | (Throw e, (t', f')) \<Rightarrow> (Throw e, ((k, t') # ts, f'))
      | (Crash c, (t', f')) \<Rightarrow> (Crash c, ((k, t') # ts, f')))"

fun emplace :: "u64 \<Rightarrow> 't \<Rightarrow> 't targets \<Rightarrow> 't targets" where
  "emplace k t [] = [(k, t)]"
| "emplace k t ((k', t') # ts) =
     (if k = k' then (k', t') # ts
      else if k < k' then (k, t) # (k', t') # ts
      else (k', t') # emplace k t ts)"

fun set_target :: "u64 \<Rightarrow> 't \<Rightarrow> 't targets \<Rightarrow> 't targets" where
  "set_target k t [] = []"
| "set_target k t ((k', t') # ts) = (if k = k' then (k', t) # ts else (k', t') # set_target k t ts)"

text \<open>A program on the target with a key, and what happens when there is none.\<close>

definition at_key :: "u64 \<Rightarrow> ('t \<times> 'f, 'a) prog \<Rightarrow> ('t targets \<times> 'f, 'a) prog \<Rightarrow> ('t targets \<times> 'f, 'a) prog" where
  "at_key k m missing s =
     (case map_of (fst s) k of
        None \<Rightarrow> missing s
      | Some t \<Rightarrow> (case m (t, snd s) of (r, (t', f)) \<Rightarrow> (r, (set_target k t' (fst s), f))))"

text \<open>A program on an object of its own, which it answers.\<close>

definition with_local :: "'p \<Rightarrow> ('p \<times> 'f, unit) prog \<Rightarrow> ('f, 'p) prog" where
  "with_local p m f = (case m (p, f) of (r, (p', f')) \<Rightarrow> (obind r (\<lambda>_. Ret p'), f'))"

lemma map_of_set_target: "map_of (set_target k t ts) j = (if j = k \<and> map_of ts k \<noteq> None then Some t else map_of ts j)"
  by (induction k t ts rule: set_target.induct) auto

lemma keys_set_target [simp]: "map fst (set_target k t ts) = map fst ts"
  by (induction k t ts rule: set_target.induct) auto

lemma keys_each: "each m (ts, f) = (r, (ts', f')) \<Longrightarrow> map fst ts' = map fst ts"
  by (induction ts arbitrary: f r ts' f') (auto split: prod.splits outcome.splits)

lemma map_of_emplace:
  "sorted (map fst ts) \<Longrightarrow> map_of (emplace k t ts) j = (if j = k \<and> map_of ts k = None then Some t else map_of ts j)"
  by (induction k t ts rule: emplace.induct) (auto dest!: map_of_SomeD)

lemma set_emplace: "x \<in> set (emplace k t ts) \<Longrightarrow> x = (k, t) \<or> x \<in> set ts"
  by (induction k t ts rule: emplace.induct) (auto split: if_splits)

lemma sorted_emplace: "sorted (map fst ts) \<Longrightarrow> sorted (map fst (emplace k t ts))"
  by (induction k t ts rule: emplace.induct) (auto dest!: set_emplace)

section \<open>Opening libfabric objects\<close>

text \<open>
  Every object is closed when its owner goes away; when a later step of a function fails, what the
  function has opened before is closed in the reverse order.
\<close>

definition FabricInfoList_get :: "nat fab" where
  "FabricInfoList_get = fiCall (\<lambda>f. (lf_infos (fb_env f) (fb_tick f), f))"

definition Fabric_open :: "fid fab" where
  "Fabric_open = fiCall (open_handle 0)"

definition Domain_open :: "fid fab" where
  "Domain_open = fiCall (open_handle 0)"

definition EventQueue_open :: "fid fab" where
  "EventQueue_open = fiCall (open_handle 0)"

definition CompletionQueue_open :: "fid fab" where
  "CompletionQueue_open = fiCall (open_handle 0)"

definition AddressVector_open :: "fid fab" where
  "AddressVector_open = fiCall (open_handle 0)"

definition Endpoint_create_random :: "Endpoint fab" where
  "Endpoint_create_random = pbind random_device Endpoint_create"

fun close_regions :: "RegisteredRegion list \<Rightarrow> unit fab" where
  "close_regions [] = pret ()"
| "close_regions (r # rs) = pbind (close_raw (Some (reg_mr r))) (\<lambda>_. close_regions rs)"

definition Domain_close :: "fid \<Rightarrow> unit fab" where
  "Domain_close domain =
     pbind pget (\<lambda>f. pbind (close_regions (fb_regions f)) (\<lambda>_.
     pbind (pmodify (\<lambda>f. f\<lparr>fb_regions := []\<rparr>)) (\<lambda>_. close_raw (Some domain))))"

definition close_slot :: "slot \<Rightarrow> unit fab" where
  "close_slot s = (case s of Bound q \<Rightarrow> close_raw (Some q) | _ \<Rightarrow> pret ())"

text \<open>An endpoint that is the only owner of the queues and of the address vector bound to it.\<close>

definition Endpoint_release :: "Endpoint \<Rightarrow> unit fab" where
  "Endpoint_release ep =
     pbind (Endpoint_destroy ep) (\<lambda>_. pbind (close_slot (ep_av ep)) (\<lambda>_. pbind (close_slot (ep_eq ep)) (\<lambda>_. close_slot (ep_cq ep))))"

definition PassiveEndpoint_release :: "PassiveEndpoint \<Rightarrow> unit fab" where
  "PassiveEndpoint_release pep = pbind (PassiveEndpoint_destroy pep) (\<lambda>_. close_slot (pep_eq pep))"

definition FI_ETOOSMALL :: int where "FI_ETOOSMALL = 257"

definition retrieveFabricAddress :: "fid \<Rightarrow> u8 list fab" where
  "retrieveFabricAddress h f =
     (if lf_call (fb_env f) (fb_tick f) \<noteq> - FI_ETOOSMALL then (Throw (StatusException MXL_ERR_UNKNOWN), ftick f)
      else fiCall (\<lambda>f. (lf_name (fb_env f) h, f)) (ftick f))"

definition Endpoint_localAddress :: "Endpoint \<Rightarrow> u8 list fab" where
  "Endpoint_localAddress ep = with_raw ep retrieveFabricAddress"

definition pep_localAddress :: "PassiveEndpoint \<Rightarrow> u8 list fab" where
  "pep_localAddress pep = (case pep_raw pep of None \<Rightarrow> pcrash NullDereference | Some h \<Rightarrow> retrieveFabricAddress h)"

text \<open>The network of a peer: the first interface libfabric lists for a provider, and its domain.\<close>

definition open_domain :: "exn \<Rightarrow> mxlFabricsProvider \<Rightarrow> (fid \<times> fid) fab" where
  "open_domain no_provider provider =
     (if providerFromAPI provider = None then pthrow no_provider
      else pbind FabricInfoList_get (\<lambda>n.
        if n = 0 then pthrow (StatusException MXL_ERR_NO_FABRIC)
        else pbind Fabric_open (\<lambda>fabric.
             pbind (punwind Domain_open (close_raw (Some fabric))) (\<lambda>domain. pret (fabric, domain)))))"

definition close_domain :: "fid \<times> fid \<Rightarrow> unit fab" where
  "close_domain d = pbind (Domain_close (snd d)) (\<lambda>_. close_raw (Some (fst d)))"

text \<open>
  A connectionless endpoint, of an initiator or a target: bound to a completion queue and to an address
  vector of its own, and enabled.
\<close>

definition open_rdm_endpoint :: "Endpoint fab" where
  "open_rdm_endpoint =
     pbind Endpoint_create_random (\<lambda>ep.
     pbind (punwind CompletionQueue_open (Endpoint_release ep)) (\<lambda>cq.
     pbind (punwind (bind_cq ep cq) (pbind (close_raw (Some cq)) (\<lambda>_. Endpoint_release ep))) (\<lambda>ep.
     pbind (punwind AddressVector_open (Endpoint_release ep)) (\<lambda>av.
     pbind (punwind (bind_av ep av) (pbind (close_raw (Some av)) (\<lambda>_. Endpoint_release ep))) (\<lambda>ep.
     pbind (punwind (ep_enable ep) (Endpoint_release ep)) (\<lambda>_.
       pret ep))))))"

definition MxlRegions_forReader :: "mapped_flow \<Rightarrow> MxlRegions outcome" where
  "MxlRegions_forReader reader = mxlFabricsRegionsFromFlow reader"

definition MxlRegions_forWriter :: "mapped_flow \<Rightarrow> MxlRegions outcome" where
  "MxlRegions_forWriter writer = mxlFabricsRegionsFromMutableFlow writer"

section \<open>Evaluating programs\<close>

lemma fiCall_env [simp]: "(\<And>g. fb_env (snd (effect g)) = fb_env g) \<Longrightarrow> fb_env (snd (fiCall effect f)) = fb_env f"
  by (auto simp: fiCall_def Let_def split: prod.split) (metis ftick_simps(1) snd_conv)

lemma close_raw_simps [simp]: "fst (close_raw h f) = Ret ()" "fb_env (snd (close_raw h f)) = fb_env f"
  "fb_writes (snd (close_raw h f)) = fb_writes f"
  by (auto simp: close_raw_def pcatch_def fiCall_def Let_def close_handle_def split: option.splits)

lemma Endpoint_destroy_Ret [simp]: "fst (Endpoint_destroy ep f) = Ret ()"
  by (simp add: Endpoint_destroy_def)

lemma Endpoint_destroy_simps [simp]: "fb_env (snd (Endpoint_destroy ep f)) = fb_env f" "fb_writes (snd (Endpoint_destroy ep f)) = fb_writes f"
  by (simp_all add: Endpoint_destroy_def)

lemma Endpoint_destroy_outcome:
  "Endpoint_destroy ep f = (r, f') \<Longrightarrow> r = Ret () \<and> fb_env f' = fb_env f \<and> fb_writes f' = fb_writes f"
  using Endpoint_destroy_Ret [of ep f] Endpoint_destroy_simps [of ep f] by simp

lemma net_Endpoint_destroy [simp]: "pbind (net (Endpoint_destroy ep)) m (t, f) = m () (t, snd (Endpoint_destroy ep f))"
  using Endpoint_destroy_Ret [of ep f] by (cases "Endpoint_destroy ep f") (simp add: net_def pbind_def)

lemma pget_bind [simp]: "pbind pget m s = m s s"
  by (simp add: pbind_def)

lemma net_bind:
  "pbind (net m) k (t, f) =
     (case m f of
        (Ret a, f') \<Rightarrow> k a (t, f')
      | (Throw e, f') \<Rightarrow> (Throw e, (t, f'))
      | (Crash c, f') \<Rightarrow> (Crash c, (t, f')))"
  by (auto simp: net_def pbind_def split: prod.split outcome.split)

lemma own_bind [simp]: "pbind (own (pmodify g)) k (t, f) = k () (g t, f)"
  by (simp add: own_def pbind_def)

lemma steady_clock_eq: "steady_clock f = (Ret (lf_clock (fb_env f) (fb_tick f)), ftick f)"
  by (simp add: steady_clock_def)

lemma fiCall_no_effect:
  "fiCall no_effect f =
     (if lf_call (fb_env f) (fb_tick f) < 0
      then (Throw (StatusException (mxlStatusFromFiErrno (lf_call (fb_env f) (fb_tick f)))), ftick f) else (Ret (), ftick f))"
  by (simp add: fiCall_def no_effect_def Let_def)

lemma Endpoint_destroy_tick: "fb_tick f \<le> fb_tick (snd (Endpoint_destroy ep f))"
  by (auto simp: Endpoint_destroy_def close_raw_def pcatch_def fiCall_def Let_def close_handle_def split: option.splits)

lemma net_eq: "net m (t, f) = (fst (m f), (t, snd (m f)))"
  by (simp add: net_def split: prod.split)

lemma pthen_eq: "pthen m f s = (case m s of (Ret (Some a), s') \<Rightarrow> f a s' | (Ret None, s') \<Rightarrow> (Ret None, s') | (Throw e, s') \<Rightarrow> (Throw e, s') | (Crash c, s') \<Rightarrow> (Crash c, s'))"
  by (auto simp: pthen_def pbind_def split: prod.split outcome.split option.split)

lemma pdone_eq: "pdone m s = (case m s of (Ret a, s') \<Rightarrow> (Ret (Some a), s') | (Throw e, s') \<Rightarrow> (Throw e, s') | (Crash c, s') \<Rightarrow> (Crash c, s'))"
  by (auto simp: pdone_def pbind_def split: prod.split outcome.split)

lemma cq_read_eq: "cq_read f = (cq_handleReadResult (lf_cq (fb_env f) (fb_tick f)), ftick f)"
  by (simp add: cq_read_def)

lemma eq_read_eq: "eq_read f = (eq_handleReadResult (lf_eq (fb_env f) (fb_tick f)), ftick f)"
  by (simp add: eq_read_def)

lemma moved_raw [simp]: "ep_raw (moved_from ep) = None"
  by (simp add: moved_from_def)

lemmas ep_calls = bind_eq_def bind_cq_def bind_av_def ep_enable_def ep_accept_def ep_connect_def ep_shutdown_def with_raw_def

end
