(* ===== verification/Targets.thy ===== *)
theory Targets
  imports Peers
begin

text \<open>
  The targets (\<open>RCTarget.cpp\<close>, \<open>RDMTarget.cpp\<close>, \<open>QueueHelpers.hpp\<close>): the connection oriented one listens
  for a connection request, accepts it, and reads the completions of the writes of its peer until the
  connection is shut down; the connectionless one only reads completions. As in the initiator, a
  transition that throws leaves the alternative the state was moved out of.
\<close>

section \<open>Reading queues\<close>

datatype QueueReadMode = Blocking | NonBlocking

definition readEventQueue :: "QueueReadMode \<Rightarrow> int \<Rightarrow> Event option fab" where
  "readEventQueue mode timeout = (case mode of Blocking \<Rightarrow> eq_readBlocking timeout | NonBlocking \<Rightarrow> eq_read)"

definition readCompletionQueue :: "QueueReadMode \<Rightarrow> int \<Rightarrow> Completion option fab" where
  "readCompletionQueue mode timeout = (case mode of Blocking \<Rightarrow> cq_readBlocking timeout | NonBlocking \<Rightarrow> cq_read)"

definition readEndpointQueues :: "nat \<Rightarrow> QueueReadMode \<Rightarrow> Endpoint \<Rightarrow> int \<Rightarrow> (Completion option \<times> Event option) option fab" where
  "readEndpointQueues fuel mode ep timeout =
     (case mode of Blocking \<Rightarrow> readQueuesBlocking fuel ep timeout | NonBlocking \<Rightarrow> pdone (readQueues ep))"

definition event_is :: "(Event \<Rightarrow> bool) \<Rightarrow> Event option \<Rightarrow> bool" where
  "event_is P event = (case event of None \<Rightarrow> False | Some e \<Rightarrow> P e)"

lemma event_is_simps [simp]: "event_is P None = False" "event_is P (Some e) = P e"
  by (simp_all add: event_is_def)

section \<open>The connection oriented target\<close>

datatype RCTargetState =
    WaitForConnectionRequest PassiveEndpoint
  | WaitForConnection Endpoint
  | Connected Endpoint

record RCTarget =
  rt_fabric :: fid
  rt_domain :: fid
  rt_proto :: Ingress
  rt_state :: RCTargetState

type_synonym 'a rt_prog = "(RCTarget \<times> fabric, 'a) prog"

definition makeListener :: "PassiveEndpoint fab" where
  "makeListener =
     pbind PassiveEndpoint_create (\<lambda>pep.
     pbind (punwind EventQueue_open (PassiveEndpoint_release pep)) (\<lambda>eq.
     pbind (punwind (pep_bind pep eq) (pbind (close_raw (Some eq)) (\<lambda>_. PassiveEndpoint_release pep))) (\<lambda>pep.
     pbind (punwind (pep_listen pep) (PassiveEndpoint_release pep)) (\<lambda>_.
       pret pep))))"

record mxlFabricsTargetConfig =
  tc_provider :: mxlFabricsProvider
  tc_writer :: mapped_flow

text \<open>The protocol a target receives with, on the memory of the process.\<close>

definition make_ingress :: "mapped_flow \<Rightarrow> memory \<Rightarrow> Ingress fab" where
  "make_ingress writer mem f =
     (obind (MxlRegions_forWriter writer) (\<lambda>regions.
      obind (selectIngressProtocol (mr_layout regions) (mr_regions regions) (mr_maxSync regions) (\<lambda>i. lf_alloc (fb_env f) (fb_tick f + i))) (\<lambda>p.
        Ret (new_ingress p (map snd (mf_grains writer)) mem))), f)"

definition register_ingress :: "Ingress \<Rightarrow> (Ingress \<times> RemoteRegion list) fab" where
  "register_ingress g f = (case ingress_registerMemory (g, f) of (r, (g', f')) \<Rightarrow> (obind r (\<lambda>regions. Ret (g', regions)), f'))"

definition RCTarget_setup :: "mxlFabricsTargetConfig \<Rightarrow> memory \<Rightarrow> (RCTarget \<times> TargetInfo) fab" where
  "RCTarget_setup cfg mem =
     pbind (open_domain (StatusException MXL_ERR_INVALID_ARG) (tc_provider cfg)) (\<lambda>(fabric, domain).
     punwind
       (pbind makeListener (\<lambda>pep.
        punwind
          (pbind (make_ingress (tc_writer cfg) mem) (\<lambda>proto.
           pbind (pep_localAddress pep) (\<lambda>addr.
           pbind (register_ingress proto) (\<lambda>(proto, regions).
             pret (\<lparr>rt_fabric = fabric, rt_domain = domain, rt_proto = proto, rt_state = WaitForConnectionRequest pep\<rparr>,
                   \<lparr>ti_id = pep_id pep, ti_address = addr, ti_regions = regions, ti_bounce = bounceBufferInfo (in_proto proto)\<rparr>)))))
          (PassiveEndpoint_release pep)))
       (close_domain (fabric, domain)))"

definition rt_goto :: "RCTargetState \<Rightarrow> unit rt_prog" where
  "rt_goto st = own (pmodify (\<lambda>t. t\<lparr>rt_state := st\<rparr>))"

text \<open>
  A transition runs on the state it was moved out of; if it throws, the state is destroyed and the
  alternative left behind has a null endpoint.
\<close>

definition rt_visit :: "RCTargetState \<Rightarrow> unit fab \<Rightarrow> RCTargetState option rt_prog \<Rightarrow> unit option rt_prog" where
  "rt_visit gone destroy m =
     pthen (punwind m (pbind (net destroy) (\<lambda>_. rt_goto gone))) (\<lambda>st. pdone (rt_goto st))"

definition slot_deref :: "slot \<Rightarrow> 'a fab \<Rightarrow> 'a fab" where
  "slot_deref s m = pbind (plift (slot_queue s)) (\<lambda>_. m)"

definition with_ingress :: "(Ingress \<times> fabric, 'a) prog \<Rightarrow> 'a rt_prog" where
  "with_ingress m s = (case m (rt_proto (fst s), snd s) of (r, (g, f)) \<Rightarrow> (r, ((fst s)\<lparr>rt_proto := g\<rparr>, f)))"

text \<open>Accepting a connection: an endpoint with the id of the listener and queues of its own.\<close>

definition accept_connection :: "u64 \<Rightarrow> Endpoint fab" where
  "accept_connection epid =
     pbind (Endpoint_create epid) (\<lambda>ep.
     pbind (punwind CompletionQueue_open (Endpoint_release ep)) (\<lambda>cq.
     pbind (punwind (bind_cq ep cq) (pbind (close_raw (Some cq)) (\<lambda>_. Endpoint_release ep))) (\<lambda>ep.
     pbind (punwind EventQueue_open (Endpoint_release ep)) (\<lambda>eq.
     pbind (punwind (bind_eq ep eq) (pbind (close_raw (Some eq)) (\<lambda>_. Endpoint_release ep))) (\<lambda>ep.
     pbind (punwind (ep_accept ep) (Endpoint_release ep)) (\<lambda>_.
       pret ep))))))"

definition on_request :: "QueueReadMode \<Rightarrow> int \<Rightarrow> PassiveEndpoint \<Rightarrow> unit option rt_prog" where
  "on_request mode timeout pep =
     rt_visit (WaitForConnectionRequest (pep_moved_from pep)) (PassiveEndpoint_release pep)
       (net (pbind (slot_deref (pep_eq pep) (readEventQueue mode timeout)) (\<lambda>event.
        if event_is isConnReq event then
          pbind (accept_connection (pep_id pep)) (\<lambda>ep.
          pbind (PassiveEndpoint_release pep) (\<lambda>_. pret (Some (WaitForConnection ep))))
        else pret (Some (WaitForConnectionRequest pep)))))"

definition on_connection :: "QueueReadMode \<Rightarrow> int \<Rightarrow> Endpoint \<Rightarrow> unit option rt_prog" where
  "on_connection mode timeout ep =
     rt_visit (WaitForConnection (moved_from ep)) (Endpoint_release ep)
       (pbind (net (slot_deref (ep_eq ep) (readEventQueue mode timeout))) (\<lambda>event.
        if event_is isConnected event then
          pbind (with_ingress (ingress_start ep)) (\<lambda>_. pret (Some (Connected ep)))
        else pret (Some (WaitForConnection ep))))"

text \<open>
  While connected both queues are read. A shutdown event makes the target listen again; a completion that
  was read with it is not looked at.
\<close>

definition on_data :: "nat \<Rightarrow> QueueReadMode \<Rightarrow> int \<Rightarrow> Endpoint \<Rightarrow> ReadResult option option rt_prog" where
  "on_data fuel mode timeout ep =
     punwind
       (pthen (net (readEndpointQueues fuel mode ep timeout)) (\<lambda>(completion, event).
        if event_is isShutdown event then
          pbind (net makeListener) (\<lambda>pep.
          pbind (net (Endpoint_release ep)) (\<lambda>_.
          pbind (rt_goto (WaitForConnectionRequest pep)) (\<lambda>_. pret (Some None))))
        else
          case completion of
            None \<Rightarrow> pret (Some None)
          | Some c \<Rightarrow> pdone (with_ingress (ingress_read ep c))))
       (pbind (net (Endpoint_release ep)) (\<lambda>_. rt_goto (Connected (moved_from ep))))"

definition RCTarget_readNext :: "nat \<Rightarrow> QueueReadMode \<Rightarrow> int \<Rightarrow> ReadResult option option rt_prog" where
  "RCTarget_readNext fuel mode timeout =
     pbind pget (\<lambda>(t, _).
       case rt_state t of
         WaitForConnectionRequest pep \<Rightarrow> pthen (on_request mode timeout pep) (\<lambda>_. pret (Some None))
       | WaitForConnection ep \<Rightarrow> pthen (on_connection mode timeout ep) (\<lambda>_. pret (Some None))
       | Connected ep \<Rightarrow> on_data fuel mode timeout ep)"

text \<open>The result of a read as a grain index or as a batch of samples.\<close>

definition as_grain :: "ReadResult option \<Rightarrow> u64 option outcome" where
  "as_grain res =
     (case res of
        None \<Rightarrow> Ret None
      | Some (GrainReadResult i) \<Rightarrow> Ret (Some i)
      | Some (SampleReadResult _ _) \<Rightarrow> Throw OtherException)"

definition as_samples :: "ReadResult option \<Rightarrow> (u64 \<times> u64) option outcome" where
  "as_samples res =
     (case res of
        None \<Rightarrow> Ret None
      | Some (SampleReadResult h n) \<Rightarrow> Ret (Some (h, n))
      | Some (GrainReadResult _) \<Rightarrow> Throw OtherException)"

definition RCTarget_readGrain :: "nat \<Rightarrow> QueueReadMode \<Rightarrow> int \<Rightarrow> u64 option option rt_prog" where
  "RCTarget_readGrain fuel mode timeout =
     pbind pget (\<lambda>(t, _).
       if \<not> canReadGrains (in_proto (rt_proto t)) then pthrow (StatusException MXL_ERR_UNSUPPORTED_OPERATION)
       else pthen (RCTarget_readNext fuel mode (if mode = Blocking then timeout else 0)) (\<lambda>res. pdone (plift (as_grain res))))"

definition RCTarget_readSamples :: "nat \<Rightarrow> QueueReadMode \<Rightarrow> int \<Rightarrow> (u64 \<times> u64) option option rt_prog" where
  "RCTarget_readSamples fuel mode timeout =
     pbind pget (\<lambda>(t, _).
       if \<not> canReadSamples (in_proto (rt_proto t)) then pthrow (StatusException MXL_ERR_UNSUPPORTED_OPERATION)
       else pthen (RCTarget_readNext fuel mode (if mode = Blocking then timeout else 0)) (\<lambda>res. pdone (plift (as_samples res))))"

definition RCTarget_destroy :: "RCTarget \<Rightarrow> unit fab" where
  "RCTarget_destroy t =
     pbind (case rt_state t of
              WaitForConnectionRequest pep \<Rightarrow> PassiveEndpoint_release pep
            | WaitForConnection ep \<Rightarrow> Endpoint_release ep
            | Connected ep \<Rightarrow> Endpoint_release ep)
       (\<lambda>_. close_domain (rt_fabric t, rt_domain t))"

section \<open>The connectionless target\<close>

record RDMTarget =
  dt_fabric :: fid
  dt_domain :: fid
  dt_endpoint :: Endpoint
  dt_proto :: Ingress

type_synonym 'a dt_prog = "(RDMTarget \<times> fabric, 'a) prog"

definition RDMTarget_setup :: "mxlFabricsTargetConfig \<Rightarrow> memory \<Rightarrow> (RDMTarget \<times> TargetInfo) fab" where
  "RDMTarget_setup cfg mem =
     pbind (open_domain (StatusException MXL_ERR_INVALID_ARG) (tc_provider cfg)) (\<lambda>(fabric, domain).
     punwind
       (pbind open_rdm_endpoint (\<lambda>ep.
        punwind
          (pbind (make_ingress (tc_writer cfg) mem) (\<lambda>proto.
           pbind (Endpoint_id ep) (\<lambda>epid.
           pbind (Endpoint_localAddress ep) (\<lambda>addr.
           pbind (register_ingress proto) (\<lambda>(proto, regions).
             pret (\<lparr>dt_fabric = fabric, dt_domain = domain, dt_endpoint = ep, dt_proto = proto\<rparr>,
                   \<lparr>ti_id = epid, ti_address = addr, ti_regions = regions, ti_bounce = bounceBufferInfo (in_proto proto)\<rparr>))))))
          (Endpoint_release ep)))
       (close_domain (fabric, domain)))"

definition dt_with_ingress :: "(Ingress \<times> fabric, 'a) prog \<Rightarrow> 'a dt_prog" where
  "dt_with_ingress m s = (case m (dt_proto (fst s), snd s) of (r, (g, f)) \<Rightarrow> (r, ((fst s)\<lparr>dt_proto := g\<rparr>, f)))"

definition RDMTarget_readNext :: "QueueReadMode \<Rightarrow> int \<Rightarrow> ReadResult option dt_prog" where
  "RDMTarget_readNext mode timeout =
     pbind pget (\<lambda>(t, _).
     pbind (net (slot_deref (ep_cq (dt_endpoint t)) (readCompletionQueue mode timeout))) (\<lambda>completion.
       case completion of
         None \<Rightarrow> pret None
       | Some c \<Rightarrow> dt_with_ingress (ingress_read (dt_endpoint t) c)))"

definition RDMTarget_readGrain :: "QueueReadMode \<Rightarrow> int \<Rightarrow> u64 option dt_prog" where
  "RDMTarget_readGrain mode timeout =
     pbind pget (\<lambda>(t, _).
       if \<not> canReadGrains (in_proto (dt_proto t)) then pthrow (StatusException MXL_ERR_UNSUPPORTED_OPERATION)
       else pbind (RDMTarget_readNext mode (if mode = Blocking then timeout else 0)) (\<lambda>res. plift (as_grain res)))"

definition RDMTarget_readSamples :: "QueueReadMode \<Rightarrow> int \<Rightarrow> (u64 \<times> u64) option dt_prog" where
  "RDMTarget_readSamples mode timeout =
     pbind pget (\<lambda>(t, _).
       if \<not> canReadSamples (in_proto (dt_proto t)) then pthrow (StatusException MXL_ERR_UNSUPPORTED_OPERATION)
       else pbind (RDMTarget_readNext mode (if mode = Blocking then timeout else 0)) (\<lambda>res. plift (as_samples res)))"

definition RDMTarget_destroy :: "RDMTarget \<Rightarrow> unit fab" where
  "RDMTarget_destroy t = pbind (Endpoint_release (dt_endpoint t)) (\<lambda>_. close_domain (dt_fabric t, dt_domain t))"

section \<open>A read that throws\<close>

text \<open>The queues of a target are there as long as no read has thrown.\<close>

definition queues_bound :: "RCTargetState \<Rightarrow> bool" where
  "queues_bound st =
     (case st of
        WaitForConnectionRequest pep \<Rightarrow> (\<exists>q. pep_eq pep = Bound q)
      | WaitForConnection ep \<Rightarrow> (\<exists>q. ep_eq ep = Bound q)
      | Connected ep \<Rightarrow> (\<exists>q. ep_cq ep = Bound q))"

definition queues_lost :: "RCTargetState \<Rightarrow> bool" where
  "queues_lost st =
     (case st of
        WaitForConnectionRequest pep \<Rightarrow> pep_eq pep = MovedFrom
      | WaitForConnection ep \<Rightarrow> ep_eq ep = MovedFrom
      | Connected ep \<Rightarrow> ep_cq ep = MovedFrom)"

lemma rt_goto_simp [simp]: "rt_goto st (t, f) = (Ret (), (t\<lparr>rt_state := st\<rparr>, f))"
  by (simp add: rt_goto_def own_def)

lemma punwind_Throw: "punwind m c s = (Throw e, s') \<Longrightarrow> \<exists>e0 s0. m s = (Throw e0, s0) \<and> s' = snd (c s0)"
  by (auto simp: punwind_def pcatch_def pbind_def split: prod.splits outcome.splits)

lemma net_goto: "fst (m f) = Ret () \<Longrightarrow> snd (pbind (net m) (\<lambda>_. rt_goto gone) (t, f)) = (t\<lparr>rt_state := gone\<rparr>, snd (m f))"
  by (auto simp: net_def pbind_def split: prod.splits)

lemma pbind_fst_Ret: "fst (m s) = Ret () \<Longrightarrow> (\<And>s. fst (g () s) = Ret a) \<Longrightarrow> fst (pbind m g s) = Ret a"
  by (auto simp: pbind_def split: prod.splits)

lemma release_Ret: "fst (Endpoint_release ep f) = Ret ()" "fst (PassiveEndpoint_release pep f) = Ret ()"
  by (auto simp: Endpoint_release_def PassiveEndpoint_release_def PassiveEndpoint_destroy_def Endpoint_destroy_def close_slot_def
      intro!: pbind_fst_Ret split: slot.split)

lemma rt_visit_Throw:
  assumes "rt_visit gone c m s = (Throw e, s')" and "\<And>f. fst (c f) = Ret ()"
  shows "rt_state (fst s') = gone"
  using assms
  by (auto simp: rt_visit_def pthen_def pbind_eq_Throw pdone_def dest!: punwind_Throw simp: net_goto split: option.splits)

lemma pthen_pret_Throw: "pthen m (\<lambda>_. pret x) s = (Throw e, s') \<Longrightarrow> m s = (Throw e, s')"
  by (auto simp: pthen_eq split: prod.splits outcome.splits option.splits)

lemma moved_queues [simp]: "ep_cq (moved_from ep) = moved_slot (ep_cq ep)" "ep_eq (moved_from ep) = moved_slot (ep_eq ep)"
  "pep_eq (pep_moved_from pep) = moved_slot (pep_eq pep)"
  by (simp_all add: moved_from_def pep_moved_from_def)

lemma readNext_Throw_loses_queues:
  assumes "RCTarget_readNext fuel mode timeout (t, f) = (Throw e, (t', f'))" and "queues_bound (rt_state t)"
  shows "queues_lost (rt_state t')"
proof (cases "rt_state t")
  case (WaitForConnectionRequest pep)
  then have "on_request mode timeout pep (t, f) = (Throw e, (t', f'))"
    using assms(1) by (auto simp: RCTarget_readNext_def dest: pthen_pret_Throw)
  then have "rt_state t' = WaitForConnectionRequest (pep_moved_from pep)"
    unfolding on_request_def by (auto dest: rt_visit_Throw simp: release_Ret)
  then show ?thesis using assms(2) by (auto simp: WaitForConnectionRequest queues_lost_def queues_bound_def moved_slot_def)
next
  case (WaitForConnection ep)
  then have "on_connection mode timeout ep (t, f) = (Throw e, (t', f'))"
    using assms(1) by (auto simp: RCTarget_readNext_def dest: pthen_pret_Throw)
  then have "rt_state t' = WaitForConnection (moved_from ep)"
    unfolding on_connection_def by (auto dest: rt_visit_Throw simp: release_Ret)
  then show ?thesis using assms(2) by (auto simp: WaitForConnection queues_lost_def queues_bound_def moved_slot_def)
next
  case (Connected ep)
  then have "rt_state t' = Connected (moved_from ep)"
    using assms(1) by (auto simp: RCTarget_readNext_def on_data_def net_goto release_Ret dest!: punwind_Throw)
  then show ?thesis using assms(2) by (auto simp: Connected queues_lost_def queues_bound_def moved_slot_def)
qed

lemma punwind_Crash: "fst (m s) = Crash c \<Longrightarrow> fst (punwind m h s) = Crash c"
  by (auto simp: punwind_def pcatch_def split: prod.splits outcome.splits)

lemma pbind_Crash: "fst (m s) = Crash c \<Longrightarrow> fst (pbind m h s) = Crash c"
  by (auto simp: pbind_def split: prod.splits outcome.splits)

lemma pthen_Crash: "fst (m s) = Crash c \<Longrightarrow> fst (pthen m h s) = Crash c"
  by (auto simp: pthen_eq split: prod.splits outcome.splits)

lemma net_Crash: "fst (m f) = Crash c \<Longrightarrow> fst (net m (t, f)) = Crash c"
  by (simp add: net_eq)

lemma slot_deref_lost: "s = MovedFrom \<Longrightarrow> fst (slot_deref s m f) = Crash NullDereference"
  by (simp add: slot_deref_def slot_queue_def pbind_def)

lemma readNext_lost_Crash:
  assumes "queues_lost (rt_state t)"
  shows "fst (RCTarget_readNext fuel NonBlocking timeout (t, f)) = Crash NullDereference"
proof (cases "rt_state t")
  case (WaitForConnectionRequest pep)
  with assms show ?thesis
    by (auto simp: RCTarget_readNext_def on_request_def rt_visit_def queues_lost_def
        intro!: pthen_Crash punwind_Crash net_Crash pbind_Crash slot_deref_lost)
next
  case (WaitForConnection ep)
  with assms show ?thesis
    by (auto simp: RCTarget_readNext_def on_connection_def rt_visit_def queues_lost_def
        intro!: pthen_Crash punwind_Crash pbind_Crash net_Crash slot_deref_lost)
next
  case (Connected ep)
  with assms show ?thesis
    by (auto simp: RCTarget_readNext_def on_data_def queues_lost_def readEndpointQueues_def pdone_def readQueues_def if_bound_def deref_def
        intro!: pthen_Crash punwind_Crash net_Crash pbind_Crash)
qed

text \<open>
  C33: When a read of a connection oriented target throws, in whichever state the target is, for instance
  because its peer named a slot that does not exist, the target has lost its endpoint, and the next non
  blocking read dereferences a null pointer.
\<close>

theorem failed_read_is_fatal:
  assumes "RCTarget_readNext fuel mode timeout (t, f) = (Throw e, (t', f'))" and "queues_bound (rt_state t)"
  shows "fst (RCTarget_readNext fuel' NonBlocking timeout' (t', f')) = Crash NullDereference"
  using readNext_Throw_loses_queues [OF assms] by (rule readNext_lost_Crash)

section \<open>Events that are lost\<close>

text \<open>
  A completion that is read together with the shutdown of the connection is dropped: no grain is
  reported, and its valid slices are not stored.
\<close>

theorem completion_lost_at_shutdown:
  assumes "rt_state t = Connected ep"
    and "readEndpointQueues fuel mode ep timeout f = (Ret (Some (Some c, Some ev)), f1)" and "isShutdown ev"
    and "makeListener f1 = (Ret pep, f2)"
  shows "\<exists>f'. RCTarget_readNext fuel mode timeout (t, f) = (Ret (Some None), (t\<lparr>rt_state := WaitForConnectionRequest pep\<rparr>, f'))"
proof -
  have "\<exists>f3. Endpoint_release ep f2 = (Ret (), f3)" using release_Ret(1) by (metis prod.collapse)
  with assms show ?thesis
    by (auto simp: RCTarget_readNext_def on_data_def punwind_def pcatch_def pthen_eq net_eq net_bind pbind_def [of "rt_goto _"])
qed

text \<open>
  A target that waits for an accepted connection to be established ignores every other event: when
  the handshake fails, with an error or a shutdown event, it waits for ever and never listens again.
\<close>

theorem failed_handshake_is_ignored:
  assumes "rt_state t = WaitForConnection ep" and "ep_eq ep = Bound q"
    and "\<forall>i. \<exists>ev. eq_handleReadResult (lf_eq (fb_env f) i) = Ret ev \<and> \<not> event_is isConnected ev"
  shows "\<exists>f'. ((\<lambda>s. snd (RCTarget_readNext fuel NonBlocking timeout s)) ^^ n) (t, f) = (t, f') \<and> fb_env f' = fb_env f"
proof (induction n)
  case (Suc n)
  then obtain f' where f': "((\<lambda>s. snd (RCTarget_readNext fuel NonBlocking timeout s)) ^^ n) (t, f) = (t, f')" "fb_env f' = fb_env f" by blast
  obtain ev where ev: "eq_handleReadResult (lf_eq (fb_env f) (fb_tick f')) = Ret ev" "\<not> event_is isConnected ev"
    using assms(3) by blast
  have same: "t\<lparr>rt_state := WaitForConnection ep\<rparr> = t" using assms(1) by (cases t) simp
  have "(\<lambda>s. snd (RCTarget_readNext fuel NonBlocking timeout s)) (t, f') = (t, ftick f')"
    using ev by (auto simp: RCTarget_readNext_def assms(1,2) on_connection_def rt_visit_def slot_deref_def slot_queue_def readEventQueue_def
        pthen_eq punwind_def pcatch_def net_bind pbind_def [of "plift _"] eq_read_eq f'(2) pdone_eq same)
  then show ?case using f' by simp
qed simp

section \<open>Both targets deliver the same\<close>

text \<open>Handling a completion only asks the network to repost the buffer for immediate data, if there is one.\<close>

lemma ingress_read_same:
  assumes "in_immData g \<noteq> None \<Longrightarrow>
      (ep_raw ep = None \<longleftrightarrow> ep_raw ep' = None) \<and> lf_call (fb_env f) (fb_tick f) = lf_call (fb_env f') (fb_tick f')"
  shows "fst (ingress_read ep c (g, f)) = fst (ingress_read ep' c (g, f'))
    \<and> fst (snd (ingress_read ep c (g, f))) = fst (snd (ingress_read ep' c (g, f')))"
proof (cases "in_immData g")
  case None
  then show ?thesis
    by (auto simp: ingress_read_def own_def pbind_def split: option.splits IngressProtocol.splits outcome.splits prod.splits)
next
  case (Some addr)
  have recv: "ep_recv ep r f = (x, f1) \<Longrightarrow> \<exists>f1'. ep_recv ep' r f' = (x, f1')" for r x f1
    using assms [unfolded Some]
    by (auto simp: ep_recv_def with_raw_def fiCall_def Let_def split: option.splits if_splits)
  obtain x f1 where x: "ep_recv ep (imm_region addr) f = (x, f1)" by fastforce
  then obtain f1' where x': "ep_recv ep' (imm_region addr) f' = (x, f1')" using recv by blast
  show ?thesis
    by (auto simp: ingress_read_def Some own_def pbind_def net_eq x x' split: option.splits IngressProtocol.splits outcome.splits prod.splits)
qed

text \<open>
  C34: Let a connected target and a connectionless one have the same protocol state, do a non blocking
  read, and find the same in their completion queues, an error of the queue included; let the event
  queue of the connected one hold no event or one that is not the end of the connection (which makes it
  drop the completion); and, should the protocol have a buffer for immediate data, let the calls that
  repost it answer the same. Then both reads end the same way, result, exception or crash, and leave the
  same protocol state: grain headers, samples and all.
\<close>

theorem targets_deliver_the_same:
  assumes "rt_state t = Connected ep" "ep_cq ep = Bound q" "ep_eq ep = Bound q'"
    and "ep_cq (dt_endpoint d) = Bound q''" "dt_proto d = rt_proto t"
    and completion: "cq_handleReadResult (lf_cq (fb_env f) (fb_tick f)) = cq_handleReadResult (lf_cq (fb_env f2) (fb_tick f2))"
    and event: "eq_handleReadResult (lf_eq (fb_env f) (fb_tick f + 1)) = Ret ev" "\<not> event_is isShutdown ev"
    and repost: "in_immData (rt_proto t) \<noteq> None \<Longrightarrow> (ep_raw ep = None \<longleftrightarrow> ep_raw (dt_endpoint d) = None)
      \<and> lf_call (fb_env f) (fb_tick f + 2) = lf_call (fb_env f2) (fb_tick f2 + 1)"
    and rdm: "RDMTarget_readNext NonBlocking timeout' (d, f2) = (res, (d', f2'))"
  shows "\<exists>t' f'. RCTarget_readNext fuel NonBlocking timeout (t, f) = (obind res (\<lambda>r. Ret (Some r)), (t', f')) \<and> rt_proto t' = dt_proto d'"
proof -
  have released: "\<exists>f'. Endpoint_release ep g = (Ret (), f')" for g using release_Ret(1) by (metis prod.collapse)
  show ?thesis
  proof (cases "cq_handleReadResult (lf_cq (fb_env f2) (fb_tick f2))")
    case (Ret c)
    show ?thesis
    proof (cases c)
      case None
      with rdm Ret have "d' = d" "res = Ret None"
        by (auto simp: RDMTarget_readNext_def slot_deref_def readCompletionQueue_def net_bind assms(4) slot_queue_def cq_read_eq pbind_def [of "plift _"])
      with None Ret event completion show ?thesis
        by (auto simp: RCTarget_readNext_def on_data_def readEndpointQueues_def readQueues_def if_bound_def deref_def net_bind assms(1-5) cq_read_eq
            eq_read_eq pbind_def [of cq_read] pbind_def [of eq_read] pdone_eq pthen_eq punwind_def pcatch_def net_eq)
    next
      case (Some a)
      define run where "run = ingress_read (dt_endpoint d) a (rt_proto t, ftick f2)"
      define run' where "run' = ingress_read ep a (rt_proto t, ftick (ftick f))"
      have "res = fst run" "d' = d\<lparr>dt_proto := fst (snd run)\<rparr>"
        using rdm Ret by (auto simp: Some RDMTarget_readNext_def slot_deref_def readCompletionQueue_def net_bind assms(4,5) slot_queue_def cq_read_eq
            pbind_def [of "plift _"] dt_with_ingress_def run_def split: prod.splits)
      moreover have same: "fst run' = fst run" "fst (snd run') = fst (snd run)"
        unfolding run_def run'_def using ingress_read_same [of "rt_proto t" ep "dt_endpoint d" "ftick (ftick f)" "ftick f2" a] repost by simp_all
      have data: "readEndpointQueues fuel NonBlocking ep timeout f = (Ret (Some (Some a, ev)), ftick (ftick f))"
        using Ret event completion
        by (simp add: Some readEndpointQueues_def readQueues_def if_bound_def deref_def assms(1-5) cq_read_eq eq_read_eq pbind_def [of cq_read]
            pbind_def [of eq_read] pdone_eq)
      obtain g' h' where run': "run' = (fst run, (g', h'))" using same(1) by (metis prod.collapse)
      have on: "with_ingress (ingress_read ep a) (t, ftick (ftick f)) = (fst run, (t\<lparr>rt_proto := g'\<rparr>, h'))"
        using run' unfolding run'_def by (simp add: with_ingress_def)
      obtain h'' where "Endpoint_release ep h' = (Ret (), h'')" using released by blast
      then have "\<exists>t' f'. RCTarget_readNext fuel NonBlocking timeout (t, f) = (obind (fst run) (\<lambda>r. Ret (Some r)), (t', f')) \<and> rt_proto t' = g'"
        using event(2) on
        by (cases "fst run") (auto simp: RCTarget_readNext_def on_data_def assms(1) punwind_def pcatch_def pthen_eq net_eq data pdone_eq net_bind pbind_assoc pbind_def [of "rt_goto _"])
      ultimately show ?thesis using run' same(2) by simp
    qed
  next
    case (Throw e)
    with rdm have "res = Throw e" "d' = d"
      by (auto simp: RDMTarget_readNext_def slot_deref_def readCompletionQueue_def net_bind assms(4) slot_queue_def cq_read_eq pbind_def [of "plift _"])
    moreover obtain h where h: "readEndpointQueues fuel NonBlocking ep timeout f = (Throw e, h)"
      using Throw completion by (simp add: readEndpointQueues_def readQueues_def if_bound_def deref_def assms(1-5) cq_read_eq pbind_def [of cq_read] pdone_eq)
    moreover obtain h' where "Endpoint_release ep h = (Ret (), h')" using released by blast
    ultimately show ?thesis
      by (simp add: RCTarget_readNext_def on_data_def assms(1,5) punwind_def pcatch_def pthen_eq net_eq net_bind pbind_assoc pbind_def [of "rt_goto _"])
  next
    case (Crash c)
    with rdm have "res = Crash c" "d' = d"
      by (auto simp: RDMTarget_readNext_def slot_deref_def readCompletionQueue_def net_bind assms(4) slot_queue_def cq_read_eq pbind_def [of "plift _"])
    moreover have "\<exists>h. readEndpointQueues fuel NonBlocking ep timeout f = (Crash c, h)"
      using Crash completion by (simp add: readEndpointQueues_def readQueues_def if_bound_def deref_def assms(1-5) cq_read_eq pbind_def [of cq_read] pdone_eq)
    ultimately show ?thesis
      by (auto simp: RCTarget_readNext_def on_data_def assms(1,5) punwind_def pcatch_def pthen_eq net_eq)
  qed
qed

section \<open>Examples\<close>

definition ex_rt :: "RCTargetState \<Rightarrow> RCTarget" where
  "ex_rt st = \<lparr>rt_fabric = 20, rt_domain = 21, rt_proto = ex_ingress, rt_state = st\<rparr>"

definition ex_dt :: RDMTarget where
  "ex_dt = \<lparr>dt_fabric = 20, dt_domain = 21, dt_endpoint = ex_endpoint, dt_proto = ex_ingress\<rparr>"

text \<open>A network that always gives the same answers to the reads of its queues.\<close>

definition ex_queues :: "cq_read \<Rightarrow> eq_read \<Rightarrow> fabric" where
  "ex_queues c e = (ex_fabric 99)\<lparr>fb_env := (ex_libfabric 99)\<lparr>lf_cq := (\<lambda>_. c), lf_eq := (\<lambda>_. e)\<rparr>\<rparr>"

definition ex_entry :: "u64 option \<Rightarrow> cq_data_entry" where
  "ex_entry d = \<lparr>cqe_token = 7, cqe_remote_cq_data = (d \<noteq> None), cqe_data = (case d of None \<Rightarrow> 0 | Some x \<Rightarrow> x)\<rparr>"

lemma failed_read_is_fatal_witness:
  "fst (RCTarget_readNext 1 NonBlocking 0 (snd (RCTarget_readNext 1 NonBlocking 0 (ex_rt (Connected ex_endpoint), ex_queues (CqEntry (ex_entry None)) EqAgain))))
     = Crash NullDereference"
proof -
  let ?s = "(ex_rt (Connected ex_endpoint), ex_queues (CqEntry (ex_entry None)) EqAgain)"
  let ?s1 = "snd (RCTarget_readNext 1 NonBlocking 0 ?s)"
  have "RCTarget_readNext 1 NonBlocking 0 ?s = (Throw (StatusException MXL_ERR_INVALID_STATE), ?s1)" by (rule outcome_of, code_simp)
  then have "RCTarget_readNext 1 NonBlocking 0 ?s = (Throw (StatusException MXL_ERR_INVALID_STATE), (fst ?s1, snd ?s1))" by simp
  from failed_read_is_fatal [OF this, of 1 0] show ?thesis by (simp add: ex_rt_def queues_bound_def ex_endpoint_def)
qed

lemma completion_lost_at_shutdown_witness:
  "case RCTarget_readNext 1 NonBlocking 0 (ex_rt (Connected ex_endpoint), ex_queues (CqEntry (ex_entry (Some 131073))) (EqEntry FI_SHUTDOWN 0)) of
     (r, (t, f)) \<Rightarrow> r = Ret (Some None) \<and> in_infos (rt_proto t) = in_infos ex_ingress"
proof -
  let ?f = "ex_queues (CqEntry (ex_entry (Some 131073))) (EqEntry FI_SHUTDOWN 0)"
  let ?f1 = "snd (readEndpointQueues 1 NonBlocking ex_endpoint 0 ?f)"
  have q: "readEndpointQueues 1 NonBlocking ex_endpoint 0 ?f = (Ret (Some (Some (CompletionData (ex_entry (Some 131073))), Some (ShutdownEvent 0))), ?f1)"
    by (rule outcome_of, code_simp)
  have l: "makeListener ?f1 = (Ret \<lparr>pep_raw = Some 1, pep_id = 2, pep_eq = Bound 2\<rparr>, snd (makeListener ?f1))" by (rule outcome_of, code_simp)
  from completion_lost_at_shutdown [OF _ q _ l, of "ex_rt (Connected ex_endpoint)"] show ?thesis
    by (auto simp: ex_rt_def isShutdown_def)
qed

lemma failed_handshake_is_ignored_witness:
  "rt_state (fst (((\<lambda>s. snd (RCTarget_readNext 1 NonBlocking 0 s)) ^^ 3) (ex_rt (WaitForConnection ex_endpoint), ex_queues CqAgain (EqEntry FI_SHUTDOWN 0))))
     = WaitForConnection ex_endpoint"
  using failed_handshake_is_ignored [where t = "ex_rt (WaitForConnection ex_endpoint)" and ep = ex_endpoint and q = 11
      and f = "ex_queues CqAgain (EqEntry FI_SHUTDOWN 0)" and fuel = 1 and timeout = 0 and n = 3]
  by (auto simp: ex_rt_def ex_endpoint_def ex_queues_def eq_handleReadResult_def fromRawCMEntry_def isConnected_def)

lemma targets_deliver_the_same_witness:
  "fst (RCTarget_readNext 1 NonBlocking 0 (ex_rt (Connected ex_endpoint), ex_queues (CqEntry (ex_entry (Some 131073))) EqAgain))
     = Ret (Some (case fst (RDMTarget_readNext NonBlocking 0 (ex_dt, ex_queues (CqEntry (ex_entry (Some 131073))) EqAgain)) of Ret r \<Rightarrow> r | _ \<Rightarrow> None))"
proof -
  let ?f = "ex_queues (CqEntry (ex_entry (Some 131073))) EqAgain"
  let ?s1 = "snd (RDMTarget_readNext NonBlocking 0 (ex_dt, ?f))"
  define r where "r = (case fst (RDMTarget_readNext NonBlocking 0 (ex_dt, ?f)) of Ret r \<Rightarrow> r | _ \<Rightarrow> None)"
  have "RDMTarget_readNext NonBlocking 0 (ex_dt, ?f) = (Ret r, ?s1)" unfolding r_def by (rule outcome_of, code_simp)
  then have "RDMTarget_readNext NonBlocking 0 (ex_dt, ?f) = (Ret r, (fst ?s1, snd ?s1))" by simp
  then have "\<exists>t' f'. RCTarget_readNext 1 NonBlocking 0 (ex_rt (Connected ex_endpoint), ?f) = (obind (Ret r) (\<lambda>r. Ret (Some r)), (t', f'))
      \<and> rt_proto t' = dt_proto (fst ?s1)"
    by (rule targets_deliver_the_same [rotated 9, where ep = ex_endpoint and q = 10 and q' = 11 and q'' = 10 and ev = None])
      (simp_all add: ex_rt_def ex_dt_def ex_endpoint_def ex_queues_def ex_ingress_def new_ingress_def eq_handleReadResult_def)
  then show ?thesis unfolding r_def [symmetric] by auto
qed

end
