(* ===== verification/RcInitiator.thy ===== *)
theory RcInitiator
  imports Peers
begin

text \<open>
  The connection oriented initiator (\<open>RCInitiator.cpp\<close>): the state machine of one target, from idle
  over connecting and connected to flushing and done, and the initiator that drives its targets by
  polling one completion queue and one event queue.
  The code moves the state out of its variant before a transition and assigns the next one after it;
  a transition that throws leaves the alternative it moved from, whose endpoint is null, and destroys
  the endpoint.
\<close>

section \<open>One target\<close>

datatype RCState =
    RCIdle Endpoint int
  | RCConnecting Endpoint
  | RCConnected Endpoint
  | RCFlushing Endpoint u64
  | RCDone

record RCInitiatorEndpoint =
  rc_state :: RCState
  rc_info :: TargetInfo
  rc_proto :: EgressProtocol

type_synonym 'a rc_prog = "(RCInitiatorEndpoint \<times> fabric, 'a) prog"

definition RCInitiatorEndpoint_new :: "Endpoint \<Rightarrow> EgressProtocol \<Rightarrow> TargetInfo \<Rightarrow> RCInitiatorEndpoint" where
  "RCInitiatorEndpoint_new ep proto info = \<lparr>rc_state = RCIdle ep 0, rc_info = info, rc_proto = proto\<rparr>"

definition rc_isIdle :: "RCInitiatorEndpoint \<Rightarrow> bool" where
  "rc_isIdle t = (case rc_state t of RCIdle _ _ \<Rightarrow> True | _ \<Rightarrow> False)"

definition rc_canEvict :: "RCInitiatorEndpoint \<Rightarrow> bool" where
  "rc_canEvict t = (case rc_state t of RCDone \<Rightarrow> True | _ \<Rightarrow> False)"

definition rc_hasPendingWork :: "RCInitiatorEndpoint \<Rightarrow> bool" where
  "rc_hasPendingWork t =
     (case rc_state t of
        RCIdle _ _ \<Rightarrow> True
      | RCConnecting _ \<Rightarrow> True
      | RCConnected _ \<Rightarrow> proto_hasPendingWork (rc_proto t)
      | RCFlushing _ _ \<Rightarrow> True
      | RCDone \<Rightarrow> False)"

text \<open>A transition out of a state that owns an endpoint.\<close>

definition rc_goto :: "RCState \<Rightarrow> unit rc_prog" where
  "rc_goto st = own (pmodify (\<lambda>t. t\<lparr>rc_state := st\<rparr>))"

definition rc_visit :: "RCState \<Rightarrow> Endpoint \<Rightarrow> RCState rc_prog \<Rightarrow> unit rc_prog" where
  "rc_visit gone ep m = pbind (punwind m (pbind (net (Endpoint_destroy ep)) (\<lambda>_. rc_goto gone))) rc_goto"

definition rc_shutdown :: "unit rc_prog" where
  "rc_shutdown =
     pbind pget (\<lambda>(t, _).
       case rc_state t of
         RCIdle ep since \<Rightarrow> pbind (net (Endpoint_destroy ep)) (\<lambda>_. rc_goto RCDone)
       | RCConnecting ep \<Rightarrow> pbind (net (Endpoint_destroy ep)) (\<lambda>_. rc_goto RCDone)
       | RCConnected ep \<Rightarrow>
           (let (n, proto) = proto_reset (rc_proto t) in
            pbind (own (pmodify (\<lambda>t. t\<lparr>rc_proto := proto\<rparr>))) (\<lambda>_.
            rc_visit (RCConnected (moved_from ep)) ep
              (pbind (net (ep_shutdown ep)) (\<lambda>_. pret (RCFlushing ep n)))))
       | RCFlushing ep n \<Rightarrow> pret ()
       | RCDone \<Rightarrow> pret ())"

definition rc_terminate :: "unit rc_prog" where
  "rc_terminate =
     pbind pget (\<lambda>(t, _).
       case rc_state t of
         RCFlushing ep _ \<Rightarrow> pbind (net (Endpoint_destroy ep)) (\<lambda>_. rc_goto RCDone)
       | _ \<Rightarrow> pret ())"

text \<open>The clock counts nanoseconds; a new target has been idle since the clock's epoch.\<close>

definition idle_interval :: int where "idle_interval = 5000000000"

definition rc_activate :: "fid \<Rightarrow> fid \<Rightarrow> unit rc_prog" where
  "rc_activate cq eq =
     pbind pget (\<lambda>(t, _).
       case rc_state t of
         RCIdle ep idleSince \<Rightarrow>
           rc_visit (RCIdle (moved_from ep) idleSince) ep
             (pbind (net steady_clock) (\<lambda>now.
              if now - idleSince < idle_interval then pret (RCIdle ep idleSince)
              else
                pbind (net (bind_eq ep eq)) (\<lambda>ep.
                pbind (net (bind_cq ep cq)) (\<lambda>ep.
                pbind (net (ep_connect ep (ti_address (rc_info t)))) (\<lambda>_.
                  pret (RCConnecting ep))))))
       | _ \<Rightarrow> pret ())"

text \<open>A new endpoint with the id of the old one, which is destroyed.\<close>

definition rc_restart :: "Endpoint \<Rightarrow> RCState rc_prog" where
  "rc_restart old =
     net (pbind (Endpoint_id old) (\<lambda>epid.
          pbind (Endpoint_create epid) (\<lambda>ep.
          pbind steady_clock (\<lambda>now.
          pbind (Endpoint_destroy old) (\<lambda>_.
            pret (RCIdle ep now))))))"

definition rc_consume_event :: "Event \<Rightarrow> unit rc_prog" where
  "rc_consume_event ev =
     pbind pget (\<lambda>(t, _).
       case rc_state t of
         RCIdle ep since \<Rightarrow> pret ()
       | RCConnecting ep \<Rightarrow>
           if isError ev then rc_visit (RCConnecting (moved_from ep)) ep (rc_restart ep)
           else if isConnected ev then rc_goto (RCConnected ep)
           else if isShutdown ev then rc_visit (RCConnecting (moved_from ep)) ep (rc_restart ep)
           else pret ()
       | RCConnected ep \<Rightarrow>
           if isError ev then rc_visit (RCConnected (moved_from ep)) ep (rc_restart ep)
           else if isShutdown ev then
             (let (n, proto) = proto_reset (rc_proto t) in
              pbind (own (pmodify (\<lambda>t. t\<lparr>rc_proto := proto\<rparr>))) (\<lambda>_. rc_goto (RCFlushing ep n)))
           else pret ()
       | RCFlushing ep n \<Rightarrow>
           if isShutdown ev then pret ()
           else if isError ev then pbind (net (Endpoint_destroy ep)) (\<lambda>_. rc_goto RCDone)
           else pret ()
       | RCDone \<Rightarrow> pret ())"

definition handleCompletionData :: "unit rc_prog" where
  "handleCompletionData =
     own (pmodify (\<lambda>t.
       case rc_state t of
         RCConnected ep \<Rightarrow> t\<lparr>rc_proto := proto_processCompletion (rc_proto t)\<rparr>
       | RCFlushing ep n \<Rightarrow> t\<lparr>rc_state := RCFlushing ep (n - 1)\<rparr>
       | _ \<Rightarrow> t))"

text \<open>A completion error is only logged.\<close>

definition rc_consume_completion :: "Completion \<Rightarrow> unit rc_prog" where
  "rc_consume_completion c =
     (if tryErr c \<noteq> None then pret ()
      else if tryData c \<noteq> None then handleCompletionData
      else pret ())"

definition with_proto :: "(EgressProtocol \<times> fabric, unit) prog \<Rightarrow> unit rc_prog" where
  "with_proto m s = (case m (rc_proto (fst s), snd s) of (r, (p, f)) \<Rightarrow> (r, ((fst s)\<lparr>rc_proto := p\<rparr>, f)))"

definition rc_transferGrain :: "u64 \<Rightarrow> u64 \<Rightarrow> u64 \<Rightarrow> SliceRange \<Rightarrow> unit rc_prog" where
  "rc_transferGrain localIndex remoteIndex remotePayloadOffset sliceRange =
     pbind pget (\<lambda>(t, _).
       case rc_state t of
         RCConnected ep \<Rightarrow> with_proto (proto_transferGrain ep localIndex remoteIndex (ucast remotePayloadOffset) sliceRange FI_ADDR_UNSPEC)
       | _ \<Rightarrow> pret ())"

definition rc_transferSamples :: "u64 \<Rightarrow> u64 \<Rightarrow> unit rc_prog" where
  "rc_transferSamples head count =
     pbind pget (\<lambda>(t, _).
       case rc_state t of
         RCConnected ep \<Rightarrow> with_proto (proto_transferSamples ep head count FI_ADDR_UNSPEC)
       | _ \<Rightarrow> pret ())"

section \<open>The initiator\<close>

record RCInitiator =
  ri_fabric :: fid
  ri_domain :: fid
  ri_cq :: fid
  ri_eq :: fid
  ri_proto :: EgressTemplate
  ri_targets :: "RCInitiatorEndpoint targets"

type_synonym 'a ri_prog = "(RCInitiator \<times> fabric, 'a) prog"

record mxlFabricsInitiatorConfig =
  ic_provider :: mxlFabricsProvider
  ic_reader :: mapped_flow

definition make_template :: "mapped_flow \<Rightarrow> EgressTemplate fab" where
  "make_template reader =
     pbind (plift (MxlRegions_forReader reader)) (\<lambda>regions.
     pbind (plift (selectEgressProtocol (mr_layout regions) (mr_regions regions))) (\<lambda>proto.
       with_local proto template_registerMemory))"

definition RCInitiator_setup :: "mxlFabricsInitiatorConfig \<Rightarrow> RCInitiator fab" where
  "RCInitiator_setup cfg =
     pbind (open_domain (StatusException MXL_ERR_NO_FABRIC) (ic_provider cfg)) (\<lambda>(fabric, domain).
     punwind
       (pbind EventQueue_open (\<lambda>eq.
        punwind
          (pbind CompletionQueue_open (\<lambda>cq.
           punwind
             (pbind (make_template (ic_reader cfg)) (\<lambda>proto.
                pret \<lparr>ri_fabric = fabric, ri_domain = domain, ri_cq = cq, ri_eq = eq, ri_proto = proto, ri_targets = []\<rparr>))
             (close_raw (Some cq))))
          (close_raw (Some eq))))
       (close_domain (fabric, domain)))"

definition on_targets :: "(RCInitiatorEndpoint targets \<times> fabric, 'a) prog \<Rightarrow> 'a ri_prog" where
  "on_targets m s = (case m (ri_targets (fst s), snd s) of (r, (ts, f)) \<Rightarrow> (r, ((fst s)\<lparr>ri_targets := ts\<rparr>, f)))"

text \<open>An id that is taken already keeps its target, and the new one is destroyed.\<close>

definition RCInitiator_addTarget :: "TargetInfo \<Rightarrow> unit ri_prog" where
  "RCInitiator_addTarget targetInfo =
     pbind (net Endpoint_create_random) (\<lambda>ep.
     punwind
       (pbind (net (Endpoint_id ep)) (\<lambda>epid.
        pbind pget (\<lambda>(ri, _).
        pbind (plift (template_createInstance (ri_proto ri) epid targetInfo)) (\<lambda>proto.
        pbind (net (with_local proto proto_registerMemory)) (\<lambda>proto.
        if map_of (ri_targets ri) epid \<noteq> None then net (Endpoint_destroy ep)
        else own (pmodify (\<lambda>ri. ri\<lparr>ri_targets := emplace epid (RCInitiatorEndpoint_new ep proto targetInfo) (ri_targets ri)\<rparr>)))))))
       (net (Endpoint_destroy ep)))"

definition find_target :: "u64 \<Rightarrow> RCInitiatorEndpoint targets \<Rightarrow> (u64 \<times> RCInitiatorEndpoint) option" where
  "find_target tid ts = find (\<lambda>(_, t). ti_id (rc_info t) = tid) ts"

definition RCInitiator_removeTarget :: "TargetInfo \<Rightarrow> unit ri_prog" where
  "RCInitiator_removeTarget targetInfo =
     pbind pget (\<lambda>(ri, _).
       case find_target (ti_id targetInfo) (ri_targets ri) of
         Some (k, _) \<Rightarrow> on_targets (at_key k rc_shutdown (pret ()))
       | None \<Rightarrow> pthrow (StatusException MXL_ERR_NOT_FOUND))"

definition RCInitiator_transferGrain :: "u64 \<Rightarrow> u16 \<Rightarrow> u16 \<Rightarrow> unit ri_prog" where
  "RCInitiator_transferGrain grainIndex startSlice endSlice =
     on_targets (each
       (pbind (plift (SliceRange_make startSlice endSlice)) (\<lambda>r.
          rc_transferGrain grainIndex grainIndex (of_nat MXL_GRAIN_PAYLOAD_OFFSET) r)))"

definition RCInitiator_transferGrainToTarget :: "u64 \<Rightarrow> u64 \<Rightarrow> u64 \<Rightarrow> u64 \<Rightarrow> u16 \<Rightarrow> u16 \<Rightarrow> unit ri_prog" where
  "RCInitiator_transferGrainToTarget targetId localIndex remoteIndex payloadOffset startSlice endSlice =
     on_targets (at_key targetId
       (pbind (plift (SliceRange_make startSlice endSlice)) (\<lambda>r. rc_transferGrain localIndex remoteIndex payloadOffset r))
       (pthrow (StatusException MXL_ERR_NOT_FOUND)))"

definition RCInitiator_transferSamples :: "u64 \<Rightarrow> u64 \<Rightarrow> unit ri_prog" where
  "RCInitiator_transferSamples head count = on_targets (each (rc_transferSamples head count))"

definition RCInitiator_hasPendingWork :: "RCInitiator \<Rightarrow> bool" where
  "RCInitiator_hasPendingWork ri \<longleftrightarrow> (\<exists>(_, t) \<in> set (ri_targets ri). rc_hasPendingWork t)"

definition hasTarget :: "RCInitiator \<Rightarrow> bool" where
  "hasTarget ri \<longleftrightarrow> length (ri_targets ri) > 0"

definition activateIdleEndpoints :: "unit ri_prog" where
  "activateIdleEndpoints = pbind pget (\<lambda>(ri, _). on_targets (each (rc_activate (ri_cq ri) (ri_eq ri))))"

definition evictDeadEndpoints :: "unit ri_prog" where
  "evictDeadEndpoints = own (pmodify (\<lambda>ri. ri\<lparr>ri_targets := filter (\<lambda>(_, t). \<not> rc_canEvict t) (ri_targets ri)\<rparr>))"

fun pollCQ :: "nat \<Rightarrow> unit option ri_prog" where
  "pollCQ 0 = pret None"
| "pollCQ (Suc fuel) =
     pbind (net cq_read) (\<lambda>completion.
       case completion of
         None \<Rightarrow> pdone (on_targets (each rc_terminate))
       | Some c \<Rightarrow>
           pbind (on_targets (at_key (completion_token c) (rc_consume_completion c) (pret ()))) (\<lambda>_. pollCQ fuel))"

fun pollEQ :: "nat \<Rightarrow> unit option ri_prog" where
  "pollEQ 0 = pret None"
| "pollEQ (Suc fuel) =
     pbind (net eq_read) (\<lambda>event.
       case event of
         None \<Rightarrow> pret (Some ())
       | Some ev \<Rightarrow>
           pbind (net (idFromFID (event_fid ev))) (\<lambda>k.
           pbind (on_targets (at_key k (rc_consume_event ev) (pret ()))) (\<lambda>_. pollEQ fuel)))"

definition RCInitiator_makeProgress :: "nat \<Rightarrow> bool option ri_prog" where
  "RCInitiator_makeProgress fuel =
     pbind pget (\<lambda>(ri, _).
       if \<not> hasTarget ri then pthrow (StatusException MXL_ERR_INTERRUPTED)
       else
         pbind activateIdleEndpoints (\<lambda>_.
         pthen (pollCQ fuel) (\<lambda>_.
         pthen (pollEQ fuel) (\<lambda>_.
         pbind evictDeadEndpoints (\<lambda>_.
         pbind pget (\<lambda>(ri, _). pret (Some (RCInitiator_hasPendingWork ri))))))))"

text \<open>A completion of a target the initiator does not know leads to the end of the map being dereferenced.\<close>

definition RCInitiator_blockOnCQ :: "nat \<Rightarrow> int \<Rightarrow> unit option ri_prog" where
  "RCInitiator_blockOnCQ fuel timeout =
     (if timeout = 0 then pthen (RCInitiator_makeProgress fuel) (\<lambda>_. pret (Some ()))
      else pbind (net (cq_readBlocking timeout)) (\<lambda>completion.
        case completion of
          None \<Rightarrow> pdone (on_targets (each rc_terminate))
        | Some c \<Rightarrow> pdone (on_targets (at_key (completion_token c) (rc_consume_completion c) (pcrash BadIterator)))))"

definition EQPollInterval :: int where "EQPollInterval = 100"

fun progress_until :: "nat \<Rightarrow> nat \<Rightarrow> int \<Rightarrow> bool option ri_prog" where
  "progress_until fuel 0 deadline = pret None"
| "progress_until fuel (Suc rounds) deadline =
     pthen (RCInitiator_makeProgress fuel) (\<lambda>more.
       if \<not> more then pret (Some False)
       else pbind (net steady_clock) (\<lambda>now.
         let timeUntilDeadline = (deadline - now) sdiv 1000000 in
         if timeUntilDeadline \<le> 0 then pbind pget (\<lambda>(ri, _). pret (Some (RCInitiator_hasPendingWork ri)))
         else pthen (RCInitiator_blockOnCQ fuel (min EQPollInterval timeUntilDeadline * 1000000)) (\<lambda>_.
                progress_until fuel rounds deadline)))"

definition RCInitiator_makeProgressBlocking :: "nat \<Rightarrow> nat \<Rightarrow> int \<Rightarrow> bool option ri_prog" where
  "RCInitiator_makeProgressBlocking fuel rounds timeout =
     (if timeout < EQPollInterval * 1000000 then
        pthen (RCInitiator_makeProgress fuel) (\<lambda>_.
        pthen (RCInitiator_blockOnCQ fuel timeout) (\<lambda>_.
          pbind pget (\<lambda>(ri, _). pret (Some (RCInitiator_hasPendingWork ri)))))
      else pbind (net steady_clock) (\<lambda>now. progress_until fuel rounds (now + timeout)))"

definition RCInitiator_shutdown :: "unit ri_prog" where
  "RCInitiator_shutdown = on_targets (each rc_shutdown)"

text \<open>The destructor: the endpoints of the targets, then what the initiator shares with them.\<close>

definition state_endpoint :: "RCState \<Rightarrow> Endpoint option" where
  "state_endpoint st =
     (case st of RCIdle ep _ \<Rightarrow> Some ep | RCConnecting ep \<Rightarrow> Some ep | RCConnected ep \<Rightarrow> Some ep | RCFlushing ep _ \<Rightarrow> Some ep | RCDone \<Rightarrow> None)"

definition rc_destroy :: "unit rc_prog" where
  "rc_destroy = pbind pget (\<lambda>(t, _). case state_endpoint (rc_state t) of None \<Rightarrow> pret () | Some ep \<Rightarrow> net (Endpoint_destroy ep))"

definition RCInitiator_destroy :: "RCInitiator \<Rightarrow> unit fab" where
  "RCInitiator_destroy ri =
     pbind (with_local (ri_targets ri) (each rc_destroy)) (\<lambda>_.
     pbind (close_raw (Some (ri_eq ri))) (\<lambda>_.
     pbind (close_raw (Some (ri_cq ri))) (\<lambda>_.
       close_domain (ri_fabric ri, ri_domain ri))))"

lemma rc_goto_simp [simp]: "rc_goto st (t, f) = (Ret (), (t\<lparr>rc_state := st\<rparr>, f))"
  by (simp add: rc_goto_def own_def)

section \<open>A target that was shut down never writes again\<close>

text \<open>Everything the initiator does to a target.\<close>

inductive rc_step :: "RCInitiatorEndpoint \<times> fabric \<Rightarrow> RCInitiatorEndpoint \<times> fabric \<Rightarrow> bool" where
  activate: "rc_activate cq eq s = (r, s') \<Longrightarrow> rc_step s s'"
| shutdown: "rc_shutdown s = (r, s') \<Longrightarrow> rc_step s s'"
| terminate: "rc_terminate s = (r, s') \<Longrightarrow> rc_step s s'"
| event: "rc_consume_event ev s = (r, s') \<Longrightarrow> rc_step s s'"
| completion: "rc_consume_completion c s = (r, s') \<Longrightarrow> rc_step s s'"
| grain: "rc_transferGrain l k off sr s = (r, s') \<Longrightarrow> rc_step s s'"
| samples: "rc_transferSamples h n s = (r, s') \<Longrightarrow> rc_step s s'"

definition rc_closing :: "RCInitiatorEndpoint \<Rightarrow> bool" where
  "rc_closing t = (case rc_state t of RCFlushing _ _ \<Rightarrow> True | RCDone \<Rightarrow> True | _ \<Rightarrow> False)"

lemma rc_closing_cases: "rc_closing t \<longleftrightarrow> (\<exists>ep n. rc_state t = RCFlushing ep n) \<or> rc_state t = RCDone"
  by (auto simp: rc_closing_def split: RCState.splits)

lemma rc_step_closing: "rc_step s s' \<Longrightarrow> rc_closing (fst s) \<Longrightarrow> rc_closing (fst s') \<and> fb_writes (snd s') = fb_writes (snd s)"
  by (erule rc_step.cases; cases s)
    (auto simp: rc_closing_cases rc_activate_def rc_shutdown_def rc_terminate_def rc_consume_event_def rc_consume_completion_def
      handleCompletionData_def rc_transferGrain_def rc_transferSamples_def own_def split: if_splits)

text \<open>The two ways a target is closed: \<open>shutdown\<close>, and the peer's end of an established connection.\<close>

lemma rc_visit_eq:
  "rc_visit gone ep m (t, f) =
     (case m (t, f) of
        (Ret st, (t', f')) \<Rightarrow> (Ret (), (t'\<lparr>rc_state := st\<rparr>, f'))
      | (Throw e, (t', f')) \<Rightarrow> (Throw e, (t'\<lparr>rc_state := gone\<rparr>, snd (Endpoint_destroy ep f')))
      | (Crash c, s) \<Rightarrow> (Crash c, s))"
  by (cases "m (t, f)"; cases "fst (m (t, f))")
    (auto simp: rc_visit_def punwind_def pcatch_def pbind_def [of _ rc_goto] pbind_def [of "rc_goto gone"] pbind_assoc)

lemma rc_shutdown_connected:
  "rc_state t = RCConnected ep \<Longrightarrow> rc_shutdown (t, f) = (Ret (), (t', f')) \<Longrightarrow>
     t' = t\<lparr>rc_proto := set_pending 0 (rc_proto t), rc_state := RCFlushing ep (pending (rc_proto t))\<rparr> \<and> f' = ftick f"
  by (simp add: rc_shutdown_def proto_reset_def rc_visit_eq net_bind ep_calls fiCall_no_effect split: option.splits if_splits)

lemma rc_shutdown_closes:
  assumes "rc_shutdown s = (Ret (), s')"
  shows "rc_closing (fst s') \<and> fb_writes (snd s') = fb_writes (snd s)"
proof -
  obtain t f t' f' where s: "s = (t, f)" "s' = (t', f')" by (cases s; cases s') simp
  show ?thesis
  proof (cases "rc_state t")
    case (RCConnected ep)
    from rc_shutdown_connected [OF this assms [unfolded s]] show ?thesis by (auto simp: s rc_closing_def)
  qed (use assms in \<open>auto simp: s rc_shutdown_def rc_closing_def pbind_eq_Ret net_outcome dest!: Endpoint_destroy_outcome\<close>)
qed

lemma peer_shutdown_closes:
  "rc_state (fst s) = RCConnected ep \<Longrightarrow> isShutdown ev \<Longrightarrow> rc_consume_event ev s = (r, s') \<Longrightarrow>
     rc_closing (fst s') \<and> fb_writes (snd s') = fb_writes (snd s)"
  by (cases s) (auto simp: rc_consume_event_def rc_closing_def isError_def isShutdown_def own_def Let_def pbind_def split: Event.splits prod.splits)

lemma rc_steps_closing:
  "rc_step\<^sup>*\<^sup>* s s' \<Longrightarrow> rc_closing (fst s) \<Longrightarrow> rc_closing (fst s') \<and> fb_writes (snd s') = fb_writes (snd s)"
  by (induction rule: rtranclp_induct) (auto dest: rc_step_closing)

text \<open>
  C29: Let a target be shut down, in whatever state it is, by a call that returns, or let the peer end
  the connection of a connected target. From then on no sequence of operations of the initiator on
  that target, activations, events, completions and transfers, whatever they return, posts a single
  write for it, and it ends nowhere but in flushing or done. (The end of a connection that is still
  being made is not meant: the code starts such a target again.)
\<close>

theorem closed_target_never_writes:
  assumes "rc_shutdown s = (Ret (), s1)
      \<or> (\<exists>ep ev r. rc_state (fst s) = RCConnected ep \<and> isShutdown ev \<and> rc_consume_event ev s = (r, s1))"
    and "rc_step\<^sup>*\<^sup>* s1 s2"
  shows "fb_writes (snd s2) = fb_writes (snd s) \<and> (case rc_state (fst s2) of RCFlushing _ _ \<Rightarrow> True | RCDone \<Rightarrow> True | _ \<Rightarrow> False)"
proof -
  have "rc_closing (fst s1) \<and> fb_writes (snd s1) = fb_writes (snd s)"
    using assms(1) rc_shutdown_closes peer_shutdown_closes by blast
  with rc_steps_closing [OF assms(2)] show ?thesis by (simp add: rc_closing_def)
qed

section \<open>A failed activation\<close>

lemma rc_activate_Throw:
  "rc_activate cq eq (t, f) = (Throw e, (t', f')) \<Longrightarrow>
     \<exists>ep since. rc_state t = RCIdle ep since \<and> rc_state t' = RCIdle (moved_from ep) since
       \<and> fb_env f' = fb_env f \<and> fb_tick f \<le> fb_tick f' \<and> idle_interval \<le> lf_clock (fb_env f) (fb_tick f) - since"
  by (auto simp: rc_activate_def rc_visit_eq net_bind steady_clock_eq ep_calls fiCall_no_effect pbind_def [of "fiCall no_effect"]
      intro!: order.trans [OF _ Endpoint_destroy_tick] split: RCState.splits if_splits option.splits)

text \<open>
  When an activation fails, the target is left with the endpoint it moved from, and the next
  activation, which \<open>makeProgress\<close> tries at once, dereferences a null pointer.
\<close>

theorem failed_activation_is_fatal:
  assumes fail: "rc_activate cq eq s = (Throw e, s')"
    and clock: "mono (lf_clock (fb_env (snd s)))"
  shows "fst (rc_activate cq eq s') = Crash NullDereference"
proof -
  obtain t f t' f' where s: "s = (t, f)" "s' = (t', f')" by (cases s; cases s') simp
  from rc_activate_Throw [OF fail [unfolded s]] obtain ep since where
    t': "rc_state t' = RCIdle (moved_from ep) since" and env: "fb_env f' = fb_env f" and tick: "fb_tick f \<le> fb_tick f'"
    and old: "idle_interval \<le> lf_clock (fb_env f) (fb_tick f) - since" by blast
  have "lf_clock (fb_env f) (fb_tick f) \<le> lf_clock (fb_env f) (fb_tick f')"
    using clock tick by (simp add: s monoD)
  with old have "\<not> lf_clock (fb_env f') (fb_tick f') - since < idle_interval" by (simp add: env)
  then show ?thesis
    by (simp add: s(2) rc_activate_def t' rc_visit_eq net_bind steady_clock_eq ep_calls)
qed

section \<open>A lost connection\<close>

lemma rc_restart_Ret:
  "rc_restart old (t, f) = (Ret st, (t', f')) \<Longrightarrow>
     \<exists>now. st = RCIdle \<lparr>ep_raw = Some (fb_next f), ep_cq = Unbound, ep_eq = Unbound, ep_av = Unbound\<rparr> now
       \<and> t' = t \<and> fb_writes f' = fb_writes f"
  by (auto simp: rc_restart_def net_outcome Endpoint_id_def with_raw_def idFromFID_def Endpoint_create_def pbind_eq_Ret fiCall_Ret
      open_handle_def steady_clock_eq dest!: Endpoint_destroy_outcome split: option.splits if_splits)

text \<open>
  A target whose connection fails is connected again with a new endpoint but with the count of
  the writes pending on the old one, so that it reports work for ever when there were any.
\<close>

theorem reconnected_target_keeps_count:
  assumes lost: "rc_state (fst s) = RCConnected ep" "isError ev" "rc_consume_event ev s = (Ret (), s1)"
    and active: "rc_activate cq eq s1 = (Ret (), s2)"
    and again: "isConnected ev2" "rc_consume_event ev2 s2 = (Ret (), s3)" "rc_state (fst s3) = RCConnected ep3"
  shows "ep_raw ep3 = Some (fb_next (snd s)) \<and> fb_writes (snd s3) = fb_writes (snd s)
    \<and> rc_hasPendingWork (fst s3) = proto_hasPendingWork (rc_proto (fst s))"
proof -
  obtain t f where s: "s = (t, f)" by (cases s)
  have ev2: "\<not> isError ev2" using again(1) by (simp add: isError_def isConnected_def split: Event.splits)
  from lost obtain now where 1: "rc_state (fst s1) = RCIdle \<lparr>ep_raw = Some (fb_next f), ep_cq = Unbound, ep_eq = Unbound, ep_av = Unbound\<rparr> now"
    "rc_proto (fst s1) = rc_proto t" "fb_writes (snd s1) = fb_writes f"
    by (auto simp: s rc_consume_event_def rc_visit_eq dest!: rc_restart_Ret split: prod.splits outcome.splits)
  obtain t1 f1 where s1: "s1 = (t1, f1)" by (cases s1)
  from active 1 have 2: "rc_proto (fst s2) = rc_proto t \<and> fb_writes (snd s2) = fb_writes f
    \<and> (rc_state (fst s2) = rc_state t1 \<or> (\<exists>e. rc_state (fst s2) = RCConnecting e \<and> ep_raw e = Some (fb_next f)))"
    by (auto simp: s1 rc_activate_def rc_visit_eq net_bind steady_clock_eq ep_calls fiCall_no_effect pbind_def [of "fiCall no_effect"]
        split: if_splits)
  obtain t2 f2 where s2: "s2 = (t2, f2)" by (cases s2)
  from again 2 1 ev2 show ?thesis
    by (auto simp: s s1 s2 rc_consume_event_def rc_hasPendingWork_def split: RCState.splits if_splits)
qed

section \<open>Removing a target\<close>

lemma rc_terminate_flushing:
  "rc_state t = RCFlushing ep n \<Longrightarrow> rc_terminate (t, f) = (Ret (), (t\<lparr>rc_state := RCDone\<rparr>, snd (Endpoint_destroy ep f)))"
  by (simp add: rc_terminate_def)

lemma on_one_target:
  "ri_targets ri = [(k, t)] \<Longrightarrow> on_targets (each m) (ri, f) = (case m (t, f) of (r, (t', f')) \<Rightarrow> (r, (ri\<lparr>ri_targets := [(k, t')]\<rparr>, f')))"
  "ri_targets ri = [(k, t)] \<Longrightarrow> on_targets (at_key k m missing) (ri, f) = (case m (t, f) of (r, (t', f')) \<Rightarrow> (r, (ri\<lparr>ri_targets := [(k, t')]\<rparr>, f')))"
  by (auto simp: on_targets_def at_key_def split: prod.split outcome.split)

text \<open>
  A removed target is evicted by the first poll that finds the completion queue empty, however many
  of its writes have not completed; the count kept while flushing plays no part.
\<close>

theorem removed_target_is_not_flushed:
  assumes one: "ri_targets ri = [(k, t)]" "rc_state t = RCConnected ep"
    and removed: "RCInitiator_removeTarget info (ri, f) = (Ret (), (ri1, f1))"
    and empty: "\<forall>i. lf_cq (fb_env f) i = CqAgain" "\<forall>i. lf_eq (fb_env f) i = EqAgain"
    and "0 < fuel" and "0 < pending (rc_proto t)"
  shows "\<exists>ri2 f2. RCInitiator_makeProgress fuel (ri1, f1) = (Ret (Some False), (ri2, f2)) \<and> ri_targets ri2 = []"
proof -
  have found: "find_target (ti_id info) (ri_targets ri) = Some (k, t)"
    using removed one by (auto simp: RCInitiator_removeTarget_def find_target_def split: if_splits)
  obtain n where fuel: "fuel = Suc n" using \<open>0 < fuel\<close> by (cases fuel) auto
  from removed found one obtain t1 where sd: "rc_shutdown (t, f) = (Ret (), (t1, f1))" and ri1: "ri1 = ri\<lparr>ri_targets := [(k, t1)]\<rparr>"
    by (auto simp: RCInitiator_removeTarget_def on_one_target split: prod.splits)
  from rc_shutdown_connected [OF one(2) sd] have t1: "rc_state t1 = RCFlushing ep (pending (rc_proto t))" and f1: "f1 = ftick f" by simp_all
  define t2 f2 where "t2 = t1\<lparr>rc_state := RCDone\<rparr>" and "f2 = snd (Endpoint_destroy ep (ftick f1))"
  have act: "activateIdleEndpoints (ri1, f1) = (Ret (), (ri1, f1))"
    by (simp add: activateIdleEndpoints_def ri1 on_one_target rc_activate_def t1)
  have env: "fb_env f2 = fb_env f" by (simp add: f2_def f1)
  have fin: "on_targets (each rc_terminate) (ri1, ftick f1) = (Ret (), (ri\<lparr>ri_targets := [(k, t2)]\<rparr>, f2))"
    by (simp add: ri1 on_one_target rc_terminate_flushing [OF t1] t2_def f2_def)
  have cq: "pollCQ fuel (ri1, f1) = (Ret (Some ()), (ri\<lparr>ri_targets := [(k, t2)]\<rparr>, f2))"
    by (simp add: fuel net_bind cq_read_eq empty(1) f1 cq_handleReadResult_def pdone_eq fin [unfolded f1])
  have eq: "pollEQ fuel (ri\<lparr>ri_targets := [(k, t2)]\<rparr>, f2) = (Ret (Some ()), (ri\<lparr>ri_targets := [(k, t2)]\<rparr>, ftick f2))"
    by (simp add: fuel net_bind eq_read_eq empty(2) env eq_handleReadResult_def)
  have more: "hasTarget ri1" by (simp add: hasTarget_def ri1)
  have gone: "rc_canEvict t2" by (simp add: rc_canEvict_def t2_def)
  have "RCInitiator_makeProgress fuel (ri1, f1) = (Ret (Some False), (ri\<lparr>ri_targets := []\<rparr>, ftick f2))"
    by (simp add: RCInitiator_makeProgress_def more pbind_def [of activateIdleEndpoints] act pthen_eq cq eq evictDeadEndpoints_def
        gone RCInitiator_hasPendingWork_def)
  then show ?thesis by auto
qed

section \<open>A completion nobody waits for\<close>

text \<open>
  When a completion comes in for a target that was evicted, the non-blocking poll ignores it and
  goes on, while the blocking one uses the end of the map as if it were a target.
\<close>

theorem late_completion_crashes_blocking_progress:
  assumes "cq_handleReadResult (lf_cq (fb_env f) (fb_tick f)) = Ret (Some c)"
    and "map_of (ri_targets ri) (completion_token c) = None" and "timeout \<noteq> 0"
  shows "fst (RCInitiator_blockOnCQ fuel timeout (ri, f)) = Crash BadIterator
    \<and> pollCQ (Suc fuel) (ri, f) = pollCQ fuel (ri, ftick f)"
  using assms
  by (simp add: RCInitiator_blockOnCQ_def net_bind cq_readBlocking_def Let_def cq_read_eq pdone_eq on_targets_def at_key_def
      pbind_def [of "on_targets _"])

section \<open>Polling ends\<close>

lemma consume_completion_eq: "\<exists>t'. rc_consume_completion c (t, f) = (Ret (), (t', f))"
  by (simp add: rc_consume_completion_def handleCompletionData_def own_def)

lemma rc_terminate_eq:
  "\<exists>f'. rc_terminate (t, f) = (Ret (), (if \<exists>ep n. rc_state t = RCFlushing ep n then t\<lparr>rc_state := RCDone\<rparr> else t, f'))"
  by (cases "rc_state t") (auto simp: rc_terminate_def)

definition flushing :: "RCInitiatorEndpoint \<Rightarrow> bool" where
  "flushing t = (case rc_state t of RCFlushing _ _ \<Rightarrow> True | _ \<Rightarrow> False)"

lemma each_terminate:
  "\<exists>ts' f'. each rc_terminate (ts, f) = (Ret (), (ts', f')) \<and> (\<forall>(k, t) \<in> set ts'. \<not> flushing t)"
proof (induction ts arbitrary: f)
  case (Cons kt ts)
  obtain k t where kt: "kt = (k, t)" by (cases kt)
  obtain f1 where 1: "rc_terminate (t, f) = (Ret (), (if \<exists>ep n. rc_state t = RCFlushing ep n then t\<lparr>rc_state := RCDone\<rparr> else t, f1))"
    using rc_terminate_eq by blast
  obtain ts' f' where "each rc_terminate (ts, f1) = (Ret (), (ts', f'))" "\<forall>(k, t) \<in> set ts'. \<not> flushing t"
    using Cons.IH [of f1] by blast
  then show ?case by (auto simp: kt 1 flushing_def split: RCState.split)
qed simp

lemma pollCQ_empty:
  assumes "lf_cq (fb_env f) (fb_tick f) = CqAgain" and "0 < fuel"
  shows "\<exists>ri' f'. pollCQ fuel (ri, f) = (Ret (Some ()), (ri', f')) \<and> (\<forall>(k, t) \<in> set (ri_targets ri'). \<not> flushing t)"
proof -
  obtain m where "fuel = Suc m" using assms(2) by (cases fuel) auto
  moreover obtain ts' f' where "each rc_terminate (ri_targets ri, ftick f) = (Ret (), (ts', f'))" "\<forall>(k, t) \<in> set ts'. \<not> flushing t"
    using each_terminate by blast
  ultimately show ?thesis using assms(1) by (auto simp: net_bind cq_read_eq cq_handleReadResult_def pdone_eq on_targets_def)
qed

text \<open>
  C30: Polling the completion queue ends with the first empty answer, if the reads before it do not
  fail, and leaves no target flushing.
\<close>

theorem poll_ends_with_empty_queue:
  assumes "lf_cq (fb_env f) (fb_tick f + n) = CqAgain"
    and "\<forall>m < n. \<forall>e. lf_cq (fb_env f) (fb_tick f + m) \<noteq> CqFailed e" and "n < fuel"
  shows "\<exists>ri' f'. pollCQ fuel (ri, f) = (Ret (Some ()), (ri', f')) \<and> (\<forall>(k, t) \<in> set (ri_targets ri'). \<not> flushing t)"
  using assms
proof (induction n arbitrary: fuel ri f)
  case 0
  then show ?case using pollCQ_empty by simp
next
  case (Suc n)
  then obtain m where fuel: "fuel = Suc m" by (cases fuel) auto
  have "lf_cq (fb_env f) (Suc (fb_tick f + i)) \<noteq> CqFailed e" if "i < n" for i e
    using Suc.prems(2) [rule_format, of "Suc i"] that by simp
  then have IH: "\<exists>ri' f'. pollCQ m (ri1, ftick f) = (Ret (Some ()), (ri', f')) \<and> (\<forall>(k, t) \<in> set (ri_targets ri'). \<not> flushing t)" for ri1
    using Suc.IH [of "ftick f" m ri1] Suc.prems fuel by simp
  have step: "\<exists>ri1. on_targets (at_key k (rc_consume_completion c) (pret ())) (ri, ftick f) = (Ret (), (ri1, ftick f))" for k c
  proof (cases "map_of (ri_targets ri) k")
    case (Some t)
    obtain t' where "rc_consume_completion c (t, ftick f) = (Ret (), (t', ftick f))" using consume_completion_eq by blast
    then show ?thesis by (simp add: on_targets_def at_key_def Some)
  qed (simp add: on_targets_def at_key_def)
  show ?case
  proof (cases "lf_cq (fb_env f) (fb_tick f) = CqAgain")
    case True
    then show ?thesis using pollCQ_empty Suc.prems(3) by simp
  next
    case False
    then obtain c where "cq_handleReadResult (lf_cq (fb_env f) (fb_tick f)) = Ret (Some c)"
      using Suc.prems(2) by (fastforce simp: cq_handleReadResult_def split: cq_read.split)
    then have "\<exists>ri1. pollCQ fuel (ri, f) = pollCQ m (ri1, ftick f)"
      using step [of "completion_token c" c] by (auto simp: fuel net_bind cq_read_eq pbind_def [of "on_targets _"])
    then show ?thesis using IH by metis
  qed
qed

section \<open>Examples\<close>

definition ex_rc :: "RCState \<Rightarrow> RCInitiatorEndpoint" where
  "ex_rc st = \<lparr>rc_state = st, rc_info = ex_target_info, rc_proto = RMAGrainEgress (ex_grain_egress\<lparr>ge_pending := 1\<rparr>)\<rparr>"

definition ex_ri :: "RCInitiatorEndpoint targets \<Rightarrow> RCInitiator" where
  "ex_ri ts = \<lparr>ri_fabric = 20, ri_domain = 21, ri_cq = 10, ri_eq = 11, ri_proto = GrainTemplate [4, 0, 0, 0] [] None, ri_targets = ts\<rparr>"

text \<open>A network whose clock advances by ten seconds with every call, and one with two completions.\<close>

definition ex_slow_fabric :: fabric where
  "ex_slow_fabric = (ex_fabric 99)\<lparr>fb_env := (ex_libfabric 99)\<lparr>lf_clock := (\<lambda>t. int t * 10000000000)\<rparr>\<rparr>"

definition ex_completing_fabric :: fabric where
  "ex_completing_fabric = (ex_fabric 99)\<lparr>fb_env := (ex_libfabric 99)\<lparr>lf_cq :=
     (\<lambda>t. if t < 2 then CqEntry \<lparr>cqe_token = 7, cqe_remote_cq_data = False, cqe_data = 0\<rparr> else CqAgain)\<rparr>\<rparr>"

text \<open>A connected target is shut down and then asked to transfer a grain; another one loses its peer.\<close>

lemma closed_target_never_writes_witness:
  "fb_writes (snd (snd (rc_transferGrain 5 5 8192 \<lparr>sr_start = 0, sr_end = 2\<rparr>
      (snd (rc_shutdown (ex_rc (RCConnected ex_endpoint), ex_fabric 9)))))) = []
   \<and> fb_writes (snd (snd (rc_transferGrain 5 5 8192 \<lparr>sr_start = 0, sr_end = 2\<rparr>
      (snd (rc_consume_event (ShutdownEvent 0) (ex_rc (RCConnected ex_endpoint), ex_fabric 9)))))) = []"
proof -
  let ?s = "(ex_rc (RCConnected ex_endpoint), ex_fabric 9)" and ?run = "rc_transferGrain 5 5 8192 \<lparr>sr_start = 0, sr_end = 2\<rparr>"
  have run: "rc_step\<^sup>*\<^sup>* s1 (snd (?run s1))" for s1 by (rule r_into_rtranclp, rule rc_step.grain [OF prod.collapse [symmetric]])
  have shut: "rc_shutdown ?s = (Ret (), snd (rc_shutdown ?s))" by (rule outcome_of, code_simp)
  have peer: "rc_state (fst ?s) = RCConnected ex_endpoint" "isShutdown (ShutdownEvent 0)" by code_simp+
  have ended: "\<exists>ep ev r. rc_state (fst ?s) = RCConnected ep \<and> isShutdown ev
      \<and> rc_consume_event ev ?s = (r, snd (rc_consume_event (ShutdownEvent 0) ?s))"
    by (intro exI conjI, rule peer(1), rule peer(2), rule prod.collapse [symmetric])
  show ?thesis
    using closed_target_never_writes [OF disjI1 [OF shut] run] closed_target_never_writes [OF disjI2 [OF ended] run]
    by (simp add: ex_fabric_def)
qed

lemma failed_activation_is_fatal_witness:
  "fst (rc_activate 10 11 (snd (rc_activate 10 11 (ex_rc (RCIdle ex_endpoint (- 5000000000)), ex_fabric 1)))) = Crash NullDereference"
proof -
  let ?s = "(ex_rc (RCIdle ex_endpoint (- 5000000000)), ex_fabric 1)"
  have "fst (rc_activate 10 11 ?s) = Throw (StatusException MXL_ERR_UNKNOWN)" by code_simp
  then have "rc_activate 10 11 ?s = (Throw (StatusException MXL_ERR_UNKNOWN), snd (rc_activate 10 11 ?s))" by (simp add: prod_eq_iff)
  then show ?thesis by (rule failed_activation_is_fatal) (simp add: ex_fabric_def ex_libfabric_def mono_def)
qed

lemma reconnected_target_keeps_count_witness:
  "case rc_consume_event (ErrorEvent 0) (ex_rc (RCConnected ex_endpoint), ex_slow_fabric) of (_, s1) \<Rightarrow>
   case rc_activate 10 11 s1 of (_, s2) \<Rightarrow>
   case rc_consume_event (ConnectedEvent 1) s2 of (_, s3) \<Rightarrow> rc_hasPendingWork (fst s3) \<and> fb_writes (snd s3) = []"
proof -
  let ?s = "(ex_rc (RCConnected ex_endpoint), ex_slow_fabric)"
  let ?s1 = "snd (rc_consume_event (ErrorEvent 0) ?s)"
  let ?s2 = "snd (rc_activate 10 11 ?s1)"
  let ?s3 = "snd (rc_consume_event (ConnectedEvent 1) ?s2)"
  have 1: "rc_consume_event (ErrorEvent 0) ?s = (Ret (), ?s1)"
    by (rule outcome_of, code_simp)
  have 2: "rc_activate 10 11 ?s1 = (Ret (), ?s2)"
    by (rule outcome_of, code_simp)
  have 3: "rc_consume_event (ConnectedEvent 1) ?s2 = (Ret (), ?s3)"
    by (rule outcome_of, code_simp)
  have 4: "rc_state (fst ?s3) = RCConnected \<lparr>ep_raw = Some 1, ep_cq = Bound 10, ep_eq = Bound 11, ep_av = Unbound\<rparr>" by code_simp
  have "proto_hasPendingWork (rc_proto (fst ?s))" "fb_writes (snd ?s) = []" by code_simp+
  with reconnected_target_keeps_count [OF _ _ 1 2 _ 3 4, of ex_endpoint] have "rc_hasPendingWork (fst ?s3)" "fb_writes (snd ?s3) = []"
    by (auto simp: ex_rc_def isError_def isConnected_def)
  then show ?thesis by (simp add: case_prod_beta)
qed

lemma removed_target_is_not_flushed_witness:
  "case RCInitiator_removeTarget ex_target_info (ex_ri [(7, ex_rc (RCConnected ex_endpoint))], ex_fabric 9) of (_, (ri1, f1)) \<Rightarrow>
     \<exists>ri2 f2. RCInitiator_makeProgress 1 (ri1, f1) = (Ret (Some False), (ri2, f2)) \<and> ri_targets ri2 = []"
proof -
  let ?s = "(ex_ri [(7, ex_rc (RCConnected ex_endpoint))], ex_fabric 9)"
  let ?s1 = "snd (RCInitiator_removeTarget ex_target_info ?s)"
  have "fst (RCInitiator_removeTarget ex_target_info ?s) = Ret ()" by code_simp
  then have "RCInitiator_removeTarget ex_target_info ?s = (Ret (), (fst ?s1, snd ?s1))" by (simp add: prod_eq_iff)
  then have "\<exists>ri2 f2. RCInitiator_makeProgress 1 (fst ?s1, snd ?s1) = (Ret (Some False), (ri2, f2)) \<and> ri_targets ri2 = []"
    by (rule removed_target_is_not_flushed [of _ 7 "ex_rc (RCConnected ex_endpoint)" ex_endpoint, rotated 2])
      (simp_all add: ex_ri_def ex_rc_def ex_fabric_def ex_libfabric_def pending_def)
  then show ?thesis by (simp add: case_prod_beta)
qed

lemma late_completion_crashes_blocking_progress_witness:
  "fst (RCInitiator_blockOnCQ 1 5000000 (ex_ri [], ex_completing_fabric)) = Crash BadIterator"
  using late_completion_crashes_blocking_progress [of ex_completing_fabric "CompletionData \<lparr>cqe_token = 7, cqe_remote_cq_data = False, cqe_data = 0\<rparr>"
      "ex_ri []" 5000000 1]
  by (simp add: ex_completing_fabric_def ex_fabric_def cq_handleReadResult_def ex_ri_def)

lemma poll_ends_with_empty_queue_witness:
  "\<exists>ri' f'. pollCQ 3 (ex_ri [(7, ex_rc (RCConnected ex_endpoint))], ex_completing_fabric) = (Ret (Some ()), (ri', f'))"
  using poll_ends_with_empty_queue [of ex_completing_fabric 2 3 "ex_ri [(7, ex_rc (RCConnected ex_endpoint))]"]
  by (auto simp: ex_completing_fabric_def ex_fabric_def)

end
