(* ===== verification/RdmInitiator.thy ===== *)
theory RdmInitiator
  imports RcInitiator
begin

text \<open>
  The connectionless initiator (\<open>RDMInitiator.cpp\<close>): its targets share one endpoint and are told apart by
  a random token; a target is active once its address is in the address vector. The lemmas show that the
  count of a target's pending writes is the number posted less the number completed, that the map from
  target ids to tokens and the map of the targets stay in step, and what that means for its operations.
\<close>

section \<open>One target\<close>

datatype RDMState =
    RDMIdle
  | RDMActivated u64
  | RDMDone

record RDMInitiatorTarget =
  rd_state :: RDMState
  rd_proto :: EgressProtocol
  rd_info :: TargetInfo

type_synonym 'a rd_prog = "(RDMInitiatorTarget \<times> fabric, 'a) prog"

definition RDMInitiatorTarget_new :: "EgressProtocol \<Rightarrow> TargetInfo \<Rightarrow> RDMInitiatorTarget" where
  "RDMInitiatorTarget_new proto info = \<lparr>rd_state = RDMIdle, rd_proto = proto, rd_info = info\<rparr>"

definition rd_isIdle :: "RDMInitiatorTarget \<Rightarrow> bool" where
  "rd_isIdle t = (case rd_state t of RDMIdle \<Rightarrow> True | _ \<Rightarrow> False)"

definition rd_goto :: "RDMState \<Rightarrow> unit rd_prog" where
  "rd_goto st = own (pmodify (\<lambda>t. t\<lparr>rd_state := st\<rparr>))"

definition rd_activate :: "Endpoint \<Rightarrow> unit rd_prog" where
  "rd_activate ep =
     pbind pget (\<lambda>(t, _).
       case rd_state t of
         RDMIdle \<Rightarrow>
           pbind (plift (slot_queue (ep_av ep))) (\<lambda>_.
           pbind (net (av_insert (ti_address (rd_info t)))) (\<lambda>fiAddr. rd_goto (RDMActivated fiAddr)))
       | RDMActivated _ \<Rightarrow> pret ()
       | RDMDone \<Rightarrow> pthrow (StatusException MXL_ERR_INVALID_STATE))"

definition rd_shutdown :: "Endpoint \<Rightarrow> unit rd_prog" where
  "rd_shutdown ep =
     pbind pget (\<lambda>(t, _).
       case rd_state t of
         RDMIdle \<Rightarrow> rd_goto RDMDone
       | RDMActivated fiAddr \<Rightarrow>
           pbind (plift (slot_queue (ep_av ep))) (\<lambda>_.
           pbind (net (av_remove fiAddr)) (\<lambda>_. rd_goto RDMDone))
       | RDMDone \<Rightarrow> pret ())"

definition rd_with_proto :: "(EgressProtocol \<times> fabric, unit) prog \<Rightarrow> unit rd_prog" where
  "rd_with_proto m s = (case m (rd_proto (fst s), snd s) of (r, (p, f)) \<Rightarrow> (r, ((fst s)\<lparr>rd_proto := p\<rparr>, f)))"

definition rd_transferGrain :: "Endpoint \<Rightarrow> u64 \<Rightarrow> u64 \<Rightarrow> u64 \<Rightarrow> SliceRange \<Rightarrow> unit rd_prog" where
  "rd_transferGrain ep localIndex remoteIndex remotePayloadOffset sliceRange =
     pbind pget (\<lambda>(t, _).
       case rd_state t of
         RDMActivated fiAddr \<Rightarrow> rd_with_proto (proto_transferGrain ep localIndex remoteIndex (ucast remotePayloadOffset) sliceRange fiAddr)
       | _ \<Rightarrow> pret ())"

definition rd_transferSamples :: "Endpoint \<Rightarrow> u64 \<Rightarrow> u64 \<Rightarrow> unit rd_prog" where
  "rd_transferSamples ep head count =
     pbind pget (\<lambda>(t, _).
       case rd_state t of
         RDMActivated fiAddr \<Rightarrow> rd_with_proto (proto_transferSamples ep head count fiAddr)
       | _ \<Rightarrow> pret ())"

definition rd_hasPendingWork :: "RDMInitiatorTarget \<Rightarrow> bool" where
  "rd_hasPendingWork t =
     (case rd_state t of RDMIdle \<Rightarrow> True | RDMActivated _ \<Rightarrow> proto_hasPendingWork (rd_proto t) | RDMDone \<Rightarrow> False)"

definition rd_handleCompletion :: "Completion \<Rightarrow> unit rd_prog" where
  "rd_handleCompletion c =
     (if isErrEntry c then pret ()
      else pbind pget (\<lambda>(t, _).
        case rd_state t of
          RDMIdle \<Rightarrow> pret ()
        | RDMActivated _ \<Rightarrow> pbind (plift (get_data c)) (\<lambda>_. own (pmodify (\<lambda>t. t\<lparr>rd_proto := proto_processCompletion (rd_proto t)\<rparr>)))
        | RDMDone \<Rightarrow> pret ()))"

section \<open>The initiator\<close>

record RDMInitiator =
  rdi_fabric :: fid
  rdi_domain :: fid
  rdi_endpoint :: Endpoint
  rdi_proto :: EgressTemplate
  rdi_targets :: "RDMInitiatorTarget targets"
  rdi_remotes :: "u64 targets"

type_synonym 'a rdi_prog = "(RDMInitiator \<times> fabric, 'a) prog"

definition RDMInitiator_setup :: "mxlFabricsInitiatorConfig \<Rightarrow> RDMInitiator fab" where
  "RDMInitiator_setup cfg =
     pbind (open_domain (StatusException MXL_ERR_NO_FABRIC) (ic_provider cfg)) (\<lambda>(fabric, domain).
     punwind
       (pbind open_rdm_endpoint (\<lambda>ep.
        punwind
          (pbind (make_template (ic_reader cfg)) (\<lambda>proto.
             pret \<lparr>rdi_fabric = fabric, rdi_domain = domain, rdi_endpoint = ep, rdi_proto = proto, rdi_targets = [], rdi_remotes = []\<rparr>))
          (Endpoint_release ep)))
       (close_domain (fabric, domain)))"

definition on_rdm_targets :: "(RDMInitiatorTarget targets \<times> fabric, 'a) prog \<Rightarrow> 'a rdi_prog" where
  "on_rdm_targets m s = (case m (rdi_targets (fst s), snd s) of (r, (ts, f)) \<Rightarrow> (r, ((fst s)\<lparr>rdi_targets := ts\<rparr>, f)))"

definition RDMInitiator_addTarget :: "TargetInfo \<Rightarrow> unit rdi_prog" where
  "RDMInitiator_addTarget targetInfo =
     pbind pget (\<lambda>(ri, _).
       if map_of (rdi_remotes ri) (ti_id targetInfo) \<noteq> None then pthrow (StatusException MXL_ERR_EXISTS)
       else
         pbind (net random_device) (\<lambda>token.
         pbind (plift (template_createInstance (rdi_proto ri) token targetInfo)) (\<lambda>proto.
         pbind (net (with_local proto proto_registerMemory)) (\<lambda>proto.
           own (pmodify (\<lambda>ri. ri\<lparr>rdi_remotes := emplace (ti_id targetInfo) token (rdi_remotes ri),
                                  rdi_targets := emplace token (RDMInitiatorTarget_new proto targetInfo) (rdi_targets ri)\<rparr>))))))"

definition findRemoteByToken :: "u64 \<Rightarrow> RDMInitiator \<Rightarrow> RDMInitiatorTarget outcome" where
  "findRemoteByToken token ri =
     (case map_of (rdi_targets ri) token of None \<Rightarrow> Throw (StatusException MXL_ERR_NOT_FOUND) | Some t \<Rightarrow> Ret t)"

definition findRemoteByEndpoint :: "u64 \<Rightarrow> RDMInitiator \<Rightarrow> (u64 \<times> RDMInitiatorTarget) outcome" where
  "findRemoteByEndpoint tid ri =
     (case map_of (rdi_remotes ri) tid of
        None \<Rightarrow> Throw (StatusException MXL_ERR_NOT_FOUND)
      | Some token \<Rightarrow> obind (findRemoteByToken token ri) (\<lambda>t. Ret (token, t)))"

definition at_remote :: "u64 \<Rightarrow> (Endpoint \<Rightarrow> unit rd_prog) \<Rightarrow> unit rdi_prog" where
  "at_remote tid m =
     pbind pget (\<lambda>(ri, _).
     pbind (plift (findRemoteByEndpoint tid ri)) (\<lambda>(token, _).
       on_rdm_targets (at_key token (m (rdi_endpoint ri)) (pret ()))))"

definition erase :: "u64 \<Rightarrow> 't targets \<Rightarrow> 't targets" where
  "erase k ts = filter (\<lambda>(k', _). k' \<noteq> k) ts"

definition RDMInitiator_removeTarget :: "TargetInfo \<Rightarrow> unit rdi_prog" where
  "RDMInitiator_removeTarget targetInfo =
     pbind (at_remote (ti_id targetInfo) rd_shutdown) (\<lambda>_.
       own (pmodify (\<lambda>ri.
         case map_of (rdi_remotes ri) (ti_id targetInfo) of
           None \<Rightarrow> ri
         | Some token \<Rightarrow> ri\<lparr>rdi_remotes := erase (ti_id targetInfo) (rdi_remotes ri), rdi_targets := erase token (rdi_targets ri)\<rparr>)))"

text \<open>Shutting the initiator down does nothing.\<close>

definition RDMInitiator_shutdown :: "unit rdi_prog" where
  "RDMInitiator_shutdown = pret ()"

definition RDMInitiator_transferGrain :: "u64 \<Rightarrow> u16 \<Rightarrow> u16 \<Rightarrow> unit rdi_prog" where
  "RDMInitiator_transferGrain grainIndex startSlice endSlice =
     pbind pget (\<lambda>(ri, _).
       on_rdm_targets (each
         (pbind (plift (SliceRange_make startSlice endSlice)) (\<lambda>r.
            rd_transferGrain (rdi_endpoint ri) grainIndex grainIndex (of_nat MXL_GRAIN_PAYLOAD_OFFSET) r))))"

definition RDMInitiator_transferGrainToTarget :: "u64 \<Rightarrow> u64 \<Rightarrow> u64 \<Rightarrow> u64 \<Rightarrow> u16 \<Rightarrow> u16 \<Rightarrow> unit rdi_prog" where
  "RDMInitiator_transferGrainToTarget targetId localIndex remoteIndex payloadOffset startSlice endSlice =
     at_remote targetId (\<lambda>ep.
       pbind (plift (SliceRange_make startSlice endSlice)) (\<lambda>r. rd_transferGrain ep localIndex remoteIndex payloadOffset r))"

definition RDMInitiator_transferSamples :: "u64 \<Rightarrow> u64 \<Rightarrow> unit rdi_prog" where
  "RDMInitiator_transferSamples head count =
     pbind pget (\<lambda>(ri, _). on_rdm_targets (each (rd_transferSamples (rdi_endpoint ri) head count)))"

definition RDMInitiator_hasPendingWork :: "RDMInitiator \<Rightarrow> bool" where
  "RDMInitiator_hasPendingWork ri \<longleftrightarrow> (\<exists>(_, t) \<in> set (rdi_targets ri). rd_hasPendingWork t)"

text \<open>A completion of an unknown target is dropped; a poll processes one completion.\<close>

definition RDMInitiator_processCompletion :: "Completion \<Rightarrow> unit rdi_prog" where
  "RDMInitiator_processCompletion c = on_rdm_targets (at_key (completion_token c) (rd_handleCompletion c) (pret ()))"

definition process_if_any :: "Completion option \<Rightarrow> unit rdi_prog" where
  "process_if_any completion = (case completion of None \<Rightarrow> pret () | Some c \<Rightarrow> RDMInitiator_processCompletion c)"

definition RDMInitiator_pollCQ :: "unit rdi_prog" where
  "RDMInitiator_pollCQ =
     pbind pget (\<lambda>(ri, _).
     pbind (plift (slot_queue (ep_cq (rdi_endpoint ri)))) (\<lambda>_.
     pbind (net cq_read) process_if_any))"

definition RDMInitiator_blockOnCQ :: "int \<Rightarrow> unit rdi_prog" where
  "RDMInitiator_blockOnCQ timeout =
     (if timeout = 0 then RDMInitiator_pollCQ
      else
        pbind pget (\<lambda>(ri, _).
        pbind (plift (slot_queue (ep_cq (rdi_endpoint ri)))) (\<lambda>_.
        pbind (net (cq_readBlocking timeout)) process_if_any)))"

definition RDMInitiator_activateIdleEndpoints :: "unit rdi_prog" where
  "RDMInitiator_activateIdleEndpoints = pbind pget (\<lambda>(ri, _). on_rdm_targets (each (rd_activate (rdi_endpoint ri))))"

definition RDMInitiator_makeProgress :: "bool rdi_prog" where
  "RDMInitiator_makeProgress =
     pbind RDMInitiator_activateIdleEndpoints (\<lambda>_.
     pbind RDMInitiator_pollCQ (\<lambda>_.
     pbind pget (\<lambda>(ri, _). pret (RDMInitiator_hasPendingWork ri))))"

definition RDMInitiator_makeProgressBlocking :: "int \<Rightarrow> bool rdi_prog" where
  "RDMInitiator_makeProgressBlocking timeout =
     pbind (net steady_clock) (\<lambda>now.
     pbind RDMInitiator_activateIdleEndpoints (\<lambda>_.
     pbind (net steady_clock) (\<lambda>later.
       let remaining = timeout - (later - now) in
       pbind (if remaining \<ge> 0 then RDMInitiator_blockOnCQ remaining else RDMInitiator_pollCQ) (\<lambda>_.
       pbind pget (\<lambda>(ri, _). pret (RDMInitiator_hasPendingWork ri))))))"

definition RDMInitiator_destroy :: "RDMInitiator \<Rightarrow> unit fab" where
  "RDMInitiator_destroy ri =
     pbind (Endpoint_release (rdi_endpoint ri)) (\<lambda>_. close_domain (rdi_fabric ri, rdi_domain ri))"

section \<open>The count of pending writes\<close>

text \<open>
  A run of one target: activations, transfers that return, and completions, of which those with data
  that find the target active are counted.
\<close>

inductive rd_run :: "Endpoint \<Rightarrow> RDMInitiatorTarget \<times> fabric \<Rightarrow> nat \<Rightarrow> RDMInitiatorTarget \<times> fabric \<Rightarrow> bool" for ep s0 where
  start: "rd_run ep s0 0 s0"
| activate: "rd_run ep s0 n s \<Longrightarrow> rd_activate ep s = (r, s') \<Longrightarrow> rd_run ep s0 n s'"
| grain: "rd_run ep s0 n s \<Longrightarrow> rd_transferGrain ep l k off sr s = (Ret (), s') \<Longrightarrow> rd_run ep s0 n s'"
| samples: "rd_run ep s0 n s \<Longrightarrow> rd_transferSamples ep h c s = (Ret (), s') \<Longrightarrow> rd_run ep s0 n s'"
| completion: "rd_run ep s0 n s \<Longrightarrow> rd_handleCompletion c s = (r, s') \<Longrightarrow>
    rd_run ep s0 (if \<not> isErrEntry c \<and> (\<exists>a. rd_state (fst s) = RDMActivated a) then Suc n else n) s'"

lemma rd_activate_keeps: "rd_activate ep (t, f) = (r, (t', f')) \<Longrightarrow> rd_proto t' = rd_proto t \<and> fb_writes f' = fb_writes f"
  by (auto simp: rd_activate_def rd_goto_def av_insert_def net_bind pbind_def [of "plift _"] own_def Let_def
      split: RDMState.splits outcome.splits if_splits)

lemma rd_handleCompletion_effect:
  "rd_handleCompletion c (t, f) = (r, (t', f')) \<Longrightarrow> f' = f \<and> rd_state t' = rd_state t
    \<and> rd_proto t' = (if \<not> isErrEntry c \<and> (\<exists>a. rd_state t = RDMActivated a) then proto_processCompletion (rd_proto t) else rd_proto t)"
  by (auto simp: rd_handleCompletion_def isErrEntry_def get_data_def tryData_def pbind_def [of "plift _"] own_def
      split: RDMState.splits if_splits Completion.splits)

lemma rd_transferGrain_counts:
  "rd_transferGrain ep l k off sr (t, f) = (Ret (), (t', f')) \<Longrightarrow>
     \<exists>ws. fb_writes f' = fb_writes f @ ws \<and> pending (rd_proto t') = pending (rd_proto t) + of_nat (length ws)"
  by (auto simp: rd_transferGrain_def rd_with_proto_def dest!: transferGrain_counts_writes split: RDMState.splits prod.splits)

lemma rd_transferSamples_counts:
  "rd_transferSamples ep h c (t, f) = (Ret (), (t', f')) \<Longrightarrow>
     \<exists>ws. fb_writes f' = fb_writes f @ ws \<and> pending (rd_proto t') = pending (rd_proto t) + of_nat (length ws)"
  by (auto simp: rd_transferSamples_def rd_with_proto_def dest!: transferSamples_counts_writes split: RDMState.splits prod.splits)

lemma rd_run_counts:
  "rd_run ep s0 n s \<Longrightarrow> \<exists>ws. fb_writes (snd s) = fb_writes (snd s0) @ ws
     \<and> pending (rd_proto (fst s)) + of_nat n = pending (rd_proto (fst s0)) + of_nat (length ws)"
proof (induction rule: rd_run.induct)
  case (activate n s r s')
  then show ?case by (cases s; cases s') (auto dest!: rd_activate_keeps)
next
  case (grain n s l k off sr s')
  then show ?case by (cases s; cases s') (fastforce dest!: rd_transferGrain_counts simp: algebra_simps)
next
  case (samples n s h c s')
  then show ?case by (cases s; cases s') (fastforce dest!: rd_transferSamples_counts simp: algebra_simps)
next
  case (completion n s c r s')
  then show ?case by (cases s; cases s') (auto dest!: rd_handleCompletion_effect simp: proto_processCompletion_def algebra_simps)
qed simp

lemma small_of_nat_zero: "m < 2 ^ 64 \<Longrightarrow> (of_nat m :: u64) = 0 \<longleftrightarrow> m = 0"
  by (auto simp: word_of_nat_eq_0_iff dest: dvd_imp_le)

text \<open>
  C31: On a run of a target that started with nothing pending and whose transfers all returned, the
  target has work pending exactly when fewer of its writes were completed than were posted.
\<close>

theorem pending_work_is_incomplete_writes:
  assumes run: "rd_run ep (t, f) n (t', f')" and "pending (rd_proto t) = 0"
    and active: "rd_state t' = RDMActivated fiAddr"
    and posted: "n \<le> length (fb_writes f') - length (fb_writes f)" "length (fb_writes f') - length (fb_writes f) < 2 ^ 64"
  shows "rd_hasPendingWork t' \<longleftrightarrow> n < length (fb_writes f') - length (fb_writes f)"
proof -
  obtain ws where ws: "fb_writes f' = fb_writes f @ ws" and count: "pending (rd_proto t') + of_nat n = of_nat (length ws)"
    using rd_run_counts [OF run] assms(2) by auto
  have "pending (rd_proto t') = of_nat (length ws - n)"
    using posted(1) count by (simp add: ws of_nat_diff algebra_simps)
  moreover have "of_nat (length ws - n) = (0 :: u64) \<longleftrightarrow> length ws - n = 0"
    using posted(2) by (intro small_of_nat_zero) (simp add: ws)
  ultimately have "pending (rd_proto t') = 0 \<longleftrightarrow> length ws - n = 0" by simp
  then show ?thesis by (auto simp: rd_hasPendingWork_def active proto_hasPendingWork_def word_gt_0 ws)
qed

section \<open>Ids and tokens\<close>

definition keeps_keys :: "'a rdi_prog \<Rightarrow> bool" where
  "keeps_keys m \<longleftrightarrow> (\<forall>ri f r ri' f'. m (ri, f) = (r, (ri', f')) \<longrightarrow>
     map fst (rdi_targets ri') = map fst (rdi_targets ri) \<and> rdi_remotes ri' = rdi_remotes ri)"

lemma keeps_keys_intros [intro]:
  "keeps_keys (pret a)" "keeps_keys (plift x)" "keeps_keys pget" "keeps_keys (pthrow e)" "keeps_keys (net fm)"
  "keeps_keys (on_rdm_targets (each m))" "keeps_keys (on_rdm_targets (at_key k m' (pret b)))"
  by (auto simp: keeps_keys_def on_rdm_targets_def at_key_def net_outcome dest: keys_each split: prod.splits option.splits)

lemma keeps_keys_bind [intro]: "keeps_keys m \<Longrightarrow> (\<And>a. keeps_keys (g a)) \<Longrightarrow> keeps_keys (pbind m g)"
  unfolding keeps_keys_def by (fastforce elim!: pbind_cases)

lemma keeps_keys_if [intro]: "keeps_keys m \<Longrightarrow> keeps_keys m' \<Longrightarrow> keeps_keys (if b then m else m')"
  by simp

lemma keeps_keys_split [intro]: "(\<And>a b. keeps_keys (g a b)) \<Longrightarrow> keeps_keys (case x of (a, b) \<Rightarrow> g a b)"
  by (simp split: prod.split)

lemma keeps_keys_process [intro]: "keeps_keys (process_if_any c)"
  by (auto simp: process_if_any_def RDMInitiator_processCompletion_def split: option.split)

lemma operations_keep_keys:
  "keeps_keys (at_remote tid m)" "keeps_keys (RDMInitiator_transferGrain i a b)" "keeps_keys (RDMInitiator_transferGrainToTarget tid l k off a b)"
  "keeps_keys (RDMInitiator_transferSamples h n)" "keeps_keys RDMInitiator_makeProgress" "keeps_keys (RDMInitiator_makeProgressBlocking timeout)"
  unfolding RDMInitiator_transferGrain_def RDMInitiator_transferGrainToTarget_def RDMInitiator_transferSamples_def RDMInitiator_makeProgress_def
    RDMInitiator_makeProgressBlocking_def RDMInitiator_activateIdleEndpoints_def RDMInitiator_pollCQ_def RDMInitiator_blockOnCQ_def Let_def at_remote_def
  by (intro keeps_keys_intros keeps_keys_bind keeps_keys_if keeps_keys_split keeps_keys_process)+

text \<open>Everything a client does to an initiator; a new token is one no target has yet.\<close>

inductive rdi_step :: "RDMInitiator \<times> fabric \<Rightarrow> RDMInitiator \<times> fabric \<Rightarrow> bool" where
  add: "RDMInitiator_addTarget info (ri, f) = (r, s') \<Longrightarrow> map_of (rdi_targets ri) (lf_random (fb_env f) (fb_tick f)) = None \<Longrightarrow> rdi_step (ri, f) s'"
| remove: "RDMInitiator_removeTarget info s = (r, s') \<Longrightarrow> rdi_step s s'"
| transferGrain: "RDMInitiator_transferGrain i a b s = (r, s') \<Longrightarrow> rdi_step s s'"
| transferGrainToTarget: "RDMInitiator_transferGrainToTarget tid l k off a b s = (r, s') \<Longrightarrow> rdi_step s s'"
| transferSamples: "RDMInitiator_transferSamples h n s = (r, s') \<Longrightarrow> rdi_step s s'"
| makeProgress: "RDMInitiator_makeProgress s = (p, s') \<Longrightarrow> rdi_step s s'"
| makeProgressBlocking: "RDMInitiator_makeProgressBlocking timeout s = (p, s') \<Longrightarrow> rdi_step s s'"

definition in_step :: "RDMInitiator \<Rightarrow> bool" where
  "in_step ri \<longleftrightarrow> sorted (map fst (rdi_targets ri)) \<and> sorted (map fst (rdi_remotes ri))
     \<and> (\<forall>i token. map_of (rdi_remotes ri) i = Some token \<longrightarrow> token \<in> set (map fst (rdi_targets ri)))
     \<and> (\<forall>i j token. map_of (rdi_remotes ri) i = Some token \<and> map_of (rdi_remotes ri) j = Some token \<longrightarrow> i = j)"

lemma in_step_keeps: "keeps_keys m \<Longrightarrow> m (ri, f) = (r, (ri', f')) \<Longrightarrow> in_step ri \<Longrightarrow> in_step ri'"
  unfolding keeps_keys_def by (drule spec, drule spec, drule spec, drule spec, drule spec, drule mp, assumption) (simp add: in_step_def del: set_map)

lemma map_of_erase: "map_of (erase k ts) j = (if j = k then None else map_of ts j)"
  by (induction ts) (auto simp: erase_def)

lemma sorted_erase: "sorted (map fst ts) \<Longrightarrow> sorted (map fst (erase k ts))"
  by (induction ts) (auto simp: erase_def)

lemma keys_erase: "set (map fst (erase k ts)) = set (map fst ts) - {k}"
  by (auto simp: erase_def)

lemma keys_emplace: "set (map fst (emplace k t ts)) = insert k (set (map fst ts))"
  by (induction k t ts rule: emplace.induct) auto

lemma in_step_add:
  assumes "RDMInitiator_addTarget info (ri, f) = (r, (ri', f'))" and "map_of (rdi_targets ri) (lf_random (fb_env f) (fb_tick f)) = None"
    and "in_step ri"
  shows "in_step ri'"
proof (cases "r = Ret ()")
  case True
  then obtain p where "map_of (rdi_remotes ri) (ti_id info) = None"
    and "ri' = ri\<lparr>rdi_remotes := emplace (ti_id info) (lf_random (fb_env f) (fb_tick f)) (rdi_remotes ri),
      rdi_targets := emplace (lf_random (fb_env f) (fb_tick f)) (RDMInitiatorTarget_new p info) (rdi_targets ri)\<rparr>"
    using assms(1) by (auto simp: RDMInitiator_addTarget_def random_device_def pbind_eq_Ret net_outcome own_outcome split: if_splits)
  moreover have "lf_random (fb_env f) (fb_tick f) \<notin> set (map fst (rdi_targets ri))"
    using assms(2) by (simp add: map_of_eq_None_iff)
  ultimately show ?thesis using assms(3)
    by (auto simp: in_step_def sorted_emplace map_of_emplace keys_emplace simp del: set_map split: if_splits)
next
  case False
  then have "ri' = ri" using assms(1)
    by (auto simp: RDMInitiator_addTarget_def random_device_def net_bind pbind_def [of "plift _"] own_def split: prod.splits outcome.splits if_splits)
  with assms show ?thesis by simp
qed

lemma in_step_remove:
  assumes "RDMInitiator_removeTarget info (ri, f) = (r, (ri', f'))" and "in_step ri"
  shows "in_step ri'"
  using assms(1) unfolding RDMInitiator_removeTarget_def
proof (cases rule: pbind_cases)
  case (Ret a s1)
  obtain ri1 f1 where s1: "s1 = (ri1, f1)" by (cases s1)
  have "in_step ri1" using in_step_keeps [OF operations_keep_keys(1) Ret(1) [unfolded s1] assms(2)] .
  moreover have "ri' = (case map_of (rdi_remotes ri1) (ti_id info) of None \<Rightarrow> ri1
      | Some token \<Rightarrow> ri1\<lparr>rdi_remotes := erase (ti_id info) (rdi_remotes ri1), rdi_targets := erase token (rdi_targets ri1)\<rparr>)"
    using Ret(2) by (simp add: s1 own_def)
  ultimately show ?thesis
    by (auto simp: in_step_def map_of_erase sorted_erase keys_erase simp del: set_map split: option.splits if_splits)
qed (use assms(2) in_step_keeps [OF operations_keep_keys(1)] in blast)+

lemma rdi_step_in_step: "rdi_step s s' \<Longrightarrow> in_step (fst s) \<Longrightarrow> in_step (fst s')"
  by (erule rdi_step.cases; cases s; cases s') (auto intro: in_step_keeps in_step_add in_step_remove operations_keep_keys)

lemma rdi_steps_in_step: "rdi_step\<^sup>*\<^sup>* s s' \<Longrightarrow> in_step (fst s) \<Longrightarrow> in_step (fst s')"
  by (induction rule: rtranclp_induct) (simp_all add: rdi_step_in_step)

text \<open>
  C32: However targets were added, removed and used, as long as no random token was drawn twice, the
  initiator finds the target of every id it knows: only an unknown id is reported as not found.
\<close>

theorem known_targets_are_found:
  assumes "rdi_step\<^sup>*\<^sup>* (ri0, f0) (ri, f)" and "rdi_targets ri0 = []" and "rdi_remotes ri0 = []"
  shows "(\<exists>x. findRemoteByEndpoint tid ri = Ret x) \<longleftrightarrow> map_of (rdi_remotes ri) tid \<noteq> None"
proof -
  have "in_step ri0" by (simp add: in_step_def assms)
  then have "in_step ri" using rdi_steps_in_step [OF assms(1)] by simp
  then have "map_of (rdi_remotes ri) tid = Some token \<Longrightarrow> \<exists>t. map_of (rdi_targets ri) token = Some t" for token
    by (auto simp: in_step_def map_of_eq_None_iff simp flip: not_None_eq)
  then show ?thesis
    by (auto simp: findRemoteByEndpoint_def findRemoteByToken_def split: option.split)
qed

section \<open>Examples\<close>

definition ex_rdm_endpoint :: Endpoint where
  "ex_rdm_endpoint = \<lparr>ep_raw = Some 0, ep_cq = Bound 10, ep_eq = Unbound, ep_av = Bound 12\<rparr>"

definition ex_rdm_target :: RDMInitiatorTarget where
  "ex_rdm_target = \<lparr>rd_state = RDMActivated 5, rd_proto = RMAGrainEgress ex_grain_egress, rd_info = ex_target_info\<rparr>"

definition ex_rdi :: RDMInitiator where
  "ex_rdi = \<lparr>rdi_fabric = 20, rdi_domain = 21, rdi_endpoint = ex_rdm_endpoint, rdi_proto = GrainTemplate [4, 0, 0, 0] [] (Some [ex_local]),
     rdi_targets = [], rdi_remotes = []\<rparr>"

lemma pending_work_is_incomplete_writes_witness:
  "rd_hasPendingWork (fst (snd (rd_transferGrain ex_rdm_endpoint 5 5 8 \<lparr>sr_start = 0, sr_end = 2\<rparr> (ex_rdm_target, ex_fabric 9))))"
proof -
  let ?s = "(ex_rdm_target, ex_fabric 9)"
  let ?s1 = "snd (rd_transferGrain ex_rdm_endpoint 5 5 8 \<lparr>sr_start = 0, sr_end = 2\<rparr> ?s)"
  have "rd_transferGrain ex_rdm_endpoint 5 5 8 \<lparr>sr_start = 0, sr_end = 2\<rparr> ?s = (Ret (), ?s1)" by (rule outcome_of, code_simp)
  then have run: "rd_run ex_rdm_endpoint ?s 0 (fst ?s1, snd ?s1)" unfolding prod.collapse by (rule rd_run.grain [OF rd_run.start])
  have "rd_state (fst ?s1) = RDMActivated 5" "pending (rd_proto ex_rdm_target) = 0" "length (fb_writes (snd ?s1)) - length (fb_writes (ex_fabric 9)) = 1"
    by code_simp+
  with pending_work_is_incomplete_writes [OF run] show ?thesis by simp
qed

lemma known_targets_are_found_witness:
  "\<exists>x. findRemoteByEndpoint 7 (fst (snd (RDMInitiator_addTarget ex_target_info (ex_rdi, ex_fabric 9)))) = Ret x"
proof -
  let ?s1 = "snd (RDMInitiator_addTarget ex_target_info (ex_rdi, ex_fabric 9))"
  have "RDMInitiator_addTarget ex_target_info (ex_rdi, ex_fabric 9) = (fst (RDMInitiator_addTarget ex_target_info (ex_rdi, ex_fabric 9)), ?s1)" by simp
  then have "rdi_step (ex_rdi, ex_fabric 9) ?s1" by (rule rdi_step.add) (simp add: ex_rdi_def)
  then have steps: "rdi_step\<^sup>*\<^sup>* (ex_rdi, ex_fabric 9) (fst ?s1, snd ?s1)" by (simp add: r_into_rtranclp)
  have "map_of (rdi_remotes (fst ?s1)) 7 \<noteq> None" "rdi_targets ex_rdi = []" "rdi_remotes ex_rdi = []" by code_simp+
  with known_targets_are_found [OF steps] show ?thesis by blast
qed

end
