(* ===== verification/FabricsApi.thy ===== *)
theory FabricsApi
  imports FlowApi TargetInfoText Targets RdmInitiator
begin

text \<open>
  The C interface of the fabrics library (\<open>fabrics.cpp\<close>, \<open>FabricInstance.cpp\<close>, \<open>Initiator.cpp\<close>,
  \<open>Target.cpp\<close>). A wrapper holds no peer until it was set up, and then one of two kinds. The objects a
  client has pointers to live in a heap; pointers are numbered in the order of allocation, and one to
  an object that is gone is dangling. Null pointers, outputs and exceptions are as in \<open>FlowApi.thy\<close>;
  the calls with loops take the bounds of \<open>RcInitiator.thy\<close> and \<open>Targets.thy\<close> and answer \<open>None\<close> when
  a bound is reached.
\<close>

section \<open>Initiators\<close>

datatype InitiatorInner = RCInner RCInitiator | RDMInner RDMInitiator

type_synonym InitiatorWrapper = "InitiatorInner option"

type_synonym 'a iw_prog = "(InitiatorWrapper \<times> fabric, 'a) prog"

definition InitiatorWrapper_reset :: "unit iw_prog" where
  "InitiatorWrapper_reset =
     pbind pget (\<lambda>(w, _).
     pbind (own (pmodify (\<lambda>_. None))) (\<lambda>_.
       case w of
         None \<Rightarrow> pret ()
       | Some (RCInner ri) \<Rightarrow> net (RCInitiator_destroy ri)
       | Some (RDMInner ri) \<Rightarrow> net (RDMInitiator_destroy ri)))"

text \<open>Which kind of peer a provider needs.\<close>

definition connection_oriented :: "mxlFabricsProvider \<Rightarrow> bool option" where
  "connection_oriented provider =
     (case provider of
        MXL_FABRICS_PROVIDER_AUTO \<Rightarrow> Some True
      | MXL_FABRICS_PROVIDER_TCP \<Rightarrow> Some True
      | MXL_FABRICS_PROVIDER_VERBS \<Rightarrow> Some True
      | MXL_FABRICS_PROVIDER_SHM \<Rightarrow> Some False
      | MXL_FABRICS_PROVIDER_EFA \<Rightarrow> Some False
      | MXL_FABRICS_PROVIDER_OTHER _ \<Rightarrow> None)"

definition InitiatorWrapper_setup :: "mxlFabricsInitiatorConfig \<Rightarrow> unit iw_prog" where
  "InitiatorWrapper_setup cfg =
     pbind InitiatorWrapper_reset (\<lambda>_.
       case connection_oriented (ic_provider cfg) of
         Some True \<Rightarrow> pbind (net (RCInitiator_setup cfg)) (\<lambda>ri. own (pmodify (\<lambda>_. Some (RCInner ri))))
       | Some False \<Rightarrow> pbind (net (RDMInitiator_setup cfg)) (\<lambda>ri. own (pmodify (\<lambda>_. Some (RDMInner ri))))
       | None \<Rightarrow> pthrow (StatusException MXL_ERR_INVALID_ARG))"

definition on_initiator :: "'a ri_prog \<Rightarrow> 'a rdi_prog \<Rightarrow> 'a iw_prog" where
  "on_initiator rc rdm s =
     (case fst s of
        None \<Rightarrow> (Throw (StatusException MXL_ERR_INVALID_STATE), s)
      | Some (RCInner ri) \<Rightarrow> (case rc (ri, snd s) of (r, (ri', f)) \<Rightarrow> (r, (Some (RCInner ri'), f)))
      | Some (RDMInner ri) \<Rightarrow> (case rdm (ri, snd s) of (r, (ri', f)) \<Rightarrow> (r, (Some (RDMInner ri'), f))))"

definition InitiatorWrapper_addTarget :: "TargetInfo \<Rightarrow> unit iw_prog" where
  "InitiatorWrapper_addTarget ti = on_initiator (RCInitiator_addTarget ti) (RDMInitiator_addTarget ti)"

definition InitiatorWrapper_removeTarget :: "TargetInfo \<Rightarrow> unit iw_prog" where
  "InitiatorWrapper_removeTarget ti = on_initiator (RCInitiator_removeTarget ti) (RDMInitiator_removeTarget ti)"

definition InitiatorWrapper_transferGrain :: "u64 \<Rightarrow> u16 \<Rightarrow> u16 \<Rightarrow> unit iw_prog" where
  "InitiatorWrapper_transferGrain grainIndex startSlice endSlice =
     on_initiator (RCInitiator_transferGrain grainIndex startSlice endSlice) (RDMInitiator_transferGrain grainIndex startSlice endSlice)"

definition InitiatorWrapper_transferGrainToTarget :: "u64 \<Rightarrow> u64 \<Rightarrow> u64 \<Rightarrow> u64 \<Rightarrow> u16 \<Rightarrow> u16 \<Rightarrow> unit iw_prog" where
  "InitiatorWrapper_transferGrainToTarget tid localIndex remoteIndex payloadOffset startSlice endSlice =
     on_initiator (RCInitiator_transferGrainToTarget tid localIndex remoteIndex payloadOffset startSlice endSlice)
       (RDMInitiator_transferGrainToTarget tid localIndex remoteIndex payloadOffset startSlice endSlice)"

definition InitiatorWrapper_transferSamples :: "u64 \<Rightarrow> u64 \<Rightarrow> unit iw_prog" where
  "InitiatorWrapper_transferSamples head n = on_initiator (RCInitiator_transferSamples head n) (RDMInitiator_transferSamples head n)"

definition InitiatorWrapper_makeProgress :: "nat \<Rightarrow> bool option iw_prog" where
  "InitiatorWrapper_makeProgress fuel = on_initiator (RCInitiator_makeProgress fuel) (pdone RDMInitiator_makeProgress)"

definition InitiatorWrapper_makeProgressBlocking :: "nat \<Rightarrow> nat \<Rightarrow> int \<Rightarrow> bool option iw_prog" where
  "InitiatorWrapper_makeProgressBlocking fuel rounds timeout =
     on_initiator (RCInitiator_makeProgressBlocking fuel rounds timeout) (pdone (RDMInitiator_makeProgressBlocking timeout))"

section \<open>Targets\<close>

datatype TargetInner = RCTargetInner RCTarget | RDMTargetInner RDMTarget

type_synonym TargetWrapper = "TargetInner option"

type_synonym 'a tw_prog = "(TargetWrapper \<times> fabric, 'a) prog"

definition TargetWrapper_reset :: "unit tw_prog" where
  "TargetWrapper_reset =
     pbind pget (\<lambda>(w, _).
     pbind (own (pmodify (\<lambda>_. None))) (\<lambda>_.
       case w of
         None \<Rightarrow> pret ()
       | Some (RCTargetInner t) \<Rightarrow> net (RCTarget_destroy t)
       | Some (RDMTargetInner t) \<Rightarrow> net (RDMTarget_destroy t)))"

definition TargetWrapper_setup :: "mxlFabricsTargetConfig \<Rightarrow> memory \<Rightarrow> TargetInfo tw_prog" where
  "TargetWrapper_setup cfg mem =
     pbind TargetWrapper_reset (\<lambda>_.
       case connection_oriented (tc_provider cfg) of
         Some True \<Rightarrow>
           pbind (net (RCTarget_setup cfg mem)) (\<lambda>(t, info). pbind (own (pmodify (\<lambda>_. Some (RCTargetInner t)))) (\<lambda>_. pret info))
       | Some False \<Rightarrow>
           pbind (net (RDMTarget_setup cfg mem)) (\<lambda>(t, info). pbind (own (pmodify (\<lambda>_. Some (RDMTargetInner t)))) (\<lambda>_. pret info))
       | None \<Rightarrow> pthrow (StatusException MXL_ERR_INVALID_ARG))"

definition on_target :: "'a rt_prog \<Rightarrow> 'a dt_prog \<Rightarrow> 'a tw_prog" where
  "on_target rc rdm s =
     (case fst s of
        None \<Rightarrow> (Throw (StatusException MXL_ERR_INVALID_STATE), s)
      | Some (RCTargetInner t) \<Rightarrow> (case rc (t, snd s) of (r, (t', f)) \<Rightarrow> (r, (Some (RCTargetInner t'), f)))
      | Some (RDMTargetInner t) \<Rightarrow> (case rdm (t, snd s) of (r, (t', f)) \<Rightarrow> (r, (Some (RDMTargetInner t'), f))))"

definition TargetWrapper_readGrain :: "nat \<Rightarrow> QueueReadMode \<Rightarrow> int \<Rightarrow> u64 option option tw_prog" where
  "TargetWrapper_readGrain fuel mode timeout = on_target (RCTarget_readGrain fuel mode timeout) (pdone (RDMTarget_readGrain mode timeout))"

definition TargetWrapper_readSamples :: "nat \<Rightarrow> QueueReadMode \<Rightarrow> int \<Rightarrow> (u64 \<times> u64) option option tw_prog" where
  "TargetWrapper_readSamples fuel mode timeout = on_target (RCTarget_readSamples fuel mode timeout) (pdone (RDMTarget_readSamples mode timeout))"

section \<open>The objects of a client\<close>

type_synonym 'o heap = "(nat \<times> 'o) list"

record FabricsInstance =
  fi_targets :: "nat list"
  fi_initiators :: "nat list"

record fabrics_objects =
  fo_instances :: "FabricsInstance heap"
  fo_targets :: "TargetWrapper heap"
  fo_initiators :: "InitiatorWrapper heap"
  fo_infos :: "TargetInfo heap"
  fo_next :: nat

type_synonym 'a api_prog = "(fabrics_objects \<times> fabric, 'a) prog"

definition dereference :: "'o heap \<Rightarrow> nat \<Rightarrow> 'o outcome" where
  "dereference h p = (case map_of h p of None \<Rightarrow> Crash DanglingPointer | Some x \<Rightarrow> Ret x)"

definition new_pointer :: "nat api_prog" where
  "new_pointer = pbind pget (\<lambda>(ob, _). pbind (own (pmodify (\<lambda>ob. ob\<lparr>fo_next := Suc (fo_next ob)\<rparr>))) (\<lambda>_. pret (fo_next ob)))"

definition at_initiator :: "nat \<Rightarrow> 'a iw_prog \<Rightarrow> 'a api_prog" where
  "at_initiator p m =
     pbind pget (\<lambda>(ob, _).
     pbind (plift (dereference (fo_initiators ob) p)) (\<lambda>w s.
       case m (w, snd s) of (r, (w', f)) \<Rightarrow> (r, ((fst s)\<lparr>fo_initiators := AList.update p w' (fo_initiators (fst s))\<rparr>, f))))"

definition at_target :: "nat \<Rightarrow> 'a tw_prog \<Rightarrow> 'a api_prog" where
  "at_target p m =
     pbind pget (\<lambda>(ob, _).
     pbind (plift (dereference (fo_targets ob) p)) (\<lambda>w s.
       case m (w, snd s) of (r, (w', f)) \<Rightarrow> (r, ((fst s)\<lparr>fo_targets := AList.update p w' (fo_targets (fst s))\<rparr>, f))))"

definition set_instance :: "nat \<Rightarrow> FabricsInstance \<Rightarrow> unit api_prog" where
  "set_instance p fi = own (pmodify (\<lambda>ob. ob\<lparr>fo_instances := AList.update p fi (fo_instances ob)\<rparr>))"

definition get_instance :: "nat \<Rightarrow> FabricsInstance api_prog" where
  "get_instance p = pbind pget (\<lambda>(ob, _). plift (dereference (fo_instances ob) p))"

definition FabricsInstance_new :: "nat api_prog" where
  "FabricsInstance_new = pbind new_pointer (\<lambda>p. pbind (set_instance p \<lparr>fi_targets = [], fi_initiators = []\<rparr>) (\<lambda>_. pret p))"

definition createTarget :: "nat \<Rightarrow> nat api_prog" where
  "createTarget p =
     pbind (get_instance p) (\<lambda>fi.
     pbind new_pointer (\<lambda>t.
     pbind (own (pmodify (\<lambda>ob. ob\<lparr>fo_targets := AList.update t None (fo_targets ob)\<rparr>))) (\<lambda>_.
     pbind (set_instance p (fi\<lparr>fi_targets := fi_targets fi @ [t]\<rparr>)) (\<lambda>_. pret t))))"

definition createInitiator :: "nat \<Rightarrow> nat api_prog" where
  "createInitiator p =
     pbind (get_instance p) (\<lambda>fi.
     pbind new_pointer (\<lambda>i.
     pbind (own (pmodify (\<lambda>ob. ob\<lparr>fo_initiators := AList.update i None (fo_initiators ob)\<rparr>))) (\<lambda>_.
     pbind (set_instance p (fi\<lparr>fi_initiators := fi_initiators fi @ [i]\<rparr>)) (\<lambda>_. pret i))))"

text \<open>The destructor of a wrapper destroys the peer it holds.\<close>

definition delete_target :: "nat \<Rightarrow> unit api_prog" where
  "delete_target t =
     pbind (at_target t TargetWrapper_reset) (\<lambda>_. own (pmodify (\<lambda>ob. ob\<lparr>fo_targets := AList.delete t (fo_targets ob)\<rparr>)))"

definition delete_initiator :: "nat \<Rightarrow> unit api_prog" where
  "delete_initiator i =
     pbind (at_initiator i InitiatorWrapper_reset) (\<lambda>_. own (pmodify (\<lambda>ob. ob\<lparr>fo_initiators := AList.delete i (fo_initiators ob)\<rparr>)))"

definition destroyTarget :: "nat \<Rightarrow> nat \<Rightarrow> unit api_prog" where
  "destroyTarget p t =
     pbind (get_instance p) (\<lambda>fi.
       if t \<notin> set (fi_targets fi) then pthrow (StatusException MXL_ERR_INVALID_ARG)
       else pbind (delete_target t) (\<lambda>_. set_instance p (fi\<lparr>fi_targets := removeAll t (fi_targets fi)\<rparr>)))"

definition destroyInitiator :: "nat \<Rightarrow> nat \<Rightarrow> unit api_prog" where
  "destroyInitiator p i =
     pbind (get_instance p) (\<lambda>fi.
       if i \<notin> set (fi_initiators fi) then pthrow (StatusException MXL_ERR_INVALID_ARG)
       else pbind (delete_initiator i) (\<lambda>_. set_instance p (fi\<lparr>fi_initiators := removeAll i (fi_initiators fi)\<rparr>)))"

fun delete_all :: "(nat \<Rightarrow> unit api_prog) \<Rightarrow> nat list \<Rightarrow> unit api_prog" where
  "delete_all del [] = pret ()"
| "delete_all del (p # ps) = pbind (del p) (\<lambda>_. delete_all del ps)"

text \<open>The members of an instance go in the reverse order of their declaration.\<close>

definition FabricsInstance_delete :: "nat \<Rightarrow> unit api_prog" where
  "FabricsInstance_delete p =
     pbind (get_instance p) (\<lambda>fi.
     pbind (delete_all delete_initiator (fi_initiators fi)) (\<lambda>_.
     pbind (delete_all delete_target (fi_targets fi)) (\<lambda>_.
       own (pmodify (\<lambda>ob. ob\<lparr>fo_instances := AList.delete p (fo_instances ob)\<rparr>)))))"

section \<open>The interface\<close>

definition exn_status :: "exn \<Rightarrow> mxlStatus" where
  "exn_status e = (case e of StatusException status \<Rightarrow> status | _ \<Rightarrow> MXL_ERR_UNKNOWN)"

text \<open>A call answers its status and what it stored in its output, if anything.\<close>

definition try_run :: "(mxlStatus \<Rightarrow> 'r) \<Rightarrow> ('s, 'r) prog \<Rightarrow> ('s, 'r) prog" where
  "try_run failed m = pcatch m (\<lambda>e. pret (failed (exn_status e)))"

abbreviation "no_output status \<equiv> (status, None)"

abbreviation "no_output_bounded status \<equiv> Some (status, None)"

definition mxlFabricsCreateInstance :: "nat option \<Rightarrow> bool \<Rightarrow> (mxlStatus \<times> nat option) api_prog" where
  "mxlFabricsCreateInstance inst out =
     (if inst = None \<or> \<not> out then pret (no_output MXL_ERR_INVALID_ARG)
      else try_run no_output (pbind FabricsInstance_new (\<lambda>p. pret (MXL_STATUS_OK, Some p))))"

definition mxlFabricsDestroyInstance :: "nat option \<Rightarrow> (mxlStatus \<times> unit option) api_prog" where
  "mxlFabricsDestroyInstance fi =
     (case fi of
        None \<Rightarrow> pret (no_output MXL_ERR_INVALID_ARG)
      | Some p \<Rightarrow> try_run no_output (pbind (FabricsInstance_delete p) (\<lambda>_. pret (no_output MXL_STATUS_OK))))"

definition mxlFabricsCreateTarget :: "nat option \<Rightarrow> bool \<Rightarrow> (mxlStatus \<times> nat option) api_prog" where
  "mxlFabricsCreateTarget fi out =
     (case (fi, out) of
        (Some p, True) \<Rightarrow> try_run no_output (pbind (createTarget p) (\<lambda>t. pret (MXL_STATUS_OK, Some t)))
      | _ \<Rightarrow> pret (no_output MXL_ERR_INVALID_ARG))"

definition mxlFabricsDestroyTarget :: "nat option \<Rightarrow> nat option \<Rightarrow> (mxlStatus \<times> unit option) api_prog" where
  "mxlFabricsDestroyTarget fi target =
     (case (fi, target) of
        (Some p, Some t) \<Rightarrow> try_run no_output (pbind (destroyTarget p t) (\<lambda>_. pret (no_output MXL_STATUS_OK)))
      | _ \<Rightarrow> pret (no_output MXL_ERR_INVALID_ARG))"

definition new_info :: "TargetInfo \<Rightarrow> nat api_prog" where
  "new_info info =
     pbind new_pointer (\<lambda>p. pbind (own (pmodify (\<lambda>ob. ob\<lparr>fo_infos := AList.update p info (fo_infos ob)\<rparr>))) (\<lambda>_. pret p))"

definition mxlFabricsTargetSetup ::
  "nat option \<Rightarrow> mxlFabricsTargetConfig option \<Rightarrow> memory \<Rightarrow> bool \<Rightarrow> (mxlStatus \<times> nat option) api_prog" where
  "mxlFabricsTargetSetup target cfg mem out =
     (case (target, cfg, out) of
        (Some t, Some cfg, True) \<Rightarrow>
          try_run no_output (pbind (at_target t (TargetWrapper_setup cfg mem)) (\<lambda>info. pbind (new_info info) (\<lambda>p. pret (MXL_STATUS_OK, Some p))))
      | _ \<Rightarrow> pret (no_output MXL_ERR_INVALID_ARG))"

text \<open>A result of a read; the time to wait is given in milliseconds.\<close>

definition read_status :: "'r option \<Rightarrow> mxlStatus \<times> 'r option" where
  "read_status res = (case res of None \<Rightarrow> no_output MXL_ERR_NOT_READY | Some r \<Rightarrow> (MXL_STATUS_OK, Some r))"

definition milliseconds :: "u16 \<Rightarrow> int" where
  "milliseconds ms = uint ms * 1000000"

definition read_target ::
  "nat option \<Rightarrow> bool \<Rightarrow> 'r option option tw_prog \<Rightarrow> (mxlStatus \<times> 'r option) option api_prog" where
  "read_target target out m =
     (case (target, out) of
        (Some t, True) \<Rightarrow> try_run no_output_bounded (pthen (at_target t m) (\<lambda>res. pret (Some (read_status res))))
      | _ \<Rightarrow> pret (no_output_bounded MXL_ERR_INVALID_ARG))"

definition mxlFabricsTargetReadGrainNonBlocking :: "nat \<Rightarrow> nat option \<Rightarrow> bool \<Rightarrow> (mxlStatus \<times> u64 option) option api_prog" where
  "mxlFabricsTargetReadGrainNonBlocking fuel target out = read_target target out (TargetWrapper_readGrain fuel NonBlocking 0)"

definition mxlFabricsTargetReadGrain :: "nat \<Rightarrow> nat option \<Rightarrow> u16 \<Rightarrow> bool \<Rightarrow> (mxlStatus \<times> u64 option) option api_prog" where
  "mxlFabricsTargetReadGrain fuel target timeoutMs out =
     read_target target out (TargetWrapper_readGrain fuel Blocking (milliseconds timeoutMs))"

definition mxlFabricsTargetReadSamplesNonBlocking ::
  "nat \<Rightarrow> nat option \<Rightarrow> bool \<Rightarrow> bool \<Rightarrow> (mxlStatus \<times> (u64 \<times> u64) option) option api_prog" where
  "mxlFabricsTargetReadSamplesNonBlocking fuel target out out2 =
     read_target target (out \<and> out2) (TargetWrapper_readSamples fuel NonBlocking 0)"

definition mxlFabricsTargetReadSamples ::
  "nat \<Rightarrow> nat option \<Rightarrow> u16 \<Rightarrow> bool \<Rightarrow> bool \<Rightarrow> (mxlStatus \<times> (u64 \<times> u64) option) option api_prog" where
  "mxlFabricsTargetReadSamples fuel target timeoutMs out out2 =
     read_target target (out \<and> out2) (TargetWrapper_readSamples fuel Blocking (milliseconds timeoutMs))"

definition mxlFabricsCreateInitiator :: "nat option \<Rightarrow> bool \<Rightarrow> (mxlStatus \<times> nat option) api_prog" where
  "mxlFabricsCreateInitiator fi out =
     (case (fi, out) of
        (Some p, True) \<Rightarrow> try_run no_output (pbind (createInitiator p) (\<lambda>i. pret (MXL_STATUS_OK, Some i)))
      | _ \<Rightarrow> pret (no_output MXL_ERR_INVALID_ARG))"

definition mxlFabricsDestroyInitiator :: "nat option \<Rightarrow> nat option \<Rightarrow> (mxlStatus \<times> unit option) api_prog" where
  "mxlFabricsDestroyInitiator fi initiator =
     (case (fi, initiator) of
        (Some p, Some i) \<Rightarrow> try_run no_output (pbind (destroyInitiator p i) (\<lambda>_. pret (no_output MXL_STATUS_OK)))
      | _ \<Rightarrow> pret (no_output MXL_ERR_INVALID_ARG))"

definition call_initiator :: "nat option \<Rightarrow> unit iw_prog \<Rightarrow> (mxlStatus \<times> unit option) api_prog" where
  "call_initiator initiator m =
     (case initiator of
        None \<Rightarrow> pret (no_output MXL_ERR_INVALID_ARG)
      | Some i \<Rightarrow> try_run no_output (pbind (at_initiator i m) (\<lambda>_. pret (no_output MXL_STATUS_OK))))"

definition mxlFabricsInitiatorSetup :: "nat option \<Rightarrow> mxlFabricsInitiatorConfig option \<Rightarrow> (mxlStatus \<times> unit option) api_prog" where
  "mxlFabricsInitiatorSetup initiator cfg =
     (case cfg of None \<Rightarrow> pret (no_output MXL_ERR_INVALID_ARG) | Some cfg \<Rightarrow> call_initiator initiator (InitiatorWrapper_setup cfg))"

definition with_info :: "nat option \<Rightarrow> nat option \<Rightarrow> (TargetInfo \<Rightarrow> unit iw_prog) \<Rightarrow> (mxlStatus \<times> unit option) api_prog" where
  "with_info initiator info m =
     (case (initiator, info) of
        (Some _, Some p) \<Rightarrow>
          pbind pget (\<lambda>(ob, _). pbind (plift (dereference (fo_infos ob) p)) (\<lambda>ti. call_initiator initiator (m ti)))
      | _ \<Rightarrow> pret (no_output MXL_ERR_INVALID_ARG))"

definition mxlFabricsInitiatorAddTarget :: "nat option \<Rightarrow> nat option \<Rightarrow> (mxlStatus \<times> unit option) api_prog" where
  "mxlFabricsInitiatorAddTarget initiator info = with_info initiator info InitiatorWrapper_addTarget"

definition mxlFabricsInitiatorRemoveTarget :: "nat option \<Rightarrow> nat option \<Rightarrow> (mxlStatus \<times> unit option) api_prog" where
  "mxlFabricsInitiatorRemoveTarget initiator info = with_info initiator info InitiatorWrapper_removeTarget"

definition mxlFabricsInitiatorTransferGrain :: "nat option \<Rightarrow> u64 \<Rightarrow> u16 \<Rightarrow> u16 \<Rightarrow> (mxlStatus \<times> unit option) api_prog" where
  "mxlFabricsInitiatorTransferGrain initiator grainIndex startSlice endSlice =
     call_initiator initiator (InitiatorWrapper_transferGrain grainIndex startSlice endSlice)"

definition mxlFabricsInitiatorTransferSamples :: "nat option \<Rightarrow> u64 \<Rightarrow> u64 \<Rightarrow> (mxlStatus \<times> unit option) api_prog" where
  "mxlFabricsInitiatorTransferSamples initiator head n = call_initiator initiator (InitiatorWrapper_transferSamples head n)"

definition progress_status :: "bool \<Rightarrow> mxlStatus \<times> unit option" where
  "progress_status todo = (if todo then no_output MXL_ERR_NOT_READY else no_output MXL_STATUS_OK)"

definition progress_initiator :: "nat option \<Rightarrow> bool option iw_prog \<Rightarrow> (mxlStatus \<times> unit option) option api_prog" where
  "progress_initiator initiator m =
     (case initiator of
        None \<Rightarrow> pret (no_output_bounded MXL_ERR_INVALID_ARG)
      | Some i \<Rightarrow> try_run no_output_bounded (pthen (at_initiator i m) (\<lambda>todo. pret (Some (progress_status todo)))))"

definition mxlFabricsInitiatorMakeProgressNonBlocking :: "nat \<Rightarrow> nat option \<Rightarrow> (mxlStatus \<times> unit option) option api_prog" where
  "mxlFabricsInitiatorMakeProgressNonBlocking fuel initiator = progress_initiator initiator (InitiatorWrapper_makeProgress fuel)"

definition mxlFabricsInitiatorMakeProgressBlocking ::
  "nat \<Rightarrow> nat \<Rightarrow> nat option \<Rightarrow> u16 \<Rightarrow> (mxlStatus \<times> unit option) option api_prog" where
  "mxlFabricsInitiatorMakeProgressBlocking fuel rounds initiator timeoutMs =
     progress_initiator initiator (InitiatorWrapper_makeProgressBlocking fuel rounds (milliseconds timeoutMs))"

section \<open>Text\<close>

definition mxlFabricsProviderFromString :: "string option \<Rightarrow> bool \<Rightarrow> mxlStatus \<times> mxlFabricsProvider option" where
  "mxlFabricsProviderFromString text out =
     (case (text, out) of
        (Some s, True) \<Rightarrow>
          (case providerFromString s of
             Some provider \<Rightarrow> (MXL_STATUS_OK, Some (providerToAPI provider))
           | None \<Rightarrow> no_output MXL_ERR_INVALID_ARG)
      | _ \<Rightarrow> no_output MXL_ERR_INVALID_ARG)"

text \<open>
  Text in a buffer of the client: without a buffer, the size it needs; else whether it has the room, and what it
  then begins with.
\<close>

definition text_output :: "string \<Rightarrow> bool \<Rightarrow> u64 \<Rightarrow> mxlStatus \<times> u64 \<times> string option" where
  "text_output text buffer room =
     (if \<not> buffer then (MXL_STATUS_OK, of_nat (length text) + 1, None)
      else if room \<le> of_nat (length text) then (MXL_ERR_STRLEN, room, None)
      else (MXL_STATUS_OK, room, Some (strncpy text (unat room))))"

definition provider_name :: "mxlFabricsProvider \<Rightarrow> string option" where
  "provider_name provider =
     (case provider of
        MXL_FABRICS_PROVIDER_AUTO \<Rightarrow> Some ''auto''
      | MXL_FABRICS_PROVIDER_TCP \<Rightarrow> Some ''tcp''
      | MXL_FABRICS_PROVIDER_EFA \<Rightarrow> Some ''efa''
      | MXL_FABRICS_PROVIDER_VERBS \<Rightarrow> Some ''verbs''
      | MXL_FABRICS_PROVIDER_SHM \<Rightarrow> Some ''shm''
      | MXL_FABRICS_PROVIDER_OTHER _ \<Rightarrow> None)"

definition mxlFabricsProviderToString :: "mxlFabricsProvider \<Rightarrow> bool \<Rightarrow> u64 option \<Rightarrow> mxlStatus \<times> u64 option \<times> string option" where
  "mxlFabricsProviderToString provider buffer bufferSize =
     (case (bufferSize, provider_name provider) of
        (Some room, Some name) \<Rightarrow> (case text_output name buffer room of (status, needed, text) \<Rightarrow> (status, Some needed, text))
      | _ \<Rightarrow> (MXL_ERR_INVALID_ARG, bufferSize, None))"

definition mxlFabricsTargetInfoFromString :: "text_services \<Rightarrow> string option \<Rightarrow> bool \<Rightarrow> (mxlStatus \<times> nat option) api_prog" where
  "mxlFabricsTargetInfoFromString sv text out =
     (case (text, out) of
        (Some s, True) \<Rightarrow>
          try_run no_output
            (pbind (plift (TargetInfo_fromJSON sv s)) (\<lambda>info. pbind (new_info info) (\<lambda>p. pret (MXL_STATUS_OK, Some p))))
      | _ \<Rightarrow> pret (no_output MXL_ERR_INVALID_ARG))"

definition mxlFabricsTargetInfoToString ::
  "text_services \<Rightarrow> nat option \<Rightarrow> bool \<Rightarrow> u64 option \<Rightarrow> (mxlStatus \<times> u64 option \<times> string option) api_prog" where
  "mxlFabricsTargetInfoToString sv info buffer bufferSize =
     (case (info, bufferSize) of
        (Some p, Some room) \<Rightarrow>
          try_run (\<lambda>status. (status, bufferSize, None))
            (pbind pget (\<lambda>(ob, _). pbind (plift (dereference (fo_infos ob) p)) (\<lambda>ti.
               case text_output (TargetInfo_toJSON sv ti) buffer room of (status, needed, text) \<Rightarrow> pret (status, Some needed, text))))
      | _ \<Rightarrow> pret (MXL_ERR_INVALID_ARG, bufferSize, None))"

definition mxlFabricsFreeTargetInfo :: "nat option \<Rightarrow> (mxlStatus \<times> unit option) api_prog" where
  "mxlFabricsFreeTargetInfo info =
     (case info of
        None \<Rightarrow> pret (no_output MXL_ERR_INVALID_ARG)
      | Some p \<Rightarrow>
          try_run no_output
            (pbind pget (\<lambda>(ob, _). pbind (plift (dereference (fo_infos ob) p)) (\<lambda>_.
             pbind (own (pmodify (\<lambda>ob. ob\<lparr>fo_infos := AList.delete p (fo_infos ob)\<rparr>))) (\<lambda>_. pret (no_output MXL_STATUS_OK))))))"

end
