(* ===== verification/FabricsContract.thy ===== *)
theory FabricsContract
  imports FabricsApi
begin

text \<open>
  What a client of the fabrics library can rely on: no exception crosses the interface, a target's
  description travels as text, peers without a setup refuse every operation, and who owns the objects a
  client has pointers to.
\<close>

section \<open>Exceptions\<close>

definition quiet_prog :: "('s, 'a) prog \<Rightarrow> bool" where
  "quiet_prog m \<longleftrightarrow> (\<forall>s e. fst (m s) \<noteq> Throw e)"

lemma quiet_prog_intros:
  "quiet_prog (try_run failed m)" "quiet_prog (pret a)" "quiet_prog pget"
  "quiet_prog (plift (dereference h p))" "quiet_prog m \<Longrightarrow> (\<And>a. quiet_prog (g a)) \<Longrightarrow> quiet_prog (pbind m g)"
proof -
  assume "quiet_prog m" "\<And>a. quiet_prog (g a)"
  then show "quiet_prog (pbind m g)"
    by (simp add: quiet_prog_def pbind_def split: prod.split outcome.split) (metis fst_conv)
next
  show "quiet_prog (try_run failed m)"
    by (auto simp: quiet_prog_def try_run_def pcatch_def split: prod.split outcome.split)
qed (simp_all add: quiet_prog_def dereference_def split: option.split)

lemma quiet_calls:
  "quiet_prog (call_initiator i m)" "quiet_prog (progress_initiator i mb)" "quiet_prog (read_target t out mr)" "quiet_prog (with_info i p mi)"
  by (auto simp: call_initiator_def progress_initiator_def read_target_def with_info_def
      intro!: quiet_prog_intros split: option.split prod.split bool.split)

text \<open>
  No function of the fabrics interface lets an exception out, whatever its arguments, the peers behind
  them and the failures of libfabric: each returns a status, or has undefined behaviour.
\<close>

theorem no_exception_crosses_the_fabrics_interface:
  "quiet_prog (mxlFabricsCreateInstance inst out) \<and> quiet_prog (mxlFabricsDestroyInstance fi)
   \<and> quiet_prog (mxlFabricsCreateTarget fi out) \<and> quiet_prog (mxlFabricsDestroyTarget fi t) \<and> quiet_prog (mxlFabricsTargetSetup t tcfg mem out)
   \<and> quiet_prog (mxlFabricsTargetReadGrainNonBlocking fuel t out) \<and> quiet_prog (mxlFabricsTargetReadGrain fuel t ms out)
   \<and> quiet_prog (mxlFabricsTargetReadSamplesNonBlocking fuel t out out2) \<and> quiet_prog (mxlFabricsTargetReadSamples fuel t ms out out2)
   \<and> quiet_prog (mxlFabricsCreateInitiator fi out) \<and> quiet_prog (mxlFabricsDestroyInitiator fi i) \<and> quiet_prog (mxlFabricsInitiatorSetup i icfg)
   \<and> quiet_prog (mxlFabricsInitiatorAddTarget i p) \<and> quiet_prog (mxlFabricsInitiatorRemoveTarget i p)
   \<and> quiet_prog (mxlFabricsInitiatorTransferGrain i g s1 s2) \<and> quiet_prog (mxlFabricsInitiatorTransferSamples i h n)
   \<and> quiet_prog (mxlFabricsInitiatorMakeProgressNonBlocking fuel i) \<and> quiet_prog (mxlFabricsInitiatorMakeProgressBlocking fuel rounds i ms)
   \<and> quiet_prog (mxlFabricsTargetInfoFromString sv txt out) \<and> quiet_prog (mxlFabricsTargetInfoToString sv p buf room)
   \<and> quiet_prog (mxlFabricsFreeTargetInfo p)"
  unfolding mxlFabricsCreateInstance_def mxlFabricsDestroyInstance_def mxlFabricsCreateTarget_def mxlFabricsDestroyTarget_def
    mxlFabricsTargetSetup_def mxlFabricsTargetReadGrainNonBlocking_def mxlFabricsTargetReadGrain_def
    mxlFabricsTargetReadSamplesNonBlocking_def mxlFabricsTargetReadSamples_def mxlFabricsCreateInitiator_def
    mxlFabricsDestroyInitiator_def mxlFabricsInitiatorSetup_def mxlFabricsInitiatorAddTarget_def mxlFabricsInitiatorRemoveTarget_def
    mxlFabricsInitiatorTransferGrain_def mxlFabricsInitiatorTransferSamples_def mxlFabricsInitiatorMakeProgressNonBlocking_def
    mxlFabricsInitiatorMakeProgressBlocking_def mxlFabricsTargetInfoFromString_def mxlFabricsTargetInfoToString_def
    mxlFabricsFreeTargetInfo_def
  by (intro conjI; simp add: quiet_prog_intros quiet_calls split: option.split bool.split prod.split)

section \<open>Text in buffers\<close>

lemma text_output_size: "text_output text False room = (MXL_STATUS_OK, of_nat (length text) + 1, None)"
  by (simp add: text_output_def)

lemma text_output_fits:
  assumes "length text + 1 < 2 ^ 64" and "CHR 0x00 \<notin> set text"
  shows "text_output text True (of_nat (length text) + 1) = (MXL_STATUS_OK, of_nat (length text) + 1, Some (text @ [CHR 0x00]))"
proof -
  have "(of_nat (length text) + 1 :: u64) = of_nat (length text + 1)" by simp
  then have u: "unat (of_nat (length text) + 1 :: u64) = length text + 1"
    using assms(1) by (simp only: unsigned_of_nat take_bit_nat_eq_self len_of_numeral_defs) (simp add: take_bit_nat_eq_self)
  have tw: "takeWhile (\<lambda>c. c \<noteq> CHR 0x00) text = text" using assms(2) by (auto simp: takeWhile_eq_all_conv)
  have "\<not> (of_nat (length text) + 1 :: u64) \<le> of_nat (length text)"
    using assms(1) u by (simp add: word_le_nat_alt unsigned_of_nat take_bit_nat_eq_self)
  then show ?thesis using u by (simp add: text_output_def strncpy_def tw)
qed

lemma try_run_Ret: "m s = (Ret a, s') \<Longrightarrow> try_run failed m s = (Ret a, s')"
  by (simp add: try_run_def pcatch_def)

lemma own_eq: "own m (a, f) = (fst (m a), (snd (m a), f))"
  by (simp add: own_def split: prod.split)

lemma new_pointer_eq: "new_pointer (ob, f) = (Ret (fo_next ob), (ob\<lparr>fo_next := Suc (fo_next ob)\<rparr>, f))"
  by (simp add: new_pointer_def pbind_def own_eq)

lemma new_info_eq:
  "new_info info (ob, f) = (Ret (fo_next ob), (ob\<lparr>fo_next := Suc (fo_next ob), fo_infos := AList.update (fo_next ob) info (fo_infos ob)\<rparr>, f))"
  by (simp add: new_info_def pbind_def new_pointer_eq own_eq)

text \<open>
  C36: The size protocol and the round trip of target descriptions: asked without a buffer the call
  answers the size it needs, with a buffer of that size it stores the text and its end, and the text, which the
  client carries to another process, is read there as the description it was written from.
\<close>

theorem target_info_travels_as_text:
  assumes "map_of (fo_infos ob) p = Some ti" and "ti_address ti \<noteq> []"
    and "sv_parse sv (sv_serialize sv (TargetInfo_json ti)) = Some (TargetInfo_json ti)"
    and "length (TargetInfo_toJSON sv ti) + 1 < 2 ^ 64" and "CHR 0x00 \<notin> set (TargetInfo_toJSON sv ti)"
  shows "fst (mxlFabricsTargetInfoToString sv (Some p) False (Some room) (ob, f))
      = Ret (MXL_STATUS_OK, Some (of_nat (length (TargetInfo_toJSON sv ti)) + 1), None)
    \<and> fst (mxlFabricsTargetInfoToString sv (Some p) True (Some (of_nat (length (TargetInfo_toJSON sv ti)) + 1)) (ob, f))
      = Ret (MXL_STATUS_OK, Some (of_nat (length (TargetInfo_toJSON sv ti)) + 1), Some (TargetInfo_toJSON sv ti @ [CHR 0x00]))
    \<and> (\<exists>q. fst (mxlFabricsTargetInfoFromString sv (Some (TargetInfo_toJSON sv ti)) True (there, g)) = Ret (MXL_STATUS_OK, Some q)
      \<and> map_of (fo_infos (fst (snd (mxlFabricsTargetInfoFromString sv (Some (TargetInfo_toJSON sv ti)) True (there, g))))) q = Some ti)"
  using assms(1) text_output_fits [OF assms(4,5)] fromJSON_toJSON [OF assms(3,2)]
  by (simp add: mxlFabricsTargetInfoToString_def mxlFabricsTargetInfoFromString_def try_run_def pcatch_def pbind_def dereference_def
      text_output_size new_info_eq update_conv')

section \<open>Peers that are not set up\<close>

lemma setup_fails_unset:
  "InitiatorWrapper_setup icfg (w, f) = (Throw e, (w', f')) \<Longrightarrow> w' = None"
  "TargetWrapper_setup tcfg mem (t, f) = (Throw e, (t', f')) \<Longrightarrow> t' = None"
  unfolding InitiatorWrapper_setup_def TargetWrapper_setup_def InitiatorWrapper_reset_def TargetWrapper_reset_def
  by (auto elim!: pbind_cases simp: net_eq own_eq split: option.splits bool.splits prod.splits InitiatorInner.splits TargetInner.splits)

text \<open>Everything a client does with a peer fails in the same way while the peer is not set up, and changes nothing.\<close>

lemma at_unset:
  "map_of (fo_initiators ob) i = Some None \<Longrightarrow>
     at_initiator i (on_initiator rc rdm) (ob, f) = (Throw (StatusException MXL_ERR_INVALID_STATE), (ob, f))"
  "map_of (fo_targets ob) t = Some None \<Longrightarrow>
     at_target t (on_target rct rdt) (ob, f) = (Throw (StatusException MXL_ERR_INVALID_STATE), (ob, f))"
  by (simp_all add: at_initiator_def at_target_def on_initiator_def on_target_def pbind_def dereference_def update_triv)

lemma at_unset_calls:
  assumes "map_of (fo_initiators ob) i = Some None"
  shows "call_initiator (Some i) (on_initiator rc rdm) (ob, f) = (Ret (no_output MXL_ERR_INVALID_STATE), (ob, f))"
    and "progress_initiator (Some i) (on_initiator rcb rdmb) (ob, f) = (Ret (no_output_bounded MXL_ERR_INVALID_STATE), (ob, f))"
  using assms
  by (simp_all add: call_initiator_def progress_initiator_def try_run_def pcatch_def pthen_def pbind_def at_unset exn_status_def)

lemma at_unset_reads:
  "map_of (fo_targets ob) t = Some None \<Longrightarrow>
     read_target (Some t) True (on_target rct rdt) (ob, f) = (Ret (no_output_bounded MXL_ERR_INVALID_STATE), (ob, f))"
  by (simp add: read_target_def try_run_def pcatch_def pthen_def pbind_def at_unset exn_status_def)

lemma failed_initiator_setup:
  assumes "mxlFabricsInitiatorSetup (Some i) (Some cfg) s = (Ret (st, out), (ob, f))" and "st \<noteq> MXL_STATUS_OK"
  shows "map_of (fo_initiators ob) i = Some None"
  using assms setup_fails_unset(1)
  by (cases s)
     (auto simp: mxlFabricsInitiatorSetup_def call_initiator_def try_run_def pcatch_def pbind_def at_initiator_def dereference_def update_conv'
      split: option.splits outcome.splits prod.splits)

lemma failed_target_setup:
  assumes "mxlFabricsTargetSetup (Some t) (Some cfg) mem True s = (Ret (st, out), (ob, f))" and "st \<noteq> MXL_STATUS_OK"
  shows "map_of (fo_targets ob) t = Some None"
  using assms setup_fails_unset(2)
  by (cases s)
     (auto simp: mxlFabricsTargetSetup_def try_run_def pcatch_def pbind_def at_target_def dereference_def update_conv' new_info_eq
      split: option.splits outcome.splits prod.splits)

text \<open>
  C37: When setting up an initiator or a target fails, the wrapper is left without a peer, also when it had
  one before: from then on every transfer, every call that makes progress, every change of the targets and
  every read answers that the state is invalid, and changes nothing, until a setup succeeds.
\<close>

theorem failed_setup_leaves_no_peer:
  "(mxlFabricsInitiatorSetup (Some i) (Some icfg) s = (Ret (st, out), (ob, f)) \<and> st \<noteq> MXL_STATUS_OK \<longrightarrow>
     mxlFabricsInitiatorTransferGrain (Some i) g s1 s2 (ob, f) = (Ret (no_output MXL_ERR_INVALID_STATE), (ob, f))
     \<and> mxlFabricsInitiatorTransferSamples (Some i) h n (ob, f) = (Ret (no_output MXL_ERR_INVALID_STATE), (ob, f))
     \<and> mxlFabricsInitiatorMakeProgressNonBlocking fuel (Some i) (ob, f) = (Ret (no_output_bounded MXL_ERR_INVALID_STATE), (ob, f))
     \<and> mxlFabricsInitiatorMakeProgressBlocking fuel rounds (Some i) ms (ob, f) = (Ret (no_output_bounded MXL_ERR_INVALID_STATE), (ob, f))
     \<and> (map_of (fo_infos ob) p = Some ti \<longrightarrow>
          mxlFabricsInitiatorAddTarget (Some i) (Some p) (ob, f) = (Ret (no_output MXL_ERR_INVALID_STATE), (ob, f))
          \<and> mxlFabricsInitiatorRemoveTarget (Some i) (Some p) (ob, f) = (Ret (no_output MXL_ERR_INVALID_STATE), (ob, f))))
   \<and> (mxlFabricsTargetSetup (Some t) (Some tcfg) mem True s = (Ret (st, out'), (ob, f)) \<and> st \<noteq> MXL_STATUS_OK \<longrightarrow>
     mxlFabricsTargetReadGrainNonBlocking fuel (Some t) True (ob, f) = (Ret (no_output_bounded MXL_ERR_INVALID_STATE), (ob, f))
     \<and> mxlFabricsTargetReadGrain fuel (Some t) ms True (ob, f) = (Ret (no_output_bounded MXL_ERR_INVALID_STATE), (ob, f))
     \<and> mxlFabricsTargetReadSamplesNonBlocking fuel (Some t) True True (ob, f) = (Ret (no_output_bounded MXL_ERR_INVALID_STATE), (ob, f))
     \<and> mxlFabricsTargetReadSamples fuel (Some t) ms True True (ob, f) = (Ret (no_output_bounded MXL_ERR_INVALID_STATE), (ob, f)))"
  using failed_initiator_setup [of i icfg s st out ob f] failed_target_setup [of t tcfg mem s st out' ob f]
  by (simp_all add: mxlFabricsInitiatorTransferGrain_def mxlFabricsInitiatorTransferSamples_def mxlFabricsInitiatorMakeProgressNonBlocking_def
      mxlFabricsInitiatorMakeProgressBlocking_def mxlFabricsInitiatorAddTarget_def mxlFabricsInitiatorRemoveTarget_def
      InitiatorWrapper_transferGrain_def InitiatorWrapper_transferSamples_def InitiatorWrapper_makeProgress_def
      InitiatorWrapper_makeProgressBlocking_def InitiatorWrapper_addTarget_def InitiatorWrapper_removeTarget_def with_info_def
      mxlFabricsTargetReadGrainNonBlocking_def mxlFabricsTargetReadGrain_def mxlFabricsTargetReadSamplesNonBlocking_def
      mxlFabricsTargetReadSamples_def TargetWrapper_readGrain_def TargetWrapper_readSamples_def at_unset_calls at_unset_reads
      pbind_def dereference_def)

section \<open>Who owns what\<close>

text \<open>
  Pointers to wrappers of one kind: \<open>insts\<close> are the instances with their lists, \<open>keys\<close> the wrappers in
  the heap and \<open>next\<close> the next pointer.
\<close>

definition owners :: "(nat \<rightharpoonup> FabricsInstance) \<Rightarrow> (FabricsInstance \<Rightarrow> nat list) \<Rightarrow> nat set \<Rightarrow> nat \<Rightarrow> bool" where
  "owners insts sel keys fresh \<longleftrightarrow>
     (\<forall>p fi. insts p = Some fi \<longrightarrow> distinct (sel fi) \<and> p < fresh)
     \<and> (\<forall>p fi x. insts p = Some fi \<longrightarrow> x \<in> set (sel fi) \<longrightarrow> x \<in> keys)
     \<and> (\<forall>p q fi fj x. insts p = Some fi \<longrightarrow> insts q = Some fj \<longrightarrow> x \<in> set (sel fi) \<longrightarrow> x \<in> set (sel fj) \<longrightarrow> p = q)
     \<and> (\<forall>k \<in> keys. k < fresh)"

definition well_owned :: "fabrics_objects \<Rightarrow> bool" where
  "well_owned ob \<longleftrightarrow>
     owners (map_of (fo_instances ob)) fi_targets (dom (map_of (fo_targets ob))) (fo_next ob)
     \<and> owners (map_of (fo_instances ob)) fi_initiators (dom (map_of (fo_initiators ob))) (fo_next ob)"

lemma ownersI:
  assumes "\<And>p fi. insts p = Some fi \<Longrightarrow> distinct (sel fi)" and "\<And>p fi. insts p = Some fi \<Longrightarrow> p < fresh"
    and "\<And>p fi x. insts p = Some fi \<Longrightarrow> x \<in> set (sel fi) \<Longrightarrow> x \<in> keys"
    and "\<And>p q fi fj x. insts p = Some fi \<Longrightarrow> insts q = Some fj \<Longrightarrow> x \<in> set (sel fi) \<Longrightarrow> x \<in> set (sel fj) \<Longrightarrow> p = q"
    and "\<And>k. k \<in> keys \<Longrightarrow> k < fresh"
  shows "owners insts sel keys fresh"
  unfolding owners_def using assms by blast

lemma ownersD:
  assumes "owners insts sel keys fresh" and "insts p = Some fi"
  shows "distinct (sel fi)" and "p < fresh" and "x \<in> set (sel fi) \<Longrightarrow> x \<in> keys"
    and "insts q = Some fj \<Longrightarrow> x \<in> set (sel fi) \<Longrightarrow> x \<in> set (sel fj) \<Longrightarrow> p = q"
  using assms unfolding owners_def by blast+

lemma owners_below: "owners insts sel keys fresh \<Longrightarrow> k \<in> keys \<Longrightarrow> k < fresh"
  unfolding owners_def by blast

lemma owners_Suc: "owners insts sel keys fresh \<Longrightarrow> owners insts sel keys (Suc fresh)"
  unfolding owners_def using less_SucI by blast

lemma owners_new: "owners insts sel keys fresh \<Longrightarrow> sel fi = [] \<Longrightarrow> owners (insts(fresh \<mapsto> fi)) sel keys (Suc fresh)"
  by (rule ownersI) (auto dest: ownersD owners_below simp: less_SucI split: if_splits)

lemma owners_add:
  assumes "owners insts sel keys fresh" and "insts p = Some fi" and "sel fi' = sel fi @ [fresh]"
  shows "owners (insts(p \<mapsto> fi')) sel (insert fresh keys) (Suc fresh)"
proof -
  have new: "insts q = Some fj \<Longrightarrow> fresh \<notin> set (sel fj)" for q fj
    using ownersD(3) [OF assms(1)] owners_below [OF assms(1)] by blast
  show ?thesis
  proof (rule ownersI)
    fix q r fj fk x
    assume "(insts(p \<mapsto> fi')) q = Some fj" "(insts(p \<mapsto> fi')) r = Some fk" "x \<in> set (sel fj)" "x \<in> set (sel fk)"
    then show "q = r" using assms(2,3) new ownersD(4) [OF assms(1)] by (auto split: if_splits)
  qed (use assms(2,3) new ownersD(1,2,3) [OF assms(1)] owners_below [OF assms(1)] in \<open>auto simp: less_SucI split: if_splits\<close>)
qed

lemma owners_same:
  assumes "owners insts sel keys fresh" and "insts p = Some fi" and "sel fi' = sel fi"
  shows "owners (insts(p \<mapsto> fi')) sel keys fresh"
  by (rule ownersI; use assms(2,3) ownersD [OF assms(1)] owners_below [OF assms(1)] in \<open>auto split: if_splits\<close>)

lemma owners_remove:
  assumes "owners insts sel keys fresh" and "insts p = Some fi" and "sel fi' = removeAll t (sel fi)" and "t \<in> set (sel fi)"
  shows "owners (insts(p \<mapsto> fi')) sel (keys - {t}) fresh"
  by (rule ownersI; use assms(2,3,4) ownersD [OF assms(1)] owners_below [OF assms(1)] in \<open>auto simp: distinct_removeAll split: if_splits\<close>)

lemma owners_drop:
  assumes "owners insts sel keys fresh" and "insts p = Some fi"
  shows "owners (insts(p := None)) sel (keys - set (sel fi)) fresh"
  by (rule ownersI; use assms(2) ownersD [OF assms(1)] owners_below [OF assms(1)] in \<open>auto split: if_splits\<close>)

text \<open>Destroying a peer always returns.\<close>

lemma close_regions_Ret: "fst (close_regions rs f) = Ret ()"
  by (induction rs arbitrary: f) (auto intro!: pbind_fst_Ret)

lemma close_domain_Ret: "fst (close_domain d f) = Ret ()"
  by (cases d) (auto simp: close_domain_def Domain_close_def intro!: pbind_fst_Ret close_regions_Ret)

lemma each_Ret: "(\<And>t f. fst (m (t, f)) = Ret ()) \<Longrightarrow> fst (each m (ts, f)) = Ret ()"
proof (induction ts arbitrary: f)
  case (Cons x ts)
  obtain k t where x: "x = (k, t)" by (cases x)
  obtain r t' f' where m: "m (t, f) = (r, (t', f'))" by (cases "m (t, f)") auto
  then have r: "r = Ret ()" using Cons.prems [of t f] by simp
  from Cons.IH [OF Cons.prems, of f'] show ?case by (cases "each m (ts, f')") (auto simp: x m r)
qed simp

lemma rc_destroy_Ret: "fst (rc_destroy (t, f)) = Ret ()"
  by (auto simp: rc_destroy_def net_eq split: option.split)

lemma destroy_Ret:
  "fst (RCTarget_destroy t f) = Ret ()" "fst (RDMTarget_destroy t' f) = Ret ()"
  "fst (RCInitiator_destroy ri f) = Ret ()" "fst (RDMInitiator_destroy ri' f) = Ret ()"
proof -
  show "fst (RCTarget_destroy t f) = Ret ()"
    unfolding RCTarget_destroy_def
    by (rule pbind_fst_Ret) (auto simp: release_Ret close_domain_Ret split: RCTargetState.split)
  show "fst (RDMTarget_destroy t' f) = Ret ()" "fst (RDMInitiator_destroy ri' f) = Ret ()"
    unfolding RDMTarget_destroy_def RDMInitiator_destroy_def
    by (rule pbind_fst_Ret; simp add: release_Ret close_domain_Ret)+
  obtain ts f1 where w: "with_local (ri_targets ri) (each rc_destroy) f = (Ret ts, f1)"
    using each_Ret [of rc_destroy "ri_targets ri" f, OF rc_destroy_Ret]
    by (cases "each rc_destroy (ri_targets ri, f)") (auto simp: with_local_def)
  show "fst (RCInitiator_destroy ri f) = Ret ()"
    unfolding RCInitiator_destroy_def
    by (simp add: pbind_Ret [of "with_local (ri_targets ri) (each rc_destroy)", OF w] close_domain_Ret pbind_fst_Ret)
qed

lemma reset_eq:
  "TargetWrapper_reset (w, f) = (Ret (), (None, snd (snd (TargetWrapper_reset (w, f)))))"
  "InitiatorWrapper_reset (v, f) = (Ret (), (None, snd (snd (InitiatorWrapper_reset (v, f)))))"
  by (cases w; auto simp: TargetWrapper_reset_def own_eq net_eq pbind_def destroy_Ret split: TargetInner.split)
     (cases v; auto simp: InitiatorWrapper_reset_def own_eq net_eq pbind_def destroy_Ret split: InitiatorInner.split)

text \<open>What the calls that create and destroy do to the heap.\<close>

lemma get_instance_eq: "get_instance p (ob, f) = (dereference (fo_instances ob) p, (ob, f))"
  by (simp add: get_instance_def)

lemma set_instance_eq: "set_instance p fi (ob, f) = (Ret (), (ob\<lparr>fo_instances := AList.update p fi (fo_instances ob)\<rparr>, f))"
  by (simp add: set_instance_def own_eq)

lemma create_eq:
  assumes "map_of (fo_instances ob) p = Some fi"
  shows "createTarget p (ob, f) = (Ret (fo_next ob),
      (ob\<lparr>fo_next := Suc (fo_next ob), fo_targets := AList.update (fo_next ob) None (fo_targets ob),
         fo_instances := AList.update p (fi\<lparr>fi_targets := fi_targets fi @ [fo_next ob]\<rparr>) (fo_instances ob)\<rparr>, f))"
    and "createInitiator p (ob, f) = (Ret (fo_next ob),
      (ob\<lparr>fo_next := Suc (fo_next ob), fo_initiators := AList.update (fo_next ob) None (fo_initiators ob),
         fo_instances := AList.update p (fi\<lparr>fi_initiators := fi_initiators fi @ [fo_next ob]\<rparr>) (fo_instances ob)\<rparr>, f))"
  using assms
  by (simp_all add: createTarget_def createInitiator_def pbind_def get_instance_eq dereference_def new_pointer_eq own_eq set_instance_eq)

text \<open>States that differ in what libfabric was asked and in the heap of one kind.\<close>

lemma delete_eq:
  "map_of (fo_targets ob) t = Some w \<Longrightarrow> \<exists>h f'. delete_target t (ob, f) = (Ret (), (ob\<lparr>fo_targets := h\<rparr>, f'))
     \<and> map_of h = (map_of (fo_targets ob))(t := None)"
  "map_of (fo_initiators ob) i = Some v \<Longrightarrow> \<exists>h f'. delete_initiator i (ob, f) = (Ret (), (ob\<lparr>fo_initiators := h\<rparr>, f'))
     \<and> map_of h = (map_of (fo_initiators ob))(i := None)"
  using reset_eq(1) [of w f] reset_eq(2) [of v f]
  by (auto simp: delete_target_def delete_initiator_def pbind_def at_target_def at_initiator_def dereference_def own_eq
      update_conv' delete_conv' split: prod.splits)

text \<open>
  The two kinds of wrappers are kept in the same way: in a heap, on the list of the instance that made them,
  and deleted together with the peer they hold.
\<close>

locale object_heap =
  fixes hp :: "fabrics_objects \<Rightarrow> 'o heap" and put_hp :: "'o heap \<Rightarrow> fabrics_objects \<Rightarrow> fabrics_objects"
    and del :: "nat \<Rightarrow> unit api_prog" and lst :: "FabricsInstance \<Rightarrow> nat list"
    and put_lst :: "nat list \<Rightarrow> FabricsInstance \<Rightarrow> FabricsInstance" and destroy :: "nat \<Rightarrow> nat \<Rightarrow> unit api_prog"
  assumes hp_put [simp]: "hp (put_hp h ob) = h" and put_put [simp]: "put_hp h (put_hp h' ob) = put_hp h ob"
    and put_same [simp]: "put_hp (hp ob) ob = ob" and instances_put [simp]: "fo_instances (put_hp h ob) = fo_instances ob"
    and hp_instances [simp]: "hp (ob\<lparr>fo_instances := is\<rparr>) = hp ob" and lst_put [simp]: "lst (put_lst ps fi) = ps"
    and del_known: "map_of (hp ob) x = Some w \<Longrightarrow>
      \<exists>h f'. del x (ob, f) = (Ret (), (put_hp h ob, f')) \<and> map_of h = (map_of (hp ob))(x := None)"
    and destroy_eq: "destroy p x = pbind (get_instance p) (\<lambda>fi.
      if x \<notin> set (lst fi) then pthrow (StatusException MXL_ERR_INVALID_ARG)
      else pbind (del x) (\<lambda>_. set_instance p (put_lst (removeAll x (lst fi)) fi)))"
begin

lemma delete_all_known:
  "distinct ps \<Longrightarrow> set ps \<subseteq> dom (map_of (hp ob)) \<Longrightarrow>
     \<exists>h f'. delete_all del ps (ob, f) = (Ret (), (put_hp h ob, f')) \<and> map_of h = map_of (hp ob) |` (- set ps)"
proof (induction ps arbitrary: ob f)
  case Nil show ?case by (auto intro!: exI [of _ "hp ob"])
next
  case (Cons x ps)
  then obtain w where "map_of (hp ob) x = Some w" by auto
  from del_known [OF this, of f] obtain h f1 where d: "del x (ob, f) = (Ret (), (put_hp h ob, f1))"
    and h: "map_of h = (map_of (hp ob))(x := None)" by blast
  have "set ps \<subseteq> dom (map_of (hp (put_hp h ob)))" using Cons.prems by (auto simp: h)
  from Cons.IH [OF _ this, of f1] Cons.prems(1) obtain h' f' where
    "delete_all del ps (put_hp h ob, f1) = (Ret (), (put_hp h' ob, f'))" "map_of h' = map_of h |` (- set ps)" by auto
  with d show ?case by (auto simp: pbind_def h restrict_map_def fun_eq_iff)
qed

lemma destroy_known:
  assumes "owners (map_of (fo_instances ob)) lst (dom (map_of (hp ob))) fresh" and "map_of (fo_instances ob) p = Some fi" and "x \<in> set (lst fi)"
  shows "\<exists>h f'. destroy p x (ob, f) =
        (Ret (), ((put_hp h ob)\<lparr>fo_instances := AList.update p (put_lst (removeAll x (lst fi)) fi) (fo_instances ob)\<rparr>, f'))
      \<and> map_of h = (map_of (hp ob))(x := None)"
proof -
  obtain w where "map_of (hp ob) x = Some w" using ownersD(3) [OF assms(1,2,3)] by auto
  from del_known [OF this, of f] show ?thesis
    using assms(2,3) by (auto simp: destroy_eq pbind_def get_instance_eq dereference_def set_instance_eq)
qed

lemma destroy_unknown:
  "map_of (fo_instances ob) p = Some fi \<Longrightarrow> x \<notin> set (lst fi) \<Longrightarrow>
     destroy p x (ob, f) = (Throw (StatusException MXL_ERR_INVALID_ARG), (ob, f))"
  by (simp add: destroy_eq pbind_def get_instance_eq dereference_def)

lemma destroy_twice:
  assumes "owners (map_of (fo_instances ob)) lst (dom (map_of (hp ob))) fresh" and "map_of (fo_instances ob) p = Some fi" and "x \<in> set (lst fi)"
  shows "\<exists>h ob' f'. destroy p x (ob, f) = (Ret (), (ob', f'))
    \<and> ob' = (put_hp h ob)\<lparr>fo_instances := AList.update p (put_lst (removeAll x (lst fi)) fi) (fo_instances ob)\<rparr>
    \<and> map_of (hp ob') = (map_of (hp ob))(x := None)
    \<and> destroy p x (ob', f') = (Throw (StatusException MXL_ERR_INVALID_ARG), (ob', f'))"
proof -
  from destroy_known [OF assms, of f] obtain h f' where
    d: "destroy p x (ob, f) = (Ret (), ((put_hp h ob)\<lparr>fo_instances := AList.update p (put_lst (removeAll x (lst fi)) fi) (fo_instances ob)\<rparr>, f'))"
    and h: "map_of h = (map_of (hp ob))(x := None)" by blast
  have "destroy p x ((put_hp h ob)\<lparr>fo_instances := AList.update p (put_lst (removeAll x (lst fi)) fi) (fo_instances ob)\<rparr>, f')
      = (Throw (StatusException MXL_ERR_INVALID_ARG), ((put_hp h ob)\<lparr>fo_instances := AList.update p (put_lst (removeAll x (lst fi)) fi) (fo_instances ob)\<rparr>, f'))"
    by (rule destroy_unknown [of _ _ "put_lst (removeAll x (lst fi)) fi"]) (simp_all add: update_conv')
  with d h show ?thesis by auto
qed

end

interpretation target_heap: object_heap fo_targets "\<lambda>h. fo_targets_update (\<lambda>_. h)" delete_target
    fi_targets "\<lambda>ps. fi_targets_update (\<lambda>_. ps)" destroyTarget
  by unfold_locales (erule delete_eq(1) | simp add: destroyTarget_def)+

interpretation initiator_heap: object_heap fo_initiators "\<lambda>h. fo_initiators_update (\<lambda>_. h)" delete_initiator
    fi_initiators "\<lambda>ps. fi_initiators_update (\<lambda>_. ps)" destroyInitiator
  by unfold_locales (erule delete_eq(2) | simp add: destroyInitiator_def)+

lemma map_of_update_dom: "dom (map_of (AList.update k v h)) = insert k (dom (map_of h))"
  by (auto simp: update_conv')

lemma owned_same_keys:
  "well_owned ob \<Longrightarrow> fo_instances ob' = fo_instances ob \<Longrightarrow> dom (map_of (fo_targets ob')) = dom (map_of (fo_targets ob)) \<Longrightarrow>
     dom (map_of (fo_initiators ob')) = dom (map_of (fo_initiators ob)) \<Longrightarrow> fo_next ob' = fo_next ob \<or> fo_next ob' = Suc (fo_next ob) \<Longrightarrow> well_owned ob'"
  by (auto simp: well_owned_def owners_Suc)

lemma at_keeps_owned:
  "well_owned (fst s) \<Longrightarrow> well_owned (fst (snd (at_target t mt s)))"
  "well_owned (fst s) \<Longrightarrow> well_owned (fst (snd (at_initiator i mi s)))"
proof -
  assume ob: "well_owned (fst s)"
  show "well_owned (fst (snd (at_target t mt s)))"
  proof (cases "map_of (fo_targets (fst s)) t")
    case (Some w)
    then have "insert t (dom (map_of (fo_targets (fst s)))) = dom (map_of (fo_targets (fst s)))" by auto
    with Some show ?thesis
      by (cases s, cases "mt (w, snd s)")
         (simp add: at_target_def pbind_def dereference_def owned_same_keys [OF ob] map_of_update_dom)
  qed (use ob in \<open>cases s; simp add: at_target_def pbind_def dereference_def\<close>)
  show "well_owned (fst (snd (at_initiator i mi s)))"
  proof (cases "map_of (fo_initiators (fst s)) i")
    case (Some w)
    then have "insert i (dom (map_of (fo_initiators (fst s)))) = dom (map_of (fo_initiators (fst s)))" by auto
    with Some show ?thesis
      by (cases s, cases "mi (w, snd s)")
         (simp add: at_initiator_def pbind_def dereference_def owned_same_keys [OF ob] map_of_update_dom)
  qed (use ob in \<open>cases s; simp add: at_initiator_def pbind_def dereference_def\<close>)
qed

definition keeps_owned :: "'a api_prog \<Rightarrow> bool" where
  "keeps_owned m \<longleftrightarrow> (\<forall>s. well_owned (fst s) \<longrightarrow> well_owned (fst (snd (m s))))"

lemma keeps_owned_new: "keeps_owned (new_info info)" "keeps_owned new_pointer"
  unfolding keeps_owned_def by (auto simp: new_info_eq new_pointer_eq intro: owned_same_keys)

lemma keeps_owned_intros:
  "keeps_owned (pret a)" "keeps_owned (pthrow e)" "keeps_owned (plift r)" "keeps_owned pget"
  "keeps_owned (at_target t mt)" "keeps_owned (at_initiator i mi)" "keeps_owned (get_instance p)"
  unfolding keeps_owned_def by (auto simp: at_keeps_owned get_instance_eq)

lemma keeps_owned_pbind: "keeps_owned m \<Longrightarrow> (\<And>a. keeps_owned (g a)) \<Longrightarrow> keeps_owned (pbind m g)"
  unfolding keeps_owned_def pbind_def by (simp split: prod.split outcome.split) (metis fst_conv snd_conv)

lemma keeps_owned_pthen: "keeps_owned m \<Longrightarrow> (\<And>a. keeps_owned (g a)) \<Longrightarrow> keeps_owned (pthen m g)"
  unfolding pthen_def by (rule keeps_owned_pbind) (auto intro: keeps_owned_intros split: option.split)

lemma keeps_owned_try_run: "keeps_owned m \<Longrightarrow> keeps_owned (try_run failed m)"
  unfolding keeps_owned_def try_run_def pcatch_def by (simp split: prod.split outcome.split) (metis fst_conv snd_conv)

lemma create_keeps_owned: "keeps_owned FabricsInstance_new" "keeps_owned (createTarget p)" "keeps_owned (createInitiator p)"
proof -
  show "keeps_owned FabricsInstance_new"
    unfolding keeps_owned_def
    by (auto simp: FabricsInstance_new_def pbind_def new_pointer_eq set_instance_eq well_owned_def update_conv' owners_new)
  have "well_owned ob \<Longrightarrow> well_owned (fst (snd (createTarget p (ob, f)))) \<and> well_owned (fst (snd (createInitiator p (ob, f))))" for ob f
  proof (cases "map_of (fo_instances ob) p")
    case None
    then show "well_owned ob \<Longrightarrow> ?thesis" by (simp add: createTarget_def createInitiator_def pbind_def get_instance_eq dereference_def)
  next
    case (Some fi)
    assume "well_owned ob"
    with Some show ?thesis
      by (simp add: create_eq well_owned_def update_conv' map_of_update_dom [unfolded update_conv'] owners_add owners_same owners_Suc)
  qed
  then show "keeps_owned (createTarget p)" "keeps_owned (createInitiator p)" unfolding keeps_owned_def by auto
qed

lemma delete_instance_eq:
  assumes "well_owned ob" and "map_of (fo_instances ob) p = Some fi"
  shows "\<exists>hi ht f'. FabricsInstance_delete p (ob, f) =
      (Ret (), (ob\<lparr>fo_initiators := hi, fo_targets := ht, fo_instances := AList.delete p (fo_instances ob)\<rparr>, f'))
    \<and> map_of hi = map_of (fo_initiators ob) |` (- set (fi_initiators fi)) \<and> map_of ht = map_of (fo_targets ob) |` (- set (fi_targets fi))"
proof -
  note o = assms(1)[unfolded well_owned_def]
  obtain hi f1 where i: "delete_all delete_initiator (fi_initiators fi) (ob, f) = (Ret (), (ob\<lparr>fo_initiators := hi\<rparr>, f1))"
      "map_of hi = map_of (fo_initiators ob) |` (- set (fi_initiators fi))"
    using initiator_heap.delete_all_known [of "fi_initiators fi" ob f] ownersD(1,3) [OF conjunct2 [OF o] assms(2)] by blast
  obtain ht f2 where t: "delete_all delete_target (fi_targets fi) (ob\<lparr>fo_initiators := hi\<rparr>, f1) = (Ret (), (ob\<lparr>fo_initiators := hi, fo_targets := ht\<rparr>, f2))"
      "map_of ht = map_of (fo_targets ob) |` (- set (fi_targets fi))"
    using target_heap.delete_all_known [of "fi_targets fi" "ob\<lparr>fo_initiators := hi\<rparr>" f1] ownersD(1,3) [OF conjunct1 [OF o] assms(2)] by auto
  show ?thesis
    using assms(2) i t by (auto simp: FabricsInstance_delete_def pbind_def get_instance_eq dereference_def own_eq)
qed

lemma destroy_keeps_owned: "keeps_owned (destroyTarget p t)" "keeps_owned (destroyInitiator p i)" "keeps_owned (FabricsInstance_delete p)"
proof -
  have "well_owned ob \<Longrightarrow> well_owned (fst (snd (destroyTarget p t (ob, f)))) \<and> well_owned (fst (snd (destroyInitiator p i (ob, f))))
      \<and> well_owned (fst (snd (FabricsInstance_delete p (ob, f))))" for ob f
  proof (cases "map_of (fo_instances ob) p")
    case None
    then show "well_owned ob \<Longrightarrow> ?thesis"
      by (simp add: destroyTarget_def destroyInitiator_def FabricsInstance_delete_def pbind_def get_instance_eq dereference_def)
  next
    case (Some fi)
    assume ob: "well_owned ob"
    note o = ob[unfolded well_owned_def]
    have "well_owned (fst (snd (destroyTarget p t (ob, f))))"
    proof (cases "t \<in> set (fi_targets fi)")
      case True
      with target_heap.destroy_known [OF conjunct1 [OF o] Some True, of f] show ?thesis
        using owners_remove [OF conjunct1 [OF o] Some] owners_same [OF conjunct2 [OF o] Some]
        by (auto simp: well_owned_def update_conv')
    qed (use ob in \<open>simp add: target_heap.destroy_unknown [OF Some]\<close>)
    moreover have "well_owned (fst (snd (destroyInitiator p i (ob, f))))"
    proof (cases "i \<in> set (fi_initiators fi)")
      case True
      with initiator_heap.destroy_known [OF conjunct2 [OF o] Some True, of f] show ?thesis
        using owners_remove [OF conjunct2 [OF o] Some] owners_same [OF conjunct1 [OF o] Some]
        by (auto simp: well_owned_def update_conv')
    qed (use ob in \<open>simp add: initiator_heap.destroy_unknown [OF Some]\<close>)
    moreover have "well_owned (fst (snd (FabricsInstance_delete p (ob, f))))"
      using delete_instance_eq [OF ob Some, of f] owners_drop [OF conjunct1 [OF o] Some] owners_drop [OF conjunct2 [OF o] Some]
      by (auto simp: well_owned_def delete_conv' dom_restrict Diff_eq)
    ultimately show ?thesis by blast
  qed
  then show "keeps_owned (destroyTarget p t)" "keeps_owned (destroyInitiator p i)" "keeps_owned (FabricsInstance_delete p)"
    unfolding keeps_owned_def by auto
qed

lemma free_keeps_owned: "keeps_owned (own (pmodify (\<lambda>ob. ob\<lparr>fo_infos := g (fo_infos ob)\<rparr>)))"
  unfolding keeps_owned_def by (auto simp: own_eq intro: owned_same_keys)

lemmas keeps_owned_rules = keeps_owned_intros keeps_owned_new create_keeps_owned destroy_keeps_owned free_keeps_owned
  keeps_owned_pbind keeps_owned_pthen keeps_owned_try_run

lemma keeps_owned_calls:
  "keeps_owned (call_initiator i m)" "keeps_owned (progress_initiator i mb)" "keeps_owned (read_target t out mr)" "keeps_owned (with_info i p mi)"
  by (auto simp: call_initiator_def progress_initiator_def read_target_def with_info_def
      intro!: keeps_owned_rules split: option.split bool.split)

text \<open>Everything a client can do with the interface, from the start of its process.\<close>

definition no_objects :: fabrics_objects where
  "no_objects = \<lparr>fo_instances = [], fo_targets = [], fo_initiators = [], fo_infos = [], fo_next = 0\<rparr>"

inductive client_run :: "fabrics_objects \<times> fabric \<Rightarrow> bool" where
  start: "client_run (no_objects, f)"
| create_instance: "client_run s \<Longrightarrow> client_run (snd (mxlFabricsCreateInstance inst out s))"
| destroy_instance: "client_run s \<Longrightarrow> client_run (snd (mxlFabricsDestroyInstance fi s))"
| create_target: "client_run s \<Longrightarrow> client_run (snd (mxlFabricsCreateTarget fi out s))"
| destroy_target: "client_run s \<Longrightarrow> client_run (snd (mxlFabricsDestroyTarget fi t s))"
| target_setup: "client_run s \<Longrightarrow> client_run (snd (mxlFabricsTargetSetup t tcfg mem out s))"
| read_grain_now: "client_run s \<Longrightarrow> client_run (snd (mxlFabricsTargetReadGrainNonBlocking fuel t out s))"
| read_grain: "client_run s \<Longrightarrow> client_run (snd (mxlFabricsTargetReadGrain fuel t ms out s))"
| read_samples_now: "client_run s \<Longrightarrow> client_run (snd (mxlFabricsTargetReadSamplesNonBlocking fuel t out out2 s))"
| read_samples: "client_run s \<Longrightarrow> client_run (snd (mxlFabricsTargetReadSamples fuel t ms out out2 s))"
| create_initiator: "client_run s \<Longrightarrow> client_run (snd (mxlFabricsCreateInitiator fi out s))"
| destroy_initiator: "client_run s \<Longrightarrow> client_run (snd (mxlFabricsDestroyInitiator fi i s))"
| initiator_setup: "client_run s \<Longrightarrow> client_run (snd (mxlFabricsInitiatorSetup i icfg s))"
| add_target: "client_run s \<Longrightarrow> client_run (snd (mxlFabricsInitiatorAddTarget i p s))"
| remove_target: "client_run s \<Longrightarrow> client_run (snd (mxlFabricsInitiatorRemoveTarget i p s))"
| transfer_grain: "client_run s \<Longrightarrow> client_run (snd (mxlFabricsInitiatorTransferGrain i g s1 s2 s))"
| transfer_samples: "client_run s \<Longrightarrow> client_run (snd (mxlFabricsInitiatorTransferSamples i h n s))"
| progress_now: "client_run s \<Longrightarrow> client_run (snd (mxlFabricsInitiatorMakeProgressNonBlocking fuel i s))"
| progress: "client_run s \<Longrightarrow> client_run (snd (mxlFabricsInitiatorMakeProgressBlocking fuel rounds i ms s))"
| info_from_string: "client_run s \<Longrightarrow> client_run (snd (mxlFabricsTargetInfoFromString sv txt out s))"
| info_to_string: "client_run s \<Longrightarrow> client_run (snd (mxlFabricsTargetInfoToString sv p buf room s))"
| free_info: "client_run s \<Longrightarrow> client_run (snd (mxlFabricsFreeTargetInfo p s))"

lemma interface_keeps_owned:
  "keeps_owned (mxlFabricsCreateInstance inst out)" "keeps_owned (mxlFabricsDestroyInstance fi)"
  "keeps_owned (mxlFabricsCreateTarget fi out)" "keeps_owned (mxlFabricsDestroyTarget fi t)" "keeps_owned (mxlFabricsTargetSetup t tcfg mem out)"
  "keeps_owned (mxlFabricsTargetReadGrainNonBlocking fuel t out)" "keeps_owned (mxlFabricsTargetReadGrain fuel t ms out)"
  "keeps_owned (mxlFabricsTargetReadSamplesNonBlocking fuel t out out2)" "keeps_owned (mxlFabricsTargetReadSamples fuel t ms out out2)"
  "keeps_owned (mxlFabricsCreateInitiator fi out)" "keeps_owned (mxlFabricsDestroyInitiator fi i)" "keeps_owned (mxlFabricsInitiatorSetup i icfg)"
  "keeps_owned (mxlFabricsInitiatorAddTarget i p)" "keeps_owned (mxlFabricsInitiatorRemoveTarget i p)"
  "keeps_owned (mxlFabricsInitiatorTransferGrain i g s1 s2)" "keeps_owned (mxlFabricsInitiatorTransferSamples i h n)"
  "keeps_owned (mxlFabricsInitiatorMakeProgressNonBlocking fuel i)" "keeps_owned (mxlFabricsInitiatorMakeProgressBlocking fuel rounds i ms)"
  "keeps_owned (mxlFabricsTargetInfoFromString sv txt out)" "keeps_owned (mxlFabricsTargetInfoToString sv p buf room)"
  "keeps_owned (mxlFabricsFreeTargetInfo p)"
  unfolding mxlFabricsCreateInstance_def mxlFabricsDestroyInstance_def mxlFabricsCreateTarget_def mxlFabricsDestroyTarget_def
    mxlFabricsTargetSetup_def mxlFabricsTargetReadGrainNonBlocking_def mxlFabricsTargetReadGrain_def
    mxlFabricsTargetReadSamplesNonBlocking_def mxlFabricsTargetReadSamples_def mxlFabricsCreateInitiator_def
    mxlFabricsDestroyInitiator_def mxlFabricsInitiatorSetup_def mxlFabricsInitiatorAddTarget_def mxlFabricsInitiatorRemoveTarget_def
    mxlFabricsInitiatorTransferGrain_def mxlFabricsInitiatorTransferSamples_def mxlFabricsInitiatorMakeProgressNonBlocking_def
    mxlFabricsInitiatorMakeProgressBlocking_def mxlFabricsTargetInfoFromString_def mxlFabricsTargetInfoToString_def
    mxlFabricsFreeTargetInfo_def
  by (auto intro!: keeps_owned_rules keeps_owned_calls split: option.split bool.split prod.split)

lemma client_run_owned: "client_run s \<Longrightarrow> well_owned (fst s)"
  by (induction rule: client_run.induct)
     (simp_all add: interface_keeps_owned [unfolded keeps_owned_def, rule_format],
      simp add: no_objects_def well_owned_def owners_def)

text \<open>
  C38: In every state a client can bring about, destroying a target through a live instance returns: a target of
  that instance goes, all others stay, and destroying it again is refused; a pointer that is stale or
  belongs to another instance is refused without being followed. Destroying the instance itself takes
  exactly its own targets and initiators with it.
\<close>

theorem destruction_follows_ownership:
  assumes "client_run (ob, f)" and "map_of (fo_instances ob) p = Some fi"
  shows "(t \<in> set (fi_targets fi) \<longrightarrow>
      (\<exists>ob' f'. mxlFabricsDestroyTarget (Some p) (Some t) (ob, f) = (Ret (no_output MXL_STATUS_OK), (ob', f'))
        \<and> map_of (fo_targets ob') = (map_of (fo_targets ob))(t := None) \<and> fo_initiators ob' = fo_initiators ob
        \<and> fst (mxlFabricsDestroyTarget (Some p) (Some t) (ob', f')) = Ret (no_output MXL_ERR_INVALID_ARG)))
    \<and> (u \<notin> set (fi_targets fi) \<longrightarrow>
      mxlFabricsDestroyTarget (Some p) (Some u) (ob, f) = (Ret (no_output MXL_ERR_INVALID_ARG), (ob, f)))
    \<and> (\<exists>ob' f'. mxlFabricsDestroyInstance (Some p) (ob, f) = (Ret (no_output MXL_STATUS_OK), (ob', f'))
      \<and> map_of (fo_instances ob') = (map_of (fo_instances ob))(p := None)
      \<and> map_of (fo_targets ob') = map_of (fo_targets ob) |` (- set (fi_targets fi))
      \<and> map_of (fo_initiators ob') = map_of (fo_initiators ob) |` (- set (fi_initiators fi)))"
proof (intro conjI impI)
  have o: "well_owned ob" using client_run_owned [OF assms(1)] by simp
  show "\<exists>ob' f'. mxlFabricsDestroyTarget (Some p) (Some t) (ob, f) = (Ret (no_output MXL_STATUS_OK), (ob', f'))
      \<and> map_of (fo_targets ob') = (map_of (fo_targets ob))(t := None) \<and> fo_initiators ob' = fo_initiators ob
      \<and> fst (mxlFabricsDestroyTarget (Some p) (Some t) (ob', f')) = Ret (no_output MXL_ERR_INVALID_ARG)"
    if "t \<in> set (fi_targets fi)"
    using target_heap.destroy_twice [OF conjunct1 [OF o [unfolded well_owned_def]] assms(2) that, of f]
    by (auto simp: mxlFabricsDestroyTarget_def try_run_def pcatch_def pbind_def exn_status_def)
  show "mxlFabricsDestroyTarget (Some p) (Some u) (ob, f) = (Ret (no_output MXL_ERR_INVALID_ARG), (ob, f))" if "u \<notin> set (fi_targets fi)"
    using that by (simp add: mxlFabricsDestroyTarget_def try_run_def pcatch_def pbind_def target_heap.destroy_unknown [OF assms(2)] exn_status_def)
  show "\<exists>ob' f'. mxlFabricsDestroyInstance (Some p) (ob, f) = (Ret (no_output MXL_STATUS_OK), (ob', f'))
      \<and> map_of (fo_instances ob') = (map_of (fo_instances ob))(p := None)
      \<and> map_of (fo_targets ob') = map_of (fo_targets ob) |` (- set (fi_targets fi))
      \<and> map_of (fo_initiators ob') = map_of (fo_initiators ob) |` (- set (fi_initiators fi))"
    using delete_instance_eq [OF o assms(2), of f]
    by (auto simp: mxlFabricsDestroyInstance_def try_run_def pcatch_def pbind_def delete_conv')
qed

text \<open>The name the interface gives to automatic selection is not one it reads.\<close>

lemma auto_provider_is_not_read:
  "mxlFabricsProviderToString MXL_FABRICS_PROVIDER_AUTO True (Some 5) = (MXL_STATUS_OK, Some 5, Some (''auto'' @ [CHR 0x00]))"
  "mxlFabricsProviderFromString (Some ''auto'') True = (MXL_ERR_INVALID_ARG, None)"
  by code_simp+

lemma provider_roundtrip:
  "mxlFabricsProviderFromString (Some s) True = (MXL_STATUS_OK, Some provider) \<Longrightarrow> provider_name provider = Some s"
  by (auto simp: mxlFabricsProviderFromString_def providerFromString_def providerToAPI_def provider_name_def split: if_splits)

section \<open>Examples\<close>

definition ex_target_info :: TargetInfo where
  "ex_target_info = \<lparr>ti_id = 7, ti_address = [10, 0, 0, 1], ti_regions = [\<lparr>rr_addr = 4096, rr_len = 100, rr_rkey = 3\<rparr>], ti_bounce = Some (2, 64)\<rparr>"

text \<open>A JSON library that writes one value, and reads it.\<close>

definition ex_text :: text_services where
  "ex_text =
     \<lparr>sv_parse = (\<lambda>s. if s = ''{..}'' then Some (TargetInfo_json ex_target_info) else None),
      sv_uuid_from_string = (\<lambda>_. None), sv_uuid_to_string = (\<lambda>_. []),
      sv_serialize = (\<lambda>v. if v = TargetInfo_json ex_target_info then ''{..}'' else ''null'')\<rparr>"

lemma target_info_travels_as_text_witness:
  "fst (mxlFabricsTargetInfoToString ex_text (Some 0) True (Some 5) (no_objects\<lparr>fo_infos := [(0, ex_target_info)], fo_next := 1\<rparr>, ex_queues CqAgain EqAgain))
     = Ret (MXL_STATUS_OK, Some 5, Some (''{..}'' @ [CHR 0x00]))"
proof -
  have t: "TargetInfo_toJSON ex_text ex_target_info = ''{..}''" by (simp add: TargetInfo_toJSON_def ex_text_def)
  have p: "sv_parse ex_text (sv_serialize ex_text (TargetInfo_json ex_target_info)) = Some (TargetInfo_json ex_target_info)"
    by (simp add: ex_text_def)
  have a: "ti_address ex_target_info \<noteq> []" by (simp add: ex_target_info_def)
  have i: "map_of (fo_infos (no_objects\<lparr>fo_infos := [(0, ex_target_info)], fo_next := 1\<rparr>)) 0 = Some ex_target_info" by simp
  show ?thesis
    using target_info_travels_as_text [OF i a p, of _ "ex_queues CqAgain EqAgain"] by (simp add: t)
qed

text \<open>Whatever the flow, setting up an initiator for an unknown provider fails.\<close>

lemma failed_setup_leaves_no_peer_witness:
  "\<forall>reader. fst (mxlFabricsInitiatorTransferSamples (Some 0) 100 10
     (snd (mxlFabricsInitiatorSetup (Some 0) (Some \<lparr>ic_provider = MXL_FABRICS_PROVIDER_OTHER 9, ic_reader = reader\<rparr>)
        (no_objects\<lparr>fo_initiators := [(0, None)], fo_next := 1\<rparr>, ex_queues CqAgain EqAgain))))
   = Ret (MXL_ERR_INVALID_STATE, None)"
proof
  fix reader
  let ?s = "(no_objects\<lparr>fo_initiators := [(0, None)], fo_next := 1\<rparr>, ex_queues CqAgain EqAgain)"
  let ?cfg = "\<lparr>ic_provider = MXL_FABRICS_PROVIDER_OTHER 9, ic_reader = reader\<rparr>"
  have "mxlFabricsInitiatorSetup (Some 0) (Some ?cfg) ?s = (Ret (MXL_ERR_INVALID_ARG, None), ?s)"
    by (simp add: mxlFabricsInitiatorSetup_def call_initiator_def try_run_def pcatch_def pbind_def at_initiator_def dereference_def
        InitiatorWrapper_setup_def InitiatorWrapper_reset_def own_eq connection_oriented_def exn_status_def no_objects_def)
  then show "fst (mxlFabricsInitiatorTransferSamples (Some 0) 100 10 (snd (mxlFabricsInitiatorSetup (Some 0) (Some ?cfg) ?s)))
      = Ret (MXL_ERR_INVALID_STATE, None)"
    using failed_setup_leaves_no_peer [of 0 ?cfg ?s MXL_ERR_INVALID_ARG None "fst ?s" "snd ?s"] by simp
qed

lemma destruction_follows_ownership_witness:
  "\<exists>s'. mxlFabricsDestroyTarget (Some 0) (Some 1)
     (snd (mxlFabricsCreateTarget (Some 0) True (snd (mxlFabricsCreateInstance (Some 0) True (no_objects, ex_queues CqAgain EqAgain)))))
     = (Ret (MXL_STATUS_OK, None), s')"
proof -
  let ?s = "snd (mxlFabricsCreateTarget (Some 0) True (snd (mxlFabricsCreateInstance (Some 0) True (no_objects, ex_queues CqAgain EqAgain))))"
  let ?fi = "\<lparr>fi_targets = [1], fi_initiators = []\<rparr>"
  have "client_run ?s" by (intro client_run.intros)
  then have run: "client_run (fst ?s, snd ?s)" by simp
  have "map_of (fo_instances (fst ?s)) 0 = Some ?fi"
    by (simp add: mxlFabricsCreateTarget_def mxlFabricsCreateInstance_def try_run_def pcatch_def pbind_def FabricsInstance_new_def
        new_pointer_eq set_instance_eq create_eq no_objects_def)
  from conjunct1 [OF destruction_follows_ownership [OF run this, of 1 1]] show ?thesis by auto
qed

end
