(* ===== verification/Relay.thy ===== *)
theory Relay
  imports FabricsData
begin

text \<open>
  The relays of the fabrics demo (\<open>tools/mxl-fabrics-demo/demo.cpp\<close>): an initiator that reads a flow and
  transfers what it reads, and a target that commits what arrives. They only use the two C interfaces;
  what these answer, the clock and the signal to end are functions of the number of calls made so far.
  A loop takes a bound on its rounds and answers \<open>None\<close> when it is reached. The relay of a discrete flow
  refines a cursor that moves through the slices of one grain after the other.
\<close>

section \<open>What the interfaces answer\<close>

record demo_env =
  de_exit :: "nat \<Rightarrow> bool"
  de_clock :: "nat \<Rightarrow> int"
  de_index :: "nat \<Rightarrow> u64"
  de_slices :: "nat \<Rightarrow> u64 \<Rightarrow> u16 \<Rightarrow> mxlStatus \<times> mxlGrainInfo"
  de_samples :: "nat \<Rightarrow> u64 \<Rightarrow> u64 \<Rightarrow> mxlStatus"
  de_head :: "nat \<Rightarrow> u64"
  de_transfer :: "nat \<Rightarrow> mxlStatus"
  de_progress :: "nat \<Rightarrow> mxlStatus"
  de_grain :: "nat \<Rightarrow> mxlStatus \<times> u64"
  de_batch :: "nat \<Rightarrow> mxlStatus \<times> u64 \<times> u64"
  de_open :: "nat \<Rightarrow> mxlStatus"
  de_commit :: "nat \<Rightarrow> mxlStatus"
  de_call :: "nat \<Rightarrow> mxlStatus"

section \<open>Waiting for transfers\<close>

text \<open>Either the caller returns with a status, or the wait is over.\<close>

definition progress_result :: "mxlStatus \<Rightarrow> mxlStatus option" where
  "progress_result status =
     (if status = MXL_ERR_INTERRUPTED then Some MXL_STATUS_OK
      else if status \<noteq> MXL_ERR_NOT_READY \<and> status \<noteq> MXL_STATUS_OK then Some status
      else None)"

fun wait_progress :: "nat \<Rightarrow> demo_env \<Rightarrow> int option \<Rightarrow> nat \<Rightarrow> (mxlStatus option \<times> nat) option" where
  "wait_progress 0 env deadline k = None"
| "wait_progress (Suc fuel) env deadline k =
     (let status = de_progress env k in
      case progress_result status of
        Some ret \<Rightarrow> Some (Some ret, Suc k)
      | None \<Rightarrow>
          if status \<noteq> MXL_ERR_NOT_READY then Some (None, Suc k)
          else case deadline of
            None \<Rightarrow> wait_progress fuel env deadline (Suc k)
          | Some d \<Rightarrow>
              if d > de_clock env (Suc k) then wait_progress fuel env deadline (k + 2) else Some (None, k + 2))"

section \<open>Grains\<close>

record relay =
  rl_grainIndex :: u64
  rl_startSlice :: u16
  rl_endSlice :: u16

text \<open>A call that transfers slices of a grain, and how it ended.\<close>

record transfer =
  tf_grain :: u64
  tf_start :: u16
  tf_end :: u16
  tf_status :: mxlStatus

definition transfer_deadline :: "demo_env \<Rightarrow> nat \<Rightarrow> int" where
  "transfer_deadline env k = de_clock env k + 2000000000"

text \<open>One round of the loop: it returns a status or goes on, after at most one transfer.\<close>

definition after_transfer :: "u16 \<Rightarrow> u16 \<Rightarrow> mxlGrainInfo \<Rightarrow> relay \<Rightarrow> relay" where
  "after_transfer slicesPerBatch totalPayloadSlices info s =
     (if validSlices info \<noteq> totalSlices info then
        s\<lparr>rl_startSlice := validSlices info, rl_endSlice := min (validSlices info + slicesPerBatch) totalPayloadSlices\<rparr>
      else s\<lparr>rl_startSlice := 0, rl_endSlice := slicesPerBatch, rl_grainIndex := rl_grainIndex s + 1\<rparr>)"

definition relay_round ::
  "nat \<Rightarrow> demo_env \<Rightarrow> u16 \<Rightarrow> u16 \<Rightarrow> relay \<Rightarrow> nat \<Rightarrow> ((mxlStatus + relay) \<times> transfer list \<times> nat) option" where
  "relay_round fuel env slicesPerBatch totalPayloadSlices s k =
     (let (status, info) = de_slices env k (rl_grainIndex s) (rl_endSlice s) in
      if status = MXL_ERR_OUT_OF_RANGE_TOO_LATE then Some (Inr (s\<lparr>rl_grainIndex := de_index env (Suc k)\<rparr>), [], k + 2)
      else if status \<noteq> MXL_STATUS_OK then Some (Inr s, [], Suc k)
      else if and (gi_flags info) MXL_GRAIN_FLAG_INVALID \<noteq> 0 then
        Some (Inr (s\<lparr>rl_grainIndex := rl_grainIndex s + 1\<rparr>),
          [\<lparr>tf_grain = rl_grainIndex s, tf_start = 0, tf_end = 0, tf_status = de_transfer env (Suc k)\<rparr>], k + 2)
      else
        let posted = de_transfer env (Suc k);
            ts = [\<lparr>tf_grain = rl_grainIndex s, tf_start = rl_startSlice s, tf_end = validSlices info, tf_status = posted\<rparr>]
        in if posted = MXL_ERR_NOT_READY then Some (Inr s, ts, k + 2)
           else if posted \<noteq> MXL_STATUS_OK then Some (Inl posted, ts, k + 2)
           else case wait_progress fuel env (Some (transfer_deadline env (k + 2))) (k + 3) of
             None \<Rightarrow> None
           | Some (Some ret, k') \<Rightarrow> Some (Inl ret, ts, k')
           | Some (None, k') \<Rightarrow> Some (Inr (after_transfer slicesPerBatch totalPayloadSlices info s), ts, k'))"

fun relay_loop ::
  "nat \<Rightarrow> nat \<Rightarrow> demo_env \<Rightarrow> u16 \<Rightarrow> u16 \<Rightarrow> relay \<Rightarrow> nat \<Rightarrow> (mxlStatus \<times> transfer list \<times> nat) option" where
  "relay_loop fuel 0 env slicesPerBatch totalPayloadSlices s k = None"
| "relay_loop fuel (Suc rounds) env slicesPerBatch totalPayloadSlices s k =
     (if de_exit env k then Some (MXL_STATUS_OK, [], Suc k)
      else case relay_round fuel env slicesPerBatch totalPayloadSlices s (Suc k) of
        None \<Rightarrow> None
      | Some (Inl ret, ts, k') \<Rightarrow> Some (ret, ts, k')
      | Some (Inr s', ts, k') \<Rightarrow>
          map_option (\<lambda>(ret, ts', k''). (ret, ts @ ts', k'')) (relay_loop fuel rounds env slicesPerBatch totalPayloadSlices s' k'))"

definition relay_start :: "demo_env \<Rightarrow> u16 \<Rightarrow> nat \<Rightarrow> relay" where
  "relay_start env slicesPerBatch k = \<lparr>rl_grainIndex = de_index env k, rl_startSlice = 0, rl_endSlice = slicesPerBatch\<rparr>"

text \<open>The batch size is an unsigned 32 bit hint, kept in 16 bits.\<close>

definition runDiscrete :: "nat \<Rightarrow> nat \<Rightarrow> demo_env \<Rightarrow> u32 \<Rightarrow> u16 \<Rightarrow> nat \<Rightarrow> (mxlStatus \<times> transfer list \<times> nat) option" where
  "runDiscrete fuel rounds env batchSizeHint totalPayloadSlices k =
     relay_loop fuel rounds env (ucast batchSizeHint) totalPayloadSlices (relay_start env (ucast batchSizeHint) k) (Suc k)"

section \<open>The relay refines a cursor\<close>

text \<open>
  The cursor stands at a slice of a grain. A transfer that was posted moves it over a range of slices that
  begins where it stands, and past the last slice to the next grain.
\<close>

fun cursor_run :: "u16 \<Rightarrow> u64 \<times> u16 \<Rightarrow> transfer list \<Rightarrow> (u64 \<times> u16) option" where
  "cursor_run nslices c [] = Some c"
| "cursor_run nslices (i, a) (t # ts) =
     (if tf_grain t = i \<and> tf_start t = a \<and> a < tf_end t \<and> tf_end t \<le> nslices
      then cursor_run nslices (if tf_end t = nslices then (i + 1, 0) else (i, tf_end t)) ts
      else None)"

definition posted :: "transfer list \<Rightarrow> transfer list" where
  "posted ts = filter (\<lambda>t. tf_status t = MXL_STATUS_OK) ts"

text \<open>The states and the transfers of a relay that has not returned, after any number of rounds.\<close>

inductive relayed ::
  "nat \<Rightarrow> demo_env \<Rightarrow> u16 \<Rightarrow> u16 \<Rightarrow> relay \<Rightarrow> nat \<Rightarrow> relay \<Rightarrow> transfer list \<Rightarrow> nat \<Rightarrow> bool" for fuel env batch nslices s0 k0 where
  start: "relayed fuel env batch nslices s0 k0 s0 [] k0"
| round: "relayed fuel env batch nslices s0 k0 s ts k \<Longrightarrow> \<not> de_exit env k \<Longrightarrow>
    relay_round fuel env batch nslices s (Suc k) = Some (Inr s', ts', k') \<Longrightarrow> relayed fuel env batch nslices s0 k0 s' (ts @ ts') k'"

text \<open>
  What the reader promises: a grain it delivers has the slices asked for, or all of them. The reader
  is never late and no grain is marked invalid.
\<close>

definition in_time :: "demo_env \<Rightarrow> u16 \<Rightarrow> bool" where
  "in_time env nslices \<longleftrightarrow>
     (\<forall>k i m status info. de_slices env k i m = (status, info) \<longrightarrow> status \<noteq> MXL_ERR_OUT_OF_RANGE_TOO_LATE
        \<and> (status = MXL_STATUS_OK \<longrightarrow> and (gi_flags info) MXL_GRAIN_FLAG_INVALID = 0
             \<and> totalSlices info = nslices \<and> min m nslices \<le> validSlices info \<and> validSlices info \<le> nslices))"

definition ready_relay :: "u16 \<Rightarrow> relay \<Rightarrow> bool" where
  "ready_relay nslices s \<longleftrightarrow> rl_startSlice s < min (rl_endSlice s) nslices"

lemma cursor_run_append: "cursor_run nslices c (ts @ ts') = (case cursor_run nslices c ts of None \<Rightarrow> None | Some c' \<Rightarrow> cursor_run nslices c' ts')"
  by (induction nslices c ts rule: cursor_run.induct) auto

lemma posted_append [simp]: "posted (ts @ ts') = posted ts @ posted ts'"
  by (simp add: posted_def)

lemma no_overflow:
  assumes "unat nslices + unat batch < 2 ^ 16" and "v < nslices" and "0 < batch"
  shows "v < min (v + batch) (nslices :: u16)"
proof -
  have "unat v < unat nslices" using assms(2) by (simp add: word_less_nat_alt)
  then have "unat (v + batch) = unat v + unat batch" using assms(1) by (simp add: unat_word_ariths)
  then show ?thesis using assms(2,3) by (simp add: word_less_nat_alt)
qed

lemma relay_round_cursor:
  assumes "in_time env nslices" and "ready_relay nslices s" and "unat nslices + unat batch < 2 ^ 16" and "0 < batch"
    and "relay_round fuel env batch nslices s k = Some (Inr s', ts, k')"
  shows "ready_relay nslices s' \<and> cursor_run nslices (rl_grainIndex s, rl_startSlice s) (posted ts) = Some (rl_grainIndex s', rl_startSlice s')"
proof -
  obtain status info where r: "de_slices env k (rl_grainIndex s) (rl_endSlice s) = (status, info)" by (cases "de_slices env k (rl_grainIndex s) (rl_endSlice s)")
  have late: "status \<noteq> MXL_ERR_OUT_OF_RANGE_TOO_LATE"
    and ok: "status = MXL_STATUS_OK \<Longrightarrow> and (gi_flags info) MXL_GRAIN_FLAG_INVALID = 0 \<and> totalSlices info = nslices
      \<and> min (rl_endSlice s) nslices \<le> validSlices info \<and> validSlices info \<le> nslices"
    using assms(1) r unfolding in_time_def by blast+
  show ?thesis
  proof (cases "status = MXL_STATUS_OK")
    case False
    then show ?thesis using assms(2,5) late r by (auto simp: relay_round_def posted_def)
  next
    case True
    have lt: "rl_startSlice s < validSlices info" using assms(2) ok [OF True] unfolding ready_relay_def by (metis order.strict_trans2)
    have tot: "0 < nslices" using assms(2) unfolding ready_relay_def by (metis min_less_iff_conj word_gt_0 word_neq_0_conv word_less_1 order.strict_trans1 word_zero_le min.strict_boundedE)
    from assms(5) True ok [OF True] r consider
        "de_transfer env (Suc k) \<noteq> MXL_STATUS_OK" "s' = s" "posted ts = []"
      | "s' = after_transfer batch nslices info s"
        "ts = [\<lparr>tf_grain = rl_grainIndex s, tf_start = rl_startSlice s, tf_end = validSlices info, tf_status = MXL_STATUS_OK\<rparr>]"
      by (auto simp: relay_round_def Let_def posted_def split: if_splits option.splits)
    then show ?thesis
    proof cases
      case 1 then show ?thesis using assms(2) by simp
    next
      case 2
      have "ready_relay nslices s'"
        using 2(1) ok [OF True] no_overflow [OF assms(3) _ assms(4), of "validSlices info"] assms(4) tot
        by (auto simp: after_transfer_def ready_relay_def)
      then show ?thesis using 2 lt ok [OF True] by (auto simp: posted_def after_transfer_def)
    qed
  qed
qed

lemma relayed_cursor:
  assumes "relayed fuel env batch nslices s0 k0 s ts k" and "in_time env nslices" and "ready_relay nslices s0"
    and "unat nslices + unat batch < 2 ^ 16" and "0 < batch"
  shows "ready_relay nslices s \<and> cursor_run nslices (rl_grainIndex s0, rl_startSlice s0) (posted ts) = Some (rl_grainIndex s, rl_startSlice s)"
  using assms
proof (induction rule: relayed.induct)
  case (round s ts k s' ts' k')
  then show ?case using relay_round_cursor [OF round.prems(1) _ round.prems(3,4) round.hyps(3)] by (simp add: cursor_run_append)
qed (simp add: posted_def)

section \<open>Every byte of a grain\<close>

definition slices_of :: "transfer \<Rightarrow> SliceRange" where
  "slices_of t = \<lparr>sr_start = tf_start t, sr_end = tf_end t\<rparr>"

lemma cursor_ranges:
  assumes "cursor_run nslices (i, a) ts = Some (i + 1, 0)" and "\<forall>t \<in> set ts. tf_grain t = i"
  shows "map slices_of ts = ranges a (map tf_end ts) \<and> sorted_wrt (<) (a # map tf_end ts) \<and> ts \<noteq> [] \<and> last (map tf_end ts) = nslices"
  using assms
proof (induction ts arbitrary: a)
  case (Cons t ts)
  show ?case
  proof (cases "tf_end t = nslices")
    case True
    have t: "tf_grain t = i" "tf_start t = a" "a < tf_end t" and rest: "cursor_run nslices (i + 1, 0) ts = Some (i + 1, 0)"
      using Cons.prems(1) True by (simp_all split: if_splits)
    have "i + 1 \<noteq> i" by simp
    moreover have "\<And>u us. ts = u # us \<Longrightarrow> tf_grain u = i + 1" using rest by (simp only: cursor_run.simps split: if_splits) blast
    ultimately have "ts = []" using Cons.prems(2) by (metis list.set_intros(1) list.set_intros(2) neq_Nil_conv)
    then show ?thesis using t True by (simp add: slices_of_def)
  next
    case False
    then have t: "tf_start t = a" "a < tf_end t" and "cursor_run nslices (i, tf_end t) ts = Some (i + 1, 0)"
      using Cons.prems(1) by (simp_all split: if_splits)
    from Cons.IH [OF this(3)] Cons.prems(2)
    have ih: "map slices_of ts = ranges (tf_end t) (map tf_end ts)" "sorted_wrt (<) (tf_end t # map tf_end ts)" "ts \<noteq> []"
      "last (map tf_end ts) = nslices" by simp_all
    have "\<forall>x \<in> set (map tf_end ts). a < x" using t(2) ih(2) by (metis order.strict_trans sorted_wrt.simps(2))
    then show ?thesis using ih t by (simp add: slices_of_def [of t])
  qed
qed simp

text \<open>
  C39: Suppose that at every call the reader is not late, that no grain it delivers is marked invalid,
  that every grain has the slice count of the flow and is delivered with the slices asked for or all of
  them; that the batch size and the slice count are positive and their sum does not overflow 16 bits.
  Then the transfers the relay posts move a cursor from the first slice of the grain it began
  with through every slice of every grain, in order; and the ranges posted for a grain that was finished
  make the initiator write every byte of its header and of its slices exactly once. (A late reader or an
  invalid grain in the middle of a grain does make the relay skip slices; see below.)
\<close>

theorem relay_sends_every_grain:
  assumes "relayed fuel env batch nslices (relay_start env batch k0) (Suc k0) s ts k" and "in_time env nslices"
    and "0 < batch" and "0 < nslices" and "unat nslices + unat batch < 2 ^ 16"
  shows "cursor_run nslices (de_index env k0, 0) (posted ts) = Some (rl_grainIndex s, rl_startSlice s)
    \<and> (posted ts = before @ grain @ after \<and> cursor_run nslices (de_index env k0, 0) before = Some (i, 0)
        \<and> cursor_run nslices (i, 0) grain = Some (i + 1, 0) \<and> (\<forall>t \<in> set grain. tf_grain t = i)
        \<and> unat p + unat nslices * unat z < 2 ^ 32 \<longrightarrow>
      concat (map (range_bytes p z) (map slices_of grain)) = [0..<unat p + unat nslices * unat z])"
proof (intro conjI impI)
  have "ready_relay nslices (relay_start env batch k0)"
    using assms(3,4) by (simp add: ready_relay_def relay_start_def)
  from relayed_cursor [OF assms(1,2) this assms(5,3)]
  show "cursor_run nslices (de_index env k0, 0) (posted ts) = Some (rl_grainIndex s, rl_startSlice s)"
    by (simp add: relay_start_def)
next
  assume a: "posted ts = before @ grain @ after \<and> cursor_run nslices (de_index env k0, 0) before = Some (i, 0)
        \<and> cursor_run nslices (i, 0) grain = Some (i + 1, 0) \<and> (\<forall>t \<in> set grain. tf_grain t = i)
        \<and> unat p + unat nslices * unat z < 2 ^ 32"
  then have c: "map slices_of grain = ranges 0 (map tf_end grain)" "sorted_wrt (<) (0 # map tf_end grain)" "map tf_end grain \<noteq> []"
      "last (map tf_end grain) = nslices"
    using cursor_ranges [of nslices i 0 grain] by auto
  from ranges_bytes [OF c(2,3), of p z] a c(1,4)
  show "concat (map (range_bytes p z) (map slices_of grain)) = [0..<unat p + unat nslices * unat z]"
    by (simp add: range_base_def)
qed

text \<open>
  A reader that is late in the middle of a grain makes the relay begin another grain where it had stopped in
  the old one: the slices before that are never sent.
\<close>

lemma late_relay_skips_slices:
  assumes "de_slices env k (rl_grainIndex s) (rl_endSlice s) = (MXL_ERR_OUT_OF_RANGE_TOO_LATE, info)"
  shows "relay_round fuel env batch nslices s k = Some (Inr (s\<lparr>rl_grainIndex := de_index env (Suc k)\<rparr>), [], k + 2)"
  using assms by (simp add: relay_round_def)

text \<open>So does an invalid grain: only its header is sent, and the next grain begins at the old place.\<close>

lemma invalid_grain_skips_slices:
  assumes "de_slices env k (rl_grainIndex s) (rl_endSlice s) = (MXL_STATUS_OK, info)"
    and "and (gi_flags info) MXL_GRAIN_FLAG_INVALID \<noteq> 0"
  shows "\<exists>t. relay_round fuel env batch nslices s k = Some (Inr (s\<lparr>rl_grainIndex := rl_grainIndex s + 1\<rparr>), [t], k + 2)
    \<and> tf_start t = 0 \<and> tf_end t = 0"
  using assms by (simp add: relay_round_def)

section \<open>Samples\<close>

record sample_transfer =
  st_head :: u64
  st_count :: u64
  st_status :: mxlStatus

definition relay_samples ::
  "nat \<Rightarrow> demo_env \<Rightarrow> u64 \<Rightarrow> u64 \<Rightarrow> nat \<Rightarrow> ((mxlStatus + u64) \<times> sample_transfer list \<times> nat) option" where
  "relay_samples fuel env batchSize at k =
     (let status = de_samples env k at batchSize in
      if status = MXL_ERR_OUT_OF_RANGE_TOO_LATE then Some (Inr (de_head env (Suc k)), [], k + 2)
      else if status \<noteq> MXL_STATUS_OK then Some (Inr at, [], Suc k)
      else
        let answer = de_transfer env (Suc k); ts = [\<lparr>st_head = at, st_count = batchSize, st_status = answer\<rparr>]
        in if answer = MXL_ERR_NOT_READY then Some (Inr at, ts, k + 3)
           else if answer \<noteq> MXL_STATUS_OK then Some (Inl answer, ts, k + 2)
           else case wait_progress fuel env (Some (transfer_deadline env (k + 2))) (k + 3) of
             None \<Rightarrow> None
           | Some (Some ret, k') \<Rightarrow> Some (Inl ret, ts, k')
           | Some (None, k') \<Rightarrow> Some (Inr (at + batchSize), ts, Suc k'))"

fun sample_loop :: "nat \<Rightarrow> nat \<Rightarrow> demo_env \<Rightarrow> u64 \<Rightarrow> u64 \<Rightarrow> nat \<Rightarrow> (mxlStatus \<times> sample_transfer list \<times> nat) option" where
  "sample_loop fuel 0 env batchSize at k = None"
| "sample_loop fuel (Suc rounds) env batchSize at k =
     (if de_exit env k then Some (MXL_STATUS_OK, [], Suc k)
      else case relay_samples fuel env batchSize at (Suc k) of
        None \<Rightarrow> None
      | Some (Inl ret, ts, k') \<Rightarrow> Some (ret, ts, k')
      | Some (Inr head', ts, k') \<Rightarrow>
          map_option (\<lambda>(ret, ts', k''). (ret, ts @ ts', k'')) (sample_loop fuel rounds env batchSize head' k'))"

definition runContinuous :: "nat \<Rightarrow> nat \<Rightarrow> demo_env \<Rightarrow> u32 \<Rightarrow> nat \<Rightarrow> (mxlStatus \<times> sample_transfer list \<times> nat) option" where
  "runContinuous fuel rounds env batchSizeHint k = sample_loop fuel rounds env (ucast batchSizeHint) (de_head env k) (Suc k)"

section \<open>The target\<close>

text \<open>The grains or batches that were committed, in order.\<close>

definition target_failure :: "mxlStatus \<Rightarrow> mxlStatus option option" where
  "target_failure status =
     (if status = MXL_ERR_TIMEOUT \<or> status = MXL_ERR_NOT_READY then Some None
      else if status = MXL_ERR_INTERRUPTED then Some (Some MXL_STATUS_OK)
      else if status \<noteq> MXL_STATUS_OK then Some (Some status)
      else None)"

definition commit_round :: "(nat \<Rightarrow> mxlStatus \<times> 'a) \<Rightarrow> demo_env \<Rightarrow> nat \<Rightarrow> mxlStatus option \<times> 'a list \<times> nat" where
  "commit_round arrival env k =
     (let (status, what) = arrival k in
      case target_failure status of
        Some ret \<Rightarrow> (ret, [], Suc k)
      | None \<Rightarrow>
          if de_open env (Suc k) \<noteq> MXL_STATUS_OK then (Some (de_open env (Suc k)), [], k + 2)
          else if de_commit env (k + 2) \<noteq> MXL_STATUS_OK then (Some (de_commit env (k + 2)), [], k + 3)
          else (None, [what], k + 3))"

fun target_loop :: "nat \<Rightarrow> (nat \<Rightarrow> mxlStatus \<times> 'a) \<Rightarrow> demo_env \<Rightarrow> nat \<Rightarrow> (mxlStatus \<times> 'a list \<times> nat) option" where
  "target_loop 0 arrival env k = None"
| "target_loop (Suc rounds) arrival env k =
     (if de_exit env k then Some (MXL_STATUS_OK, [], Suc k)
      else case commit_round arrival env (Suc k) of
        (Some ret, ws, k') \<Rightarrow> Some (ret, ws, k')
      | (None, ws, k') \<Rightarrow> map_option (\<lambda>(ret, ws', k''). (ret, ws @ ws', k'')) (target_loop rounds arrival env k'))"

definition target_runDiscrete :: "nat \<Rightarrow> demo_env \<Rightarrow> nat \<Rightarrow> (mxlStatus \<times> u64 list \<times> nat) option" where
  "target_runDiscrete rounds env k = target_loop rounds (de_grain env) env k"

definition target_runContinuous :: "nat \<Rightarrow> demo_env \<Rightarrow> nat \<Rightarrow> (mxlStatus \<times> (u64 \<times> u64) list \<times> nat) option" where
  "target_runContinuous rounds env k = target_loop rounds (de_batch env) env k"

lemma target_loop_mono: "target_loop n arrival env j = Some x \<Longrightarrow> target_loop (n + d) arrival env j = Some x"
proof (induction n arbitrary: j x)
  case (Suc n)
  obtain r ws k' where c: "commit_round arrival env (Suc j) = (r, ws, k')" by (cases "commit_round arrival env (Suc j)")
  show ?case
  proof (cases "de_exit env j \<or> r \<noteq> None")
    case True with Suc.prems c show ?thesis by (cases r) auto
  next
    case False
    with Suc.prems c obtain y where y: "target_loop n arrival env k' = Some y" by auto
    from Suc.IH [OF y] y Suc.prems c False show ?thesis by auto
  qed
qed simp

text \<open>A signal ends every loop at the next round.\<close>

lemma loops_end_with_signal:
  assumes "\<And>j. k0 \<le> j \<Longrightarrow> de_exit env j"
  shows "\<exists>r. target_loop (Suc (k0 - k)) arrival env k = Some r"
proof (induction "k0 - k" arbitrary: k rule: less_induct)
  case less
  show ?case
  proof (cases "de_exit env k")
    case False
    obtain r ws k' where c: "commit_round arrival env (Suc k) = (r, ws, k')" by (cases "commit_round arrival env (Suc k)")
    then have k': "Suc k < k'" by (auto simp: commit_round_def split: prod.splits option.splits if_splits)
    have "k < k0" using assms [of k] False by (cases "k0 \<le> k") auto
    then have lt: "k0 - k' < k0 - k" using k' by simp
    from less [OF lt] obtain r' where run: "target_loop (Suc (k0 - k')) arrival env k' = Some r'" by blast
    have "target_loop (Suc (k0 - k') + (k0 - k - Suc (k0 - k'))) arrival env k' = Some r'" by (rule target_loop_mono [OF run])
    moreover have "Suc (k0 - k') + (k0 - k - Suc (k0 - k')) = k0 - k" using lt by simp
    ultimately have "target_loop (k0 - k) arrival env k' = Some r'" by (simp only:)
    with c False show ?thesis by (cases r; cases r') auto
  qed auto
qed

section \<open>Setting up and leaving\<close>

text \<open>
  The handles an application holds: indeterminate (\<open>None\<close>) until a call has stored one, then whether it is
  valid. Only the flag that a target was added is initialised.
\<close>

record members =
  mb_instance :: "bool option"
  mb_fabrics :: "bool option"
  mb_flow :: "bool option"
  mb_peer :: "bool option"
  mb_info :: "bool option"
  mb_added :: bool

definition new_members :: members where
  "new_members = \<lparr>mb_instance = None, mb_fabrics = None, mb_flow = None, mb_peer = None, mb_info = None, mb_added = False\<rparr>"

text \<open>A call that stores a handle when it succeeds; a failure ends the setup.\<close>

definition demo_call :: "demo_env \<Rightarrow> nat \<Rightarrow> (members \<Rightarrow> members) \<Rightarrow> members \<Rightarrow> (members \<Rightarrow> (mxlStatus \<times> members) option) \<Rightarrow> (mxlStatus \<times> members) option" where
  "demo_call env k store m rest = (if de_call env k \<noteq> MXL_STATUS_OK then Some (de_call env k, m) else rest (store m))"

definition create_instance :: "demo_env \<Rightarrow> nat \<Rightarrow> (members \<Rightarrow> (mxlStatus \<times> members) option) \<Rightarrow> (mxlStatus \<times> members) option" where
  "create_instance env k rest =
     (if de_call env k \<noteq> MXL_STATUS_OK then Some (MXL_ERR_INVALID_ARG, new_members\<lparr>mb_instance := Some False\<rparr>)
      else rest (new_members\<lparr>mb_instance := Some True\<rparr>))"

definition AppInitiator_setup :: "nat \<Rightarrow> demo_env \<Rightarrow> nat \<Rightarrow> (mxlStatus \<times> members) option" where
  "AppInitiator_setup fuel env k =
     create_instance env k (\<lambda>m.
     demo_call env (k + 1) (mb_fabrics_update (\<lambda>_. Some True)) m (\<lambda>m.
     demo_call env (k + 2) (mb_flow_update (\<lambda>_. Some True)) m (\<lambda>m.
     demo_call env (k + 3) (mb_peer_update (\<lambda>_. Some True)) m (\<lambda>m.
     demo_call env (k + 4) id m (\<lambda>m.
     demo_call env (k + 5) (mb_info_update (\<lambda>_. Some True)) m (\<lambda>m.
     demo_call env (k + 6) (mb_added_update (\<lambda>_. True)) m (\<lambda>m.
     map_option (\<lambda>(ret, _). (case ret of Some status \<Rightarrow> status | None \<Rightarrow> MXL_STATUS_OK, m))
       (wait_progress fuel env None (k + 7)))))))))"

definition AppTarget_setup :: "demo_env \<Rightarrow> nat \<Rightarrow> (mxlStatus \<times> members) option" where
  "AppTarget_setup env k =
     create_instance env k (\<lambda>m.
     demo_call env (k + 1) (mb_fabrics_update (\<lambda>_. Some True)) m (\<lambda>m.
     demo_call env (k + 2) (mb_flow_update (\<lambda>_. Some True)) m (\<lambda>m.
     demo_call env (k + 3) (mb_peer_update (\<lambda>_. Some True)) m (\<lambda>m.
     demo_call env (k + 4) (mb_info_update (\<lambda>_. Some True)) m (\<lambda>m. Some (MXL_STATUS_OK, m))))))"

datatype cleanup =
    RemoveTarget
  | WaitForRemoval
  | FreeTargetInfo
  | DestroyPeer
  | DestroyFabricsInstance
  | ReleaseFlow
  | DestroyInstance

definition read_member :: "bool option \<Rightarrow> bool outcome" where
  "read_member m = (case m of None \<Rightarrow> Crash DanglingPointer | Some valid \<Rightarrow> Ret valid)"

definition if_valid :: "bool option \<Rightarrow> cleanup list \<Rightarrow> cleanup list outcome \<Rightarrow> cleanup list outcome" where
  "if_valid m cs rest = obind (read_member m) (\<lambda>valid. obind rest (\<lambda>cs'. Ret ((if valid then cs else []) @ cs')))"

definition release_members :: "members \<Rightarrow> cleanup list outcome" where
  "release_members m =
     if_valid (mb_info m) [FreeTargetInfo] (if_valid (mb_peer m) [DestroyPeer]
       (if_valid (mb_fabrics m) [DestroyFabricsInstance] (if_valid (mb_flow m) [ReleaseFlow]
         (if_valid (mb_instance m) [DestroyInstance] (Ret [])))))"

definition AppInitiator_destroy :: "demo_env \<Rightarrow> nat \<Rightarrow> members \<Rightarrow> cleanup list outcome" where
  "AppInitiator_destroy env k m =
     obind (read_member (mb_peer m)) (\<lambda>peer.
     obind (if peer then read_member (mb_info m) else Ret False) (\<lambda>info.
     obind (release_members m) (\<lambda>cs.
       Ret ((if peer \<and> info \<and> mb_added m then RemoveTarget # (if de_call env k = MXL_STATUS_OK then [WaitForRemoval] else []) else []) @ cs))))"

definition AppTarget_destroy :: "members \<Rightarrow> cleanup list outcome" where
  "AppTarget_destroy m = release_members m"

definition acquired :: members where
  "acquired = \<lparr>mb_instance = Some True, mb_fabrics = Some True, mb_flow = Some True, mb_peer = Some True, mb_info = Some True, mb_added = True\<rparr>"

lemma setup_members:
  assumes "AppInitiator_setup fuel env k = Some (status, m)"
  shows "m = acquired \<or> m = acquired\<lparr>mb_added := False\<rparr> \<and> status = de_call env (k + 6) \<and> status \<noteq> MXL_STATUS_OK
    \<or> mb_info m = None \<and> status \<noteq> MXL_STATUS_OK"
proof (cases "de_call env k = MXL_STATUS_OK \<and> de_call env (k + 1) = MXL_STATUS_OK \<and> de_call env (k + 2) = MXL_STATUS_OK
    \<and> de_call env (k + 3) = MXL_STATUS_OK \<and> de_call env (k + 4) = MXL_STATUS_OK \<and> de_call env (k + 5) = MXL_STATUS_OK")
  case True
  then show ?thesis
    using assms by (cases "de_call env (k + 6) = MXL_STATUS_OK")
      (auto simp: AppInitiator_setup_def create_instance_def demo_call_def new_members_def acquired_def split: option.splits)
next
  case False
  then consider "de_call env k \<noteq> MXL_STATUS_OK" | "de_call env k = MXL_STATUS_OK" "de_call env (k + 1) \<noteq> MXL_STATUS_OK"
    | "de_call env k = MXL_STATUS_OK" "de_call env (k + 1) = MXL_STATUS_OK" "de_call env (k + 2) \<noteq> MXL_STATUS_OK"
    | "de_call env k = MXL_STATUS_OK" "de_call env (k + 1) = MXL_STATUS_OK" "de_call env (k + 2) = MXL_STATUS_OK" "de_call env (k + 3) \<noteq> MXL_STATUS_OK"
    | "de_call env k = MXL_STATUS_OK" "de_call env (k + 1) = MXL_STATUS_OK" "de_call env (k + 2) = MXL_STATUS_OK" "de_call env (k + 3) = MXL_STATUS_OK"
      "de_call env (k + 4) \<noteq> MXL_STATUS_OK"
    | "de_call env k = MXL_STATUS_OK" "de_call env (k + 1) = MXL_STATUS_OK" "de_call env (k + 2) = MXL_STATUS_OK" "de_call env (k + 3) = MXL_STATUS_OK"
      "de_call env (k + 4) = MXL_STATUS_OK" "de_call env (k + 5) \<noteq> MXL_STATUS_OK" by blast
  then have "mb_info m = None \<and> status \<noteq> MXL_STATUS_OK"
    using assms by cases (auto simp: AppInitiator_setup_def create_instance_def demo_call_def new_members_def)
  then show ?thesis by simp
qed

text \<open>
  An application whose setup fails before it has a target's description reads an indeterminate handle when
  it is destroyed; one that was set up releases everything it acquired, in the reverse order.
\<close>

lemma failed_start_is_undefined:
  "mb_info m = None \<Longrightarrow> AppInitiator_destroy env j m \<noteq> Ret cs"
  by (cases "mb_peer m") (auto simp: AppInitiator_destroy_def release_members_def if_valid_def read_member_def)

lemma cleanup_releases_everything:
  assumes "AppInitiator_setup fuel env k = Some (MXL_STATUS_OK, m)" and "de_call env j = MXL_STATUS_OK"
  shows "AppInitiator_destroy env j m =
    Ret [RemoveTarget, WaitForRemoval, FreeTargetInfo, DestroyPeer, DestroyFabricsInstance, ReleaseFlow, DestroyInstance]"
  using setup_members [OF assms(1)] assms(2)
  by (auto simp: acquired_def AppInitiator_destroy_def release_members_def if_valid_def read_member_def)

section \<open>Examples\<close>

text \<open>Grains of four slices, of which two are there at a time.\<close>

definition ex_slices :: "u16 \<Rightarrow> mxlGrainInfo" where
  "ex_slices m = \<lparr>gi_version = 1, gi_size = 4096, gi_index = 7, gi_flags = 0, grainSize = 400, totalSlices = 4, validSlices = min m 4\<rparr>"

definition ex_env :: demo_env where
  "ex_env =
     \<lparr>de_exit = (\<lambda>_. False), de_clock = int, de_index = (\<lambda>_. 7), de_slices = (\<lambda>_ _ m. (MXL_STATUS_OK, ex_slices m)),
      de_samples = (\<lambda>_ _ _. MXL_STATUS_OK), de_head = (\<lambda>_. 0), de_transfer = (\<lambda>_. MXL_STATUS_OK), de_progress = (\<lambda>_. MXL_STATUS_OK),
      de_grain = (\<lambda>_. (MXL_STATUS_OK, 7)), de_batch = (\<lambda>_. (MXL_STATUS_OK, 0, 0)), de_open = (\<lambda>_. MXL_STATUS_OK),
      de_commit = (\<lambda>_. MXL_STATUS_OK), de_call = (\<lambda>_. MXL_STATUS_OK)\<rparr>"

definition ex_transfers :: "transfer list" where
  "ex_transfers =
     [\<lparr>tf_grain = 7, tf_start = 0, tf_end = 2, tf_status = MXL_STATUS_OK\<rparr>, \<lparr>tf_grain = 7, tf_start = 2, tf_end = 4, tf_status = MXL_STATUS_OK\<rparr>]"

lemma relay_sends_every_grain_witness:
  "concat (map (range_bytes 8192 100) (map slices_of ex_transfers)) = [0..<8592]"
proof -
  let ?s1 = "\<lparr>rl_grainIndex = 7, rl_startSlice = 2, rl_endSlice = 4\<rparr>"
  let ?s2 = "\<lparr>rl_grainIndex = 8, rl_startSlice = 0, rl_endSlice = 2\<rparr>"
  have r1: "relay_round 1 ex_env 2 4 (relay_start ex_env 2 0) (Suc (Suc 0)) = Some (Inr ?s1, [ex_transfers ! 0], 6)" by code_simp
  have r2: "relay_round 1 ex_env 2 4 ?s1 (Suc 6) = Some (Inr ?s2, [ex_transfers ! 1], 11)" by code_simp
  have e: "\<not> de_exit ex_env j" for j by (simp add: ex_env_def)
  have "relayed 1 ex_env 2 4 (relay_start ex_env 2 0) (Suc 0) ?s2 (([] @ [ex_transfers ! 0]) @ [ex_transfers ! 1]) 11"
    by (rule relayed.round [OF relayed.round [OF relayed.start e r1] e r2])
  then have run: "relayed 1 ex_env 2 4 (relay_start ex_env 2 0) (Suc 0) ?s2 ex_transfers 11" by (simp add: ex_transfers_def)
  have t: "in_time ex_env 4" by (simp add: in_time_def ex_env_def ex_slices_def)
  show ?thesis
    using relay_sends_every_grain [OF run t, of "[]" ex_transfers "[]" 7 8192 100]
    by (simp add: posted_def ex_transfers_def ex_env_def)
qed

lemma late_relay_example:
  "relay_round 1 (ex_env\<lparr>de_slices := (\<lambda>k i m. if k < 8 then (MXL_ERR_OUT_OF_RANGE_TOO_LATE, ex_slices m) else (MXL_STATUS_OK, ex_slices m)), de_index := (\<lambda>_. 9)\<rparr>)
     2 4 \<lparr>rl_grainIndex = 7, rl_startSlice = 2, rl_endSlice = 4\<rparr> 7
   = Some (Inr \<lparr>rl_grainIndex = 9, rl_startSlice = 2, rl_endSlice = 4\<rparr>, [], 9)"
  by code_simp

end
