(* ===== verification/AncProbe.thy ===== *)
theory AncProbe
  imports Json
begin

text \<open>
  The probe for ancillary data flows (\<open>tools/mxl-data-probe/main.cpp\<close>): the reader of big endian words,
  the unpacker of ten bit words, the parser of a grain, and the loop that reads and prints grains. The
  parser is equal to a reference that takes every field from a fixed bit position of the payload.
\<close>

unbundle bit_operations_syntax

section \<open>Words of a payload\<close>

definition Rfc8331HeaderSizeBytes :: nat where "Rfc8331HeaderSizeBytes = 6"
definition Lower8Bits :: u16 where "Lower8Bits = 0x00ff"
definition Lower10Bits :: u16 where "Lower10Bits = 0x03ff"
definition Lower11Bits :: u16 where "Lower11Bits = 0x07ff"

record BigEndianWordReader =
  wr_bytes :: "u8 list"
  wr_offset :: nat

definition word_reader :: "u8 list \<Rightarrow> BigEndianWordReader" where
  "word_reader bytes = \<lparr>wr_bytes = bytes, wr_offset = 0\<rparr>"

definition read_word :: "BigEndianWordReader \<Rightarrow> (u16 \<times> BigEndianWordReader) outcome" where
  "read_word r =
     (if length (wr_bytes r) - wr_offset r < 2 then Throw RuntimeError
      else Ret (push_bit 8 (ucast (wr_bytes r ! wr_offset r)) OR ucast (wr_bytes r ! (wr_offset r + 1)),
                r\<lparr>wr_offset := wr_offset r + 2\<rparr>))"

definition wordOffset :: "BigEndianWordReader \<Rightarrow> nat" where
  "wordOffset r = wr_offset r div 2"

section \<open>Ten bit words\<close>

record UdwUnpacker =
  uu_reader :: BigEndianWordReader
  uu_accumulatedBits :: u32
  uu_bitCount :: u32

definition udw_unpacker :: "BigEndianWordReader \<Rightarrow> UdwUnpacker" where
  "udw_unpacker r = \<lparr>uu_reader = r, uu_accumulatedBits = 0, uu_bitCount = 0\<rparr>"

lemma refill_progress: "(n::u32) < 10 \<Longrightarrow> \<not> n + 16 < 10"
  by (simp add: word_less_nat_alt unat_word_ariths)

function refill :: "UdwUnpacker \<Rightarrow> UdwUnpacker outcome" where
  "refill u =
     (if uu_bitCount u < 10 then
        obind (read_word (uu_reader u)) (\<lambda>(w, r').
          refill \<lparr>uu_reader = r', uu_accumulatedBits = push_bit 16 (uu_accumulatedBits u) OR ucast w,
                  uu_bitCount = uu_bitCount u + 16\<rparr>)
      else Ret u)"
  by pat_completeness auto
termination
  by (relation "measure (\<lambda>u. if uu_bitCount u < 10 then 1 else 0)") (auto dest: refill_progress)

declare refill.simps [simp del]

definition read_udw :: "UdwUnpacker \<Rightarrow> (u16 \<times> UdwUnpacker) outcome" where
  "read_udw u =
     obind (refill u) (\<lambda>u'.
       let n = uu_bitCount u' - 10 in
       Ret (ucast (drop_bit (unat n) (uu_accumulatedBits u')) AND Lower10Bits,
            u'\<lparr>uu_bitCount := n, uu_accumulatedBits := uu_accumulatedBits u' AND (push_bit (unat n) 1 - 1)\<rparr>))"

section \<open>The parser\<close>

record AncElement =
  ae_lineNumber :: u16
  ae_did :: u8
  ae_sdid :: u8
  ae_dataCount :: u8
  ae_udw :: "u8 list"

record AncFrame =
  af_length :: u16
  af_ancCount :: u8
  af_elements :: "AncElement list"

fun read_udws :: "nat \<Rightarrow> UdwUnpacker \<Rightarrow> (u8 list \<times> UdwUnpacker) outcome" where
  "read_udws 0 u = Ret ([], u)"
| "read_udws (Suc m) u =
     obind (read_udw u) (\<lambda>(w, u').
     obind (read_udws m u') (\<lambda>(ws, u''). Ret (ucast (w AND Lower8Bits) # ws, u'')))"

definition skip_alignment :: "BigEndianWordReader \<Rightarrow> BigEndianWordReader outcome" where
  "skip_alignment r = (if wordOffset r mod 2 = 0 then obind (read_word r) (\<lambda>(_, r'). Ret r') else Ret r)"

definition parse_element :: "BigEndianWordReader \<Rightarrow> (AncElement \<times> BigEndianWordReader) outcome" where
  "parse_element r0 =
     obind (skip_alignment r0) (\<lambda>r1.
     obind (read_word r1) (\<lambda>(word0, r2).
     obind (read_word r2) (\<lambda>(_, r3).
     obind (read_word r3) (\<lambda>(word2, r4).
     obind (read_word r4) (\<lambda>(word3, r5).
     let dc = ucast (drop_bit 2 word3 AND Lower8Bits) :: u8 in
     obind (read_udws (unat dc) (udw_unpacker r5)) (\<lambda>(ws, u).
     obind (read_udw u) (\<lambda>(_, u').
     Ret (\<lparr>ae_lineNumber = drop_bit 4 word0 AND Lower11Bits,
           ae_did = ucast (drop_bit 6 word2 AND Lower8Bits),
           ae_sdid = ucast (push_bit 4 (word2 AND 0x000f) OR (drop_bit 12 word3 AND 0x000f)),
           ae_dataCount = dc, ae_udw = ws\<rparr>, uu_reader u'))))))))"

fun parse_elements :: "nat \<Rightarrow> BigEndianWordReader \<Rightarrow> AncElement list outcome" where
  "parse_elements 0 r = Ret []"
| "parse_elements (Suc n) r =
     obind (parse_element r) (\<lambda>(e, r'). obind (parse_elements n r') (\<lambda>es. Ret (e # es)))"

definition parseAncFrame :: "u8 list \<Rightarrow> AncFrame outcome" where
  "parseAncFrame payload =
     (if length payload < Rfc8331HeaderSizeBytes then Throw RuntimeError
      else
        obind (read_word (word_reader payload)) (\<lambda>(len, r1).
        obind (read_word r1) (\<lambda>(word1, r2).
        let ancCount = ucast (drop_bit 8 word1) :: u8 in
        obind (read_word r2) (\<lambda>(_, r3).
        if unat len + Rfc8331HeaderSizeBytes > length payload then Throw RuntimeError
        else obind (parse_elements (unat ancCount) r3) (\<lambda>es.
          Ret \<lparr>af_length = len, af_ancCount = ancCount, af_elements = es\<rparr>)))))"

section \<open>Fields at bit positions\<close>

text \<open>Bit \<open>i\<close> of the payload, the most significant bit of the first byte first.\<close>

definition stream_bit :: "u8 list \<Rightarrow> nat \<Rightarrow> bool" where
  "stream_bit bytes i = bit (bytes ! (i div 8)) (7 - i mod 8)"

definition field_at :: "u8 list \<Rightarrow> nat \<Rightarrow> nat \<Rightarrow> 'a::len word" where
  "field_at bytes p n = horner_sum of_bool 2 (map (\<lambda>j. stream_bit bytes (p + n - 1 - j)) [0..<n])"

lemma bit_field_at:
  "bit (field_at bytes p n :: 'a::len word) j \<longleftrightarrow> j < LENGTH('a) \<and> j < n \<and> stream_bit bytes (p + n - 1 - j)"
  by (auto simp: field_at_def bit_horner_sum_bit_iff)

text \<open>The unpacker that has consumed the bits before position \<open>p\<close>.\<close>

definition words_before :: "nat \<Rightarrow> nat" where
  "words_before p = (p + 15) div 16"

definition reader_at :: "u8 list \<Rightarrow> nat \<Rightarrow> BigEndianWordReader" where
  "reader_at bytes w = \<lparr>wr_bytes = bytes, wr_offset = 2 * w\<rparr>"

definition unpacker_at :: "u8 list \<Rightarrow> nat \<Rightarrow> UdwUnpacker" where
  "unpacker_at bytes p =
     (let w = words_before p; n = 16 * w - p in
      \<lparr>uu_reader = reader_at bytes w, uu_accumulatedBits = field_at bytes p n, uu_bitCount = of_nat n\<rparr>)"

lemma stream_bit_word:
  assumes "j < 16"
  shows "stream_bit bytes (15 + 16 * w - j) =
    (if j < 8 then bit (bytes ! Suc (2 * w)) j else bit (bytes ! (2 * w)) (j - 8))"
proof (cases "j < 8")
  case True
  have "(15 + 16 * w - j) div 8 = Suc (2 * w)" "(15 + 16 * w - j) mod 8 = 7 - j"
    using True by (simp_all add: div_nat_eqI mod_nat_eqI)
  with True show ?thesis by (simp add: stream_bit_def)
next
  case False
  then have "(15 + 16 * w - j) div 8 = 2 * w" "(15 + 16 * w - j) mod 8 = 15 - j"
    using assms by (simp_all add: div_nat_eqI mod_nat_eqI)
  with False assms show ?thesis by (simp add: stream_bit_def)
qed

lemma read_word_at:
  "read_word (reader_at bytes w) =
     (if length bytes < 2 * w + 2 then Throw RuntimeError else Ret (field_at bytes (16 * w) 16, reader_at bytes (w + 1)))"
proof -
  have "push_bit 8 (ucast (bytes ! (2 * w))) OR ucast (bytes ! (2 * w + 1)) = (field_at bytes (16 * w) 16 :: u16)"
    by (rule bit_word_eqI)
      (auto simp: bit_field_at bit_or_iff bit_push_bit_iff bit_ucast_iff stream_bit_word split: if_splits dest: bit_imp_le_length)
  then show ?thesis
    by (auto simp: read_word_def reader_at_def)
qed


lemma read_word_ok:
  assumes "2 * w + 2 \<le> length bytes" and "p = 16 * w" and "v = Suc w"
  shows "read_word (reader_at bytes w) = Ret (field_at bytes p 16, reader_at bytes v)"
  using assms by (simp add: read_word_at)

lemma append_word:
  assumes "n < 10" and "n \<le> 16 * w"
  shows "push_bit 16 (field_at bytes (16 * w - n) n :: u32) OR ucast (field_at bytes (16 * w) 16 :: u16) =
    (field_at bytes (16 * w - n) (n + 16) :: u32)"
proof (rule bit_word_eqI)
  fix j
  assume "j < LENGTH(32)"
  moreover have "16 * w - n + (n + 16) - 1 - j = 15 + 16 * w - j"
    "16 \<le> j \<Longrightarrow> 16 * w - n + n - 1 - (j - 16) = 15 + 16 * w - j" using assms(2) by auto
  ultimately show "bit (push_bit 16 (field_at bytes (16 * w - n) n :: u32) OR ucast (field_at bytes (16 * w) 16 :: u16)) j \<longleftrightarrow>
      bit (field_at bytes (16 * w - n) (n + 16) :: u32) j"
    using assms(1) by (auto simp: bit_field_at bit_or_iff bit_push_bit_iff bit_ucast_iff)
qed

lemma refill_done: "\<not> uu_bitCount u < 10 \<Longrightarrow> refill u = Ret u"
  by (subst refill.simps) simp

lemma refill_once:
  assumes "uu_bitCount u < 10"
  shows "refill u = obind (read_word (uu_reader u)) (\<lambda>(w, r').
    Ret \<lparr>uu_reader = r', uu_accumulatedBits = push_bit 16 (uu_accumulatedBits u) OR ucast w,
         uu_bitCount = uu_bitCount u + 16\<rparr>)"
  using assms by (subst refill.simps) (simp add: refill_done refill_progress)

lemma refill_at:
  fixes bytes p
  defines "w \<equiv> words_before p"
  defines "n \<equiv> 16 * w - p"
  shows "refill (unpacker_at bytes p) =
    (if 10 \<le> n then Ret (unpacker_at bytes p)
     else if length bytes < 2 * w + 2 then Throw RuntimeError
     else Ret \<lparr>uu_reader = reader_at bytes (w + 1), uu_accumulatedBits = field_at bytes p (n + 16), uu_bitCount = of_nat n + 16\<rparr>)"
proof -
  have n: "n < 16" "p + n = 16 * w" unfolding n_def w_def words_before_def by auto
  have u: "unpacker_at bytes p = \<lparr>uu_reader = reader_at bytes w, uu_accumulatedBits = field_at bytes p n, uu_bitCount = of_nat n\<rparr>"
    by (simp add: unpacker_at_def w_def n_def Let_def)
  have lt: "(of_nat n :: u32) < 10 \<longleftrightarrow> n < 10"
    using n(1) by (simp add: word_less_nat_alt unat_of_nat)
  show ?thesis
  proof (cases "n < 10")
    case True
    then have a: "push_bit 16 (field_at bytes p n :: u32) OR ucast (field_at bytes (16 * w) 16 :: u16) =
        (field_at bytes p (n + 16) :: u32)"
      using append_word [OF True, of w bytes] n(2) by (metis add_diff_cancel_right' le_add2)
    show ?thesis
      using True lt by (simp add: u read_word_at a refill_once)
  next
    case False
    then show ?thesis using lt by (simp add: u refill_done)
  qed
qed

lemma lower_masks: "Lower8Bits = mask 8" "Lower10Bits = mask 10" "Lower11Bits = mask 11"
  by (simp_all add: Lower8Bits_def Lower10Bits_def Lower11Bits_def mask_eq_exp_minus_1)

lemma take_field:
  assumes "10 \<le> n" and "n < 26"
  shows "ucast (drop_bit (n - 10) (field_at bytes p n :: u32)) AND Lower10Bits = (field_at bytes p 10 :: u16)"
    and "(field_at bytes p n :: u32) AND (push_bit (n - 10) 1 - 1) = field_at bytes (p + 10) (n - 10)"
proof -
  show "ucast (drop_bit (n - 10) (field_at bytes p n :: u32)) AND Lower10Bits = (field_at bytes p 10 :: u16)"
  proof (rule bit_word_eqI)
    fix j
    have "j < 10 \<Longrightarrow> p + n - Suc (n - 10 + j) = p + 10 - Suc j" using assms by simp
    then show "bit (ucast (drop_bit (n - 10) (field_at bytes p n :: u32)) AND Lower10Bits) j \<longleftrightarrow>
        bit (field_at bytes p 10 :: u16) j"
      using assms by (auto simp: lower_masks bit_and_iff bit_mask_iff bit_ucast_iff bit_drop_bit_eq bit_field_at)
  qed
  show "(field_at bytes p n :: u32) AND (push_bit (n - 10) 1 - 1) = field_at bytes (p + 10) (n - 10)"
  proof (rule bit_word_eqI)
    fix j
    have "(push_bit (n - 10) 1 - 1 :: u32) = mask (n - 10)"
      by (simp add: mask_eq_exp_minus_1 push_bit_eq_mult)
    moreover have "j < n - 10 \<Longrightarrow> p + n - Suc j = p + 10 + (n - 10) - Suc j" by simp
    ultimately show "bit ((field_at bytes p n :: u32) AND (push_bit (n - 10) 1 - 1)) j \<longleftrightarrow>
        bit (field_at bytes (p + 10) (n - 10) :: u32) j"
      using assms by (auto simp: bit_and_iff bit_mask_iff bit_field_at)
  qed
qed

lemma read_udw_at:
  "read_udw (unpacker_at bytes p) =
     (if words_before p < words_before (p + 10) \<and> length bytes < 2 * words_before (p + 10) then Throw RuntimeError
      else Ret (field_at bytes p 10, unpacker_at bytes (p + 10)))"
proof -
  define w where "w = words_before p"
  define n where "n = 16 * w - p"
  have n: "n < 16" "p + n = 16 * w" unfolding n_def w_def words_before_def by auto
  have w': "words_before (p + 10) = (if 10 \<le> n then w else w + 1)"
    using n by (auto simp: words_before_def intro!: div_nat_eqI)
  have u: "unpacker_at bytes p = \<lparr>uu_reader = reader_at bytes w, uu_accumulatedBits = field_at bytes p n, uu_bitCount = of_nat n\<rparr>"
    by (simp add: unpacker_at_def w_def n_def Let_def)
  note r = refill_at [of bytes p, folded w_def, folded n_def]
  show ?thesis
  proof (cases "10 \<le> n")
    case True
    have "16 * words_before (p + 10) - (p + 10) = n - 10" using True n w' by simp
    then have u': "unpacker_at bytes (p + 10) =
        \<lparr>uu_reader = reader_at bytes w, uu_accumulatedBits = field_at bytes (p + 10) (n - 10), uu_bitCount = of_nat (n - 10)\<rparr>"
      unfolding unpacker_at_def Let_def using True w' by simp
    have "(of_nat n :: u32) - 10 = of_nat (n - 10)" using True by (simp add: of_nat_diff)
    moreover have "unat (of_nat (n - 10) :: u32) = n - 10" using n by (simp add: unat_of_nat)
    ultimately show ?thesis
      using True n w' take_field [OF True, of bytes p] r
      by (simp add: read_udw_def u u' Let_def flip: w_def)
  next
    case False
    have "16 * words_before (p + 10) - (p + 10) = n + 6" using False n w' by simp
    then have u': "unpacker_at bytes (p + 10) =
        \<lparr>uu_reader = reader_at bytes (w + 1), uu_accumulatedBits = field_at bytes (p + 10) (n + 6), uu_bitCount = of_nat (n + 6)\<rparr>"
      unfolding unpacker_at_def Let_def using False w' by simp
    have "6 + (of_nat n :: u32) = of_nat (n + 6)" by simp
    also have "unat (of_nat (n + 6) :: u32) = n + 6" unfolding unat_of_nat using n(1) by simp
    finally have un: "unat (6 + (of_nat n :: u32)) = n + 6" .
    have t: "ucast (drop_bit (n + 6) (field_at bytes p (n + 16) :: u32)) AND Lower10Bits = (field_at bytes p 10 :: u16)"
      "(field_at bytes p (n + 16) :: u32) AND (push_bit (n + 6) 1 - 1) = field_at bytes (p + 10) (n + 6)"
      using take_field [of "n + 16" bytes p] n(1) False by (simp_all add: add.commute)
    show ?thesis
      using False n w' t un r
      by (simp add: read_udw_def u u' Let_def flip: w_def)
  qed
qed

text \<open>A reader that has not passed the end of its bytes gives a run of fields, or throws.\<close>

lemma words_before_mono: "p \<le> q \<Longrightarrow> words_before p \<le> words_before q"
  unfolding words_before_def by (intro div_le_mono) simp

lemma low_byte: "ucast ((field_at bytes p 10 :: u16) AND Lower8Bits) = (field_at bytes (p + 2) 8 :: u8)"
proof (rule bit_word_eqI)
  fix j
  have "p + 10 - Suc j = p + 2 + 8 - Suc j" by simp
  then show "bit (ucast ((field_at bytes p 10 :: u16) AND Lower8Bits) :: u8) j \<longleftrightarrow> bit (field_at bytes (p + 2) 8 :: u8) j"
    by (auto simp: lower_masks bit_and_iff bit_mask_iff bit_ucast_iff bit_field_at)
qed

lemma read_udws_at:
  assumes "2 * words_before p \<le> length bytes"
  shows "read_udws m (unpacker_at bytes p) =
    (if length bytes < 2 * words_before (p + 10 * m) then Throw RuntimeError
     else Ret (map (\<lambda>k. field_at bytes (p + 10 * k + 2) 8) [0..<m], unpacker_at bytes (p + 10 * m)))"
  using assms
proof (induction m arbitrary: p)
  case 0
  then show ?case by simp
next
  case (Suc m)
  have mono: "words_before p \<le> words_before (p + 10)" "words_before (p + 10) \<le> words_before (p + 10 * Suc m)"
    by (auto intro!: words_before_mono)
  show ?case
  proof (cases "length bytes < 2 * words_before (p + 10)")
    case True
    then show ?thesis using mono Suc.prems by (simp add: read_udw_at)
  next
    case False
    then have "read_udws m (unpacker_at bytes (p + 10)) =
      (if length bytes < 2 * words_before (p + 10 * Suc m) then Throw RuntimeError
       else Ret (map (\<lambda>k. field_at bytes (p + 10 + 10 * k + 2) 8) [0..<m], unpacker_at bytes (p + 10 * Suc m)))"
      using Suc.IH [of "p + 10"] by (simp add: ac_simps)
    moreover have "map (\<lambda>k. field_at bytes (p + 10 * k + 2) 8 :: u8) [0..<Suc m] =
        field_at bytes (p + 2) 8 # map (\<lambda>k. field_at bytes (p + 10 + 10 * k + 2) 8) [0..<m]"
      by (simp only: map_upt_Suc) (simp add: algebra_simps)
    ultimately show ?thesis
      using False by (simp add: read_udw_at low_byte del: upt_Suc)
  qed
qed

section \<open>A parser by positions\<close>

text \<open>
  The reference: an element starts at a 16 bit word, and its fields are runs of bits counted from there;
  the user data words are read from bit 64 on, ten bits each, followed by the checksum.
\<close>

definition element_start :: "nat \<Rightarrow> nat" where
  "element_start w = (if even w then w + 1 else w)"

definition element_end :: "nat \<Rightarrow> u8 \<Rightarrow> nat" where
  "element_end w dc = words_before (16 * (w + 4) + 10 * (unat dc + 1))"

definition element_at :: "u8 list \<Rightarrow> nat \<Rightarrow> AncElement" where
  "element_at bytes w =
     (let p = 16 * w; dc = field_at bytes (p + 54) 8 in
      \<lparr>ae_lineNumber = field_at bytes (p + 1) 11, ae_did = field_at bytes (p + 34) 8, ae_sdid = field_at bytes (p + 44) 8,
       ae_dataCount = dc, ae_udw = map (\<lambda>k. field_at bytes (p + 64 + 10 * k + 2) 8) [0..<unat dc]\<rparr>)"

fun elements_from :: "u8 list \<Rightarrow> nat \<Rightarrow> nat \<Rightarrow> AncElement list option" where
  "elements_from bytes w 0 = Some []"
| "elements_from bytes w (Suc n) =
     (let s = element_start w; e = element_at bytes s; w' = element_end s (ae_dataCount e) in
      if length bytes < 2 * (s + 4) \<or> length bytes < 2 * w' then None
      else map_option ((#) e) (elements_from bytes w' n))"

definition frame_by_position :: "u8 list \<Rightarrow> AncFrame option" where
  "frame_by_position bytes =
     (let len = field_at bytes 0 16; ancCount = field_at bytes 16 8 in
      if length bytes < Rfc8331HeaderSizeBytes \<or> length bytes < unat (len :: u16) + Rfc8331HeaderSizeBytes then None
      else map_option (\<lambda>es. \<lparr>af_length = len, af_ancCount = ancCount, af_elements = es\<rparr>)
        (elements_from bytes 3 (unat (ancCount :: u8))))"

lemma sub_field:
  assumes "a + m \<le> n" and "m \<le> LENGTH('b)" and "n \<le> LENGTH('a)"
  shows "ucast (drop_bit (n - (a + m)) (field_at bytes p n :: 'a::len word) AND mask m) = (field_at bytes (p + a) m :: 'b::len word)"
proof (rule bit_word_eqI)
  fix j
  assume "j < LENGTH('b)"
  moreover have "j < m \<Longrightarrow> p + n - Suc (n - (a + m) + j) = p + a + m - Suc j" using assms(1) by simp
  ultimately show "bit (ucast (drop_bit (n - (a + m)) (field_at bytes p n :: 'a word) AND mask m) :: 'b word) j \<longleftrightarrow>
      bit (field_at bytes (p + a) m :: 'b word) j"
    using assms by (auto simp: bit_and_iff bit_mask_iff bit_ucast_iff bit_drop_bit_eq bit_field_at)
qed

lemma unpacker_start: "udw_unpacker (reader_at bytes w) = unpacker_at bytes (16 * w)"
proof -
  have "words_before (16 * w) = w" by (simp add: words_before_def)
  moreover have "(field_at bytes (16 * w) 0 :: u32) = 0" by (simp add: field_at_def)
  ultimately show ?thesis by (simp add: udw_unpacker_def unpacker_at_def)
qed

lemma parse_element_at:
  assumes "2 * w \<le> length bytes"
  shows "parse_element (reader_at bytes w) =
    (let s = element_start w; e = element_at bytes s; w' = element_end s (ae_dataCount e) in
     if length bytes < 2 * (s + 4) \<or> length bytes < 2 * w' then Throw RuntimeError else Ret (e, reader_at bytes w'))"
proof -
  define s where "s = element_start w"
  define p where "p = 16 * s"
  have "wordOffset (reader_at bytes w) = w" by (simp add: wordOffset_def reader_at_def)
  then have sk: "skip_alignment (reader_at bytes w) = (if length bytes < 2 * s then Throw RuntimeError else Ret (reader_at bytes s))"
    using assms by (auto simp: skip_alignment_def read_word_at s_def element_start_def even_iff_mod_2_eq_zero)
  have line: "drop_bit 4 (field_at bytes p 16 :: u16) AND Lower11Bits = field_at bytes (p + 1) 11"
    using sub_field [where 'a = 16 and 'b = 16 and a = 1 and m = 11 and n = 16 and p = p and bytes = bytes] by (simp add: lower_masks add.commute)
  have did: "ucast (drop_bit 6 (field_at bytes (p + 32) 16 :: u16) AND Lower8Bits) = (field_at bytes (p + 34) 8 :: u8)"
    using sub_field [where 'a = 16 and 'b = 8 and a = 2 and m = 8 and n = 16 and p = "p + 32" and bytes = bytes] by (simp add: lower_masks add.commute)
  have dc: "ucast (drop_bit 2 (field_at bytes (p + 48) 16 :: u16) AND Lower8Bits) = (field_at bytes (p + 54) 8 :: u8)"
    using sub_field [where 'a = 16 and 'b = 8 and a = 6 and m = 8 and n = 16 and p = "p + 48" and bytes = bytes] by (simp add: lower_masks add.commute)
  have sdid: "ucast (push_bit 4 (field_at bytes (p + 32) 16 AND 0x000f) OR (drop_bit 12 (field_at bytes (p + 48) 16 :: u16) AND 0x000f)) =
      (field_at bytes (p + 44) 8 :: u8)"
  proof (rule bit_word_eqI)
    fix j
    assume "j < LENGTH(8)"
    then have j: "j < 8" by simp
    have nibble: "x AND 0x000f = take_bit 4 x" for x :: u16
      unfolding take_bit_eq_mask by (simp add: mask_eq_exp_minus_1)
    have "4 \<le> j \<Longrightarrow> p + 32 + 16 - 1 - (j - 4) = p + 44 + 8 - 1 - j" "p + 48 + 16 - 1 - (12 + j) = p + 44 + 8 - 1 - j"
      using j by auto
    then show "bit (ucast (push_bit 4 (field_at bytes (p + 32) 16 AND 0x000f) OR
        (drop_bit 12 (field_at bytes (p + 48) 16 :: u16) AND 0x000f)) :: u8) j \<longleftrightarrow> bit (field_at bytes (p + 44) 8 :: u8) j"
      unfolding nibble
      using j by (auto simp: bit_or_iff bit_take_bit_iff bit_ucast_iff bit_push_bit_iff bit_drop_bit_eq bit_field_at)
  qed
  have st: "words_before (16 * (s + 4)) = s + 4" by (simp add: words_before_def)
  have ix: "16 * (s + 1 + 1) = p + 32" "16 * (s + 1 + 1 + 1) = p + 48" "s + 1 + 1 + 1 + 1 = s + 4" "16 * s = p" "16 * (s + 4) = p + 64"
    by (simp_all add: p_def)
  show ?thesis
  proof (cases "length bytes < 2 * (s + 4)")
    case True
    then show ?thesis
      by (auto simp: parse_element_def sk read_word_at Let_def simp flip: s_def)
  next
    case False
    define q where "q = 16 * (s + 4)"
    define m where "m = unat (field_at bytes (p + 54) 8 :: u8)"
    have le: "s + 4 \<le> words_before (q + 10 * m)" "words_before (q + 10 * m) \<le> words_before (q + 10 * m + 10)"
      using words_before_mono [of q "q + 10 * m"] st by (auto simp: q_def intro!: words_before_mono)
    have words: "read_udws m (udw_unpacker (reader_at bytes (s + 4))) =
      (if length bytes < 2 * words_before (q + 10 * m) then Throw RuntimeError
       else Ret (map (\<lambda>k. field_at bytes (q + 10 * k + 2) 8) [0..<m], unpacker_at bytes (q + 10 * m)))"
      using read_udws_at [of q bytes m] False st by (simp add: unpacker_start q_def)
    have r: "uu_reader (unpacker_at bytes x) = reader_at bytes (words_before x)" for x
      by (simp add: unpacker_at_def Let_def)
    have e: "element_end s (field_at bytes (p + 54) 8) = words_before (q + 10 * m + 10)"
      by (simp add: element_end_def q_def m_def algebra_simps)
    have head: "read_word (reader_at bytes s) = Ret (field_at bytes p 16, reader_at bytes (s + 1))"
      "read_word (reader_at bytes (s + 1)) = Ret (field_at bytes (p + 16) 16, reader_at bytes (s + 2))"
      "read_word (reader_at bytes (s + 2)) = Ret (field_at bytes (p + 32) 16, reader_at bytes (s + 3))"
      "read_word (reader_at bytes (s + 3)) = Ret (field_at bytes (p + 48) 16, reader_at bytes (s + 4))"
      using False by (auto simp: p_def algebra_simps intro!: read_word_ok)
    have el: "element_at bytes s = \<lparr>ae_lineNumber = field_at bytes (p + 1) 11, ae_did = field_at bytes (p + 34) 8,
        ae_sdid = field_at bytes (p + 44) 8, ae_dataCount = field_at bytes (p + 54) 8,
        ae_udw = map (\<lambda>k. field_at bytes (q + 10 * k + 2) 8) [0..<m]\<rparr>"
      by (simp add: element_at_def p_def q_def m_def Let_def algebra_simps)
    have sk': "skip_alignment (reader_at bytes w) = Ret (reader_at bytes s)" using False by (simp add: sk)
    have "parse_element (reader_at bytes w) =
      obind (read_udws m (udw_unpacker (reader_at bytes (s + 4)))) (\<lambda>(ws, u). obind (read_udw u) (\<lambda>(_, u').
        Ret (\<lparr>ae_lineNumber = field_at bytes (p + 1) 11, ae_did = field_at bytes (p + 34) 8, ae_sdid = field_at bytes (p + 44) 8,
              ae_dataCount = field_at bytes (p + 54) 8, ae_udw = ws\<rparr>, uu_reader u')))"
      unfolding parse_element_def sk' Let_def by (simp only: obind.simps prod.case head line did sdid dc m_def)
    then show ?thesis
      using False le by (auto simp: words read_udw_at r e el Let_def simp flip: s_def)
  qed
qed

lemma parse_elements_at:
  assumes "2 * w \<le> length bytes"
  shows "parse_elements n (reader_at bytes w) =
    (case elements_from bytes w n of None \<Rightarrow> Throw RuntimeError | Some es \<Rightarrow> Ret es)"
  using assms
proof (induction n arbitrary: w)
  case 0
  then show ?case by simp
next
  case (Suc n)
  define s where "s = element_start w"
  define w' where "w' = element_end s (ae_dataCount (element_at bytes s))"
  show ?case
  proof (cases "length bytes < 2 * (s + 4) \<or> length bytes < 2 * w'")
    case True
    then show ?thesis
      using Suc.prems by (auto simp: parse_element_at Let_def simp flip: s_def w'_def)
  next
    case False
    then have "parse_elements n (reader_at bytes w') =
        (case elements_from bytes w' n of None \<Rightarrow> Throw RuntimeError | Some es \<Rightarrow> Ret es)"
      using Suc.IH [of w'] by simp
    then show ?thesis
      using False Suc.prems
      by (auto simp: parse_element_at Let_def split: option.splits simp flip: s_def w'_def)
  qed
qed

text \<open>C40: The parser, which reads words and unpacks bits as it goes, is equal to the reference that takes
  every field from its bit position: on every payload both give the same frame, or the parser throws where the
  reference has none: where the payload is shorter than its header, its length field or an element need.\<close>

theorem parser_reads_by_position:
  "parseAncFrame payload = (case frame_by_position payload of None \<Rightarrow> Throw RuntimeError | Some frame \<Rightarrow> Ret frame)"
proof (cases "length payload < Rfc8331HeaderSizeBytes")
  case True
  then show ?thesis by (simp add: parseAncFrame_def frame_by_position_def)
next
  case False
  then have len: "6 \<le> length payload" by (simp add: Rfc8331HeaderSizeBytes_def)
  have w: "word_reader payload = reader_at payload 0" by (simp add: word_reader_def reader_at_def)
  have head: "read_word (reader_at payload 0) = Ret (field_at payload 0 16, reader_at payload 1)"
    "read_word (reader_at payload (Suc 0)) = Ret (field_at payload 16 16, reader_at payload 2)"
    "read_word (reader_at payload 2) = Ret (field_at payload 32 16, reader_at payload 3)"
    using len by (auto intro!: read_word_ok)
  have ac: "ucast (drop_bit 8 (field_at payload 16 16 :: u16)) = (field_at payload 16 8 :: u8)"
    by (rule bit_word_eqI) (auto simp: bit_ucast_iff bit_drop_bit_eq bit_field_at)
  show ?thesis
    using False len
    by (auto simp: parseAncFrame_def frame_by_position_def w head ac parse_elements_at Let_def split: option.splits)
qed

section \<open>User data words\<close>

text \<open>
  RFC 8331 packs the user data words right behind the ten bits of the data count, which end at bit 62 of
  an element. The parser starts at the next 16 bit word instead: what it gives is the low six bits of a
  user data word followed by the top two bits of the next one.
\<close>

definition rfc_user_word :: "u8 list \<Rightarrow> nat \<Rightarrow> nat \<Rightarrow> u16" where
  "rfc_user_word bytes w k = field_at bytes (16 * w + 62 + 10 * k) 10"

lemma user_words_are_shifted:
  assumes "k < length (ae_udw (element_at bytes w))"
  shows "ae_udw (element_at bytes w) ! k =
    push_bit 2 (ucast (rfc_user_word bytes w k)) OR ucast (drop_bit 8 (rfc_user_word bytes w (k + 1)))"
proof -
  define p where "p = 16 * w + 62 + 10 * k"
  have "ae_udw (element_at bytes w) ! k = field_at bytes (p + 4) 8"
    using assms by (simp add: element_at_def Let_def p_def algebra_simps)
  also have "\<dots> = push_bit 2 (ucast (field_at bytes p 10 :: u16)) OR ucast (drop_bit 8 (field_at bytes (p + 10) 10 :: u16))"
  proof (rule bit_word_eqI)
    fix j
    assume "j < LENGTH(8)"
    moreover have "2 \<le> j \<Longrightarrow> j < 8 \<Longrightarrow> p + 10 - 1 - (j - 2) = p + 4 + 8 - 1 - j"
      "p + 10 + 10 - 1 - (8 + j) = p + 4 + 8 - 1 - j" by auto
    ultimately show "bit (field_at bytes (p + 4) 8 :: u8) j \<longleftrightarrow>
        bit (push_bit 2 (ucast (field_at bytes p 10 :: u16)) OR ucast (drop_bit 8 (field_at bytes (p + 10) 10 :: u16)) :: u8) j"
      by (auto simp: bit_or_iff bit_ucast_iff bit_push_bit_iff bit_drop_bit_eq bit_field_at)
  qed
  finally show ?thesis by (simp add: rfc_user_word_def p_def algebra_simps)
qed

section \<open>Descriptions\<close>

record AncDataType =
  dt_did :: u8
  dt_sdid :: u8
  dt_description :: string

definition CommonAncDataTypes :: "AncDataType list" where
  "CommonAncDataTypes =
    [\<lparr>dt_did = 0x41, dt_sdid = 0x01, dt_description = ''SMPTE ST 352 Video Payload ID''\<rparr>,
     \<lparr>dt_did = 0x41, dt_sdid = 0x05, dt_description = ''SMPTE ST 2016 Active Format Description''\<rparr>,
     \<lparr>dt_did = 0x41, dt_sdid = 0x07, dt_description = ''ANSI/SCTE 104 messages''\<rparr>,
     \<lparr>dt_did = 0x41, dt_sdid = 0x08, dt_description = ''SMPTE ST 2031 VBI data''\<rparr>,
     \<lparr>dt_did = 0x41, dt_sdid = 0x0C, dt_description = ''SMPTE ST 2108-1 HDR/WCG metadata''\<rparr>,
     \<lparr>dt_did = 0x43, dt_sdid = 0x02, dt_description = ''OP-47 Subtitling Distribution Packet''\<rparr>,
     \<lparr>dt_did = 0x43, dt_sdid = 0x03, dt_description = ''OP-47 VANC multipacket''\<rparr>,
     \<lparr>dt_did = 0x50, dt_sdid = 0x01, dt_description = ''Wide Screen Signaling''\<rparr>,
     \<lparr>dt_did = 0x60, dt_sdid = 0x60, dt_description = ''SMPTE ST 12-2 Ancillary Time Code''\<rparr>,
     \<lparr>dt_did = 0x61, dt_sdid = 0x01, dt_description = ''SMPTE ST 334 Caption Distribution Packet''\<rparr>,
     \<lparr>dt_did = 0x61, dt_sdid = 0x02, dt_description = ''SMPTE ST 334 CEA-608 closed captions''\<rparr>]"

fun describe_in :: "AncDataType list \<Rightarrow> u8 \<Rightarrow> u8 \<Rightarrow> string" where
  "describe_in [] did sdid = ''Unknown ancillary data''"
| "describe_in (dataType # rest) did sdid =
     (if dt_did dataType = did \<and> dt_sdid dataType = sdid then dt_description dataType else describe_in rest did sdid)"

definition describeAncDataType :: "u8 \<Rightarrow> u8 \<Rightarrow> string" where
  "describeAncDataType = describe_in CommonAncDataTypes"

lemma describe_in_member:
  "distinct (map (\<lambda>d. (dt_did d, dt_sdid d)) ds) \<Longrightarrow> d \<in> set ds \<Longrightarrow>
    describe_in ds (dt_did d) (dt_sdid d) = dt_description d"
  by (induction ds) (force simp: image_iff)+

lemma types_are_described: "d \<in> set CommonAncDataTypes \<Longrightarrow> describeAncDataType (dt_did d) (dt_sdid d) = dt_description d"
  unfolding describeAncDataType_def by (rule describe_in_member) (simp_all add: CommonAncDataTypes_def)

section \<open>Reading a flow\<close>

definition readablePayloadSize :: "mxlGrainInfo \<Rightarrow> u64" where
  "readablePayloadSize info =
     (if validSlices info > 0 \<and> validSlices info < totalSlices info
      then min (ucast (grainSize info)) (ucast (validSlices info)) else ucast (grainSize info))"

text \<open>
  What the C interface answers: whether an instance and a reader are made, the flow information, the flow
  definition for a buffer of a size, and the grain at an index in the \<open>k\<close>-th round.
\<close>

record probe_env =
  pe_instance :: bool
  pe_reader :: mxlStatus
  pe_info :: "mxlStatus \<times> mxlFlowInfo"
  pe_flowDef :: "u64 \<Rightarrow> mxlStatus \<times> string \<times> u64"
  pe_grain :: "nat \<Rightarrow> u64 \<Rightarrow> mxlStatus \<times> mxlGrainInfo \<times> u8 list"

definition flow_def_text :: "probe_env \<Rightarrow> mxlStatus \<times> string" where
  "flow_def_text env =
     (let (status, txt, bufferSize) = pe_flowDef env 4096 in
      if status = MXL_ERR_INVALID_ARG \<and> bufferSize > 4096
      then let (status', txt', _) = pe_flowDef env bufferSize in (status', txt')
      else (status, txt))"

definition getMediaType :: "services \<Rightarrow> probe_env \<Rightarrow> string outcome" where
  "getMediaType sv env =
     (let (status, txt) = flow_def_text env in
      if status \<noteq> MXL_STATUS_OK then Throw RuntimeError
      else case sv_parse sv txt of
        None \<Rightarrow> Throw RuntimeError
      | Some (JObj ob) \<Rightarrow> (case map_of ob ''media_type'' of Some (JStr s) \<Rightarrow> Ret s | _ \<Rightarrow> Ret [])
      | Some _ \<Rightarrow> Throw RuntimeError)"

type_synonym printed = "u64 \<times> mxlGrainInfo \<times> AncFrame"

fun read_grains :: "probe_env \<Rightarrow> nat \<Rightarrow> nat \<Rightarrow> u64 \<Rightarrow> printed list \<times> unit outcome" where
  "read_grains env k 0 idx = ([], Ret ())"
| "read_grains env k (Suc n) idx =
     (let (status, info, payload) = pe_grain env k idx in
      if status \<noteq> MXL_STATUS_OK then ([], Throw RuntimeError)
      else case parseAncFrame (take (unat (readablePayloadSize info)) payload) of
        Ret frame \<Rightarrow> (let (out, r) = read_grains env (Suc k) n (idx + 1) in ((idx, info, frame) # out, r))
      | Throw _ \<Rightarrow> ([], Throw RuntimeError)
      | Crash c \<Rightarrow> ([], Crash c))"

datatype scoped = ScopedMxlInstance | ScopedFlowReader

text \<open>What is printed, how the call ends, and what its scopes release on the way out.\<close>

definition probe_flow :: "services \<Rightarrow> probe_env \<Rightarrow> u64 \<Rightarrow> printed list \<times> unit outcome" where
  "probe_flow sv env n =
     (let (status, info) = pe_info env in
      if status \<noteq> MXL_STATUS_OK then ([], Throw RuntimeError)
      else if cfg_format (common (config info)) \<noteq> format_code MXL_DATA_FORMAT_DATA then ([], Throw RuntimeError)
      else case getMediaType sv env of
        Ret mediaType \<Rightarrow>
          if mediaType \<noteq> ''video/smpte291'' then ([], Throw RuntimeError)
          else read_grains env 0 (unat n) (headIndex (runtime info))
      | Throw e \<Rightarrow> ([], Throw e)
      | Crash c \<Rightarrow> ([], Crash c))"

definition readDataFlow :: "services \<Rightarrow> probe_env \<Rightarrow> u64 \<Rightarrow> printed list \<times> unit outcome \<times> scoped list" where
  "readDataFlow sv env n =
     (if \<not> pe_instance env then ([], Throw RuntimeError, [])
      else if pe_reader env \<noteq> MXL_STATUS_OK then ([], Throw RuntimeError, [ScopedMxlInstance])
      else let (out, r) = probe_flow sv env n in (out, r, [ScopedFlowReader, ScopedMxlInstance]))"

definition probe_main :: "unit outcome \<Rightarrow> bool" where
  "probe_main r \<longleftrightarrow> r = Ret ()"

text \<open>The grains printed are consecutive, each one parsed from its payload; an error ends the run.\<close>

lemma printed_grains:
  "j < length (fst (read_grains env k n idx)) \<Longrightarrow>
    \<exists>info frame payload. fst (read_grains env k n idx) ! j = (idx + of_nat j, info, frame) \<and>
      pe_grain env (k + j) (idx + of_nat j) = (MXL_STATUS_OK, info, payload) \<and>
      parseAncFrame (take (unat (readablePayloadSize info)) payload) = Ret frame"
proof (induction n arbitrary: k idx j)
  case 0
  then show ?case by simp
next
  case (Suc n)
  obtain status info payload where g: "pe_grain env k idx = (status, info, payload)" by (cases "pe_grain env k idx")
  from Suc.prems g obtain frame where ok: "status = MXL_STATUS_OK"
    and p: "parseAncFrame (take (unat (readablePayloadSize info)) payload) = Ret frame"
    by (auto split: if_splits outcome.splits)
  show ?case
  proof (cases j)
    case 0
    then show ?thesis using g ok p by (simp split: prod.splits)
  next
    case (Suc i)
    then have "i < length (fst (read_grains env (Suc k) n (idx + 1)))"
      using Suc.prems g ok p by (simp add: split_beta Let_def)
    from Suc.IH [OF this] show ?thesis
      using Suc g ok p by (simp add: algebra_simps split_beta Let_def)
  qed
qed

lemma complete_run: "snd (read_grains env k n idx) = Ret () \<Longrightarrow> length (fst (read_grains env k n idx)) = n"
  by (induction n arbitrary: k idx) (auto simp: split_beta Let_def split: if_splits outcome.splits)

end
