(* ===== verification/MediaSink.thy ===== *)
theory MediaSink
  imports FlowTypes Timing
begin

text \<open>
  The player of flows (\<open>tools/mxl-gst/sink.cpp\<close>): the cursor that decides which index to read and when,
  the loops that read a video or an audio flow and push what they read to a pipeline, and their recovery
  from an invalid flow. What the C interface, the clock and the pipeline answer may depend on everything
  called before, so each answer is a function of the trace, the latest call first. Pushed data are in the
  order of their indices as long as the clock does not run backwards.
\<close>

section \<open>Calls and answers\<close>

datatype sink_call =
    GetTime
  | SleepUntil u64
  | SleepMs nat
  | GetGrain u64 u64
  | GetGrainSlice u64 u16 u64
  | GetSamples u64 u32 u64
  | GetRuntimeInfo
  | GetConfigInfo
  | CreateReader
  | ReleaseReader
  | DestroyInstance
  | AddAudioMeta
  | MapAudioBuffer
  | PushVideo u64 u64 "u8 list"
  | PushAudio u64 u64 "u8 list list"

type_synonym sink_trace = "sink_call list"

record sink_env =
  se_exit :: "sink_trace \<Rightarrow> bool"
  se_time :: "sink_trace \<Rightarrow> u64"
  se_grain :: "sink_trace \<Rightarrow> mxlStatus \<times> mxlGrainInfo \<times> u8 list"
  se_samples :: "sink_trace \<Rightarrow> mxlStatus \<times> mxlWrappedMultiBufferSlice"
  se_memory :: "sink_trace \<Rightarrow> u64 \<Rightarrow> u8"
  se_instance :: bool
  se_open :: "sink_trace \<Rightarrow> mxlStatus"
  se_config :: "sink_trace \<Rightarrow> mxlStatus \<times> mxlFlowConfigInfo"
  se_gst :: "sink_trace \<Rightarrow> bool"

section \<open>The cursor\<close>

text \<open>The window of a cursor is never empty: it is one grain, or at least 48 samples.\<close>

record cursor =
  cu_rate :: mxlRational
  cu_windowSize :: u32
  cu_readDelayGrains :: int
  cu_currentIndex :: u64
  cu_requestedIndex :: u64
  cu_deliveryDeadline :: u64

definition cu_window :: "cursor \<Rightarrow> u64" where
  "cu_window c = ucast (cu_windowSize c)"

definition durationInGrains :: "mxlRational \<Rightarrow> int \<Rightarrow> int" where
  "durationInGrains rate duration = i64_of_u64 (mxlTimestampToIndex (Some rate) (word_of_int duration))"

definition getDeliveryDeadline :: "cursor \<Rightarrow> u64" where
  "getDeliveryDeadline c = mxlIndexToTimestamp (Some (cu_rate c)) (cu_currentIndex c + cu_window c)"

definition with_deadline :: "cursor \<Rightarrow> cursor" where
  "with_deadline c = c\<lparr>cu_deliveryDeadline := getDeliveryDeadline c\<rparr>"

definition aligned_index :: "cursor \<Rightarrow> u64 \<Rightarrow> u64" where
  "aligned_index c timeNow =
     (mxlTimestampToIndex (Some (cu_rate c)) timeNow + ucast (cu_windowSize c div 2)) div cu_window c * cu_window c"

definition realign :: "u64 \<Rightarrow> cursor \<Rightarrow> cursor" where
  "realign timeNow c =
     (let cur = aligned_index c timeNow in
      with_deadline (c\<lparr>cu_currentIndex := cur, cu_requestedIndex := cur - word_of_int (cu_readDelayGrains c)\<rparr>))"

text \<open>The cursor after it has slept until its deadline.\<close>

definition cursor_next :: "cursor \<Rightarrow> cursor" where
  "cursor_next c =
     with_deadline (c\<lparr>cu_currentIndex := cu_currentIndex c + cu_window c,
                      cu_requestedIndex := cu_requestedIndex c + cu_window c\<rparr>)"

definition read_delay :: "mxlRational \<Rightarrow> u32 \<Rightarrow> int \<Rightarrow> int" where
  "read_delay rate windowSize readDelay =
     wrap64 (wrap64 (wrap64 (durationInGrains rate readDelay + uint windowSize) - 1) sdiv uint windowSize * uint windowSize)"

definition new_cursor :: "mxlRational \<Rightarrow> u32 \<Rightarrow> int \<Rightarrow> u64 \<Rightarrow> cursor" where
  "new_cursor rate windowSize readDelay timeNow =
     realign timeNow \<lparr>cu_rate = rate, cu_windowSize = windowSize, cu_readDelayGrains = read_delay rate windowSize readDelay,
       cu_currentIndex = 0, cu_requestedIndex = 0, cu_deliveryDeadline = 0\<rparr>"

section \<open>The reader\<close>

record sink =
  sk_reader :: bool
  sk_config :: mxlFlowConfigInfo
  sk_highestLatencyNs :: u64
  sk_cursor :: cursor
  sk_expectedSlices :: u32
  sk_trace :: sink_trace

definition called :: "sink_call \<Rightarrow> sink \<Rightarrow> sink" where
  "called e s = s\<lparr>sk_trace := e # sk_trace s\<rparr>"

definition initial_latency :: "mxlRational \<Rightarrow> u64 \<Rightarrow> u64 \<Rightarrow> u64" where
  "initial_latency rate currentIndex requestedIndex =
     mxlIndexToTimestamp (Some rate) currentIndex - mxlIndexToTimestamp (Some rate) requestedIndex"

definition updateHighestLatency :: "u64 \<Rightarrow> u64 \<Rightarrow> sink \<Rightarrow> sink" where
  "updateHighestLatency mxlTimestamp currentMxlTime s =
     (let latencyNs = (if currentMxlTime > mxlTimestamp then currentMxlTime - mxlTimestamp else 0) in
      if latencyNs > sk_highestLatencyNs s then s\<lparr>sk_highestLatencyNs := latencyNs\<rparr> else s)"

text \<open>Opening the reader again; a reader whose configuration cannot be read is released.\<close>

definition handleInvalidFlow :: "sink_env \<Rightarrow> sink \<Rightarrow> bool \<times> sink" where
  "handleInvalidFlow env s0 =
     (let s1 = called ReleaseReader (s0\<lparr>sk_reader := False\<rparr>);
          ret = se_open env (sk_trace s1);
          s2 = called CreateReader s1
      in if ret \<noteq> MXL_STATUS_OK then (False, s2)
         else let (ret', cfg) = se_config env (sk_trace s2);
                  s3 = called GetConfigInfo (s2\<lparr>sk_reader := True\<rparr>)
              in if ret' \<noteq> MXL_STATUS_OK then (False, called ReleaseReader (s3\<lparr>sk_reader := False\<rparr>))
                 else (True, s3\<lparr>sk_config := cfg\<rparr>))"

text \<open>
  Any other error: without a reader it is created again, with one the loop ends (\<open>Inl\<close>). The time is the
  one the round started at.
\<close>

definition recover :: "sink_env \<Rightarrow> u64 \<Rightarrow> sink \<Rightarrow> sink + sink" where
  "recover env startTime s =
     (if sk_reader s then Inl s
      else let ret = se_open env (sk_trace s);
               s1 = called CreateReader s
           in if ret \<noteq> MXL_STATUS_OK then Inr (called (SleepMs 500) s1)
              else let (ret', cfg) = se_config env (sk_trace s1);
                       s2 = called GetConfigInfo (s1\<lparr>sk_reader := True\<rparr>)
                   in if ret' \<noteq> MXL_STATUS_OK then Inl s2
                      else Inr (s2\<lparr>sk_config := cfg, sk_cursor := realign startTime (sk_cursor s2)\<rparr>))"

definition on_error :: "sink_env \<Rightarrow> u64 \<Rightarrow> mxlStatus \<Rightarrow> sink \<Rightarrow> sink + sink" where
  "on_error env startTime ret s =
     (if ret = MXL_ERR_FLOW_INVALID then
        (let (reopened, s') = handleInvalidFlow env s in
         Inr (if reopened then s'\<lparr>sk_cursor := realign startTime (sk_cursor s')\<rparr> else s'))
      else if ret = MXL_ERR_OUT_OF_RANGE_TOO_EARLY then Inr (called GetRuntimeInfo s)
      else if ret = MXL_ERR_OUT_OF_RANGE_TOO_LATE then
        Inr (called GetRuntimeInfo (s\<lparr>sk_cursor := realign startTime (sk_cursor s)\<rparr>))
      else recover env startTime s)"

definition advance :: "sink \<Rightarrow> sink" where
  "advance s = called (SleepUntil (cu_deliveryDeadline (sk_cursor s))) (s\<lparr>sk_cursor := cursor_next (sk_cursor s)\<rparr>)"

definition iteration_timeout :: "u64 \<Rightarrow> cursor \<Rightarrow> u64" where
  "iteration_timeout startTime c =
     (if startTime < cu_deliveryDeadline c then cu_deliveryDeadline c - startTime else 0)"

section \<open>Video\<close>

definition push_grain :: "sink_env \<Rightarrow> mxlRational \<Rightarrow> mxlGrainInfo \<Rightarrow> u8 list \<Rightarrow> sink \<Rightarrow> sink" where
  "push_grain env rate info payload s =
     (let idx = cu_requestedIndex (sk_cursor s);
          timestamp = mxlIndexToTimestamp (Some rate) idx;
          now = se_time env (sk_trace s)
      in called (PushVideo idx timestamp (take (unat (grainSize info)) payload))
           (updateHighestLatency timestamp now (called GetTime s)))"

definition grain_arrived ::
  "sink_env \<Rightarrow> mxlRational \<Rightarrow> u32 \<Rightarrow> bool \<Rightarrow> mxlGrainInfo \<Rightarrow> u8 list \<Rightarrow> sink \<Rightarrow> sink" where
  "grain_arrived env rate slicesPerBatch sliceReadMode info payload s =
     (if validSlices info \<ge> totalSlices info then
        (advance (if and (gi_flags info) MXL_GRAIN_FLAG_INVALID = 0 then push_grain env rate info payload s else s))
          \<lparr>sk_expectedSlices := slicesPerBatch\<rparr>
      else if sliceReadMode then
        s\<lparr>sk_expectedSlices := ucast (min (totalSlices info) (validSlices info + ucast slicesPerBatch))\<rparr>
      else s)"

definition video_round :: "sink_env \<Rightarrow> mxlRational \<Rightarrow> u32 \<Rightarrow> bool \<Rightarrow> sink \<Rightarrow> sink + sink" where
  "video_round env rate slicesPerBatch sliceReadMode s0 =
     (let startTime = se_time env (sk_trace s0);
          s1 = called GetTime s0;
          idx = cu_requestedIndex (sk_cursor s1);
          (ret, info, payload) = se_grain env (sk_trace s1);
          timeoutNs = iteration_timeout startTime (sk_cursor s1);
          s2 = called (if sliceReadMode then GetGrainSlice idx (ucast (sk_expectedSlices s1)) timeoutNs else GetGrain idx timeoutNs) s1
      in if ret = MXL_STATUS_OK then Inr (grain_arrived env rate slicesPerBatch sliceReadMode info payload s2)
         else on_error env startTime ret s2)"

section \<open>Audio\<close>

text \<open>A channel of the samples: its bytes in the first fragment, then those in the second.\<close>

definition sink_fragment :: "(u64 \<Rightarrow> u8) \<Rightarrow> u64 \<Rightarrow> mxlBufferSlice \<Rightarrow> u8 list" where
  "sink_fragment memory offset f = map (\<lambda>k. memory (slice_pointer f + offset + of_nat k)) [0..<unat (slice_size f)]"

definition channel_plane :: "(u64 \<Rightarrow> u8) \<Rightarrow> mxlWrappedMultiBufferSlice \<Rightarrow> nat \<Rightarrow> u8 list" where
  "channel_plane memory payload channel =
     sink_fragment memory (of_nat channel * slice_stride payload) (fragment0 payload) @
     sink_fragment memory (of_nat channel * slice_stride payload) (fragment1 payload)"

definition push_samples :: "sink_env \<Rightarrow> mxlRational \<Rightarrow> u32 \<Rightarrow> mxlWrappedMultiBufferSlice \<Rightarrow> sink \<Rightarrow> sink" where
  "push_samples env rate windowSize payload s0 =
     (let idx = cu_requestedIndex (sk_cursor s0);
          now = se_time env (sk_trace s0);
          s1 = updateHighestLatency (mxlIndexToTimestamp (Some rate) idx) now (called GetTime s0);
          withMeta = se_gst env (sk_trace s1);
          s2 = called AddAudioMeta s1;
          mapped = se_gst env (sk_trace s2);
          s3 = called MapAudioBuffer s2;
          planes = map (channel_plane (se_memory env (sk_trace s3)) payload) [0..<unat (slice_count payload)];
          firstSampleIndex = idx - ucast windowSize + 1
      in if \<not> withMeta then s2
         else if \<not> mapped then s3
         else advance (called (PushAudio idx (mxlIndexToTimestamp (Some rate) firstSampleIndex) planes) s3))"

definition audio_round :: "sink_env \<Rightarrow> mxlRational \<Rightarrow> u32 \<Rightarrow> sink \<Rightarrow> sink + sink" where
  "audio_round env rate windowSize s0 =
     (let startTime = se_time env (sk_trace s0);
          s1 = called GetTime s0;
          (ret, payload) = se_samples env (sk_trace s1);
          timeoutNs = iteration_timeout startTime (sk_cursor s1);
          s2 = called (GetSamples (cu_requestedIndex (sk_cursor s1)) windowSize timeoutNs) s1
      in if ret = MXL_STATUS_OK then Inr (push_samples env rate windowSize payload s2)
         else on_error env startTime ret s2)"

section \<open>The loops\<close>

text \<open>After at most \<open>n\<close> rounds: ended (\<open>Inl\<close>) or not yet (\<open>Inr\<close>).\<close>

fun sink_loop :: "nat \<Rightarrow> sink_env \<Rightarrow> (sink \<Rightarrow> sink + sink) \<Rightarrow> sink \<Rightarrow> sink + sink" where
  "sink_loop 0 env rnd s = Inr s"
| "sink_loop (Suc n) env rnd s =
     (if se_exit env (sk_trace s) then Inl s
      else case rnd s of Inl s' \<Rightarrow> Inl s' | Inr s' \<Rightarrow> sink_loop n env rnd s')"

definition start_reading :: "sink_env \<Rightarrow> mxlRational \<Rightarrow> u32 \<Rightarrow> int \<Rightarrow> sink \<Rightarrow> sink" where
  "start_reading env rate windowSize readDelay s =
     (let c = new_cursor rate windowSize readDelay (se_time env (sk_trace s)) in
      called GetTime (s\<lparr>sk_cursor := c,
        sk_highestLatencyNs := initial_latency rate (cu_currentIndex c) (cu_requestedIndex c)\<rparr>))"

definition run_video :: "nat \<Rightarrow> sink_env \<Rightarrow> u64 \<Rightarrow> int \<Rightarrow> sink \<Rightarrow> (sink + sink) outcome" where
  "run_video n env frameHeight readDelay s =
     (let cfg = common (sk_config s);
          rate = grainRate cfg;
          slicesPerBatch = maxSyncBatchSizeHint cfg;
          sliceReadMode = (ucast slicesPerBatch < frameHeight)
      in if cfg_format cfg \<noteq> format_code MXL_DATA_FORMAT_VIDEO then Throw DomainError
         else if ucast slicesPerBatch > frameHeight then Throw InvalidArgument
         else Ret (sink_loop n env (video_round env rate slicesPerBatch sliceReadMode)
                (start_reading env rate 1 readDelay s \<lparr>sk_expectedSlices := slicesPerBatch\<rparr>)))"

definition run_audio :: "nat \<Rightarrow> sink_env \<Rightarrow> int \<Rightarrow> sink \<Rightarrow> (sink + sink) outcome" where
  "run_audio n env readDelay s =
     (let cfg = common (sk_config s);
          rate = grainRate cfg;
          windowSize = max (maxSyncBatchSizeHint cfg) 48
      in if cfg_format cfg \<noteq> format_code MXL_DATA_FORMAT_AUDIO then Throw DomainError
         else Ret (sink_loop n env (audio_round env rate windowSize) (start_reading env rate windowSize readDelay s)))"

section \<open>Construction and destruction\<close>

definition no_cursor :: cursor where
  "no_cursor = \<lparr>cu_rate = \<lparr>numerator = 0, denominator = 0\<rparr>, cu_windowSize = 0, cu_readDelayGrains = 0,
     cu_currentIndex = 0, cu_requestedIndex = 0, cu_deliveryDeadline = 0\<rparr>"

definition MxlReader_destroy :: "bool \<Rightarrow> sink \<Rightarrow> sink" where
  "MxlReader_destroy hasInstance s =
     (let s' = (if sk_reader s then called ReleaseReader s else s) in
      if hasInstance then called DestroyInstance s' else s')"

text \<open>A constructor that fails runs the destructor on what was made.\<close>

definition MxlReader_create :: "sink_env \<Rightarrow> mxlFlowConfigInfo \<Rightarrow> sink \<times> unit outcome" where
  "MxlReader_create env zero =
     (let s0 = \<lparr>sk_reader = False, sk_config = zero, sk_highestLatencyNs = 0, sk_cursor = no_cursor,
                sk_expectedSlices = 0, sk_trace = []\<rparr>;
          ret = se_open env [];
          s1 = called CreateReader s0;
          (ret', cfg) = se_config env (sk_trace s1);
          s2 = called GetConfigInfo (s1\<lparr>sk_reader := True\<rparr>)
      in if \<not> se_instance env then (MxlReader_destroy False s0, Throw RuntimeError)
         else if ret \<noteq> MXL_STATUS_OK then (MxlReader_destroy True s1, Throw RuntimeError)
         else if ret' \<noteq> MXL_STATUS_OK then (MxlReader_destroy True s2, Throw RuntimeError)
         else (s2\<lparr>sk_config := cfg\<rparr>, Ret ()))"

section \<open>The clock\<close>

text \<open>
  The clock does not run backwards and has passed the time a sleep was for; a window lasts less than
  \<open>2\<^sup>60\<close> nanoseconds. A run is early when it ends before \<open>2\<^sup>61\<close> nanoseconds (the year 2043).
\<close>

definition running_clock :: "sink_env \<Rightarrow> mxlRational \<Rightarrow> u32 \<Rightarrow> bool" where
  "running_clock env r w \<longleftrightarrow> positive_rate r \<and> numerator r \<le> 1000000000 * denominator r \<and> 0 < w \<and>
     uint w * (1000000000 * denominator r) \<le> 2 ^ 60 * numerator r \<and>
     (\<forall>tr e. se_time env tr \<le> se_time env (e # tr)) \<and>
     (\<forall>tr d. d \<le> se_time env (SleepUntil d # tr))"

definition early :: "sink_env \<Rightarrow> sink \<Rightarrow> bool" where
  "early env s \<longleftrightarrow> uint (se_time env (sk_trace s)) < 2 ^ 61"

definition nearest_window :: "u32 \<Rightarrow> int \<Rightarrow> int" where
  "nearest_window w i = (i + uint w div 2) div uint w * uint w"

lemma nearest_window_mono: "i \<le> j \<Longrightarrow> nearest_window w i \<le> nearest_window w j"
  unfolding nearest_window_def by (cases "w = 0") (auto intro!: mult_right_mono zdiv_mono1 simp: less_le uint_0_iff)

lemma nearest_window_le:
  assumes "0 < w"
  shows "nearest_window w i \<le> i + uint w div 2"
proof -
  have "0 \<le> (i + uint w div 2) mod uint w"
    using assms by (intro pos_mod_sign) (simp add: word_less_def)
  then show ?thesis
    unfolding nearest_window_def minus_mod_eq_div_mult [symmetric] by linarith
qed

lemma nearest_window_nonneg: "0 < w \<Longrightarrow> 0 \<le> i \<Longrightarrow> 0 \<le> nearest_window w i"
  unfolding nearest_window_def
  by (intro mult_nonneg_nonneg) (auto simp: word_less_def pos_imp_zdiv_nonneg_iff)

lemma nearest_window_multiple: "0 < w \<Longrightarrow> uint w dvd i \<Longrightarrow> i \<le> nearest_window w i"
  unfolding nearest_window_def by (auto elim!: dvdE simp: word_less_def)

lemma uint_mult_fits: "uint a * uint b < 2 ^ LENGTH('a) \<Longrightarrow> uint (a * b) = uint a * uint b" for a b :: "'a::len word"
  by (simp add: uint_word_ariths)

lemma uint_add_fits: "uint a + uint b < 2 ^ LENGTH('a) \<Longrightarrow> uint (a + b) = uint a + uint b" for a b :: "'a::len word"
  by (simp add: uint_word_ariths)

lemma aligned_index_nearest:
  assumes "running_clock env r w" and "cu_rate c = r" and "cu_windowSize c = w" and "uint t < 2 ^ 61"
  shows "uint (aligned_index c t) = nearest_window w (index_at r (uint t))"
proof -
  have rate: "positive_rate r" "numerator r \<le> 1000000000 * denominator r" and w: "0 < w"
    using assms(1) by (auto simp: running_clock_def)
  note ix = time_index [OF rate, of t]
  have "uint w < 2 ^ 32" using uint_bounded [of w] by simp
  then have half: "uint (ucast (w div 2) :: u64) = uint w div 2" "uint (ucast w :: u64) = uint w"
    by (simp_all add: uint_div unsigned_ucast_eq take_bit_int_eq_self)
  have s: "uint (mxlTimestampToIndex (Some r) t + ucast (w div 2)) = index_at r (uint t) + uint w div 2"
    using ix assms(4) half \<open>uint w < 2 ^ 32\<close> by (subst uint_add_fits) simp_all
  have "nearest_window w (index_at r (uint t)) \<le> index_at r (uint t) + uint w div 2"
    using w by (rule nearest_window_le)
  then have "nearest_window w (index_at r (uint t)) < 2 ^ 64"
    using ix assms(4) \<open>uint w < 2 ^ 32\<close> by simp
  then show ?thesis
    unfolding aligned_index_def cu_window_def assms(2,3)
    by (subst uint_mult_fits) (simp_all add: uint_div s half nearest_window_def)
qed

section \<open>Data are pushed in order\<close>

fun pushed_index :: "sink_call \<Rightarrow> u64 list" where
  "pushed_index (PushVideo i ts bytes) = [i]"
| "pushed_index (PushAudio i ts planes) = [i]"
| "pushed_index _ = []"

text \<open>The indices that were pushed, in the order of the pushes.\<close>

definition pushed_indices :: "sink \<Rightarrow> u64 list" where
  "pushed_indices s = concat (map pushed_index (rev (sk_trace s)))"

fun sink_of :: "sink + sink \<Rightarrow> sink" where
  "sink_of (Inl s) = s"
| "sink_of (Inr s) = s"

text \<open>The cursor of a reader: on a window, no later than the clock, and behind all that was pushed.\<close>

definition on_time :: "sink_env \<Rightarrow> mxlRational \<Rightarrow> u32 \<Rightarrow> int \<Rightarrow> sink \<Rightarrow> bool" where
  "on_time env r w d s \<longleftrightarrow>
     (let c = sk_cursor s in
      cu_rate c = r \<and> cu_windowSize c = w \<and> cu_readDelayGrains c = d \<and> cu_deliveryDeadline c = getDeliveryDeadline c \<and>
      uint w dvd uint (cu_currentIndex c) \<and>
      uint (cu_currentIndex c) \<le> nearest_window w (index_at r (uint (se_time env (sk_trace s)))) \<and>
      0 \<le> d \<and> d \<le> uint (cu_currentIndex c) \<and> uint (cu_requestedIndex c) = uint (cu_currentIndex c) - d \<and>
      sorted_wrt (<) (pushed_indices s) \<and> (\<forall>i\<in>set (pushed_indices s). i < cu_requestedIndex c))"

lemma pushed_called: "pushed_indices (called e s) = pushed_indices s @ pushed_index e"
  by (simp add: pushed_indices_def called_def)

lemma called_simps [simp]:
  "sk_cursor (called e s) = sk_cursor s" "sk_trace (called e s) = e # sk_trace s" "sk_reader (called e s) = sk_reader s"
  by (simp_all add: called_def)

lemma later_window:
  assumes "running_clock env r w" and "i \<le> nearest_window w (index_at r (uint t))" and "t \<le> u"
  shows "i \<le> nearest_window w (index_at r (uint u))"
proof -
  have "index_at r (uint t) \<le> index_at r (uint u)"
    using assms(1,3) by (intro index_at_mono) (auto simp: running_clock_def word_le_def)
  then show ?thesis using nearest_window_mono assms(2) order_trans by blast
qed

lemma on_time_called:
  assumes "running_clock env r w" and "on_time env r w d s" and "pushed_index e = []"
  shows "on_time env r w d (called e s)"
proof -
  have "se_time env (sk_trace s) \<le> se_time env (e # sk_trace s)"
    using assms(1) by (simp add: running_clock_def)
  from later_window [OF assms(1) _ this] show ?thesis
    using assms(2,3) by (simp add: on_time_def Let_def pushed_called)
qed

lemma on_time_cong:
  "sk_cursor s = sk_cursor s' \<Longrightarrow> sk_trace s = sk_trace s' \<Longrightarrow> on_time env r w d s \<longleftrightarrow> on_time env r w d s'"
  by (simp add: on_time_def pushed_indices_def)

lemma realign_simps [simp]:
  "cu_rate (realign t c) = cu_rate c" "cu_windowSize (realign t c) = cu_windowSize c"
  "cu_readDelayGrains (realign t c) = cu_readDelayGrains c" "cu_currentIndex (realign t c) = aligned_index c t"
  "cu_requestedIndex (realign t c) = aligned_index c t - word_of_int (cu_readDelayGrains c)"
  "cu_deliveryDeadline (realign t c) = getDeliveryDeadline (realign t c)"
  by (simp_all add: realign_def with_deadline_def Let_def getDeliveryDeadline_def cu_window_def)

lemma uint_minus_delay: "0 \<le> d \<Longrightarrow> d \<le> uint a \<Longrightarrow> uint (a - word_of_int d) = uint a - d" for a :: u64
  using uint_bounded [of a] by (simp add: uint_word_ariths uint_word_of_int)

lemma on_time_realign:
  assumes clock: "running_clock env r w" and s: "on_time env r w d s"
    and now: "uint (cu_currentIndex (sk_cursor s)) \<le> nearest_window w (index_at r (uint t))"
    and past: "t \<le> se_time env (sk_trace s)" and t: "uint t < 2 ^ 61"
  shows "on_time env r w d (s\<lparr>sk_cursor := realign t (sk_cursor s)\<rparr>)"
proof -
  let ?c = "sk_cursor s"
  have c: "cu_rate ?c = r" "cu_windowSize ?c = w" "cu_readDelayGrains ?c = d" "0 \<le> d" "d \<le> uint (cu_currentIndex ?c)"
    "uint (cu_requestedIndex ?c) = uint (cu_currentIndex ?c) - d"
    using s by (auto simp: on_time_def Let_def)
  have a: "uint (aligned_index ?c t) = nearest_window w (index_at r (uint t))"
    by (rule aligned_index_nearest [OF clock c(1,2) t])
  then have ge: "uint (cu_currentIndex ?c) \<le> uint (aligned_index ?c t)" using now by simp
  have req: "uint (aligned_index ?c t - word_of_int d) = uint (aligned_index ?c t) - d"
    using c ge by (intro uint_minus_delay) auto
  have "uint w dvd uint (aligned_index ?c t)" by (simp add: a nearest_window_def)
  moreover have "uint (aligned_index ?c t) \<le> nearest_window w (index_at r (uint (se_time env (sk_trace s))))"
    using later_window [OF clock _ past] a by simp
  moreover have "cu_requestedIndex ?c \<le> aligned_index ?c t - word_of_int d"
    using req ge c by (simp add: word_le_def)
  ultimately show ?thesis
    using s c ge req by (auto simp: on_time_def Let_def pushed_indices_def intro: order_less_le_trans)
qed

lemma window_budget:
  fixes A B C D E b h n :: int
  assumes "B \<le> E + b" "E \<le> 2 ^ 61 * n" "C \<le> D" "A \<le> B + C" "h \<le> n" "b \<le> D" "D \<le> 2 ^ 60 * n" "0 < n"
  shows "A + D + h < 2 ^ 63 * n"
  using assms by simp

lemma window_fits:
  fixes t :: u64
  assumes clock: "running_clock env r w" and c: "cu_rate c = r" "cu_windowSize c = w"
    and cur: "uint (cu_currentIndex c) \<le> nearest_window w (index_at r (uint t))" and t: "uint t < 2 ^ 61"
  shows "uint (cu_currentIndex c + cu_window c) = uint (cu_currentIndex c) + uint w"
    and "index_at r (uint (getDeliveryDeadline c)) = uint (cu_currentIndex c) + uint w"
proof -
  define b where "b = 1000000000 * denominator r"
  have rate: "positive_rate r" "numerator r \<le> 1000000000 * denominator r" and w: "0 < w"
    and long: "uint w * b \<le> 2 ^ 60 * numerator r"
    using clock by (auto simp: running_clock_def b_def)
  then have pos: "0 < b" "0 < numerator r" by (simp_all add: positive_rate_def b_def)
  have wl: "uint w < 2 ^ 32" "0 < uint w" using uint_bounded [of w] w by (simp_all add: word_less_def)
  have win: "uint (cu_window c) = uint w"
    using wl by (simp add: cu_window_def c unsigned_ucast_eq take_bit_int_eq_self)
  have cur': "uint (cu_currentIndex c) \<le> index_at r (uint t) + uint w div 2"
    using cur nearest_window_le [OF w] order_trans by blast
  with time_index [OF rate, of t] t wl
  show sum: "uint (cu_currentIndex c + cu_window c) = uint (cu_currentIndex c) + uint w"
    by (subst uint_add_fits) (simp_all add: win)
  have "uint (cu_currentIndex c) * b + uint w * b + numerator r div 2 < 2 ^ 63 * numerator r"
  proof (rule window_budget)
    show "index_at r (uint t) * b \<le> uint t * numerator r + b"
      unfolding index_at_def b_def [symmetric] minus_mod_eq_div_mult [symmetric]
      using pos_mod_sign [OF pos(1)] rate(1) by (simp add: b_def positive_rate_def algebra_simps)
    show "uint t * numerator r \<le> 2 ^ 61 * numerator r" using t pos by (intro mult_right_mono) auto
    show "(uint w div 2) * b \<le> uint w * b" using wl pos by (intro mult_right_mono) auto
    show "uint (cu_currentIndex c) * b \<le> index_at r (uint t) * b + (uint w div 2) * b"
      unfolding distrib_right [symmetric] using cur' pos by (intro mult_right_mono) auto
    show "numerator r div 2 \<le> numerator r" using pos by simp
    have "1 * b \<le> uint w * b" using wl pos by (intro mult_right_mono) auto
    then show "b \<le> uint w * b" by simp
  qed (use long pos in auto)
  then show "index_at r (uint (getDeliveryDeadline c)) = uint (cu_currentIndex c) + uint w"
    unfolding getDeliveryDeadline_def c sum [symmetric] by (intro index_time(1) [OF rate]) (simp add: sum b_def distrib_right)
qed

lemma cursor_next_simps [simp]:
  "cu_rate (cursor_next c) = cu_rate c" "cu_windowSize (cursor_next c) = cu_windowSize c"
  "cu_readDelayGrains (cursor_next c) = cu_readDelayGrains c"
  "cu_currentIndex (cursor_next c) = cu_currentIndex c + cu_window c"
  "cu_requestedIndex (cursor_next c) = cu_requestedIndex c + cu_window c"
  "cu_deliveryDeadline (cursor_next c) = getDeliveryDeadline (cursor_next c)"
  by (simp_all add: cursor_next_def with_deadline_def getDeliveryDeadline_def cu_window_def)

text \<open>Whatever was pushed last at the requested index, the cursor moves past it.\<close>

lemma on_time_advance:
  assumes clock: "running_clock env r w" and s: "on_time env r w d s" and early: "early env s"
    and e: "sk_cursor s' = sk_cursor s"
    and push: "pushed_indices s' = pushed_indices s \<or> pushed_indices s' = pushed_indices s @ [cu_requestedIndex (sk_cursor s)]"
  shows "on_time env r w d (advance s')"
proof -
  let ?c = "sk_cursor s" and ?t = "se_time env (sk_trace s)"
  have t: "uint ?t < 2 ^ 61" and w: "0 < w"
    using clock early by (auto simp: running_clock_def early_def)
  have c: "cu_rate ?c = r" "cu_windowSize ?c = w" "cu_readDelayGrains ?c = d" "0 \<le> d" "d \<le> uint (cu_currentIndex ?c)"
    "uint (cu_requestedIndex ?c) = uint (cu_currentIndex ?c) - d" "uint w dvd uint (cu_currentIndex ?c)"
    "cu_deliveryDeadline ?c = getDeliveryDeadline ?c"
    "uint (cu_currentIndex ?c) \<le> nearest_window w (index_at r (uint ?t))"
    using s by (auto simp: on_time_def Let_def)
  note fits = window_fits [OF clock c(1,2,9) t]
  have wl: "uint w < 2 ^ 32" "0 < uint w" using uint_bounded [of w] w by (simp_all add: word_less_def)
  have win: "uint (cu_window ?c) = uint w"
    using wl by (simp add: cu_window_def c unsigned_ucast_eq take_bit_int_eq_self)
  have less: "uint (cu_requestedIndex ?c + cu_window ?c) = uint (cu_requestedIndex ?c) + uint w"
    using fits(1) c(4,5,6) win uint_bounded [of "cu_currentIndex ?c + cu_window ?c"]
    by (intro uint_add_fits [of "cu_requestedIndex ?c" "cu_window ?c", unfolded win]) simp
  let ?u = "se_time env (SleepUntil (getDeliveryDeadline ?c) # sk_trace s')"
  have "getDeliveryDeadline ?c \<le> ?u" using clock by (simp add: running_clock_def)
  then have "index_at r (uint (getDeliveryDeadline ?c)) \<le> index_at r (uint ?u)"
    using clock by (intro index_at_mono) (auto simp: running_clock_def word_le_def)
  then have "uint (cu_currentIndex ?c) + uint w \<le> index_at r (uint ?u)" using fits(2) by simp
  moreover have "uint w dvd uint (cu_currentIndex ?c) + uint w" using c(7) by simp
  ultimately have later: "uint (cu_currentIndex ?c) + uint w \<le> nearest_window w (index_at r (uint ?u))"
    using order_trans [OF nearest_window_multiple [OF w] nearest_window_mono] by simp
  have "cu_requestedIndex ?c < cu_requestedIndex ?c + cu_window ?c"
    using less wl by (simp add: word_less_def)
  moreover have "pushed_indices (advance s') = pushed_indices s'"
    by (simp add: advance_def pushed_called) (simp add: pushed_indices_def)
  ultimately have "sorted_wrt (<) (pushed_indices (advance s')) \<and>
      (\<forall>i\<in>set (pushed_indices (advance s')). i < cu_requestedIndex ?c + cu_window ?c)"
    using s push by (auto simp: on_time_def Let_def sorted_wrt_append intro: less_trans)
  moreover have "d \<le> uint (cu_currentIndex ?c) + uint w" using c(5) wl by simp
  ultimately show ?thesis
    using later less fits(1) c win by (simp add: on_time_def Let_def advance_def e)
qed

text \<open>Steps that leave the cursor alone and push nothing.\<close>

definition uneventful :: "sink \<Rightarrow> sink \<Rightarrow> bool" where
  "uneventful s s' \<longleftrightarrow> sk_cursor s' = sk_cursor s \<and> (\<exists>tr. sk_trace s' = tr @ sk_trace s \<and> (\<forall>e\<in>set tr. pushed_index e = []))"

lemma quiet_refl [simp]: "uneventful s s"
  by (simp add: uneventful_def)

lemma quiet_called [simp]: "uneventful s s' \<Longrightarrow> pushed_index e = [] \<Longrightarrow> uneventful s (called e s')"
  by (auto simp: uneventful_def intro: exI [of _ "e # _"])

lemma quiet_cursor: "uneventful s s' \<Longrightarrow> sk_cursor s' = sk_cursor s"
  by (simp add: uneventful_def)

lemma quiet_update [simp]:
  "uneventful s (s'\<lparr>sk_reader := b\<rparr>) = uneventful s s'" "uneventful s (s'\<lparr>sk_config := cfg\<rparr>) = uneventful s s'"
  "uneventful s (s'\<lparr>sk_expectedSlices := n\<rparr>) = uneventful s s'" "uneventful s (updateHighestLatency a b' s') = uneventful s s'"
  by (simp_all add: uneventful_def updateHighestLatency_def Let_def)

lemma quiet_pushed: "uneventful s s' \<Longrightarrow> pushed_indices s' = pushed_indices s"
  by (auto simp: uneventful_def pushed_indices_def)

lemma clock_later: "running_clock env r w \<Longrightarrow> se_time env tr \<le> se_time env (tr' @ tr)"
  by (induction tr') (auto simp: running_clock_def intro: order_trans)

lemma quiet_later: "running_clock env r w \<Longrightarrow> uneventful s s' \<Longrightarrow> se_time env (sk_trace s) \<le> se_time env (sk_trace s')"
  using clock_later by (force simp: uneventful_def)

lemma on_time_quiet:
  assumes "running_clock env r w" and "on_time env r w d s" and "uneventful s s'"
  shows "on_time env r w d s'"
  using assms(2) later_window [OF assms(1) _ quiet_later [OF assms(1,3)]]
  by (simp add: on_time_def Let_def quiet_pushed [OF assms(3)] quiet_cursor [OF assms(3)])

lemma on_time_reaimed:
  assumes "running_clock env r w" and "on_time env r w d s" and "uneventful s s'"
    and "c = realign (se_time env (sk_trace s)) (sk_cursor s)" and "early env s"
  shows "on_time env r w d (s'\<lparr>sk_cursor := c\<rparr>)"
  unfolding assms(4) quiet_cursor [OF assms(3), symmetric]
proof (rule on_time_realign [OF assms(1) on_time_quiet [OF assms(1-3)]])
  show "uint (cu_currentIndex (sk_cursor s')) \<le> nearest_window w (index_at r (uint (se_time env (sk_trace s))))"
    using assms(2,3) by (auto simp: on_time_def Let_def uneventful_def)
qed (use quiet_later [OF assms(1,3)] assms(5) in \<open>simp_all add: early_def\<close>)

lemma handleInvalidFlow_quiet: "uneventful s s' \<Longrightarrow> uneventful s (snd (handleInvalidFlow env s'))"
  by (auto simp: handleInvalidFlow_def Let_def split: prod.splits)

lemma on_error_on_time:
  assumes clock: "running_clock env r w" and s: "on_time env r w d s" and early: "early env s" and q: "uneventful s s'"
  shows "on_time env r w d (sink_of (on_error env (se_time env (sk_trace s)) ret s'))"
proof -
  note keep = on_time_quiet [OF clock s] and aim = on_time_reaimed [OF clock s _ _ early]
  have "on_time env r w d (sink_of (recover env (se_time env (sk_trace s)) s'))"
    using q by (auto simp: recover_def Let_def quiet_cursor keep aim split: prod.splits)
  moreover have "on_time env r w d (called GetRuntimeInfo (s'\<lparr>sk_cursor := realign (se_time env (sk_trace s)) (sk_cursor s')\<rparr>))"
    using aim [OF q] q by (intro on_time_called [OF clock]) (auto simp: quiet_cursor)
  ultimately show ?thesis
    using handleInvalidFlow_quiet [OF q, of env] q
    by (auto simp: on_error_def Let_def quiet_cursor keep aim split: prod.splits)
qed

lemma video_round_on_time:
  assumes clock: "running_clock env r w" and s: "on_time env r w d s" and early: "early env s"
  shows "on_time env r w d (sink_of (video_round env rate n sliceMode s))"
proof -
  have arrived: "on_time env r w d (grain_arrived env rate n m info payload s')" if q: "uneventful s s'" for m info payload s'
  proof -
    have "sk_cursor (push_grain env rate info payload s') = sk_cursor s'"
      "pushed_indices (push_grain env rate info payload s') = pushed_indices s' @ [cu_requestedIndex (sk_cursor s')]"
      by (simp_all add: push_grain_def Let_def pushed_called updateHighestLatency_def) (simp_all add: pushed_indices_def called_def)
    with on_time_advance [OF clock s early] on_time_quiet [OF clock s q] quiet_cursor [OF q] quiet_pushed [OF q]
    show ?thesis
      by (auto simp: grain_arrived_def on_time_def Let_def pushed_indices_def)
  qed
  show ?thesis
    by (auto simp: video_round_def Let_def arrived on_error_on_time [OF clock s early] split: prod.splits)
qed

lemma audio_round_on_time:
  assumes clock: "running_clock env r w" and s: "on_time env r w d s" and early: "early env s"
  shows "on_time env r w d (sink_of (audio_round env rate n s))"
proof -
  have samples: "on_time env r w d (push_samples env rate n payload s')" if q: "uneventful s s'" for payload s'
  proof -
    have q': "uneventful s' (called MapAudioBuffer (called AddAudioMeta (updateHighestLatency a b (called GetTime s'))))" for a b
      by simp
    have "on_time env r w d (advance (called (PushAudio (cu_requestedIndex (sk_cursor s')) ts planes)
        (called MapAudioBuffer (called AddAudioMeta (updateHighestLatency a b (called GetTime s'))))))" for a b ts planes
      using quiet_cursor [OF q'] quiet_pushed [OF q'] quiet_cursor [OF q] quiet_pushed [OF q]
      by (intro on_time_advance [OF clock s early]) (simp_all add: pushed_called)
    then show ?thesis
      by (auto simp: push_samples_def Let_def q intro!: on_time_quiet [OF clock s])
  qed
  show ?thesis
    by (auto simp: audio_round_def Let_def samples on_error_on_time [OF clock s early] split: prod.splits)
qed

text \<open>Rounds only add to the trace, so an early end means that every round was early.\<close>

definition extends :: "sink \<Rightarrow> sink \<Rightarrow> bool" where
  "extends s s' \<longleftrightarrow> (\<exists>tr. sk_trace s' = tr @ sk_trace s)"

lemma extends_simps [simp]:
  "extends s s" "extends s s' \<Longrightarrow> extends s (called e s')"
  "extends s (s'\<lparr>sk_reader := b\<rparr>) = extends s s'" "extends s (s'\<lparr>sk_config := cfg\<rparr>) = extends s s'"
  "extends s (s'\<lparr>sk_expectedSlices := n\<rparr>) = extends s s'" "extends s (s'\<lparr>sk_cursor := c\<rparr>) = extends s s'"
  "extends s (updateHighestLatency a b' s') = extends s s'" "extends s s' \<Longrightarrow> extends s (advance s')"
  by (auto simp: extends_def updateHighestLatency_def advance_def Let_def)

lemma extends_trans: "extends s s' \<Longrightarrow> extends s' s'' \<Longrightarrow> extends s s''"
  by (auto simp: extends_def)

lemma extends_early:
  assumes "running_clock env r w" and "extends s s'" and "early env s'"
  shows "early env s"
proof -
  have "se_time env (sk_trace s) \<le> se_time env (sk_trace s')"
    using assms(2) clock_later [OF assms(1)] by (auto simp: extends_def)
  then show ?thesis using assms(3) by (simp add: early_def word_le_def)
qed

lemma on_error_extends: "extends s s' \<Longrightarrow> extends s (sink_of (on_error env t ret s'))"
  by (auto simp: on_error_def recover_def handleInvalidFlow_def Let_def split: prod.splits)

lemma rounds_extend:
  "extends s (sink_of (video_round env rate n sliceMode s))" "extends s (sink_of (audio_round env rate n s))"
  by (auto simp: video_round_def audio_round_def grain_arrived_def push_grain_def push_samples_def Let_def on_error_extends
      split: prod.splits)

lemma sink_loop_extends: "(\<And>s. extends s (sink_of (rnd s))) \<Longrightarrow> extends s (sink_of (sink_loop n env rnd s))"
proof (induction n arbitrary: s)
  case 0
  then show ?case by simp
next
  case (Suc n)
  then show ?case
    using Suc.prems [of s] by (cases "rnd s") (auto intro: extends_trans [OF _ Suc.IH])
qed

lemma sink_loop_on_time:
  assumes clock: "running_clock env r w"
    and rnd: "\<And>s. on_time env r w d s \<Longrightarrow> early env s \<Longrightarrow> on_time env r w d (sink_of (rnd s))" "\<And>s. extends s (sink_of (rnd s))"
    and "on_time env r w d s" and "early env (sink_of (sink_loop n env rnd s))"
  shows "on_time env r w d (sink_of (sink_loop n env rnd s))"
  using assms(4,5)
proof (induction n arbitrary: s)
  case 0
  then show ?case by simp
next
  case (Suc n)
  have "early env s"
    using extends_early [OF clock sink_loop_extends [OF rnd(2)] Suc.prems(2)] .
  from rnd(1) [OF Suc.prems(1) this] Suc show ?case by (cases "rnd s") auto
qed

lemma start_on_time:
  assumes clock: "running_clock env r w" and early: "early env s" and none: "pushed_indices s = []"
    and delay: "0 \<le> read_delay r w readDelay"
      "read_delay r w readDelay \<le> uint (cu_currentIndex (new_cursor r w readDelay (se_time env (sk_trace s))))"
  shows "on_time env r w (read_delay r w readDelay) (start_reading env r w readDelay s)"
proof -
  let ?t = "se_time env (sk_trace s)"
  let ?z = "\<lparr>cu_rate = r, cu_windowSize = w, cu_readDelayGrains = read_delay r w readDelay,
    cu_currentIndex = 0, cu_requestedIndex = 0, cu_deliveryDeadline = 0\<rparr>"
  have t: "uint ?t < 2 ^ 61" using early by (simp add: early_def)
  have a: "uint (aligned_index ?z ?t) = nearest_window w (index_at r (uint ?t))"
    by (rule aligned_index_nearest [OF clock _ _ t]) simp_all
  have le: "read_delay r w readDelay \<le> uint (aligned_index ?z ?t)"
    using delay(2) by (simp add: new_cursor_def)
  have "?t \<le> se_time env (GetTime # sk_trace s)" using clock by (simp add: running_clock_def)
  from later_window [OF clock _ this] have "uint (aligned_index ?z ?t) \<le> nearest_window w (index_at r (uint (se_time env (GetTime # sk_trace s))))"
    by (simp add: a)
  moreover have "uint w dvd uint (aligned_index ?z ?t)" by (simp add: a nearest_window_def)
  moreover have "pushed_indices (start_reading env r w readDelay s) = []"
    using none by (simp add: start_reading_def Let_def pushed_called) (simp add: pushed_indices_def)
  ultimately show ?thesis
    using delay(1) le uint_minus_delay [OF delay(1) le]
    by (simp add: on_time_def Let_def start_reading_def new_cursor_def)
qed

definition reading_window :: "mxlCommonFlowConfigInfo \<Rightarrow> u32" where
  "reading_window cfg = (if cfg_format cfg = format_code MXL_DATA_FORMAT_VIDEO then 1 else max (maxSyncBatchSizeHint cfg) 48)"

lemma on_time_expected: "on_time env r w d (s\<lparr>sk_expectedSlices := n\<rparr>) = on_time env r w d s"
  by (simp add: on_time_def pushed_indices_def)

lemma run_video_window: "run_video n env frameHeight readDelay s = Ret out \<Longrightarrow> reading_window (common (sk_config s)) = 1"
  by (auto simp: run_video_def Let_def reading_window_def split: if_splits)

lemma run_audio_window:
  "run_audio n env readDelay s = Ret out \<Longrightarrow> reading_window (common (sk_config s)) = max (maxSyncBatchSizeHint (common (sk_config s))) 48"
  by (auto simp: run_audio_def Let_def reading_window_def split: if_splits)

text \<open>As long as the clock does not run backwards and sleeping reaches the time slept for, the player
  pushes grains, or ranges of samples, in strictly increasing order of their indices, whatever the reads
  and the recovery from an invalid flow answer, over any number of rounds.\<close>

theorem data_are_pushed_in_order:
  assumes run: "run_video n env frameHeight readDelay s = Ret out \<or> run_audio n env readDelay s = Ret out"
    and r: "r = grainRate (common (sk_config s))" and w: "w = reading_window (common (sk_config s))"
    and clock: "running_clock env r w" and early: "early env (sink_of out)"
    and none: "pushed_indices s = []" and delay: "0 \<le> read_delay r w readDelay"
      "read_delay r w readDelay \<le> uint (cu_currentIndex (new_cursor r w readDelay (se_time env (sk_trace s))))"
  shows "sorted_wrt (<) (pushed_indices (sink_of out))"
proof -
  let ?s = "start_reading env r w readDelay s"
  have ext: "extends s ?s" by (simp add: start_reading_def Let_def extends_def)
  have start: "on_time env r w (read_delay r w readDelay) ?s" if "early env s"
    using start_on_time [OF clock that none delay] .
  have "on_time env r w (read_delay r w readDelay) (sink_of out)"
    using run
  proof
    assume v: "run_video n env frameHeight readDelay s = Ret out"
    then obtain m b where o: "out = sink_loop n env (video_round env r m b) (?s\<lparr>sk_expectedSlices := m\<rparr>)"
      using w r run_video_window [OF v] by (auto simp: run_video_def Let_def split: if_splits)
    have "extends s (sink_of out)"
      unfolding o by (rule extends_trans [OF _ sink_loop_extends [OF rounds_extend(1)]]) (simp add: ext)
    then have "early env s" using extends_early clock early by blast
    then show ?thesis
      unfolding o using early o by (intro sink_loop_on_time [OF clock])
        (auto intro: video_round_on_time [OF clock] rounds_extend simp: on_time_expected start)
  next
    assume a: "run_audio n env readDelay s = Ret out"
    then have o: "out = sink_loop n env (audio_round env r w) ?s"
      using w r run_audio_window [OF a] by (auto simp: run_audio_def Let_def split: if_splits)
    have "extends s (sink_of out)"
      unfolding o by (rule extends_trans [OF ext sink_loop_extends [OF rounds_extend(2)]])
    then have "early env s" using extends_early clock early by blast
    then show ?thesis
      unfolding o using early o by (intro sink_loop_on_time [OF clock])
        (auto intro: audio_round_on_time [OF clock] rounds_extend simp: start)
  qed
  then show ?thesis by (simp add: on_time_def Let_def)
qed

text \<open>A clock that only moves when somebody sleeps, and grains that are always complete.\<close>

fun ex_time :: "sink_trace \<Rightarrow> u64" where
  "ex_time [] = 1000000000"
| "ex_time (SleepUntil d # tr) = max d (ex_time tr)"
| "ex_time (_ # tr) = ex_time tr"

definition ex_config :: mxlFlowConfigInfo where
  "ex_config = \<lparr>common = \<lparr>cfg_id = [], cfg_format = 1, cfg_flags = 0, grainRate = \<lparr>numerator = 25, denominator = 1\<rparr>,
     maxCommitBatchSizeHint = 2, maxSyncBatchSizeHint = 2, payloadLocation = 0, deviceIndex = 0\<rparr>,
     specific = DiscreteMember \<lparr>sliceSizes = [128, 0, 0, 0], grainCount = 4\<rparr>\<rparr>"

definition ex_sink_env :: sink_env where
  "ex_sink_env = \<lparr>se_exit = (\<lambda>_. False), se_time = ex_time,
     se_grain = (\<lambda>_. (MXL_STATUS_OK, zero_grain_info\<lparr>totalSlices := 2, validSlices := 2\<rparr>, [])),
     se_samples = (\<lambda>_. (MXL_ERR_UNKNOWN, \<lparr>fragment0 = \<lparr>slice_pointer = 0, slice_size = 0\<rparr>,
       fragment1 = \<lparr>slice_pointer = 0, slice_size = 0\<rparr>, slice_stride = 0, slice_count = 0\<rparr>)),
     se_memory = (\<lambda>_ _. 0), se_instance = True, se_open = (\<lambda>_. MXL_STATUS_OK), se_config = (\<lambda>_. (MXL_STATUS_OK, ex_config)),
     se_gst = (\<lambda>_. True)\<rparr>"

definition ex_sink :: sink where
  "ex_sink = fst (MxlReader_create ex_sink_env ex_config)"

definition ex_sink_end :: sink where
  "ex_sink_end = (case run_video 2 ex_sink_env 2 40000000 ex_sink of Ret out \<Rightarrow> sink_of out | _ \<Rightarrow> ex_sink)"

lemma ex_steady: "running_clock ex_sink_env \<lparr>numerator = 25, denominator = 1\<rparr> 1"
proof -
  have "ex_time tr \<le> ex_time (e # tr)" for tr e by (cases e) simp_all
  then show ?thesis by (simp add: running_clock_def ex_sink_env_def positive_rate_def i64_ok_def)
qed

theorem data_are_pushed_in_order_witness:
  "pushed_indices ex_sink_end = [24, 25] \<and> sorted_wrt (<) (pushed_indices ex_sink_end)"
proof
  show "pushed_indices ex_sink_end = [24, 25]" by code_simp
  have cfg: "common (sk_config ex_sink) = common ex_config" by code_simp
  obtain out where out: "run_video 2 ex_sink_env 2 40000000 ex_sink = Ret out"
    by (simp add: run_video_def cfg ex_config_def Let_def)
  then have e: "ex_sink_end = sink_of out" by (simp add: ex_sink_end_def)
  have "sorted_wrt (<) (pushed_indices (sink_of out))"
  proof (rule data_are_pushed_in_order [OF disjI1 [OF out] refl refl])
    show "running_clock ex_sink_env (grainRate (common (sk_config ex_sink))) (reading_window (common (sk_config ex_sink)))"
      using ex_steady by (simp add: cfg ex_config_def reading_window_def)
    show "early ex_sink_env (sink_of out)" unfolding e [symmetric] by code_simp
    show "pushed_indices ex_sink = []" by code_simp
  qed code_simp+
  then show "sorted_wrt (<) (pushed_indices ex_sink_end)" by (simp add: e)
qed

end
