(* ===== verification/MediaSource.thy ===== *)
theory MediaSource
  imports FlowTypes Timing
begin

text \<open>
  The test source (\<open>tools/mxl-gst/testsrc.cpp\<close>): how a pipeline's samples get continuous time stamps, and
  the loops that commit them to a video or an audio flow. What the pipeline, the clock and the C interface
  answer is a function of the calls made before, the latest first. A frame is committed in batches of
  slices that cover it.
\<close>

section \<open>Calls and answers\<close>

datatype source_call =
    PullSample u64
  | MapBuffer
  | UnmapBuffer
  | OpenGrain u64
  | CopySlices u64 u32
  | CommitGrain u64 u32 u16
  | OpenSamples u64 u64
  | ClearSamples "(u64 \<times> u64) list"
  | CopySamples "(u64 \<times> u64 \<times> u64) list"
  | CommitSamples
  | GetNsUntilIndex u64
  | SleepForNs u64
  | ReleaseWriter
  | CloseInstance

type_synonym source_trace = "source_call list"

text \<open>A pulled sample has the time stamp the pipeline gave it and a size.\<close>

record source_env =
  sr_exit :: "source_trace \<Rightarrow> bool"
  sr_sample :: "source_trace \<Rightarrow> (u64 \<times> u64) option"
  sr_map :: "source_trace \<Rightarrow> bool"
  sr_open :: "source_trace \<Rightarrow> mxlStatus \<times> mxlGrainInfo"
  sr_commit :: "source_trace \<Rightarrow> mxlStatus"
  sr_open_samples :: "source_trace \<Rightarrow> mxlStatus \<times> mxlWrappedMultiBufferSlice"
  sr_ns_until :: "source_trace \<Rightarrow> u64"

section \<open>Time stamps of a pipeline\<close>

record pipeline =
  gp_mxlBaseTime :: u64
  gp_frameDurationNs :: u64
  gp_ptsWrapOffset :: u64
  gp_lastEmittedPts :: u64

definition pipeline_start :: "mxlRational \<Rightarrow> u64 \<Rightarrow> pipeline \<Rightarrow> pipeline" where
  "pipeline_start rate currentIndex g =
     g\<lparr>gp_mxlBaseTime := mxlIndexToTimestamp (Some rate) (currentIndex + 1),
       gp_frameDurationNs := mxlIndexToTimestamp (Some rate) 1 - mxlIndexToTimestamp (Some rate) 0\<rparr>"

text \<open>When a file starts over, its time stamps go on behind the last one.\<close>

definition continue_pts :: "u64 \<Rightarrow> pipeline \<Rightarrow> u64 \<times> pipeline" where
  "continue_pts bufferTs g =
     (let off = (if bufferTs + gp_ptsWrapOffset g \<le> gp_lastEmittedPts g \<and> gp_lastEmittedPts g \<noteq> 0
                 then gp_lastEmittedPts g - bufferTs + gp_frameDurationNs g else gp_ptsWrapOffset g);
          adjustedTs = bufferTs + off
      in (gp_mxlBaseTime g + adjustedTs, g\<lparr>gp_ptsWrapOffset := off, gp_lastEmittedPts := adjustedTs\<rparr>))"

section \<open>The writer\<close>

record source =
  so_index :: u64
  so_pipeline :: pipeline
  so_trace :: source_trace

definition did :: "source_call \<Rightarrow> source \<Rightarrow> source" where
  "did e s = s\<lparr>so_trace := e # so_trace s\<rparr>"

text \<open>The time stamp and the size of the next sample, if the pipeline has one in time.\<close>

definition pull_sample :: "source_env \<Rightarrow> u64 \<Rightarrow> source \<Rightarrow> (u64 \<times> u64) option \<times> source" where
  "pull_sample env timeout s =
     (let s' = did (PullSample timeout) s in
      case sr_sample env (so_trace s) of
        None \<Rightarrow> (None, s')
      | Some (bufferTs, n) \<Rightarrow>
          (let (ts, g) = continue_pts bufferTs (so_pipeline s') in (Some (ts, n), s'\<lparr>so_pipeline := g\<rparr>)))"

text \<open>How long to wait for a sample: until the next index, or a tenth of a second for the first one.\<close>

definition pull_timeout :: "source_env \<Rightarrow> u64 \<Rightarrow> source \<Rightarrow> u64 \<times> source" where
  "pull_timeout env step s =
     (if so_index s \<noteq> MXL_UNDEFINED_INDEX
      then (sr_ns_until env (so_trace s), did (GetNsUntilIndex (so_index s + step)) s)
      else (100000000, s))"

definition first_index :: "u64 \<Rightarrow> source \<Rightarrow> source" where
  "first_index gstIndex s = (if so_index s = MXL_UNDEFINED_INDEX then s\<lparr>so_index := gstIndex\<rparr> else s)"

definition step_index :: "source_env \<Rightarrow> u64 \<Rightarrow> source \<Rightarrow> source" where
  "step_index env step s =
     (let s1 = s\<lparr>so_index := so_index s + step\<rparr>;
          ns = sr_ns_until env (so_trace s1)
      in did (SleepForNs ns) (did (GetNsUntilIndex (so_index s1)) s1))"

section \<open>Video\<close>

record video_source =
  vs_frameHeight :: u64
  vs_frameRate :: mxlRational
  vs_sliceSize :: u32
  vs_slicesPerBatch :: u32
  vs_offset :: int

definition actual_index :: "int \<Rightarrow> source \<Rightarrow> u64" where
  "actual_index offset s = so_index s - word_of_int offset"

text \<open>Indices that were skipped are committed as invalid grains, until one fails.\<close>

function skip_grains :: "source_env \<Rightarrow> int \<Rightarrow> u64 \<Rightarrow> source \<Rightarrow> source" where
  "skip_grains env offset gstIndex s =
     (if so_index s < gstIndex then
        let idx = actual_index offset s;
            (opened, info) = sr_open env (so_trace s);
            s1 = did (OpenGrain idx) s;
            answer = sr_commit env (so_trace s1);
            s2 = did (CommitGrain idx MXL_GRAIN_FLAG_INVALID (validSlices info)) s1
        in if opened \<noteq> MXL_STATUS_OK then s1
           else if answer \<noteq> MXL_STATUS_OK then s2
           else skip_grains env offset gstIndex (s2\<lparr>so_index := so_index s2 + 1\<rparr>)
      else s)"
  by pat_completeness auto
termination
proof (relation "measure (\<lambda>(env, offset, gstIndex, s). unat gstIndex - unat (so_index s))")
  show "wf (measure (\<lambda>(env, offset, gstIndex, s). unat gstIndex - unat (so_index s)))" by simp
next
  fix env offset gstIndex s x xa y s1 answer s2
  assume "so_index s < gstIndex" and "s1 = did (OpenGrain x) s"
    and "s2 = did (CommitGrain x MXL_GRAIN_FLAG_INVALID (validSlices y)) s1"
  then have "so_index s2 = so_index s" "unat (so_index s + 1) = unat (so_index s) + 1" "unat (so_index s) < unat gstIndex"
    by (auto simp: did_def word_less_nat_alt intro!: unat_add_lt [of _ 1, simplified] order_le_less_trans [OF _ unsigned_less [of gstIndex]])
  then show "((env, offset, gstIndex, s2\<lparr>so_index := so_index s2 + 1\<rparr>), env, offset, gstIndex, s)
      \<in> measure (\<lambda>(env, offset, gstIndex, s). unat gstIndex - unat (so_index s))" by simp
qed

declare skip_grains.simps [simp del]

definition number_of_batches :: "video_source \<Rightarrow> u64" where
  "number_of_batches cfg =
     (vs_frameHeight cfg + ucast (vs_slicesPerBatch cfg - 1)) div ucast (vs_slicesPerBatch cfg)"

text \<open>The batches are spread over half a frame, unless the sleeps would be shorter than 50 microseconds.\<close>

definition sleep_between :: "video_source \<Rightarrow> u64" where
  "sleep_between cfg =
     (let nb = number_of_batches cfg;
          t = 1000000000 * word_of_int (denominator (vs_frameRate cfg)) div word_of_int (numerator (vs_frameRate cfg)) div (nb * 2)
      in if nb > 1 then (if t < 50000 then 0 else t) else 0)"

definition batch_slices :: "video_source \<Rightarrow> mxlGrainInfo \<Rightarrow> u16" where
  "batch_slices cfg info = min (ucast (vs_slicesPerBatch cfg)) (totalSlices info - validSlices info)"

text \<open>Batches \<open>i\<close> to \<open>i + n - 1\<close> of the grain that is open.\<close>

fun commit_batches :: "source_env \<Rightarrow> video_source \<Rightarrow> u64 \<Rightarrow> u64 \<Rightarrow> nat \<Rightarrow> mxlGrainInfo \<Rightarrow> source \<Rightarrow> source" where
  "commit_batches env cfg idx i 0 info s = s"
| "commit_batches env cfg idx i (Suc n) info s =
     (let nbSlices = batch_slices cfg info;
          batchOffset = ucast (vs_sliceSize cfg * vs_slicesPerBatch cfg) * i;
          info' = info\<lparr>validSlices := validSlices info + nbSlices\<rparr>;
          s1 = did (CopySlices batchOffset (ucast nbSlices * vs_sliceSize cfg)) s;
          answer = sr_commit env (so_trace s1);
          s2 = did (CommitGrain idx (gi_flags info') (validSlices info')) s1
      in if answer \<noteq> MXL_STATUS_OK then s2
         else commit_batches env cfg idx (i + 1) n info' (did (SleepForNs (sleep_between cfg)) s2))"

text \<open>The sample at the expected index; the loop ends (\<open>Inl\<close>) when the grain cannot be opened.\<close>

definition commit_frame :: "source_env \<Rightarrow> video_source \<Rightarrow> source \<Rightarrow> (source + source) outcome" where
  "commit_frame env cfg s =
     (let idx = actual_index (vs_offset cfg) s;
          mapped = sr_map env (so_trace s);
          s1 = did MapBuffer s;
          (opened, info) = sr_open env (so_trace s1);
          s2 = did (OpenGrain idx) s1
      in if vs_slicesPerBatch cfg = 0 then Crash DivisionByZero
         else if \<not> mapped then Ret (Inr s1)
         else if opened \<noteq> MXL_STATUS_OK then Ret (Inl (did UnmapBuffer s2))
         else if number_of_batches cfg > 1 \<and> numerator (vs_frameRate cfg) = 0 then Crash DivisionByZero
         else Ret (Inr (did UnmapBuffer
           (commit_batches env cfg idx 0 (unat (number_of_batches cfg)) (info\<lparr>validSlices := 0\<rparr>) s2))))"

text \<open>A sample of the past is dropped, and so is one whose index had to be reached by skipping.\<close>

definition video_sample :: "source_env \<Rightarrow> video_source \<Rightarrow> u64 \<Rightarrow> source \<Rightarrow> (source + source) outcome" where
  "video_sample env cfg gstIndex s0 =
     (let s = first_index gstIndex s0 in
      if gstIndex < so_index s then Ret (Inr s)
      else if gstIndex > so_index s then Ret (Inr (skip_grains env (vs_offset cfg) gstIndex s))
      else commit_frame env cfg s)"

definition after_sample :: "source_env \<Rightarrow> u64 \<Rightarrow> (source + source) outcome \<Rightarrow> (source + source) outcome" where
  "after_sample env step m =
     obind m (\<lambda>r. Ret (case r of Inl s \<Rightarrow> Inl s | Inr s \<Rightarrow> Inr (step_index env step s)))"

definition video_source_round :: "source_env \<Rightarrow> video_source \<Rightarrow> source \<Rightarrow> (source + source) outcome" where
  "video_source_round env cfg s0 =
     (let (timeoutNs, s1) = pull_timeout env 1 s0;
          (sample, s2) = pull_sample env timeoutNs s1
      in case sample of
           None \<Rightarrow> Ret (Inr s2)
         | Some (bufferTs, _) \<Rightarrow>
             after_sample env 1 (video_sample env cfg (mxlTimestampToIndex (Some (vs_frameRate cfg)) bufferTs) s2))"

section \<open>Audio\<close>

record audio_source =
  as_sampleRate :: mxlRational
  as_samplesPerBatch :: u32
  as_channelCount :: u32
  as_offset :: int

text \<open>The fragments of a channel that are not empty, as positions and sizes.\<close>

definition channel_fragments :: "mxlWrappedMultiBufferSlice \<Rightarrow> nat \<Rightarrow> (u64 \<times> u64) list" where
  "channel_fragments sl chan =
     map (\<lambda>f. (slice_pointer f + of_nat chan * slice_stride sl, slice_size f))
       (filter (\<lambda>f. slice_size f \<noteq> 0) [fragment0 sl, fragment1 sl])"

definition all_fragments :: "mxlWrappedMultiBufferSlice \<Rightarrow> (u64 \<times> u64) list" where
  "all_fragments sl = concat (map (channel_fragments sl) [0..<unat (slice_count sl)])"

text \<open>The source is read from its start, fragment after fragment: destination, position in the source, size.\<close>

fun copy_list :: "u64 \<Rightarrow> (u64 \<times> u64) list \<Rightarrow> (u64 \<times> u64 \<times> u64) list" where
  "copy_list addrOffset [] = []"
| "copy_list addrOffset ((dst, n) # rest) = (dst, addrOffset, n) # copy_list (addrOffset + n) rest"

text \<open>
  Silence for the samples that were skipped, a batch at a time, until one fails. With an empty batch the
  loop of the code does not end; \<open>None\<close> is the answer when the bound on the batches is reached.
\<close>

fun skip_samples :: "nat \<Rightarrow> source_env \<Rightarrow> audio_source \<Rightarrow> u64 \<Rightarrow> source \<Rightarrow> source option" where
  "skip_samples fuel env cfg nbSamples s =
     (if nbSamples = 0 then Some s
      else case fuel of
        0 \<Rightarrow> None
      | Suc fuel' \<Rightarrow>
          (let n = min nbSamples (ucast (as_samplesPerBatch cfg));
               (opened, sl) = sr_open_samples env (so_trace s);
               s1 = did (OpenSamples (actual_index (as_offset cfg) s) n) s;
               s2 = did (ClearSamples (all_fragments sl)) s1;
               answer = sr_commit env (so_trace s2);
               s3 = did CommitSamples s2
           in if opened \<noteq> MXL_STATUS_OK then Some s1
              else if answer \<noteq> MXL_STATUS_OK then Some s3
              else skip_samples fuel' env cfg (nbSamples - n) (s3\<lparr>so_index := so_index s3 + n\<rparr>)))"

declare skip_samples.simps [simp del]

definition write_samples :: "source_env \<Rightarrow> audio_source \<Rightarrow> u64 \<Rightarrow> source \<Rightarrow> (source + source) outcome" where
  "write_samples env cfg mapSize s =
     (let mapped = sr_map env (so_trace s);
          s1 = did MapBuffer s;
          n = mapSize div ucast (4 * as_channelCount cfg);
          (opened, sl) = sr_open_samples env (so_trace s1);
          s2 = did (OpenSamples (actual_index (as_offset cfg) s) n) s1;
          s3 = did (CopySamples (copy_list 0 (all_fragments sl))) s2;
          answer = sr_commit env (so_trace s3);
          s4 = did CommitSamples s3
      in if \<not> mapped then Ret (Inr (did UnmapBuffer s1))
         else if 4 * as_channelCount cfg = 0 then Crash DivisionByZero
         else if opened \<noteq> MXL_STATUS_OK then Ret (Inl (did UnmapBuffer s2))
         else if answer \<noteq> MXL_STATUS_OK then Ret (Inl (did UnmapBuffer s4))
         else Ret (Inr (did UnmapBuffer s4)))"

definition audio_sample :: "nat \<Rightarrow> source_env \<Rightarrow> audio_source \<Rightarrow> u64 \<Rightarrow> u64 \<Rightarrow> source \<Rightarrow> (source + source) outcome option" where
  "audio_sample fuel env cfg gstIndex mapSize s0 =
     (let s = first_index gstIndex s0 in
      if gstIndex < so_index s then Some (Ret (Inr s))
      else if gstIndex > so_index s then map_option (\<lambda>s'. Ret (Inr s')) (skip_samples fuel env cfg (gstIndex - so_index s) s)
      else Some (write_samples env cfg mapSize s))"

definition audio_source_round :: "nat \<Rightarrow> source_env \<Rightarrow> audio_source \<Rightarrow> source \<Rightarrow> (source + source) outcome option" where
  "audio_source_round fuel env cfg s0 =
     (let batch = ucast (as_samplesPerBatch cfg) :: u64;
          (timeoutNs, s1) = pull_timeout env batch s0;
          (sample, s2) = pull_sample env timeoutNs s1
      in case sample of
           None \<Rightarrow> Some (Ret (Inr s2))
         | Some (bufferTs, mapSize) \<Rightarrow>
             map_option (after_sample env batch)
               (audio_sample fuel env cfg (mxlTimestampToIndex (Some (as_sampleRate cfg)) bufferTs) mapSize s2))"

section \<open>The loops\<close>

text \<open>After at most \<open>n\<close> rounds: ended (\<open>Inl\<close>) or not yet (\<open>Inr\<close>).\<close>

fun source_loop :: "nat \<Rightarrow> source_env \<Rightarrow> (source \<Rightarrow> (source + source) outcome option) \<Rightarrow> source \<Rightarrow> (source + source) outcome option" where
  "source_loop 0 env rnd s = Some (Ret (Inr s))"
| "source_loop (Suc n) env rnd s =
     (if sr_exit env (so_trace s) then Some (Ret (Inl s))
      else case rnd s of
        Some (Ret (Inr s')) \<Rightarrow> source_loop n env rnd s'
      | r \<Rightarrow> r)"

definition begin_writing :: "mxlRational \<Rightarrow> u64 \<Rightarrow> source \<Rightarrow> source" where
  "begin_writing rate currentIndex s =
     s\<lparr>so_index := MXL_UNDEFINED_INDEX, so_pipeline := pipeline_start rate currentIndex (so_pipeline s)\<rparr>"

definition run_video_source ::
  "nat \<Rightarrow> source_env \<Rightarrow> mxlFlowConfigInfo \<Rightarrow> video_source \<Rightarrow> u64 \<Rightarrow> source \<Rightarrow> (source + source) outcome option" where
  "run_video_source n env info cfg currentIndex s =
     (if cfg_format (common info) \<noteq> format_code MXL_DATA_FORMAT_VIDEO then Some (Throw DomainError)
      else source_loop n env
        (\<lambda>s. Some (video_source_round env (cfg\<lparr>vs_slicesPerBatch := maxCommitBatchSizeHint (common info)\<rparr>) s))
        (begin_writing (vs_frameRate cfg) currentIndex s))"

definition run_audio_source ::
  "nat \<Rightarrow> nat \<Rightarrow> source_env \<Rightarrow> mxlFlowConfigInfo \<Rightarrow> audio_source \<Rightarrow> u64 \<Rightarrow> source \<Rightarrow> (source + source) outcome option" where
  "run_audio_source fuel n env info cfg currentIndex s =
     (if cfg_format (common info) \<noteq> format_code MXL_DATA_FORMAT_AUDIO then Some (Throw DomainError)
      else source_loop n env
        (audio_source_round fuel env (cfg\<lparr>as_channelCount := channelCount (continuous info)\<rparr>))
        (begin_writing (as_sampleRate cfg) currentIndex s))"

text \<open>Creating a writer: an instance, then a writer; what was made is released when a step fails.\<close>

definition MxlWriter_destroy :: "bool \<Rightarrow> bool \<Rightarrow> source_trace \<Rightarrow> source_trace" where
  "MxlWriter_destroy hasInstance hasWriter tr =
     (let tr' = (if hasWriter then ReleaseWriter # tr else tr) in if hasInstance then CloseInstance # tr' else tr')"

definition MxlWriter_create :: "bool \<Rightarrow> mxlStatus \<Rightarrow> source_trace \<times> unit outcome" where
  "MxlWriter_create hasInstance status =
     (if \<not> hasInstance then (MxlWriter_destroy False False [], Throw RuntimeError)
      else if status \<noteq> MXL_STATUS_OK then (MxlWriter_destroy True False [], Throw RuntimeError)
      else ([], Ret ()))"

section \<open>Time stamps go forward\<close>

lemma pts_go_forward:
  assumes "continue_pts ts g = (pts, g')" and "gp_lastEmittedPts g \<noteq> 0" and "0 < gp_frameDurationNs g"
    and "unat (gp_lastEmittedPts g) + unat (gp_frameDurationNs g) < 2 ^ 64"
  shows "gp_lastEmittedPts g < gp_lastEmittedPts g'"
proof (cases "ts + gp_ptsWrapOffset g \<le> gp_lastEmittedPts g")
  case True
  then have "gp_lastEmittedPts g' = gp_lastEmittedPts g + gp_frameDurationNs g"
    using assms(1,2) by (auto simp: continue_pts_def Let_def)
  moreover have "unat (gp_lastEmittedPts g + gp_frameDurationNs g) = unat (gp_lastEmittedPts g) + unat (gp_frameDurationNs g)"
    using assms(4) by (intro unat_add_lt) simp
  ultimately show ?thesis using assms(3) by (simp add: word_less_nat_alt)
next
  case False
  then show ?thesis using assms(1) by (auto simp: continue_pts_def Let_def not_le)
qed

text \<open>A pipeline that only goes forward keeps its own time stamps.\<close>

lemma live_pts_unchanged:
  assumes "gp_ptsWrapOffset g = 0" and "gp_lastEmittedPts g < ts"
  shows "continue_pts ts g = (gp_mxlBaseTime g + ts, g\<lparr>gp_lastEmittedPts := ts\<rparr>)"
  using assms by (auto simp: continue_pts_def Let_def)

section \<open>A frame is committed whole\<close>

text \<open>The bytes of the frame that were copied, and the commits with their valid slices, in order.\<close>

fun copied :: "source_call \<Rightarrow> nat list" where
  "copied (CopySlices off n) = [unat off..<unat off + unat n]"
| "copied _ = []"

fun committed_slices :: "source_call \<Rightarrow> (u64 \<times> nat) list" where
  "committed_slices (CommitGrain idx flags valid) = [(idx, unat valid)]"
| "committed_slices _ = []"

definition copied_bytes :: "source \<Rightarrow> nat list" where
  "copied_bytes s = concat (map copied (rev (so_trace s)))"

definition commits :: "source \<Rightarrow> (u64 \<times> nat) list" where
  "commits s = concat (map committed_slices (rev (so_trace s)))"

lemma did_simps [simp]:
  "copied_bytes (did e s) = copied_bytes s @ copied e" "commits (did e s) = commits s @ committed_slices e"
  "so_trace (did e s) = e # so_trace s" "so_index (did e s) = so_index s"
  by (simp_all add: copied_bytes_def commits_def did_def)

text \<open>A frame of a flow: as many lines as its grains have slices, and batches no longer than that.\<close>

definition fits_grain :: "video_source \<Rightarrow> mxlGrainInfo \<Rightarrow> bool" where
  "fits_grain cfg info \<longleftrightarrow> 0 < vs_slicesPerBatch cfg \<and> vs_frameHeight cfg = ucast (totalSlices info) \<and>
     ucast (vs_slicesPerBatch cfg) \<le> vs_frameHeight cfg \<and>
     unat (totalSlices info) * unat (vs_sliceSize cfg) < 2 ^ 32"

lemma fits_grainD:
  assumes "fits_grain cfg info"
  shows "0 < unat (vs_slicesPerBatch cfg)" and "unat (vs_slicesPerBatch cfg) \<le> unat (totalSlices info)"
    and "unat (vs_sliceSize cfg * vs_slicesPerBatch cfg) = unat (vs_sliceSize cfg) * unat (vs_slicesPerBatch cfg)"
    and "unat (number_of_batches cfg) = (unat (totalSlices info) + unat (vs_slicesPerBatch cfg) - 1) div unat (vs_slicesPerBatch cfg)"
proof -
  let ?T = "unat (totalSlices info)" and ?B = "unat (vs_slicesPerBatch cfg)" and ?S = "unat (vs_sliceSize cfg)"
  have T: "?T < 2 ^ 16" using unsigned_less [of "totalSlices info"] by simp
  show B: "0 < ?B" using assms by (simp add: fits_grain_def word_less_nat_alt)
  have B32: "?B < 2 ^ 32" using unsigned_less [of "vs_slicesPerBatch cfg"] by simp
  have u: "unat (ucast (vs_slicesPerBatch cfg) :: u64) = ?B" "unat (ucast (totalSlices info) :: u64) = ?T"
    using B32 T by (simp_all add: unsigned_ucast_eq take_bit_nat_eq_self)
  have H: "vs_frameHeight cfg = ucast (totalSlices info)" using assms by (simp add: fits_grain_def)
  show BT: "?B \<le> ?T" using assms u by (simp add: fits_grain_def H word_le_nat_alt)
  then have "?S * ?B \<le> ?T * ?S" by (simp add: mult.commute)
  also have "\<dots> < 2 ^ 32" using assms by (simp add: fits_grain_def)
  finally have "?S * ?B < 2 ^ 32" .
  then show "unat (vs_sliceSize cfg * vs_slicesPerBatch cfg) = ?S * ?B"
    by (simp add: unat_word_ariths)
  have "unat (vs_slicesPerBatch cfg - 1) = ?B - 1"
    using B by (simp add: unat_sub word_le_nat_alt)
  then have v: "unat (ucast (vs_slicesPerBatch cfg - 1) :: u64) = ?B - 1"
    using B32 by (simp add: unsigned_ucast_eq take_bit_nat_eq_self)
  have "unat (vs_frameHeight cfg + ucast (vs_slicesPerBatch cfg - 1)) = ?T + (?B - 1)"
    using assms u v T B32 by (subst unat_add_lt) (simp_all add: fits_grain_def)
  then show "unat (number_of_batches cfg) = (?T + ?B - 1) div ?B"
    using u B by (simp add: number_of_batches_def unat_div)
qed

lemma upt_append: "i \<le> j \<Longrightarrow> j \<le> k \<Longrightarrow> [i..<j] @ [j..<k] = [i..<k]" for i j k :: nat
  using upt_add_eq_append [of i j "k - j"] by simp

lemma before_last_batch: "i < (T + B - 1) div B \<Longrightarrow> i * B < T" for i T B :: nat
  by (cases "B = 0") (auto simp: less_eq_div_iff_mult_less_eq Suc_le_eq [symmetric] simp del: Suc_le_eq)

lemma clipped_end: "a < T \<Longrightarrow> a + min B (T - a) = min T (a + B)" for a B T :: nat
  by arith

lemma unat_min: "unat (min a b) = min (unat a) (unat b)" for a b :: "'a::len word"
  by (simp add: min_def word_le_nat_alt)

lemma unat_mult_fits: "unat a * unat b < 2 ^ LENGTH('a) \<Longrightarrow> unat (a * b) = unat a * unat b" for a b :: "'a::len word"
  by (simp add: unat_word_ariths)

lemma fits_grain_cong: "totalSlices info' = totalSlices info \<Longrightarrow> fits_grain cfg info' = fits_grain cfg info"
  by (simp add: fits_grain_def)

lemma clipped_ranges: "a \<le> T \<Longrightarrow> a \<le> b \<Longrightarrow> [a * S..<min T b * S] @ [b * S..<T * S] = [a * S..<T * S]" for a b S T :: nat
  by (cases "b \<le> T") (simp_all add: upt_append)

lemma batch_step:
  fixes cfg info and i :: u64
  defines "T \<equiv> unat (totalSlices info)" and "B \<equiv> unat (vs_slicesPerBatch cfg)" and "S \<equiv> unat (vs_sliceSize cfg)"
  assumes fits: "fits_grain cfg info" and i: "unat i < (T + B - 1) div B" and valid: "unat (validSlices info) = min T (unat i * B)"
  shows "unat (validSlices info + batch_slices cfg info) = min T ((unat i + 1) * B)"
    and "unat (ucast (vs_sliceSize cfg * vs_slicesPerBatch cfg) * i) = unat i * B * S"
    and "unat i * B * S + unat (ucast (batch_slices cfg info) * vs_sliceSize cfg) = min T ((unat i + 1) * B) * S"
    and "unat (i + 1) = unat i + 1"
proof -
  note f = fits_grainD [OF fits, folded T_def B_def S_def]
  have iB: "unat i * B < T" using before_last_batch [OF i] .
  then have v: "unat (validSlices info) = unat i * B" using valid by simp
  have T: "T < 2 ^ 16" unfolding T_def using unsigned_less [of "totalSlices info"] by simp
  have TS: "T * S < 2 ^ 32" using fits by (simp add: fits_grain_def T_def S_def)
  have b: "unat (ucast (vs_slicesPerBatch cfg) :: u16) = B"
    using f(2) T by (simp add: B_def unsigned_ucast_eq take_bit_nat_eq_self)
  have r: "unat (totalSlices info - validSlices info) = T - unat i * B"
    using iB v by (simp add: unat_sub word_le_nat_alt T_def)
  have n: "unat (batch_slices cfg info) = min B (T - unat i * B)"
    unfolding batch_slices_def unat_min b r ..
  have c: "unat i * B + min B (T - unat i * B) = min T ((unat i + 1) * B)"
    unfolding clipped_end [OF iB] by (simp add: add.commute)
  have sum: "unat (validSlices info) + unat (batch_slices cfg info) = min T ((unat i + 1) * B)"
    unfolding v n c ..
  also have "\<dots> < 2 ^ LENGTH(16)" using T by (simp add: min_less_iff_disj)
  finally show "unat (validSlices info + batch_slices cfg info) = min T ((unat i + 1) * B)"
    unfolding sum [symmetric] by (rule unat_add_lt)
  have "unat i * B * S \<le> T * S" using iB by (intro mult_right_mono) auto
  then have off: "unat i * B * S < 2 ^ 32" using TS by (rule le_less_trans)
  have sb: "unat (ucast (vs_sliceSize cfg * vs_slicesPerBatch cfg) :: u64) = S * B"
    using f(3) unsigned_less [of "vs_sliceSize cfg * vs_slicesPerBatch cfg"]
    by (simp add: unsigned_ucast_eq take_bit_nat_eq_self)
  have m: "unat (ucast (vs_sliceSize cfg * vs_slicesPerBatch cfg) :: u64) * unat i = unat i * B * S"
    unfolding sb by (simp only: ac_simps)
  have "unat i * B * S < 2 ^ LENGTH(64)" using off by simp
  then show "unat (ucast (vs_sliceSize cfg * vs_slicesPerBatch cfg) * i) = unat i * B * S"
    unfolding m [symmetric] by (rule unat_mult_fits)
  have "min B (T - unat i * B) \<le> T" by (simp add: min_le_iff_disj)
  then have "min B (T - unat i * B) * S \<le> T * S" by (rule mult_right_mono) simp
  then have len: "min B (T - unat i * B) * S < 2 ^ 32" using TS by (rule le_less_trans)
  have "unat (ucast (batch_slices cfg info) :: u32) = min B (T - unat i * B)"
    using n T iB by (simp add: unsigned_ucast_eq take_bit_nat_eq_self min_def)
  then have p: "unat (ucast (batch_slices cfg info) :: u32) * unat (vs_sliceSize cfg) = min B (T - unat i * B) * S"
    by (simp only: S_def)
  have "min B (T - unat i * B) * S < 2 ^ LENGTH(32)" using len by simp
  then have "unat (ucast (batch_slices cfg info) * vs_sliceSize cfg) = min B (T - unat i * B) * S"
    unfolding p [symmetric] by (rule unat_mult_fits)
  then show "unat i * B * S + unat (ucast (batch_slices cfg info) * vs_sliceSize cfg) = min T ((unat i + 1) * B) * S"
    unfolding c [symmetric] by (simp only: distrib_right)
  have "unat i * 1 \<le> unat i * B" using f(1) by (intro mult_left_mono) auto
  then have "unat i < T" using iB by linarith
  then have "unat i + unat (1 :: u64) < 2 ^ LENGTH(64)" using T by simp
  from unat_add_lt [OF this] show "unat (i + 1) = unat i + 1" by simp
qed

lemma commit_batches_copies:
  fixes cfg info
  defines "T \<equiv> unat (totalSlices info)" and "B \<equiv> unat (vs_slicesPerBatch cfg)" and "S \<equiv> unat (vs_sliceSize cfg)"
  assumes "fits_grain cfg info" and ok: "\<And>tr. sr_commit env tr = MXL_STATUS_OK"
    and "n + unat i = (T + B - 1) div B" and "unat (validSlices info) = min T (unat i * B)"
  shows "copied_bytes (commit_batches env cfg idx i n info s) = copied_bytes s @ [unat i * B * S..<T * S] \<and>
    commits (commit_batches env cfg idx i n info s) =
      commits s @ map (\<lambda>j. (idx, min T ((j + 1) * B))) [unat i..<(T + B - 1) div B]"
  using assms(4,6,7) unfolding T_def
proof (induction n arbitrary: i info s)
  case 0
  then have B: "0 < B" using fits_grainD(1) by (simp add: B_def)
  have "unat (totalSlices info) + B - 1 < ((unat (totalSlices info) + B - 1) div B + 1) * B"
    using B by (metis Suc_eq_plus1 dividend_less_div_times mult.commute mult_Suc add.commute)
  then have "unat (totalSlices info) \<le> unat i * B" using 0 B by (simp add: algebra_simps)
  then have "unat (totalSlices info) * S \<le> unat i * B * S" by (rule mult_right_mono) simp
  with 0 show ?case by simp
next
  case (Suc n)
  define T where "T = unat (totalSlices info)"
  define info' where "info' = info\<lparr>validSlices := validSlices info + batch_slices cfg info\<rparr>"
  have i: "unat i < (T + B - 1) div B" using Suc.prems by (simp add: T_def)
  note step = batch_step [OF Suc.prems(1), folded T_def B_def S_def, OF i Suc.prems(3) [folded T_def B_def]]
  have fits: "fits_grain cfg info'" using Suc.prems(1) fits_grain_cong [of info' info] by (simp add: info'_def)
  have T': "unat (totalSlices info') = T" by (simp add: info'_def T_def)
  define s' where "s' = did (SleepForNs (sleep_between cfg)) (did (CommitGrain idx (gi_flags info') (validSlices info'))
    (did (CopySlices (ucast (vs_sliceSize cfg * vs_slicesPerBatch cfg) * i) (ucast (batch_slices cfg info) * vs_sliceSize cfg)) s))"
  have "unat i * B \<le> T" using before_last_batch [OF i] by simp
  have "commit_batches env cfg idx i (Suc n) info s = commit_batches env cfg idx (i + 1) n info' s'"
    using ok by (simp add: Let_def info'_def s'_def)
  moreover have "copied_bytes s' = copied_bytes s @ [unat i * B * S..<min T ((unat i + 1) * B) * S]"
    unfolding s'_def by (simp only: did_simps copied.simps step(2,3) append_Nil2)
  moreover have "commits s' = commits s @ [(idx, min T ((unat i + 1) * B))]"
    unfolding s'_def using step(1) by (simp add: info'_def)
  moreover have "n + unat (i + 1) = (unat (totalSlices info') + B - 1) div B"
    using Suc.prems(2) step(4) by (simp add: T' T_def)
  moreover have "unat (validSlices info') = min (unat (totalSlices info')) (unat (i + 1) * B)"
    using step(1,4) by (simp add: info'_def T_def)
  moreover have "[unat i * B * S..<min T ((unat i + 1) * B) * S] @ [(unat i + 1) * B * S..<T * S] = [unat i * B * S..<T * S]"
    using \<open>unat i * B \<le> T\<close> by (intro clipped_ranges) auto
  moreover have "[unat i..<(T + B - 1) div B] = unat i # [unat i + 1..<(T + B - 1) div B]"
    using i by (simp add: upt_conv_Cons)
  ultimately show ?case
    using Suc.IH [OF fits, of "i + 1" s'] unfolding T' step(4) T_def [symmetric] by simp
qed

text \<open>A frame at the expected index is committed in batches that copy every byte of it exactly once and
  in order; the valid slices of the commits grow by a batch each time and reach all slices with the last.\<close>

theorem frame_is_committed_whole:
  assumes "fits_grain cfg info" and "numerator (vs_frameRate cfg) \<noteq> 0" and "sr_map env (so_trace s)"
    and "sr_open env (MapBuffer # so_trace s) = (MXL_STATUS_OK, info)" and "\<forall>tr. sr_commit env tr = MXL_STATUS_OK"
    and "T = unat (totalSlices info)" and "B = unat (vs_slicesPerBatch cfg)"
  shows "\<exists>s'. commit_frame env cfg s = Ret (Inr s') \<and>
    copied_bytes s' = copied_bytes s @ [0..<T * unat (vs_sliceSize cfg)] \<and>
    commits s' = commits s @ map (\<lambda>j. (actual_index (vs_offset cfg) s, min T ((j + 1) * B))) [0..<(T + B - 1) div B]"
proof -
  define info' where "info' = info\<lparr>validSlices := 0\<rparr>"
  have fits: "fits_grain cfg info'" using assms(1) fits_grain_cong [of info' info] by (simp add: info'_def)
  have nz: "vs_slicesPerBatch cfg \<noteq> 0" using assms(1) by (auto simp: fits_grain_def)
  have n: "unat (number_of_batches cfg) = (T + B - 1) div B" using fits_grainD(4) [OF assms(1)] assms(6,7) by simp
  let ?s = "did (OpenGrain (actual_index (vs_offset cfg) s)) (did MapBuffer s)"
  have "copied_bytes (commit_batches env cfg (actual_index (vs_offset cfg) s) 0 ((T + B - 1) div B) info' ?s)
      = copied_bytes ?s @ [0..<T * unat (vs_sliceSize cfg)] \<and>
    commits (commit_batches env cfg (actual_index (vs_offset cfg) s) 0 ((T + B - 1) div B) info' ?s)
      = commits ?s @ map (\<lambda>j. (actual_index (vs_offset cfg) s, min T ((j + 1) * B))) [0..<(T + B - 1) div B]"
    using commit_batches_copies [OF fits, of env "(T + B - 1) div B" 0] assms(5-7) by (simp add: info'_def)
  then show ?thesis
    using assms(2-4) nz n by (simp add: commit_frame_def Let_def info'_def)
qed

definition ex_video_source :: video_source where
  "ex_video_source = \<lparr>vs_frameHeight = 5, vs_frameRate = \<lparr>numerator = 25, denominator = 1\<rparr>, vs_sliceSize = 128,
     vs_slicesPerBatch = 2, vs_offset = 0\<rparr>"

definition ex_source_env :: source_env where
  "ex_source_env = \<lparr>sr_exit = (\<lambda>_. False), sr_sample = (\<lambda>_. None), sr_map = (\<lambda>_. True),
     sr_open = (\<lambda>_. (MXL_STATUS_OK, zero_grain_info\<lparr>totalSlices := 5, validSlices := 5\<rparr>)), sr_commit = (\<lambda>_. MXL_STATUS_OK),
     sr_open_samples = (\<lambda>_. (MXL_ERR_UNKNOWN, \<lparr>fragment0 = \<lparr>slice_pointer = 0, slice_size = 0\<rparr>,
       fragment1 = \<lparr>slice_pointer = 0, slice_size = 0\<rparr>, slice_stride = 0, slice_count = 0\<rparr>)),
     sr_ns_until = (\<lambda>_. 0)\<rparr>"

definition ex_source :: source where
  "ex_source = \<lparr>so_index = 100, so_pipeline = \<lparr>gp_mxlBaseTime = 0, gp_frameDurationNs = 40000000, gp_ptsWrapOffset = 0,
     gp_lastEmittedPts = 0\<rparr>, so_trace = []\<rparr>"

theorem frame_is_committed_whole_witness:
  "\<exists>s'. commit_frame ex_source_env ex_video_source ex_source = Ret (Inr s') \<and>
    copied_bytes s' = [0..<640] \<and> commits s' = [(100, 2), (100, 4), (100, 5)]"
proof -
  have "\<exists>s'. commit_frame ex_source_env ex_video_source ex_source = Ret (Inr s') \<and>
    copied_bytes s' = copied_bytes ex_source @ [0..<5 * unat (vs_sliceSize ex_video_source)] \<and>
    commits s' = commits ex_source @
      map (\<lambda>j. (actual_index (vs_offset ex_video_source) ex_source, min 5 ((j + 1) * 2))) [0..<(5 + 2 - 1) div 2]"
    by (rule frame_is_committed_whole [where info = "zero_grain_info\<lparr>totalSlices := 5, validSlices := 5\<rparr>"])
      (simp_all add: fits_grain_def ex_video_source_def ex_source_env_def zero_grain_info_def)
  moreover have "copied_bytes ex_source @ [0..<5 * unat (vs_sliceSize ex_video_source)] = [0..<640]"
    by (simp add: copied_bytes_def ex_source_def ex_video_source_def)
  moreover have "commits ex_source @ map (\<lambda>j. (actual_index (vs_offset ex_video_source) ex_source, min 5 ((j + 1) * 2))) [0..<(5 + 2 - 1) div 2]
      = [(100, 2), (100, 4), (100, 5 :: nat)]"
    by code_simp
  ultimately show ?thesis by simp
qed

section \<open>Skipped indices\<close>

text \<open>
  When every call succeeds the skipped indices are committed, each without data, up to but not including
  the index of the sample; the loop then goes on behind that index. The sample itself is lost.
\<close>

lemma skip_grains_step:
  assumes "so_index s < gstIndex" and "fst (sr_open env (so_trace s)) = MXL_STATUS_OK"
    and "sr_commit env (OpenGrain (actual_index off s) # so_trace s) = MXL_STATUS_OK"
  shows "\<exists>valid. skip_grains env off gstIndex s = skip_grains env off gstIndex
    (did (CommitGrain (actual_index off s) MXL_GRAIN_FLAG_INVALID valid) (did (OpenGrain (actual_index off s)) s)
      \<lparr>so_index := so_index s + 1\<rparr>)"
  using assms by (subst skip_grains.simps) (auto simp: Let_def split: prod.splits)

lemma skip_grains_commits:
  assumes "\<forall>tr. fst (sr_open env tr) = MXL_STATUS_OK" and "\<forall>tr. sr_commit env tr = MXL_STATUS_OK" and "so_index s \<le> gstIndex"
  shows "so_index (skip_grains env off gstIndex s) = gstIndex \<and> copied_bytes (skip_grains env off gstIndex s) = copied_bytes s \<and>
    map fst (commits (skip_grains env off gstIndex s)) =
      map fst (commits s) @ map (\<lambda>k. of_nat k - word_of_int off) [unat (so_index s)..<unat gstIndex]"
  using assms(3)
proof (induction "unat gstIndex - unat (so_index s)" arbitrary: s)
  case 0
  then have "so_index s = gstIndex" by (simp add: word_le_nat_alt word_unat_eq_iff)
  then have "skip_grains env off gstIndex s = s" by (subst skip_grains.simps) simp
  then show ?case using \<open>so_index s = gstIndex\<close> by simp
next
  case (Suc n)
  then have less: "so_index s < gstIndex" by (simp add: word_less_nat_alt)
  obtain valid where step: "skip_grains env off gstIndex s = skip_grains env off gstIndex
    (did (CommitGrain (actual_index off s) MXL_GRAIN_FLAG_INVALID valid) (did (OpenGrain (actual_index off s)) s)
      \<lparr>so_index := so_index s + 1\<rparr>)" (is "_ = skip_grains _ _ _ ?s")
    using skip_grains_step [OF less] assms(1,2) by blast
  have one: "unat (so_index s + 1) = unat (so_index s) + 1"
  proof -
    have "unat gstIndex < 2 ^ LENGTH(64)" by (rule unsigned_less)
    with less have "unat (so_index s) + 1 < 2 ^ LENGTH(64)" by (simp add: word_less_nat_alt)
    then show ?thesis using unat_add_lt [of "so_index s" 1] by simp
  qed
  have "unat gstIndex - unat (so_index ?s) = n" "so_index ?s \<le> gstIndex"
    using Suc.hyps(2) less one by (auto simp: word_less_nat_alt word_le_nat_alt)
  moreover have "copied_bytes ?s = copied_bytes s"
    "map fst (commits ?s) = map fst (commits s) @ [so_index s - word_of_int off]"
    by (simp_all add: copied_bytes_def commits_def did_def actual_index_def)
  moreover have "[unat (so_index s)..<unat gstIndex] = unat (so_index s) # [unat (so_index s) + 1..<unat gstIndex]"
    using less by (simp add: upt_conv_Cons word_less_nat_alt)
  ultimately show ?case
    using Suc.hyps(1) [of ?s] step one by simp
qed

lemma skipped_sample_is_lost:
  assumes "\<forall>tr. fst (sr_open env tr) = MXL_STATUS_OK" and "\<forall>tr. sr_commit env tr = MXL_STATUS_OK"
    and "so_index s < gstIndex"
  shows "\<exists>s'. after_sample env 1 (video_sample env cfg gstIndex s) = Ret (Inr s') \<and> so_index s' = gstIndex + 1 \<and>
    copied_bytes s' = copied_bytes s \<and>
    map fst (commits s') = map fst (commits s) @ map (\<lambda>k. of_nat k - word_of_int (vs_offset cfg)) [unat (so_index s)..<unat gstIndex]"
proof -
  have "first_index gstIndex s = s"
    using assms(3) word_n1_ge [of gstIndex] by (auto simp: first_index_def MXL_UNDEFINED_INDEX_def)
  then show ?thesis
    using assms skip_grains_commits [OF assms(1,2), of s gstIndex "vs_offset cfg"]
    by (auto simp: after_sample_def video_sample_def step_index_def Let_def copied_bytes_def commits_def did_def not_less)
qed

end
