(* ===== verification/InfoTool.thy ===== *)
theory InfoTool
  imports Json Timing Paths "HOL-Library.Char_ord" "HOL-Library.List_Lexorder" "HOL-Library.Multiset"
begin

text \<open>
  The information tool (\<open>tools/mxl-info/main.cpp\<close>): the latency it shows, the details it takes from a flow
  definition, the listing of a domain by groups, and the choice of what to do; and the helpers for flow
  definitions of the other tools (\<open>tools/mxl-gst/utils.hpp\<close>). The listing shows every flow it can read
  exactly once, and shows the group hint that the helpers set.
\<close>

section \<open>Helpers for flow definitions\<close>

text \<open>Serialising is third-party code, a parameter.\<close>

definition parseBuffer :: "services \<Rightarrow> string \<Rightarrow> (string \<times> json) list outcome" where
  "parseBuffer sv jsonBuffer =
     (case sv_parse sv jsonBuffer of
        None \<Rightarrow> Throw RuntimeError
      | Some parsed \<Rightarrow> (case parsed of JObj ob \<Rightarrow> Ret ob | _ \<Rightarrow> Throw RuntimeError))"

definition parseFile :: "services \<Rightarrow> string option \<Rightarrow> (string \<times> json) list outcome" where
  "parseFile sv contents = (case contents of None \<Rightarrow> Throw RuntimeError | Some txt \<Rightarrow> parseBuffer sv txt)"

definition getField :: "(json \<Rightarrow> 'a outcome) \<Rightarrow> (string \<times> json) list \<Rightarrow> string \<Rightarrow> 'a outcome" where
  "getField conv ob name = (case map_of ob name of None \<Rightarrow> Throw RuntimeError | Some v \<Rightarrow> conv v)"

definition getFieldOr :: "(json \<Rightarrow> 'a outcome) \<Rightarrow> (string \<times> json) list \<Rightarrow> string \<Rightarrow> 'a \<Rightarrow> 'a" where
  "getFieldOr conv ob name otherwise =
     (case map_of ob name of None \<Rightarrow> otherwise | Some v \<Rightarrow> (case conv v of Ret a \<Rightarrow> a | _ \<Rightarrow> otherwise))"

definition getRational :: "(string \<times> json) list \<Rightarrow> string \<Rightarrow> mxlRational outcome" where
  "getRational ob name =
     obind (getField json_object ob name) (\<lambda>rationalObj.
     obind (obind (getField json_number rationalObj ''numerator'') cast_u32) (\<lambda>n.
     obind (cast_u32 (getFieldOr json_number rationalObj ''denominator'' 1)) (\<lambda>d.
     Ret \<lparr>numerator = uint n, denominator = uint d\<rparr>)))"

fun put :: "string \<Rightarrow> json \<Rightarrow> (string \<times> json) list \<Rightarrow> (string \<times> json) list" where
  "put k v [] = [(k, v)]"
| "put k v ((k', v') # ob) = (if k' = k then (k, v) # ob else (k', v') # put k v ob)"

definition GROUP_HINT_TAG :: string where "GROUP_HINT_TAG = ''urn:x-nmos:tag:grouphint/v1.0''"

text \<open>
  A flow without tags has no element to change: dereferencing the end of the object is undefined. Asking for
  the tag creates it as null when it is missing, which is not an array.
\<close>

definition updateGroupHint :: "string \<Rightarrow> string \<Rightarrow> (string \<times> json) list \<Rightarrow> (string \<times> json) list outcome" where
  "updateGroupHint groupHint roleInGroup nmosFlow =
     (case map_of nmosFlow ''tags'' of
        None \<Rightarrow> Crash BadIterator
      | Some tags \<Rightarrow>
          obind (json_object tags) (\<lambda>tagsObj.
          obind (json_array (case map_of tagsObj GROUP_HINT_TAG of None \<Rightarrow> JNull | Some v \<Rightarrow> v)) (\<lambda>_.
          Ret (put ''tags'' (JObj (put GROUP_HINT_TAG (JArr [JStr (groupHint @ '':'' @ roleInGroup)]) tagsObj)) nmosFlow))))"

definition serializeJson :: "(json \<Rightarrow> string) \<Rightarrow> (string \<times> json) list \<Rightarrow> string" where
  "serializeJson serialize ob = serialize (JObj ob)"

lemma map_of_put: "map_of (put k v ob) = (map_of ob)(k \<mapsto> v)"
  by (induction k v ob rule: put.induct) auto

section \<open>Latency\<close>

datatype colour = Green | Yellow | Red

record latency =
  lt_inTheFuture :: bool
  lt_grains :: u64
  lt_ns :: u64
  lt_colour :: colour

definition outputLatency :: "u64 \<Rightarrow> u64 \<Rightarrow> mxlRational \<Rightarrow> u64 \<Rightarrow> latency" where
  "outputLatency now hd_index rate limit =
     (let currentIndex = mxlTimestampToIndex (Some rate) now;
          inTheFuture = (currentIndex < hd_index);
          latencyGrains = (if inTheFuture then hd_index - currentIndex else currentIndex - hd_index);
          latencyNs = (if inTheFuture then mxlIndexToTimestamp (Some rate) hd_index - now
                       else now - mxlIndexToTimestamp (Some rate) hd_index)
      in \<lparr>lt_inTheFuture = inTheFuture, lt_grains = latencyGrains, lt_ns = latencyNs,
          lt_colour = (if latencyGrains > limit \<or> inTheFuture then Red else if latencyGrains = limit then Yellow else Green)\<rparr>)"

text \<open>The limit is the length of the flow's buffer; other formats show no latency.\<close>

definition flow_latency :: "u64 \<Rightarrow> mxlFlowInfo \<Rightarrow> latency option" where
  "flow_latency now info =
     (let cfg = config info; rate = grainRate (common cfg); head = headIndex (runtime info) in
      if mxlIsDiscreteDataFormat (cfg_format (common cfg)) then Some (outputLatency now head rate (ucast (grainCount (discrete cfg))))
      else if mxlIsContinuousDataFormat (cfg_format (common cfg)) then Some (outputLatency now head rate (ucast (bufferLength (continuous cfg))))
      else None)"

section \<open>Details of a flow\<close>

definition first_colon :: "string \<Rightarrow> string \<times> string" where
  "first_colon s = (takeWhile (\<lambda>c. c \<noteq> CHR '':'') s, drop 1 (dropWhile (\<lambda>c. c \<noteq> CHR '':'') s))"

definition flow_label :: "(string \<times> json) list \<Rightarrow> string" where
  "flow_label ob = (case map_of ob ''label'' of Some (JStr s) \<Rightarrow> s | _ \<Rightarrow> ''n/a'')"

definition group_hint :: "(string \<times> json) list \<Rightarrow> string \<times> string" where
  "group_hint ob =
     (case map_of ob ''tags'' of
        Some (JObj tagsObj) \<Rightarrow>
          (case map_of tagsObj GROUP_HINT_TAG of
             Some (JArr (JStr s # _)) \<Rightarrow> first_colon s
           | _ \<Rightarrow> ([], []))
      | _ \<Rightarrow> ([], []))"

text \<open>Text that does not parse, or is not an object, leaves the defaults: nothing is thrown.\<close>

definition getFlowDetails :: "services \<Rightarrow> string \<Rightarrow> string \<times> string \<times> string" where
  "getFlowDetails sv flowDef =
     (case sv_parse sv flowDef of
        Some (JObj ob) \<Rightarrow> (flow_label ob, group_hint ob)
      | _ \<Rightarrow> (''n/a'', [], []))"

section \<open>The listing\<close>

definition generateMxlAddress :: "services \<Rightarrow> string \<Rightarrow> uuid list \<Rightarrow> string" where
  "generateMxlAddress sv domain flowIds =
     ''mxl://'' @ domain @ ''?'' @
       concat (map (\<lambda>i. ''id='' @ sv_uuid_to_string sv (flowIds ! i) @ (if i < length flowIds - 1 then ''&'' else []))
         [0..<length flowIds])"

type_synonym listed = "uuid \<times> string \<times> string"

text \<open>Groups in the order of their names, flows in the order in which they were found.\<close>

fun add_to_group :: "string \<Rightarrow> listed \<Rightarrow> (string \<times> listed list) list \<Rightarrow> (string \<times> listed list) list" where
  "add_to_group name x [] = [(name, [x])]"
| "add_to_group name x ((name', xs) # groups) =
     (if name = name' then (name', xs @ [x]) # groups
      else if name < name' then (name, [x]) # (name', xs) # groups
      else (name', xs) # add_to_group name x groups)"

text \<open>
  An entry of the domain's directory: its name and whether it is a directory. The flow definition is read
  into a buffer of 4096 characters, with its terminating null; a flow whose definition cannot be read is
  reported and left out.
\<close>

definition listed_flow :: "services \<Rightarrow> (string \<Rightarrow> mxlStatus \<times> string) \<Rightarrow> string \<times> bool \<Rightarrow> (string \<times> listed) option" where
  "listed_flow sv flowDef entry =
     (let (name, isDir) = entry; idStr = path_stem name in
      if isDir \<and> path_extension name = FLOW_DIRECTORY_NAME_SUFFIX then
        (case sv_uuid_from_string sv idStr of
           None \<Rightarrow> None
         | Some fid \<Rightarrow>
             (let (status, txt) = flowDef idStr in
              if status \<noteq> MXL_STATUS_OK then None
              else let (label, groupName, roleInGroup) = getFlowDetails sv txt in Some (groupName, fid, label, roleInGroup)))
      else None)"

fun collect_groups :: "services \<Rightarrow> (string \<Rightarrow> mxlStatus \<times> string) \<Rightarrow> (string \<times> bool) list \<Rightarrow>
    (string \<times> listed list) list \<Rightarrow> (string \<times> listed list) list" where
  "collect_groups sv flowDef [] groups = groups"
| "collect_groups sv flowDef (e # es) groups =
     collect_groups sv flowDef es
       (case listed_flow sv flowDef e of None \<Rightarrow> groups | Some (name, x) \<Rightarrow> add_to_group name x groups)"

text \<open>A line of the listing: the role, the flow, its label, and whether the line is flagged.\<close>

definition role_text :: "string \<Rightarrow> string" where
  "role_text roleInGroup = (if roleInGroup = [] then ''MISSING ROLE'' else roleInGroup)"

fun group_lines :: "bool \<Rightarrow> string set \<Rightarrow> bool \<Rightarrow> listed list \<Rightarrow> (string \<times> uuid \<times> string \<times> bool) list" where
  "group_lines invalidGroup seen conflicts [] = []"
| "group_lines invalidGroup seen conflicts ((fid, label, roleInGroup) # xs) =
     (let conflicts' = (conflicts \<or> (roleInGroup \<noteq> [] \<and> roleInGroup \<in> seen));
          seen' = (if roleInGroup \<noteq> [] then insert roleInGroup seen else seen);
          issues = (invalidGroup \<or> conflicts' \<or> roleInGroup = [])
      in (role_text roleInGroup, fid, label, issues) # group_lines invalidGroup seen' conflicts' xs)"

type_synonym group_listing = "string \<times> string \<times> (string \<times> uuid \<times> string \<times> bool) list"

definition show_group :: "services \<Rightarrow> string \<Rightarrow> string \<times> listed list \<Rightarrow> group_listing" where
  "show_group sv domain g =
     (let (name, xs) = g in (name, generateMxlAddress sv domain (map fst xs), group_lines (name = []) {} False xs))"

text \<open>
  The whole call: whether the instance could be made, the domain's directory if it is one, the answer of
  the instance's destruction. True is success.
\<close>

definition listAllFlows ::
  "services \<Rightarrow> bool \<Rightarrow> (string \<times> bool) list option \<Rightarrow> (string \<Rightarrow> mxlStatus \<times> string) \<Rightarrow> mxlStatus \<Rightarrow> string \<Rightarrow> group_listing list \<times> bool" where
  "listAllFlows sv hasInstance entries flowDef destroyed domain =
     (if \<not> hasInstance then ([], False)
      else let groups = (case entries of None \<Rightarrow> [] | Some es \<Rightarrow> collect_groups sv flowDef es []) in
        (map (show_group sv domain) groups, destroyed = MXL_STATUS_OK))"

section \<open>One flow, garbage collection, and the choice\<close>

text \<open>Printing a flow: what is shown, and success. A constructor that fails throws.\<close>

definition printFlow ::
  "bool \<Rightarrow> mxlStatus \<Rightarrow> mxlStatus \<times> mxlFlowInfo \<Rightarrow> u64 \<Rightarrow> mxlStatus \<times> bool \<Rightarrow>
    ((mxlFlowInfo \<times> latency option \<times> bool option) option \<times> bool) outcome" where
  "printFlow hasInstance created info now active =
     (if \<not> hasInstance then Throw RuntimeError
      else if created \<noteq> MXL_STATUS_OK then Ret (None, False)
      else if fst info \<noteq> MXL_STATUS_OK then Ret (None, False)
      else Ret (Some (snd info, flow_latency now (snd info), if fst active = MXL_STATUS_OK then Some (snd active) else None), True))"

definition garbage_collect_tool :: "bool \<Rightarrow> mxlStatus \<Rightarrow> bool outcome" where
  "garbage_collect_tool hasInstance status = (if \<not> hasInstance then Throw RuntimeError else Ret (status = MXL_STATUS_OK))"

fun tryRun :: "bool outcome \<Rightarrow> bool outcome" where
  "tryRun (Throw e) = Ret False"
| "tryRun r = r"

datatype info_action = CollectGarbage | ListFlows | PrintFlow

definition chosen_action :: "bool \<Rightarrow> bool \<Rightarrow> string \<Rightarrow> info_action" where
  "chosen_action gc list flowId = (if gc then CollectGarbage else if list \<or> flowId = [] then ListFlows else PrintFlow)"

section \<open>What is shown\<close>

lemma first_colon_append: "CHR '':'' \<notin> set g \<Longrightarrow> first_colon (g @ CHR '':'' # r) = (g, r)"
proof -
  assume g: "CHR '':'' \<notin> set g"
  then have "\<And>c. c \<in> set g \<Longrightarrow> c \<noteq> CHR '':''" by auto
  then show ?thesis by (simp add: first_colon_def takeWhile_append dropWhile_append)
qed

theorem group_hint_is_shown:
  assumes "updateGroupHint groupHint roleInGroup flow = Ret flow'"
    and "sv_parse sv (serialize (JObj flow')) = Some (JObj flow')" and "CHR '':'' \<notin> set groupHint"
  shows "snd (getFlowDetails sv (serializeJson serialize flow')) = (groupHint, roleInGroup)"
proof -
  obtain tagsObj where f: "flow' = put ''tags'' (JObj (put GROUP_HINT_TAG (JArr [JStr (groupHint @ '':'' @ roleInGroup)]) tagsObj)) flow"
    using assms(1) by (auto simp: updateGroupHint_def outcome_simps split: option.splits)
  have "group_hint flow' = first_colon (groupHint @ '':'' @ roleInGroup)"
    by (simp add: f group_hint_def map_of_put)
  then show ?thesis
    using assms(2,3) by (simp add: getFlowDetails_def serializeJson_def first_colon_append)
qed

definition ex_flow_def :: "(string \<times> json) list" where
  "ex_flow_def = [(''label'', JStr ''Camera''), (''tags'', JObj [(GROUP_HINT_TAG, JArr [])])]"

definition ex_info_services :: services where
  "ex_info_services = \<lparr>sv_parse = (\<lambda>s. if s = ''A'' then Some (JObj (put ''tags''
       (JObj [(GROUP_HINT_TAG, JArr [JStr ''Studio:video''])]) ex_flow_def)) else None),
     sv_uuid_from_string = (\<lambda>_. None), sv_uuid_to_string = (\<lambda>_. [])\<rparr>"

theorem group_hint_is_shown_witness:
  "\<exists>flow'. updateGroupHint ''Studio'' ''video'' ex_flow_def = Ret flow' \<and>
    snd (getFlowDetails ex_info_services (serializeJson (\<lambda>_. ''A'') flow')) = (''Studio'', ''video'')"
proof -
  have u: "updateGroupHint ''Studio'' ''video'' ex_flow_def =
      Ret (put ''tags'' (JObj [(GROUP_HINT_TAG, JArr [JStr ''Studio:video''])]) ex_flow_def)"
    by (simp add: updateGroupHint_def ex_flow_def_def)
  then show ?thesis
    using group_hint_is_shown [OF u, of ex_info_services "\<lambda>_. ''A''"] by (simp add: ex_info_services_def)
qed

definition listed_in :: "(string \<times> listed list) list \<Rightarrow> (string \<times> listed) list" where
  "listed_in groups = concat (map (\<lambda>(name, xs). map (Pair name) xs) groups)"

lemma add_to_group_mset: "mset (listed_in (add_to_group name x groups)) = add_mset (name, x) (mset (listed_in groups))"
  by (induction name x groups rule: add_to_group.induct) (auto simp: listed_in_def)

lemma add_to_group_names: "set (map fst (add_to_group name x groups)) = insert name (set (map fst groups))"
  by (induction name x groups rule: add_to_group.induct) auto

lemma add_to_group_sorted:
  "sorted_wrt (<) (map fst groups) \<Longrightarrow> sorted_wrt (<) (map fst (add_to_group name x groups))"
proof (induction name x groups rule: add_to_group.induct)
  case (1 name x)
  then show ?case by simp
next
  case (2 name x name' xs groups)
  then show ?case using add_to_group_names [of name x groups]
    by (auto simp: not_less intro: less_trans) 
qed

lemma collect_groups_listing:
  "sorted_wrt (<) (map fst groups) \<Longrightarrow>
    sorted_wrt (<) (map fst (collect_groups sv flowDef es groups)) \<and>
    mset (listed_in (collect_groups sv flowDef es groups)) =
      mset (listed_in groups) + mset (List.map_filter (listed_flow sv flowDef) es)"
proof (induction es arbitrary: groups)
  case Nil
  then show ?case by (simp add: List.map_filter_simps)
next
  case (Cons e es)
  show ?case
  proof (cases "listed_flow sv flowDef e")
    case None
    then show ?thesis using Cons by (simp add: List.map_filter_simps)
  next
    case (Some y)
    obtain name x where y: "y = (name, x)" by (cases y)
    show ?thesis
      using Cons.IH [OF add_to_group_sorted [OF Cons.prems, of name x]] Some y
      by (simp add: List.map_filter_simps add_to_group_mset)
  qed
qed

lemma listing_is_complete:
  "sorted_wrt (<) (map fst (collect_groups sv flowDef es [])) \<and>
    mset (listed_in (collect_groups sv flowDef es [])) = mset (List.map_filter (listed_flow sv flowDef) es)"
  using collect_groups_listing [of "[]"] by (simp add: listed_in_def)

text \<open>
  A line is flagged exactly when its group has no name, it has no role, or some role has occurred twice up
  to it: a conflict flags every later flow of the group, and not the first one that has the role.
\<close>

definition role_of :: "listed \<Rightarrow> string" where
  "role_of x = snd (snd x)"

definition conflict_at :: "string set \<Rightarrow> listed list \<Rightarrow> nat \<Rightarrow> bool" where
  "conflict_at seen xs j \<longleftrightarrow> role_of (xs ! j) \<noteq> [] \<and> (role_of (xs ! j) \<in> seen \<or> (\<exists>k<j. role_of (xs ! k) = role_of (xs ! j)))"

lemma conflict_at_0: "conflict_at seen (x # xs) 0 \<longleftrightarrow> role_of x \<noteq> [] \<and> role_of x \<in> seen"
  by (simp add: conflict_at_def)

lemma conflict_at_Suc:
  "conflict_at seen (x # xs) (Suc j) \<longleftrightarrow> conflict_at (if role_of x \<noteq> [] then insert (role_of x) seen else seen) xs j"
  by (auto simp: conflict_at_def Ex_less_Suc2)

lemma group_lines_flags:
  "i < length xs \<Longrightarrow> snd (snd (snd (group_lines invalid seen conflicts xs ! i))) \<longleftrightarrow>
    invalid \<or> conflicts \<or> role_of (xs ! i) = [] \<or> (\<exists>j<Suc i. conflict_at seen xs j)"
proof (induction invalid seen conflicts xs arbitrary: i rule: group_lines.induct)
  case (1 invalid seen conflicts)
  then show ?case by simp
next
  case (2 invalid seen conflicts fid label roleInGroup xs)
  show ?case
  proof (cases i)
    case 0
    then show ?thesis by (auto simp: Let_def role_of_def conflict_at_def)
  next
    case (Suc i')
    then have i': "i' < length xs" using "2.prems" by simp
    define seen' where "seen' = (if roleInGroup \<noteq> [] then insert roleInGroup seen else seen)"
    define conflicts' where "conflicts' = (conflicts \<or> (roleInGroup \<noteq> [] \<and> roleInGroup \<in> seen))"
    have ex: "(\<exists>j<Suc i. conflict_at seen ((fid, label, roleInGroup) # xs) j) \<longleftrightarrow>
        (roleInGroup \<noteq> [] \<and> roleInGroup \<in> seen) \<or> (\<exists>j<Suc i'. conflict_at seen' xs j)"
      unfolding Suc Ex_less_Suc2 [of "Suc i'"] conflict_at_0 conflict_at_Suc by (simp add: role_of_def seen'_def)
    have "snd (snd (snd (group_lines invalid seen' conflicts' xs ! i'))) \<longleftrightarrow>
        invalid \<or> conflicts' \<or> role_of (xs ! i') = [] \<or> (\<exists>j<Suc i'. conflict_at seen' xs j)"
      using "2.IH" [OF conflicts'_def seen'_def refl i'] by simp
    moreover have "group_lines invalid seen conflicts ((fid, label, roleInGroup) # xs) ! i = group_lines invalid seen' conflicts' xs ! i'"
      by (simp add: Suc Let_def seen'_def conflicts'_def)
    ultimately show ?thesis
      unfolding ex by (simp add: Suc conflicts'_def) blast
  qed
qed

end
