(* ===== verification/Spec2Isabelle.thy ===== *)
theory Spec2Isabelle
  imports DiscreteRing ContinuousRing ApiContract FabricsContract Relay AncProbe MediaSink MediaSource InfoTool
begin

text \<open>
  MXL, the Media eXchange Layer, lets processes on one machine exchange video, data and audio through
  files mapped into shared memory, and lets machines exchange them by remote writes over libfabric. This
  library models the C++ of \<open>lib/internal\<close>, \<open>lib/src\<close> and \<open>lib/fabrics/ofi\<close>: the flow library with its C
  interface, and the fabrics library with its C interface; and the tools, clients of the two interfaces.

  \<^bold>\<open>How the program is put together.\<close> A flow is a directory with a descriptor, a data file that holds the
  flow's header, and the payload: for a discrete flow one file per grain, for a continuous flow one file
  with a ring buffer per channel. An instance hands out readers and writers of the flows of one domain,
  counts references to them, and removes the flow of a released last writer; garbage collection removes
  flows whose data file nobody holds a lock on. A writer opens a grain or a range of samples, fills it and
  commits it, which publishes a new head in the header and wakes the readers, who sleep on a futex in the
  header. Groups wait for several readers at once. A thread watches the access files of flows so that
  writers learn when they were last read. In the fabrics library an initiator reads a local flow and
  writes its grains or samples into the memory of targets, which learn from the immediate data of a write
  what has arrived.

  \<^bold>\<open>Conventions.\<close> (\<open>Prelude\<close>) A C++ call is an \<open>outcome\<close>: a value, an exception by its C++ type, or
  \<open>Crash\<close>, a state the language gives no meaning to (null or dangling pointers, division by zero, an
  empty optional) or the end of the process; no handler sees a \<open>Crash\<close>. Unsigned integers are words of
  their width and wrap; signed ones are \<open>int\<close> values brought back into their range where the code
  computes with them (\<open>wrap64\<close>, \<open>wrap128\<close>). A size is 64 bits wide, as on 64 bit Linux. What the
  environment does is a function of the number of operations performed so far: the memory and the clock
  a reader sees, the system calls that fail, what libfabric answers. Statements for every such function
  are statements about every interleaving and every failure.

  \<^bold>\<open>Time and data.\<close> \<open>Timing\<close> (\<open>Timing.hpp\<close>, \<open>Rational.hpp\<close>, \<open>ClockHelpers.hpp\<close>, \<open>IndexConversion.hpp\<close>,
  \<open>Time.cpp\<close>, \<open>Timing.cpp\<close>, \<open>Thread.cpp\<close>, \<open>time.cpp\<close>): points in time, durations and the conversion
  between time stamps and grain indices; the round trip of the conversion and its monotonicity.
  \<open>FlowTypes\<close> (\<open>mxl.h\<close>, \<open>dataformat.h\<close>, \<open>flowinfo.h\<close>, \<open>flow.h\<close>, \<open>MediaUtils.cpp\<close>, \<open>FlowInfo.cpp\<close>):
  status codes, headers, slices, line lengths.

  \<^bold>\<open>Readers and writers.\<close> \<open>Sync\<close> (\<open>Sync.cpp\<close>): waiting on the synchronisation counter. \<open>Blocking\<close>: the
  contract of the two blocking read loops as a locale, which the readers interpret; it yields that a loop
  returns, what it returns, and that it does not miss an update. \<open>DiscreteFlow\<close> and \<open>ContinuousFlow\<close>
  (\<open>PosixDiscreteFlowReader.cpp\<close>, \<open>PosixDiscreteFlowWriter.cpp\<close> and the continuous pair): every operation
  on the ring. \<open>DiscreteRing\<close> and \<open>ContinuousRing\<close>: a writer whose stores are single steps, with
  readers between any two of them, and a history of everything written; the invariants say what of the
  history the ring still holds, and the readers' theorems that what is read is what was written.

  \<^bold>\<open>Definitions and options.\<close> \<open>Json\<close>, \<open>FlowParser\<close>, \<open>FlowOptions\<close> (\<open>FlowParser.cpp\<close>,
  \<open>FlowOptionsParser.cpp\<close>): which flow definitions and options are accepted, and the sizes derived from
  them.

  \<^bold>\<open>Files and flows.\<close> \<open>FileSystem\<close>: a tree of directories and files with locks, descriptors and failures.
  \<open>SharedMemory\<close> (\<open>SharedMemory.hpp\<close>, \<open>SharedMemory.cpp\<close>), \<open>Paths\<close> (\<open>PathUtils.cpp\<close>), \<open>FlowManager\<close>
  (\<open>FlowManager.cpp\<close>, \<open>FlowData.hpp\<close>): segments, names, and creating, opening, listing and deleting
  flows. \<open>Effects\<close> and \<open>Staging\<close>: triples for all outcomes and the assertion \<open>staged\<close>, by which
  \<open>FlowStore\<close>, \<open>FlowCreation\<close> and \<open>ContinuousCreation\<close> prove that creation publishes a complete flow or
  leaves no trace, whatever fails when, that opening changes nothing, and that the descriptors of a call
  that throws are closed. The locale \<open>descriptor_frame\<close> is what these proofs need of an assertion.

  \<^bold>\<open>Instances.\<close> \<open>SyncGroup\<close> (\<open>FlowSynchronizationGroup.cpp\<close>): groups, over the contract
  \<open>waitable_reader\<close>. \<open>DomainWatcher\<close> (\<open>DomainWatcher.cpp\<close>): the Linux branch over inotify, whose
  kernel side drops the watches of deleted files, and the runs of a watcher in a changing world. \<open>FlowIo\<close>
  (\<open>FlowIoFactory.cpp\<close>, the constructors and destructors of readers and writers), \<open>Instance\<close>
  (\<open>Instance.cpp\<close>). \<open>InstanceLife\<close>, \<open>InstanceRelease\<close>, \<open>Collection\<close>, \<open>WriterRelease\<close>: the reference
  counts refine a multiset of handles, groups only hold live readers, and neither garbage collection nor
  the release of a writer removes a flow in use.

  \<^bold>\<open>The C interface.\<close> \<open>FlowApi\<close> (\<open>flow.cpp\<close>, \<open>mxl.cpp\<close>): argument checks, deadlines and catch clauses.
  \<open>ApiContract\<close>: what the catch clauses return, blocking and non-blocking reads agree on a flow
  nobody writes, the size protocol of flow definitions, and inactive flows are the collected ones.

  \<^bold>\<open>Fabrics: data.\<close> \<open>Fabric\<close> (\<open>Completion.cpp\<close>, \<open>CompletionQueue.cpp\<close>, \<open>Event.cpp\<close>, \<open>EventQueue.cpp\<close>,
  \<open>Endpoint.cpp\<close>, \<open>PassiveEndpoint.cpp\<close>, \<open>AddressVector.cpp\<close>, \<open>Domain.cpp\<close>): the wrappers of libfabric
  objects, as programs over numbered handles. \<open>FabricsData\<close> (\<open>Region.cpp\<close>, \<open>LocalRegion.cpp\<close>,
  \<open>RemoteRegion.cpp\<close>, \<open>GrainSlices.cpp\<close>, \<open>ImmData.cpp\<close>, \<open>Provider.cpp\<close>), \<open>BounceBuffer\<close>
  (\<open>AudioBounceBuffer.cpp\<close>), \<open>RmaTransfer\<close> (\<open>ProtocolEgressRMA.cpp\<close>, \<open>ProtocolIngressRMA.cpp\<close>,
  \<open>Protocol.cpp\<close>): slices cover a grain, gathered writes are contiguous, what is sent arrives under the
  same index. \<open>Base64\<close> (\<open>Base64.hpp\<close>) and \<open>TargetInfoText\<close> (\<open>TargetInfo.cpp\<close>, \<open>Address.cpp\<close>): the text
  a target is described by; its tables are the literal ones of the code, related by evaluation to the
  rule that generates them, and decoding inverts encoding.

  \<^bold>\<open>Fabrics: peers.\<close> \<open>Peers\<close>, \<open>RcInitiator\<close> (\<open>RCInitiator.cpp\<close>), \<open>RdmInitiator\<close> (\<open>RDMInitiator.cpp\<close>),
  \<open>Targets\<close> (\<open>RCTarget.cpp\<close>, \<open>RDMTarget.cpp\<close>, \<open>QueueHelpers.hpp\<close>): the state machines of a connection,
  the counts of pending writes, which transitions are final, and that both kinds of target deliver the
  same. \<open>FabricsApi\<close> (\<open>fabrics.cpp\<close>, \<open>FabricInstance.cpp\<close>, \<open>Initiator.cpp\<close>, \<open>Target.cpp\<close>) and
  \<open>FabricsContract\<close>: the C interface, the ownership of the objects behind its pointers (the locale
  \<open>object_heap\<close>, interpreted for targets and for initiators), the round trip of target descriptions, and
  that a peer without a setup refuses every operation.

  \<^bold>\<open>The tools.\<close> \<open>Relay\<close> (\<open>tools/mxl-fabrics-demo/demo.cpp\<close>): the loops that relay a flow over the network,
  over whatever the two C interfaces answer. The relay of grains refines a cursor that moves through
  every slice of every grain, so that with the coverage theorem of \<open>FabricsData\<close> every byte is sent once;
  a reader that is late in the middle of a grain breaks this, as the code keeps the first slice to send.
  \<open>MediaSource\<close> (\<open>tools/mxl-gst/testsrc.cpp\<close>): the writer that commits a pipeline's frames and samples,
  frames in batches that cover them; a sample whose index is reached by skipping is lost. \<open>MediaSink\<close>
  (\<open>tools/mxl-gst/sink.cpp\<close>): the player, whose cursor follows the clock so that data are pushed in
  order. \<open>AncProbe\<close> (\<open>tools/mxl-data-probe/main.cpp\<close>): the parser of ancillary data, equal to a
  reference by bit positions, which shows that user data words are read two bits late. \<open>InfoTool\<close>
  (\<open>tools/mxl-info/main.cpp\<close>, \<open>tools/mxl-gst/utils.hpp\<close>): the listing of a domain and the details of a
  flow. In \<open>MediaSource\<close> and \<open>MediaSink\<close> the answers of the environment are functions of the trace of
  calls, so that the clock can be required to have passed what was slept for.

  \<^bold>\<open>Bounds.\<close> The loops that may not end take a bound and answer \<open>None\<close> when it is reached: the blocking
  reads (\<open>getGrainImplUntil\<close> and its siblings), the waits of groups, the reads of two queues at once
  (\<open>read_until\<close>), the polls of \<open>RcInitiator\<close> (\<open>pollCQ\<close>, \<open>pollEQ\<close>, \<open>progress_until\<close>), the silence that
  \<open>MediaSource\<close> writes (\<open>skip_samples\<close>). The loops of the player and of the test source run until the
  process is told to stop: their theorems are about any number of rounds. Termination is
  proved as such: a blocking read returns when the bound exceeds the number of operations until its
  deadline (\<open>ends_after_deadline\<close>), a group wait returns (\<open>group_wait_returns\<close>), a poll returns once the
  queue answers that it is empty, for every bound beyond that answer (\<open>poll_ends_with_empty_queue\<close>).

  \<^bold>\<open>Assumptions.\<close> Code that is not in the repository is a parameter: the JSON library (\<open>sv_parse\<close>,
  \<open>sv_serialize\<close>), the UUID library, the kernel and libfabric. Hypotheses about it are local to the
  theorems that need them: that UUID text is not a path, that the JSON library reads what it wrote, that
  the tokens drawn by \<open>random_device\<close> differ. The clients of \<open>DiscreteRing\<close> open grain indices in
  non-decreasing order, as the media clock gives them.

  \<^bold>\<open>Not modelled.\<close> Conversions of time to and from \<open>double\<close>, yielding, and the thread's real-time
  priority; the printer of flow information and the loggers (\<open>Logging.cpp\<close>, \<open>FILogging.cpp\<close>), which only
  format text; \<open>mxlGetVersion\<close>, whose numbers the build generates; the branches for macOS (kqueue,
  \<open>__ulock\<close>) and for big endian machines; the attribute structures passed to libfabric, the copying
  of the lists it returns, and flags of memory registration, which only libfabric interprets; the command
  lines of the tools and what they print; the construction of GStreamer pipelines and the file player
  \<open>looping_filesrc.cpp\<close>, which mostly drive that library; examples and tests, which are clients of the
  interfaces modelled here; the Rust bindings.
\<close>

end
